(* ===== verification/Prelude.thy ===== *)
theory Prelude
  imports Main "HOL-Library.Word" "HOL-Library.Signed_Division"
begin

text \<open>
  Shared vocabulary of the development: the machine integer types of \<open>libs/types.h\<close>, the
  result type of kernel code (a value, or the reason why control never comes back), and the
  byte-addressed memory every pointer of the kernel points into, with little-endian loads
  and stores and the facts about overlap that the component proofs use.
\<close>

unbundle bit_operations_syntax

named_theorems res_simps \<open>unfolding of sequenced kernel code\<close>
named_theorems mem_simps \<open>reading a memory after a write\<close>

section \<open>Machine integers (libs/types.h)\<close>

type_synonym u8 = "8 word"
type_synonym u16 = "16 word"
type_synonym u32 = "32 word"
type_synonym u64 = "64 word"

section \<open>Results of kernel code\<close>

text \<open>
  \<open>panic\<close> (libs/printf.c) prints its message and then loops forever, so a panic is an outcome
  that no caller survives. \<open>Hang\<close> is a wait that nothing can end in the modelled state: a
  spin on a lock another hart holds, a poll of a device that does not answer. \<open>Undef\<close> is an access
  past an array, for which C promises nothing.
\<close>

datatype stop = Panic string | Hang string | Undef string

type_synonym 'a res = "stop + 'a"

text \<open>
  An access through a null pointer traps in the kernel; \<open>KernelTrap\<close> (trap/trap.cpp) finds no
  device interrupt and panics.
\<close>

definition null_deref :: "'a res" where
  "null_deref = Inl (Panic ''kerneltrap'')"

fun bnd :: "'e + 'a \<Rightarrow> ('a \<Rightarrow> 'e + 'b) \<Rightarrow> 'e + 'b" where
  "bnd (Inl e) f = Inl e"
| "bnd (Inr x) f = f x"

lemma bnd_cong [fundef_cong]:
  "m = m' \<Longrightarrow> (\<And>x. m' = Inr x \<Longrightarrow> f x = g x) \<Longrightarrow> bnd m f = bnd m' g"
  by (cases m') auto

lemma bnd_Inr_iff [res_simps]: "bnd m f = Inr y \<longleftrightarrow> (\<exists>x. m = Inr x \<and> f x = Inr y)"
  by (cases m) auto

lemma bnd_Inl_iff [res_simps]:
  "bnd m f = Inl e \<longleftrightarrow> m = Inl e \<or> (\<exists>x. m = Inr x \<and> f x = Inl e)"
  by (cases m) auto

lemma bnd_assoc: "bnd (bnd m f) g = bnd m (\<lambda>x. bnd (f x) g)"
  by (cases m) auto

lemma bnd_Inr_right [simp]: "bnd m Inr = m"
  by (cases m) auto

lemma bnd_split:
  "P (bnd m f) \<longleftrightarrow> (\<forall>e. m = Inl e \<longrightarrow> P (Inl e)) \<and> (\<forall>x. m = Inr x \<longrightarrow> P (f x))"
  by (cases m) auto

text \<open>Sequencing of code that may also run forever (\<open>None\<close>).\<close>

definition opt_bnd :: "'b res option \<Rightarrow> ('b \<Rightarrow> 'c res option) \<Rightarrow> 'c res option" where
  "opt_bnd m f = (case m of None \<Rightarrow> None | Some (Inl e) \<Rightarrow> Some (Inl e) | Some (Inr x) \<Rightarrow> f x)"

lemma opt_bnd_bind: "opt_bnd m f = Option.bind m (\<lambda>r. case r of Inl e \<Rightarrow> Some (Inl e) | Inr x \<Rightarrow> f x)"
  by (auto simp: opt_bnd_def split: option.splits sum.splits)

lemma opt_bnd_mono [partial_function_mono]:
  assumes "mono_option m" "\<And>y. mono_option (\<lambda>f. k y f)"
  shows "mono_option (\<lambda>f. opt_bnd (m f) (\<lambda>y. k y f))"
proof -
  have "mono_option (\<lambda>f. case r of Inl e \<Rightarrow> Some (Inl e) | Inr x \<Rightarrow> k x f)" for r
    using assms(2) by (cases r) (auto simp: monotone_def flat_ord_def)
  then show ?thesis unfolding opt_bnd_bind by (intro bind_mono assms(1))
qed

lemma opt_bnd_simps [simp]:
  "opt_bnd (Some (Inr x)) f = f x" "opt_bnd (Some (Inl e)) f = Some (Inl e)" "opt_bnd None f = None"
  by (simp_all add: opt_bnd_def)

text \<open>The bytes of a string literal.\<close>

definition bytes_of :: "string \<Rightarrow> u8 list" where
  "bytes_of str = map of_char str"

section \<open>Byte-addressed memory\<close>

type_synonym mem = "u64 \<Rightarrow> u8"

text \<open>\<open>ldn n m a\<close> reads \<open>n\<close> bytes at \<open>a\<close>, least significant first; \<open>stn\<close> writes them.\<close>

fun ldn :: "nat \<Rightarrow> mem \<Rightarrow> u64 \<Rightarrow> nat" where
  "ldn 0 m a = 0"
| "ldn (Suc n) m a = unat (m a) + 256 * ldn n m (a + 1)"

fun stn :: "nat \<Rightarrow> mem \<Rightarrow> u64 \<Rightarrow> nat \<Rightarrow> mem" where
  "stn 0 m a v = m"
| "stn (Suc n) m a v = stn n (m(a := word_of_nat v)) (a + 1) (v div 256)"

definition ld64 :: "mem \<Rightarrow> u64 \<Rightarrow> u64" where
  "ld64 m a = word_of_nat (ldn 8 m a)"

definition st64 :: "mem \<Rightarrow> u64 \<Rightarrow> u64 \<Rightarrow> mem" where
  "st64 m a v = stn 8 m a (unat v)"

definition ld32 :: "mem \<Rightarrow> u64 \<Rightarrow> u32" where
  "ld32 m a = word_of_nat (ldn 4 m a)"

definition st32 :: "mem \<Rightarrow> u64 \<Rightarrow> u32 \<Rightarrow> mem" where
  "st32 m a v = stn 4 m a (unat v)"

subsection \<open>Offsets in the 64-bit address space\<close>

lemma unat_diff_Suc:
  fixes a b :: u64
  assumes "b \<noteq> a"
  shows "unat (b - a) = Suc (unat (b - (a + 1)))"
proof -
  have "b - a \<noteq> 0" using assms by simp
  then have "unat (b - a - 1) = unat (b - a) - 1" "unat (b - a) \<noteq> 0"
    by (auto simp: unat_minus_one unat_eq_0)
  then show ?thesis by (simp add: diff_diff_eq)
qed

lemma unat_diff_self_pred:
  fixes a :: u64
  shows "unat (a - (a + 1)) = 2 ^ 64 - 1"
proof -
  have "a - (a + 1) = (0 :: u64) - 1" by simp
  then have e: "a - (a + 1) = (0xFFFFFFFFFFFFFFFF :: u64)" by simp
  show ?thesis unfolding e by simp
qed

lemma stn_apply:
  assumes "n \<le> 2 ^ 64 - 1"
  shows "stn n m a v b =
    (if unat (b - a) < n then word_of_nat (v div 256 ^ unat (b - a)) else m b)"
  using assms
proof (induction n arbitrary: m a v)
  case 0
  then show ?case by simp
next
  case (Suc n)
  show ?case
  proof (cases "b = a")
    case True
    have "\<not> unat (a - (a + 1)) < n" using Suc.prems by (simp only: unat_diff_self_pred)
    with True Suc show ?thesis by simp
  next
    case False
    with Suc show ?thesis
      by (simp add: unat_diff_Suc [OF False] div_mult2_eq)
  qed
qed

lemma ldn_cong:
  "(\<And>i. i < n \<Longrightarrow> m (a + word_of_nat i) = m' (a + word_of_nat i)) \<Longrightarrow> ldn n m a = ldn n m' a"
proof (induction n arbitrary: a)
  case 0
  then show ?case by simp
next
  case (Suc n)
  have "m a = m' a" using Suc.prems [of 0] by simp
  moreover have "ldn n m (a + 1) = ldn n m' (a + 1)"
  proof (rule Suc.IH)
    fix i assume "i < n"
    then show "m (a + 1 + word_of_nat i) = m' (a + 1 + word_of_nat i)"
      using Suc.prems [of "Suc i"] by (simp add: add_ac)
  qed
  ultimately show ?case by simp
qed

text \<open>A memory of zeros.\<close>

lemma ldn_zero [simp]: "ldn n (\<lambda>_. 0) a = 0"
  by (induction n arbitrary: a) auto

lemma unat_off:
  fixes a :: u64
  assumes "i < 2 ^ 64"
  shows "unat (a + word_of_nat i - a) = i"
  using assms by (simp add: unat_of_nat)

lemma unat_add_off:
  fixes s :: u64
  assumes "unat s + n < 2 ^ 64"
  shows "unat (s + word_of_nat n) = unat s + n"
  using assms by (simp add: unat_word_ariths unat_of_nat)

lemma off_eq_iff:
  fixes a b :: u64
  assumes "unat a + i < 2 ^ 64" "unat b + j < 2 ^ 64"
  shows "a + word_of_nat i = b + word_of_nat j \<longleftrightarrow> unat a + i = unat b + j"
  by (simp only: word_unat_eq_iff unat_add_off [OF assms(1)] unat_add_off [OF assms(2)])

lemma off_split:
  fixes d x :: u64
  obtains k where "x = d + word_of_nat k" "k = unat (x - d)" "k < 2 ^ 64"
  using that [of "unat (x - d)"] unsigned_less [of "x - d", where ?'a = nat] by simp

lemma ldn_of_digits:
  assumes "n \<le> 2 ^ 64 - 1"
    and "\<And>i. i < n \<Longrightarrow> m (a + word_of_nat i) = word_of_nat (v div 256 ^ i)"
  shows "ldn n m a = v mod 256 ^ n"
  using assms
proof (induction n arbitrary: a v)
  case 0
  then show ?case by simp
next
  case (Suc n)
  have hd: "unat (m a) = v mod 256"
    using Suc.prems(2) [of 0] by (simp add: unat_of_nat)
  have "ldn n m (a + 1) = (v div 256) mod 256 ^ n"
  proof (rule Suc.IH)
    show "n \<le> 2 ^ 64 - 1" using Suc.prems(1) by simp
    fix i assume "i < n"
    then show "m (a + 1 + word_of_nat i) = word_of_nat (v div 256 div 256 ^ i)"
      using Suc.prems(2) [of "Suc i"] by (simp add: add_ac div_mult2_eq)
  qed
  with hd show ?case by (simp add: mod_mult2_eq add_ac)
qed

lemma ldn_stn_same:
  assumes "n \<le> 2 ^ 64 - 1"
  shows "ldn n (stn n m a v) a = v mod 256 ^ n"
  by (rule ldn_of_digits) (use assms in \<open>auto simp: stn_apply unat_of_nat\<close>)

lemma ldn_stn_other:
  assumes "k \<le> 2 ^ 64 - 1"
    and "\<And>i. i < n \<Longrightarrow> \<not> unat (a + word_of_nat i - b) < k"
  shows "ldn n (stn k m b v) a = ldn n m a"
  by (rule ldn_cong) (use assms in \<open>simp add: stn_apply\<close>)

subsection \<open>Aligned cells\<close>

text \<open>
  A cell of size \<open>2^k\<close> at an aligned address is the set of addresses with the same quotient:
  overlap questions about aligned cells are equations between quotients.
\<close>

lemma in_cell_iff:
  fixes a x :: u64
  assumes "k < 64" and al: "unat a mod 2 ^ k = 0"
  shows "unat (x - a) < 2 ^ k \<longleftrightarrow> unat x div 2 ^ k = unat a div 2 ^ k"
proof -
  obtain q where q: "unat a = 2 ^ k * q" using al by auto
  have p0: "(0::nat) < 2 ^ k" by simp
  show ?thesis
  proof (cases "a \<le> x")
    case True
    then have u: "unat (x - a) = unat x - unat a" and le: "unat a \<le> unat x"
      by (simp_all add: unat_sub word_le_nat_alt)
    have "unat x - unat a < 2 ^ k \<longleftrightarrow> unat x div 2 ^ k = q"
    proof
      assume "unat x - unat a < 2 ^ k"
      then have "unat x < 2 ^ k * Suc q" "2 ^ k * q \<le> unat x" using le q by auto
      then show "unat x div 2 ^ k = q"
        by (metis div_nat_eqI mult.commute)
    next
      assume d: "unat x div 2 ^ k = q"
      have "unat x = 2 ^ k * (unat x div 2 ^ k) + unat x mod 2 ^ k" by simp
      with d q have "unat x - unat a = unat x mod 2 ^ k" by simp
      then show "unat x - unat a < 2 ^ k" by simp
    qed
    with u q show ?thesis by simp
  next
    case False
    then have lt: "unat x < unat a" by (simp add: word_le_nat_alt)
    have e: "(2::nat) ^ 64 = 2 ^ k * 2 ^ (64 - k)"
      using assms(1) by (simp flip: power_add)
    have "unat a < 2 ^ 64" using unsigned_less [of a, where ?'a = nat] by simp
    then have "2 ^ k * q < 2 ^ k * 2 ^ (64 - k)" unfolding e q .
    then have "q < 2 ^ (64 - k)" by simp
    then have "Suc q \<le> 2 ^ (64 - k)" by simp
    then have "2 ^ k * Suc q \<le> (2::nat) ^ 64" unfolding e by (rule mult_le_mono2)
    then have ub: "unat a + 2 ^ k \<le> 2 ^ 64" using q by simp
    have "unat (x - a) = 2 ^ 64 + unat x - unat a"
      using False lt by (simp add: unat_sub_if')
    then have "\<not> unat (x - a) < 2 ^ k" using ub by simp
    moreover have "unat x div 2 ^ k < q"
      using lt q by (metis less_mult_imp_div_less mult.commute)
    ultimately show ?thesis using q by simp
  qed
qed

lemma cell_offset_div:
  fixes a :: u64
  assumes "k < 64" and "unat a mod 2 ^ k = 0" and "i < 2 ^ k"
  shows "unat (a + word_of_nat i) div 2 ^ k = unat a div 2 ^ k"
proof -
  have "(2::nat) ^ k < 2 ^ 64" using assms(1) by (intro power_strict_increasing) auto
  with assms(3) have "i < 2 ^ 64" by linarith
  then have "unat (a + word_of_nat i - a) < 2 ^ k" using assms(3) unat_off [of i a] by simp
  with in_cell_iff [OF assms(1,2), of "a + word_of_nat i"] show ?thesis by simp
qed

lemma ldn_stn_cell_other:
  fixes a b :: u64
  assumes k: "k < 64" and al: "unat a mod 2 ^ k = 0" "unat b mod 2 ^ k = 0" and ne: "a \<noteq> b"
  shows "ldn (2 ^ k) (stn (2 ^ k) m b v) a = ldn (2 ^ k) m a"
proof (rule ldn_stn_other)
  have "(2::nat) ^ k < 2 ^ 64" using k by (intro power_strict_increasing) auto
  then show "(2::nat) ^ k \<le> 2 ^ 64 - 1" by simp
  fix i :: nat assume i: "i < 2 ^ k"
  show "\<not> unat (a + word_of_nat i - b) < 2 ^ k"
  proof
    assume "unat (a + word_of_nat i - b) < 2 ^ k"
    then have "unat (a + word_of_nat i) div 2 ^ k = unat b div 2 ^ k"
      using in_cell_iff [OF k al(2)] by blast
    moreover have "unat (a + word_of_nat i) div 2 ^ k = unat a div 2 ^ k"
      by (rule cell_offset_div [OF k al(1) i])
    ultimately have "unat a div 2 ^ k = unat b div 2 ^ k" by simp
    with al have "unat a = unat b" by (metis mult_div_mod_eq)
    with ne show False by (simp add: word_unat_eq_iff)
  qed
qed

lemma ldn8_stn8_other:
  assumes "unat a mod 8 = 0" "unat b mod 8 = 0" "a \<noteq> b"
  shows "ldn 8 (stn 8 m b v) a = ldn 8 m a"
  using ldn_stn_cell_other [of 3 a b m v] assms by (simp del: ldn.simps stn.simps)

lemma ldn4_stn4_other:
  assumes "unat a mod 4 = 0" "unat b mod 4 = 0" "a \<noteq> b"
  shows "ldn 4 (stn 4 m b v) a = ldn 4 m a"
  using ldn_stn_cell_other [of 2 a b m v] assms by (simp del: ldn.simps stn.simps)

lemma ld32_st32_same [mem_simps, simp]: "ld32 (st32 m a v) a = v"
  by (simp add: ld32_def st32_def ldn_stn_same del: ldn.simps stn.simps)
     (use unsigned_less [of v, where ?'a = nat] in simp)

lemma ld32_st32_other [mem_simps]:
  "unat a mod 4 = 0 \<Longrightarrow> unat b mod 4 = 0 \<Longrightarrow> a \<noteq> b \<Longrightarrow> ld32 (st32 m b v) a = ld32 m a"
  by (simp add: ld32_def st32_def ldn4_stn4_other del: ldn.simps stn.simps)

lemma ld64_st64_same [mem_simps, simp]: "ld64 (st64 m a v) a = v"
  by (simp add: ld64_def st64_def ldn_stn_same del: ldn.simps stn.simps)
     (use unsigned_less [of v, where ?'a = nat] in simp)

lemma ld64_st64_other [mem_simps]:
  "unat a mod 8 = 0 \<Longrightarrow> unat b mod 8 = 0 \<Longrightarrow> a \<noteq> b \<Longrightarrow> ld64 (st64 m b v) a = ld64 m a"
  by (simp add: ld64_def st64_def ldn8_stn8_other del: ldn.simps stn.simps)

lemma st64_apply: "st64 m a v x =
    (if unat (x - a) < 8 then word_of_nat (unat v div 256 ^ unat (x - a)) else m x)"
  unfolding st64_def by (rule stn_apply) simp

lemma ld64_cong:
  "(\<And>i. i < 8 \<Longrightarrow> m (a + word_of_nat i) = m' (a + word_of_nat i)) \<Longrightarrow> ld64 m a = ld64 m' a"
  unfolding ld64_def by (simp only: ldn_cong [of 8 m a m'])

lemma ld64_zero [simp]: "ld64 (\<lambda>_. 0) a = 0" "ld32 (\<lambda>_. 0) a = 0"
  by (simp_all add: ld64_def ld32_def del: ldn.simps)

section \<open>Counting loops\<close>

lemma unat_succ_less:
  fixes i t :: "'a::len word"
  assumes "i < t"
  shows "unat (i + 1) = Suc (unat i)"
proof -
  have "unat i < unat t" "unat t < 2 ^ LENGTH('a)" using assms unsigned_less [of t, where ?'a = nat] by (simp_all add: word_less_nat_alt)
  then have "unat i + 1 < 2 ^ LENGTH('a)" by linarith
  then show ?thesis by (cases "LENGTH('a) = 1") (simp_all add: unat_word_ariths)
qed

lemma word_loop_less:
  fixes i t :: "'a::len word"
  assumes "i < t"
  shows "unat (t - (i + 1)) < unat (t - i)"
proof -
  have l: "unat i < unat t" using assms by (simp add: word_less_nat_alt)
  then have "i + 1 \<le> t" using unat_succ_less [OF assms] by (simp add: word_le_nat_alt)
  then have "unat (t - (i + 1)) = unat t - Suc (unat i)"
    using unat_succ_less [OF assms] by (simp add: unat_sub)
  moreover have "unat (t - i) = unat t - unat i" using assms by (simp add: unat_sub)
  ultimately show ?thesis using l by simp
qed

section \<open>Signed division of non-negative numbers\<close>

lemma sdiv_nonneg: "0 \<le> a \<Longrightarrow> 0 < b \<Longrightarrow> a sdiv b = a div (b :: int)"
  by (cases "a = 0") (simp_all add: signed_divide_int_def sgn_if)

lemma smod_nonneg: "0 \<le> a \<Longrightarrow> 0 < b \<Longrightarrow> a smod b = a mod (b :: int)"
  unfolding smod_int_alt_def by (cases "a = 0") (simp_all add: sgn_if abs_if)

section \<open>Searching a table\<close>

text \<open>The least index of the \<open>n\<close> from \<open>i\<close> on that satisfies the test, as the table scans find it.\<close>

fun first_from :: "(nat \<Rightarrow> bool) \<Rightarrow> nat \<Rightarrow> nat \<Rightarrow> nat option" where
  "first_from P 0 i = None"
| "first_from P (Suc n) i = (if P i then Some i else first_from P n (Suc i))"

lemma first_from_None: "first_from P n i = None \<longleftrightarrow> (\<forall>k. i \<le> k \<and> k < i + n \<longrightarrow> \<not> P k)"
proof (induction P n i rule: first_from.induct)
  case (2 P n i)
  have e: "i \<le> k \<longleftrightarrow> k = i \<or> Suc i \<le> k" for k by auto
  show ?case unfolding e using 2 by auto
qed auto

lemma first_from_Some:
  "first_from P n i = Some j \<longleftrightarrow> i \<le> j \<and> j < i + n \<and> P j \<and> (\<forall>k. i \<le> k \<and> k < j \<longrightarrow> \<not> P k)"
proof (induction P n i rule: first_from.induct)
  case (2 P n i)
  have e: "i \<le> k \<longleftrightarrow> k = i \<or> Suc i \<le> k" for k by auto
  show ?case
  proof (cases "P i")
    case True
    thus ?thesis by (auto simp: le_less)
  next
    case False
    hence "(i \<le> j \<and> j < i + Suc n \<and> P j \<and> (\<forall>k. i \<le> k \<and> k < j \<longrightarrow> \<not> P k))
       \<longleftrightarrow> (Suc i \<le> j \<and> j < Suc i + n \<and> P j \<and> (\<forall>k. Suc i \<le> k \<and> k < j \<longrightarrow> \<not> P k))"
      unfolding e by auto
    thus ?thesis using 2 False by simp
  qed
qed simp

text \<open>A bounded quantifier with a concrete bound, for evaluation.\<close>

lemma all_less_upt: "(\<forall>k < n. P k) \<longleftrightarrow> list_all P [0..<n]"
  by (auto simp: list_all_iff)

end
