(* ===== verification/Riscv.thy ===== *)
theory Riscv
  imports Prelude
begin

text \<open>
  The constants and macros of \<open>libs/riscv.h\<close>, \<open>mm/memlayout.h\<close> and \<open>libs/param.h\<close> (the
  K210 build: \<open>QEMU\<close> undefined), as 64-bit words, with their arithmetic: page rounding, the
  Sv39 index of a virtual address, and the packing of a page address in a page-table entry.
\<close>

section \<open>libs/riscv.h: pages, Sv39 and page-table entries\<close>

definition PGSIZE :: u64 where "PGSIZE = 4096"
definition PGSHIFT :: nat where "PGSHIFT = 12"

definition PGROUNDUP :: "u64 \<Rightarrow> u64" where
  "PGROUNDUP sz = (sz + PGSIZE - 1) AND NOT (PGSIZE - 1)"

definition PGROUNDDOWN :: "u64 \<Rightarrow> u64" where
  "PGROUNDDOWN a = a AND NOT (PGSIZE - 1)"

definition PTE_V :: u64 where "PTE_V = 1"
definition PTE_R :: u64 where "PTE_R = push_bit 1 1"
definition PTE_W :: u64 where "PTE_W = push_bit 2 1"
definition PTE_X :: u64 where "PTE_X = push_bit 3 1"
definition PTE_U :: u64 where "PTE_U = push_bit 4 1"

definition PAGE2PTE :: "u64 \<Rightarrow> u64" where
  "PAGE2PTE pa = push_bit 10 (drop_bit 12 pa)"

definition PTE2PAGE :: "u64 \<Rightarrow> u64" where
  "PTE2PAGE pte = push_bit 12 (drop_bit 10 pte)"

definition PTE_FLAGS :: "u64 \<Rightarrow> u64" where
  "PTE_FLAGS pte = pte AND 0x3FF"

definition PXMASK :: u64 where "PXMASK = 0x1FF"

definition PXSHIFT :: "nat \<Rightarrow> nat" where
  "PXSHIFT level = PGSHIFT + 9 * level"

definition PX :: "nat \<Rightarrow> u64 \<Rightarrow> u64" where
  "PX level va = drop_bit (PXSHIFT level) va AND PXMASK"

definition MAXVA :: u64 where "MAXVA = push_bit (9 + 9 + 9 + 12 - 1) 1"

definition SATP_SV39 :: u64 where "SATP_SV39 = push_bit 60 8"

definition MAKE_SATP :: "u64 \<Rightarrow> u64" where
  "MAKE_SATP pagetable = SATP_SV39 OR drop_bit 12 pagetable"

definition SSTATUS_SPP :: u64 where "SSTATUS_SPP = push_bit 8 1"
definition SSTATUS_SPIE :: u64 where "SSTATUS_SPIE = push_bit 5 1"
definition SSTATUS_SIE :: u64 where "SSTATUS_SIE = push_bit 1 1"

section \<open>mm/memlayout.h and libs/param.h\<close>

definition VIRT_OFFSET :: u64 where "VIRT_OFFSET = 0x3F00000000"
definition UART :: u64 where "UART = 0x38000000"
definition UART_V :: u64 where "UART_V = UART + VIRT_OFFSET"
definition CLINT :: u64 where "CLINT = 0x02000000"
definition CLINT_V :: u64 where "CLINT_V = CLINT + VIRT_OFFSET"
definition PLIC :: u64 where "PLIC = 0x0c000000"
definition PLIC_V :: u64 where "PLIC_V = PLIC + VIRT_OFFSET"

definition KERNBASE :: u64 where "KERNBASE = 0x80020000"
definition PHYSTOP :: u64 where "PHYSTOP = 0x80600000"
definition RUSTSBI_BASE :: u64 where "RUSTSBI_BASE = 0x80000000"
definition MAXUVA :: u64 where "MAXUVA = RUSTSBI_BASE"
definition TRAMPOLINE :: u64 where "TRAMPOLINE = MAXVA - PGSIZE"
definition TRAPFRAME :: u64 where "TRAPFRAME = TRAMPOLINE - PGSIZE"
definition VKSTACK :: u64 where "VKSTACK = 0x3EC0000000"

definition NPROC :: nat where "NPROC = 50"
definition NOFILE :: nat where "NOFILE = 120"
definition NFILE :: nat where "NFILE = 100"
definition NOMMAPFILE :: nat where "NOMMAPFILE = 16"
definition MAXARG :: nat where "MAXARG = 32"
definition MAXPATH :: nat where "MAXPATH = 64"

lemmas layout_defs =
  PGSIZE_def PGSHIFT_def PTE_V_def PTE_R_def PTE_W_def PTE_X_def PTE_U_def PXMASK_def
  PXSHIFT_def MAXVA_def VIRT_OFFSET_def UART_def UART_V_def CLINT_def CLINT_V_def PLIC_def
  PLIC_V_def KERNBASE_def PHYSTOP_def RUSTSBI_BASE_def MAXUVA_def TRAMPOLINE_def
  TRAPFRAME_def VKSTACK_def

section \<open>Their arithmetic\<close>

lemma PGSIZE_mask: "PGSIZE - 1 = mask 12"
  by (simp add: PGSIZE_def mask_eq_exp_minus_1)

lemma PXMASK_mask: "PXMASK = mask 9"
  by (simp add: PXMASK_def mask_eq_exp_minus_1)

lemma flags_mask: "(0x3FF :: u64) = mask 10"
  by (simp add: mask_eq_exp_minus_1)

lemma PGROUNDDOWN_bits: "PGROUNDDOWN a = push_bit 12 (drop_bit 12 a)"
  unfolding PGROUNDDOWN_def PGSIZE_mask
  by (rule bit_word_eqI) (auto simp: bit_simps)

lemma unat_PGROUNDDOWN: "unat (PGROUNDDOWN a) = unat a div 4096 * 4096"
proof -
  have "unat a div 4096 * 4096 < 18446744073709551616"
    using unsigned_less [of a, where ?'a = nat] by simp
  then show ?thesis
    by (simp add: PGROUNDDOWN_bits unat_drop_bit_eq drop_bit_eq_div push_bit_eq_mult
        unat_word_ariths)
qed

lemma PGROUNDDOWN_le: "PGROUNDDOWN a \<le> a"
  by (simp add: word_le_nat_alt unat_PGROUNDDOWN)

lemma PGROUNDDOWN_aligned: "unat (PGROUNDDOWN a) mod 4096 = 0"
  by (simp add: unat_PGROUNDDOWN)

lemma PGROUNDDOWN_id: "unat a mod 4096 = 0 \<Longrightarrow> PGROUNDDOWN a = a"
  by (simp add: word_unat_eq_iff unat_PGROUNDDOWN mod_eq_0_iff_dvd)

lemma PGROUNDDOWN_offset: "unat (a - PGROUNDDOWN a) = unat a mod 4096"
proof -
  have "unat (a - PGROUNDDOWN a) = unat a - unat a div 4096 * 4096"
    by (simp add: unat_sub PGROUNDDOWN_le unat_PGROUNDDOWN)
  then show ?thesis by (simp add: minus_div_mult_eq_mod)
qed

lemma unat_PX: "unat (PX level va) = unat va div 2 ^ (12 + 9 * level) mod 512"
proof -
  have "PX level va = take_bit 9 (drop_bit (12 + 9 * level) va)"
    by (simp add: PX_def PXMASK_mask PXSHIFT_def PGSHIFT_def take_bit_eq_mask)
  then have "unat (PX level va) = take_bit 9 (unat (drop_bit (12 + 9 * level) va))"
    by (simp only: unsigned_take_bit_eq)
  also have "\<dots> = unat va div 2 ^ (12 + 9 * level) mod 512"
    by (simp only: unat_drop_bit_eq) (simp add: take_bit_eq_mod drop_bit_eq_div)
  finally show ?thesis .
qed

lemma PX_less: "unat (PX level va) < 512"
  by (simp add: unat_PX)

lemma unat_MAXVA: "unat MAXVA = 2 ^ 38"
  by (simp add: MAXVA_def)

text \<open>Below \<open>MAXVA\<close> the three indices and the page offset determine the address.\<close>

lemma va_of_indices:
  assumes "va < MAXVA"
  shows "unat va = unat (PX 2 va) * 2 ^ 30 + unat (PX 1 va) * 2 ^ 21 + unat (PX 0 va) * 2 ^ 12
    + unat va mod 4096"
proof -
  have lt: "unat va < 2 ^ 38"
    using assms by (simp add: word_less_nat_alt unat_MAXVA)
  then have "unat va div 2 ^ 30 < 512" by simp
  then have "unat (PX 2 va) = unat va div 2 ^ 30" by (simp add: unat_PX)
  moreover have "unat va div 2 ^ 21 = unat va div 2 ^ 30 * 512 + unat (PX 1 va)"
    by (simp add: unat_PX div_mult2_eq [of _ "2 ^ 21" "512", simplified])
  moreover have "unat va div 2 ^ 12 = unat va div 2 ^ 21 * 512 + unat (PX 0 va)"
    by (simp add: unat_PX div_mult2_eq [of _ "2 ^ 12" "512", simplified])
  moreover have "unat va = unat va div 2 ^ 12 * 4096 + unat va mod 4096" by simp
  ultimately show ?thesis by simp
qed

lemma page_eq_of_indices:
  assumes "va < MAXVA" "va' < MAXVA"
    and "PX 2 va = PX 2 va'" "PX 1 va = PX 1 va'" "PX 0 va = PX 0 va'"
  shows "PGROUNDDOWN va = PGROUNDDOWN va'"
proof -
  have "unat va - unat va mod 4096 = unat va' - unat va' mod 4096"
    using va_of_indices [OF assms(1)] va_of_indices [OF assms(2)] assms(3-5) by simp
  then have "unat va div 4096 * 4096 = unat va' div 4096 * 4096"
    by (simp only: minus_mod_eq_div_mult)
  then show ?thesis by (simp add: word_unat_eq_iff unat_PGROUNDDOWN)
qed

text \<open>A page address below 2^56 survives the trip through a page-table entry.\<close>

lemma small_bits:
  fixes w :: u64
  assumes "unat w < 2 ^ k" "bit w n"
  shows "n < k"
proof -
  have "take_bit k w = w"
    unfolding word_unat_eq_iff unsigned_take_bit_eq using assms(1) by (simp add: take_bit_eq_mod)
  with assms(2) show ?thesis by (metis bit_take_bit_iff)
qed

lemma aligned_bits:
  fixes w :: u64
  assumes "unat w mod 2 ^ k = 0" "bit w n"
  shows "k \<le> n"
proof (rule ccontr)
  assume "\<not> k \<le> n"
  have "take_bit k (unat w) = 0" using assms(1) by (simp add: take_bit_eq_mod)
  then have "take_bit k w = 0" by (metis unsigned_take_bit_eq unsigned_eq_0_iff)
  then have "\<not> bit (take_bit k w) n" by simp
  with assms(2) \<open>\<not> k \<le> n\<close> show False by (simp add: bit_take_bit_iff)
qed

lemma PTE2PAGE_PAGE2PTE:
  assumes "unat pa mod 4096 = 0" "unat pa < 2 ^ 56" "unat perm < 2 ^ 10"
  shows "PTE2PAGE (PAGE2PTE pa OR perm OR PTE_V) = pa"
proof (rule bit_word_eqI)
  fix n assume "n < LENGTH(64)"
  have "bit perm (10 + k) = False" for k using small_bits [OF assms(3)] by fastforce
  moreover have "bit pa n \<Longrightarrow> 12 \<le> n" using aligned_bits [of pa 12 n] assms(1) by simp
  moreover have "bit pa n \<Longrightarrow> n < 56" using small_bits [OF assms(2)] .
  ultimately show "bit (PTE2PAGE (PAGE2PTE pa OR perm OR PTE_V)) n = bit pa n"
    by (auto simp: PTE2PAGE_def PAGE2PTE_def PTE_V_def bit_simps)
qed

lemma PTE_FLAGS_PAGE2PTE:
  assumes "unat perm < 2 ^ 10"
  shows "PTE_FLAGS (PAGE2PTE pa OR perm OR PTE_V) = perm OR PTE_V"
proof (rule bit_word_eqI)
  fix n assume "n < LENGTH(64)"
  show "bit (PTE_FLAGS (PAGE2PTE pa OR perm OR PTE_V)) n = bit (perm OR PTE_V) n"
    using small_bits [OF assms, of n]
    by (auto simp: PTE_FLAGS_def PAGE2PTE_def PTE_V_def flags_mask bit_simps)
qed

end
