(* ===== verification/KString.thy ===== *)
theory KString
  imports Prelude
begin

text \<open>
  \<open>libs/string.c\<close>, over the byte-addressed memory of the prelude: block operations, C strings
  and the two wide-string conversions. Pointers are 64-bit words and every pointer step wraps
  as the hardware does. \<open>char\<close> is unsigned on this target. A loop that scans for a NUL is a
  partial function: \<open>None\<close> is a scan that never meets one.
\<close>

section \<open>Block operations\<close>

fun memset_loop :: "nat \<Rightarrow> mem \<Rightarrow> u64 \<Rightarrow> u8 \<Rightarrow> mem" where
  "memset_loop 0 m d c = m"
| "memset_loop (Suc n) m d c = memset_loop n (m(d := c)) (d + 1) c"

definition memset :: "mem \<Rightarrow> u64 \<Rightarrow> u8 \<Rightarrow> u32 \<Rightarrow> mem" where
  "memset m dst c n = memset_loop (unat n) m dst c"

fun memcmp_loop :: "nat \<Rightarrow> mem \<Rightarrow> u64 \<Rightarrow> u64 \<Rightarrow> int" where
  "memcmp_loop 0 m s1 s2 = 0"
| "memcmp_loop (Suc n) m s1 s2 =
     (if m s1 \<noteq> m s2 then uint (m s1) - uint (m s2) else memcmp_loop n m (s1 + 1) (s2 + 1))"

definition memcmp :: "mem \<Rightarrow> u64 \<Rightarrow> u64 \<Rightarrow> u32 \<Rightarrow> int" where
  "memcmp m v1 v2 n = memcmp_loop (unat n) m v1 v2"

text \<open>\<open>*d++ = *s++\<close> and \<open>*--d = *--s\<close>, \<open>n\<close> times.\<close>

fun copy_up :: "nat \<Rightarrow> mem \<Rightarrow> u64 \<Rightarrow> u64 \<Rightarrow> mem" where
  "copy_up 0 m d s = m"
| "copy_up (Suc n) m d s = copy_up n (m(d := m s)) (d + 1) (s + 1)"

fun copy_down :: "nat \<Rightarrow> mem \<Rightarrow> u64 \<Rightarrow> u64 \<Rightarrow> mem" where
  "copy_down 0 m d s = m"
| "copy_down (Suc n) m d s = copy_down n (m(d - 1 := m (s - 1))) (d - 1) (s - 1)"

definition memmove :: "mem \<Rightarrow> u64 \<Rightarrow> u64 \<Rightarrow> u32 \<Rightarrow> mem" where
  "memmove m dst src n =
     (if src < dst \<and> src + ucast n > dst
      then copy_down (unat n) m (dst + ucast n) (src + ucast n)
      else copy_up (unat n) m dst src)"

definition memcpy :: "mem \<Rightarrow> u64 \<Rightarrow> u64 \<Rightarrow> u32 \<Rightarrow> mem" where
  "memcpy m dst src n = memmove m dst src n"

section \<open>C strings\<close>

fun strncmp_loop :: "nat \<Rightarrow> mem \<Rightarrow> u64 \<Rightarrow> u64 \<Rightarrow> int" where
  "strncmp_loop 0 m p q = 0"
| "strncmp_loop (Suc n) m p q =
     (if m p \<noteq> 0 \<and> m p = m q then strncmp_loop n m (p + 1) (q + 1)
      else uint (m p) - uint (m q))"

definition strncmp :: "mem \<Rightarrow> u64 \<Rightarrow> u64 \<Rightarrow> u32 \<Rightarrow> int" where
  "strncmp m p q n = strncmp_loop (unat n) m p q"

text \<open>
  \<open>strncpy\<close>: the copy stops after a NUL, the rest of the \<open>n\<close> bytes is zeroed; a negative
  \<open>n\<close> copies nothing.
\<close>

fun strncpy_loop :: "nat \<Rightarrow> mem \<Rightarrow> u64 \<Rightarrow> u64 \<Rightarrow> mem" where
  "strncpy_loop 0 m s t = m"
| "strncpy_loop (Suc n) m s t =
     (if m t \<noteq> 0 then strncpy_loop n (m(s := m t)) (s + 1) (t + 1)
      else memset_loop n (m(s := m t)) (s + 1) 0)"

definition strncpy :: "mem \<Rightarrow> u64 \<Rightarrow> u64 \<Rightarrow> int \<Rightarrow> mem" where
  "strncpy m s t n = strncpy_loop (nat n) m s t"

definition toLowCase :: "u8 \<Rightarrow> u8" where
  "toLowCase c = (if 65 \<le> c \<and> c \<le> 90 then c + 32 else c)"

fun strncasecmp_loop :: "nat \<Rightarrow> mem \<Rightarrow> u64 \<Rightarrow> u64 \<Rightarrow> int" where
  "strncasecmp_loop 0 m p1 p2 = 0"
| "strncasecmp_loop (Suc n) m p1 p2 =
     (let result = uint (toLowCase (m p1)) - uint (toLowCase (m p2)) in
      if result \<noteq> 0 then result
      else if m p1 = 0 then result
      else strncasecmp_loop n m (p1 + 1) (p2 + 1))"

definition strncasecmp :: "mem \<Rightarrow> u64 \<Rightarrow> u64 \<Rightarrow> u64 \<Rightarrow> int" where
  "strncasecmp m s1 s2 n =
     (if s1 = s2 \<or> n = 0 then 0 else strncasecmp_loop (unat n) m s1 s2)"

text \<open>
  \<open>safestrcpy\<close>: at most \<open>n - 1\<close> bytes are copied, then \<open>*s = 0\<close> wherever \<open>s\<close> stands (one
  past the NUL when the loop stopped at one).
\<close>

fun safestrcpy_loop :: "nat \<Rightarrow> mem \<Rightarrow> u64 \<Rightarrow> u64 \<Rightarrow> mem" where
  "safestrcpy_loop 0 m s t = m(s := 0)"
| "safestrcpy_loop (Suc n) m s t =
     (if m t \<noteq> 0 then safestrcpy_loop n (m(s := m t)) (s + 1) (t + 1)
      else m(s := 0, s + 1 := 0))"

definition safestrcpy :: "mem \<Rightarrow> u64 \<Rightarrow> u64 \<Rightarrow> int \<Rightarrow> mem" where
  "safestrcpy m s t n = (if n \<le> 0 then m else safestrcpy_loop (nat (n - 1)) m s t)"

partial_function (option) strlen_from :: "mem \<Rightarrow> u64 \<Rightarrow> nat \<Rightarrow> nat option" where
  "strlen_from m s n = (if m (s + word_of_nat n) = 0 then Some n else strlen_from m s (Suc n))"

definition strlen :: "mem \<Rightarrow> u64 \<Rightarrow> nat option" where
  "strlen m s = strlen_from m s 0"

partial_function (option) strrchr_from :: "mem \<Rightarrow> u64 \<Rightarrow> u8 \<Rightarrow> u64 \<Rightarrow> u64 option" where
  "strrchr_from m s c ans =
     (if m s = 0 then Some ans else strrchr_from m (s + 1) c (if m s = c then s else ans))"

definition strrchr :: "mem \<Rightarrow> u64 \<Rightarrow> u8 \<Rightarrow> u64 option" where
  "strrchr m s c = strrchr_from m s c 0"

partial_function (option) strchr :: "mem \<Rightarrow> u64 \<Rightarrow> u8 \<Rightarrow> u64 option" where
  "strchr m s c = (if m s = 0 then Some 0 else if m s = c then Some s else strchr m (s + 1) c)"

section \<open>Wide strings\<close>

text \<open>
  A \<open>wchar\<close> is 16 bits. \<open>wnstr\<close> writes only the low byte of each wide character it copies;
  the final \<open>*dst = 0\<close> writes both. Lengths are non-negative at every call.
\<close>

fun wnstr :: "mem \<Rightarrow> u64 \<Rightarrow> u64 \<Rightarrow> nat \<Rightarrow> mem" where
  "wnstr m dst src 0 = stn 2 m dst 0"
| "wnstr m dst src (Suc len) =
     (if m src \<noteq> 0 then wnstr (m(dst := m src)) (dst + 2) (src + 1) len else stn 2 m dst 0)"

text \<open>
  \<open>snstr\<close>: the failing test of the first loop has already decremented \<open>len\<close>, so the second
  loop zeroes one byte fewer than remains.
\<close>

fun snstr :: "mem \<Rightarrow> u64 \<Rightarrow> u64 \<Rightarrow> nat \<Rightarrow> mem" where
  "snstr m dst src 0 = m"
| "snstr m dst src (Suc len) =
     (if ldn 2 m src \<noteq> 0
      then snstr (m(dst := word_of_nat (ldn 2 m src))) (dst + 1) (src + 2) len
      else memset_loop len m dst 0)"

fun wcsncmp :: "mem \<Rightarrow> u64 \<Rightarrow> u64 \<Rightarrow> nat \<Rightarrow> int" where
  "wcsncmp m s1 s2 0 = 0"
| "wcsncmp m s1 s2 (Suc len) =
     (if ldn 2 m s1 = 0 then 0
      else let ret = int (ldn 2 m s1) - int (ldn 2 m s2) in
        if ret \<noteq> 0 then ret else wcsncmp m (s1 + 2) (s2 + 2) len)"

section \<open>Block operations: what they leave in memory\<close>

lemma memset_loop_apply:
  "n \<le> 2 ^ 64 - 1 \<Longrightarrow> memset_loop n m d c x = (if unat (x - d) < n then c else m x)"
proof (induction n arbitrary: m d)
  case 0
  then show ?case by simp
next
  case (Suc n)
  show ?case
  proof (cases "x = d")
    case True
    have "\<not> unat (d - (d + 1)) < n" using Suc.prems by (simp only: unat_diff_self_pred)
    with True Suc show ?thesis by simp
  next
    case False
    with Suc show ?thesis by (simp add: unat_diff_Suc [OF False])
  qed
qed

lemma u32_bound: "unat (n :: u32) \<le> 2 ^ 64 - 1"
  using unsigned_less [of n, where ?'a = nat] by simp

lemma memset_apply [mem_simps]:
  "memset m d c n x = (if unat (x - d) < unat n then c else m x)"
  unfolding memset_def by (rule memset_loop_apply [OF u32_bound])

lemma copy_up_apply:
  assumes "unat s + n < 2 ^ 64" "unat d + n < 2 ^ 64" "unat d \<le> unat s \<or> unat s + n \<le> unat d"
  shows "copy_up n m d s x = (if unat (x - d) < n then m (s + (x - d)) else m x)"
  using assms
proof (induction n arbitrary: m d s)
  case 0
  then show ?case by simp
next
  case (Suc n)
  have u: "unat (d + 1) = unat d + 1" "unat (s + 1) = unat s + 1"
    using unat_add_off [of d 1] unat_add_off [of s 1] Suc.prems by simp_all
  have IH: "copy_up n (m(d := m s)) (d + 1) (s + 1) x =
     (if unat (x - (d + 1)) < n then (m(d := m s)) (s + 1 + (x - (d + 1))) else (m(d := m s)) x)"
    by (rule Suc.IH) (use Suc.prems u in auto)
  show ?case
  proof (cases "x = d")
    case True
    have "\<not> unat (d - (d + 1)) < n" using Suc.prems by (simp only: unat_diff_self_pred)
    with True IH show ?thesis by simp
  next
    case False
    note d = unat_diff_Suc [OF False]
    have "s + (x - d) \<noteq> d" if "unat (x - d) < Suc n"
    proof -
      obtain k where k: "x = d + word_of_nat k" "k = unat (x - d)" by (rule off_split)
      have "k \<noteq> 0" using k(2) d by simp
      have "s + word_of_nat k \<noteq> d + word_of_nat 0"
        using Suc.prems \<open>k \<noteq> 0\<close> that k(2) by (subst off_eq_iff) auto
      with k show ?thesis by simp
    qed
    with IH d False show ?thesis by simp
  qed
qed

lemma copy_down_apply:
  assumes "unat s + n < 2 ^ 64" "unat d + n < 2 ^ 64" "unat s \<le> unat d"
  shows "copy_down n m (d + word_of_nat n) (s + word_of_nat n) x =
     (if unat (x - d) < n then m (s + (x - d)) else m x)"
  using assms
proof (induction n arbitrary: m)
  case 0
  then show ?case by simp
next
  case (Suc n)
  let ?m = "m(d + word_of_nat n := m (s + word_of_nat n))"
  have IH: "copy_down n ?m (d + word_of_nat n) (s + word_of_nat n) x =
     (if unat (x - d) < n then ?m (s + (x - d)) else ?m x)"
    by (rule Suc.IH) (use Suc.prems in auto)
  obtain k where k: "x = d + word_of_nat k" "k = unat (x - d)" "k < 2 ^ 64" by (rule off_split)
  have "s + word_of_nat k \<noteq> d + word_of_nat n" if "k < n"
    using Suc.prems that by (subst off_eq_iff) auto
  then have ne: "s + (x - d) \<noteq> d + word_of_nat n" if "unat (x - d) < n"
    using that k(1) unfolding k(2) [symmetric] by (metis add_diff_cancel_left')
  have eq: "x = d + word_of_nat n \<longleftrightarrow> unat (x - d) = n"
  proof
    assume "unat (x - d) = n"
    then have "word_of_nat n = x - d" by (metis of_nat_unat ucast_id)
    then show "x = d + word_of_nat n" by simp
  next
    assume "x = d + word_of_nat n"
    then show "unat (x - d) = n" using unat_off [of n d] Suc.prems(2) by simp
  qed
  have "copy_down (Suc n) m (d + word_of_nat (Suc n)) (s + word_of_nat (Suc n)) x =
      copy_down n ?m (d + word_of_nat n) (s + word_of_nat n) x"
    by (simp add: add_ac)
  also have "\<dots> = (if unat (x - d) < Suc n then m (s + (x - d)) else m x)"
  proof (cases "x = d + word_of_nat n")
    case True
    then have "x - d = word_of_nat n" by simp
    with True IH eq show ?thesis by simp
  next
    case False
    with IH eq ne show ?thesis by (simp add: less_Suc_eq)
  qed
  finally show ?case .
qed

lemma memmove_apply:
  assumes "unat src + unat n < 2 ^ 64" "unat dst + unat n < 2 ^ 64"
  shows "memmove m dst src n x = (if unat (x - dst) < unat n then m (src + (x - dst)) else m x)"
proof -
  have c: "(ucast n :: u64) = word_of_nat (unat n)" by simp
  have u: "unat (src + ucast n) = unat src + unat n"
    unfolding c by (rule unat_add_off [OF assms(1)])
  show ?thesis
  proof (cases "src < dst \<and> src + ucast n > dst")
    case True
    then have "unat src \<le> unat dst" by (simp add: word_less_nat_alt)
    with True show ?thesis
      unfolding memmove_def c by (simp only: if_P copy_down_apply assms simp_thms)
  next
    case False
    then have "unat dst \<le> unat src \<or> unat src + unat n \<le> unat dst"
      by (auto simp: word_less_nat_alt u)
    with False show ?thesis
      unfolding memmove_def by (simp only: if_not_P if_False copy_up_apply assms)
  qed
qed

section \<open>C strings: lengths, bounds, termination\<close>

text \<open>A C string in memory.\<close>

fun cstr :: "mem \<Rightarrow> u64 \<Rightarrow> u8 list \<Rightarrow> bool" where
  "cstr m a [] \<longleftrightarrow> m a = 0"
| "cstr m a (x # xs) \<longleftrightarrow> m a = x \<and> x \<noteq> 0 \<and> cstr m (a + 1) xs"

lemma strlen_from_cstr:
  "cstr m (s + word_of_nat n) xs \<Longrightarrow> strlen_from m s n = Some (n + length xs)"
proof (induction xs arbitrary: n)
  case Nil
  then show ?case by (simp add: strlen_from.simps)
next
  case (Cons x xs)
  have "strlen_from m s (Suc n) = Some (Suc n + length xs)"
    by (rule Cons.IH) (use Cons.prems in \<open>simp add: add_ac\<close>)
  then show ?case using Cons.prems by (subst strlen_from.simps) simp
qed

lemma strlen_cstr: "cstr m s xs \<Longrightarrow> strlen m s = Some (length xs)"
  unfolding strlen_def using strlen_from_cstr [of m s 0 xs] by simp

lemma cstr_nth: "cstr m a cs \<Longrightarrow> i < length cs \<Longrightarrow> m (a + word_of_nat i) = cs ! i \<and> cs ! i \<noteq> 0"
proof (induction cs arbitrary: a i)
  case (Cons c cs)
  show ?case
  proof (cases i)
    case (Suc j)
    have "a + word_of_nat (Suc j) = (a + 1) + word_of_nat j" by simp
    thus ?thesis using Cons.IH [of "a + 1" j] Cons.prems Suc by (simp add: add.assoc)
  qed (use Cons.prems in auto)
qed simp

lemma cstr_end: "cstr m a cs \<Longrightarrow> m (a + word_of_nat (length cs)) = 0"
proof (induction cs arbitrary: a)
  case (Cons c cs)
  have "a + word_of_nat (length (c # cs)) = (a + 1) + word_of_nat (length cs)" by simp
  thus ?case using Cons.IH [of "a + 1"] Cons.prems by (simp add: add.assoc)
qed simp

lemma cstr_intro:
  "(\<And>i. i < length cs \<Longrightarrow> m (a + word_of_nat i) = cs ! i \<and> cs ! i \<noteq> 0) \<Longrightarrow> m (a + word_of_nat (length cs)) = 0 \<Longrightarrow> cstr m a cs"
proof (induction cs arbitrary: a)
  case (Cons c cs)
  have s: "(a + 1) + word_of_nat i = a + word_of_nat (Suc i)" for i by simp
  have "cstr m (a + 1) cs"
  proof (rule Cons.IH)
    show "m (a + 1 + word_of_nat i) = cs ! i \<and> cs ! i \<noteq> 0" if "i < length cs" for i
      using Cons.prems(1) [of "Suc i"] that by (simp add: s del: of_nat_Suc)
    show "m (a + 1 + word_of_nat (length cs)) = 0" using Cons.prems(2) by (simp add: s del: of_nat_Suc)
  qed
  thus ?case using Cons.prems(1) [of 0] by simp
qed simp

lemma memcmp_loop_zero_iff:
  "memcmp_loop n m p q = 0 \<longleftrightarrow> (\<forall>i<n. m (p + word_of_nat i) = m (q + word_of_nat i))"
proof (induction n arbitrary: p q)
  case 0
  then show ?case by simp
next
  case (Suc n)
  show ?case
  proof (cases "m p = m q")
    case True
    have "(\<forall>i<Suc n. m (p + word_of_nat i) = m (q + word_of_nat i)) \<longleftrightarrow>
        (\<forall>i<n. m (p + 1 + word_of_nat i) = m (q + 1 + word_of_nat i))"
      using True by (auto simp: less_Suc_eq_0_disj add_ac)
    with True Suc.IH [of "p + 1" "q + 1"] show ?thesis by simp
  next
    case False
    then have "uint (m p) \<noteq> uint (m q)" by (simp add: word_uint_eq_iff)
    with False show ?thesis by (auto intro!: exI [of _ 0])
  qed
qed

lemma memcmp_zero_iff:
  "memcmp m p q n = 0 \<longleftrightarrow> (\<forall>i<unat n. m (p + word_of_nat i) = m (q + word_of_nat i))"
  by (simp add: memcmp_def memcmp_loop_zero_iff)

text \<open>\<open>safestrcpy\<close> writes inside the \<open>n\<close> bytes it is given and leaves a NUL among them.\<close>

lemma safestrcpy_loop_frame:
  "Suc n \<le> 2 ^ 64 - 1 \<Longrightarrow> \<not> unat (x - s) < Suc n \<Longrightarrow> safestrcpy_loop n m s t x = m x"
proof (induction n arbitrary: m s t)
  case 0
  then show ?case by (auto simp: unat_eq_0)
next
  case (Suc n)
  have ne: "x \<noteq> s" using Suc.prems by auto
  then have "\<not> unat (x - (s + 1)) < Suc n"
    using Suc.prems(2) unat_diff_Suc [of x s] by simp
  moreover from this have "x \<noteq> s + 1" by auto
  ultimately show ?case using Suc.IH [of "s + 1"] Suc.prems(1) ne by simp
qed

lemma safestrcpy_loop_nul:
  "Suc n \<le> 2 ^ 64 - 1 \<Longrightarrow> \<exists>i\<le>n. safestrcpy_loop n m s t (s + word_of_nat i) = 0"
proof (induction n arbitrary: m s t)
  case 0
  then show ?case by simp
next
  case (Suc n)
  show ?case
  proof (cases "m t = 0")
    case True
    then show ?thesis by (auto intro!: exI [of _ 0])
  next
    case False
    obtain i where "i \<le> n"
      "safestrcpy_loop n (m(s := m t)) (s + 1) (t + 1) (s + 1 + word_of_nat i) = 0"
      using Suc.IH [of "m(s := m t)" "s + 1" "t + 1"] Suc_leD [OF Suc.prems] by blast
    with False show ?thesis by (auto intro!: exI [of _ "Suc i"] simp: add_ac)
  qed
qed

lemma safestrcpy_bounded:
  assumes "0 < n" "n < 2 ^ 31"
  shows "(\<exists>i<nat n. safestrcpy m s t n (s + word_of_nat i) = 0) \<and>
    (\<forall>x. unat (x - s) \<ge> nat n \<longrightarrow> safestrcpy m s t n x = m x)"
proof -
  have n: "Suc (nat (n - 1)) = nat n" "Suc (nat (n - 1)) \<le> 2 ^ 64 - 1"
    using assms by simp_all
  have "\<exists>i\<le>nat (n - 1). safestrcpy_loop (nat (n - 1)) m s t (s + word_of_nat i) = 0"
    by (rule safestrcpy_loop_nul [OF n(2)])
  moreover have "safestrcpy_loop (nat (n - 1)) m s t x = m x" if "unat (x - s) \<ge> nat n" for x
    by (rule safestrcpy_loop_frame [OF n(2)]) (use that n(1) in simp)
  moreover have "\<And>i. i \<le> nat (n - 1) \<longleftrightarrow> i < nat n" using n(1) by linarith
  ultimately show ?thesis using assms(1) by (simp add: safestrcpy_def)
qed

lemma strncpy_loop_apply_frame:
  "n \<le> 2 ^ 64 - 1 \<Longrightarrow> \<not> unat (x - s) < n \<Longrightarrow> strncpy_loop n m s t x = m x"
proof (induction n arbitrary: m s t)
  case 0
  then show ?case by simp
next
  case (Suc n)
  have ne: "x \<noteq> s" using Suc.prems by auto
  then have "\<not> unat (x - (s + 1)) < n"
    using Suc.prems(2) unat_diff_Suc [of x s] by simp
  then show ?case using Suc.IH [of "s + 1"] Suc.prems(1) ne by (simp add: memset_loop_apply)
qed

lemma snstr_leaves_a_byte:
  assumes "ldn 2 m src = 0" "0 < len" "len \<le> 2 ^ 64 - 1"
  shows "snstr m dst src len (dst + word_of_nat (len - 1)) = m (dst + word_of_nat (len - 1))"
  using assms by (cases len) (simp_all add: memset_loop_apply unat_of_nat)

end
