(* ===== verification/Locks.thy ===== *)
theory Locks
  imports KString Riscv
begin

text \<open>
  Interrupt nesting (\<open>trap/intr.cpp\<close>), the per-hart record and \<open>curcpu\<close>
  (\<open>proc/proc.h\<close>, \<open>proc/proc.cpp\<close>) and spin locks (\<open>sync/spinlock.cpp\<close>), first as the
  sequential functions one hart runs, then as the atomic steps of two harts that share a lock.

  The state is the record every later component extends. A lock is named by the object it is
  a field of; a pointer to a \<open>struct cpu\<close> is the index of that cpu.
\<close>

section \<open>State\<close>

text \<open>\<open>struct spinlock\<close>: the flag, the \<open>char *name\<close> pointer and the holding cpu.\<close>

record spinlock =
  locked :: u32
  lname :: u64
  lcpu :: "nat option"

text \<open>\<open>struct cpu\<close>, without the saved registers of the scheduler (see \<open>Proc\<close>).\<close>

record cpu =
  cproc :: "nat option"
  noff :: int
  intena :: bool

datatype lockid =
    L_kmem | L_pid | L_proc nat | L_ticks | L_console | L_pr | L_filetable | L_mountedfs
  | L_ftable | L_bcache | L_sleep nat | L_pipe nat | L_uart | L_proc_array nat

text \<open>
  What one hart sees: memory, its number (\<open>tp\<close>), its \<open>sstatus.SIE\<close> bit, the cpu table and
  the locks.
\<close>

record hart_state =
  ram :: mem
  tp :: nat
  sie :: bool
  cpus :: "nat \<Rightarrow> cpu"
  locks :: "lockid \<Rightarrow> spinlock"

definition cpuid :: "'a hart_state_scheme \<Rightarrow> nat" where
  "cpuid s = tp s"

definition curcpu :: "'a hart_state_scheme \<Rightarrow> cpu" where
  "curcpu s = cpus s (cpuid s)"

definition upd_curcpu :: "(cpu \<Rightarrow> cpu) \<Rightarrow> 'a hart_state_scheme \<Rightarrow> 'a hart_state_scheme" where
  "upd_curcpu f s = s\<lparr>cpus := (cpus s)(cpuid s := f (curcpu s))\<rparr>"

section \<open>Interrupt nesting (trap/intr.cpp)\<close>

definition intr_get :: "'a hart_state_scheme \<Rightarrow> bool" where
  "intr_get s = sie s"

definition intr_off :: "'a hart_state_scheme \<Rightarrow> 'a hart_state_scheme" where
  "intr_off s = s\<lparr>sie := False\<rparr>"

definition intr_on :: "'a hart_state_scheme \<Rightarrow> 'a hart_state_scheme" where
  "intr_on s = s\<lparr>sie := True\<rparr>"

definition push_off :: "'a hart_state_scheme \<Rightarrow> 'a hart_state_scheme" where
  "push_off s =
     (let old = intr_get s;
          s = intr_off s;
          s = (if noff (curcpu s) = 0 then upd_curcpu (\<lambda>c. c\<lparr>intena := old\<rparr>) s else s)
      in upd_curcpu (\<lambda>c. c\<lparr>noff := noff c + 1\<rparr>) s)"

definition pop_off :: "'a hart_state_scheme \<Rightarrow> 'a hart_state_scheme res" where
  "pop_off s =
     (if intr_get s then Inl (Panic ''pop_off - interruptible'')
      else if noff (curcpu s) > 1 then Inl (Panic ''pop_off'')
      else let s = upd_curcpu (\<lambda>c. c\<lparr>noff := noff c - 1\<rparr>) s
        in Inr (if noff (curcpu s) = 1 \<and> intena (curcpu s) then intr_on s else s))"

text \<open>\<open>curproc\<close> (proc/proc.cpp): read \<open>c->proc\<close> with interrupts off.\<close>

definition curproc :: "'a hart_state_scheme \<Rightarrow> (nat option \<times> 'a hart_state_scheme) res" where
  "curproc s =
     (let s = push_off s; p = cproc (curcpu s)
      in bnd (pop_off s) (\<lambda>s. Inr (p, s)))"

section \<open>Spin locks (sync/spinlock.cpp)\<close>

text \<open>
  \<open>initlock\<close> copies the name through \<open>lock->name\<close>, which nothing has pointed at a buffer.
  \<open>nm\<close> is the address of the string literal and \<open>len\<close> its length.
\<close>

definition initlock ::
    "lockid \<Rightarrow> u64 \<Rightarrow> nat \<Rightarrow> 'a hart_state_scheme \<Rightarrow> 'a hart_state_scheme" where
  "initlock l nm len s =
     (let s = s\<lparr>locks := (locks s)(l := (locks s l)\<lparr>locked := 0\<rparr>)\<rparr>;
          s = s\<lparr>ram := strncpy (ram s) (lname (locks s l)) nm (int len + 1)\<rparr>
      in s\<lparr>locks := (locks s)(l := (locks s l)\<lparr>lcpu := None\<rparr>)\<rparr>)"

definition holding :: "lockid \<Rightarrow> 'a hart_state_scheme \<Rightarrow> bool" where
  "holding l s \<longleftrightarrow> locked (locks s l) \<noteq> 0 \<and> lcpu (locks s l) = Some (cpuid s)"

text \<open>
  The \<open>test_and_set\<close> loop leaves at once when the flag was clear; when another hart has it
  set, nothing this hart does ends the loop.
\<close>

definition acquire :: "lockid \<Rightarrow> 'a hart_state_scheme \<Rightarrow> 'a hart_state_scheme res" where
  "acquire l s =
     (let s = push_off s in
      if holding l s then Inl (Panic ''acquire'')
      else if locked (locks s l) \<noteq> 0 then Inl (Hang ''acquire'')
      else Inr (s\<lparr>locks := (locks s)(l := (locks s l)\<lparr>locked := 1, lcpu := Some (cpuid s)\<rparr>)\<rparr>))"

definition release :: "lockid \<Rightarrow> 'a hart_state_scheme \<Rightarrow> 'a hart_state_scheme res" where
  "release l s =
     (if \<not> holding l s then Inl (Panic ''release'')
      else pop_off (s\<lparr>locks := (locks s)(l := (locks s l)\<lparr>lcpu := None, locked := 0\<rparr>)\<rparr>))"

section \<open>Facts about one hart\<close>

lemmas hart_defs = cpuid_def curcpu_def upd_curcpu_def intr_get_def intr_off_def intr_on_def

lemma push_off_fields [simp]:
  "ram (push_off s) = ram s" "tp (push_off s) = tp s"
  "locks (push_off s) = locks s" "sie (push_off s) = False"
  "hart_state.more (push_off s) = hart_state.more s"
  "cpuid (push_off s) = cpuid s"
  "cproc (curcpu (push_off s)) = cproc (curcpu s)"
  "noff (curcpu (push_off s)) = noff (curcpu s) + 1"
  "intena (curcpu (push_off s)) = (if noff (curcpu s) = 0 then sie s else intena (curcpu s))"
  by (simp_all add: push_off_def Let_def hart_defs)

lemma push_off_holding [simp]: "holding l (push_off s) = holding l s"
  by (simp add: holding_def)

text \<open>Every nested pair panics: the guard is the wrong way round.\<close>

lemma pop_off_push_off:
  "pop_off (push_off s) =
     (if noff (curcpu s) > 0 then Inl (Panic ''pop_off'')
      else Inr ((push_off s)\<lparr>cpus := (cpus s)(cpuid s := (curcpu (push_off s))\<lparr>noff := noff (curcpu s)\<rparr>)\<rparr>))"
  by (simp add: pop_off_def push_off_def Let_def hart_defs)

lemma curproc_noff0:
  "noff (curcpu s) = 0 \<Longrightarrow>
   curproc s = Inr (cproc (curcpu s),
     s\<lparr>sie := False, cpus := (cpus s)(cpuid s := (curcpu s)\<lparr>intena := sie s\<rparr>)\<rparr>)"
  by (cases "cpus s (tp s)")
     (simp add: curproc_def pop_off_push_off Let_def, simp add: push_off_def hart_defs Let_def)

lemma curproc_nested: "noff (curcpu s) > 0 \<Longrightarrow> curproc s = Inl (Panic ''pop_off'')"
  by (simp add: curproc_def pop_off_push_off Let_def)

text \<open>Acquiring a free lock from depth zero, and the matching release.\<close>

definition lock_free :: "lockid \<Rightarrow> 'a hart_state_scheme \<Rightarrow> bool" where
  "lock_free l s \<longleftrightarrow> locked (locks s l) = 0 \<and> lcpu (locks s l) = None"

definition quiet :: "'a hart_state_scheme \<Rightarrow> bool" where
  "quiet s \<longleftrightarrow> noff (curcpu s) = 0"

text \<open>The state inside a critical section entered from a quiet hart.\<close>

definition in_section :: "lockid \<Rightarrow> 'a hart_state_scheme \<Rightarrow> 'a hart_state_scheme" where
  "in_section l s = s\<lparr>sie := False,
     cpus := (cpus s)(cpuid s := (curcpu s)\<lparr>intena := sie s, noff := 1\<rparr>),
     locks := (locks s)(l := (locks s l)\<lparr>locked := 1, lcpu := Some (cpuid s)\<rparr>)\<rparr>"

text \<open>The state after it: only \<open>SIE\<close> and \<open>intena\<close> differ from the start.\<close>

definition masked :: "'a hart_state_scheme \<Rightarrow> 'a hart_state_scheme" where
  "masked s = s\<lparr>sie := False, cpus := (cpus s)(cpuid s := (curcpu s)\<lparr>intena := sie s\<rparr>)\<rparr>"

lemma acquire_free: "quiet s \<Longrightarrow> lock_free l s \<Longrightarrow> acquire l s = Inr (in_section l s)"
  by (simp add: acquire_def holding_def lock_free_def quiet_def in_section_def push_off_def
      hart_defs Let_def)

lemma release_in_section:
  assumes "quiet s" "lock_free l s"
  shows "release l (in_section l s) = Inr (masked s)"
proof -
  have l: "(locks s l)\<lparr>lcpu := None, locked := 0\<rparr> = locks s l"
    using assms(2) by (cases "locks s l") (simp add: lock_free_def)
  have c: "(cpus s (tp s))\<lparr>intena := b, noff := 0\<rparr> = (cpus s (tp s))\<lparr>intena := b\<rparr>" for b
    using assms(1) by (cases "cpus s (tp s)") (simp add: quiet_def hart_defs)
  have u: "(locks s)(l := locks s l) = locks s" by simp
  show ?thesis
    by (simp add: release_def pop_off_def in_section_def masked_def holding_def hart_defs Let_def)
       (simp add: l c u)
qed

lemma masked_fields [simp]:
  "ram (masked s) = ram s" "tp (masked s) = tp s" "locks (masked s) = locks s"
  "sie (masked s) = False" "hart_state.more (masked s) = hart_state.more s"
  "lock_free l (masked s) = lock_free l s" "quiet (masked s) = quiet s"
  "cpuid (masked s) = cpuid s"
  by (simp_all add: masked_def hart_defs lock_free_def quiet_def)

lemma in_section_fields [simp]:
  "ram (in_section l s) = ram s" "tp (in_section l s) = tp s"
  "hart_state.more (in_section l s) = hart_state.more s" "cpuid (in_section l s) = cpuid s"
  "noff (curcpu (in_section l s)) = 1" "holding l (in_section l s)"
  by (simp_all add: in_section_def hart_defs holding_def)

text \<open>Leaving a section entered at depth zero, whatever was done to the other fields inside.\<close>

definition unlocked :: "lockid \<Rightarrow> 'a hart_state_scheme \<Rightarrow> 'a hart_state_scheme" where
  "unlocked l s = s\<lparr>locks := (locks s)(l := (locks s l)\<lparr>lcpu := None, locked := 0\<rparr>),
     cpus := (cpus s)(cpuid s := (curcpu s)\<lparr>noff := 0\<rparr>)\<rparr>"

lemma release_depth1:
  "noff (curcpu s) = 1 \<Longrightarrow> holding l s \<Longrightarrow> \<not> sie s \<Longrightarrow> release l s = Inr (unlocked l s)"
  by (simp add: release_def pop_off_def unlocked_def hart_defs Let_def)

text \<open>A hart that may start a critical section on \<open>l\<close>.\<close>

definition ready :: "lockid \<Rightarrow> 'a hart_state_scheme \<Rightarrow> bool" where
  "ready l s \<longleftrightarrow> quiet s \<and> lock_free l s"

text \<open>With any lock held, the next critical section cannot be left.\<close>

lemma release_nested:
  assumes "noff (curcpu s) > 0" "holding l s" "\<not> sie s" "noff (curcpu s) \<noteq> 1"
  shows "release l s = Inl (Panic ''pop_off'')"
  using assms
  by (simp add: release_def pop_off_def hart_defs)

lemma acquire_release_nested:
  assumes "noff (curcpu s) > 0" "lock_free l s"
  shows "bnd (acquire l s) (release l) = Inl (Panic ''pop_off'')"
  using assms
  by (simp add: acquire_def release_def pop_off_def holding_def lock_free_def push_off_def
      hart_defs Let_def)

end
