(* ===== verification/Spinsteps.thy ===== *)
theory Spinsteps
  imports Locks
begin

text \<open>
  Spin locks between harts: \<open>acquire\<close> and \<open>release\<close> (\<open>sync/spinlock.cpp\<close>) cut into their
  atomic accesses to the lock word and the owner field, run by any number of harts in any order.
  The sequential functions of \<open>Locks\<close> are the runs in which one hart is alone.
\<close>

section \<open>Steps\<close>

text \<open>
  Where a hart is: outside; spinning on \<open>__sync_lock_test_and_set\<close>; past it, before
  \<open>lock->cpu = curcpu()\<close>; in the critical section; between \<open>lock->cpu = 0\<close> and
  \<open>__sync_lock_release\<close>.
\<close>

datatype place = Outside | Spinning | Won | Inside | Leaving

record lock_word =
  flag :: bool
  owner :: "nat option"
  place_of :: "nat \<Rightarrow> place"

definition holding_by :: "nat \<Rightarrow> lock_word \<Rightarrow> bool" where
  "holding_by h w \<longleftrightarrow> flag w \<and> owner w = Some h"

definition goto :: "nat \<Rightarrow> place \<Rightarrow> lock_word \<Rightarrow> lock_word" where
  "goto h p w = w\<lparr>place_of := (place_of w)(h := p)\<rparr>"

inductive spin_step :: "lock_word \<Rightarrow> nat \<Rightarrow> lock_word \<Rightarrow> bool" where
  enter: "place_of w h = Outside \<Longrightarrow> \<not> holding_by h w \<Longrightarrow> spin_step w h (goto h Spinning w)"
| spin: "place_of w h = Spinning \<Longrightarrow> flag w \<Longrightarrow> spin_step w h (w\<lparr>flag := True\<rparr>)"
| win: "place_of w h = Spinning \<Longrightarrow> \<not> flag w \<Longrightarrow> spin_step w h (goto h Won (w\<lparr>flag := True\<rparr>))"
| own: "place_of w h = Won \<Longrightarrow> spin_step w h (goto h Inside (w\<lparr>owner := Some h\<rparr>))"
| disown: "place_of w h = Inside \<Longrightarrow> holding_by h w \<Longrightarrow> spin_step w h (goto h Leaving (w\<lparr>owner := None\<rparr>))"
| unlock: "place_of w h = Leaving \<Longrightarrow> spin_step w h (goto h Outside (w\<lparr>flag := False\<rparr>))"

text \<open>The two \<open>panic\<close> calls.\<close>

definition spin_panics :: "lock_word \<Rightarrow> nat \<Rightarrow> bool" where
  "spin_panics w h \<longleftrightarrow> place_of w h = Outside \<and> holding_by h w \<or>
     place_of w h = Inside \<and> \<not> holding_by h w"

definition unlocked_word :: lock_word where
  "unlocked_word = \<lparr>flag = False, owner = None, place_of = (\<lambda>_. Outside)\<rparr>"

inductive spin_reachable :: "lock_word \<Rightarrow> bool" where
  start: "spin_reachable unlocked_word"
| more: "spin_reachable w \<Longrightarrow> spin_step w h w' \<Longrightarrow> spin_reachable w'"

inductive_cases spin_stepE: "spin_step w h w'"

section \<open>Invariant\<close>

definition has_flag :: "place \<Rightarrow> bool" where
  "has_flag p \<longleftrightarrow> p = Won \<or> p = Inside \<or> p = Leaving"

definition spin_inv :: "lock_word \<Rightarrow> bool" where
  "spin_inv w \<longleftrightarrow>
     (\<forall>h k. has_flag (place_of w h) \<longrightarrow> has_flag (place_of w k) \<longrightarrow> h = k) \<and>
     (flag w \<longleftrightarrow> (\<exists>h. has_flag (place_of w h))) \<and>
     (\<forall>h. owner w = Some h \<longleftrightarrow> place_of w h = Inside)"

lemma spin_invI:
  assumes "\<And>k. k \<noteq> h \<Longrightarrow> \<not> has_flag (place_of w k)" "flag w = has_flag (place_of w h)"
    and "owner w = (if place_of w h = Inside then Some h else None)"
  shows "spin_inv w"
proof -
  have i: "place_of w k = Inside \<Longrightarrow> k = h" for k using assms(1) [of k] by (auto simp: has_flag_def)
  have "h1 = h2" if "has_flag (place_of w h1)" "has_flag (place_of w h2)" for h1 h2
    using assms(1) [of h1] assms(1) [of h2] that by (cases "h1 = h"; cases "h2 = h") auto
  moreover have "flag w \<longleftrightarrow> (\<exists>k. has_flag (place_of w k))"
  proof (cases "has_flag (place_of w h)")
    case True
    then show ?thesis using assms(2) by blast
  next
    case False
    then have "\<not> has_flag (place_of w k)" for k using assms(1) [of k] by (cases "k = h") auto
    then show ?thesis using assms(2) by blast
  qed
  moreover have "owner w = Some k \<longleftrightarrow> place_of w k = Inside" for k
    using assms(3) i [of k] by (cases "place_of w h = Inside") auto
  ultimately show ?thesis unfolding spin_inv_def by blast
qed

lemma spin_inv_alone:
  "spin_inv w \<Longrightarrow> has_flag (place_of w h) \<Longrightarrow> k \<noteq> h \<Longrightarrow> \<not> has_flag (place_of w k)"
  unfolding spin_inv_def by blast

lemma spin_inv_step:
  assumes "spin_inv w" "spin_step w h w'"
  shows "spin_inv w'"
  using assms(2,1)
proof cases
  case enter
  then have "has_flag (place_of w' k) = has_flag (place_of w k)"
    "(place_of w' k = Inside) = (place_of w k = Inside)" for k
    by (auto simp: goto_def has_flag_def)
  moreover have "flag w' = flag w" "owner w' = owner w" using enter by (simp_all add: goto_def)
  ultimately show ?thesis using assms(1) unfolding spin_inv_def by simp
next
  case spin
  then have "w' = w" by simp
  with assms(1) show ?thesis by simp
next
  case win
  then have n: "\<not> has_flag (place_of w k)" for k using assms(1) unfolding spin_inv_def by blast
  then have "place_of w k \<noteq> Inside" for k by (metis has_flag_def)
  then have "owner w = None" using assms(1) unfolding spin_inv_def by (metis option.exhaust)
  with n win show ?thesis by (intro spin_invI [of h]) (simp_all add: goto_def has_flag_def)
next
  case own
  then have "has_flag (place_of w h)" by (simp add: has_flag_def)
  moreover from this have "flag w" using assms(1) unfolding spin_inv_def by blast
  ultimately show ?thesis using own spin_inv_alone [OF assms(1), of h]
    by (intro spin_invI [of h]) (simp_all add: goto_def has_flag_def)
next
  case disown
  then have "has_flag (place_of w h)" by (simp add: has_flag_def)
  then show ?thesis using disown spin_inv_alone [OF assms(1), of h]
    by (intro spin_invI [of h]) (simp_all add: goto_def has_flag_def holding_by_def)
next
  case unlock
  then have "has_flag (place_of w h)" by (simp add: has_flag_def)
  moreover from this have "place_of w k \<noteq> Inside" for k
    using unlock spin_inv_alone [OF assms(1), of h k] by (cases "k = h") (auto simp: has_flag_def)
  then have "owner w = None" using assms(1) unfolding spin_inv_def by (metis option.exhaust)
  ultimately show ?thesis using unlock spin_inv_alone [OF assms(1), of h]
    by (intro spin_invI [of h]) (simp_all add: goto_def has_flag_def)
qed

lemma spin_reachable_inv: "spin_reachable w \<Longrightarrow> spin_inv w"
proof (induction rule: spin_reachable.induct)
  case start
  then show ?case by (simp add: spin_inv_def unlocked_word_def has_flag_def)
next
  case (more w h w')
  then show ?case using spin_inv_step by blast
qed

lemma holding_iff_inside: "spin_inv w \<Longrightarrow> holding_by h w \<longleftrightarrow> place_of w h = Inside"
  by (auto simp: spin_inv_def holding_by_def has_flag_def)

section \<open>The sequential functions are runs\<close>

text \<open>The lock \<open>l\<close> of a hart's state, with the places of all harts beside it.\<close>

definition word_of :: "lockid \<Rightarrow> 'a hart_state_scheme \<Rightarrow> (nat \<Rightarrow> place) \<Rightarrow> lock_word" where
  "word_of l s ps = \<lparr>flag = (locked (locks s l) \<noteq> 0), owner = lcpu (locks s l), place_of = ps\<rparr>"

inductive spin_run :: "nat \<Rightarrow> lock_word \<Rightarrow> lock_word \<Rightarrow> bool" for h where
  none: "spin_run h w w"
| step: "spin_step w h w' \<Longrightarrow> spin_run h w' w'' \<Longrightarrow> spin_run h w w''"

lemma acquire_run:
  assumes "acquire l s = Inr s'" "ps (cpuid s) = Outside"
  shows "spin_run (cpuid s) (word_of l s ps) (word_of l s' (ps(cpuid s := Inside)))"
proof -
  let ?h = "cpuid s"
  from assms(1) have a: "\<not> holding l s" "locked (locks s l) = 0"
    and s': "locks s' l = (locks s l)\<lparr>locked := 1, lcpu := Some ?h\<rparr>"
    by (auto simp: acquire_def Let_def split: if_splits)
  let ?w = "word_of l s ps"
  have "spin_step ?w ?h (goto ?h Spinning ?w)"
    by (rule enter) (use assms(2) a in \<open>simp_all add: word_of_def holding_by_def\<close>)
  moreover have "spin_step (goto ?h Spinning ?w) ?h (goto ?h Won ((goto ?h Spinning ?w)\<lparr>flag := True\<rparr>))"
    by (rule win) (use a in \<open>simp_all add: word_of_def goto_def\<close>)
  moreover have "spin_step (goto ?h Won ((goto ?h Spinning ?w)\<lparr>flag := True\<rparr>)) ?h
      (goto ?h Inside ((goto ?h Won ((goto ?h Spinning ?w)\<lparr>flag := True\<rparr>))\<lparr>owner := Some ?h\<rparr>))"
    by (rule own) (simp add: goto_def)
  moreover have "goto ?h Inside ((goto ?h Won ((goto ?h Spinning ?w)\<lparr>flag := True\<rparr>))\<lparr>owner := Some ?h\<rparr>)
      = word_of l s' (ps(?h := Inside))"
    using s' by (simp add: word_of_def goto_def)
  ultimately show ?thesis by (metis spin_run.intros)
qed

lemma release_run:
  assumes "release l s = Inr s'" "ps (cpuid s) = Inside"
  shows "spin_run (cpuid s) (word_of l s ps) (word_of l s' (ps(cpuid s := Outside)))"
proof -
  let ?h = "cpuid s"
  from assms(1) have a: "holding l s" and s': "locks s' l = (locks s l)\<lparr>lcpu := None, locked := 0\<rparr>"
    by (auto simp: release_def pop_off_def Let_def hart_defs split: if_splits)
  let ?w = "word_of l s ps"
  have "spin_step ?w ?h (goto ?h Leaving (?w\<lparr>owner := None\<rparr>))"
    by (rule disown) (use assms(2) a in \<open>simp_all add: word_of_def holding_by_def holding_def\<close>)
  moreover have "spin_step (goto ?h Leaving (?w\<lparr>owner := None\<rparr>)) ?h
      (goto ?h Outside ((goto ?h Leaving (?w\<lparr>owner := None\<rparr>))\<lparr>flag := False\<rparr>))"
    by (rule unlock) (simp add: goto_def)
  moreover have "goto ?h Outside ((goto ?h Leaving (?w\<lparr>owner := None\<rparr>))\<lparr>flag := False\<rparr>)
      = word_of l s' (ps(?h := Outside))"
    using s' by (simp add: word_of_def goto_def)
  ultimately show ?thesis by (metis spin_run.intros)
qed

section \<open>Properties\<close>

text \<open>C8: whatever the interleaving of the harts, no two of them are past the test-and-set of the
  same lock at once, the \<open>holding\<close> test answers yes exactly to the hart in the critical section,
  and neither panic of \<open>acquire\<close> and \<open>release\<close> is reached by a hart that brackets its sections.\<close>

theorem spinlock_mutual_exclusion:
  assumes "spin_reachable w"
  shows "(\<forall>h k. has_flag (place_of w h) \<longrightarrow> has_flag (place_of w k) \<longrightarrow> h = k) \<and>
    (\<forall>h. holding_by h w \<longleftrightarrow> place_of w h = Inside) \<and> (\<forall>h. \<not> spin_panics w h)"
  using spin_reachable_inv [OF assms] holding_iff_inside
  by (auto simp: spin_inv_def spin_panics_def)

theorem spinlock_mutual_exclusion_witness:
  "\<exists>w. spin_reachable w \<and> place_of w 0 = Inside \<and> place_of w 1 = Spinning \<and> holding_by 0 w \<and>
     \<not> holding_by 1 w"
proof -
  let ?w1 = "goto 0 Spinning unlocked_word"
  let ?w2 = "goto 0 Won (?w1\<lparr>flag := True\<rparr>)"
  let ?w3 = "goto 0 Inside (?w2\<lparr>owner := Some 0\<rparr>)"
  let ?w4 = "goto 1 Spinning ?w3"
  have "spin_reachable ?w1"
    by (rule more [OF start enter]) (simp_all add: unlocked_word_def holding_by_def)
  then have "spin_reachable ?w2"
    by (rule more) (rule win, simp_all add: unlocked_word_def goto_def)
  then have "spin_reachable ?w3" by (rule more) (rule own, simp add: goto_def)
  then have r: "spin_reachable ?w4"
    by (rule more) (rule enter, simp_all add: goto_def unlocked_word_def holding_by_def)
  have "place_of ?w4 0 = Inside" "place_of ?w4 1 = Spinning" by (simp_all add: goto_def)
  then show ?thesis using spinlock_mutual_exclusion [OF r] r by auto
qed

text \<open>the sequential \<open>acquire\<close> and \<open>release\<close> refine the steps: when they return they have taken
  the lock word through a run of the calling hart from outside to inside, and back.\<close>

theorem acquire_release_are_runs:
  assumes "acquire l s = Inr s1" "release l s2 = Inr s3" "ps (cpuid s) = Outside" "qs (cpuid s2) = Inside"
  shows "spin_run (cpuid s) (word_of l s ps) (word_of l s1 (ps(cpuid s := Inside))) \<and>
    spin_run (cpuid s2) (word_of l s2 qs) (word_of l s3 (qs(cpuid s2 := Outside)))"
  using acquire_run [of l s s1 ps] release_run [of l s2 s3 qs] assms by blast

definition idle_hart :: hart_state where
  "idle_hart = \<lparr>ram = (\<lambda>_. 0), tp = 0, sie = True,
     cpus = (\<lambda>_. \<lparr>cproc = None, noff = 0, intena = False\<rparr>),
     locks = (\<lambda>_. \<lparr>locked = 0, lname = 0, lcpu = None\<rparr>)\<rparr>"

theorem acquire_release_are_runs_witness:
  "spin_run 0 (word_of L_kmem idle_hart (\<lambda>_. Outside))
     (word_of L_kmem (in_section L_kmem idle_hart) ((\<lambda>_. Outside)(0 := Inside))) \<and>
   spin_run 0 (word_of L_kmem (in_section L_kmem idle_hart) ((\<lambda>_. Outside)(0 := Inside)))
     (word_of L_kmem (masked idle_hart) ((\<lambda>_. Outside)(0 := Inside, 0 := Outside)))"
proof -
  have q: "quiet idle_hart" "lock_free L_kmem idle_hart" "cpuid idle_hart = 0"
    by (simp_all add: idle_hart_def quiet_def lock_free_def hart_defs)
  from acquire_release_are_runs [OF acquire_free [OF q(1,2)] release_in_section [OF q(1,2)],
      of "\<lambda>_. Outside" "(\<lambda>_. Outside)(0 := Inside)"] q(3)
  show ?thesis by simp
qed

end
