(* ===== verification/Kalloc.thy ===== *)
theory Kalloc
  imports Locks
begin

text \<open>
  The physical page allocator, \<open>mm/kalloc.cpp\<close>: a list of free pages threaded through the
  first eight bytes of each page, its counter, and its lock. \<open>kernel_end\<close> is the linker's
  symbol, a field nothing writes.
\<close>

section \<open>State and operations\<close>

record kmem_state = hart_state +
  freelist :: u64
  npages :: u64
  kernel_end :: u64

definition kfree :: "u64 \<Rightarrow> 'a kmem_state_scheme \<Rightarrow> 'a kmem_state_scheme res" where
  "kfree pa s =
     (if unat pa mod unat PGSIZE \<noteq> 0 \<or> pa < kernel_end s \<or> pa > PHYSTOP
      then Inl (Panic ''kfree: invalid physical address'')
      else
        let s = s\<lparr>ram := memset (ram s) pa 1 (ucast PGSIZE)\<rparr>; r = pa in
        bnd (acquire L_kmem s) (\<lambda>s.
          let s = s\<lparr>ram := st64 (ram s) r (freelist s)\<rparr>;
              s = s\<lparr>freelist := r\<rparr>;
              s = s\<lparr>npages := npages s + 1\<rparr>
          in release L_kmem s))"

definition kalloc :: "'a kmem_state_scheme \<Rightarrow> (u64 \<times> 'a kmem_state_scheme) res" where
  "kalloc s =
     bnd (acquire L_kmem s) (\<lambda>s.
       let r = freelist s;
           s = (if r \<noteq> 0 then s\<lparr>freelist := ld64 (ram s) r, npages := npages s - 1\<rparr> else s)
       in bnd (release L_kmem s) (\<lambda>s.
            Inr (r, if r \<noteq> 0 then s\<lparr>ram := memset (ram s) r 5 (ucast PGSIZE)\<rparr> else s)))"

text \<open>
  The loop of \<open>FreeRange\<close>: it ends because \<open>kfree\<close> lets no page above \<open>PHYSTOP\<close> through.
\<close>

lemma kfree_Inr_le: "kfree p s = Inr s' \<Longrightarrow> p \<le> PHYSTOP"
  by (auto simp: kfree_def split: if_splits)

function FreeRange_loop ::
    "u64 \<Rightarrow> u64 \<Rightarrow> 'a kmem_state_scheme \<Rightarrow> 'a kmem_state_scheme res" where
  "FreeRange_loop p pa_end s =
     (if p + PGSIZE < pa_end
      then bnd (kfree p s) (\<lambda>s. FreeRange_loop (p + PGSIZE) pa_end s)
      else Inr s)"
  by pat_completeness auto
termination
proof (relation "measure (\<lambda>(p, pa_end, s). unat (2 * PHYSTOP - p))")
  fix p pa_end :: u64 and s s' :: "'a kmem_state_scheme"
  assume "kfree p s = Inr s'"
  then have "p \<le> PHYSTOP" by (rule kfree_Inr_le)
  then have "unat (2 * PHYSTOP - p) = 2 * unat PHYSTOP - unat p"
      "unat (p + PGSIZE) = unat p + 4096" "unat p \<le> unat PHYSTOP"
    by (simp_all add: PHYSTOP_def PGSIZE_def word_le_nat_alt unat_sub unat_word_ariths)
  moreover have "unat (2 * PHYSTOP - (p + PGSIZE)) = 2 * unat PHYSTOP - (unat p + 4096)"
    using calculation by (subst unat_sub) (simp_all add: PHYSTOP_def word_le_nat_alt)
  ultimately show "((p + PGSIZE, pa_end, s'), p, pa_end, s)
      \<in> measure (\<lambda>(p, pa_end, s). unat (2 * PHYSTOP - p))"
    by (simp add: PHYSTOP_def)
qed simp

declare FreeRange_loop.simps [simp del]

definition FreeRange ::
    "u64 \<Rightarrow> u64 \<Rightarrow> 'a kmem_state_scheme \<Rightarrow> 'a kmem_state_scheme res" where
  "FreeRange pa_start pa_end s = FreeRange_loop (PGROUNDDOWN pa_start) pa_end s"

text \<open>\<open>nm\<close> is the address of the literal \<open>"kmem"\<close>.\<close>

definition kinit :: "u64 \<Rightarrow> 'a kmem_state_scheme \<Rightarrow> 'a kmem_state_scheme res" where
  "kinit nm s =
     (let s = initlock L_kmem nm 4 s;
          s = s\<lparr>freelist := 0\<rparr>;
          s = s\<lparr>npages := 0\<rparr>
      in FreeRange (kernel_end s) PHYSTOP s)"

definition freemem_amount :: "'a kmem_state_scheme \<Rightarrow> u64" where
  "freemem_amount s = push_bit PGSHIFT (npages s)"

text \<open>\<open>operator new\<close> and \<open>operator delete\<close> (mm/allocop.cpp) are whole pages.\<close>

definition operator_new :: "u64 \<Rightarrow> 'a kmem_state_scheme \<Rightarrow> (u64 \<times> 'a kmem_state_scheme) res" where
  "operator_new sz s = kalloc s"

definition operator_delete :: "u64 \<Rightarrow> 'a kmem_state_scheme \<Rightarrow> 'a kmem_state_scheme res" where
  "operator_delete p s = kfree p s"

section \<open>The free list\<close>

fun free_chain :: "mem \<Rightarrow> u64 \<Rightarrow> u64 list \<Rightarrow> bool" where
  "free_chain m p [] \<longleftrightarrow> p = 0"
| "free_chain m p (x # xs) \<longleftrightarrow> p = x \<and> x \<noteq> 0 \<and> free_chain m (ld64 m x) xs"

definition page_ok :: "u64 \<Rightarrow> u64 \<Rightarrow> bool" where
  "page_ok ke x \<longleftrightarrow> unat x mod 4096 = 0 \<and> ke \<le> x \<and> x \<le> PHYSTOP"

definition in_page :: "u64 \<Rightarrow> u64 \<Rightarrow> bool" where
  "in_page p b \<longleftrightarrow> unat (b - p) < 4096"

text \<open>
  The allocator's invariant with its ghost list of free pages: the chain in memory is exactly
  that list, no page is on it twice, all are pages \<open>kfree\<close> accepts, the counter counts them,
  and the hart may take the lock.
\<close>

definition kmem_inv :: "'a kmem_state_scheme \<Rightarrow> u64 list \<Rightarrow> bool" where
  "kmem_inv s xs \<longleftrightarrow>
     free_chain (ram s) (freelist s) xs \<and> distinct xs \<and>
     (\<forall>x \<in> set xs. page_ok (kernel_end s) x) \<and> npages s = word_of_nat (length xs) \<and>
     0 < kernel_end s \<and> ready L_kmem s"

lemma free_chain_cong:
  "(\<And>x. x \<in> set xs \<Longrightarrow> ld64 m' x = ld64 m x) \<Longrightarrow> free_chain m' p xs = free_chain m p xs"
  by (induction xs arbitrary: p) auto

lemma in_page_iff: "unat p mod 4096 = 0 \<Longrightarrow> in_page p b \<longleftrightarrow> unat b div 4096 = unat p div 4096"
  unfolding in_page_def using in_cell_iff [of 12 p b] by simp

lemma page_off_div:
  fixes p :: u64
  shows "unat p mod 4096 = 0 \<Longrightarrow> i < 4096 \<Longrightarrow> unat (p + word_of_nat i) div 4096 = unat p div 4096"
  using cell_offset_div [of 12 p i] by simp

lemma pages_disjoint:
  assumes "unat p mod 4096 = 0" "unat q mod 4096 = 0" "p \<noteq> q" "in_page p b"
  shows "\<not> in_page q b"
proof
  assume "in_page q b"
  with assms have "unat p div 4096 = unat q div 4096" by (simp add: in_page_iff)
  with assms(1,2) have "unat p = unat q" by (metis mult_div_mod_eq)
  with assms(3) show False by (simp add: word_unat_eq_iff)
qed

lemma memset_page: "memset m p c (ucast PGSIZE) b = (if in_page p b then c else m b)"
  by (simp add: memset_apply in_page_def PGSIZE_def)

lemma ld64_frame:
  assumes "unat a mod 8 = 0" "unat p mod 4096 = 0" "\<not> in_page p a"
    and "\<And>b. \<not> in_page p b \<Longrightarrow> m' b = m b"
  shows "ld64 m' a = ld64 m a"
proof (rule ld64_cong)
  fix i :: nat assume "i < 8"
  then have "unat (a + word_of_nat i) div 8 = unat a div 8"
    using cell_offset_div [of 3 a i] assms(1) by simp
  then have "unat (a + word_of_nat i) div 8 div 512 = unat a div 8 div 512" by simp
  then have "unat (a + word_of_nat i) div 4096 = unat a div 4096"
    by (simp flip: div_mult2_eq)
  then show "m' (a + word_of_nat i) = m (a + word_of_nat i)"
    using assms(2-4) by (simp add: in_page_iff)
qed

lemma in_page_self: "in_page p p"
  by (simp add: in_page_def)

lemma page_not_in_page:
  "unat p mod 4096 = 0 \<Longrightarrow> unat q mod 4096 = 0 \<Longrightarrow> p \<noteq> q \<Longrightarrow> \<not> in_page p q"
  using pages_disjoint [of q p q] in_page_self [of q] by auto

lemma page_mod8:
  fixes p :: u64
  shows "unat p mod 4096 = 0 \<Longrightarrow> unat p mod 8 = 0"
  using mod_mod_cancel [of 8 4096 "unat p"] by simp

section \<open>The allocator implements a stack of pages\<close>

lemma page_ok_align: "page_ok ke x \<Longrightarrow> unat x mod 4096 = 0" "page_ok ke x \<Longrightarrow> unat x mod 8 = 0"
  using page_mod8 [of x] by (auto simp: page_ok_def)

lemma chain_outside:
  assumes "\<forall>x \<in> set xs. page_ok ke x" "unat p mod 4096 = 0" "p \<notin> set xs"
    and "\<And>b. \<not> in_page p b \<Longrightarrow> m' b = m b"
  shows "free_chain m' q xs = free_chain m q xs"
proof (rule free_chain_cong)
  fix x assume x: "x \<in> set xs"
  then have "page_ok ke x" "x \<noteq> p" using assms(1,3) by auto
  then show "ld64 m' x = ld64 m x"
    using ld64_frame [of x p m' m] assms(2,4) page_ok_align page_not_in_page [of p x] by auto
qed

text \<open>The state \<open>kalloc\<close> and \<open>kfree\<close> reach, in closed form.\<close>

definition popped :: "'a kmem_state_scheme \<Rightarrow> 'a kmem_state_scheme" where
  "popped s = (masked s)\<lparr>freelist := ld64 (ram s) (freelist s), npages := npages s - 1,
     ram := memset (ram s) (freelist s) 5 (ucast PGSIZE)\<rparr>"

definition pushed :: "u64 \<Rightarrow> 'a kmem_state_scheme \<Rightarrow> 'a kmem_state_scheme" where
  "pushed pa s = (masked s)\<lparr>freelist := pa, npages := npages s + 1,
     ram := st64 (memset (ram s) pa 1 (ucast PGSIZE)) pa (freelist s)\<rparr>"

lemma in_section_kmem [simp]:
  "freelist (in_section l s) = freelist s" "npages (in_section l s) = npages s"
  "kernel_end (in_section l s) = kernel_end s"
  by (simp_all add: in_section_def)

lemma masked_kmem [simp]:
  "freelist (masked s) = freelist s" "npages (masked s) = npages s"
  "kernel_end (masked s) = kernel_end s"
  by (simp_all add: masked_def)

lemma ready_cong:
  "tp s' = tp s \<Longrightarrow> cpus s' = cpus s \<Longrightarrow> locks s' = locks s \<Longrightarrow> ready l s' = ready l s"
  by (simp add: ready_def quiet_def lock_free_def hart_defs)

lemma ready_masked [simp]: "ready l (masked s) = ready l s"
  by (simp add: ready_def)

lemma ready_restores:
  assumes "ready l s"
  shows "(locks s)(l := (locks s l)\<lparr>lcpu := None, locked := 0\<rparr>) = locks s"
    and "(cpus s (tp s))\<lparr>intena := b, noff := 0\<rparr> = (cpus s (tp s))\<lparr>intena := b\<rparr>"
proof -
  have "(locks s l)\<lparr>lcpu := None, locked := 0\<rparr> = locks s l"
    using assms by (cases "locks s l") (simp add: ready_def lock_free_def)
  then show "(locks s)(l := (locks s l)\<lparr>lcpu := None, locked := 0\<rparr>) = locks s" by simp
  show "(cpus s (tp s))\<lparr>intena := b, noff := 0\<rparr> = (cpus s (tp s))\<lparr>intena := b\<rparr>"
    using assms by (cases "cpus s (tp s)") (simp add: ready_def quiet_def hart_defs)
qed

lemma release_kmem:
  assumes "ready l s"
  shows "release l ((in_section l s)\<lparr>ram := m, freelist := f, npages := n\<rparr>)
    = Inr ((masked s)\<lparr>freelist := f, npages := n, ram := m\<rparr>)"
  by (simp add: release_def pop_off_def in_section_def masked_def holding_def hart_defs Let_def)
     (simp add: ready_restores [OF assms])

lemma kalloc_popped:
  assumes "ready L_kmem s" "freelist s \<noteq> 0"
  shows "kalloc s = Inr (freelist s, popped s)"
proof -
  have i: "(in_section L_kmem s)\<lparr>ram := ram s\<rparr> = in_section L_kmem s"
    by (simp add: in_section_def)
  show ?thesis
    using release_kmem [OF assms(1), where m = "ram s" and
        f = "ld64 (ram s) (freelist s)" and n = "npages s - 1"] assms
    by (simp add: kalloc_def acquire_free ready_def popped_def Let_def i)
qed

lemma kalloc_none:
  assumes "ready L_kmem s" "freelist s = 0"
  shows "kalloc s = Inr (0, masked s)"
  using assms
  by (simp add: kalloc_def acquire_free ready_def release_in_section Let_def)

lemma kfree_pushed:
  assumes "ready L_kmem s" "page_ok (kernel_end s) pa"
  shows "kfree pa s = Inr (pushed pa s)"
proof -
  let ?s = "s\<lparr>ram := memset (ram s) pa 1 (ucast PGSIZE)\<rparr>"
  have r: "ready L_kmem ?s" using assms(1) by (simp cong: ready_cong add: ready_cong [of ?s s])
  have m: "(masked ?s)\<lparr>freelist := f, npages := n, ram := m\<rparr> =
      (masked s)\<lparr>freelist := f, npages := n, ram := m\<rparr>" for f n m
    by (simp add: masked_def hart_defs)
  have al: "unat pa mod unat PGSIZE = 0" using assms(2) by (simp add: page_ok_def PGSIZE_def)
  show ?thesis
    using release_kmem [OF r] r assms(2)
    by (simp add: kfree_def acquire_free ready_def pushed_def Let_def page_ok_def al not_less m
      del: masked_fields)
qed

lemma kfree_refuses:
  "\<not> page_ok (kernel_end s) pa \<Longrightarrow>
    kfree pa s = Inl (Panic ''kfree: invalid physical address'')"
  by (auto simp: kfree_def page_ok_def PGSIZE_def)

lemma popped_fields [simp]:
  "freelist (popped s) = ld64 (ram s) (freelist s)" "npages (popped s) = npages s - 1"
  "kernel_end (popped s) = kernel_end s"
  by (simp_all add: popped_def)

lemma popped_ready [simp]: "ready l (popped s) = ready l s"
  by (simp add: popped_def ready_def quiet_def lock_free_def masked_def hart_defs)

lemma popped_ram: "ram (popped s) b = (if in_page (freelist s) b then 5 else ram s b)"
  by (simp add: popped_def memset_page)

lemma pushed_fields [simp]:
  "freelist (pushed pa s) = pa" "npages (pushed pa s) = npages s + 1"
  "kernel_end (pushed pa s) = kernel_end s"
  "ld64 (ram (pushed pa s)) pa = freelist s"
  by (simp_all add: pushed_def)

lemma pushed_ready [simp]: "ready l (pushed pa s) = ready l s"
  by (simp add: pushed_def ready_def quiet_def lock_free_def masked_def hart_defs)

lemma pushed_outside: "\<not> in_page pa b \<Longrightarrow> ram (pushed pa s) b = ram s b"
  by (simp add: pushed_def st64_apply memset_page in_page_def)

lemma pushed_inside:
  "in_page pa b \<Longrightarrow> 8 \<le> unat (b - pa) \<Longrightarrow> ram (pushed pa s) b = 1"
  by (simp add: pushed_def st64_apply memset_page)

lemma kmem_inv_popped:
  assumes "kmem_inv s (x # xs)"
  shows "freelist s = x" "x \<noteq> 0" "kmem_inv (popped s) xs"
proof -
  show f: "freelist s = x" "x \<noteq> 0" using assms by (auto simp: kmem_inv_def)
  have "free_chain (ram (popped s)) (ld64 (ram s) x) xs = free_chain (ram s) (ld64 (ram s) x) xs"
    by (rule chain_outside [of xs "kernel_end s" x])
       (use assms f page_ok_align in \<open>auto simp: kmem_inv_def popped_ram\<close>)
  then show "kmem_inv (popped s) xs"
    using assms f by (simp add: kmem_inv_def)
qed

lemma kmem_inv_pushed:
  assumes "kmem_inv s xs" "page_ok (kernel_end s) pa" "pa \<notin> set xs"
  shows "kmem_inv (pushed pa s) (pa # xs)"
proof -
  have "free_chain (ram (pushed pa s)) (freelist s) xs = free_chain (ram s) (freelist s) xs"
    by (rule chain_outside [of xs "kernel_end s" pa])
       (use assms page_ok_align in \<open>auto simp: kmem_inv_def pushed_outside\<close>)
  moreover have "pa \<noteq> 0" using assms(1,2) by (auto simp: kmem_inv_def page_ok_def)
  ultimately show ?thesis using assms by (simp add: kmem_inv_def)
qed

lemma kmem_inv_nil: "kmem_inv s [] \<Longrightarrow> freelist s = 0 \<and> kmem_inv (masked s) []"
  by (simp add: kmem_inv_def)

lemma kalloc_Cons:
  assumes "kmem_inv s (x # xs)"
  shows "kalloc s = Inr (x, popped s)"
proof -
  have "ready L_kmem s" using assms by (simp add: kmem_inv_def)
  then show ?thesis
    using kalloc_popped [of s] kmem_inv_popped(1,2) [OF assms] by simp
qed

lemma kalloc_Nil:
  assumes "kmem_inv s []"
  shows "kalloc s = Inr (0, masked s)"
  using assms by (intro kalloc_none) (auto simp: kmem_inv_def)

section \<open>Initialisation\<close>

lemma FreeRange_loop_inv:
  "kmem_inv s xs \<Longrightarrow> unat p mod 4096 = 0 \<Longrightarrow> kernel_end s \<le> p \<Longrightarrow> p \<le> PHYSTOP \<Longrightarrow>
   pa_end \<le> PHYSTOP \<Longrightarrow> \<forall>x \<in> set xs. x < p \<Longrightarrow>
   \<exists>s' ys. FreeRange_loop p pa_end s = Inr s' \<and> kmem_inv s' (ys @ xs) \<and>
     kernel_end s' = kernel_end s \<and>
     set ys = {x. unat x mod 4096 = 0 \<and> p \<le> x \<and> unat x + 4096 < unat pa_end}"
proof (induction p pa_end s arbitrary: xs rule: FreeRange_loop.induct)
  case (1 p pa_end s)
  have pp: "unat (p + PGSIZE) = unat p + 4096"
    using 1(5) by (simp add: PGSIZE_def PHYSTOP_def word_le_nat_alt unat_word_ariths)
  show ?case
  proof (cases "p + PGSIZE < pa_end")
    case False
    then have "{x. unat x mod 4096 = 0 \<and> p \<le> x \<and> unat x + 4096 < unat pa_end} = {}"
      using pp by (auto simp: word_less_nat_alt word_le_nat_alt)
    with False 1(2) show ?thesis
      by (subst FreeRange_loop.simps) (auto intro!: exI [of _ "[]"])
  next
    case True
    have ok: "page_ok (kernel_end s) p" using 1 by (simp add: page_ok_def)
    have k: "kfree p s = Inr (pushed p s)" using 1(2) ok kfree_pushed by (auto simp: kmem_inv_def)
    have i: "kmem_inv (pushed p s) (p # xs)" using 1(2,7) ok by (auto intro: kmem_inv_pushed)
    have "\<exists>s' ys. FreeRange_loop (p + PGSIZE) pa_end (pushed p s) = Inr s' \<and>
       kmem_inv s' (ys @ p # xs) \<and> kernel_end s' = kernel_end (pushed p s) \<and>
       set ys = {x. unat x mod 4096 = 0 \<and> p + PGSIZE \<le> x \<and> unat x + 4096 < unat pa_end}"
    proof (rule 1(1) [OF True k i])
      show "unat (p + PGSIZE) mod 4096 = 0" using pp 1(3) by simp
      show "kernel_end (pushed p s) \<le> p + PGSIZE" "p + PGSIZE \<le> PHYSTOP"
        "\<forall>x \<in> set (p # xs). x < p + PGSIZE" "pa_end \<le> PHYSTOP"
        using 1(4,6,7) pp True by (auto simp: word_less_nat_alt word_le_nat_alt)
    qed
    then obtain s' ys where s': "FreeRange_loop (p + PGSIZE) pa_end (pushed p s) = Inr s'"
      "kmem_inv s' (ys @ p # xs)" "kernel_end s' = kernel_end s"
      "set ys = {x. unat x mod 4096 = 0 \<and> p + PGSIZE \<le> x \<and> unat x + 4096 < unat pa_end}"
      by auto
    have "set (ys @ [p]) = {x. unat x mod 4096 = 0 \<and> p \<le> x \<and> unat x + 4096 < unat pa_end}"
      (is "_ = ?R")
    proof -
      have "p \<le> x \<longleftrightarrow> x = p \<or> p + PGSIZE \<le> x" if "unat x mod 4096 = 0" for x
      proof -
        from that obtain a where a: "unat x = 4096 * a" by (metis mod_0_imp_dvd dvdE)
        from 1(3) obtain b where b: "unat p = 4096 * b" by (metis mod_0_imp_dvd dvdE)
        have "4096 * b + 4096 = 4096 * Suc b" by simp
        then have "unat p \<le> unat x \<longleftrightarrow> unat x = unat p \<or> unat p + 4096 \<le> unat x"
          unfolding a b by (simp only: mult_le_cancel1 mult_cancel1) auto
        then show ?thesis by (simp only: word_le_nat_alt pp word_unat_eq_iff)
      qed
      with s'(4) 1(3) True pp show ?thesis by (auto simp: word_less_nat_alt)
    qed
    with s' True k show ?thesis
      by (subst FreeRange_loop.simps) (auto intro!: exI [of _ "ys @ [p]"])
  qed
qed


lemma kmem_inv_initlock:
  assumes "quiet s" "0 < kernel_end s"
  shows "kmem_inv ((initlock L_kmem nm n s)\<lparr>freelist := 0, npages := 0\<rparr>) []"
  using assms by (simp add: kmem_inv_def initlock_def Let_def ready_def quiet_def lock_free_def hart_defs)

lemma initlock_kernel_end [simp]: "kernel_end (initlock l nm n s) = kernel_end s"
  by (simp add: initlock_def Let_def)

lemma kinit_lists_pages:
  assumes "quiet s" "0 < kernel_end s" "kernel_end s \<le> PHYSTOP" "unat (kernel_end s) mod 4096 = 0"
  shows "\<exists>s' xs. kinit nm s = Inr s' \<and> kmem_inv s' xs \<and>
    set xs = {x. unat x mod 4096 = 0 \<and> kernel_end s \<le> x \<and> unat x + 4096 < unat PHYSTOP}"
  using FreeRange_loop_inv [OF kmem_inv_initlock [OF assms(1,2), of nm 4], of "kernel_end s" PHYSTOP] assms
  by (auto simp: kinit_def Let_def FreeRange_def PGROUNDDOWN_id)

lemma kinit_refuses:
  assumes "unat (kernel_end s) mod 4096 \<noteq> 0" "PGROUNDDOWN (kernel_end s) + PGSIZE < PHYSTOP"
  shows "kinit nm s = Inl (Panic ''kfree: invalid physical address'')"
proof -
  have "PGROUNDDOWN (kernel_end s) \<noteq> kernel_end s"
    using assms(1) PGROUNDDOWN_aligned [of "kernel_end s"] by metis
  then have "PGROUNDDOWN (kernel_end s) < kernel_end s"
    using PGROUNDDOWN_le [of "kernel_end s"] by simp
  then have "\<not> page_ok (kernel_end s) (PGROUNDDOWN (kernel_end s))"
    by (simp add: page_ok_def not_le)
  then show ?thesis
    using assms(2)
    by (simp add: kinit_def Let_def FreeRange_def FreeRange_loop.simps [of "PGROUNDDOWN _"] kfree_refuses)
qed

lemma double_free:
  assumes "kmem_inv s xs" "page_ok (kernel_end s) pa"
  shows "bnd (kfree pa s) (\<lambda>s. bnd (kfree pa s) (\<lambda>s. bnd (kalloc s) (\<lambda>(p, s).
      bnd (kalloc s) (\<lambda>(q, s). Inr (p, q))))) = Inr (pa, pa)"
proof -
  have r: "ready L_kmem s" "pa \<noteq> 0" using assms by (auto simp: kmem_inv_def page_ok_def)
  show ?thesis
    using r assms(2) by (simp add: kfree_pushed kalloc_popped)
qed

section \<open>The interface the rest of the kernel uses\<close>

text \<open>
  A client of the allocator sees a pool: a list of distinct pages. Taking one removes the
  head, fills it with fives and leaves every byte outside it; giving one back pushes it.
\<close>

locale page_allocator =
  fixes alloc :: "'s \<Rightarrow> (u64 \<times> 's) res"
    and free :: "u64 \<Rightarrow> 's \<Rightarrow> 's res"
    and pool :: "'s \<Rightarrow> u64 list \<Rightarrow> bool"
    and bytes :: "'s \<Rightarrow> mem"
    and base :: "'s \<Rightarrow> u64"
  assumes alloc_some: "pool s (x # xs) \<Longrightarrow> \<exists>s'. alloc s = Inr (x, s') \<and> pool s' xs \<and> base s' = base s \<and>
      (\<forall>b. bytes s' b = (if in_page x b then 5 else bytes s b))"
    and alloc_none: "pool s [] \<Longrightarrow> \<exists>s'. alloc s = Inr (0, s') \<and> pool s' [] \<and> base s' = base s \<and> bytes s' = bytes s"
    and free_ok: "pool s xs \<Longrightarrow> page_ok (base s) p \<Longrightarrow> p \<notin> set xs \<Longrightarrow>
      \<exists>s'. free p s = Inr s' \<and> pool s' (p # xs) \<and> base s' = base s \<and>
        (\<forall>b. \<not> in_page p b \<longrightarrow> bytes s' b = bytes s b)"
    and pool_pages: "pool s xs \<Longrightarrow> distinct xs \<and> 0 < base s \<and> (\<forall>x \<in> set xs. page_ok (base s) x)"
begin

lemma pool_nonzero: "pool s xs \<Longrightarrow> x \<in> set xs \<Longrightarrow> x \<noteq> 0"
  using pool_pages [of s xs] by (auto simp: page_ok_def)

lemma alloc_cases:
  assumes "pool s xs"
  obtains s' where "xs = []" "alloc s = Inr (0, s')" "pool s' []" "bytes s' = bytes s"
  | x ys s' where "xs = x # ys" "alloc s = Inr (x, s')" "pool s' ys" "x \<noteq> 0"
      "\<And>b. bytes s' b = (if in_page x b then 5 else bytes s b)"
proof (cases xs)
  case Nil
  with assms alloc_none [of s] that(1) show thesis by auto
next
  case (Cons x ys)
  with assms have "pool s (x # ys)" by simp
  from alloc_some [OF this] obtain s' where "alloc s = Inr (x, s')" "pool s' ys"
    "\<And>b. bytes s' b = (if in_page x b then 5 else bytes s b)" by auto
  with that(2) [OF Cons] pool_nonzero [OF assms, of x] Cons show thesis by simp
qed

text \<open>A page taken and given back leaves the pool as it was.\<close>

lemma alloc_free:
  assumes "pool s (x # xs)"
  shows "\<exists>s'. bnd (alloc s) (\<lambda>(p, s). free p s) = Inr s' \<and> pool s' (x # xs)"
proof -
  obtain s1 where a: "alloc s = Inr (x, s1)" "pool s1 xs" "base s1 = base s"
    using alloc_some [OF assms] by auto
  have "page_ok (base s1) x" "x \<notin> set xs" using pool_pages [OF assms] a(3) by auto
  from free_ok [OF a(2) this] a(1) show ?thesis by auto
qed

text \<open>Several requests in a row take as many different pages and touch nothing else.\<close>

lemma allocs:
  assumes "pool s (xs @ ys)"
  shows "\<exists>s'. fold (\<lambda>_ r. bnd r (\<lambda>(ps, s). bnd (alloc s) (\<lambda>(p, s). Inr (ps @ [p], s)))) xs (Inr (zs, s))
      = Inr (zs @ xs, s') \<and> pool s' ys \<and>
      (\<forall>b. (\<forall>x \<in> set xs. \<not> in_page x b) \<longrightarrow> bytes s' b = bytes s b)"
  using assms
proof (induction xs arbitrary: s zs)
  case Nil
  then show ?case by auto
next
  case (Cons x xs)
  obtain s1 where a: "alloc s = Inr (x, s1)" "pool s1 (xs @ ys)"
    "\<forall>b. bytes s1 b = (if in_page x b then 5 else bytes s b)"
    using alloc_some [of s x "xs @ ys"] Cons.prems by auto
  from Cons.IH [OF a(2), of "zs @ [x]"] a(1,3) show ?case by auto
qed

end

interpretation kmem: page_allocator kalloc kfree kmem_inv ram kernel_end
proof unfold_locales
  fix s :: "'a kmem_state_scheme" and x xs p
  show "\<exists>s'. kalloc s = Inr (x, s') \<and> kmem_inv s' xs \<and> kernel_end s' = kernel_end s \<and>
      (\<forall>b. ram s' b = (if in_page x b then 5 else ram s b))" if i: "kmem_inv s (x # xs)"
    using kalloc_Cons [OF i] kmem_inv_popped [OF i] popped_ram [of s] by auto
  show "\<exists>s'. kalloc s = Inr (0, s') \<and> kmem_inv s' [] \<and> kernel_end s' = kernel_end s \<and> ram s' = ram s"
    if i: "kmem_inv s []"
    using kalloc_Nil [OF i] kmem_inv_nil [OF i] by auto
  show "\<exists>s'. kfree p s = Inr s' \<and> kmem_inv s' (p # xs) \<and> kernel_end s' = kernel_end s \<and>
      (\<forall>b. \<not> in_page p b \<longrightarrow> ram s' b = ram s b)"
    if i: "kmem_inv s xs" "page_ok (kernel_end s) p" "p \<notin> set xs"
    using kfree_pushed [of s p] kmem_inv_pushed [OF i] i pushed_outside [of p _ s]
    by (auto simp: kmem_inv_def)
  show "distinct xs \<and> 0 < kernel_end s \<and> (\<forall>x \<in> set xs. page_ok (kernel_end s) x)" if "kmem_inv s xs"
    using that by (auto simp: kmem_inv_def)
qed

lemma kmem_inv_ram:
  assumes "kmem_inv s xs" "\<And>x b. x \<in> set xs \<Longrightarrow> in_page x b \<Longrightarrow> m' b = ram s b"
  shows "kmem_inv (s\<lparr>ram := m'\<rparr>) xs"
proof -
  have "free_chain m' (freelist s) xs = free_chain (ram s) (freelist s) xs"
  proof (rule free_chain_cong, rule ld64_cong)
    fix x and i :: nat assume x: "x \<in> set xs" "i < 8"
    then have "in_page x (x + word_of_nat i)"
      unfolding in_page_def by (subst unat_off) simp_all
    with assms(2) x(1) show "m' (x + word_of_nat i) = ram s (x + word_of_nat i)" by blast
  qed
  with assms(1) show ?thesis
    by (simp add: kmem_inv_def ready_def quiet_def lock_free_def hart_defs)
qed

section \<open>Properties\<close>

text \<open>A state with one free page, and the state before \<open>kinit\<close> of a small machine.\<close>

definition one_page :: kmem_state where
  "one_page = \<lparr>ram = (\<lambda>_. 0), tp = 0, sie = True,
     cpus = (\<lambda>_. \<lparr>cproc = None, noff = 0, intena = False\<rparr>),
     locks = (\<lambda>_. \<lparr>locked = 0, lname = 0, lcpu = None\<rparr>),
     freelist = 0x80500000, npages = 1, kernel_end = 0x80500000\<rparr>"

lemma one_page_inv: "kmem_inv one_page [0x80500000]"
  by (simp add: one_page_def kmem_inv_def page_ok_def PHYSTOP_def ready_def
      quiet_def lock_free_def hart_defs)

text \<open>C9: \<open>kalloc\<close> refines taking the head of the pool of free pages: it returns that page filled
  with fives and changes no other byte of memory, and it returns the null pointer exactly when
  the pool is empty.\<close>

theorem kalloc_refines_pop:
  assumes "kmem_inv s xs"
  shows "case xs of
      [] \<Rightarrow> \<exists>s'. kalloc s = Inr (0, s') \<and> kmem_inv s' [] \<and> ram s' = ram s
    | x # ys \<Rightarrow> \<exists>s'. kalloc s = Inr (x, s') \<and> x \<noteq> 0 \<and> kmem_inv s' ys \<and>
        (\<forall>b. ram s' b = (if in_page x b then 5 else ram s b))"
  by (rule kmem.alloc_cases [OF assms]) auto

theorem kalloc_refines_pop_witness:
  "\<exists>s'. kalloc one_page = Inr (0x80500000, s') \<and> (0x80500000 :: u64) \<noteq> 0 \<and> kmem_inv s' [] \<and>
        (\<forall>b. ram s' b = (if in_page 0x80500000 b then 5 else ram one_page b))"
  using kalloc_refines_pop [OF one_page_inv] by simp

text \<open>C10: \<open>kfree\<close> panics on an address that is not page aligned, below the kernel's end or above
  \<open>PHYSTOP\<close>; any other page it pushes on the pool, changing no byte outside the page.\<close>

theorem kfree_refines_push:
  assumes "kmem_inv s xs" "p \<notin> set xs"
  shows "if unat p mod 4096 = 0 \<and> kernel_end s \<le> p \<and> p \<le> PHYSTOP
    then \<exists>s'. kfree p s = Inr s' \<and> kmem_inv s' (p # xs) \<and> (\<forall>b. \<not> in_page p b \<longrightarrow> ram s' b = ram s b)
    else kfree p s = Inl (Panic ''kfree: invalid physical address'')"
proof (cases "page_ok (kernel_end s) p")
  case True
  with kmem.free_ok [OF assms(1) True assms(2)] show ?thesis by (auto simp: page_ok_def)
next
  case False
  with kfree_refuses [OF False] show ?thesis by (auto simp: page_ok_def)
qed

theorem kfree_refines_push_witness:
  "\<exists>s'. kfree 0x80501000 one_page = Inr s' \<and> kmem_inv s' [0x80501000, 0x80500000] \<and>
      (\<forall>b. \<not> in_page 0x80501000 b \<longrightarrow> ram s' b = ram one_page b)"
proof -
  have "kernel_end one_page \<le> 0x80501000" by (simp add: one_page_def)
  then show ?thesis
    using kfree_refines_push [OF one_page_inv, where p = "0x80501000"] by (simp add: PHYSTOP_def)
qed

text \<open>C11: on a machine whose kernel ends on a page boundary, \<open>kinit\<close> returns with every page from
  there that ends before \<open>PHYSTOP\<close> on the free list, once, and counted; the last page below
  \<open>PHYSTOP\<close> is left out. When the kernel's end is inside a page, \<open>kinit\<close> panics on that page.\<close>

theorem kinit_pool:
  assumes "quiet s" "0 < kernel_end s" "kernel_end s \<le> PHYSTOP - 2 * PGSIZE"
  shows "if unat (kernel_end s) mod 4096 = 0
    then \<exists>s' xs. kinit nm s = Inr s' \<and> kmem_inv s' xs \<and>
      set xs = {x. unat x mod 4096 = 0 \<and> kernel_end s \<le> x \<and> unat x + 4096 < unat PHYSTOP}
    else kinit nm s = Inl (Panic ''kfree: invalid physical address'')"
proof (cases "unat (kernel_end s) mod 4096 = 0")
  case True
  have "kernel_end s \<le> PHYSTOP" using assms(3) by (simp add: PHYSTOP_def PGSIZE_def word_le_nat_alt)
  with True kinit_lists_pages [OF assms(1,2)] show ?thesis by simp
next
  case False
  have "unat (PGROUNDDOWN (kernel_end s)) \<le> unat (kernel_end s)"
    using PGROUNDDOWN_le by (simp add: word_le_nat_alt)
  then have "PGROUNDDOWN (kernel_end s) + PGSIZE < PHYSTOP"
    using assms(3) by (simp add: PHYSTOP_def PGSIZE_def word_le_nat_alt word_less_nat_alt unat_word_ariths)
  with False kinit_refuses show ?thesis by simp
qed

theorem kinit_pool_witness:
  "\<exists>s' xs. kinit 0 one_page = Inr s' \<and> kmem_inv s' xs \<and>
      set xs = {x. unat x mod 4096 = 0 \<and> kernel_end one_page \<le> x \<and> unat x + 4096 < unat PHYSTOP}"
proof -
  have "quiet one_page" "0 < kernel_end one_page" "kernel_end one_page \<le> PHYSTOP - 2 * PGSIZE"
    "unat (kernel_end one_page) mod 4096 = 0"
    by (simp_all add: one_page_def quiet_def hart_defs PHYSTOP_def PGSIZE_def)
  with kinit_pool [of one_page 0] show ?thesis by simp
qed

text \<open>Freeing a page twice is not detected, and the next two allocations return the same
  page.\<close>

theorem double_free_aliases:
  assumes "kmem_inv s xs" "page_ok (kernel_end s) pa"
  shows "bnd (kfree pa s) (\<lambda>s. bnd (kfree pa s) (\<lambda>s. bnd (kalloc s) (\<lambda>(p, s).
      bnd (kalloc s) (\<lambda>(q, s). Inr (p, q))))) = Inr (pa, pa)"
  by (rule double_free [OF assms])

theorem double_free_aliases_witness:
  "bnd (kfree 0x80501000 one_page) (\<lambda>s. bnd (kfree 0x80501000 s) (\<lambda>s. bnd (kalloc s) (\<lambda>(p, s).
      bnd (kalloc s) (\<lambda>(q, s). Inr (p, q))))) = Inr (0x80501000, 0x80501000)"
  by (rule double_free_aliases [OF one_page_inv])
     (simp add: page_ok_def one_page_def PHYSTOP_def)

end
