(* ===== verification/Vm.thy ===== *)
theory Vm
  imports Kalloc
begin

text \<open>
  Sv39 page tables, \<open>mm/vm.cpp\<close>: tables are pages of the kernel's memory, an entry is a
  64-bit cell of such a page. \<open>walk\<close>, \<open>MapPages\<close> and \<open>vmunmap\<close> and the operations built on
  them, the tree of tables as a list, and the translation a tree stands for. Pointers returned by
  \<open>walk\<close> are addresses, the null pointer is 0, as in the source.
\<close>

section \<open>Walking and mapping\<close>

fun walk_level ::
    "nat \<Rightarrow> u64 \<Rightarrow> u64 \<Rightarrow> bool \<Rightarrow> 'a kmem_state_scheme \<Rightarrow> (u64 \<times> 'a kmem_state_scheme) res" where
  "walk_level 0 pagetable vaddr alloc s = Inr (pagetable + 8 * PX 0 vaddr, s)"
| "walk_level (Suc l) pagetable vaddr alloc s =
     (let pte = pagetable + 8 * PX (Suc l) vaddr in
      if ld64 (ram s) pte AND PTE_V \<noteq> 0
      then walk_level l (PTE2PAGE (ld64 (ram s) pte)) vaddr alloc s
      else if \<not> alloc then Inr (0, s)
      else bnd (kalloc s) (\<lambda>(pagetable, s).
        if pagetable = 0 then Inr (0, s)
        else
          let s = s\<lparr>ram := memset (ram s) pagetable 0 (ucast PGSIZE)\<rparr>;
              s = s\<lparr>ram := st64 (ram s) pte (PAGE2PTE pagetable OR PTE_V)\<rparr>
          in walk_level l pagetable vaddr alloc s))"

definition walk ::
    "u64 \<Rightarrow> u64 \<Rightarrow> bool \<Rightarrow> 'a kmem_state_scheme \<Rightarrow> (u64 \<times> 'a kmem_state_scheme) res" where
  "walk pagetable vaddr alloc s =
     (if vaddr \<ge> MAXVA then Inl (Panic ''get pagetable entry'')
      else walk_level 2 pagetable vaddr alloc s)"

definition walkaddr ::
    "u64 \<Rightarrow> u64 \<Rightarrow> 'a kmem_state_scheme \<Rightarrow> (u64 \<times> 'a kmem_state_scheme) res" where
  "walkaddr pagetable vaddr s =
     (if vaddr \<ge> MAXVA then Inr (0, s)
      else bnd (walk pagetable vaddr False s) (\<lambda>(pte, s).
        if pte = 0 then Inr (0, s)
        else if ld64 (ram s) pte AND PTE_V = 0 then Inr (0, s)
        else if ld64 (ram s) pte AND PTE_U = 0 then Inr (0, s)
        else if ld64 (ram s) pte AND PTE_U = 0 then Inr (0, s)
        else Inr (PTE2PAGE (ld64 (ram s) pte), s)))"

text \<open>\<open>*pte && PTE_V\<close> is a test of the whole entry.\<close>

definition KGetKaddr ::
    "u64 \<Rightarrow> u64 \<Rightarrow> 'a kmem_state_scheme \<Rightarrow> (u64 \<times> 'a kmem_state_scheme) res" where
  "KGetKaddr kpagetable vaddr s =
     (let poffset = vaddr mod PGSIZE in
      bnd (walk kpagetable vaddr False s) (\<lambda>(pte, s).
        if pte = 0 then Inl (Panic ''kernel virtual address'')
        else if \<not> (ld64 (ram s) pte \<noteq> 0 \<and> PTE_V \<noteq> 0) then Inl (Panic ''Invalid Page Entry'')
        else Inr (poffset + PTE2PAGE (ld64 (ram s) pte), s)))"

lemma walk_Inr_less: "walk pt va al s = Inr r \<Longrightarrow> va < MAXVA"
  by (auto simp: walk_def split: if_splits)

text \<open>
  The loops over pages step through the virtual addresses and \<open>walk\<close> panics at \<open>MAXVA\<close>, so
  they end.
\<close>

definition va_room :: "u64 \<Rightarrow> nat" where
  "va_room va = (if va < MAXVA then unat MAXVA - unat va else 0)"

lemma va_room_step: "va < MAXVA \<Longrightarrow> va_room (va + PGSIZE) < va_room va"
  by (auto simp: va_room_def word_less_nat_alt unat_MAXVA PGSIZE_def unat_word_ariths)

function MapPages_loop ::
    "u64 \<Rightarrow> u64 \<Rightarrow> u64 \<Rightarrow> u64 \<Rightarrow> u64 \<Rightarrow> 'a kmem_state_scheme \<Rightarrow> (int \<times> 'a kmem_state_scheme) res" where
  "MapPages_loop pagetable temp lastp paddr perm s =
     bnd (walk pagetable temp True s) (\<lambda>(pte, s).
       if pte = 0 then Inr (- 1, s)
       else if ld64 (ram s) pte \<noteq> 0 \<and> PTE_V \<noteq> 0 then Inl (Panic ''ramap'')
       else
         let s = s\<lparr>ram := st64 (ram s) pte (PAGE2PTE paddr OR perm OR PTE_V)\<rparr> in
         if temp = lastp then Inr (0, s)
         else MapPages_loop pagetable (temp + PGSIZE) lastp (paddr + PGSIZE) perm s)"
  by pat_completeness auto
termination
  by (relation "measure (\<lambda>(pt, temp, lastp, pa, perm, s). va_room temp)")
     (auto dest: walk_Inr_less intro: va_room_step)

declare MapPages_loop.simps [simp del]

definition MapPages ::
    "u64 \<Rightarrow> u64 \<Rightarrow> u64 \<Rightarrow> u64 \<Rightarrow> u64 \<Rightarrow> 'a kmem_state_scheme \<Rightarrow> (int \<times> 'a kmem_state_scheme) res" where
  "MapPages pagetable vaddr paddr sz perm s =
     MapPages_loop pagetable (PGROUNDDOWN vaddr) (PGROUNDDOWN (vaddr + sz - 1)) paddr perm s"

function vmunmap_loop ::
    "u64 \<Rightarrow> u64 \<Rightarrow> u64 \<Rightarrow> bool \<Rightarrow> 'a kmem_state_scheme \<Rightarrow> 'a kmem_state_scheme res" where
  "vmunmap_loop pagetable temp bound do_free s =
     (if temp < bound
      then bnd (walk pagetable temp False s) (\<lambda>(pte, s).
        if pte = 0 then Inl (Panic ''vmunmap: walk'')
        else if ld64 (ram s) pte \<noteq> 0 \<and> PTE_V \<noteq> 0 then Inl (Panic ''vmumap: invalid'')
        else if PTE_FLAGS (ld64 (ram s) pte) = PTE_V then Inl (Panic ''vmunmap: not a leaf'')
        else bnd (if do_free then kfree (PTE2PAGE (ld64 (ram s) pte)) s else Inr s) (\<lambda>s.
          vmunmap_loop pagetable (temp + PGSIZE) bound do_free (s\<lparr>ram := st64 (ram s) pte 0\<rparr>)))
      else Inr s)"
  by pat_completeness auto
termination
  by (relation "measure (\<lambda>(pt, temp, bound, f, s). va_room temp)")
     (auto dest: walk_Inr_less intro: va_room_step)

declare vmunmap_loop.simps [simp del]

definition vmunmap ::
    "u64 \<Rightarrow> u64 \<Rightarrow> u64 \<Rightarrow> bool \<Rightarrow> 'a kmem_state_scheme \<Rightarrow> 'a kmem_state_scheme res" where
  "vmunmap pagetable vaddr npg do_free s =
     (if vaddr mod PGSIZE \<noteq> 0 then Inl (Panic ''vmunmap: not aligned'')
      else vmunmap_loop pagetable vaddr (vaddr + npg * PGSIZE) do_free s)"

section \<open>User address spaces\<close>

abbreviation zero_page :: "u64 \<Rightarrow> 'a kmem_state_scheme \<Rightarrow> 'a kmem_state_scheme" where
  "zero_page p s \<equiv> s\<lparr>ram := memset (ram s) p 0 (ucast PGSIZE)\<rparr>"

definition Uvmcreate :: "'a kmem_state_scheme \<Rightarrow> (u64 \<times> 'a kmem_state_scheme) res" where
  "Uvmcreate s = bnd (kalloc s) (\<lambda>(pagetable, s).
     if pagetable = 0 then Inr (0, s) else Inr (pagetable, zero_page pagetable s))"

definition UvmInit ::
    "u64 \<Rightarrow> u64 \<Rightarrow> u64 \<Rightarrow> u32 \<Rightarrow> 'a kmem_state_scheme \<Rightarrow> 'a kmem_state_scheme res" where
  "UvmInit pagetable kpagetable src sz s =
     (if ucast sz \<ge> PGSIZE then Inl (Panic ''InitUserVM: more than one page'')
      else bnd (kalloc s) (\<lambda>(mem, s).
        let s = zero_page mem s in
        bnd (MapPages pagetable 0 PGSIZE mem (PTE_W OR PTE_R OR PTE_X OR PTE_U) s) (\<lambda>(_, s).
        bnd (MapPages kpagetable 0 PGSIZE mem (PTE_W OR PTE_X OR PTE_R) s) (\<lambda>(_, s).
          Inr (s\<lparr>ram := memmove (ram s) mem src sz\<rparr>)))))"

text \<open>An \<open>int\<close> holding a page count, passed on as \<open>uint64\<close>.\<close>

definition as_int :: "u64 \<Rightarrow> u64" where
  "as_int n = scast (ucast n :: u32)"

definition UvmDealloc ::
    "u64 \<Rightarrow> u64 \<Rightarrow> u64 \<Rightarrow> u64 \<Rightarrow> 'a kmem_state_scheme \<Rightarrow> (u64 \<times> 'a kmem_state_scheme) res" where
  "UvmDealloc pagetable kpagetable oldsize newsize s =
     (if newsize \<ge> oldsize then Inr (oldsize, s)
      else if PGROUNDDOWN newsize < PGROUNDDOWN oldsize then
        (let npg = as_int ((PGROUNDDOWN oldsize - PGROUNDDOWN newsize) div PGSIZE) in
         bnd (vmunmap kpagetable (PGROUNDDOWN newsize) npg False s) (\<lambda>s.
         bnd (vmunmap pagetable (PGROUNDDOWN newsize) npg True s) (\<lambda>s. Inr (newsize, s))))
      else Inr (newsize, s))"

lemma PGROUNDDOWN_less_MAXVA: "PGROUNDDOWN va < MAXVA \<Longrightarrow> va < MAXVA"
  by (simp add: word_less_nat_alt unat_PGROUNDDOWN unat_MAXVA)

lemma MapPages_Inr_less:
  assumes "MapPages pt va pa sz perm s = Inr r"
  shows "va < MAXVA"
proof (rule PGROUNDDOWN_less_MAXVA)
  show "PGROUNDDOWN va < MAXVA"
    using assms walk_Inr_less
    by (subst (asm) MapPages_def, subst (asm) MapPages_loop.simps) (auto simp: res_simps)
qed

function Uvmalloc_loop ::
    "u64 \<Rightarrow> u64 \<Rightarrow> u64 \<Rightarrow> u64 \<Rightarrow> u64 \<Rightarrow> 'a kmem_state_scheme \<Rightarrow> (u64 \<times> 'a kmem_state_scheme) res" where
  "Uvmalloc_loop pagetable kpagetable temp oldsize newsize s =
     (if temp < newsize
      then bnd (kalloc s) (\<lambda>(mem, s).
        if mem = 0
        then bnd (UvmDealloc pagetable kpagetable temp oldsize s) (\<lambda>(_, s). Inr (0, s))
        else
          bnd (MapPages pagetable temp PGSIZE mem (PTE_W OR PTE_X OR PTE_R OR PTE_U) (zero_page mem s))
           (\<lambda>(r, s).
            if r \<noteq> 0
            then bnd (kfree mem s) (\<lambda>s.
              bnd (UvmDealloc pagetable kpagetable temp oldsize s) (\<lambda>(_, s). Inr (0, s)))
            else
              bnd (MapPages kpagetable temp PGSIZE mem (PTE_W OR PTE_X OR PTE_R) s) (\<lambda>(r, s).
                if r \<noteq> 0
                then
                  (let npg = ucast ((temp - oldsize) div PGSIZE) :: u32 in
                   bnd (vmunmap pagetable oldsize (scast (npg + 1)) True s) (\<lambda>s.
                   bnd (vmunmap kpagetable oldsize (scast npg) False s) (\<lambda>s. Inr (0, s))))
                else Uvmalloc_loop pagetable kpagetable (temp + PGSIZE) oldsize newsize s)))
      else Inr (newsize, s))"
  by pat_completeness auto
termination
  by (relation "measure (\<lambda>(pt, kpt, temp, old, new, s). va_room temp)")
     (auto dest: MapPages_Inr_less intro: va_room_step)

declare Uvmalloc_loop.simps [simp del]

definition Uvmalloc ::
    "u64 \<Rightarrow> u64 \<Rightarrow> u64 \<Rightarrow> u64 \<Rightarrow> 'a kmem_state_scheme \<Rightarrow> (u64 \<times> 'a kmem_state_scheme) res" where
  "Uvmalloc pagetable kpagetable oldsize newsize s =
     (if newsize < oldsize then Inr (oldsize, s)
      else Uvmalloc_loop pagetable kpagetable (PGROUNDDOWN oldsize) (PGROUNDDOWN oldsize) newsize s)"

text \<open>
  \<open>freewalk\<close> follows whatever the entries say; on a cycle of tables it would not return.
  \<open>freewalk_from i\<close> is the loop from index \<open>i\<close> and the \<open>kfree\<close> after it.
\<close>

partial_function (option) freewalk_from ::
    "nat \<Rightarrow> u64 \<Rightarrow> 'a kmem_state_scheme \<Rightarrow> 'a kmem_state_scheme res option" where
  "freewalk_from i pagetable s =
     (if i < 512 then
        (let pte = ld64 (ram s) (pagetable + 8 * word_of_nat i) in
         if pte AND PTE_V \<noteq> 0 \<and> pte AND (PTE_R OR PTE_W OR PTE_X) = 0 then
           Option.bind (freewalk_from 0 (PTE2PAGE pte) s) (\<lambda>r.
             case r of
               Inl e \<Rightarrow> Some (Inl e)
             | Inr s \<Rightarrow> freewalk_from (Suc i) pagetable
                 (s\<lparr>ram := st64 (ram s) (pagetable + 8 * word_of_nat i) 0\<rparr>))
         else if pte AND PTE_V \<noteq> 0 then Some (Inl (Panic ''freewalk: leaf''))
         else freewalk_from (Suc i) pagetable s)
      else Some (kfree pagetable s))"

definition freewalk :: "u64 \<Rightarrow> 'a kmem_state_scheme \<Rightarrow> 'a kmem_state_scheme res option" where
  "freewalk pagetable s = freewalk_from 0 pagetable s"

definition Uvmfree :: "u64 \<Rightarrow> u64 \<Rightarrow> 'a kmem_state_scheme \<Rightarrow> 'a kmem_state_scheme res option" where
  "Uvmfree pagetable sz s =
     (case (if sz > 0 then vmunmap pagetable 0 (PGROUNDDOWN sz div PGSIZE) True s else Inr s) of
        Inl e \<Rightarrow> Some (Inl e)
      | Inr s \<Rightarrow> freewalk pagetable s)"

text \<open>\<open>i\<close> and \<open>ki\<close> are kept apart, as in the source: they differ at the second error exit.\<close>

function Uvmcopy_loop ::
    "u64 \<Rightarrow> u64 \<Rightarrow> u64 \<Rightarrow> u64 \<Rightarrow> u64 \<Rightarrow> u64 \<Rightarrow> 'a kmem_state_scheme \<Rightarrow> (int \<times> 'a kmem_state_scheme) res"
where
  "Uvmcopy_loop oldtable newtable knewtable sz i ki s =
     (let err = (\<lambda>i ki s. bnd (vmunmap knewtable 0 (ki div PGSIZE) False s) (\<lambda>s.
                   bnd (vmunmap newtable 0 (i div PGSIZE) True s) (\<lambda>s. Inr (- 1, s)))) in
      if sz > i then
        bnd (walk oldtable i False s) (\<lambda>(pte, s).
          if pte = 0 then Inl (Panic ''Uvmcopy: unexist pte'')
          else if ld64 (ram s) pte AND PTE_V = 0 then Inl (Panic ''Uvmcopy: page not present'')
          else
            let page = PTE2PAGE (ld64 (ram s) pte); flags = PTE_FLAGS (ld64 (ram s) pte) in
            bnd (kalloc s) (\<lambda>(mem, s).
              if mem = 0 then err i ki s
              else
                let s = s\<lparr>ram := memmove (ram s) mem page (ucast PGSIZE)\<rparr> in
                bnd (MapPages newtable i PGSIZE mem flags s) (\<lambda>(r, s).
                  if r \<noteq> 0 then bnd (kfree mem s) (err i ki)
                  else
                    bnd (MapPages knewtable ki PGSIZE mem (flags AND NOT PTE_U) s) (\<lambda>(r, s).
                      if r \<noteq> 0 then err (i + PGSIZE) ki s
                      else Uvmcopy_loop oldtable newtable knewtable sz (i + PGSIZE) (ki + PGSIZE) s))))
      else Inr (0, s))"
  by pat_completeness auto
termination
  by (relation "measure (\<lambda>(ot, nt, kt, sz, i, ki, s). va_room i)")
     (auto dest: walk_Inr_less intro: va_room_step)

declare Uvmcopy_loop.simps [simp del]

definition Uvmcopy ::
    "u64 \<Rightarrow> u64 \<Rightarrow> u64 \<Rightarrow> u64 \<Rightarrow> 'a kmem_state_scheme \<Rightarrow> (int \<times> 'a kmem_state_scheme) res" where
  "Uvmcopy oldtable newtable knewtable sz s = Uvmcopy_loop oldtable newtable knewtable sz 0 0 s"

definition Uvmclear :: "u64 \<Rightarrow> u64 \<Rightarrow> 'a kmem_state_scheme \<Rightarrow> 'a kmem_state_scheme res" where
  "Uvmclear pagetable vaddr s = bnd (walk pagetable vaddr False s) (\<lambda>(pte, s).
     if pte = 0 then Inl (Panic ''Uvmclear'')
     else Inr (s\<lparr>ram := st64 (ram s) pte (ld64 (ram s) pte AND NOT PTE_U)\<rparr>))"

section \<open>Copying between spaces\<close>

lemma copy_step:
  fixes len va :: u64
  assumes "0 < len" "\<not> len < PGSIZE - (va - PGROUNDDOWN va)"
  shows "unat (len - (PGSIZE - (va - PGROUNDDOWN va))) < unat len"
proof -
  let ?n = "PGSIZE - (va - PGROUNDDOWN va)"
  have o: "unat (va - PGROUNDDOWN va) < 4096" by (simp add: PGROUNDDOWN_offset)
  then have "va - PGROUNDDOWN va \<le> PGSIZE" by (simp add: word_le_nat_alt PGSIZE_def)
  then have "unat ?n = 4096 - unat (va - PGROUNDDOWN va)"
    by (simp add: unat_sub PGSIZE_def)
  with o have "0 < unat ?n" by linarith
  moreover have "0 < unat len" using assms by (simp add: word_less_nat_alt)
  ultimately show ?thesis
    using unat_sub [of ?n len] assms(2) by (simp add: not_less)
qed

lemma pos_unat: "0 < (len :: u64) \<Longrightarrow> 0 < unat len"
  by (simp add: word_less_nat_alt)

function copyout ::
    "u64 \<Rightarrow> u64 \<Rightarrow> u64 \<Rightarrow> u64 \<Rightarrow> 'a kmem_state_scheme \<Rightarrow> (int \<times> 'a kmem_state_scheme) res" where
  "copyout pagetable dstvaddr src len s =
     (if len > 0 then
        (let vaddr0 = PGROUNDDOWN dstvaddr in
         bnd (KGetKaddr pagetable vaddr0 s) (\<lambda>(paddr0, s).
           if paddr0 = 0 then Inr (- 1, s)
           else
             let n = PGSIZE - (dstvaddr - vaddr0); n = (if n > len then len else n) in
             copyout pagetable (vaddr0 + PGSIZE) (src + n) (len - n)
               (s\<lparr>ram := memmove (ram s) (paddr0 + (dstvaddr - vaddr0)) src (ucast n)\<rparr>)))
      else Inr (0, s))"
  by pat_completeness auto
termination
  by (relation "measure (\<lambda>(pt, va, src, len, s). unat len)") (auto intro: copy_step pos_unat)

function copyin ::
    "u64 \<Rightarrow> u64 \<Rightarrow> u64 \<Rightarrow> u64 \<Rightarrow> 'a kmem_state_scheme \<Rightarrow> (int \<times> 'a kmem_state_scheme) res" where
  "copyin pagetable dst srcvaddr len s =
     (if len > 0 then
        (let vaddr0 = PGROUNDDOWN srcvaddr in
         bnd (KGetKaddr pagetable vaddr0 s) (\<lambda>(paddr0, s).
           if paddr0 = 0 then Inr (- 1, s)
           else
             let n = PGSIZE - (srcvaddr - vaddr0); n = (if n > len then len else n) in
             copyin pagetable (dst + n) (vaddr0 + PGSIZE) (len - n)
               (s\<lparr>ram := memmove (ram s) dst (paddr0 + (srcvaddr - vaddr0)) (ucast n)\<rparr>)))
      else Inr (0, s))"
  by pat_completeness auto
termination
  by (relation "measure (\<lambda>(pt, dst, va, len, s). unat len)") (auto intro: copy_step pos_unat)

declare copyout.simps [simp del] copyin.simps [simp del]

text \<open>
  One page of \<open>copyinstr\<close>: at most \<open>n\<close> bytes from \<open>p\<close>; the result is the memory, what is left
  of \<open>max\<close>, the next destination, and \<open>got_null\<close>.
\<close>

fun copyinstr_page :: "nat \<Rightarrow> mem \<Rightarrow> u64 \<Rightarrow> u64 \<Rightarrow> u64 \<Rightarrow> mem \<times> u64 \<times> u64 \<times> bool" where
  "copyinstr_page 0 m p dst mx = (m, mx, dst, False)"
| "copyinstr_page (Suc n) m p dst mx =
     (if m p = 0 then (m(dst := 0), mx, dst, True)
      else copyinstr_page n (m(dst := m p)) (p + 1) (dst + 1) (mx - 1))"

lemma copyinstr_page_max:
  "copyinstr_page n m p dst mx = (m', mx', dst', False) \<Longrightarrow> mx' = mx - word_of_nat n"
  by (induction n m p dst mx rule: copyinstr_page.induct) (auto split: if_splits)

function copyinstr ::
    "u64 \<Rightarrow> u64 \<Rightarrow> u64 \<Rightarrow> u64 \<Rightarrow> 'a kmem_state_scheme \<Rightarrow> (int \<times> 'a kmem_state_scheme) res" where
  "copyinstr pagetable dst srcvaddr mx s =
     (if mx > 0 then
        (let vaddr0 = PGROUNDDOWN srcvaddr in
         bnd (KGetKaddr pagetable vaddr0 s) (\<lambda>(paddr0, s).
           if paddr0 = 0 then Inr (- 1, s)
           else
             let n = PGSIZE - (srcvaddr - vaddr0); n = (if n > mx then mx else n) in
             (case copyinstr_page (unat n) (ram s) (paddr0 + (srcvaddr - vaddr0)) dst mx of
                (m, mx', dst', got_null) \<Rightarrow>
                  if got_null then Inr (0, s\<lparr>ram := m\<rparr>)
                  else copyinstr pagetable dst' (vaddr0 + PGSIZE) mx' (s\<lparr>ram := m\<rparr>))))
      else Inr (- 1, s))"
  by pat_completeness auto
termination
  by (relation "measure (\<lambda>(pt, dst, va, mx, s). unat mx)")
     (auto dest!: copyinstr_page_max [OF sym] intro: copy_step pos_unat)

declare copyinstr.simps [simp del]

section \<open>The kernel's page tables\<close>

text \<open>\<open>etext\<close> and \<open>trampoline\<close> are linker symbols.\<close>

record vm_state = kmem_state +
  kern_pagetable :: u64
  etext :: u64
  trampoline :: u64

definition kvmMap ::
    "u64 \<Rightarrow> u64 \<Rightarrow> u64 \<Rightarrow> u64 \<Rightarrow> 'a vm_state_scheme \<Rightarrow> 'a vm_state_scheme res" where
  "kvmMap vaddr paddr sz perm s =
     bnd (MapPages (kern_pagetable s) vaddr paddr sz perm s) (\<lambda>(r, s).
       if r \<noteq> 0 then Inl (Panic ''kvmMap: failed!'') else Inr s)"

definition kvmPaddr :: "u64 \<Rightarrow> 'a vm_state_scheme \<Rightarrow> (u64 \<times> 'a vm_state_scheme) res" where
  "kvmPaddr vaddr s = KGetKaddr (kern_pagetable s) vaddr s"

text \<open>\<open>kvmInit\<close> of the K210 build: the block under \<open>#ifndef K210\<close> is not compiled.\<close>

definition kvmInit :: "'a vm_state_scheme \<Rightarrow> 'a vm_state_scheme res" where
  "kvmInit s =
     bnd (kalloc s) (\<lambda>(p, s).
       let s = s\<lparr>kern_pagetable := p\<rparr>;
           s = zero_page (kern_pagetable s) s in
       bnd (kvmMap UART_V UART PGSIZE (PTE_R OR PTE_W) s) (\<lambda>s.
       bnd (kvmMap KERNBASE KERNBASE (etext s - KERNBASE) (PTE_R OR PTE_X) s) (\<lambda>s.
       bnd (kvmMap (etext s) (etext s) (PHYSTOP - etext s) (PTE_R OR PTE_W) s) (\<lambda>s.
       bnd (kvmMap TRAMPOLINE (trampoline s) PGSIZE (PTE_R OR PTE_X) s) (\<lambda>s.
       bnd (kvmMap CLINT_V CLINT 0x10000 (PTE_R OR PTE_W) s) (\<lambda>s.
       bnd (kvmMap PLIC_V PLIC 0x4000 (PTE_R OR PTE_W) s) (\<lambda>s.
         kvmMap (PLIC_V + 0x200000) (PLIC + 0x200000) 0x4000 (PTE_R OR PTE_W) s)))))))"

partial_function (option) Kfreewalk_from ::
    "nat \<Rightarrow> u64 \<Rightarrow> 'a kmem_state_scheme \<Rightarrow> 'a kmem_state_scheme res option" where
  "Kfreewalk_from i kpagetable s =
     (if i < 512 then
        (let pte = ld64 (ram s) (kpagetable + 8 * word_of_nat i) in
         if pte AND PTE_V \<noteq> 0 \<and> pte AND (PTE_R OR PTE_W OR PTE_X) = 0 then
           Option.bind (Kfreewalk_from 0 (PTE2PAGE pte) s) (\<lambda>r.
             case r of
               Inl e \<Rightarrow> Some (Inl e)
             | Inr s \<Rightarrow> Kfreewalk_from (Suc i) kpagetable
                 (s\<lparr>ram := st64 (ram s) (kpagetable + 8 * word_of_nat i) 0\<rparr>))
         else if pte AND PTE_V \<noteq> 0 then Some (kfree kpagetable s)
         else Kfreewalk_from (Suc i) kpagetable s)
      else Some (kfree kpagetable s))"

definition Kfreewalk :: "u64 \<Rightarrow> 'a kmem_state_scheme \<Rightarrow> 'a kmem_state_scheme res option" where
  "Kfreewalk kpagetable s = Kfreewalk_from 0 kpagetable s"

text \<open>\<open>KvmfreeUser\<close>: indices below \<open>PX(2, MAXUVA)\<close>; \<open>n\<close> are left.\<close>

fun KvmfreeUser_loop ::
    "nat \<Rightarrow> nat \<Rightarrow> u64 \<Rightarrow> 'a kmem_state_scheme \<Rightarrow> 'a kmem_state_scheme res option" where
  "KvmfreeUser_loop 0 i kpagetable s = Some (Inr s)"
| "KvmfreeUser_loop (Suc n) i kpagetable s =
     (let pte = ld64 (ram s) (kpagetable + 8 * word_of_nat i) in
      if pte AND PTE_V \<noteq> 0 \<and> pte AND (PTE_R OR PTE_W OR PTE_X) = 0 then
        Option.bind (Kfreewalk (PTE2PAGE pte) s) (\<lambda>r.
          case r of
            Inl e \<Rightarrow> Some (Inl e)
          | Inr s \<Rightarrow> KvmfreeUser_loop n (Suc i) kpagetable
              (s\<lparr>ram := st64 (ram s) (kpagetable + 8 * word_of_nat i) 0\<rparr>))
      else KvmfreeUser_loop n (Suc i) kpagetable s)"

definition KvmfreeUser :: "u64 \<Rightarrow> 'a kmem_state_scheme \<Rightarrow> 'a kmem_state_scheme res option" where
  "KvmfreeUser kpagetable s = KvmfreeUser_loop (unat (PX 2 MAXUVA)) 0 kpagetable s"

definition Kvmfree ::
    "u64 \<Rightarrow> bool \<Rightarrow> 'a kmem_state_scheme \<Rightarrow> 'a kmem_state_scheme res option" where
  "Kvmfree kpagetable stack_free s =
     opt_bnd
       (if stack_free then
          opt_bnd (Some (vmunmap kpagetable VKSTACK 1 True s)) (\<lambda>s.
            let pte = ld64 (ram s) (kpagetable + 8 * PX 2 VKSTACK) in
            if pte AND PTE_V \<noteq> 0 \<and> pte AND (PTE_R OR PTE_W OR PTE_X) = 0
            then Kfreewalk (PTE2PAGE pte) s else Some (Inr s))
        else Some (Inr s))
       (\<lambda>s. opt_bnd (KvmfreeUser kpagetable s) (\<lambda>s. Some (kfree kpagetable s)))"

definition proc_kpagetable :: "'a vm_state_scheme \<Rightarrow> (u64 \<times> 'a vm_state_scheme) res option" where
  "proc_kpagetable s =
     (let fail = (\<lambda>kpagetable s. opt_bnd (Kvmfree kpagetable True s) (\<lambda>s. Some (Inr (0, s)))) in
      opt_bnd (Some (kalloc s)) (\<lambda>(kpagetable, s).
        if kpagetable = 0 then Some (Inr (0, s))
        else
          let s = s\<lparr>ram := memmove (ram s) kpagetable (kern_pagetable s) (ucast PGSIZE)\<rparr> in
          opt_bnd (Some (kalloc s)) (\<lambda>(pstack, s).
            if pstack = 0 then fail kpagetable s
            else opt_bnd (Some (MapPages kpagetable VKSTACK pstack PGSIZE (PTE_R OR PTE_W) s))
              (\<lambda>(r, s). if r \<noteq> 0 then fail kpagetable s else Some (Inr (kpagetable, s))))))"

section \<open>The tree of tables\<close>

text \<open>
  \<open>tables l m pt\<close> lists the pages a tree of height \<open>l\<close> rooted at \<open>pt\<close> consists of, root first.
  \<open>leaf\<close> is the address of the entry that ends the walk, \<open>entry\<close> its contents, 0 where the walk
  ends early.
\<close>

abbreviation slot :: "u64 \<Rightarrow> nat \<Rightarrow> u64" where
  "slot pt i \<equiv> pt + 8 * word_of_nat i"

definition ptes :: "nat list" where
  "ptes = [0..<512]"

fun tables :: "nat \<Rightarrow> mem \<Rightarrow> u64 \<Rightarrow> u64 list" where
  "tables 0 m pt = [pt]"
| "tables (Suc l) m pt = pt # concat (map (\<lambda>i.
     if ld64 m (slot pt i) AND PTE_V \<noteq> 0 then tables l m (PTE2PAGE (ld64 m (slot pt i))) else [])
     ptes)"

fun leaf :: "nat \<Rightarrow> mem \<Rightarrow> u64 \<Rightarrow> u64 \<Rightarrow> u64 option" where
  "leaf 0 m pt va = Some (slot pt (unat (PX 0 va)))"
| "leaf (Suc l) m pt va =
     (let e = ld64 m (slot pt (unat (PX (Suc l) va))) in
      if e AND PTE_V \<noteq> 0 then leaf l m (PTE2PAGE e) va else None)"

definition entry :: "nat \<Rightarrow> mem \<Rightarrow> u64 \<Rightarrow> u64 \<Rightarrow> u64" where
  "entry l m pt va = (case leaf l m pt va of None \<Rightarrow> 0 | Some a \<Rightarrow> ld64 m a)"

definition branch :: "nat \<Rightarrow> mem \<Rightarrow> u64 \<Rightarrow> nat \<Rightarrow> u64 list" where
  "branch l m pt i = (if ld64 m (slot pt i) AND PTE_V \<noteq> 0
     then tables l m (PTE2PAGE (ld64 m (slot pt i))) else [])"

lemma distinct_concat_upt:
  "distinct (concat (map f [0..<n])) \<longleftrightarrow>
     (\<forall>i<n. distinct (f i)) \<and> (\<forall>i<n. \<forall>j<n. i \<noteq> j \<longrightarrow> set (f i) \<inter> set (f j) = {})"
proof (induction n)
  case 0
  then show ?case by simp
next
  case (Suc n)
  have "distinct (concat (map f [0..<Suc n])) \<longleftrightarrow> distinct (concat (map f [0..<n])) \<and> distinct (f n) \<and>
      (\<forall>i<n. set (f i) \<inter> set (f n) = {})"
    by (auto simp: disjoint_iff Bex_def)
  also have "\<dots> \<longleftrightarrow> (\<forall>i<Suc n. distinct (f i)) \<and>
      (\<forall>i<Suc n. \<forall>j<Suc n. i \<noteq> j \<longrightarrow> set (f i) \<inter> set (f j) = {})"
    unfolding Suc less_Suc_eq by blast
  finally show ?case .
qed

lemma set_ptes: "set ptes = {..<512}"
  unfolding ptes_def set_upt atLeast0LessThan by (rule refl)

lemma tables_branch: "tables (Suc l) m pt = pt # concat (map (branch l m pt) ptes)"
  by (simp only: tables.simps branch_def [abs_def])

lemma tables_Suc_set: "set (tables (Suc l) m pt) = insert pt (\<Union>i<512. set (branch l m pt i))"
  by (simp only: tables_branch list.simps set_concat set_map set_ptes image_image)

declare tables.simps(2) [simp del]

lemma sub_tables:
  "i < 512 \<Longrightarrow> ld64 m (slot pt i) AND PTE_V \<noteq> 0 \<Longrightarrow> x \<in> set (tables l m (PTE2PAGE (ld64 m (slot pt i)))) \<Longrightarrow>
    x \<in> set (tables (Suc l) m pt)"
  unfolding tables_Suc_set by (auto simp: branch_def intro!: bexI [of _ i])

lemma root_in_tables [simp]: "pt \<in> set (tables l m pt)"
  by (cases l) (simp_all add: tables_Suc_set)

lemma tables_Suc_distinct:
  "distinct (tables (Suc l) m pt) \<longleftrightarrow> (\<forall>i<512. pt \<notin> set (branch l m pt i)) \<and>
     (\<forall>i<512. distinct (branch l m pt i)) \<and>
     (\<forall>i<512. \<forall>j<512. i \<noteq> j \<longrightarrow> set (branch l m pt i) \<inter> set (branch l m pt j) = {})"
proof -
  have "distinct (concat (map (branch l m pt) ptes)) \<longleftrightarrow> (\<forall>i<512. distinct (branch l m pt i)) \<and>
     (\<forall>i<512. \<forall>j<512. i \<noteq> j \<longrightarrow> set (branch l m pt i) \<inter> set (branch l m pt j) = {})"
    unfolding ptes_def by (rule distinct_concat_upt)
  moreover have "pt \<in> set (concat (map (branch l m pt) ptes)) \<longleftrightarrow> (\<exists>i<512. pt \<in> set (branch l m pt i))"
    by (auto simp: set_ptes)
  ultimately show ?thesis by (simp only: tables_branch distinct.simps) blast
qed

lemma in_page_slot:
  assumes "i < 512" "j < 8"
  shows "in_page pt (slot pt i + word_of_nat j)"
proof -
  have "slot pt i + word_of_nat j - pt = (word_of_nat (8 * i + j) :: u64)" by simp
  moreover have "unat (word_of_nat (8 * i + j) :: u64) = 8 * i + j"
    unfolding unat_of_nat using assms by (intro mod_less) simp
  ultimately show ?thesis using assms by (simp add: in_page_def)
qed

lemma slot_cong:
  "i < 512 \<Longrightarrow> (\<And>b. in_page pt b \<Longrightarrow> m' b = m b) \<Longrightarrow> ld64 m' (slot pt i) = ld64 m (slot pt i)"
  by (rule ld64_cong) (use in_page_slot in auto)

lemma tables_cong:
  "(\<And>x b. x \<in> set (tables l m pt) \<Longrightarrow> in_page x b \<Longrightarrow> m' b = m b) \<Longrightarrow>
    tables l m' pt = tables l m pt"
proof (induction l arbitrary: pt)
  case 0
  then show ?case by simp
next
  case (Suc l)
  have e: "ld64 m' (slot pt i) = ld64 m (slot pt i)" if "i < 512" for i
    by (rule slot_cong [OF that]) (use Suc.prems root_in_tables in blast)
  have "tables l m' (PTE2PAGE (ld64 m (slot pt i))) = tables l m (PTE2PAGE (ld64 m (slot pt i)))"
    if "i < 512" "ld64 m (slot pt i) AND PTE_V \<noteq> 0" for i
    by (rule Suc.IH, rule Suc.prems) (use that sub_tables in blast)+
  with e have "map (branch l m' pt) ptes = map (branch l m pt) ptes"
    by (intro map_cong) (auto simp: branch_def set_ptes)
  then show ?case by (simp only: tables_branch)
qed

lemma leaf_cong:
  "(\<And>x b. x \<in> set (tables l m pt) \<Longrightarrow> in_page x b \<Longrightarrow> m' b = m b) \<Longrightarrow>
    leaf l m' pt va = leaf l m pt va"
proof (induction l arbitrary: pt)
  case 0
  then show ?case by simp
next
  case (Suc l)
  let ?i = "unat (PX (Suc l) va)"
  have i: "?i < 512" by (rule PX_less)
  have e: "ld64 m' (slot pt ?i) = ld64 m (slot pt ?i)"
    by (rule slot_cong [OF i]) (use Suc.prems root_in_tables in blast)
  have "leaf l m' (PTE2PAGE (ld64 m (slot pt ?i))) va = leaf l m (PTE2PAGE (ld64 m (slot pt ?i))) va"
    if "ld64 m (slot pt ?i) AND PTE_V \<noteq> 0"
    by (rule Suc.IH, rule Suc.prems) (use that i sub_tables in blast)+
  with e show ?case by (simp add: Let_def)
qed

lemma leaf_in:
  "leaf l m pt va = Some a \<Longrightarrow> \<exists>x i. x \<in> set (tables l m pt) \<and> i < 512 \<and> a = slot x i"
proof (induction l arbitrary: pt)
  case 0
  then show ?case using PX_less [of 0 va] by auto
next
  case (Suc l)
  let ?i = "unat (PX (Suc l) va)"
  have i: "?i < 512" by (rule PX_less)
  let ?e = "ld64 m (slot pt ?i)"
  from Suc.prems have v: "?e AND PTE_V \<noteq> 0" "leaf l m (PTE2PAGE ?e) va = Some a"
    by (auto simp: Let_def split: if_splits)
  from Suc.IH [OF v(2)] obtain x j where x: "x \<in> set (tables l m (PTE2PAGE ?e))" "j < 512" "a = slot x j"
    by blast
  from sub_tables [OF i v(1) x(1)] have "x \<in> set (tables (Suc l) m pt)" .
  with x show ?case by blast
qed

lemma entry_cong:
  assumes "\<And>x b. x \<in> set (tables l m pt) \<Longrightarrow> in_page x b \<Longrightarrow> m' b = m b"
  shows "entry l m' pt va = entry l m pt va"
proof -
  have l: "leaf l m' pt va = leaf l m pt va" by (rule leaf_cong) (rule assms)
  show ?thesis
  proof (cases "leaf l m pt va")
    case (Some a)
    from leaf_in [OF Some] obtain x i where x: "x \<in> set (tables l m pt)" "i < 512" "a = slot x i" by blast
    have "ld64 m' a = ld64 m a" unfolding x(3) by (rule slot_cong [OF x(2)]) (use assms x(1) in blast)
    with l Some show ?thesis by (simp add: entry_def)
  qed (simp add: entry_def l)
qed

section \<open>What walking with allocation does to the tree\<close>

lemma unat_slot:
  assumes "unat pt mod 4096 = 0" "i < 512"
  shows "unat (slot pt i) = unat pt + 8 * i"
proof -
  obtain q where q: "unat pt = 4096 * q" using assms(1) by (metis mod_0_imp_dvd dvdE)
  have "unat pt < 2 ^ 64" using unsigned_less [of pt, where ?'a = nat] by simp
  then have "4096 * q + 8 * i < 2 ^ 64" using q assms(2) by simp
  then have "unat (pt + word_of_nat (8 * i)) = unat pt + 8 * i"
    using q by (intro unat_add_off) simp
  then show ?thesis by simp
qed

lemma slot_mod8: "unat pt mod 4096 = 0 \<Longrightarrow> i < 512 \<Longrightarrow> unat (slot pt i) mod 8 = 0"
  using page_mod8 [of pt] by (subst unat_slot) auto

lemma slot_eq_iff:
  assumes "unat pt mod 4096 = 0" "unat qt mod 4096 = 0" "i < 512" "j < 512"
  shows "slot pt i = slot qt j \<longleftrightarrow> pt = qt \<and> i = j"
proof
  assume "slot pt i = slot qt j"
  then have e: "unat pt + 8 * i = unat qt + 8 * j"
    using assms unat_slot by metis
  have "(unat pt + 8 * i) mod 4096 = 8 * i" "(unat qt + 8 * j) mod 4096 = 8 * j"
    using assms by (auto simp: mod_add_eq [symmetric] mod_add_left_eq [symmetric])
  with e have "8 * i = 8 * j" by metis
  with e show "pt = qt \<and> i = j" by (simp add: word_unat_eq_iff)
qed simp

lemma in_page_st64:
  assumes "i < 512" "\<not> in_page pt b"
  shows "st64 m (slot pt i) v b = m b"
proof -
  have "\<not> unat (b - slot pt i) < 8"
  proof
    assume u: "unat (b - slot pt i) < 8"
    have "b = slot pt i + word_of_nat (unat (b - slot pt i))" by simp
    with in_page_slot [OF assms(1) u, of pt] assms(2) show False by simp
  qed
  then show ?thesis by (simp add: st64_apply)
qed

lemma slot_st64:
  assumes "unat pt mod 4096 = 0" "unat qt mod 4096 = 0" "i < 512" "j < 512"
  shows "ld64 (st64 m (slot pt i) v) (slot qt j) = (if pt = qt \<and> i = j then v else ld64 m (slot qt j))"
  using slot_eq_iff [OF assms] ld64_st64_other [of "slot qt j" "slot pt i"] slot_mod8 assms
  by (cases "slot pt i = slot qt j") auto

lemma tables_zero:
  assumes "\<And>b. in_page p b \<Longrightarrow> m b = 0"
  shows "tables l m p = [p]" "l > 0 \<Longrightarrow> leaf l m p va = None" "entry l m p va = 0"
proof -
  have z: "ld64 m (slot p i) = 0" if "i < 512" for i
    using slot_cong [OF that, of p "\<lambda>_. 0" m] assms by simp
  have zx: "ld64 m (p + 8 * PX k va) = 0" for k
    using z [OF PX_less, of k va] by simp
  show "tables l m p = [p]"
  proof (cases l)
    case (Suc k)
    have "map (branch k m p) ptes = map (\<lambda>_. []) ptes"
      by (intro map_cong) (auto simp: branch_def set_ptes z)
    then have "concat (map (branch k m p) ptes) = concat (map (\<lambda>_. []) ptes)" by (rule arg_cong)
    then show ?thesis using Suc by (simp add: tables_branch)
  qed simp
  show "l > 0 \<Longrightarrow> leaf l m p va = None"
    by (cases l) (simp_all add: Let_def zx)
  show "entry l m p va = 0"
    by (cases l) (simp_all add: Let_def entry_def zx)
qed

lemma tables_replace:
  assumes d: "distinct (tables (Suc l) m pt)" and i: "i < 512"
    and oth: "\<And>j. j < 512 \<Longrightarrow> j \<noteq> i \<Longrightarrow> ld64 m' (slot pt j) = ld64 m (slot pt j)"
    and frame: "\<And>x b. x \<in> set (tables (Suc l) m pt) \<Longrightarrow> x \<noteq> pt \<Longrightarrow> x \<notin> set (branch l m pt i) \<Longrightarrow>
        in_page x b \<Longrightarrow> m' b = m b"
    and sub: "set (branch l m' pt i) = set (branch l m pt i) \<union> Y" "distinct (branch l m' pt i)"
    and Y: "Y \<inter> set (tables (Suc l) m pt) = {}"
  shows "distinct (tables (Suc l) m' pt)"
    and "set (tables (Suc l) m' pt) = set (tables (Suc l) m pt) \<union> Y"
    and "unat (PX (Suc l) va) \<noteq> i \<Longrightarrow> entry (Suc l) m' pt va = entry (Suc l) m pt va"
proof -
  note D = d [unfolded tables_Suc_distinct]
  have same: "m' b = m b" if "j < 512" "j \<noteq> i" "x \<in> set (branch l m pt j)" "in_page x b" for j x b
  proof (rule frame [OF _ _ _ that(4)])
    show "x \<in> set (tables (Suc l) m pt)" using that by (auto simp: tables_Suc_set)
    show "x \<noteq> pt" using that D by blast
    have "set (branch l m pt i) \<inter> set (branch l m pt j) = {}" using D i that(1,2) by blast
    then show "x \<notin> set (branch l m pt i)" using that(3) by blast
  qed
  have br: "branch l m' pt j = branch l m pt j" if "j < 512" "j \<noteq> i" for j
    using oth [OF that] same [OF that] tables_cong [of l m "PTE2PAGE (ld64 m (slot pt j))" m']
    by (auto simp: branch_def)
  have sub_in: "set (branch l m pt j) \<subseteq> set (tables (Suc l) m pt)" if "j < 512" for j
    using that by (auto simp: tables_Suc_set)
  have un: "(\<Union>j<512. set (branch l m' pt j)) = (\<Union>j<512. set (branch l m pt j)) \<union> Y"
  proof -
    have e: "(\<Union>j\<in>{..<512} - {i}. set (branch l m' pt j)) = (\<Union>j\<in>{..<512} - {i}. set (branch l m pt j))"
      by (rule SUP_cong) (auto simp: br)
    have split: "(\<Union>j<512. A j) = A i \<union> (\<Union>j\<in>{..<512} - {i}. A j)" for A :: "nat \<Rightarrow> u64 set"
      using i by blast
    show ?thesis unfolding split e sub(1) by (simp only: Un_ac)
  qed
  show "set (tables (Suc l) m' pt) = set (tables (Suc l) m pt) \<union> Y"
    unfolding tables_Suc_set un by blast
  have pt: "pt \<notin> Y" using Y root_in_tables by blast
  show "distinct (tables (Suc l) m' pt)"
    unfolding tables_Suc_distinct
  proof (intro conjI allI impI)
    fix j :: nat assume j: "j < 512"
    show "pt \<notin> set (branch l m' pt j)" "distinct (branch l m' pt j)"
      using D j br [OF j] sub pt by (cases "j = i"; auto)+
    fix k :: nat assume k: "k < 512" "j \<noteq> k"
    have dj: "set (branch l m pt j) \<inter> set (branch l m pt k) = {}" using D j k by blast
    have "Y \<inter> set (branch l m pt k) = {}" "Y \<inter> set (branch l m pt j) = {}"
      using Y sub_in [OF j] sub_in [OF k(1)] by blast+
    then show "set (branch l m' pt j) \<inter> set (branch l m' pt k) = {}"
      using dj br [OF j] br [OF k(1)] sub(1) k(2) by (cases "j = i"; cases "k = i"; auto)
  qed
  show "entry (Suc l) m' pt va = entry (Suc l) m pt va" if ne: "unat (PX (Suc l) va) \<noteq> i"
  proof -
    let ?j = "unat (PX (Suc l) va)"
    have j: "?j < 512" by (rule PX_less)
    have "entry l m' (PTE2PAGE (ld64 m (slot pt ?j))) va = entry l m (PTE2PAGE (ld64 m (slot pt ?j))) va"
      if "ld64 m (slot pt ?j) AND PTE_V \<noteq> 0"
      by (rule entry_cong) (use same [OF j ne] that in \<open>auto simp: branch_def\<close>)
    then show ?thesis using oth [OF j ne] by (auto simp: entry_def Let_def)
  qed
qed

definition pt_ok :: "nat \<Rightarrow> 'a kmem_state_scheme \<Rightarrow> u64 \<Rightarrow> u64 list \<Rightarrow> bool" where
  "pt_ok l s pt xs \<longleftrightarrow> kmem_inv s xs \<and> distinct (tables l (ram s) pt) \<and>
     set (tables l (ram s) pt) \<inter> set xs = {} \<and>
     (\<forall>x \<in> set (tables l (ram s) pt). page_ok (kernel_end s) x)"

lemma pte_valid: "(w OR PTE_V) AND PTE_V \<noteq> 0"
proof -
  have "bit ((w OR PTE_V) AND PTE_V) 0" by (simp add: bit_simps PTE_V_def)
  then show ?thesis by fastforce
qed

lemma PTE2PAGE_page: "page_ok ke p \<Longrightarrow> PTE2PAGE (PAGE2PTE p OR PTE_V) = p"
  using PTE2PAGE_PAGE2PTE [of p 0] by (simp add: page_ok_def PHYSTOP_def word_le_nat_alt)

lemma kmem_inv_page: "kmem_inv s xs \<Longrightarrow> x \<in> set xs \<Longrightarrow> unat x mod 4096 = 0"
  by (auto simp: kmem_inv_def page_ok_def)

lemma popped_more [simp]: "kmem_state.more (popped s) = kmem_state.more s"
  by (simp add: popped_def masked_def)

lemma masked_more [simp]: "kmem_state.more (masked s) = kmem_state.more s"
  by (simp add: masked_def)

text \<open>The step at an empty slot: the new page is an empty table, reached through the slot.\<close>

definition linked :: "u64 \<Rightarrow> nat \<Rightarrow> 'a kmem_state_scheme \<Rightarrow> 'a kmem_state_scheme" where
  "linked pt i s = (let p = freelist s; s = zero_page p (popped s)
     in s\<lparr>ram := st64 (ram s) (slot pt i) (PAGE2PTE p OR PTE_V)\<rparr>)"

lemma linked_fields [simp]:
  "kernel_end (linked pt i s) = kernel_end s" "kmem_state.more (linked pt i s) = kmem_state.more s"
  by (simp_all add: linked_def Let_def)

lemma linked_ram:
  assumes "i < 512" "unat pt mod 4096 = 0" "unat (freelist s) mod 4096 = 0" "pt \<noteq> freelist s"
  shows "\<not> in_page pt b \<Longrightarrow> \<not> in_page (freelist s) b \<Longrightarrow> ram (linked pt i s) b = ram s b"
    and "in_page (freelist s) b \<Longrightarrow> ram (linked pt i s) b = 0"
    and "j < 512 \<Longrightarrow> ld64 (ram (linked pt i s)) (slot pt j) =
      (if j = i then PAGE2PTE (freelist s) OR PTE_V else ld64 (ram s) (slot pt j))"
proof -
  show "\<not> in_page pt b \<Longrightarrow> \<not> in_page (freelist s) b \<Longrightarrow> ram (linked pt i s) b = ram s b"
    by (simp add: linked_def Let_def in_page_st64 assms(1) memset_page popped_ram)
  show "in_page (freelist s) b \<Longrightarrow> ram (linked pt i s) b = 0"
    using pages_disjoint [of "freelist s" pt b] assms
    by (simp add: linked_def Let_def in_page_st64 memset_page)
  show "ld64 (ram (linked pt i s)) (slot pt j) =
      (if j = i then PAGE2PTE (freelist s) OR PTE_V else ld64 (ram s) (slot pt j))" if j: "j < 512"
  proof -
    have "ld64 (memset (ram (popped s)) (freelist s) 0 (ucast PGSIZE)) (slot pt j) = ld64 (ram s) (slot pt j)"
      by (rule slot_cong [OF j])
         (use pages_disjoint [of pt "freelist s"] assms in \<open>auto simp: memset_page popped_ram\<close>)
    then show ?thesis using slot_st64 [OF assms(2,2,1) j] by (simp add: linked_def Let_def)
  qed
qed

lemma linked_ok:
  assumes ok: "pt_ok (Suc l) s pt (p # xs)" and i: "i < 512"
  shows "pt_ok k (linked pt i s) p xs" "tables k (ram (linked pt i s)) p = [p]"
    "entry k (ram (linked pt i s)) p va = 0"
proof -
  have inv: "kmem_inv s (p # xs)" using ok by (simp add: pt_ok_def)
  have f: "freelist s = p" by (rule kmem_inv_popped(1) [OF inv])
  have pt: "pt \<notin> set (p # xs)" "page_ok (kernel_end s) pt"
    using ok root_in_tables [of pt "Suc l" "ram s"] unfolding pt_ok_def by blast+
  have al: "unat pt mod 4096 = 0" "unat p mod 4096 = 0" "pt \<noteq> p"
    using pt inv by (auto simp: page_ok_def kmem_inv_def)
  note L = linked_ram [OF i, of pt s, unfolded f, OF al]
  show t: "tables k (ram (linked pt i s)) p = [p]" "entry k (ram (linked pt i s)) p va = 0"
    using tables_zero L(2) by blast+
  have "kmem_inv (popped s) xs" by (rule kmem_inv_popped(3) [OF inv])
  moreover have "ram (linked pt i s) b = ram (popped s) b" if x: "x \<in> set xs" "in_page x b" for x b
  proof -
    have "x \<noteq> pt" "x \<noteq> p" "unat x mod 4096 = 0"
      using x pt inv kmem_inv_page [OF inv] by (auto simp: kmem_inv_def)
    then have "\<not> in_page pt b" "\<not> in_page p b"
      using pages_disjoint [of x pt b] pages_disjoint [of x p b] x(2) al by auto
    then show ?thesis using L(1) by (simp add: popped_ram f)
  qed
  ultimately have "kmem_inv ((popped s)\<lparr>ram := ram (linked pt i s)\<rparr>) xs" by (rule kmem_inv_ram)
  then have "kmem_inv (linked pt i s) xs" by (simp add: linked_def Let_def)
  then show "pt_ok k (linked pt i s) p xs"
    using inv by (auto simp: pt_ok_def t kmem_inv_def)
qed

text \<open>The result of a walk: how state, pool and tree are related before and after.\<close>

definition grown ::
    "nat \<Rightarrow> u64 \<Rightarrow> 'a kmem_state_scheme \<Rightarrow> u64 list \<Rightarrow> 'a kmem_state_scheme \<Rightarrow> u64 list \<Rightarrow> bool" where
  "grown l pt s xs s' zs \<longleftrightarrow> (\<exists>ys. xs = ys @ zs \<and> pt_ok l s' pt zs \<and>
     kernel_end s' = kernel_end s \<and> kmem_state.more s' = kmem_state.more s \<and>
     set (tables l (ram s') pt) = set (tables l (ram s) pt) \<union> set ys \<and>
     (\<forall>b. (\<forall>x \<in> set (tables l (ram s) pt) \<union> set ys. \<not> in_page x b) \<longrightarrow> ram s' b = ram s b))"


lemma pt_ok_disj: "pt_ok l s pt xs \<Longrightarrow> x \<in> set (tables l (ram s) pt) \<Longrightarrow> x \<notin> set xs"
  by (auto simp: pt_ok_def)

lemma pt_ok_align: "pt_ok l s pt xs \<Longrightarrow> x \<in> set (tables l (ram s) pt) \<union> set xs \<Longrightarrow> unat x mod 4096 = 0"
  by (auto simp: pt_ok_def kmem_inv_def page_ok_def)

lemma pt_ok_sub:
  assumes "pt_ok (Suc l) s pt xs" "i < 512" "ld64 (ram s) (slot pt i) AND PTE_V \<noteq> 0"
  shows "pt_ok l s (PTE2PAGE (ld64 (ram s) (slot pt i))) xs"
proof -
  have "distinct (branch l (ram s) pt i)"
    using assms(1,2) unfolding pt_ok_def tables_Suc_distinct by blast
  moreover have "set (branch l (ram s) pt i) \<subseteq> set (tables (Suc l) (ram s) pt)"
    using assms(2) by (auto simp: tables_Suc_set)
  ultimately show ?thesis using assms(1,3) unfolding pt_ok_def branch_def by auto
qed

text \<open>A tree one of whose subtrees grew has grown.\<close>

lemma grown_replace:
  assumes ok: "pt_ok (Suc l) s pt (us @ xs)" and i: "i < 512"
    and g: "grown l c s1 xs s' zs"
    and c: "set (tables l (ram s1) c) = set (branch l (ram s) pt i) \<union> set us"
    and sl: "\<And>j. j < 512 \<Longrightarrow> j \<noteq> i \<Longrightarrow> ld64 (ram s1) (slot pt j) = ld64 (ram s) (slot pt j)"
    and e: "ld64 (ram s1) (slot pt i) AND PTE_V \<noteq> 0" "PTE2PAGE (ld64 (ram s1) (slot pt i)) = c"
    and fr: "\<And>b. \<not> in_page pt b \<Longrightarrow> (\<forall>x \<in> set us. \<not> in_page x b) \<Longrightarrow> ram s1 b = ram s b"
    and k: "kernel_end s1 = kernel_end s" "kmem_state.more s1 = kmem_state.more s"
  shows "grown (Suc l) pt s (us @ xs) s' zs"
    and "unat (PX (Suc l) va) \<noteq> i \<Longrightarrow> entry (Suc l) (ram s') pt va = entry (Suc l) (ram s) pt va"
    and "ld64 (ram s') (slot pt i) = ld64 (ram s1) (slot pt i)"
proof -
  obtain ys where xs: "xs = ys @ zs" and ok': "pt_ok l s' c zs" and k': "kernel_end s' = kernel_end s1"
      "kmem_state.more s' = kmem_state.more s1"
    and t: "set (tables l (ram s') c) = set (tables l (ram s1) c) \<union> set ys"
    and fr': "\<And>b. (\<forall>x \<in> set (tables l (ram s1) c) \<union> set ys. \<not> in_page x b) \<Longrightarrow> ram s' b = ram s1 b"
    using g unfolding grown_def by blast
  let ?Y = "set us \<union> set ys"
  have inT: "set (branch l (ram s) pt i) \<subseteq> set (tables (Suc l) (ram s) pt)"
    using i by (auto simp: tables_Suc_set)
  have pt: "pt \<notin> set (branch l (ram s) pt i) \<union> ?Y"
  proof -
    have "pt \<notin> set (branch l (ram s) pt i)"
      using ok i unfolding pt_ok_def tables_Suc_distinct by blast
    moreover have "pt \<notin> set (us @ xs)" by (rule pt_ok_disj [OF ok]) simp
    ultimately show ?thesis using xs by auto
  qed
  have al: "unat x mod 4096 = 0" if "x \<in> set (tables (Suc l) (ram s) pt) \<union> ?Y" for x
    by (rule pt_ok_align [OF ok]) (use that xs in auto)
  have out: "ram s' b = ram s1 b"
    if x: "in_page x b" "x \<notin> set (branch l (ram s) pt i) \<union> ?Y" "x \<in> set (tables (Suc l) (ram s) pt)" for x b
  proof (rule fr', intro ballI)
    fix y assume "y \<in> set (tables l (ram s1) c) \<union> set ys"
    then have y: "y \<in> set (branch l (ram s) pt i) \<union> ?Y" using c by auto
    then have ay: "unat y mod 4096 = 0" using al inT by blast
    have ax: "unat x mod 4096 = 0" using al x(3) by blast
    have "x \<noteq> y" using x(2) y by blast
    then show "\<not> in_page y b" by (rule pages_disjoint [OF ax ay _ x(1)])
  qed
  have slots: "ld64 (ram s') (slot pt j) = ld64 (ram s1) (slot pt j)" if "j < 512" for j
    by (rule slot_cong [OF that]) (use out pt in auto)
  then show "ld64 (ram s') (slot pt i) = ld64 (ram s1) (slot pt i)" using i by blast
  have br: "branch l (ram s') pt i = tables l (ram s') c"
    using slots [OF i] e by (simp add: branch_def)
  note R = tables_replace [where l = l and m = "ram s" and m' = "ram s'" and pt = pt and i = i and Y = ?Y]
  have d: "distinct (tables (Suc l) (ram s) pt)" using ok by (simp add: pt_ok_def)
  have oth: "ld64 (ram s') (slot pt j) = ld64 (ram s) (slot pt j)" if "j < 512" "j \<noteq> i" for j
    using slots sl that by simp
  have frame: "ram s' b = ram s b"
    if x: "x \<in> set (tables (Suc l) (ram s) pt)" "x \<noteq> pt" "x \<notin> set (branch l (ram s) pt i)" "in_page x b" for x b
  proof -
    have n: "x \<notin> set (us @ xs)" by (rule pt_ok_disj [OF ok x(1)])
    then have "ram s' b = ram s1 b" using out [OF x(4)] x xs by auto
    also have "\<dots> = ram s b"
    proof (rule fr)
      have ax: "unat x mod 4096 = 0" using al x(1) by blast
      show "\<not> in_page pt b"
        by (rule pages_disjoint [OF ax _ x(2,4)]) (use al root_in_tables in blast)
      show "\<forall>y \<in> set us. \<not> in_page y b"
      proof
        fix y assume y: "y \<in> set us"
        then have "x \<noteq> y" "unat y mod 4096 = 0" using n al by auto
        then show "\<not> in_page y b" using pages_disjoint [OF ax _ _ x(4), of y] by simp
      qed
    qed
    finally show ?thesis .
  qed
  have sub: "set (branch l (ram s') pt i) = set (branch l (ram s) pt i) \<union> ?Y" "distinct (branch l (ram s') pt i)"
    using br t c ok' by (auto simp: pt_ok_def)
  have Y: "?Y \<inter> set (tables (Suc l) (ram s) pt) = {}" using ok xs by (auto simp: pt_ok_def)
  note R = R [OF d i oth frame sub Y]
  show "unat (PX (Suc l) va) \<noteq> i \<Longrightarrow> entry (Suc l) (ram s') pt va = entry (Suc l) (ram s) pt va"
    by (rule R(3))
  have "kmem_inv s' zs" using ok' by (simp add: pt_ok_def)
  moreover have "set (tables (Suc l) (ram s') pt) \<inter> set zs = {}"
    using R(2) ok xs by (auto simp: pt_ok_def kmem_inv_def)
  moreover have "\<forall>x \<in> set (tables (Suc l) (ram s') pt). page_ok (kernel_end s') x"
    using R(2) ok xs k k' by (auto simp: pt_ok_def kmem_inv_def)
  ultimately have "pt_ok (Suc l) s' pt zs" using R(1) by (simp add: pt_ok_def)
  moreover have "ram s' b = ram s b"
    if b: "\<forall>x \<in> set (tables (Suc l) (ram s) pt) \<union> ?Y. \<not> in_page x b" for b
  proof -
    have "ram s' b = ram s1 b" by (rule fr') (use b c inT in auto)
    also have "\<dots> = ram s b" by (rule fr) (use b root_in_tables in auto)
    finally show ?thesis .
  qed
  ultimately show "grown (Suc l) pt s (us @ xs) s' zs"
    unfolding grown_def using R(2) xs k k' by (intro exI [of _ "us @ ys"]) auto
qed

lemma grown_refl: "pt_ok l s pt xs \<Longrightarrow> grown l pt s xs s xs"
  unfolding grown_def by (intro exI [of _ "[]"]) auto

lemma grown_masked: "pt_ok l s pt [] \<Longrightarrow> grown l pt s [] (masked s) []"
  unfolding grown_def
  by (intro exI [of _ "[]"]) (auto simp: pt_ok_def dest: kmem_inv_nil)

lemma walk_level_grows:
  assumes "pt_ok l s pt xs"
  shows "\<exists>a s' zs. walk_level l pt va True s = Inr (a, s') \<and> grown l pt s xs s' zs \<and>
    (\<forall>va'. entry l (ram s') pt va' = entry l (ram s) pt va') \<and>
    length xs \<le> length zs + l \<and>
    (if a = 0 then zs = [] \<and> length xs < l else leaf l (ram s') pt va = Some a)"
  using assms
proof (induction l arbitrary: s pt xs)
  case 0
  have "slot pt (unat (PX 0 va)) \<noteq> 0"
  proof
    assume z: "slot pt (unat (PX 0 va)) = 0"
    have al: "unat pt mod 4096 = 0" using pt_ok_align [OF 0, of pt] by simp
    have "unat pt + 8 * unat (PX 0 va) = 0" using unat_slot [OF al PX_less, of 0 va] z by simp
    then have "pt = 0" by (simp add: unat_eq_0)
    with 0 show False by (auto simp: pt_ok_def page_ok_def kmem_inv_def)
  qed
  with 0 grown_refl [OF 0] show ?case by auto
next
  case (Suc l)
  let ?i = "unat (PX (Suc l) va)"
  let ?e = "ld64 (ram s) (slot pt ?i)"
  have i: "?i < 512" by (rule PX_less)
  have ent: "entry (Suc l) m pt va' = (if ld64 m (slot pt ?i) AND PTE_V \<noteq> 0
      then entry l m (PTE2PAGE (ld64 m (slot pt ?i))) va' else 0)"
    if "unat (PX (Suc l) va') = ?i" for m va'
  proof -
    have "PX (Suc l) va' = PX (Suc l) va" using that by (simp add: word_unat_eq_iff)
    then show ?thesis by (simp add: entry_def Let_def)
  qed
  have lf: "leaf (Suc l) m pt va = leaf l m (PTE2PAGE (ld64 m (slot pt ?i))) va"
    if "ld64 m (slot pt ?i) AND PTE_V \<noteq> 0" for m
    using that by (simp add: Let_def)
  show ?case
  proof (cases "?e AND PTE_V \<noteq> 0")
    case True
    obtain a s' zs where w: "walk_level l (PTE2PAGE ?e) va True s = Inr (a, s')"
      and g: "grown l (PTE2PAGE ?e) s xs s' zs"
      and en: "\<And>va'. entry l (ram s') (PTE2PAGE ?e) va' = entry l (ram s) (PTE2PAGE ?e) va'"
      and n: "length xs \<le> length zs + l"
      and r: "if a = 0 then zs = [] \<and> length xs < l else leaf l (ram s') (PTE2PAGE ?e) va = Some a"
      using Suc.IH [OF pt_ok_sub [OF Suc.prems i True]] by blast
    have c: "set (tables l (ram s) (PTE2PAGE ?e)) = set (branch l (ram s) pt ?i) \<union> set []"
      using True by (simp add: branch_def)
    note G = grown_replace [of l s pt "[]" xs, simplified append_Nil, OF Suc.prems i g c _ True refl]
    have g': "grown (Suc l) pt s xs s' zs"
      and en': "\<And>va'. unat (PX (Suc l) va') \<noteq> ?i \<Longrightarrow>
        entry (Suc l) (ram s') pt va' = entry (Suc l) (ram s) pt va'"
      and sl: "ld64 (ram s') (slot pt ?i) = ?e"
      using G by auto
    have "entry (Suc l) (ram s') pt va' = entry (Suc l) (ram s) pt va'" for va'
      by (cases "unat (PX (Suc l) va') = ?i") (simp_all only: en' ent sl en simp_thms True if_True not_False_eq_True)
    moreover have "walk_level (Suc l) pt va True s = Inr (a, s')"
      using w True by (simp add: Let_def)
    moreover have "if a = 0 then zs = [] \<and> length xs < Suc l else leaf (Suc l) (ram s') pt va = Some a"
      using r lf [of "ram s'", unfolded sl, OF True] by (simp only: less_SucI simp_thms if_True if_False split: if_splits)
    moreover have "length xs \<le> length zs + Suc l" using n by simp
    ultimately show ?thesis using g' by blast
  next
    case False
    show ?thesis
    proof (cases xs)
      case Nil
      have "kalloc s = Inr (0, masked s)"
        using Suc.prems Nil by (intro kalloc_Nil) (simp add: pt_ok_def)
      then have "walk_level (Suc l) pt va True s = Inr (0, masked s)"
        using False by (simp add: Let_def)
      then show ?thesis using grown_masked Suc.prems Nil by fastforce
    next
      case (Cons p ps)
      have ok: "pt_ok (Suc l) s pt ([p] @ ps)" using Suc.prems Cons by simp
      have inv: "kmem_inv s (p # ps)" using ok by (simp add: pt_ok_def)
      have f: "freelist s = p" "p \<noteq> 0" by (rule kmem_inv_popped(1,2) [OF inv])+
      have pt: "pt \<notin> set (p # ps)" "unat pt mod 4096 = 0" "unat p mod 4096 = 0"
        using pt_ok_disj [OF ok] pt_ok_align [OF ok] by auto
      have ne: "pt \<noteq> p" using pt(1) by auto
      let ?s = "linked pt ?i s"
      note L = linked_ram [OF i, of pt s, unfolded f, OF pt(2,3) ne]
      note O = linked_ok [OF ok [simplified] i]
      have "walk_level (Suc l) pt va True s = walk_level l p va True ?s"
        using False kalloc_Cons [OF inv] f
        by (simp add: Let_def linked_def)
      moreover obtain a s' zs where w: "walk_level l p va True ?s = Inr (a, s')"
        and g: "grown l p ?s ps s' zs"
        and en: "\<And>va'. entry l (ram s') p va' = entry l (ram ?s) p va'"
        and n: "length ps \<le> length zs + l"
        and r: "if a = 0 then zs = [] \<and> length ps < l else leaf l (ram s') p va = Some a"
        using Suc.IH [OF O(1)] by blast
      have v: "ld64 (ram ?s) (slot pt ?i) = PAGE2PTE p OR PTE_V" using L(3) [OF i] by simp
      have pp: "PTE2PAGE (PAGE2PTE p OR PTE_V) = p"
        by (rule PTE2PAGE_page) (use inv in \<open>auto simp: kmem_inv_def\<close>)
      have c: "set (tables l (ram ?s) p) = set (branch l (ram s) pt ?i) \<union> set [p]"
        using O(2) False by (simp add: branch_def)
      have vv: "ld64 (ram ?s) (slot pt ?i) AND PTE_V \<noteq> 0" "PTE2PAGE (ld64 (ram ?s) (slot pt ?i)) = p"
        unfolding v pp by (rule pte_valid, rule refl)
      have sl: "\<And>j. j < 512 \<Longrightarrow> j \<noteq> ?i \<Longrightarrow> ld64 (ram ?s) (slot pt j) = ld64 (ram s) (slot pt j)"
        using L(3) by simp
      have fr: "\<And>b. \<not> in_page pt b \<Longrightarrow> \<forall>x \<in> set [p]. \<not> in_page x b \<Longrightarrow> ram ?s b = ram s b"
        using L(1) by simp
      note R = grown_replace [OF ok i g c sl vv fr linked_fields]
      have G1: "grown (Suc l) pt s ([p] @ ps) s' zs" by (rule R(1))
      have G2: "entry (Suc l) (ram s') pt va' = entry (Suc l) (ram s) pt va'"
        if "unat (PX (Suc l) va') \<noteq> ?i" for va' by (rule R(2) [OF _ _ _ _ that])
      have G3: "ld64 (ram s') (slot pt ?i) = ld64 (ram ?s) (slot pt ?i)" by (rule R(3))
      have v3: "ld64 (ram s') (slot pt ?i) AND PTE_V \<noteq> 0" unfolding G3 by (rule vv(1))
      have en': "entry (Suc l) (ram s') pt va' = entry (Suc l) (ram s) pt va'" for va'
      proof (cases "unat (PX (Suc l) va') = ?i")
        case True
        have "entry (Suc l) (ram s') pt va' = entry l (ram s') p va'"
          by (simp only: ent [OF True] G3 vv simp_thms not_False_eq_True if_True)
        also have "\<dots> = 0" using en O(3) by simp
        also have "\<dots> = entry (Suc l) (ram s) pt va'" using ent [OF True] False by simp
        finally show ?thesis .
      qed (rule G2)
      have "if a = 0 then zs = [] \<and> length xs < Suc l else leaf (Suc l) (ram s') pt va = Some a"
        using r lf [OF v3] Cons unfolding G3 vv(2) by (simp only: length_Cons Suc_less_eq)
      moreover have "length xs \<le> length zs + Suc l" using n Cons by simp
      moreover have "grown (Suc l) pt s xs s' zs" using G1 Cons by simp
      ultimately show ?thesis using w en' by (intro exI [of _ a] exI [of _ s'] exI [of _ zs]) simp
    qed
  qed
qed

section \<open>Storing at the end of a walk\<close>

lemma leaf_store:
  assumes "distinct (tables l m pt)" "\<forall>x \<in> set (tables l m pt). unat x mod 4096 = 0"
    and "leaf l m pt va = Some a"
  shows "tables l (st64 m a v) pt = tables l m pt \<and>
    (\<forall>va'. entry l (st64 m a v) pt va' = (if \<forall>k\<le>l. PX k va' = PX k va then v else entry l m pt va'))"
  using assms
proof (induction l arbitrary: pt)
  case 0
  then have "unat pt mod 4096 = 0" "a = slot pt (unat (PX 0 va))" by auto
  then have "ld64 (st64 m a v) (slot pt (unat (PX 0 va'))) =
      (if unat (PX 0 va) = unat (PX 0 va') then v else ld64 m (slot pt (unat (PX 0 va'))))" for va'
    using slot_st64 [of pt pt, OF _ _ PX_less PX_less] by simp
  moreover have "unat (PX 0 va) = unat (PX 0 va') \<longleftrightarrow> PX 0 va' = PX 0 va" for va'
    by (auto simp: word_unat_eq_iff)
  ultimately show ?case by (simp add: entry_def)
next
  case (Suc l)
  let ?i = "unat (PX (Suc l) va)" and ?m = "st64 m a v"
  let ?e = "ld64 m (slot pt ?i)"
  have i: "?i < 512" by (rule PX_less)
  from Suc.prems(3) have v: "?e AND PTE_V \<noteq> 0" and lf: "leaf l m (PTE2PAGE ?e) va = Some a"
    by (auto simp: Let_def split: if_splits)
  note D = Suc.prems(1) [unfolded tables_Suc_distinct]
  have bi: "branch l m pt ?i = tables l m (PTE2PAGE ?e)" using v by (simp add: branch_def)
  obtain x j where x: "x \<in> set (branch l m pt ?i)" "j < 512" "a = slot x j"
    using leaf_in [OF lf] bi by auto
  have xal: "unat x mod 4096 = 0" "unat pt mod 4096 = 0"
    using Suc.prems(2) x(1) i root_in_tables by (auto simp: tables_Suc_set)
  have "x \<noteq> pt" using D i x(1) by blast
  then have sl: "ld64 ?m (slot pt k) = ld64 m (slot pt k)" if "k < 512" for k
    using slot_st64 [OF xal x(2) that] x(3) by simp
  have oth: "?m b = m b" if "k < 512" "k \<noteq> ?i" "y \<in> set (branch l m pt k)" "in_page y b" for k y b
  proof -
    have "y \<noteq> x" using D i that x(1) by blast
    moreover have "unat y mod 4096 = 0"
      using Suc.prems(2) that(1,3) by (auto simp: tables_Suc_set)
    ultimately have "\<not> in_page x b" using pages_disjoint [of y x b] that(4) xal by simp
    then show ?thesis using in_page_st64 x by simp
  qed
  have IH: "tables l ?m (PTE2PAGE ?e) = tables l m (PTE2PAGE ?e)"
    "\<And>va'. entry l ?m (PTE2PAGE ?e) va' =
      (if \<forall>k\<le>l. PX k va' = PX k va then v else entry l m (PTE2PAGE ?e) va')"
  proof -
    have "distinct (tables l m (PTE2PAGE ?e))" using D i bi by metis
    moreover have "\<forall>x \<in> set (tables l m (PTE2PAGE ?e)). unat x mod 4096 = 0"
      using Suc.prems(2) sub_tables [OF i v] by blast
    ultimately show "tables l ?m (PTE2PAGE ?e) = tables l m (PTE2PAGE ?e)"
      "\<And>va'. entry l ?m (PTE2PAGE ?e) va' =
        (if \<forall>k\<le>l. PX k va' = PX k va then v else entry l m (PTE2PAGE ?e) va')"
      using Suc.IH [OF _ _ lf] by blast+
  qed
  have br: "branch l ?m pt k = branch l m pt k" if "k < 512" for k
  proof (cases "k = ?i")
    case True
    then show ?thesis using IH(1) sl [OF i] by (simp only: branch_def)
  next
    case False
    then show ?thesis
      using sl [OF that] oth [OF that False] tables_cong [of l m "PTE2PAGE (ld64 m (slot pt k))" ?m]
      by (auto simp: branch_def)
  qed
  have "map (branch l ?m pt) ptes = map (branch l m pt) ptes"
    by (intro map_cong) (auto simp: br set_ptes)
  then have T: "tables (Suc l) ?m pt = tables (Suc l) m pt" by (simp only: tables_branch)
  have ent: "entry (Suc l) m' pt va' = (let e = ld64 m' (slot pt (unat (PX (Suc l) va'))) in
      if e AND PTE_V \<noteq> 0 then entry l m' (PTE2PAGE e) va' else 0)" for m' va'
    by (simp add: entry_def Let_def)
  have "entry (Suc l) ?m pt va' =
      (if \<forall>k\<le>Suc l. PX k va' = PX k va then v else entry (Suc l) m pt va')" for va'
  proof (cases "PX (Suc l) va' = PX (Suc l) va")
    case True
    have "entry (Suc l) m' pt va' = entry l m' (PTE2PAGE ?e) va'" if "ld64 m' (slot pt ?i) = ?e" for m'
      unfolding ent Let_def True that by (rule if_P [OF v])
    then have "entry (Suc l) ?m pt va' = entry l ?m (PTE2PAGE ?e) va'"
      "entry (Suc l) m pt va' = entry l m (PTE2PAGE ?e) va'" using sl [OF i] by blast+
    moreover have "(\<forall>k\<le>Suc l. PX k va' = PX k va) \<longleftrightarrow> (\<forall>k\<le>l. PX k va' = PX k va)"
      using True by (auto simp: le_Suc_eq)
    ultimately show ?thesis using IH(2) by (simp only:)
  next
    case False
    let ?j = "unat (PX (Suc l) va')"
    have j: "?j < 512" "?j \<noteq> ?i" using False PX_less by (auto simp: word_unat_eq_iff)
    have "entry l ?m (PTE2PAGE (ld64 m (slot pt ?j))) va' = entry l m (PTE2PAGE (ld64 m (slot pt ?j))) va'"
      if "ld64 m (slot pt ?j) AND PTE_V \<noteq> 0"
      by (rule entry_cong) (use oth [OF j] that in \<open>auto simp: branch_def\<close>)
    then have "entry (Suc l) ?m pt va' = entry (Suc l) m pt va'"
      unfolding ent Let_def sl [OF j(1)] by (rule if_cong [OF refl _ refl])
    then show ?thesis using False by auto
  qed
  with T show ?case by blast
qed

lemma PX_page: "PX k (PGROUNDDOWN va) = PX k va"
proof -
  have "unat va div 4096 * 4096 div 2 ^ (12 + 9 * k) = unat va div 2 ^ (12 + 9 * k)"
    by (simp add: power_add div_mult2_eq)
  then show ?thesis by (simp only: word_unat_eq_iff unat_PX unat_PGROUNDDOWN)
qed

lemma same_page_iff:
  assumes "va < MAXVA" "va' < MAXVA"
  shows "(\<forall>k\<le>2. PX k va' = PX k va) \<longleftrightarrow> PGROUNDDOWN va' = PGROUNDDOWN va"
proof
  assume "\<forall>k\<le>2. PX k va' = PX k va"
  then show "PGROUNDDOWN va' = PGROUNDDOWN va"
    by (intro page_eq_of_indices assms) simp_all
next
  assume "PGROUNDDOWN va' = PGROUNDDOWN va"
  then show "\<forall>k\<le>2. PX k va' = PX k va" by (metis PX_page)
qed

lemma grown_trans:
  assumes "grown l pt s xs s1 ys" "grown l pt s1 ys s2 zs"
  shows "grown l pt s xs s2 zs"
proof -
  obtain us where u: "xs = us @ ys" "pt_ok l s1 pt ys" "kernel_end s1 = kernel_end s"
      "kmem_state.more s1 = kmem_state.more s"
    "set (tables l (ram s1) pt) = set (tables l (ram s) pt) \<union> set us"
    "\<And>b. \<forall>x \<in> set (tables l (ram s) pt) \<union> set us. \<not> in_page x b \<Longrightarrow> ram s1 b = ram s b"
    using assms(1) unfolding grown_def by blast
  obtain vs where v: "ys = vs @ zs" "pt_ok l s2 pt zs" "kernel_end s2 = kernel_end s1"
      "kmem_state.more s2 = kmem_state.more s1"
    "set (tables l (ram s2) pt) = set (tables l (ram s1) pt) \<union> set vs"
    "\<And>b. \<forall>x \<in> set (tables l (ram s1) pt) \<union> set vs. \<not> in_page x b \<Longrightarrow> ram s2 b = ram s1 b"
    using assms(2) unfolding grown_def by blast
  have "ram s2 b = ram s b" if "\<forall>x \<in> set (tables l (ram s) pt) \<union> set (us @ vs). \<not> in_page x b" for b
    using u(6) [of b] v(6) [of b] u(5) that by auto
  then show ?thesis
    unfolding grown_def using u(1-5) v(1-5) by (intro exI [of _ "us @ vs"]) auto
qed

lemma grown_store:
  assumes "pt_ok l s pt xs" "leaf l (ram s) pt va = Some a"
  shows "grown l pt s xs (s\<lparr>ram := st64 (ram s) a v\<rparr>) xs"
proof -
  have al: "\<forall>x \<in> set (tables l (ram s) pt). unat x mod 4096 = 0"
    using pt_ok_align [OF assms(1)] by blast
  have T: "tables l (st64 (ram s) a v) pt = tables l (ram s) pt"
    using leaf_store [OF _ al assms(2)] assms(1) by (simp add: pt_ok_def)
  obtain x i where x: "x \<in> set (tables l (ram s) pt)" "i < 512" "a = slot x i"
    using leaf_in [OF assms(2)] by blast
  have fr: "st64 (ram s) a v b = ram s b" if "\<not> in_page x b" for b
    using in_page_st64 [OF x(2) that] x(3) by simp
  have "kmem_inv (s\<lparr>ram := st64 (ram s) a v\<rparr>) xs"
  proof (rule kmem_inv_ram)
    show "kmem_inv s xs" using assms(1) by (simp add: pt_ok_def)
    fix y b assume y: "y \<in> set xs" "in_page y b"
    then have "unat y mod 4096 = 0" "y \<noteq> x"
      using pt_ok_align [OF assms(1)] pt_ok_disj [OF assms(1) x(1)] by blast+
    then have "\<not> in_page x b" using pages_disjoint [of y x b] y al x(1) by simp
    then show "st64 (ram s) a v b = ram s b" by (rule fr)
  qed
  then show ?thesis
    unfolding grown_def using assms(1) T fr x(1)
    by (intro exI [of _ "[]"]) (auto simp: pt_ok_def)
qed

section \<open>MapPages\<close>

lemma map_step:
  assumes ok: "pt_ok 2 s root xs" and va: "va < MAXVA"
  obtains s1 where "walk root va True s = Inr (0, s1)" "grown 2 root s xs s1 []" "length xs < 2"
      "\<And>va'. entry 2 (ram s1) root va' = entry 2 (ram s) root va'"
  | a s1 zs where "walk root va True s = Inr (a, s1)" "a \<noteq> 0" "ld64 (ram s1) a = entry 2 (ram s) root va"
      "\<And>v. grown 2 root s xs (s1\<lparr>ram := st64 (ram s1) a v\<rparr>) zs"
      "\<And>v va'. va' < MAXVA \<Longrightarrow> entry 2 (st64 (ram s1) a v) root va' =
        (if PGROUNDDOWN va' = PGROUNDDOWN va then v else entry 2 (ram s) root va')"
      "length xs \<le> length zs + 2"
proof -
  obtain a s1 zs where w: "walk_level 2 root va True s = Inr (a, s1)" and g: "grown 2 root s xs s1 zs"
    and e: "\<And>va'. entry 2 (ram s1) root va' = entry 2 (ram s) root va'"
    and n: "length xs \<le> length zs + 2"
    and r: "if a = 0 then zs = [] \<and> length xs < 2 else leaf 2 (ram s1) root va = Some a"
    using walk_level_grows [OF ok] by blast
  have w': "walk root va True s = Inr (a, s1)" using w va by (simp add: walk_def)
  show thesis
  proof (cases "a = 0")
    case True
    with that(1) w' g e r show thesis by simp
  next
    case False
    then have lf: "leaf 2 (ram s1) root va = Some a" using r by simp
    have ok1: "pt_ok 2 s1 root zs" using g unfolding grown_def by blast
    show thesis
    proof (rule that(2) [OF w' False])
      show "length xs \<le> length zs + 2" by (rule n)
      show "ld64 (ram s1) a = entry 2 (ram s) root va"
        using e [of va] lf by (simp add: entry_def)
      show "grown 2 root s xs (s1\<lparr>ram := st64 (ram s1) a v\<rparr>) zs" for v
        by (rule grown_trans [OF g grown_store [OF ok1 lf]])
      fix v va' assume "va' < MAXVA"
      then show "entry 2 (st64 (ram s1) a v) root va' =
          (if PGROUNDDOWN va' = PGROUNDDOWN va then v else entry 2 (ram s) root va')"
        using leaf_store [OF _ _ lf, of v] ok1 pt_ok_align [OF ok1] same_page_iff [OF va] e
        by (simp add: pt_ok_def)
    qed
  qed
qed

lemma aligned_step:
  fixes va w :: u64
  assumes "unat va mod 4096 = 0" "unat w mod 4096 = 0" "va < w" "w < MAXVA"
  shows "unat (va + PGSIZE) = unat va + 4096" "va + PGSIZE \<le> w" "unat (va + PGSIZE) mod 4096 = 0"
proof -
  have lt: "unat va < unat w" "unat w < 2 ^ 38" using assms(3,4) by (simp_all add: word_less_nat_alt unat_MAXVA)
  then show u: "unat (va + PGSIZE) = unat va + 4096"
    by (simp add: PGSIZE_def unat_word_ariths)
  obtain a where a: "unat va = 4096 * a" using assms(1) by (metis mod_0_imp_dvd dvdE)
  obtain b where b: "unat w = 4096 * b" using assms(2) by (metis mod_0_imp_dvd dvdE)
  show "va + PGSIZE \<le> w" using lt unfolding word_le_nat_alt u a b by simp
  show "unat (va + PGSIZE) mod 4096 = 0" using u a by simp
qed

lemma page_succ_iff:
  assumes "unat t mod 4096 = 0" "va < MAXVA" "t < MAXVA"
  shows "t \<le> PGROUNDDOWN va \<longleftrightarrow> PGROUNDDOWN va = t \<or> t + PGSIZE \<le> PGROUNDDOWN va"
    and "t < t + PGSIZE"
proof -
  have "t < PGROUNDDOWN va \<Longrightarrow> t + PGSIZE \<le> PGROUNDDOWN va"
    by (rule aligned_step(2)) (use assms PGROUNDDOWN_aligned PGROUNDDOWN_le [of va] in auto)
  moreover show "t < t + PGSIZE"
    using assms(3) by (simp add: word_less_nat_alt PGSIZE_def unat_MAXVA unat_word_ariths)
  ultimately show "t \<le> PGROUNDDOWN va \<longleftrightarrow> PGROUNDDOWN va = t \<or> t + PGSIZE \<le> PGROUNDDOWN va"
    using order_le_less [of t "PGROUNDDOWN va"] by auto
qed

definition mapped :: "u64 \<Rightarrow> u64 \<Rightarrow> u64" where
  "mapped pa perm = PAGE2PTE pa OR perm OR PTE_V"

definition npages_of :: "u64 \<Rightarrow> u64 \<Rightarrow> nat" where
  "npages_of a b = (unat b - unat a) div 4096 + 1"

lemma npages_of_step:
  assumes "unat (a + PGSIZE) = unat a + 4096" "a + PGSIZE \<le> b"
  shows "npages_of a b = npages_of (a + PGSIZE) b + 1"
proof -
  have "unat a + 4096 \<le> unat b" using assms by (simp add: word_le_nat_alt)
  moreover define d where "d = unat b - (unat a + 4096)"
  ultimately have "unat b - unat a = d + 4096" by simp
  moreover have "(d + 4096) div 4096 = d div 4096 + 1" by simp
  ultimately show ?thesis unfolding npages_of_def assms(1) d_def by (simp only: d_def)
qed

lemma MapPages_loop_correct:
  assumes "pt_ok 2 s root xs" "unat temp mod 4096 = 0" "unat lastp mod 4096 = 0" "temp \<le> lastp" "lastp < MAXVA"
  shows "case MapPages_loop root temp lastp paddr perm s of
      Inl e \<Rightarrow> e = Panic ''ramap'' \<and>
        (\<exists>va. unat va mod 4096 = 0 \<and> temp \<le> va \<and> va \<le> lastp \<and> entry 2 (ram s) root va \<noteq> 0)
    | Inr (r, s') \<Rightarrow> \<exists>zs stop. grown 2 root s xs s' zs \<and>
        (if r = 0 then stop = lastp + PGSIZE
         else r = - 1 \<and> zs = [] \<and> temp \<le> stop \<and> stop \<le> lastp \<and> length xs < 2 * npages_of temp lastp) \<and>
        (\<forall>va. va < MAXVA \<longrightarrow> entry 2 (ram s') root va =
          (if temp \<le> PGROUNDDOWN va \<and> PGROUNDDOWN va < stop
           then mapped (paddr + (PGROUNDDOWN va - temp)) perm else entry 2 (ram s) root va))"
  using assms
proof (induction root temp lastp paddr perm s arbitrary: xs rule: MapPages_loop.induct)
  case (1 root temp lastp paddr perm s)
  have lt: "temp < MAXVA" using 1(5,6) by simp
  have pgt: "PGROUNDDOWN temp = temp" using PGROUNDDOWN_id 1(3) by simp
  note unf = MapPages_loop.simps [of root temp lastp paddr perm s]
  show ?case
  proof (rule map_step [OF 1(2) lt])
    fix s1 assume w: "walk root temp True s = Inr (0, s1)" and g: "grown 2 root s xs s1 []" "length xs < 2"
      and e: "\<And>va'. entry 2 (ram s1) root va' = entry 2 (ram s) root va'"
    then show ?thesis using 1(5)
      by (simp only: unf bnd.simps prod.case if_P sum.case)
         (intro exI [of _ "[]"] exI [of _ temp], auto simp: npages_of_def)
  next
    fix a s1 zs
    assume w: "walk root temp True s = Inr (a, s1)" "a \<noteq> 0" "ld64 (ram s1) a = entry 2 (ram s) root temp"
      and g: "\<And>v. grown 2 root s xs (s1\<lparr>ram := st64 (ram s1) a v\<rparr>) zs"
      and e: "\<And>v va'. va' < MAXVA \<Longrightarrow> entry 2 (st64 (ram s1) a v) root va' =
        (if PGROUNDDOWN va' = PGROUNDDOWN temp then v else entry 2 (ram s) root va')"
      and n: "length xs \<le> length zs + 2"
    let ?v = "PAGE2PTE paddr OR perm OR PTE_V"
    let ?s = "s1\<lparr>ram := st64 (ram s1) a ?v\<rparr>"
    show ?thesis
    proof (cases "entry 2 (ram s) root temp = 0")
      case False
      then have "MapPages_loop root temp lastp paddr perm s = Inl (Panic ''ramap'')"
        using w by (simp add: unf PTE_V_def)
      with False 1(3,5) show ?thesis by (auto intro!: exI [of _ temp])
    next
      case z: True
      show ?thesis
      proof (cases "temp = lastp")
        case True
        then have r: "MapPages_loop root temp lastp paddr perm s = Inr (0, ?s)"
          unfolding unf using w z by (simp add: Let_def)
        have "entry 2 (ram ?s) root va = (if temp \<le> PGROUNDDOWN va \<and> PGROUNDDOWN va < lastp + PGSIZE
           then mapped (paddr + (PGROUNDDOWN va - temp)) perm else entry 2 (ram s) root va)"
          if va: "va < MAXVA" for va
        proof -
          have "temp \<le> PGROUNDDOWN va \<and> PGROUNDDOWN va < lastp + PGSIZE \<longleftrightarrow> PGROUNDDOWN va = temp"
            using page_succ_iff [OF 1(3) va lt] True by auto
          then show ?thesis using e [OF va] pgt by (simp add: mapped_def)
        qed
        then show ?thesis using r g by (auto intro!: exI [of _ zs] exI [of _ "lastp + PGSIZE"])
      next
        case False
        then have tl: "temp < lastp" using 1(5) by simp
        note st = aligned_step [OF 1(3,4) tl 1(6)]
        have r: "MapPages_loop root temp lastp paddr perm s =
            MapPages_loop root (temp + PGSIZE) lastp (paddr + PGSIZE) perm ?s"
          using w z False by (simp add: unf Let_def)
        have ok: "pt_ok 2 ?s root zs" using g unfolding grown_def by blast
        have pg: "PGROUNDDOWN va \<noteq> temp" if "temp + PGSIZE \<le> PGROUNDDOWN va" for va
          using that st(1) by (auto simp: word_le_nat_alt)
        have es: "entry 2 (ram ?s) root va = (if PGROUNDDOWN va = temp then mapped paddr perm else entry 2 (ram s) root va)"
          if "va < MAXVA" for va
          using e [OF that] pgt by (simp add: mapped_def)
        have IH: "case MapPages_loop root (temp + PGSIZE) lastp (paddr + PGSIZE) perm ?s of
            Inl e \<Rightarrow> e = Panic ''ramap'' \<and>
              (\<exists>va. unat va mod 4096 = 0 \<and> temp + PGSIZE \<le> va \<and> va \<le> lastp \<and> entry 2 (ram ?s) root va \<noteq> 0)
          | Inr (r, s') \<Rightarrow> \<exists>zs' stop. grown 2 root ?s zs s' zs' \<and>
              (if r = 0 then stop = lastp + PGSIZE else r = - 1 \<and> zs' = [] \<and> temp + PGSIZE \<le> stop \<and>
                stop \<le> lastp \<and> length zs < 2 * npages_of (temp + PGSIZE) lastp) \<and>
              (\<forall>va. va < MAXVA \<longrightarrow> entry 2 (ram s') root va =
                (if temp + PGSIZE \<le> PGROUNDDOWN va \<and> PGROUNDDOWN va < stop
                 then mapped (paddr + PGSIZE + (PGROUNDDOWN va - (temp + PGSIZE))) perm
                 else entry 2 (ram ?s) root va))"
          by (rule 1(1) [OF w(1) refl w(2) _ refl False ok st(3) 1(4) st(2) 1(6)])
             (use z w(3) in simp)
        show ?thesis
        proof (cases "MapPages_loop root (temp + PGSIZE) lastp (paddr + PGSIZE) perm ?s")
          case (Inl err)
          from IH [unfolded Inl sum.case] obtain va where va: "err = Panic ''ramap''"
            "unat va mod 4096 = 0" "temp + PGSIZE \<le> va" "va \<le> lastp"
            "entry 2 (ram ?s) root va \<noteq> 0" by (elim conjE exE) (rule that; assumption)
          have "PGROUNDDOWN va = va" "va < MAXVA" using PGROUNDDOWN_id va 1(6) by auto
          then have "entry 2 (ram s) root va \<noteq> 0" using va(5) es [of va] pg [of va] va(3) by auto
          moreover have "temp \<le> va" using va(3) st(1) by (auto simp: word_le_nat_alt)
          ultimately show ?thesis using r Inl va by (auto intro!: exI [of _ va])
        next
          case (Inr p)
          obtain k s' where p: "p = (k, s')" by (cases p)
          from IH [unfolded Inr p sum.case prod.case] obtain zs' stop where I: "grown 2 root ?s zs s' zs'"
            "if k = 0 then stop = lastp + PGSIZE else k = - 1 \<and> zs' = [] \<and> temp + PGSIZE \<le> stop \<and>
               stop \<le> lastp \<and> length zs < 2 * npages_of (temp + PGSIZE) lastp"
            "\<And>va. va < MAXVA \<Longrightarrow> entry 2 (ram s') root va =
                (if temp + PGSIZE \<le> PGROUNDDOWN va \<and> PGROUNDDOWN va < stop
                 then mapped (paddr + PGSIZE + (PGROUNDDOWN va - (temp + PGSIZE))) perm
                 else entry 2 (ram ?s) root va)" by (elim conjE exE) (rule that; blast)
          have le: "temp + PGSIZE \<le> stop"
            using I(2) st(1,2) 1(6) by (auto split: if_splits simp: word_le_nat_alt PGSIZE_def word_less_nat_alt unat_MAXVA unat_word_ariths)
          have "entry 2 (ram s') root va = (if temp \<le> PGROUNDDOWN va \<and> PGROUNDDOWN va < stop
               then mapped (paddr + (PGROUNDDOWN va - temp)) perm else entry 2 (ram s) root va)"
            if va: "va < MAXVA" for va
          proof -
            note page_succ_iff(1) [OF 1(3) va lt]
            moreover have "temp < stop" using le st(1) by (simp add: word_le_nat_alt word_less_nat_alt)
            moreover have "\<not> temp + PGSIZE \<le> temp" using st(1) by (simp add: word_le_nat_alt)
            ultimately show ?thesis using I(3) [OF va] es [OF va]
              by (auto simp: algebra_simps)
          qed
          moreover have "grown 2 root s xs s' zs'" by (rule grown_trans [OF g I(1)])
          moreover have "if k = 0 then stop = lastp + PGSIZE else k = - 1 \<and> zs' = [] \<and> temp \<le> stop \<and>
              stop \<le> lastp \<and> length xs < 2 * npages_of temp lastp"
            using I(2) st(1) n npages_of_step [OF st(1,2)] by (auto split: if_splits simp: word_le_nat_alt)
          ultimately show ?thesis
            unfolding r Inr p sum.case prod.case by (intro exI [of _ zs'] exI [of _ stop] conjI allI impI)
        qed
      qed
    qed
  qed
qed

section \<open>Reading a translation\<close>

lemma walk_level_read:
  "walk_level l pt va False s = Inr (case leaf l (ram s) pt va of None \<Rightarrow> 0 | Some a \<Rightarrow> a, s)"
  by (induction l arbitrary: pt) (simp_all add: Let_def)

lemma leaf_nonzero:
  assumes "pt_ok l s pt xs" "leaf l (ram s) pt va = Some a"
  shows "a \<noteq> 0"
proof
  assume z: "a = 0"
  obtain x i where x: "x \<in> set (tables l (ram s) pt)" "i < 512" "a = slot x i"
    using leaf_in [OF assms(2)] by blast
  have "unat a = unat x + 8 * i"
    using unat_slot [of x i] pt_ok_align [OF assms(1), of x] x by simp
  then have "x = 0" using z by (simp add: unat_eq_0)
  with assms(1) x(1) show False by (auto simp: pt_ok_def page_ok_def kmem_inv_def)
qed

lemma walk_read:
  assumes "pt_ok 2 s root xs" "va < MAXVA"
  obtains "leaf 2 (ram s) root va = None" "walk root va False s = Inr (0, s)" "entry 2 (ram s) root va = 0"
  | a where "leaf 2 (ram s) root va = Some a" "walk root va False s = Inr (a, s)" "a \<noteq> 0"
      "ld64 (ram s) a = entry 2 (ram s) root va"
  using that walk_level_read [of 2 root va s] leaf_nonzero [OF assms(1)] assms(2)
  by (cases "leaf 2 (ram s) root va") (auto simp: walk_def entry_def)

lemma KGetKaddr_entry:
  assumes "pt_ok 2 s root xs" "va < MAXVA" "entry 2 (ram s) root va \<noteq> 0"
  shows "KGetKaddr root va s = Inr (va mod PGSIZE + PTE2PAGE (entry 2 (ram s) root va), s)"
  by (rule walk_read [OF assms(1,2)]) (use assms(3) in \<open>auto simp: KGetKaddr_def PTE_V_def\<close>)

lemma walkaddr_entry:
  assumes "pt_ok 2 s root xs"
  shows "walkaddr root va s = Inr (if va < MAXVA \<and> entry 2 (ram s) root va AND PTE_V \<noteq> 0 \<and>
      entry 2 (ram s) root va AND PTE_U \<noteq> 0 then PTE2PAGE (entry 2 (ram s) root va) else 0, s)"
proof (cases "va < MAXVA")
  case True
  show ?thesis
    by (rule walk_read [OF assms True]) (use True in \<open>auto simp: walkaddr_def\<close>)
qed (auto simp: walkaddr_def not_less)

lemma mapped_page:
  assumes "unat pa mod 4096 = 0" "unat pa < 2 ^ 56" "unat perm < 2 ^ 10"
  shows "PTE2PAGE (mapped pa perm) = pa" "mapped pa perm \<noteq> 0" "PTE_FLAGS (mapped pa perm) = perm OR PTE_V"
proof -
  show "PTE2PAGE (mapped pa perm) = pa" unfolding mapped_def by (rule PTE2PAGE_PAGE2PTE [OF assms])
  have "mapped pa perm AND PTE_V \<noteq> 0" unfolding mapped_def
    using pte_valid [of "PAGE2PTE pa OR perm"] by (simp only: or.assoc not_False_eq_True)
  then show "mapped pa perm \<noteq> 0" by auto
  show "PTE_FLAGS (mapped pa perm) = perm OR PTE_V"
    unfolding mapped_def by (rule PTE_FLAGS_PAGE2PTE [OF assms(3)])
qed

text \<open>The pages \<open>MapPages\<close> goes through, for a range that starts on a page.\<close>

lemma map_range:
  assumes "unat va mod 4096 = 0" "0 < sz" "unat va + unat sz \<le> 2 ^ 38"
  shows "PGROUNDDOWN va = va" "unat (va + sz - 1) = unat va + unat sz - 1" "va + sz - 1 < MAXVA"
    "va \<le> PGROUNDDOWN (va + sz - 1)" "PGROUNDDOWN (va + sz - 1) < MAXVA"
proof -
  have p: "0 < unat sz" using assms(2) by (simp add: word_less_nat_alt)
  have "unat (sz - 1) = unat sz - 1" using p by (intro unat_minus_one) auto
  then have "unat (va + (sz - 1)) = unat va + unat sz - 1"
    using assms(3) p by (subst unat_add_lem [THEN iffD1]) simp_all
  then show u: "unat (va + sz - 1) = unat va + unat sz - 1" by (simp add: algebra_simps)
  then show lt: "va + sz - 1 < MAXVA" using assms(3) p by (simp add: word_less_nat_alt unat_MAXVA)
  show "PGROUNDDOWN va = va" by (rule PGROUNDDOWN_id [OF assms(1)])
  have "unat va div 4096 * 4096 \<le> (unat va + unat sz - 1) div 4096 * 4096"
    using p by (intro mult_le_mono1 div_le_mono) simp
  moreover have "unat va div 4096 * 4096 = unat va"
    using assms(1) by (simp add: mod_eq_0_iff_dvd)
  ultimately show "va \<le> PGROUNDDOWN (va + sz - 1)" by (simp add: word_le_nat_alt unat_PGROUNDDOWN u)
  show "PGROUNDDOWN (va + sz - 1) < MAXVA" using PGROUNDDOWN_le lt by (rule le_less_trans)
qed

lemma MapPages_correct:
  assumes "pt_ok 2 s root xs" "unat va mod 4096 = 0" "0 < sz" "unat va + unat sz \<le> 2 ^ 38"
  shows "case MapPages root va paddr sz perm s of
      Inl e \<Rightarrow> e = Panic ''ramap'' \<and>
        (\<exists>w. unat w mod 4096 = 0 \<and> va \<le> w \<and> w \<le> PGROUNDDOWN (va + sz - 1) \<and> entry 2 (ram s) root w \<noteq> 0)
    | Inr (r, s') \<Rightarrow> \<exists>zs stop. grown 2 root s xs s' zs \<and>
        (if r = 0 then stop = PGROUNDDOWN (va + sz - 1) + PGSIZE
         else r = - 1 \<and> zs = [] \<and> va \<le> stop \<and> stop \<le> PGROUNDDOWN (va + sz - 1) \<and>
           length xs < 2 * npages_of va (PGROUNDDOWN (va + sz - 1))) \<and>
        (\<forall>w. w < MAXVA \<longrightarrow> entry 2 (ram s') root w =
          (if va \<le> PGROUNDDOWN w \<and> PGROUNDDOWN w < stop
           then mapped (paddr + (PGROUNDDOWN w - va)) perm else entry 2 (ram s) root w))"
  using MapPages_loop_correct [OF assms(1,2) PGROUNDDOWN_aligned map_range(4,5) [OF assms(2-4)], of paddr perm]
  unfolding MapPages_def map_range(1) [OF assms(2-4)] .

lemma MapPages_translates:
  assumes ok: "pt_ok 2 s root xs" and va: "unat va mod 4096 = 0" "0 < sz" "unat va + unat sz \<le> 2 ^ 38"
    and pa: "unat pa mod 4096 = 0" "unat pa + unat sz \<le> 2 ^ 55" and perm: "unat perm < 2 ^ 10"
    and m: "MapPages root va pa sz perm s = Inr (0, s')"
    and w: "va \<le> w" "w \<le> va + sz - 1"
  shows "KGetKaddr root w s' = Inr (pa + (w - va), s')"
proof -
  note R = map_range [OF va]
  from MapPages_correct [OF ok va, of pa perm, unfolded m sum.case prod.case if_P [OF refl]]
  obtain zs where g: "grown 2 root s xs s' zs" and e: "\<And>w. w < MAXVA \<Longrightarrow> entry 2 (ram s') root w =
      (if va \<le> PGROUNDDOWN w \<and> PGROUNDDOWN w < PGROUNDDOWN (va + sz - 1) + PGSIZE
       then mapped (pa + (PGROUNDDOWN w - va)) perm else entry 2 (ram s) root w)"
    by blast
  have wl: "w < MAXVA" using w(2) R(3) by simp
  have ule: "unat va \<le> unat w" "unat w \<le> unat va + unat sz - 1"
    using w R(2) by (simp_all add: word_le_nat_alt)
  have d: "unat va div 4096 * 4096 = unat va" using va(1) by (simp add: mod_eq_0_iff_dvd)
  have "unat va div 4096 * 4096 \<le> unat w div 4096 * 4096"
    using ule(1) by (intro mult_le_mono1 div_le_mono)
  then have a: "va \<le> PGROUNDDOWN w" using d by (simp add: word_le_nat_alt unat_PGROUNDDOWN)
  have "unat w div 4096 \<le> (unat va + unat sz - 1) div 4096" using ule(2) by (rule div_le_mono)
  then have "PGROUNDDOWN w \<le> PGROUNDDOWN (va + sz - 1)"
    by (simp add: word_le_nat_alt unat_PGROUNDDOWN R(2))
  moreover have "PGROUNDDOWN (va + sz - 1) < PGROUNDDOWN (va + sz - 1) + PGSIZE"
    by (rule page_succ_iff(2) [OF PGROUNDDOWN_aligned wl R(5)])
  ultimately have en: "entry 2 (ram s') root w = mapped (pa + (PGROUNDDOWN w - va)) perm"
    using e [OF wl] a by (simp add: le_less_trans)
  let ?p = "pa + (PGROUNDDOWN w - va)"
  have lw: "unat (PGROUNDDOWN w - va) = unat w div 4096 * 4096 - unat va"
    using a by (simp add: unat_sub unat_PGROUNDDOWN word_le_nat_alt)
  have "unat w div 4096 * 4096 \<le> unat w" by simp
  then have sm: "unat pa + unat (PGROUNDDOWN w - va) < 2 ^ 55 + 1"
    using lw ule pa(2) va(2) by (simp add: word_less_nat_alt)
  then have pu: "unat ?p = unat pa + unat (PGROUNDDOWN w - va)"
    by (simp add: unat_word_ariths)
  have "unat ?p mod 4096 = 0"
  proof -
    obtain i where i: "unat pa = 4096 * i" using pa(1) by (metis mod_0_imp_dvd dvdE)
    obtain j where j: "unat va = 4096 * j" using va(1) by (metis mod_0_imp_dvd dvdE)
    have "unat ?p = 4096 * (i + (unat w div 4096 - j))"
      unfolding pu lw i j by (simp add: diff_mult_distrib2)
    then show ?thesis by simp
  qed
  then have "PTE2PAGE (entry 2 (ram s') root w) = ?p" "entry 2 (ram s') root w \<noteq> 0"
    unfolding en using mapped_page [of ?p perm] pu sm perm by simp_all
  moreover have "pt_ok 2 s' root zs" using g unfolding grown_def by blast
  ultimately have k: "KGetKaddr root w s' = Inr (w mod PGSIZE + ?p, s')"
    using KGetKaddr_entry [OF _ wl, of s' root zs] by simp
  have "w mod PGSIZE = w - PGROUNDDOWN w"
    by (simp add: word_unat_eq_iff PGROUNDDOWN_offset unat_mod PGSIZE_def)
  then show ?thesis using k by (simp add: algebra_simps)
qed

section \<open>Unmapping\<close>

text \<open>
  The test \<open>*pte && PTE_V\<close> of \<open>vmunmap\<close> rejects exactly the pages that are mapped, and lets
  an empty entry through to \<open>kfree(0)\<close>.
\<close>

lemma vmunmap_first:
  assumes ok: "pt_ok 2 s root xs" and va: "unat va mod 4096 = 0" "va < MAXVA" "va < va + n * PGSIZE"
  shows "vmunmap root va n do_free s =
    (if leaf 2 (ram s) root va = None then Inl (Panic ''vmunmap: walk'')
     else if entry 2 (ram s) root va \<noteq> 0 then Inl (Panic ''vmumap: invalid'')
     else if do_free then Inl (Panic ''kfree: invalid physical address'')
     else vmunmap_loop root (va + PGSIZE) (va + n * PGSIZE) False
       (s\<lparr>ram := st64 (ram s) (the (leaf 2 (ram s) root va)) 0\<rparr>))"
proof -
  have al: "va mod PGSIZE = 0" using va(1) by (simp add: word_unat_eq_iff unat_mod PGSIZE_def)
  have "0 < kernel_end s" using ok by (simp add: pt_ok_def kmem_inv_def)
  then have k: "kfree (PTE2PAGE 0) s = Inl (Panic ''kfree: invalid physical address'')"
    by (intro kfree_refuses) (simp add: page_ok_def PTE2PAGE_def)
  show ?thesis
    by (rule walk_read [OF ok va(2)])
       (simp_all add: vmunmap_def al vmunmap_loop.simps [of root va] va(3) PTE_V_def PTE_FLAGS_def k)
qed

section \<open>Freeing the tree\<close>

text \<open>A tree with no leaves: every valid entry above level 0 points to a table.\<close>

fun no_leaves :: "nat \<Rightarrow> mem \<Rightarrow> u64 \<Rightarrow> bool" where
  "no_leaves 0 m pt \<longleftrightarrow> (\<forall>i \<in> set ptes. ld64 m (slot pt i) AND PTE_V = 0)"
| "no_leaves (Suc l) m pt \<longleftrightarrow> (\<forall>i \<in> set ptes. ld64 m (slot pt i) AND PTE_V \<noteq> 0 \<longrightarrow>
     ld64 m (slot pt i) AND (PTE_R OR PTE_W OR PTE_X) = 0 \<and> no_leaves l m (PTE2PAGE (ld64 m (slot pt i))))"

lemma no_leaves_cong:
  "(\<And>x b. x \<in> set (tables l m pt) \<Longrightarrow> in_page x b \<Longrightarrow> m' b = m b) \<Longrightarrow>
    no_leaves l m' pt = no_leaves l m pt"
proof (induction l arbitrary: pt)
  case 0
  have "ld64 m' (slot pt i) = ld64 m (slot pt i)" if "i < 512" for i
    by (rule slot_cong [OF that]) (use 0 in simp)
  then show ?case by (simp add: set_ptes)
next
  case (Suc l)
  have e: "ld64 m' (slot pt i) = ld64 m (slot pt i)" if "i < 512" for i
    by (rule slot_cong [OF that]) (use Suc.prems root_in_tables in blast)
  have "no_leaves l m' (PTE2PAGE (ld64 m (slot pt i))) = no_leaves l m (PTE2PAGE (ld64 m (slot pt i)))"
    if "i < 512" "ld64 m (slot pt i) AND PTE_V \<noteq> 0" for i
    by (rule Suc.IH, rule Suc.prems) (use that sub_tables in blast)+
  with e show ?case by (auto simp: set_ptes)
qed

text \<open>What \<open>freewalk\<close> did: the pages in \<open>P\<close>, and only they, went to the pool.\<close>

definition freed :: "u64 set \<Rightarrow> 'a kmem_state_scheme \<Rightarrow> u64 list \<Rightarrow> 'a kmem_state_scheme \<Rightarrow> bool" where
  "freed P s xs s' \<longleftrightarrow> (\<exists>ys. kmem_inv s' (ys @ xs) \<and> set ys = P \<and> kernel_end s' = kernel_end s \<and>
     (\<forall>b. (\<forall>x \<in> P. \<not> in_page x b) \<longrightarrow> ram s' b = ram s b))"

lemma freewalk_end:
  assumes "kmem_inv s xs" "page_ok (kernel_end s) pt" "pt \<notin> set xs"
  shows "\<exists>s'. freewalk_from 512 pt s = Some (Inr s') \<and> freed {pt} s xs s'"
proof -
  obtain s' where s': "kfree pt s = Inr s'" "kmem_inv s' (pt # xs)" "kernel_end s' = kernel_end s"
    "\<forall>b. \<not> in_page pt b \<longrightarrow> ram s' b = ram s b"
    using kmem.free_ok [OF assms] by blast
  have "freed {pt} s xs s'"
    unfolding freed_def by (intro exI [of _ "[pt]"]) (use s' in simp)
  moreover have "freewalk_from 512 pt s = Some (Inr s')"
    by (subst freewalk_from.simps) (simp add: s'(1))
  ultimately show ?thesis by blast
qed

lemma freewalk_skip:
  "i < 512 \<Longrightarrow> ld64 (ram s) (slot pt i) AND PTE_V = 0 \<Longrightarrow>
    freewalk_from i pt s = freewalk_from (Suc i) pt s"
  by (subst freewalk_from.simps) (simp add: Let_def)

lemma freewalk_leafless0:
  assumes "\<And>j. i \<le> j \<Longrightarrow> j < 512 \<Longrightarrow> ld64 (ram s) (slot pt j) AND PTE_V = 0" "i \<le> 512"
  shows "freewalk_from i pt s = freewalk_from 512 pt s"
  using assms(2,1)
proof (induction rule: inc_induct)
  case (step n)
  then show ?case using freewalk_skip [of n s pt] by simp
qed simp

text \<open>The loop invariant at index \<open>i\<close>: the subtrees from \<open>i\<close> on are still whole.\<close>

definition rest_ok :: "nat \<Rightarrow> 'a kmem_state_scheme \<Rightarrow> u64 \<Rightarrow> u64 list \<Rightarrow> nat \<Rightarrow> bool" where
  "rest_ok l s pt xs i \<longleftrightarrow> kmem_inv s xs \<and> page_ok (kernel_end s) pt \<and> pt \<notin> set xs \<and>
     (\<forall>j. i \<le> j \<longrightarrow> j < 512 \<longrightarrow> pt \<notin> set (branch l (ram s) pt j) \<and> distinct (branch l (ram s) pt j) \<and>
        set (branch l (ram s) pt j) \<inter> set xs = {} \<and>
        (\<forall>x \<in> set (branch l (ram s) pt j). page_ok (kernel_end s) x) \<and>
        (ld64 (ram s) (slot pt j) AND PTE_V \<noteq> 0 \<longrightarrow>
          ld64 (ram s) (slot pt j) AND (PTE_R OR PTE_W OR PTE_X) = 0 \<and>
          no_leaves l (ram s) (PTE2PAGE (ld64 (ram s) (slot pt j)))) \<and>
        (\<forall>k. i \<le> k \<longrightarrow> k < 512 \<longrightarrow> j \<noteq> k \<longrightarrow>
          set (branch l (ram s) pt j) \<inter> set (branch l (ram s) pt k) = {}))"

lemma rest_ok_start:
  assumes "pt_ok (Suc l) s pt xs" "no_leaves (Suc l) (ram s) pt"
  shows "rest_ok l s pt xs 0"
proof -
  note D = assms(1) [unfolded pt_ok_def tables_Suc_distinct tables_Suc_set]
  show ?thesis
    unfolding rest_ok_def using D assms(2) by (auto simp: set_ptes)
qed

lemma rest_ok_Suc_skip: "rest_ok l s pt xs i \<Longrightarrow> rest_ok l s pt xs (Suc i)"
  unfolding rest_ok_def using Suc_leD by blast

text \<open>Freeing subtree \<open>i\<close> and clearing its slot moves the invariant on.\<close>

lemma rest_ok_Suc:
  assumes r: "rest_ok l s pt xs i" and i: "i < 512"
    and f: "kmem_inv s1 (ys @ xs)" "set ys = set (branch l (ram s) pt i)" "kernel_end s1 = kernel_end s"
      "\<And>b. \<forall>x \<in> set (branch l (ram s) pt i). \<not> in_page x b \<Longrightarrow> ram s1 b = ram s b"
  defines "s2 \<equiv> s1\<lparr>ram := st64 (ram s1) (slot pt i) 0\<rparr>"
  shows "rest_ok l s2 pt (ys @ xs) (Suc i)"
    and "\<And>j. Suc i \<le> j \<Longrightarrow> j < 512 \<Longrightarrow> branch l (ram s2) pt j = branch l (ram s) pt j"
    and "\<And>b. \<not> in_page pt b \<Longrightarrow> ram s2 b = ram s1 b"
proof -
  note R = r [unfolded rest_ok_def]
  have al: "unat pt mod 4096 = 0" using R page_ok_align by blast
  have bal: "unat x mod 4096 = 0" if "i \<le> j" "j < 512" "x \<in> set (branch l (ram s) pt j)" for x j
    using R that page_ok_align(1) by blast
  have dis: "set (branch l (ram s) pt j) \<inter> set (branch l (ram s) pt k) = {}"
    if "i \<le> j" "j < 512" "i \<le> k" "k < 512" "j \<noteq> k" for j k
    using R that by blast
  show out: "\<And>b. \<not> in_page pt b \<Longrightarrow> ram s2 b = ram s1 b"
    unfolding s2_def using in_page_st64 [OF i] by simp
  have away: "ram s1 b = ram s b" if "unat y mod 4096 = 0" "y \<notin> set (branch l (ram s) pt i)" "in_page y b" for y b
  proof (rule f(4), intro ballI)
    fix x assume "x \<in> set (branch l (ram s) pt i)"
    then have "unat x mod 4096 = 0" "y \<noteq> x" using bal [of i] i that(2) by auto
    then show "\<not> in_page x b" using pages_disjoint [OF that(1) _ _ that(3), of x] by simp
  qed
  have sl: "ld64 (ram s2) (slot pt j) = ld64 (ram s) (slot pt j)" if "Suc i \<le> j" "j < 512" for j
  proof -
    have "ld64 (ram s2) (slot pt j) = ld64 (ram s1) (slot pt j)"
      unfolding s2_def using slot_st64 [OF al al i that(2)] that(1) by simp
    also have "\<dots> = ld64 (ram s) (slot pt j)"
      by (rule slot_cong [OF that(2)], rule away [OF al]) (use R i in auto)
    finally show ?thesis .
  qed
  have same: "ram s2 b = ram s b"
    if "Suc i \<le> j" "j < 512" "x \<in> set (branch l (ram s) pt j)" "in_page x b" for j x b
  proof -
    have ax: "unat x mod 4096 = 0" using bal [of j] that by simp
    have "x \<noteq> pt" using R that by (meson Suc_leD)
    then have "\<not> in_page pt b" using pages_disjoint [OF ax al _ that(4)] by simp
    moreover have "x \<notin> set (branch l (ram s) pt i)"
    proof -
      have "set (branch l (ram s) pt i) \<inter> set (branch l (ram s) pt j) = {}"
        by (rule dis) (use i that(1,2) in auto)
      then show ?thesis using that(3) by blast
    qed
    ultimately show ?thesis using out away [OF ax _ that(4)] by simp
  qed
  show br: "branch l (ram s2) pt j = branch l (ram s) pt j" if "Suc i \<le> j" "j < 512" for j
    using sl [OF that] same [OF that] tables_cong [of l "ram s" "PTE2PAGE (ld64 (ram s) (slot pt j))" "ram s2"]
    by (auto simp: branch_def)
  have nl: "no_leaves l (ram s2) (PTE2PAGE (ld64 (ram s) (slot pt j))) =
      no_leaves l (ram s) (PTE2PAGE (ld64 (ram s) (slot pt j)))"
    if "Suc i \<le> j" "j < 512" "ld64 (ram s) (slot pt j) AND PTE_V \<noteq> 0" for j
    by (rule no_leaves_cong) (use same [OF that(1,2)] that(3) in \<open>auto simp: branch_def\<close>)
  have inv2: "kmem_inv s2 (ys @ xs)"
    unfolding s2_def
  proof (rule kmem_inv_ram [OF f(1)])
    fix x b assume x: "x \<in> set (ys @ xs)" "in_page x b"
    then have "x \<noteq> pt" "unat x mod 4096 = 0"
      using R i f(2) kmem_inv_page [OF f(1)] by auto
    then have "\<not> in_page pt b" using pages_disjoint [OF _ al _ x(2)] by simp
    then show "st64 (ram s1) (slot pt i) 0 b = ram s1 b" by (rule in_page_st64 [OF i])
  qed
  have ke: "kernel_end s2 = kernel_end s" unfolding s2_def using f(3) by simp
  have ptn: "pt \<notin> set (ys @ xs)" using R i f(2) by auto
  show "rest_ok l s2 pt (ys @ xs) (Suc i)"
    unfolding rest_ok_def ke
  proof (intro conjI allI impI)
    show "kmem_inv s2 (ys @ xs)" "page_ok (kernel_end s) pt" "pt \<notin> set (ys @ xs)"
      using inv2 R ptn by blast+
    fix j assume j: "Suc i \<le> j" "j < 512"
    then have j': "i \<le> j" by simp
    show "pt \<notin> set (branch l (ram s2) pt j)" "distinct (branch l (ram s2) pt j)"
      unfolding br [OF j] using R j(2) j' by blast+
    have "set (branch l (ram s) pt j) \<inter> set (branch l (ram s) pt i) = {}"
      by (rule dis) (use i j in auto)
    then show "set (branch l (ram s2) pt j) \<inter> set (ys @ xs) = {}"
      unfolding br [OF j] using R j(2) j' f(2) by (simp add: Int_Un_distrib)
    show "\<forall>x \<in> set (branch l (ram s2) pt j). page_ok (kernel_end s) x"
      unfolding br [OF j] using R j(2) j' by blast
    show "ld64 (ram s2) (slot pt j) AND (PTE_R OR PTE_W OR PTE_X) = 0"
      "no_leaves l (ram s2) (PTE2PAGE (ld64 (ram s2) (slot pt j)))"
      if "ld64 (ram s2) (slot pt j) AND PTE_V \<noteq> 0"
      using R j(2) j' that nl [OF j] unfolding sl [OF j] by blast+
    fix k assume k: "Suc i \<le> k" "k < 512" "j \<noteq> k"
    then show "set (branch l (ram s2) pt j) \<inter> set (branch l (ram s2) pt k) = {}"
      unfolding br [OF j] br [OF k(1,2)] using dis [of j k] j' j k by simp
  qed
qed


lemma freewalk_from_rest:
  fixes s :: "'a kmem_state_scheme"
  assumes IH: "\<And>(s :: 'a kmem_state_scheme) pt xs. pt_ok l s pt xs \<Longrightarrow> no_leaves l (ram s) pt \<Longrightarrow>
      \<exists>s'. freewalk_from 0 pt s = Some (Inr s') \<and> freed (set (tables l (ram s) pt)) s xs s'"
    and r: "rest_ok l s pt xs i" "i \<le> 512"
  shows "\<exists>s'. freewalk_from i pt s = Some (Inr s') \<and>
    freed (insert pt (\<Union>j\<in>{i..<512}. set (branch l (ram s) pt j))) s xs s'"
  using r
proof (induction "512 - i" arbitrary: i s xs)
  case 0
  then have "i = 512" by simp
  then show ?case using freewalk_end [of s xs pt] 0 by (simp add: rest_ok_def)
next
  case (Suc d)
  then have i: "i < 512" "d = 512 - Suc i" "Suc i \<le> 512" by simp_all
  have split: "{i..<512} = insert i {Suc i..<512}" using i(1) by auto
  note R = Suc.prems(1) [unfolded rest_ok_def]
  show ?case
  proof (cases "ld64 (ram s) (slot pt i) AND PTE_V = 0")
    case True
    then have "branch l (ram s) pt i = []" by (simp add: branch_def)
    moreover have "freewalk_from i pt s = freewalk_from (Suc i) pt s"
      by (rule freewalk_skip [OF i(1) True])
    ultimately show ?thesis
      using Suc.hyps(1) [OF i(2) rest_ok_Suc_skip [OF Suc.prems(1)] i(3)] split by simp
  next
    case False
    let ?c = "PTE2PAGE (ld64 (ram s) (slot pt i))"
    have b: "branch l (ram s) pt i = tables l (ram s) ?c" using False by (simp add: branch_def)
    have ci: "pt_ok l s ?c xs" "no_leaves l (ram s) ?c" "ld64 (ram s) (slot pt i) AND (PTE_R OR PTE_W OR PTE_X) = 0"
    proof -
      have "distinct (branch l (ram s) pt i)" "set (branch l (ram s) pt i) \<inter> set xs = {}"
        "\<forall>x \<in> set (branch l (ram s) pt i). page_ok (kernel_end s) x" "kmem_inv s xs"
        using R i(1) by blast+
      then show "pt_ok l s ?c xs" unfolding pt_ok_def b by blast
      show "no_leaves l (ram s) ?c" "ld64 (ram s) (slot pt i) AND (PTE_R OR PTE_W OR PTE_X) = 0"
        using R i(1) False by blast+
    qed
    obtain s1 where s1: "freewalk_from 0 ?c s = Some (Inr s1)" "freed (set (branch l (ram s) pt i)) s xs s1"
      using IH [OF ci(1,2)] b by auto
    let ?s2 = "s1\<lparr>ram := st64 (ram s1) (slot pt i) 0\<rparr>"
    have w: "freewalk_from i pt s = freewalk_from (Suc i) pt ?s2"
      by (subst freewalk_from.simps) (simp add: Let_def i(1) False ci(3) s1(1))
    obtain ys where y: "kmem_inv s1 (ys @ xs)" "set ys = set (branch l (ram s) pt i)" "kernel_end s1 = kernel_end s"
      "\<And>b. \<forall>x \<in> set (branch l (ram s) pt i). \<not> in_page x b \<Longrightarrow> ram s1 b = ram s b"
      using s1(2) unfolding freed_def by blast
    note S = rest_ok_Suc [OF Suc.prems(1) i(1) y]
    obtain s' where s': "freewalk_from (Suc i) pt ?s2 = Some (Inr s')"
      and f: "freed (insert pt (\<Union>j\<in>{Suc i..<512}. set (branch l (ram ?s2) pt j))) ?s2 (ys @ xs) s'"
      using Suc.hyps(1) [OF i(2) S(1) i(3)] by blast
    let ?Q = "insert pt (\<Union>j\<in>{Suc i..<512}. set (branch l (ram s) pt j))"
    have "(\<Union>j\<in>{Suc i..<512}. set (branch l (ram ?s2) pt j)) = (\<Union>j\<in>{Suc i..<512}. set (branch l (ram s) pt j))"
      by (rule SUP_cong [OF refl]) (simp only: atLeastLessThan_iff S(2))
    then have f': "freed ?Q ?s2 (ys @ xs) s'" using f by simp
    obtain zs where z: "kmem_inv s' (zs @ ys @ xs)" "set zs = ?Q" "kernel_end s' = kernel_end ?s2"
      "\<And>b. \<forall>x \<in> ?Q. \<not> in_page x b \<Longrightarrow> ram s' b = ram ?s2 b"
      using f' unfolding freed_def by blast
    have "freed (insert pt (\<Union>j\<in>{i..<512}. set (branch l (ram s) pt j))) s xs s'"
      unfolding freed_def
    proof (intro exI [of _ "zs @ ys"] conjI allI impI)
      show "kmem_inv s' ((zs @ ys) @ xs)" "kernel_end s' = kernel_end s" using z y by simp_all
      show "set (zs @ ys) = insert pt (\<Union>j\<in>{i..<512}. set (branch l (ram s) pt j))"
        using z(2) y(2) split by auto
      fix b assume nb: "\<forall>x \<in> insert pt (\<Union>j\<in>{i..<512}. set (branch l (ram s) pt j)). \<not> in_page x b"
      have "ram s' b = ram ?s2 b" by (rule z(4)) (use nb split in auto)
      also have "\<dots> = ram s1 b" by (rule S(3)) (use nb in simp_all)
      also have "\<dots> = ram s b" by (rule y(4)) (use nb split in auto)
      finally show "ram s' b = ram s b" .
    qed
    then show ?thesis using w s' by auto
  qed
qed

lemma freewalk_freed:
  "pt_ok l s pt xs \<Longrightarrow> no_leaves l (ram s) pt \<Longrightarrow>
    \<exists>s'. freewalk pt s = Some (Inr s') \<and> freed (set (tables l (ram s) pt)) s xs s'"
  unfolding freewalk_def
proof (induction l arbitrary: s pt xs)
  case 0
  have "freewalk_from 0 pt s = freewalk_from 512 pt s"
    by (rule freewalk_leafless0) (use 0(2) in \<open>auto simp: set_ptes\<close>)
  then show ?case using freewalk_end [of s xs pt] 0(1) by (simp add: pt_ok_def)
next
  case (Suc l)
  have "{0..<512} = {..<512::nat}" by (rule atLeast0LessThan)
  then show ?case
    using freewalk_from_rest [OF Suc.IH rest_ok_start [OF Suc.prems]]
    by (simp only: tables_Suc_set)
qed

section \<open>Properties\<close>

text \<open>A machine with an empty root table and three free pages.\<close>

definition chain3 :: mem where
  "chain3 = st64 (st64 (\<lambda>_. 0) 0x80501000 0x80502000) 0x80502000 0x80503000"

definition small :: kmem_state where
  "small = one_page\<lparr>ram := chain3, freelist := 0x80501000, npages := 3\<rparr>"

abbreviation small_pool :: "u64 list" where
  "small_pool \<equiv> [0x80501000, 0x80502000, 0x80503000]"

lemma small_fields: "ram small = chain3" "kernel_end small = 0x80500000"
  by (simp_all add: small_def one_page_def)

lemma chain3_empty: "in_page 0x80500000 b \<Longrightarrow> chain3 b = 0"
proof -
  assume b: "in_page 0x80500000 b"
  have "\<not> in_page 0x80501000 b" "\<not> in_page 0x80502000 b"
    using pages_disjoint [of "0x80500000" _ b] b by simp_all
  then show ?thesis by (simp add: chain3_def st64_apply in_page_def)
qed

lemma small_ok: "pt_ok 2 small 0x80500000 small_pool"
proof -
  have t: "tables 2 (ram small) 0x80500000 = [0x80500000]"
    unfolding small_fields by (rule tables_zero(1)) (rule chain3_empty)
  have "ld64 chain3 0x80501000 = 0x80502000" "ld64 chain3 0x80502000 = 0x80503000"
    "ld64 chain3 0x80503000 = 0"
    by (simp_all add: chain3_def ld64_st64_other)
  then have "kmem_inv small small_pool"
    by (simp add: small_def one_page_def kmem_inv_def page_ok_def PHYSTOP_def ready_def
      quiet_def lock_free_def hart_defs)
  then show ?thesis
    by (simp add: pt_ok_def t [unfolded small_fields] page_ok_def small_fields PHYSTOP_def)
qed

lemma small_entry: "entry 2 (ram small) 0x80500000 va = 0"
  unfolding small_fields by (rule tables_zero(3)) (rule chain3_empty)

text \<open>C1: on a well-formed tree, \<open>MapPages\<close> over a range that starts on a page either panics because
  a page of the range has an entry, or maps pages in order: all of them (0), or, with the pool
  exhausted and fewer than two free pages per page of the range to start with, those up to some
  page of the range (-1). The translation of every other page is kept, the tree stays
  well formed, and no byte outside its tables and the pages taken changes.\<close>

theorem MapPages_maps:
  assumes "pt_ok 2 s root xs" "unat va mod 4096 = 0" "0 < sz" "unat va + unat sz \<le> 2 ^ 38"
  shows "case MapPages root va paddr sz perm s of
      Inl e \<Rightarrow> e = Panic ''ramap'' \<and>
        (\<exists>w. unat w mod 4096 = 0 \<and> va \<le> w \<and> w \<le> PGROUNDDOWN (va + sz - 1) \<and> entry 2 (ram s) root w \<noteq> 0)
    | Inr (r, s') \<Rightarrow> \<exists>zs stop. grown 2 root s xs s' zs \<and>
        (if r = 0 then stop = PGROUNDDOWN (va + sz - 1) + PGSIZE
         else r = - 1 \<and> zs = [] \<and> va \<le> stop \<and> stop \<le> PGROUNDDOWN (va + sz - 1) \<and>
           length xs < 2 * npages_of va (PGROUNDDOWN (va + sz - 1))) \<and>
        (\<forall>w. w < MAXVA \<longrightarrow> entry 2 (ram s') root w =
          (if va \<le> PGROUNDDOWN w \<and> PGROUNDDOWN w < stop
           then mapped (paddr + (PGROUNDDOWN w - va)) perm else entry 2 (ram s) root w))"
  by (rule MapPages_correct [OF assms])

theorem MapPages_maps_witness:
  "\<exists>s'. MapPages 0x80500000 0x3000 0x90000000 0x1000 PTE_R small = Inr (0, s') \<and>
     entry 2 (ram s') 0x80500000 0x3000 = mapped 0x90000000 PTE_R"
proof -
  have r: "PGROUNDDOWN 0x3fff = 0x3000" "PGROUNDDOWN 0x3000 = 0x3000"
    by (simp_all add: PGROUNDDOWN_def PGSIZE_def)
  have n: "npages_of 0x3000 0x3000 = 1" by (simp add: npages_of_def)
  have m: "(0x3000 :: u64) < MAXVA" by (simp add: MAXVA_def)
  show ?thesis
    using MapPages_maps [OF small_ok, where va = "0x3000" and sz = "0x1000" and
        paddr = "0x90000000" and perm = PTE_R]
    by (cases "MapPages 0x80500000 0x3000 0x90000000 0x1000 PTE_R small")
       (use small_entry m in \<open>auto simp: r n PGSIZE_def split: if_splits dest!: spec [of _ "0x3000"]\<close>)
qed


text \<open>C2: a range \<open>MapPages\<close> has mapped is translated by \<open>KGetKaddr\<close> to the matching physical
  addresses, offset inside the page included.\<close>

theorem MapPages_KGetKaddr:
  assumes "pt_ok 2 s root xs" "unat va mod 4096 = 0" "0 < sz" "unat va + unat sz \<le> 2 ^ 38"
    and "unat pa mod 4096 = 0" "unat pa + unat sz \<le> 2 ^ 55" "unat perm < 2 ^ 10"
    and "MapPages root va pa sz perm s = Inr (0, s')" "va \<le> w" "w \<le> va + sz - 1"
  shows "KGetKaddr root w s' = Inr (pa + (w - va), s')"
  by (rule MapPages_translates [OF assms])

lemma small_mapped:
  obtains s' where "MapPages 0x80500000 0x3000 0x90000000 0x1000 PTE_R small = Inr (0, s')"
proof -
  have "PGROUNDDOWN 0x3fff = 0x3000" "PGROUNDDOWN 0x3000 = 0x3000"
    by (simp_all add: PGROUNDDOWN_def PGSIZE_def)
  then show thesis
    using MapPages_correct [OF small_ok, where va = "0x3000" and sz = "0x1000" and
        paddr = "0x90000000" and perm = PTE_R] that
    by (cases "MapPages 0x80500000 0x3000 0x90000000 0x1000 PTE_R small")
       (auto simp: small_entry npages_of_def split: if_splits)
qed

theorem MapPages_KGetKaddr_witness:
  "\<exists>s'. MapPages 0x80500000 0x3000 0x90000000 0x1000 PTE_R small = Inr (0, s') \<and>
     KGetKaddr 0x80500000 0x3123 s' = Inr (0x90000123, s')"
proof -
  obtain s' where s': "MapPages 0x80500000 0x3000 0x90000000 0x1000 PTE_R small = Inr (0, s')"
    by (rule small_mapped)
  have "KGetKaddr 0x80500000 0x3123 s' = Inr (0x90000000 + (0x3123 - 0x3000), s')"
    by (rule MapPages_KGetKaddr [OF small_ok _ _ _ _ _ _ s']) (simp_all add: PTE_R_def)
  with s' show ?thesis by simp
qed

text \<open>\<open>vmunmap\<close> never removes a mapping: on a page that \<open>MapPages\<close> has mapped it panics, because
  its test \<open>*pte && PTE_V\<close> rejects every entry that is not zero; and with \<open>do_free\<close> it panics on an
  empty entry too, in \<open>kfree(0)\<close>.\<close>

theorem vmunmap_panics:
  assumes "pt_ok 2 s root xs" "unat va mod 4096 = 0" "va < MAXVA" "va < va + n * PGSIZE"
    and "entry 2 (ram s) root va \<noteq> 0 \<or> do_free"
  shows "\<exists>msg. vmunmap root va n do_free s = Inl (Panic msg)"
  using vmunmap_first [OF assms(1-4), of do_free] assms(5) by auto

theorem vmunmap_panics_witness:
  "\<exists>s' msg. MapPages 0x80500000 0x3000 0x90000000 0x1000 PTE_R small = Inr (0, s') \<and>
     vmunmap 0x80500000 0x3000 1 False s' = Inl (Panic msg)"
proof -
  obtain s' where s': "MapPages 0x80500000 0x3000 0x90000000 0x1000 PTE_R small = Inr (0, s')"
    by (rule small_mapped)
  have r: "PGROUNDDOWN 0x3fff = 0x3000" "PGROUNDDOWN 0x3000 = 0x3000"
    by (simp_all add: PGROUNDDOWN_def PGSIZE_def)
  have m: "(0x3000 :: u64) < MAXVA" by (simp add: MAXVA_def)
  from MapPages_correct [OF small_ok, where va = "0x3000" and sz = "0x1000" and paddr = "0x90000000"
      and perm = PTE_R] s'
  obtain zs where g: "grown 2 0x80500000 small small_pool s' zs"
    and e: "entry 2 (ram s') 0x80500000 0x3000 = mapped 0x90000000 PTE_R"
    using m by (auto simp: r PGSIZE_def dest!: spec [of _ "0x3000"])
  have "pt_ok 2 s' 0x80500000 zs" using g unfolding grown_def by blast
  moreover have "mapped 0x90000000 PTE_R \<noteq> 0" by (rule mapped_page(2)) (simp_all add: PTE_R_def)
  ultimately have "\<exists>msg. vmunmap 0x80500000 0x3000 1 False s' = Inl (Panic msg)"
    using vmunmap_panics [of s' "0x80500000" zs "0x3000" 1 False] e m by (simp add: PGSIZE_def)
  with s' show ?thesis by blast
qed

text \<open>C3: \<open>freewalk\<close> on a well-formed tree whose leaves are gone returns, and the pages it gives to the
  allocator are exactly the tables of the tree, each once; no byte outside them changes.\<close>

theorem freewalk_frees_tables:
  assumes "pt_ok l s pt xs" "no_leaves l (ram s) pt"
  shows "\<exists>s' ys. freewalk pt s = Some (Inr s') \<and> kmem_inv s' (ys @ xs) \<and>
    set ys = set (tables l (ram s) pt) \<and>
    (\<forall>b. (\<forall>x \<in> set (tables l (ram s) pt). \<not> in_page x b) \<longrightarrow> ram s' b = ram s b)"
  using freewalk_freed [OF assms] unfolding freed_def by blast

theorem freewalk_frees_tables_witness:
  "\<exists>s' ys. freewalk 0x80500000 small = Some (Inr s') \<and> kmem_inv s' (ys @ small_pool) \<and>
    set ys = set (tables 2 (ram small) 0x80500000) \<and>
    (\<forall>b. (\<forall>x \<in> set (tables 2 (ram small) 0x80500000). \<not> in_page x b) \<longrightarrow> ram s' b = ram small b)"
proof (rule freewalk_frees_tables [OF small_ok])
  have "ld64 (ram small) (slot 0x80500000 i) = 0" if "i < 512" for i
    using slot_cong [OF that, of "0x80500000" "\<lambda>_. 0" "ram small"] chain3_empty
    by (simp add: small_fields)
  then show "no_leaves 2 (ram small) 0x80500000"
    by (simp add: numeral_2_eq_2 set_ptes)
qed

text \<open>\<open>UvmInit\<close> hands \<open>MapPages\<close> the page it allocated as the size and \<open>PGSIZE\<close> as the physical
  address. Whatever that call manages to map, user address 0 is afterwards translated to
  physical address 4096 if to any, not to the allocated page.\<close>

theorem UvmInit_maps_wrong_page:
  assumes "pt_ok 2 s root xs" "entry 2 (ram s) root 0 = 0" "0 < mem" "mem \<le> PHYSTOP"
    and "MapPages root 0 PGSIZE mem (PTE_W OR PTE_R OR PTE_X OR PTE_U) s = Inr (r, s')"
    and "KGetKaddr root 0 s' = Inr (pa, s'')"
  shows "pa = 4096"
proof -
  let ?perm = "PTE_W OR PTE_R OR PTE_X OR PTE_U"
  have b: "unat mem \<le> 0x80600000" using assms(4) by (simp add: PHYSTOP_def word_le_nat_alt)
  have m: "(0 :: u64) < MAXVA" and p0: "PGROUNDDOWN 0 = 0" by (simp_all add: MAXVA_def PGROUNDDOWN_def)
  from MapPages_correct [OF assms(1) _ assms(3), of 0 PGSIZE ?perm] b assms(5)
  obtain zs where g: "grown 2 root s xs s' zs"
    and e: "entry 2 (ram s') root 0 = mapped PGSIZE ?perm \<or> entry 2 (ram s') root 0 = 0"
    using m assms(2) by (auto simp: p0 dest!: spec [of _ 0] split: if_splits)
  have ok: "pt_ok 2 s' root zs" using g unfolding grown_def by blast
  have pp: "PTE2PAGE (mapped PGSIZE ?perm) = 4096" "mapped PGSIZE ?perm \<noteq> 0"
    using mapped_page(1,2) [of PGSIZE ?perm]
    by (simp_all add: PGSIZE_def PTE_W_def PTE_R_def PTE_X_def PTE_U_def)
  from e show ?thesis
  proof
    assume "entry 2 (ram s') root 0 = mapped PGSIZE ?perm"
    with KGetKaddr_entry [OF ok m] pp assms(6) show ?thesis by (simp add: PGSIZE_def)
  next
    assume z: "entry 2 (ram s') root 0 = 0"
    have "KGetKaddr root 0 s' \<noteq> Inr (pa, s'')"
      by (rule walk_read [OF ok m]) (auto simp: KGetKaddr_def z)
    with assms(6) show ?thesis by simp
  qed
qed

theorem UvmInit_maps_wrong_page_witness:
  "\<exists>s' s''. MapPages 0x80500000 0 PGSIZE 0x1000 (PTE_W OR PTE_R OR PTE_X OR PTE_U) small = Inr (0, s') \<and>
     KGetKaddr 0x80500000 0 s' = Inr (4096, s'')"
proof -
  let ?perm = "PTE_W OR PTE_R OR PTE_X OR PTE_U"
  have r: "PGROUNDDOWN 0xfff = 0" "PGROUNDDOWN 0 = 0"
    by (simp_all add: PGROUNDDOWN_def PGSIZE_def)
  have m: "(0 :: u64) < MAXVA" by (simp add: MAXVA_def)
  have c: "case MapPages 0x80500000 0 PGSIZE 0x1000 ?perm small of Inl e \<Rightarrow> False | Inr (k, s') \<Rightarrow>
      k = 0 \<and> (\<exists>zs. grown 2 0x80500000 small small_pool s' zs) \<and>
      entry 2 (ram s') 0x80500000 0 = mapped PGSIZE ?perm"
    using MapPages_correct [OF small_ok, where va = 0 and sz = "0x1000" and paddr = PGSIZE and perm = ?perm]
      small_entry m
    by (cases "MapPages 0x80500000 0 PGSIZE 0x1000 ?perm small")
       (auto simp: r npages_of_def PGSIZE_def split: if_splits dest!: spec [of _ 0])
  then obtain s' zs where s': "MapPages 0x80500000 0 PGSIZE 0x1000 ?perm small = Inr (0, s')"
    and g: "grown 2 0x80500000 small small_pool s' zs" and e: "entry 2 (ram s') 0x80500000 0 = mapped PGSIZE ?perm"
    by (cases "MapPages 0x80500000 0 PGSIZE 0x1000 ?perm small") auto
  have "mapped PGSIZE ?perm \<noteq> 0"
    by (rule mapped_page(2)) (simp_all add: PGSIZE_def PTE_W_def PTE_R_def PTE_X_def PTE_U_def)
  then obtain pa where k: "KGetKaddr 0x80500000 0 s' = Inr (pa, s')"
    using KGetKaddr_entry [of s' "0x80500000" zs 0] g e m unfolding grown_def by auto
  have "pa = 4096"
    by (rule UvmInit_maps_wrong_page [OF small_ok small_entry _ _ s' k]) (simp_all add: PHYSTOP_def)
  with k s' show ?thesis by blast
qed

end
