(* ===== verification/File.thy ===== *)
theory File
  imports Vm
begin

text \<open>
  Open files: the table of \<open>fs/vfs.cpp\<close> with its allocation, reference counting and rewinding,
  and the second table of \<open>fs/file.cpp\<close>.
\<close>

section \<open>State\<close>

datatype file_type = FD_NONE | FD_PIPE | FD_ENTRY | FD_DEVICE

text \<open>
  \<open>struct file\<close> (fs/file.h): \<open>f_path\<close> is the address of the array \<open>filepath\<close>, whose bytes
  are in memory, \<open>f_pip\<close> the address of the pipe.
\<close>

record kfile =
  f_path :: u64
  f_directory :: int
  f_size :: u64
  f_ref :: int
  f_readable :: int
  f_writable :: int
  f_type :: file_type
  f_pip :: u64
  f_location :: u64
  f_position :: u64

definition zero_file :: kfile where
  "zero_file = \<lparr>f_path = 0, f_directory = 0, f_size = 0, f_ref = 0, f_readable = 0,
     f_writable = 0, f_type = FD_NONE, f_pip = 0, f_location = 0, f_position = 0\<rparr>"

text \<open>What \<open>memset\<close> makes of one entry, and of the paths of the first \<open>n\<close> entries of a table.\<close>

definition clear_file :: "kfile \<Rightarrow> kfile" where
  "clear_file f = zero_file\<lparr>f_path := f_path f\<rparr>"

fun clear_paths :: "(nat \<Rightarrow> kfile) \<Rightarrow> nat \<Rightarrow> mem \<Rightarrow> mem" where
  "clear_paths t 0 m = m"
| "clear_paths t (Suc n) m = memset (clear_paths t n m) (f_path (t n)) 0 (word_of_nat MAXPATH)"

definition zero_table :: "nat \<Rightarrow> kfile" where
  "zero_table i = zero_file"

text \<open>\<open>fileTable\<close> is the table of vfs.cpp, \<open>ftable\<close> the one of file.cpp.\<close>

record file_state = vm_state +
  fileTable :: "nat \<Rightarrow> kfile"
  ftable :: "nat \<Rightarrow> kfile"

section \<open>Operations\<close>

definition fileInit :: "u64 \<Rightarrow> 'a file_state_scheme \<Rightarrow> 'a file_state_scheme" where
  "fileInit nm s =
     (let s = initlock L_ftable nm 9 s
      in s\<lparr>ram := clear_paths (ftable s) NFILE (ram s),
           ftable := (\<lambda>i. if i < NFILE then clear_file (ftable s i) else ftable s i)\<rparr>)"

definition filealloc :: "'a file_state_scheme \<Rightarrow> (nat option \<times> 'a file_state_scheme) res" where
  "filealloc s =
     bnd (acquire L_ftable s) (\<lambda>s.
       case first_from (\<lambda>i. f_ref (ftable s i) = 0) NFILE 0 of
         Some i \<Rightarrow>
           (let s = s\<lparr>ftable := (ftable s)(i := (ftable s i)\<lparr>f_ref := 1\<rparr>)\<rparr>
            in bnd (release L_ftable s) (\<lambda>s. Inr (Some i, s)))
       | None \<Rightarrow> bnd (release L_ftable s) (\<lambda>s. Inr (None, s)))"

text \<open>The reference is counted after the lock is released.\<close>

definition allocFileHandle :: "'a file_state_scheme \<Rightarrow> (nat \<times> 'a file_state_scheme) res" where
  "allocFileHandle s =
     bnd (acquire L_filetable s) (\<lambda>s.
       case first_from (\<lambda>i. f_ref (fileTable s i) = 0 \<and> f_type (fileTable s i) = FD_NONE) NFILE 0 of
         Some i \<Rightarrow>
           bnd (release L_filetable s) (\<lambda>s.
             Inr (i, s\<lparr>fileTable := (fileTable s)(i := (fileTable s i)\<lparr>f_ref := 1\<rparr>)\<rparr>))
       | None \<Rightarrow> Inl (Panic ''alloc file''))"

definition freeFileHandle :: "nat \<Rightarrow> 'a file_state_scheme \<Rightarrow> 'a file_state_scheme" where
  "freeFileHandle fp s =
     s\<lparr>ram := memset (ram s) (f_path (fileTable s fp)) 0 (word_of_nat MAXPATH),
       fileTable := (fileTable s)(fp := (clear_file (fileTable s fp))\<lparr>f_type := FD_NONE\<rparr>)\<rparr>"

definition vfsdup :: "nat \<Rightarrow> 'a file_state_scheme \<Rightarrow> (nat \<times> 'a file_state_scheme) res" where
  "vfsdup fp s =
     bnd (acquire L_filetable s) (\<lambda>s.
       if f_ref (fileTable s fp) < 1 then Inl (Panic ''vfsdup'')
       else let s = s\<lparr>fileTable := (fileTable s)(fp := (fileTable s fp)\<lparr>f_ref := f_ref (fileTable s fp) + 1\<rparr>)\<rparr>
         in bnd (release L_filetable s) (\<lambda>s. Inr (fp, s)))"

definition vfsrewind :: "nat \<Rightarrow> 'a file_state_scheme \<Rightarrow> (nat \<times> 'a file_state_scheme) res" where
  "vfsrewind fp s =
     bnd (acquire L_filetable s) (\<lambda>s.
       if f_ref (fileTable s fp) < 1 then Inl (Panic ''filerewind'')
       else let s = s\<lparr>fileTable := (fileTable s)(fp := (fileTable s fp)\<lparr>f_position := 0\<rparr>)\<rparr>
         in bnd (release L_filetable s) (\<lambda>s. Inr (fp, s)))"

text \<open>The body of \<open>vfsclose\<close> is empty: nothing is ever given back.\<close>

definition vfsclose :: "nat option \<Rightarrow> 'a file_state_scheme \<Rightarrow> 'a file_state_scheme" where
  "vfsclose fp s = s"

section \<open>Lemmas\<close>

lemma table_in_section [simp]:
  "fileTable (in_section l s) = fileTable s" "ftable (in_section l s) = ftable s"
  by (simp_all add: in_section_def)

lemma table_masked [simp]: "fileTable (masked s) = fileTable s" "ftable (masked s) = ftable s"
  by (simp_all add: masked_def)

text \<open>What the critical section does to the table commutes with leaving it.\<close>

lemma masked_upd [simp]:
  "masked (s\<lparr>fileTable := t\<rparr>) = (masked s)\<lparr>fileTable := t\<rparr>"
  "masked (s\<lparr>ftable := t\<rparr>) = (masked s)\<lparr>ftable := t\<rparr>"
  by (simp_all add: masked_def hart_defs)

lemma in_section_upd:
  "(in_section l s)\<lparr>fileTable := t\<rparr> = in_section l (s\<lparr>fileTable := t\<rparr>)"
  "(in_section l s)\<lparr>ftable := t\<rparr> = in_section l (s\<lparr>ftable := t\<rparr>)"
  by (simp_all add: in_section_def hart_defs)

lemma ready_upd [simp]:
  "ready l (s\<lparr>fileTable := t\<rparr>) = ready l s" "ready l (s\<lparr>ftable := t\<rparr>) = ready l s"
  by (simp_all add: ready_def quiet_def lock_free_def hart_defs)

lemma ready_section:
  "ready l s \<Longrightarrow> acquire l s = Inr (in_section l s)"
  "ready l s \<Longrightarrow> release l (in_section l s) = Inr (masked s)"
  by (simp_all add: ready_def acquire_free release_in_section)

definition slot_free :: "'a file_state_scheme \<Rightarrow> nat \<Rightarrow> bool" where
  "slot_free s i \<longleftrightarrow> f_ref (fileTable s i) = 0 \<and> f_type (fileTable s i) = FD_NONE"

lemma allocFileHandle_ready:
  assumes "ready L_filetable s"
  shows "allocFileHandle s =
    (case first_from (slot_free s) NFILE 0 of
       Some i \<Rightarrow> Inr (i, (masked s)\<lparr>fileTable := (fileTable s)(i := (fileTable s i)\<lparr>f_ref := 1\<rparr>)\<rparr>)
     | None \<Rightarrow> Inl (Panic ''alloc file''))"
  using assms
  by (simp add: allocFileHandle_def ready_section slot_free_def [abs_def] split: option.splits)

lemma vfsdup_ready:
  assumes "ready L_filetable s" "1 \<le> f_ref (fileTable s fp)"
  shows "vfsdup fp s = Inr (fp, (masked s)\<lparr>fileTable :=
           (fileTable s)(fp := (fileTable s fp)\<lparr>f_ref := f_ref (fileTable s fp) + 1\<rparr>)\<rparr>)"
  using assms by (simp add: vfsdup_def ready_section Let_def in_section_upd)



definition fresh_files :: "file_state" where
  "fresh_files = \<lparr>ram = (\<lambda>_. 0), tp = 0, sie = True,
     cpus = (\<lambda>_. \<lparr>cproc = None, noff = 0, intena = False\<rparr>),
     locks = (\<lambda>_. \<lparr>locked = 0, lname = 0, lcpu = None\<rparr>),
     freelist = 0, npages = 0, kernel_end = 0x80500000,
     kern_pagetable = 0, etext = 0x80100000, trampoline = 0x80080000,
     fileTable = zero_table, ftable = zero_table\<rparr>"


end
