(* ===== verification/Proc.thy ===== *)
theory Proc
  imports File
begin

text \<open>
  Processes, \<open>proc/proc.cpp\<close> and \<open>proc/proc.h\<close>: the process table, allocation, scheduling, sleeping
  and waking, \<open>fork\<close>, \<open>wait\<close>, and the table of open files of a process; also the copies of
  \<open>mm/vm.cpp\<close> that go through the current process. \<open>exit\<close>, which needs
  the file systems, is in \<open>Exec\<close>, and \<open>forkret\<close> in \<open>Trap\<close>.

  The switch of contexts is assembly: it is an argument of the operations that reach it.
\<close>

unbundle bit_operations_syntax

section \<open>State\<close>

text \<open>\<open>struct context\<close>: the registers saved by \<open>pswitch\<close>.\<close>

record kcontext =
  c_ra :: u64
  c_sp :: u64
  c_s :: "u64 list"

definition zero_context :: kcontext where
  "zero_context = \<lparr>c_ra = 0, c_sp = 0, c_s = replicate 12 0\<rparr>"

record vma =
  v_addr :: u64
  v_length :: u32
  v_prot :: u32
  v_flag :: u32
  v_f :: "nat option"

definition zero_vma :: vma where
  "zero_vma = \<lparr>v_addr = 0, v_length = 0, v_prot = 0, v_flag = 0, v_f = None\<rparr>"

definition NVMA :: nat where "NVMA = 15"

datatype procstate = UNUSED | SLEEPING | RUNNABLE | RUNNING | ZOMBIE

text \<open>
  What a process sleeps on: the address of a process, of \<open>ticks\<close>, of a sleep lock, of the counters of
  a pipe, of the read index of the console, of the DMA controller, of the read index of the serial port.
\<close>

datatype chan = Ch_null | Ch_proc nat | Ch_ticks | Ch_sleeplock nat | Ch_nread nat | Ch_nwrite nat
  | Ch_console | Ch_dma | Ch_uart

definition proc_chan :: "nat option \<Rightarrow> chan" where
  "proc_chan p = (case p of None \<Rightarrow> Ch_null | Some i \<Rightarrow> Ch_proc i)"

text \<open>
  \<open>struct proc\<close>. Pointers to processes, files and areas are indices of their tables; \<open>p_workDir\<close> and
  \<open>p_name\<close> are the addresses of the two arrays of the struct, whose bytes are in memory, and
  \<open>p_trapframe\<close> is the address of the trap frame. The lock is \<open>L_proc i\<close>.
\<close>

record kproc =
  p_state :: procstate
  p_parent :: "nat option"
  p_chan :: chan
  p_killed :: int
  p_xstate :: u32
  p_pid :: int
  p_kstack :: u64
  p_sz :: u64
  p_pagetable :: u64
  p_kpagetable :: u64
  p_mticks :: u32
  p_uticks :: u32
  p_trapframe :: u64
  p_context :: kcontext
  p_vma :: "nat \<Rightarrow> nat option"
  p_ofile :: "nat \<Rightarrow> nat option"
  p_workDir :: u64
  p_name :: u64
  p_tmask :: u32

text \<open>
  \<open>proc_below\<close> is the outcome of comparing the addresses of two global arrays, the test of the loop in
  \<open>allocproc\<close>; \<open>stack_base\<close> and \<open>forkret_addr\<close> are addresses the linker chooses.
\<close>

record proc_state = file_state +
  procTable :: "nat \<Rightarrow> kproc"
  vmas :: "nat \<Rightarrow> vma"
  initproc :: "nat option"
  cpu_context :: "nat \<Rightarrow> kcontext"
  ticks :: u32
  proc_below :: bool
  stack_base :: u64
  forkret_addr :: u64

definition upd_proc :: "nat \<Rightarrow> (kproc \<Rightarrow> kproc) \<Rightarrow> 'a proc_state_scheme \<Rightarrow> 'a proc_state_scheme" where
  "upd_proc i f s = s\<lparr>procTable := (procTable s)(i := f (procTable s i))\<rparr>"

text \<open>The current process, where the source follows the pointer without a test.\<close>

definition myproc :: "'a proc_state_scheme \<Rightarrow> (nat \<times> 'a proc_state_scheme) res" where
  "myproc s = bnd (curproc s) (\<lambda>(p, s). case p of None \<Rightarrow> null_deref | Some i \<Rightarrow> Inr (i, s))"

text \<open>Offsets in \<open>struct trapframe\<close> (trap/trap.h).\<close>

definition TF_kernel_satp :: u64 where "TF_kernel_satp = 0"
definition TF_kernel_sp :: u64 where "TF_kernel_sp = 8"
definition TF_kernel_trap :: u64 where "TF_kernel_trap = 16"
definition TF_epc :: u64 where "TF_epc = 24"
definition TF_kernel_hartid :: u64 where "TF_kernel_hartid = 32"
definition TF_sp :: u64 where "TF_sp = 48"
definition TF_a :: "nat \<Rightarrow> u64" where "TF_a n = 112 + 8 * word_of_nat n"
definition TF_size :: u32 where "TF_size = 288"

section \<open>Initialisation\<close>

definition KSTACK_SIZE :: u64 where "KSTACK_SIZE = PGSIZE * 2"

fun initProcTable_loop :: "nat \<Rightarrow> nat \<Rightarrow> u64 \<Rightarrow> 'a proc_state_scheme \<Rightarrow> 'a proc_state_scheme" where
  "initProcTable_loop 0 i nm s = s"
| "initProcTable_loop (Suc n) i nm s =
     (let s = initlock (L_proc i) nm 4 s;
          s = upd_proc i (\<lambda>p. p\<lparr>p_pid := int i, p_kstack := stack_base s + KSTACK_SIZE * word_of_nat i,
                p_trapframe := 0, p_state := UNUSED, p_killed := 0, p_xstate := 0, p_sz := 0,
                p_mticks := 0, p_vma := (\<lambda>k. if k < NOMMAPFILE then None else p_vma p k),
                p_uticks := 0\<rparr>) s;
          s = s\<lparr>ram := memset (ram s) (p_workDir (procTable s i)) 0 (word_of_nat MAXPATH)\<rparr>;
          s = upd_proc i (\<lambda>p. p\<lparr>p_ofile := (\<lambda>k. if k < NOFILE then None else p_ofile p k)\<rparr>) s
      in initProcTable_loop n (Suc i) nm s)"

definition initProcTable :: "u64 \<Rightarrow> 'a proc_state_scheme \<Rightarrow> 'a proc_state_scheme" where
  "initProcTable nm s = initProcTable_loop NPROC 0 nm s"

fun procinit_loop :: "nat \<Rightarrow> nat \<Rightarrow> u64 \<Rightarrow> 'a proc_state_scheme \<Rightarrow> 'a proc_state_scheme" where
  "procinit_loop 0 i nm s = s"
| "procinit_loop (Suc n) i nm s = procinit_loop n (Suc i) nm (initlock (L_proc_array i) nm 4 s)"

text \<open>The locks initialised here are those of the array \<open>proc\<close>, which nothing else uses.\<close>

definition procinit :: "u64 \<Rightarrow> u64 \<Rightarrow> 'a proc_state_scheme \<Rightarrow> 'a proc_state_scheme" where
  "procinit nm_pid nm_proc s =
     (let s = initlock L_pid nm_pid 7 s;
          s = procinit_loop NPROC 0 nm_proc s
      in s\<lparr>cpus := (\<lambda>c. if c < 2 then \<lparr>cproc = None, noff = 0, intena = False\<rparr> else cpus s c),
           cpu_context := (\<lambda>c. if c < 2 then zero_context else cpu_context s c)\<rparr>)"

section \<open>Allocation\<close>

definition proc_pagetable :: "nat \<Rightarrow> 'a proc_state_scheme \<Rightarrow> (u64 \<times> 'a proc_state_scheme) res option" where
  "proc_pagetable p s =
     opt_bnd (Some (Uvmcreate s)) (\<lambda>(pagetable, s).
       if pagetable = 0 then Some (Inr (0, s))
       else opt_bnd (Some (MapPages pagetable TRAMPOLINE PGSIZE (trampoline s) (PTE_R OR PTE_X) s)) (\<lambda>(r, s).
         if r < 0 then opt_bnd (Uvmfree pagetable 0 s) (\<lambda>s. Some (Inr (0, s)))
         else opt_bnd (Some (MapPages pagetable TRAPFRAME PGSIZE (p_trapframe (procTable s p)) (PTE_R OR PTE_W) s)) (\<lambda>(r, s).
           if r < 0 then
             opt_bnd (Some (vmunmap pagetable TRAMPOLINE 1 False s)) (\<lambda>s.
             opt_bnd (Uvmfree pagetable 0 s) (\<lambda>s. Some (Inr (0, s))))
           else Some (Inr (pagetable, s)))))"

text \<open>The search, with \<open>n\<close> slots left before the end of the table; past it the memory is not \<open>procTable\<close>.\<close>

fun allocproc_loop :: "nat \<Rightarrow> nat \<Rightarrow> 'a proc_state_scheme \<Rightarrow> (nat option \<times> 'a proc_state_scheme) res" where
  "allocproc_loop n p s =
     (if \<not> proc_below s then Inr (None, s)
      else case n of
        0 \<Rightarrow> Inl (Undef ''allocproc'')
      | Suc n \<Rightarrow>
          bnd (acquire (L_proc p) s) (\<lambda>s.
            if p_state (procTable s p) = UNUSED then Inr (Some p, s)
            else bnd (release (L_proc p) s) (allocproc_loop n (Suc p))))"

declare allocproc_loop.simps [simp del]

definition allocproc :: "'a proc_state_scheme \<Rightarrow> (nat option \<times> 'a proc_state_scheme) res option" where
  "allocproc s =
     opt_bnd (Some (allocproc_loop (NPROC - 1) 1 s)) (\<lambda>(r, s).
       case r of None \<Rightarrow> Some (Inr (None, s))
       | Some p \<Rightarrow>
           opt_bnd (Some (kalloc s)) (\<lambda>(tf, s).
             let s = upd_proc p (\<lambda>q. q\<lparr>p_trapframe := tf\<rparr>) s in
             if tf = 0 then Some (bnd (release (L_proc p) s) (\<lambda>s. Inr (None, s)))
             else opt_bnd (proc_pagetable p s) (\<lambda>(pt, s).
               let s = upd_proc p (\<lambda>q. q\<lparr>p_pagetable := pt, p_context := zero_context\<rparr>) s;
                   s = s\<lparr>ram := memset (ram s) (p_trapframe (procTable s p)) 0 TF_size\<rparr>;
                   s = upd_proc p (\<lambda>q. q\<lparr>p_context := (p_context q)
                          \<lparr>c_sp := p_kstack q + PGSIZE, c_ra := forkret_addr s\<rparr>\<rparr>) s
               in Some (bnd (release (L_proc p) s) (\<lambda>s. Inr (Some p, s))))))"

text \<open>\<open>initcode\<close> and \<open>nm\<close> are the addresses of the code array (52 bytes) and of the literal.\<close>

definition initFirstProc :: "u64 \<Rightarrow> u64 \<Rightarrow> 'a proc_state_scheme \<Rightarrow> 'a proc_state_scheme res option" where
  "initFirstProc initcode nm s =
     opt_bnd (allocproc s) (\<lambda>(r, s).
       case r of None \<Rightarrow> Some null_deref
       | Some p \<Rightarrow>
           opt_bnd (Some (UvmInit (p_pagetable (procTable s p)) (p_kpagetable (procTable s p)) initcode 52 s)) (\<lambda>s.
             let s = upd_proc p (\<lambda>q. q\<lparr>p_sz := PGSIZE\<rparr>) s;
                 tf = p_trapframe (procTable s p);
                 s = s\<lparr>ram := st64 (ram s) (tf + TF_epc) 0x40\<rparr>;
                 s = s\<lparr>ram := st64 (ram s) (tf + TF_sp) PGSIZE\<rparr>;
                 s = s\<lparr>ram := memmove (ram s) (p_name (procTable s p)) nm 16\<rparr>;
                 s = s\<lparr>ram := (ram s)(p_workDir (procTable s p) := 47)\<rparr>;
                 s = upd_proc p (\<lambda>q. q\<lparr>p_state := RUNNABLE\<rparr>) s
             in Some (Inr (s\<lparr>initproc := Some p\<rparr>))))"

section \<open>Scheduling\<close>

definition wakeup :: "chan \<Rightarrow> 'a proc_state_scheme \<Rightarrow> 'a proc_state_scheme" where
  "wakeup c s = s\<lparr>procTable := (\<lambda>i.
     let p = procTable s i in
     if i < NPROC \<and> p_state p = SLEEPING \<and> p_chan p = c then p\<lparr>p_state := RUNNABLE\<rparr> else p)\<rparr>"

text \<open>A context is that of a process or of a hart's scheduler.\<close>

datatype ctx = Ctx_proc nat | Ctx_cpu nat

type_synonym 'a switch = "ctx \<Rightarrow> ctx \<Rightarrow> 'a proc_state_scheme \<Rightarrow> 'a proc_state_scheme res"

definition prepareSched :: "'a switch \<Rightarrow> 'a proc_state_scheme \<Rightarrow> 'a proc_state_scheme res" where
  "prepareSched pswitch s =
     bnd (myproc s) (\<lambda>(p, s).
       if holding (L_proc p) s then Inl (Panic ''sched p->lock'')
       else if noff (curcpu s) \<noteq> 1 then Inl (Panic ''sched locks'')
       else if p_state (procTable s p) = RUNNING then Inl (Panic ''sched running'')
       else if intr_get s then Inl (Panic ''sched interruptible'')
       else
         let intr_enable = intena (curcpu s) in
         bnd (pswitch (Ctx_proc p) (Ctx_cpu (cpuid s)) s) (\<lambda>s.
           Inr (upd_curcpu (\<lambda>c. c\<lparr>intena := intr_enable\<rparr>) s)))"

definition yield :: "'a switch \<Rightarrow> 'a proc_state_scheme \<Rightarrow> 'a proc_state_scheme res" where
  "yield pswitch s =
     bnd (myproc s) (\<lambda>(p, s).
     bnd (acquire (L_proc p) s) (\<lambda>s.
     bnd (prepareSched pswitch (upd_proc p (\<lambda>q. q\<lparr>p_state := RUNNABLE\<rparr>) s)) (release (L_proc p))))"

definition sleep :: "'a switch \<Rightarrow> chan \<Rightarrow> lockid \<Rightarrow> 'a proc_state_scheme \<Rightarrow> 'a proc_state_scheme res" where
  "sleep pswitch c lk s =
     bnd (myproc s) (\<lambda>(p, s).
     bnd (if lk \<noteq> L_proc p then bnd (acquire (L_proc p) s) (release lk) else Inr s) (\<lambda>s.
     let s = upd_proc p (\<lambda>q. q\<lparr>p_chan := c, p_state := SLEEPING\<rparr>) s in
     bnd (prepareSched pswitch s) (\<lambda>s.
     let s = upd_proc p (\<lambda>q. q\<lparr>p_chan := Ch_null\<rparr>) s in
     if lk \<noteq> L_proc p then bnd (release (L_proc p) s) (acquire lk) else Inr s)))"

partial_function (option) sleepTime_loop ::
    "'a switch \<Rightarrow> u64 \<Rightarrow> u64 \<Rightarrow> 'a proc_state_scheme \<Rightarrow> 'a proc_state_scheme res option" where
  "sleepTime_loop pswitch now sleep_ticks s =
     (if ucast (ticks s) - now < sleep_ticks then
        (case sleep pswitch Ch_ticks L_ticks s of
           Inl e \<Rightarrow> Some (Inl e)
         | Inr s \<Rightarrow> sleepTime_loop pswitch now sleep_ticks s)
      else Some (Inr s))"

definition sleepTime :: "'a switch \<Rightarrow> u64 \<Rightarrow> 'a proc_state_scheme \<Rightarrow> 'a proc_state_scheme res option" where
  "sleepTime pswitch sleep_ticks s =
     (let now = ucast (ticks s) in
      opt_bnd (Some (acquire L_ticks s)) (\<lambda>s.
      opt_bnd (sleepTime_loop pswitch now sleep_ticks s) (\<lambda>s. Some (release L_ticks s))))"

text \<open>One turn of the inner loop of \<open>scheduler\<close>, and one round over the table; \<open>alive\<close> is the count so far.\<close>

definition scheduler_slot ::
    "'a switch \<Rightarrow> nat \<Rightarrow> int \<Rightarrow> 'a proc_state_scheme \<Rightarrow> (int \<times> 'a proc_state_scheme) res" where
  "scheduler_slot pswitch i alive s =
     bnd (acquire (L_proc i) s) (\<lambda>s.
       let st = p_state (procTable s i);
           alive = (if st \<noteq> UNUSED \<and> st \<noteq> ZOMBIE then alive + 1 else alive);
           s = (if st = ZOMBIE then wakeup (proc_chan (initproc s)) s else s)
       in bnd (if p_state (procTable s i) = RUNNABLE then
                 let s = upd_proc i (\<lambda>p. p\<lparr>p_state := RUNNING\<rparr>) s;
                     s = upd_curcpu (\<lambda>c. c\<lparr>cproc := Some i\<rparr>) s
                 in bnd (pswitch (Ctx_cpu (cpuid s)) (Ctx_proc i) s) (\<lambda>s.
                      Inr (upd_curcpu (\<lambda>c. c\<lparr>cproc := None\<rparr>) s))
               else Inr s)
           (\<lambda>s. bnd (release (L_proc i) s) (\<lambda>s. Inr (alive, s))))"

fun scheduler_scan ::
    "'a switch \<Rightarrow> nat \<Rightarrow> nat \<Rightarrow> int \<Rightarrow> 'a proc_state_scheme \<Rightarrow> (int \<times> 'a proc_state_scheme) res" where
  "scheduler_scan pswitch 0 i alive s = Inr (alive, s)"
| "scheduler_scan pswitch (Suc n) i alive s =
     bnd (scheduler_slot pswitch i alive s) (\<lambda>(alive, s). scheduler_scan pswitch n (Suc i) alive s)"

text \<open>\<open>scheduler\<close> repeats this for ever after setting \<open>c->proc\<close> to \<open>NULL\<close>; \<open>wfi\<close> changes no state of the model.\<close>

definition scheduler_round :: "'a switch \<Rightarrow> 'a proc_state_scheme \<Rightarrow> 'a proc_state_scheme res" where
  "scheduler_round pswitch s =
     bnd (scheduler_scan pswitch NPROC 0 0 (intr_on s)) (\<lambda>(alive, s).
       Inr (if alive \<le> 2 then intr_on s else s))"

partial_function (option) scheduler_loop :: "'a switch \<Rightarrow> 'a proc_state_scheme \<Rightarrow> stop option" where
  "scheduler_loop pswitch s =
     (case scheduler_round pswitch s of Inl e \<Rightarrow> Some e | Inr s \<Rightarrow> scheduler_loop pswitch s)"

definition scheduler :: "'a switch \<Rightarrow> 'a proc_state_scheme \<Rightarrow> stop option" where
  "scheduler pswitch s = scheduler_loop pswitch (upd_curcpu (\<lambda>c. c\<lparr>cproc := None\<rparr>) s)"


section \<open>Areas\<close>

definition allocVma :: "'a proc_state_scheme \<Rightarrow> nat option" where
  "allocVma s = first_from (\<lambda>a. v_f (vmas s a) = None) NVMA 0"

definition freeVma :: "nat \<Rightarrow> 'a proc_state_scheme \<Rightarrow> 'a proc_state_scheme" where
  "freeVma a s = s\<lparr>vmas := (vmas s)(a := zero_vma)\<rparr>"

section \<open>Fork and clone\<close>

text \<open>The loops over the open files and the areas; \<open>n\<close> entries are left from \<open>i\<close>.\<close>

fun copy_ofile :: "nat \<Rightarrow> nat \<Rightarrow> nat \<Rightarrow> nat \<Rightarrow> 'a proc_state_scheme \<Rightarrow> 'a proc_state_scheme res" where
  "copy_ofile 0 i p child s = Inr s"
| "copy_ofile (Suc n) i p child s =
     (case p_ofile (procTable s p) i of
        None \<Rightarrow> copy_ofile n (Suc i) p child s
      | Some f \<Rightarrow>
          bnd (vfsdup f s) (\<lambda>(f, s).
            copy_ofile n (Suc i) p child (upd_proc child (\<lambda>q. q\<lparr>p_ofile := (p_ofile q)(i := Some f)\<rparr>) s)))"

fun copy_vma :: "nat \<Rightarrow> nat \<Rightarrow> nat \<Rightarrow> nat \<Rightarrow> 'a proc_state_scheme \<Rightarrow> 'a proc_state_scheme res" where
  "copy_vma 0 i p child s = Inr s"
| "copy_vma (Suc n) i p child s =
     (let v = p_vma (procTable s p) i;
          s = upd_proc child (\<lambda>q. q\<lparr>p_vma := (p_vma q)(i := None)\<rparr>) s
      in case v of
           None \<Rightarrow> copy_vma n (Suc i) p child s
         | Some v \<Rightarrow>
             (case allocVma s of
                None \<Rightarrow> null_deref
              | Some c \<Rightarrow>
                  let s = s\<lparr>vmas := (vmas s)(c := vmas s v)\<rparr> in
                  (case v_f (vmas s v) of
                     None \<Rightarrow> null_deref
                   | Some f \<Rightarrow>
                       bnd (vfsdup f s) (\<lambda>(_, s).
                         copy_vma n (Suc i) p child
                           (upd_proc child (\<lambda>q. q\<lparr>p_vma := (p_vma q)(i := Some c)\<rparr>) s)))))"

text \<open>\<open>strlen\<close> of memory without a zero byte does not return.\<close>

definition copy_string :: "u64 \<Rightarrow> u64 \<Rightarrow> 'a proc_state_scheme \<Rightarrow> 'a proc_state_scheme res" where
  "copy_string dst src s =
     (case strlen (ram s) src of None \<Rightarrow> Inl (Hang ''strlen'')
      | Some n \<Rightarrow> Inr (s\<lparr>ram := safestrcpy (ram s) dst src (int n + 1)\<rparr>))"

text \<open>
  The common text of \<open>fork\<close> and \<open>clone\<close>: \<open>clone\<close> also sets the child's stack pointer before the
  child becomes runnable. The 17 bytes of the name are one more than the array has.
\<close>

definition copy_process :: "u64 option \<Rightarrow> 'a proc_state_scheme \<Rightarrow> (int \<times> 'a proc_state_scheme) res option" where
  "copy_process stack s =
     opt_bnd (Some (curproc s)) (\<lambda>(p, s).
     opt_bnd (allocproc s) (\<lambda>(child, s).
       case child of None \<Rightarrow> Some (Inr (- 1, s))
       | Some child \<Rightarrow> (case p of None \<Rightarrow> Some null_deref | Some p \<Rightarrow>
           opt_bnd (Some (Uvmcopy (p_pagetable (procTable s p)) (p_pagetable (procTable s child))
                            (p_kpagetable (procTable s child)) (p_sz (procTable s p)) s)) (\<lambda>(r, s).
           if r < 0 then Some (Inr (- 1, s))
           else
             let s = upd_proc child (\<lambda>q. q\<lparr>p_sz := p_sz (procTable s p), p_parent := Some p\<rparr>) s;
                 ctf = p_trapframe (procTable s child); ptf = p_trapframe (procTable s p);
                 s = s\<lparr>ram := memmove (ram s) ctf ptf TF_size\<rparr>;
                 s = s\<lparr>ram := st64 (ram s) (ctf + TF_a 0) 0\<rparr> in
             opt_bnd (Some (copy_ofile NOFILE 0 p child s)) (\<lambda>s.
             opt_bnd (Some (copy_vma NOMMAPFILE 0 p child s)) (\<lambda>s.
             opt_bnd (Some (copy_string (p_workDir (procTable s child)) (p_workDir (procTable s p)) s)) (\<lambda>s.
               let s = s\<lparr>ram := safestrcpy (ram s) (p_name (procTable s child)) (p_name (procTable s p)) 17\<rparr>;
                   s = (case stack of None \<Rightarrow> s
                        | Some sp \<Rightarrow> s\<lparr>ram := st64 (ram s) (ctf + TF_sp) sp\<rparr>);
                   s = upd_proc child (\<lambda>q. q\<lparr>p_state := RUNNABLE\<rparr>) s
               in Some (Inr (p_pid (procTable s child), s)))))))))"

definition fork :: "'a proc_state_scheme \<Rightarrow> (int \<times> 'a proc_state_scheme) res option" where
  "fork s = copy_process None s"

definition clone :: "u64 \<Rightarrow> int \<Rightarrow> 'a proc_state_scheme \<Rightarrow> (int \<times> 'a proc_state_scheme) res option" where
  "clone stack flags s = copy_process (Some stack) s"

text \<open>The local \<open>sz\<close> is a 32-bit \<open>uint\<close>.\<close>

definition growproc :: "int \<Rightarrow> 'a proc_state_scheme \<Rightarrow> (int \<times> 'a proc_state_scheme) res" where
  "growproc n s =
     bnd (myproc s) (\<lambda>(p, s).
       let sz = ucast (p_sz (procTable s p)) :: u32;
           pt = p_pagetable (procTable s p); kpt = p_kpagetable (procTable s p) in
       if n > 0 then
         bnd (Uvmalloc pt kpt (ucast sz) (ucast (sz + word_of_int n)) s) (\<lambda>(r, s).
           let sz = ucast r :: u32 in
           if sz = 0 then Inr (- 1, s) else Inr (0, upd_proc p (\<lambda>q. q\<lparr>p_sz := ucast sz\<rparr>) s))
       else if n < 0 then
         bnd (UvmDealloc pt kpt (ucast sz) (ucast (sz + word_of_int n)) s) (\<lambda>(r, s).
           let sz = ucast r :: u32 in Inr (0, upd_proc p (\<lambda>q. q\<lparr>p_sz := ucast sz\<rparr>) s))
       else Inr (0, upd_proc p (\<lambda>q. q\<lparr>p_sz := ucast sz\<rparr>) s))"

section \<open>Freeing and waiting\<close>

definition freeProcPagetable :: "u64 \<Rightarrow> u64 \<Rightarrow> 'a proc_state_scheme \<Rightarrow> 'a proc_state_scheme res option" where
  "freeProcPagetable pagetable sz s =
     opt_bnd (Some (vmunmap pagetable TRAMPOLINE 1 False s)) (\<lambda>s.
     opt_bnd (Some (vmunmap pagetable TRAPFRAME 1 False s)) (\<lambda>s.
       Uvmfree pagetable sz s))"

definition freeproc :: "nat \<Rightarrow> 'a proc_state_scheme \<Rightarrow> 'a proc_state_scheme res option" where
  "freeproc p s =
     opt_bnd (Some (if p_trapframe (procTable s p) \<noteq> 0 then kfree (p_trapframe (procTable s p)) s else Inr s)) (\<lambda>s.
     let s = upd_proc p (\<lambda>q. q\<lparr>p_trapframe := 0\<rparr>) s in
     opt_bnd (if p_pagetable (procTable s p) \<noteq> 0
              then freeProcPagetable (p_pagetable (procTable s p)) (p_sz (procTable s p)) s
              else Some (Inr s)) (\<lambda>s.
     let s = upd_proc p (\<lambda>q. q\<lparr>p_vma := (\<lambda>k. if k < NOMMAPFILE then None else p_vma q k),
               p_pagetable := 0, p_sz := 0\<rparr>) s;
         s = s\<lparr>ram := (ram s)(p_name (procTable s p) := 0)\<rparr>;
         s = upd_proc p (\<lambda>q. q\<lparr>p_chan := Ch_null, p_killed := 0, p_xstate := 0, p_state := UNUSED,
               p_parent := None\<rparr>) s
     in Some (Inr s)))"

text \<open>
  \<open>xstate_addr i\<close> is the address of \<open>procTable[i].xstate\<close>, which \<open>copyout\<close> reads: the value is put
  there for the copy.
\<close>

definition copyout_xstate ::
    "(nat \<Rightarrow> u64) \<Rightarrow> u64 \<Rightarrow> u64 \<Rightarrow> nat \<Rightarrow> 'a proc_state_scheme \<Rightarrow> (int \<times> 'a proc_state_scheme) res" where
  "copyout_xstate xstate_addr pagetable vaddr child s =
     copyout pagetable vaddr (xstate_addr child) 4
       (s\<lparr>ram := st32 (ram s) (xstate_addr child) (p_xstate (procTable s child))\<rparr>)"

text \<open>What reaping one child gives: the call returns, or the child is not a zombie.\<close>

definition reap ::
    "(nat \<Rightarrow> u64) \<Rightarrow> u64 \<Rightarrow> nat \<Rightarrow> nat \<Rightarrow> int \<Rightarrow> 'a proc_state_scheme \<Rightarrow> (int \<times> 'a proc_state_scheme) res option" where
  "reap xstate_addr vaddr p child pid s =
     (let leave = (\<lambda>r s. Some (bnd (release (L_proc child) s) (\<lambda>s.
                              bnd (release (L_proc p) s) (\<lambda>s. Inr (r, s)))))
      in opt_bnd (Some (if vaddr \<noteq> 0 then copyout_xstate xstate_addr (p_pagetable (procTable s p)) vaddr child s
                       else Inr (0, s))) (\<lambda>(r, s).
           if r < 0 then leave (- 1) s
           else opt_bnd (freeproc child s) (leave pid)))"

text \<open>The inner loop of \<open>wait\<close>: \<open>Inl\<close> a return value, or \<open>Inr\<close> whether there was a child.\<close>

fun wait_scan ::
    "(nat \<Rightarrow> u64) \<Rightarrow> u64 \<Rightarrow> nat \<Rightarrow> nat \<Rightarrow> nat \<Rightarrow> bool \<Rightarrow> 'a proc_state_scheme
       \<Rightarrow> ((int + bool) \<times> 'a proc_state_scheme) res option" where
  "wait_scan xa vaddr p 0 c hv s = Some (Inr (Inr hv, s))"
| "wait_scan xa vaddr p (Suc n) c hv s =
     (if p_parent (procTable s c) = Some p then
        opt_bnd (Some (acquire (L_proc c) s)) (\<lambda>s.
          if p_state (procTable s c) = ZOMBIE then
            opt_bnd (reap xa vaddr p c (p_pid (procTable s c)) s) (\<lambda>(r, s). Some (Inr (Inl r, s)))
          else opt_bnd (Some (release (L_proc c) s)) (wait_scan xa vaddr p n (Suc c) True))
      else wait_scan xa vaddr p n (Suc c) hv s)"

partial_function (option) wait_loop ::
    "'a switch \<Rightarrow> (nat \<Rightarrow> u64) \<Rightarrow> u64 \<Rightarrow> nat \<Rightarrow> 'a proc_state_scheme \<Rightarrow> (int \<times> 'a proc_state_scheme) res option" where
  "wait_loop pswitch xa vaddr p s =
     (case wait_scan xa vaddr p NPROC 0 False s of
        None \<Rightarrow> None
      | Some (Inl e) \<Rightarrow> Some (Inl e)
      | Some (Inr (Inl r, s)) \<Rightarrow> Some (Inr (r, s))
      | Some (Inr (Inr hv, s)) \<Rightarrow>
          (if \<not> hv then Some (Inr (- 1, s))
           else case bnd (myproc s) (\<lambda>(me, s). sleep pswitch (Ch_proc p) (L_proc me) s) of
                  Inl e \<Rightarrow> Some (Inl e)
                | Inr s \<Rightarrow> wait_loop pswitch xa vaddr p s))"

definition wait ::
    "'a switch \<Rightarrow> (nat \<Rightarrow> u64) \<Rightarrow> u64 \<Rightarrow> 'a proc_state_scheme \<Rightarrow> (int \<times> 'a proc_state_scheme) res option" where
  "wait pswitch xa vaddr s =
     opt_bnd (Some (myproc s)) (\<lambda>(p, s).
     opt_bnd (Some (acquire (L_proc p) s)) (\<lambda>s. wait_loop pswitch xa vaddr p s))"

partial_function (option) wait4_loop ::
    "'a switch \<Rightarrow> (nat \<Rightarrow> u64) \<Rightarrow> u64 \<Rightarrow> nat \<Rightarrow> nat \<Rightarrow> 'a proc_state_scheme \<Rightarrow> (int \<times> 'a proc_state_scheme) res option" where
  "wait4_loop pswitch xa vaddr p c s =
     (case acquire (L_proc c) s of
        Inl e \<Rightarrow> Some (Inl e)
      | Inr s \<Rightarrow>
          (let s = upd_proc c (\<lambda>q. q\<lparr>p_xstate := push_bit 8 (p_xstate q)\<rparr>) s in
           if p_state (procTable s c) = ZOMBIE then reap xa vaddr p c (int c) s
           else case bnd (release (L_proc c) s) (\<lambda>s.
                       bnd (myproc s) (\<lambda>(me, s). sleep pswitch (Ch_proc p) (L_proc me) s)) of
                  Inl e \<Rightarrow> Some (Inl e)
                | Inr s \<Rightarrow> wait4_loop pswitch xa vaddr p c s))"

text \<open>A negative \<open>pid\<close> is before the table.\<close>

definition wait4 ::
    "'a switch \<Rightarrow> (nat \<Rightarrow> u64) \<Rightarrow> int \<Rightarrow> u64 \<Rightarrow> 'a proc_state_scheme \<Rightarrow> (int \<times> 'a proc_state_scheme) res option" where
  "wait4 pswitch xa pid vaddr s =
     (if pid \<ge> int NPROC then Some (Inr (- 1, s))
      else if pid < 0 then Some (Inl (Undef ''wait4''))
      else opt_bnd (Some (curproc s)) (\<lambda>(p, s).
        let c = nat pid in
        opt_bnd (Some (acquire (L_proc c) s)) (\<lambda>s.
          if p_parent (procTable s c) \<noteq> p then Some (bnd (release (L_proc c) s) (\<lambda>s. Inr (- 1, s)))
          else opt_bnd (Some (release (L_proc c) s)) (\<lambda>s.
            case p of None \<Rightarrow> Some null_deref
            | Some p \<Rightarrow> opt_bnd (Some (acquire (L_proc p) s)) (\<lambda>s. wait4_loop pswitch xa vaddr p c s)))))"

section \<open>Copies to and from the caller\<close>

definition either_copyout :: "int \<Rightarrow> u64 \<Rightarrow> u64 \<Rightarrow> u64 \<Rightarrow> 'a proc_state_scheme \<Rightarrow> (int \<times> 'a proc_state_scheme) res" where
  "either_copyout user_dst dst src len s =
     bnd (curproc s) (\<lambda>(p, s).
       if user_dst \<noteq> 0 then
         (case p of None \<Rightarrow> null_deref | Some p \<Rightarrow> copyout (p_pagetable (procTable s p)) dst src len s)
       else Inr (0, s\<lparr>ram := memmove (ram s) dst src (ucast len)\<rparr>))"

definition either_copyin :: "u64 \<Rightarrow> int \<Rightarrow> u64 \<Rightarrow> u64 \<Rightarrow> 'a proc_state_scheme \<Rightarrow> (int \<times> 'a proc_state_scheme) res" where
  "either_copyin dst user_src src len s =
     bnd (curproc s) (\<lambda>(p, s).
       if user_src \<noteq> 0 then
         (case p of None \<Rightarrow> null_deref | Some p \<Rightarrow> copyin (p_pagetable (procTable s p)) dst src len s)
       else Inr (0, s\<lparr>ram := memmove (ram s) dst src (ucast len)\<rparr>))"

section \<open>Open files of a process\<close>

definition registFileHandle :: "nat \<Rightarrow> int \<Rightarrow> 'a proc_state_scheme \<Rightarrow> (int \<times> 'a proc_state_scheme) res" where
  "registFileHandle fp fd s =
     (if fd > int NFILE then Inr (- 1, s)
      else bnd (myproc s) (\<lambda>(p, s).
      bnd (acquire (L_proc p) s) (\<lambda>s.
        if fd < 0 then
          (case first_from (\<lambda>i. p_ofile (procTable s p) i = None) NOFILE 0 of
             Some i \<Rightarrow>
               (let s = upd_proc p (\<lambda>q. q\<lparr>p_ofile := (p_ofile q)(i := Some fp)\<rparr>) s
                in bnd (release (L_proc p) s) (\<lambda>s. Inr (int i, s)))
           | None \<Rightarrow> Inl (Panic ''registFileHandle''))
        else if p_ofile (procTable s p) (nat fd) = None then
          (let s = upd_proc p (\<lambda>q. q\<lparr>p_ofile := (p_ofile q)(nat fd := Some fp)\<rparr>) s
           in bnd (release (L_proc p) s) (\<lambda>s. Inr (fd, s)))
        else bnd (release (L_proc p) s) (\<lambda>s. Inr (- 1, s)))))"

definition getFileByFd :: "int \<Rightarrow> 'a proc_state_scheme \<Rightarrow> (nat option \<times> 'a proc_state_scheme) res" where
  "getFileByFd fd s =
     (if fd < 0 \<or> fd > int NOFILE then Inr (None, s)
      else bnd (myproc s) (\<lambda>(p, s).
      bnd (acquire (L_proc p) s) (\<lambda>s.
      bnd (myproc s) (\<lambda>(q, s).
        if fd = int NOFILE then Inl (Undef ''getFileByFd'')
        else let fp = p_ofile (procTable s q) (nat fd)
          in bnd (release (L_proc p) s) (\<lambda>s. Inr (fp, s))))))"

section \<open>Times\<close>

text \<open>\<open>struct tms\<close> (libs/time.h): four \<open>long\<close>, user, system, and those of the children.\<close>

fun procTimes_loop :: "nat \<Rightarrow> nat \<Rightarrow> nat option \<Rightarrow> u64 \<Rightarrow> 'a proc_state_scheme \<Rightarrow> 'a proc_state_scheme res" where
  "procTimes_loop 0 c p tm s = Inr s"
| "procTimes_loop (Suc n) c p tm s =
     bnd (acquire (L_proc c) s) (\<lambda>s.
       let q = procTable s c;
           s = (if p_parent q = p
                then let s = s\<lparr>ram := st64 (ram s) (tm + 16) (ld64 (ram s) (tm + 16) + scast (p_uticks q))\<rparr>
                     in s\<lparr>ram := st64 (ram s) (tm + 24) (ld64 (ram s) (tm + 24) + scast (p_mticks q))\<rparr>
                else s)
       in bnd (release (L_proc c) s) (procTimes_loop n (Suc c) p tm))"

definition procTimes :: "u64 \<Rightarrow> 'a proc_state_scheme \<Rightarrow> (int \<times> 'a proc_state_scheme) res" where
  "procTimes tm s =
     bnd (myproc s) (\<lambda>(p, s).
       let s = s\<lparr>ram := memset (ram s) tm 0 32\<rparr>;
           s = s\<lparr>ram := st64 (ram s) (tm + 8) (scast (p_mticks (procTable s p)))\<rparr>;
           s = s\<lparr>ram := st64 (ram s) tm (scast (p_uticks (procTable s p)))\<rparr>
       in bnd (procTimes_loop NPROC 0 (Some p) tm s) (\<lambda>s. Inr (0, s)))"

section \<open>Copies through the loaded address space (mm/vm.cpp)\<close>

text \<open>
  \<open>tr\<close> is the translation of the loaded page table, as the hardware walks it. The bytes move
  upwards; a user range does not overlap the kernel's.
\<close>

fun copy_bytes :: "(u64 \<Rightarrow> u64) \<Rightarrow> (u64 \<Rightarrow> u64) \<Rightarrow> nat \<Rightarrow> mem \<Rightarrow> u64 \<Rightarrow> u64 \<Rightarrow> mem" where
  "copy_bytes td ts 0 m d a = m"
| "copy_bytes td ts (Suc n) m d a = copy_bytes td ts n (m(td d := m (ts a))) (d + 1) (a + 1)"

definition copyout2 ::
    "(u64 \<Rightarrow> u64) \<Rightarrow> u64 \<Rightarrow> u64 \<Rightarrow> u64 \<Rightarrow> 'a proc_state_scheme \<Rightarrow> (int \<times> 'a proc_state_scheme) res" where
  "copyout2 tr dstva src len s =
     bnd (myproc s) (\<lambda>(p, s).
       let sz = p_sz (procTable s p) in
       if dstva + len > sz \<or> dstva \<ge> sz then Inr (- 1, s)
       else Inr (0, s\<lparr>ram := copy_bytes tr id (unat (ucast len :: u32)) (ram s) dstva src\<rparr>))"

definition copyin2 ::
    "(u64 \<Rightarrow> u64) \<Rightarrow> u64 \<Rightarrow> u64 \<Rightarrow> u64 \<Rightarrow> 'a proc_state_scheme \<Rightarrow> (int \<times> 'a proc_state_scheme) res" where
  "copyin2 tr dst srcvaddr len s =
     bnd (myproc s) (\<lambda>(p, s).
       let sz = p_sz (procTable s p) in
       if srcvaddr + len > sz \<or> srcvaddr > sz then Inr (- 1, s)
       else Inr (0, s\<lparr>ram := copy_bytes id tr (unat (ucast len :: u32)) (ram s) dst srcvaddr\<rparr>))"

text \<open>\<open>n\<close> counts down \<open>max\<close>.\<close>

fun copyinstr2_loop :: "(u64 \<Rightarrow> u64) \<Rightarrow> nat \<Rightarrow> u64 \<Rightarrow> mem \<Rightarrow> u64 \<Rightarrow> u64 \<Rightarrow> bool \<times> mem" where
  "copyinstr2_loop tr 0 sz m dst a = (False, m)"
| "copyinstr2_loop tr (Suc n) sz m dst a =
     (if a < sz then
        if m (tr a) = 0 then (True, m(dst := 0))
        else copyinstr2_loop tr n sz (m(dst := m (tr a))) (dst + 1) (a + 1)
      else (False, m))"

definition copyinstr2 ::
    "(u64 \<Rightarrow> u64) \<Rightarrow> u64 \<Rightarrow> u64 \<Rightarrow> u64 \<Rightarrow> 'a proc_state_scheme \<Rightarrow> (int \<times> 'a proc_state_scheme) res" where
  "copyinstr2 tr dst srcvaddr mx s =
     bnd (myproc s) (\<lambda>(p, s).
       case copyinstr2_loop tr (unat mx) (p_sz (procTable s p)) (ram s) dst srcvaddr of
         (got_null, m) \<Rightarrow> Inr (if got_null then 0 else - 1, s\<lparr>ram := m\<rparr>))"

end
