(* ===== verification/Proc_Facts.thy ===== *)
theory Proc_Facts
  imports Proc
begin

text \<open>
  What the operations of \<open>Proc\<close> do: the depth of interrupt disabling through them, which of them can
  return, the file descriptors, a turn of the scheduler.
\<close>

section \<open>Nesting\<close>

text \<open>The depth of interrupt disabling on this hart.\<close>

definition depth :: "'a hart_state_scheme \<Rightarrow> int" where
  "depth s = noff (curcpu s)"

lemma depth_upd [simp]:
  "depth (s\<lparr>ram := m\<rparr>) = depth s" "depth (s\<lparr>locks := k\<rparr>) = depth s" "depth (s\<lparr>sie := b\<rparr>) = depth s"
  by (simp_all add: depth_def hart_defs)

lemma depth_kmem_upd [simp]:
  "depth (s\<lparr>freelist := f\<rparr>) = depth s" "depth (s\<lparr>npages := n\<rparr>) = depth s"
  by (simp_all add: depth_def hart_defs)

lemma depth_proc_upd [simp]:
  "depth (s\<lparr>procTable := t\<rparr>) = depth s" "depth (s\<lparr>vmas := v\<rparr>) = depth s" "depth (upd_proc i f s) = depth s"
  by (simp_all add: depth_def hart_defs upd_proc_def)

lemma acquire_depth: "acquire l s = Inr s' \<Longrightarrow> depth s' = depth s + 1"
  by (auto simp: acquire_def Let_def depth_def push_off_def hart_defs split: if_splits)

lemma release_deep: "1 < depth s \<Longrightarrow> \<exists>e. release l s = Inl e"
  by (auto simp: release_def pop_off_def depth_def hart_defs)

lemma release_depth: "release l s = Inr s' \<Longrightarrow> depth s' = depth s - 1"
  by (auto simp: release_def pop_off_def depth_def hart_defs Let_def split: if_splits)

text \<open>Inside any critical section, pages can neither be taken nor given back.\<close>

lemma kalloc_nested: "0 < depth s \<Longrightarrow> \<exists>e. kalloc s = Inl e"
proof (cases "acquire L_kmem s")
  case (Inr s')
  assume "0 < depth s"
  hence d: "1 < depth s'" using acquire_depth [OF Inr] by simp
  thus ?thesis
    using release_deep [of s' L_kmem]
      release_deep [of "s'\<lparr>freelist := ld64 (ram s') (freelist s'), npages := npages s' - 1\<rparr>" L_kmem]
    by (auto simp: kalloc_def Inr Let_def)
qed (simp add: kalloc_def)

lemma kfree_nested: "0 < depth s \<Longrightarrow> \<exists>e. kfree p s = Inl e"
proof (cases "acquire L_kmem (s\<lparr>ram := memset (ram s) p 1 (ucast PGSIZE)\<rparr>)")
  case (Inr s')
  assume "0 < depth s"
  hence d: "1 < depth s'" using acquire_depth [OF Inr] by simp
  have "\<exists>e. release L_kmem (s'\<lparr>ram := st64 (ram s') p (freelist s'), freelist := p, npages := npages s' + 1\<rparr>) = Inl e"
    by (rule release_deep) (simp add: d)
  thus ?thesis by (auto simp: kfree_def Inr Let_def)
qed (simp add: kfree_def Let_def)

lemma walk_same: "walk pt va False s = Inr (r, s') \<Longrightarrow> s' = s"
  by (auto simp: walk_def walk_level_read split: if_splits)

lemma KGetKaddr_same: "KGetKaddr pt va s = Inr (r, s') \<Longrightarrow> s' = s"
  by (auto simp: KGetKaddr_def Let_def bnd_Inr_iff split: if_splits dest: walk_same)

lemma copyout_depth: "copyout pt va src len s = Inr (r, s') \<Longrightarrow> depth s' = depth s"
proof (induction pt va src len s rule: copyout.induct)
  case (1 pt va src len s)
  show ?case
  proof (cases "0 < len")
    case True
    from 1(2) obtain pa s1 where k: "KGetKaddr pt (PGROUNDDOWN va) s = Inr (pa, s1)"
      by (auto simp: copyout.simps [of pt va] True Let_def bnd_Inr_iff)
    have s1: "s1 = s" by (rule KGetKaddr_same [OF k])
    show ?thesis
      using 1(2) 1(1) [OF True refl k refl _ refl refl] k
      by (auto simp: copyout.simps [of pt va] True Let_def s1 split: if_splits)
  qed (use 1 in \<open>simp add: copyout.simps [of pt va]\<close>)
qed

lemma vmunmap_loop_depth:
  "vmunmap_loop pt t b f s = Inr s' \<Longrightarrow> 0 < depth s \<Longrightarrow> depth s' = depth s"
proof (induction pt t b f s rule: vmunmap_loop.induct)
  case (1 pt t b f s)
  show ?case
  proof (cases "t < b")
    case True
    from 1(2) obtain pte s1 where k: "walk pt t False s = Inr (pte, s1)"
      by (auto simp: vmunmap_loop.simps [of pt t] True bnd_Inr_iff)
    have s1: "s1 = s" by (rule walk_same [OF k])
    obtain e where "kfree (PTE2PAGE (ld64 (ram s) pte)) s = Inl e" using kfree_nested [OF 1(3)] by blast
    hence nf: "\<not> f"
      using 1(2) by (auto simp: vmunmap_loop.simps [of pt t] True k s1 split: if_splits)
    show ?thesis
      using 1(2,3) 1(1) [OF True k refl] nf
      by (auto simp: vmunmap_loop.simps [of pt t] True k s1 split: if_splits)
  qed (use 1 in \<open>simp add: vmunmap_loop.simps [of pt t]\<close>)
qed

lemma vmunmap_depth: "vmunmap pt va n f s = Inr s' \<Longrightarrow> 0 < depth s \<Longrightarrow> depth s' = depth s"
  by (auto simp: vmunmap_def split: if_splits dest: vmunmap_loop_depth)

lemma freewalk_from_nested:
  assumes "freewalk_from i pt s = Some r" "0 < depth s"
  shows "\<exists>e. r = Inl e"
proof -
  from assms(1) have "0 < depth s \<longrightarrow> (\<exists>e. r = Inl e)"
  proof (rule freewalk_from.raw_induct [where P = "\<lambda>i pt s r. 0 < depth s \<longrightarrow> (\<exists>e. r = Inl e)", rotated])
    fix fw :: "nat \<Rightarrow> u64 \<Rightarrow> 'a kmem_state_scheme \<Rightarrow> 'a kmem_state_scheme res option" and i pt s r
    assume ih: "\<And>i pt s r. fw i pt s = Some r \<Longrightarrow> 0 < depth s \<longrightarrow> (\<exists>e. r = Inl e)"
      and e: "(if i < 512 then
        (let pte = ld64 (ram s) (pt + 8 * word_of_nat i) in
         if pte AND PTE_V \<noteq> 0 \<and> pte AND (PTE_R OR PTE_W OR PTE_X) = 0 then
           Option.bind (fw 0 (PTE2PAGE pte) s) (\<lambda>r.
             case r of
               Inl e \<Rightarrow> Some (Inl e)
             | Inr s \<Rightarrow> fw (Suc i) pt (s\<lparr>ram := st64 (ram s) (pt + 8 * word_of_nat i) 0\<rparr>))
         else if pte AND PTE_V \<noteq> 0 then Some (Inl (Panic ''freewalk: leaf''))
         else fw (Suc i) pt s)
      else Some (kfree pt s)) = Some r"
    show "0 < depth s \<longrightarrow> (\<exists>e. r = Inl e)"
    proof
      assume d: "0 < depth s"
      define pte where "pte = ld64 (ram s) (pt + 8 * word_of_nat i)"
      obtain k where k: "kfree pt s = Inl k" using kfree_nested [OF d, of pt] by blast
      consider "i < 512" "pte AND PTE_V \<noteq> 0 \<and> pte AND (PTE_R OR PTE_W OR PTE_X) = 0"
        | "i < 512" "pte AND PTE_V \<noteq> 0" "pte AND (PTE_R OR PTE_W OR PTE_X) \<noteq> 0"
        | "i < 512" "pte AND PTE_V = 0" | "\<not> i < 512" by blast
      thus "\<exists>e. r = Inl e"
      proof cases
        case 1
        then obtain y where y: "fw 0 (PTE2PAGE pte) s = Some y"
          and r: "(case y of Inl e \<Rightarrow> Some (Inl e)
             | Inr s \<Rightarrow> fw (Suc i) pt (s\<lparr>ram := st64 (ram s) (pt + 8 * word_of_nat i) 0\<rparr>)) = Some r"
          using e by (auto simp: Let_def bind_eq_Some_conv pte_def [symmetric])
        obtain e' where "y = Inl e'" using ih [OF y] d by blast
        thus ?thesis using r by auto
      next
        case 3
        hence "fw (Suc i) pt s = Some r" using e by (simp add: Let_def pte_def [symmetric])
        thus ?thesis using ih d by blast
      qed (use e k in \<open>auto simp: Let_def pte_def [symmetric]\<close>)
    qed
  qed
  thus ?thesis using assms(2) by blast
qed

lemma Uvmfree_nested:
  assumes "Uvmfree pt sz s = Some r" "0 < depth s"
  shows "\<exists>e. r = Inl e"
proof (cases "if sz > 0 then vmunmap pt 0 (PGROUNDDOWN sz div PGSIZE) True s else Inr s")
  case (Inr s1)
  hence "depth s1 = depth s" using assms(2) by (auto split: if_splits dest: vmunmap_depth)
  moreover have "freewalk_from 0 pt s1 = Some r" using assms(1) by (simp add: Uvmfree_def Inr freewalk_def)
  ultimately show ?thesis using assms(2) freewalk_from_nested by metis
next
  case (Inl e)
  thus ?thesis using assms(1) unfolding Uvmfree_def Inl by auto
qed

lemma opt_bnd_Some_Inr:
  "opt_bnd m f = Some (Inr y) \<longleftrightarrow> (\<exists>x. m = Some (Inr x) \<and> f x = Some (Inr y))"
  by (auto simp: opt_bnd_def split: option.splits sum.splits)

lemma freeproc_nested: "0 < depth s \<Longrightarrow> freeproc p s = Some (Inr s') \<Longrightarrow> p_pagetable (procTable s p) = 0 \<and> depth s' = depth s"
proof -
  assume d: "0 < depth s" and f: "freeproc p s = Some (Inr s')"
  have tf: "p_trapframe (procTable s p) = 0"
    using f kfree_nested [OF d, of "p_trapframe (procTable s p)"]
    by (auto simp: freeproc_def opt_bnd_Some_Inr split: if_splits)
  show ?thesis
  proof (cases "p_pagetable (procTable s p) = 0")
    case True
    thus ?thesis using f tf by (auto simp: freeproc_def opt_bnd_Some_Inr upd_proc_def Let_def depth_def hart_defs)
  next
    case False
    define s1 where "s1 = upd_proc p (\<lambda>q. q\<lparr>p_trapframe := 0\<rparr>) s"
    have "p_pagetable (procTable s1 p) = p_pagetable (procTable s p)" by (simp add: s1_def upd_proc_def)
    with f tf False obtain s2 where "freeProcPagetable (p_pagetable (procTable s p)) (p_sz (procTable s1 p)) s1 = Some (Inr s2)"
      by (auto simp: freeproc_def opt_bnd_Some_Inr Let_def s1_def [symmetric])
    then obtain s3 s4 where "vmunmap (p_pagetable (procTable s p)) TRAMPOLINE 1 False s1 = Inr s3"
       "vmunmap (p_pagetable (procTable s p)) TRAPFRAME 1 False s3 = Inr s4"
       "Uvmfree (p_pagetable (procTable s p)) (p_sz (procTable s1 p)) s4 = Some (Inr s2)"
      by (auto simp: freeProcPagetable_def opt_bnd_Some_Inr)
    with d have False using vmunmap_depth [of _ _ _ _ s1 s3] vmunmap_depth [of _ _ _ _ s3 s4]
      by (auto simp: s1_def dest!: Uvmfree_nested)
    thus ?thesis ..
  qed
qed

text \<open>So a child can never be reaped: its lock is always the second one.\<close>

lemma reap_never: "1 < depth s \<Longrightarrow> reap xa vaddr p c pid s \<noteq> Some (Inr r)"
proof
  assume d: "1 < depth s" and r: "reap xa vaddr p c pid s = Some (Inr r)"
  from r obtain q s1 where
    c: "(if vaddr \<noteq> 0 then copyout_xstate xa (p_pagetable (procTable s p)) vaddr c s else Inr (0, s)) = Inr (q, s1)"
    and q: "(if q < 0 then Some (bnd (release (L_proc c) s1) (\<lambda>s. bnd (release (L_proc p) s) (\<lambda>s. Inr (- 1, s))))
      else opt_bnd (freeproc c s1) (\<lambda>s. Some (bnd (release (L_proc c) s) (\<lambda>s. bnd (release (L_proc p) s) (\<lambda>s. Inr (pid, s)))))) = Some (Inr r)"
    by (auto simp: reap_def opt_bnd_Some_Inr Let_def)
  have d1: "depth s1 = depth s"
    using c by (auto simp: copyout_xstate_def split: if_splits dest: copyout_depth)
  show False
  proof (cases "q < 0")
    case True
    thus False using q release_deep [of s1 "L_proc c"] d d1 by auto
  next
    case False
    with q obtain s2 where f: "freeproc c s1 = Some (Inr s2)"
      and x: "bnd (release (L_proc c) s2) (\<lambda>s. bnd (release (L_proc p) s) (\<lambda>s. Inr (pid, s))) = Inr r"
      by (auto simp: opt_bnd_Some_Inr)
    have "depth s2 = depth s" using freeproc_nested [OF _ f] d d1 by simp
    thus False using x release_deep [of s2 "L_proc c"] d by auto
  qed
qed

lemma wait_scan_result:
  "wait_scan xa vaddr p n c hv s = Some (Inr (v, s')) \<Longrightarrow> 0 < depth s \<Longrightarrow>
   v = Inr hv \<and> s' = s \<and> (\<forall>k. c \<le> k \<and> k < c + n \<longrightarrow> p_parent (procTable s k) \<noteq> Some p)"
proof (induction xa vaddr p n c hv s rule: wait_scan.induct)
  case (2 xa vaddr p n c hv s)
  show ?case
  proof (cases "p_parent (procTable s c) = Some p")
    case True
    from 2(3) obtain s1 where a: "acquire (L_proc c) s = Inr s1"
      by (auto simp: True opt_bnd_Some_Inr)
    have d: "1 < depth s1" using acquire_depth [OF a] 2(4) by simp
    show ?thesis using 2(3) reap_never [OF d] release_deep [OF d, of "L_proc c"]
      by (auto simp: True a opt_bnd_Some_Inr split: if_splits)
  next
    case False
    have e: "c \<le> k \<longleftrightarrow> k = c \<or> Suc c \<le> k" for k by auto
    show ?thesis using 2(2) [OF False] 2(3,4) False unfolding e by auto
  qed
qed auto


lemma prepareSched_Inl: "\<exists>m. prepareSched pswitch s = Inl (Panic m)"
proof -
  have *: "\<exists>m. bnd (pop_off (push_off s)) f = Inl (Panic m) \<or> (\<exists>s'. pop_off (push_off s) = Inr s' \<and> depth s' \<le> 0)" for f :: "_ \<Rightarrow> 'c res"
    by (auto simp: pop_off_push_off depth_def hart_defs)
  show ?thesis
  proof (cases "0 < noff (curcpu s)")
    case True
    thus ?thesis by (simp add: prepareSched_def myproc_def curproc_nested)
  next
    case False
    then obtain p s' where "curproc s = Inr (p, s')" "noff (curcpu s') \<noteq> 1"
      by (auto simp: curproc_def pop_off_push_off Let_def hart_defs)
    thus ?thesis by (cases p) (simp_all add: prepareSched_def myproc_def null_deref_def)
  qed
qed

lemma yield_stops: "\<exists>e. yield pswitch s = Inl e"
  unfolding yield_def
  by (cases "myproc s"; auto)
     (metis (no_types, lifting) bnd.simps prepareSched_Inl sum.exhaust)

text \<open>C14: the kernel never leaves the process a hart runs: whatever the state and whatever the assembly
  of \<open>pswitch\<close> does, \<open>prepareSched\<close> panics before it, so \<open>yield\<close> and \<open>sleep\<close> never return either.\<close>

theorem no_context_switch:
  "(\<exists>m. prepareSched pswitch s = Inl (Panic m))
   \<and> (\<exists>e. yield pswitch s = Inl e) \<and> (\<exists>e. sleep pswitch c lk s = Inl e)"
proof (intro conjI)
  show p: "\<exists>m. prepareSched pswitch s = Inl (Panic m)" by (rule prepareSched_Inl)
  show "\<exists>e. yield pswitch s = Inl e" by (rule yield_stops)
  show "\<exists>e. sleep pswitch c lk s = Inl e"
    unfolding sleep_def
    by (cases "myproc s"; auto simp: Let_def)
       (metis (no_types, lifting) bnd.simps prepareSched_Inl sum.exhaust)+
qed

lemma sleep_Inl: "\<exists>e. sleep pswitch c lk s = Inl e"
  unfolding sleep_def
  by (cases "myproc s"; auto simp: Let_def)
     (metis (no_types, lifting) bnd.simps prepareSched_Inl sum.exhaust)+

lemma wait_loop_result:
  assumes "0 < depth s" "wait_loop pswitch xa vaddr p s = Some (Inr (r, s'))"
  shows "r = - 1 \<and> s' = s \<and> (\<forall>k < NPROC. p_parent (procTable s k) \<noteq> Some p)"
proof -
  obtain v s1 where w: "wait_scan xa vaddr p NPROC 0 False s = Some (Inr (v, s1))"
    using assms(2) by (subst (asm) wait_loop.simps) (auto split: option.splits sum.splits)
  have v: "v = Inr False" "s1 = s" "\<forall>k < NPROC. p_parent (procTable s k) \<noteq> Some p"
    using wait_scan_result [OF w assms(1)] by auto
  show ?thesis using assms(2) v by (subst (asm) wait_loop.simps) (simp add: w)
qed

lemma wait_scan_childless:
  "(\<forall>k. c \<le> k \<and> k < c + n \<longrightarrow> p_parent (procTable s k) \<noteq> Some p) \<Longrightarrow>
   wait_scan xa vaddr p n c hv s = Some (Inr (Inr hv, s))"
  by (induction xa vaddr p n c hv s rule: wait_scan.induct) auto

lemma curproc_depth: "curproc s = Inr (p, s') \<Longrightarrow> depth s' = depth s"
  by (auto simp: curproc_def pop_off_push_off Let_def depth_def hart_defs split: if_splits)

text \<open>from a hart that holds no lock, \<open>wait\<close> returns only when the process has no child, and then
  it returns -1 with the process's own lock still held; with a child it never returns a status,
  because leaving the child's critical section inside the parent's panics.\<close>

theorem wait_never_reaps:
  assumes "quiet s" "cproc (curcpu s) = Some p" "lock_free (L_proc p) s"
  shows "if \<exists>k < NPROC. p_parent (procTable s k) = Some p
         then \<forall>r s'. wait pswitch xa vaddr s \<noteq> Some (Inr (r, s'))
         else \<exists>s'. wait pswitch xa vaddr s = Some (Inr (- 1, s')) \<and> holding (L_proc p) s' \<and> depth s' = 1"
proof -
  define s1 where "s1 = in_section (L_proc p) (masked s)"
  have c: "myproc s = Inr (p, masked s)"
    using assms(1,2) by (simp add: myproc_def curproc_noff0 quiet_def masked_def)
  have a: "acquire (L_proc p) (masked s) = Inr s1"
    unfolding s1_def using assms by (intro acquire_free) simp_all
  have w: "wait pswitch xa vaddr s = wait_loop pswitch xa vaddr p s1"
    by (simp add: wait_def c a opt_bnd_def)
  have d: "depth s1 = 1" "procTable s1 = procTable s" "holding (L_proc p) s1"
    by (simp_all add: s1_def depth_def) (simp add: in_section_def masked_def)
  show ?thesis
  proof (cases "\<exists>k < NPROC. p_parent (procTable s k) = Some p")
    case True
    have "wait_loop pswitch xa vaddr p s1 \<noteq> Some (Inr (r, s'))" for r s'
      using wait_loop_result [of s1 pswitch xa vaddr p r s'] True d by auto
    thus ?thesis using True by (simp add: w)
  next
    case False
    hence "wait_scan xa vaddr p NPROC 0 False s1 = Some (Inr (Inr False, s1))"
      using d by (intro wait_scan_childless) auto
    hence "wait_loop pswitch xa vaddr p s1 = Some (Inr (- 1, s1))"
      by (subst wait_loop.simps) simp
    thus ?thesis using False d w by auto
  qed
qed

lemma allocproc_loop_depth:
  "allocproc_loop n p s = Inr (r, s') \<Longrightarrow>
   (case r of None \<Rightarrow> \<not> proc_below s' | Some _ \<Rightarrow> depth s' = depth s + 1)"
proof (induction n arbitrary: p s)
  case 0
  thus ?case by (auto simp: allocproc_loop.simps [of 0] split: if_splits)
next
  case (Suc n)
  show ?case
  proof (cases "proc_below s")
    case True
    with Suc.prems obtain s1 where a: "acquire (L_proc p) s = Inr s1"
      by (auto simp: allocproc_loop.simps [of "Suc n"] bnd_Inr_iff)
    show ?thesis
    proof (cases "p_state (procTable s1 p) = UNUSED")
      case True
      thus ?thesis using Suc.prems \<open>proc_below s\<close> a acquire_depth [OF a]
        by (auto simp: allocproc_loop.simps [of "Suc n"])
    next
      case False
      with Suc.prems True a obtain s2 where b: "release (L_proc p) s1 = Inr s2" "allocproc_loop n (Suc p) s2 = Inr (r, s')"
        by (auto simp: allocproc_loop.simps [of "Suc n"] bnd_Inr_iff)
      thus ?thesis using Suc.IH [OF b(2)] acquire_depth [OF a] release_depth [OF b(1)] by (simp split: option.splits)
    qed
  qed (use Suc.prems in \<open>auto simp: allocproc_loop.simps [of "Suc n"]\<close>)
qed

lemma allocproc_none:
  assumes "0 \<le> depth s"
  shows "(\<exists>e. allocproc s = Some (Inl e)) \<or> (\<exists>s'. allocproc s = Some (Inr (None, s')) \<and> \<not> proc_below s')"
proof (cases "allocproc_loop (NPROC - 1) 1 s")
  case (Inr x)
  then obtain r s1 where x: "allocproc_loop (NPROC - 1) 1 s = Inr (r, s1)" by (cases x) auto
  show ?thesis
  proof (cases r)
    case None
    thus ?thesis using x allocproc_loop_depth [OF x] by (simp add: allocproc_def opt_bnd_def)
  next
    case (Some p)
    hence "0 < depth s1" using allocproc_loop_depth [OF x] assms by simp
    then obtain e where "kalloc s1 = Inl e" using kalloc_nested by blast
    thus ?thesis using x Some by (simp add: allocproc_def opt_bnd_def)
  qed
qed (simp add: allocproc_def opt_bnd_def)

lemma copy_process_none:
  assumes "0 \<le> depth s"
  shows "(\<exists>e. copy_process sp s = Some (Inl e)) \<or> (\<exists>s'. copy_process sp s = Some (Inr (- 1, s')))"
proof (cases "curproc s")
  case (Inr x)
  then obtain p s1 where x: "curproc s = Inr (p, s1)" by (cases x) auto
  have "0 \<le> depth s1" using curproc_depth [OF x] assms by simp
  from allocproc_none [OF this] show ?thesis
    by (auto simp: copy_process_def x opt_bnd_def)
qed (simp add: copy_process_def opt_bnd_def)

text \<open>in any state a hart can be in, \<open>allocproc\<close> never hands out a process: the page for the trap
  frame is asked for under the process's lock, which panics; it returns only where the linker placed
  the array \<open>proc\<close> so that the loop test fails at once, and so \<open>fork\<close> and \<open>clone\<close> never
  return anything but -1.\<close>

theorem allocproc_never_allocates:
  assumes "0 \<le> depth s"
  shows "((\<exists>e. allocproc s = Some (Inl e)) \<or> (\<exists>s'. allocproc s = Some (Inr (None, s')) \<and> \<not> proc_below s'))
    \<and> ((\<exists>e. fork s = Some (Inl e)) \<or> (\<exists>s'. fork s = Some (Inr (- 1, s'))))
    \<and> ((\<exists>e. clone sp fl s = Some (Inl e)) \<or> (\<exists>s'. clone sp fl s = Some (Inr (- 1, s'))))"
  using allocproc_none [OF assms] copy_process_none [OF assms, of None] copy_process_none [OF assms, of "Some sp"]
  by (simp add: fork_def clone_def)

lemma myproc_depth: "myproc s = Inr (p, s') \<Longrightarrow> depth s' = depth s"
  by (cases "curproc s") (auto simp: myproc_def null_deref_def split: option.splits dest: curproc_depth)

text \<open>\<open>getFileByFd\<close> never returns a file: outside 0 to \<open>NOFILE\<close> it returns \<open>NULL\<close>, and inside it asks
  for the current process a second time under that process's lock, which panics.\<close>

lemma getFileByFd_result:
  assumes "0 \<le> depth s"
  shows "if fd < 0 \<or> int NOFILE < fd then getFileByFd fd s = Inr (None, s)
         else \<exists>e. getFileByFd fd s = Inl e"
proof -
  have n: "myproc s1 = Inl (Panic ''pop_off'')" if "0 < depth s1" for s1 :: "'a proc_state_scheme"
    using that by (simp add: myproc_def curproc_nested depth_def)
  show ?thesis
  proof (cases "fd < 0 \<or> int NOFILE < fd")
    case False
    have "\<exists>e. getFileByFd fd s = Inl e"
    proof (cases "myproc s")
      case (Inr x)
      then obtain p s1 where x: "myproc s = Inr (p, s1)" by (cases x) auto
      hence d: "0 \<le> depth s1" using assms by (simp add: myproc_depth)
      show ?thesis
      proof (cases "acquire (L_proc p) s1")
        case (Inr s2)
        hence "0 < depth s2" using acquire_depth [OF Inr] d by simp
        thus ?thesis using x Inr False by (simp add: getFileByFd_def n)
      qed (use x False in \<open>simp add: getFileByFd_def\<close>)
    qed (use False in \<open>simp add: getFileByFd_def\<close>)
    thus ?thesis using False by simp
  qed (simp add: getFileByFd_def)
qed

section \<open>Registering an open file\<close>

lemma myproc_quiet:
  "quiet s \<Longrightarrow> cproc (curcpu s) = Some p \<Longrightarrow> myproc s = Inr (p, masked s)"
  by (simp add: myproc_def curproc_noff0 quiet_def masked_def)

lemma proc_in_section [simp]:
  "procTable (in_section l s) = procTable s" "procTable (masked s) = procTable s"
  by (simp_all add: in_section_def masked_def)

lemma in_section_upd_proc: "upd_proc p f (in_section l s) = in_section l (upd_proc p f s)"
  by (simp add: upd_proc_def in_section_def hart_defs)

lemma upd_proc_ready [simp]:
  "quiet (upd_proc p f s) = quiet s" "lock_free l (upd_proc p f s) = lock_free l s"
  by (simp_all add: upd_proc_def quiet_def lock_free_def hart_defs)

lemma section_release_proc:
  assumes "quiet s" "lock_free l s"
  shows "release l (upd_proc p f (in_section l s)) = Inr (masked (upd_proc p f s))"
  unfolding in_section_upd_proc by (rule release_in_section) (simp_all add: assms)

lemma masked_twice_upd:
  "masked (upd_proc p f (masked s)) = (upd_proc p f s)\<lparr>sie := False, cpus := (cpus s)(cpuid s := (curcpu s)\<lparr>intena := False\<rparr>)\<rparr>"
  "masked (masked s) = s\<lparr>sie := False, cpus := (cpus s)(cpuid s := (curcpu s)\<lparr>intena := False\<rparr>)\<rparr>"
  by (simp_all add: masked_def upd_proc_def hart_defs)

text \<open>The state after two sections in a row: only the interrupt flag and its saved copy are cleared.\<close>

definition quietened :: "'a hart_state_scheme \<Rightarrow> 'a hart_state_scheme" where
  "quietened s = s\<lparr>sie := False, cpus := (cpus s)(cpuid s := (curcpu s)\<lparr>intena := False\<rparr>)\<rparr>"

text \<open>C12: from a hart that holds no lock, \<open>registFileHandle\<close> without a wish takes the least free descriptor
  and panics exactly when all 120 are taken; with a wish from 0 to 100 it takes that descriptor if it is
  free and refuses otherwise; descriptors above 100 are always refused. Where it takes a descriptor, the
  resulting state is the given one with that descriptor set and the hart \<open>quietened\<close>: the interrupt enable
  and its saved copy are cleared, as every section of this code leaves them, and nothing else changes, memory,
  locks, files and the other processes included.\<close>

theorem registFileHandle_spec:
  assumes "quiet s" "cproc (curcpu s) = Some p" "lock_free (L_proc p) s"
  shows "let free = (\<lambda>i. p_ofile (procTable s p) i = None);
             took = (\<lambda>i. registFileHandle fp fd s = Inr (int i, quietened
                        (s\<lparr>procTable := (procTable s)(p := (procTable s p)\<lparr>p_ofile := (p_ofile (procTable s p))(i := Some fp)\<rparr>)\<rparr>)))
         in if 100 < fd then registFileHandle fp fd s = Inr (- 1, s)
            else if fd < 0 then
              (\<exists>i < 120. free i \<and> (\<forall>k < i. \<not> free k) \<and> took i)
              \<or> (\<forall>i < 120. \<not> free i) \<and> registFileHandle fp fd s = Inl (Panic ''registFileHandle'')
            else if free (nat fd) then took (nat fd)
            else registFileHandle fp fd s = Inr (- 1, quietened s)"
proof -
  define m where "m = masked s"
  have my: "myproc s = Inr (p, m)" using myproc_quiet assms by (simp add: m_def)
  have m: "quiet m" "lock_free (L_proc p) m" "procTable m = procTable s" using assms by (simp_all add: m_def)
  have acq: "acquire (L_proc p) m = Inr (in_section (L_proc p) m)" using m by (intro acquire_free)
  have took: "release (L_proc p) (upd_proc p (\<lambda>q. q\<lparr>p_ofile := (p_ofile q)(i := Some fp)\<rparr>) (in_section (L_proc p) m)) =
      Inr (quietened (s\<lparr>procTable := (procTable s)(p := (procTable s p)\<lparr>p_ofile := (p_ofile (procTable s p))(i := Some fp)\<rparr>)\<rparr>))" for i
    using section_release_proc [OF m(1,2), of p "\<lambda>q. q\<lparr>p_ofile := (p_ofile q)(i := Some fp)\<rparr>"]
    unfolding m_def masked_twice_upd by (simp add: quietened_def upd_proc_def hart_defs)
  have same: "release (L_proc p) (in_section (L_proc p) m) = Inr (quietened s)"
    using release_in_section [OF m(1,2)] by (simp add: m_def masked_twice_upd quietened_def)
  consider "100 < fd" | "fd < 0" "first_from (\<lambda>i. p_ofile (procTable s p) i = None) NOFILE 0 = None"
    | i where "fd < 0" "first_from (\<lambda>i. p_ofile (procTable s p) i = None) NOFILE 0 = Some i"
    | "0 \<le> fd" "fd \<le> 100" by fastforce
  thus ?thesis
  proof cases
    case 1
    thus ?thesis by (simp add: registFileHandle_def NFILE_def Let_def)
  next
    case 2
    have "registFileHandle fp fd s = Inl (Panic ''registFileHandle'')"
      using 2 my acq m by (simp add: registFileHandle_def NFILE_def)
    moreover have "\<forall>i < 120. p_ofile (procTable s p) i \<noteq> None"
      using 2(2) by (simp add: first_from_None NOFILE_def)
    ultimately show ?thesis using 2(1) by simp
  next
    case 3
    have i: "i < 120 \<and> p_ofile (procTable s p) i = None \<and> (\<forall>k < i. p_ofile (procTable s p) k \<noteq> None)"
      using 3(2) by (auto simp: first_from_Some NOFILE_def)
    have "registFileHandle fp fd s =
        Inr (int i, quietened (s\<lparr>procTable := (procTable s)(p := (procTable s p)\<lparr>p_ofile := (p_ofile (procTable s p))(i := Some fp)\<rparr>)\<rparr>))"
      using 3 my acq m took [of i] by (simp add: registFileHandle_def NFILE_def Let_def)
    thus ?thesis using 3(1) i unfolding Let_def by (auto simp del: fun_upd_apply)
  next
    case 4
    thus ?thesis using my acq m took [of "nat fd"] same
      by (cases "p_ofile (procTable s p) (nat fd) = None") (auto simp: registFileHandle_def NFILE_def Let_def simp del: fun_upd_apply)
  qed
qed



section \<open>The scheduler\<close>

lemma wakeup_procTable:
  "procTable (wakeup c s) i =
     (if i < NPROC \<and> p_state (procTable s i) = SLEEPING \<and> p_chan (procTable s i) = c
      then (procTable s i)\<lparr>p_state := RUNNABLE\<rparr> else procTable s i)"
  by (simp add: wakeup_def Let_def)

lemma wakeup_fields [simp]:
  "quiet (wakeup c s) = quiet s" "lock_free l (wakeup c s) = lock_free l s" "cpuid (wakeup c s) = cpuid s"
  "initproc (wakeup c s) = initproc s"
  by (simp_all add: wakeup_def quiet_def lock_free_def hart_defs)

lemma wakeup_in_section: "wakeup c (in_section l s) = in_section l (wakeup c s)"
  by (simp add: wakeup_def in_section_def hart_defs)

text \<open>C13: a turn of the scheduler on a slot whose lock is free. A \<open>RUNNABLE\<close> process is switched to
  with its state \<open>RUNNING\<close>, the hart's current process set, its lock held, at depth one and with
  interrupts off; when the switch comes back, only the hart's current process is reset and the lock
  released. Any other process is left as it is, a zombie after waking the sleepers on \<open>initproc\<close>,
  with the lock free and the live ones counted.\<close>

theorem scheduler_slot_spec:
  assumes "quiet s" "lock_free (L_proc i) s"
  shows "if p_state (procTable s i) = RUNNABLE then
           \<exists>s1. scheduler_slot pswitch i alive s =
                  bnd (pswitch (Ctx_cpu (cpuid s)) (Ctx_proc i) s1) (\<lambda>s2.
                  bnd (release (L_proc i) (upd_curcpu (\<lambda>c. c\<lparr>cproc := None\<rparr>) s2)) (\<lambda>s3. Inr (alive + 1, s3)))
              \<and> procTable s1 = (procTable s)(i := (procTable s i)\<lparr>p_state := RUNNING\<rparr>)
              \<and> cproc (curcpu s1) = Some i \<and> holding (L_proc i) s1 \<and> depth s1 = 1 \<and> \<not> sie s1
         else
           \<exists>s1. scheduler_slot pswitch i alive s =
                  Inr (if p_state (procTable s i) = UNUSED \<or> p_state (procTable s i) = ZOMBIE then alive else alive + 1, s1)
              \<and> procTable s1 = procTable (if p_state (procTable s i) = ZOMBIE then wakeup (proc_chan (initproc s)) s else s)
              \<and> quiet s1 \<and> lock_free (L_proc i) s1"
proof (cases "p_state (procTable s i) = RUNNABLE")
  case True
  define s1 where "s1 = upd_curcpu (\<lambda>c. c\<lparr>cproc := Some i\<rparr>) (upd_proc i (\<lambda>p. p\<lparr>p_state := RUNNING\<rparr>) (in_section (L_proc i) s))"
  have "scheduler_slot pswitch i alive s =
      bnd (pswitch (Ctx_cpu (cpuid s)) (Ctx_proc i) s1) (\<lambda>s2.
      bnd (release (L_proc i) (upd_curcpu (\<lambda>c. c\<lparr>cproc := None\<rparr>) s2)) (\<lambda>s3. Inr (alive + 1, s3)))"
  proof -
    have "cpuid s1 = cpuid s" by (simp add: s1_def upd_proc_def hart_defs in_section_def)
    thus ?thesis using True acquire_free [OF assms]
      by (simp add: scheduler_slot_def Let_def s1_def bnd_assoc)
  qed
  moreover have "procTable s1 = (procTable s)(i := (procTable s i)\<lparr>p_state := RUNNING\<rparr>)"
    "cproc (curcpu s1) = Some i" "holding (L_proc i) s1" "depth s1 = 1" "\<not> sie s1"
    by (simp_all add: s1_def upd_proc_def hart_defs in_section_def holding_def depth_def)
  ultimately show ?thesis using True by auto
next
  case False
  define w where "w = (if p_state (procTable s i) = ZOMBIE then wakeup (proc_chan (initproc s)) s else s)"
  have w: "quiet w" "lock_free (L_proc i) w" using assms by (simp_all add: w_def)
  have nr: "p_state (procTable w i) \<noteq> RUNNABLE" using False by (auto simp: w_def wakeup_procTable)
  have "initproc (in_section (L_proc i) s) = initproc s" by (simp add: in_section_def)
  hence "scheduler_slot pswitch i alive s =
     Inr (if p_state (procTable s i) = UNUSED \<or> p_state (procTable s i) = ZOMBIE then alive else alive + 1, masked w)"
    using False nr acquire_free [OF assms] release_in_section [OF w]
    by (cases "p_state (procTable s i)") (simp_all add: scheduler_slot_def Let_def w_def wakeup_in_section)
  thus ?thesis using False w by (auto simp: w_def)
qed


section \<open>A hart running one process\<close>

definition zero_proc :: kproc where
  "zero_proc = \<lparr>p_state = UNUSED, p_parent = None, p_chan = Ch_null, p_killed = 0, p_xstate = 0, p_pid = 0,
     p_kstack = 0, p_sz = 0, p_pagetable = 0, p_kpagetable = 0, p_mticks = 0, p_uticks = 0, p_trapframe = 0,
     p_context = zero_context, p_vma = (\<lambda>_. None), p_ofile = (\<lambda>_. None), p_workDir = 0x80400000,
     p_name = 0x80400040, p_tmask = 0\<rparr>"

definition one_proc :: proc_state where
  "one_proc = \<lparr>ram = (\<lambda>_. 0), tp = 0, sie = True,
     cpus = (\<lambda>_. \<lparr>cproc = Some 2, noff = 0, intena = False\<rparr>),
     locks = (\<lambda>_. \<lparr>locked = 0, lname = 0, lcpu = None\<rparr>),
     freelist = 0, npages = 0, kernel_end = 0x80500000,
     kern_pagetable = 0, etext = 0x80100000, trampoline = 0x80080000,
     fileTable = zero_table, ftable = zero_table,
     procTable = (\<lambda>i. if i = 2 then zero_proc\<lparr>p_state := RUNNABLE, p_pid := 2\<rparr> else zero_proc),
     vmas = (\<lambda>_. zero_vma), initproc = Some 1, cpu_context = (\<lambda>_. zero_context), ticks = 0,
     proc_below = True, stack_base = 0x80480000, forkret_addr = 0x80030000\<rparr>"

lemma one_proc_facts:
  "quiet one_proc" "lock_free l one_proc" "cproc (curcpu one_proc) = Some 2" "depth one_proc = 0"
  "p_parent (procTable one_proc k) = None" "p_ofile (procTable one_proc k) j = None" "proc_below one_proc"
  "p_state (procTable one_proc 2) = RUNNABLE"
  by (simp_all add: one_proc_def quiet_def lock_free_def hart_defs depth_def zero_proc_def)

theorem wait_never_reaps_witness:
  "\<exists>s'. wait (\<lambda>_ _ s. Inr s) (\<lambda>_. 0) 0 one_proc = Some (Inr (- 1, s')) \<and> holding (L_proc 2) s'"
  using wait_never_reaps [of one_proc 2 "\<lambda>_ _ s. Inr s" "\<lambda>_. 0" 0] by (auto simp: one_proc_facts)

theorem allocproc_never_allocates_witness: "\<exists>e. allocproc (one_proc\<lparr>proc_below := False\<rparr>) = Some (Inl e)
    \<or> (\<exists>s'. allocproc (one_proc\<lparr>proc_below := False\<rparr>) = Some (Inr (None, s')))"
proof -
  have "0 \<le> depth (one_proc\<lparr>proc_below := False\<rparr>)" by (simp add: depth_def hart_defs one_proc_def)
  from allocproc_never_allocates [OF this] show ?thesis by blast
qed

theorem registFileHandle_spec_witness: "\<exists>s'. registFileHandle 7 5 one_proc = Inr (5, s')"
  using registFileHandle_spec [of one_proc 2 7 5] by (simp add: one_proc_facts Let_def)

theorem scheduler_slot_spec_witness:
  "\<exists>s1 :: proc_state. scheduler_slot (\<lambda>_ _ s. Inl (Hang ''user'')) 2 0 one_proc = Inl (Hang ''user'')
     \<and> procTable s1 = (procTable one_proc)(2 := (procTable one_proc 2)\<lparr>p_state := RUNNING\<rparr>) \<and> holding (L_proc 2) s1"
  using scheduler_slot_spec [of one_proc 2 "\<lambda>_ _ s. Inl (Hang ''user'')" 0] by (simp add: one_proc_facts) blast

end
