(* ===== verification/FpioaTable.thy ===== *)
theory FpioaTable
  imports Prelude
begin

text \<open>
  The function table of the K210's pin multiplexer: the enumeration \<open>fpioa_function_t\<close>
  (\<open>driver/fpioa.h\<close>) and the constant array \<open>function_config\<close> (\<open>driver/fpioa.c\<close>), the initial
  pin configuration of each of the 256 functions, row by row as the source has it.
\<close>

section \<open>fpioa_function_t\<close>

definition FUNC_JTAG_TCLK :: nat where "FUNC_JTAG_TCLK = 0"
definition FUNC_JTAG_TDI :: nat where "FUNC_JTAG_TDI = 1"
definition FUNC_JTAG_TMS :: nat where "FUNC_JTAG_TMS = 2"
definition FUNC_JTAG_TDO :: nat where "FUNC_JTAG_TDO = 3"
definition FUNC_SPI0_D0 :: nat where "FUNC_SPI0_D0 = 4"
definition FUNC_SPI0_D1 :: nat where "FUNC_SPI0_D1 = 5"
definition FUNC_SPI0_D2 :: nat where "FUNC_SPI0_D2 = 6"
definition FUNC_SPI0_D3 :: nat where "FUNC_SPI0_D3 = 7"
definition FUNC_SPI0_D4 :: nat where "FUNC_SPI0_D4 = 8"
definition FUNC_SPI0_D5 :: nat where "FUNC_SPI0_D5 = 9"
definition FUNC_SPI0_D6 :: nat where "FUNC_SPI0_D6 = 10"
definition FUNC_SPI0_D7 :: nat where "FUNC_SPI0_D7 = 11"
definition FUNC_SPI0_SS0 :: nat where "FUNC_SPI0_SS0 = 12"
definition FUNC_SPI0_SS1 :: nat where "FUNC_SPI0_SS1 = 13"
definition FUNC_SPI0_SS2 :: nat where "FUNC_SPI0_SS2 = 14"
definition FUNC_SPI0_SS3 :: nat where "FUNC_SPI0_SS3 = 15"
definition FUNC_SPI0_ARB :: nat where "FUNC_SPI0_ARB = 16"
definition FUNC_SPI0_SCLK :: nat where "FUNC_SPI0_SCLK = 17"
definition FUNC_UARTHS_RX :: nat where "FUNC_UARTHS_RX = 18"
definition FUNC_UARTHS_TX :: nat where "FUNC_UARTHS_TX = 19"
definition FUNC_RESV6 :: nat where "FUNC_RESV6 = 20"
definition FUNC_RESV7 :: nat where "FUNC_RESV7 = 21"
definition FUNC_CLK_SPI1 :: nat where "FUNC_CLK_SPI1 = 22"
definition FUNC_CLK_I2C1 :: nat where "FUNC_CLK_I2C1 = 23"
definition FUNC_GPIOHS0 :: nat where "FUNC_GPIOHS0 = 24"
definition FUNC_GPIOHS1 :: nat where "FUNC_GPIOHS1 = 25"
definition FUNC_GPIOHS2 :: nat where "FUNC_GPIOHS2 = 26"
definition FUNC_GPIOHS3 :: nat where "FUNC_GPIOHS3 = 27"
definition FUNC_GPIOHS4 :: nat where "FUNC_GPIOHS4 = 28"
definition FUNC_GPIOHS5 :: nat where "FUNC_GPIOHS5 = 29"
definition FUNC_GPIOHS6 :: nat where "FUNC_GPIOHS6 = 30"
definition FUNC_GPIOHS7 :: nat where "FUNC_GPIOHS7 = 31"
definition FUNC_GPIOHS8 :: nat where "FUNC_GPIOHS8 = 32"
definition FUNC_GPIOHS9 :: nat where "FUNC_GPIOHS9 = 33"
definition FUNC_GPIOHS10 :: nat where "FUNC_GPIOHS10 = 34"
definition FUNC_GPIOHS11 :: nat where "FUNC_GPIOHS11 = 35"
definition FUNC_GPIOHS12 :: nat where "FUNC_GPIOHS12 = 36"
definition FUNC_GPIOHS13 :: nat where "FUNC_GPIOHS13 = 37"
definition FUNC_GPIOHS14 :: nat where "FUNC_GPIOHS14 = 38"
definition FUNC_GPIOHS15 :: nat where "FUNC_GPIOHS15 = 39"
definition FUNC_GPIOHS16 :: nat where "FUNC_GPIOHS16 = 40"
definition FUNC_GPIOHS17 :: nat where "FUNC_GPIOHS17 = 41"
definition FUNC_GPIOHS18 :: nat where "FUNC_GPIOHS18 = 42"
definition FUNC_GPIOHS19 :: nat where "FUNC_GPIOHS19 = 43"
definition FUNC_GPIOHS20 :: nat where "FUNC_GPIOHS20 = 44"
definition FUNC_GPIOHS21 :: nat where "FUNC_GPIOHS21 = 45"
definition FUNC_GPIOHS22 :: nat where "FUNC_GPIOHS22 = 46"
definition FUNC_GPIOHS23 :: nat where "FUNC_GPIOHS23 = 47"
definition FUNC_GPIOHS24 :: nat where "FUNC_GPIOHS24 = 48"
definition FUNC_GPIOHS25 :: nat where "FUNC_GPIOHS25 = 49"
definition FUNC_GPIOHS26 :: nat where "FUNC_GPIOHS26 = 50"
definition FUNC_GPIOHS27 :: nat where "FUNC_GPIOHS27 = 51"
definition FUNC_GPIOHS28 :: nat where "FUNC_GPIOHS28 = 52"
definition FUNC_GPIOHS29 :: nat where "FUNC_GPIOHS29 = 53"
definition FUNC_GPIOHS30 :: nat where "FUNC_GPIOHS30 = 54"
definition FUNC_GPIOHS31 :: nat where "FUNC_GPIOHS31 = 55"
definition FUNC_GPIO0 :: nat where "FUNC_GPIO0 = 56"
definition FUNC_GPIO1 :: nat where "FUNC_GPIO1 = 57"
definition FUNC_GPIO2 :: nat where "FUNC_GPIO2 = 58"
definition FUNC_GPIO3 :: nat where "FUNC_GPIO3 = 59"
definition FUNC_GPIO4 :: nat where "FUNC_GPIO4 = 60"
definition FUNC_GPIO5 :: nat where "FUNC_GPIO5 = 61"
definition FUNC_GPIO6 :: nat where "FUNC_GPIO6 = 62"
definition FUNC_GPIO7 :: nat where "FUNC_GPIO7 = 63"
definition FUNC_UART1_RX :: nat where "FUNC_UART1_RX = 64"
definition FUNC_UART1_TX :: nat where "FUNC_UART1_TX = 65"
definition FUNC_UART2_RX :: nat where "FUNC_UART2_RX = 66"
definition FUNC_UART2_TX :: nat where "FUNC_UART2_TX = 67"
definition FUNC_UART3_RX :: nat where "FUNC_UART3_RX = 68"
definition FUNC_UART3_TX :: nat where "FUNC_UART3_TX = 69"
definition FUNC_SPI1_D0 :: nat where "FUNC_SPI1_D0 = 70"
definition FUNC_SPI1_D1 :: nat where "FUNC_SPI1_D1 = 71"
definition FUNC_SPI1_D2 :: nat where "FUNC_SPI1_D2 = 72"
definition FUNC_SPI1_D3 :: nat where "FUNC_SPI1_D3 = 73"
definition FUNC_SPI1_D4 :: nat where "FUNC_SPI1_D4 = 74"
definition FUNC_SPI1_D5 :: nat where "FUNC_SPI1_D5 = 75"
definition FUNC_SPI1_D6 :: nat where "FUNC_SPI1_D6 = 76"
definition FUNC_SPI1_D7 :: nat where "FUNC_SPI1_D7 = 77"
definition FUNC_SPI1_SS0 :: nat where "FUNC_SPI1_SS0 = 78"
definition FUNC_SPI1_SS1 :: nat where "FUNC_SPI1_SS1 = 79"
definition FUNC_SPI1_SS2 :: nat where "FUNC_SPI1_SS2 = 80"
definition FUNC_SPI1_SS3 :: nat where "FUNC_SPI1_SS3 = 81"
definition FUNC_SPI1_ARB :: nat where "FUNC_SPI1_ARB = 82"
definition FUNC_SPI1_SCLK :: nat where "FUNC_SPI1_SCLK = 83"
definition FUNC_SPI_SLAVE_D0 :: nat where "FUNC_SPI_SLAVE_D0 = 84"
definition FUNC_SPI_SLAVE_SS :: nat where "FUNC_SPI_SLAVE_SS = 85"
definition FUNC_SPI_SLAVE_SCLK :: nat where "FUNC_SPI_SLAVE_SCLK = 86"
definition FUNC_I2S0_MCLK :: nat where "FUNC_I2S0_MCLK = 87"
definition FUNC_I2S0_SCLK :: nat where "FUNC_I2S0_SCLK = 88"
definition FUNC_I2S0_WS :: nat where "FUNC_I2S0_WS = 89"
definition FUNC_I2S0_IN_D0 :: nat where "FUNC_I2S0_IN_D0 = 90"
definition FUNC_I2S0_IN_D1 :: nat where "FUNC_I2S0_IN_D1 = 91"
definition FUNC_I2S0_IN_D2 :: nat where "FUNC_I2S0_IN_D2 = 92"
definition FUNC_I2S0_IN_D3 :: nat where "FUNC_I2S0_IN_D3 = 93"
definition FUNC_I2S0_OUT_D0 :: nat where "FUNC_I2S0_OUT_D0 = 94"
definition FUNC_I2S0_OUT_D1 :: nat where "FUNC_I2S0_OUT_D1 = 95"
definition FUNC_I2S0_OUT_D2 :: nat where "FUNC_I2S0_OUT_D2 = 96"
definition FUNC_I2S0_OUT_D3 :: nat where "FUNC_I2S0_OUT_D3 = 97"
definition FUNC_I2S1_MCLK :: nat where "FUNC_I2S1_MCLK = 98"
definition FUNC_I2S1_SCLK :: nat where "FUNC_I2S1_SCLK = 99"
definition FUNC_I2S1_WS :: nat where "FUNC_I2S1_WS = 100"
definition FUNC_I2S1_IN_D0 :: nat where "FUNC_I2S1_IN_D0 = 101"
definition FUNC_I2S1_IN_D1 :: nat where "FUNC_I2S1_IN_D1 = 102"
definition FUNC_I2S1_IN_D2 :: nat where "FUNC_I2S1_IN_D2 = 103"
definition FUNC_I2S1_IN_D3 :: nat where "FUNC_I2S1_IN_D3 = 104"
definition FUNC_I2S1_OUT_D0 :: nat where "FUNC_I2S1_OUT_D0 = 105"
definition FUNC_I2S1_OUT_D1 :: nat where "FUNC_I2S1_OUT_D1 = 106"
definition FUNC_I2S1_OUT_D2 :: nat where "FUNC_I2S1_OUT_D2 = 107"
definition FUNC_I2S1_OUT_D3 :: nat where "FUNC_I2S1_OUT_D3 = 108"
definition FUNC_I2S2_MCLK :: nat where "FUNC_I2S2_MCLK = 109"
definition FUNC_I2S2_SCLK :: nat where "FUNC_I2S2_SCLK = 110"
definition FUNC_I2S2_WS :: nat where "FUNC_I2S2_WS = 111"
definition FUNC_I2S2_IN_D0 :: nat where "FUNC_I2S2_IN_D0 = 112"
definition FUNC_I2S2_IN_D1 :: nat where "FUNC_I2S2_IN_D1 = 113"
definition FUNC_I2S2_IN_D2 :: nat where "FUNC_I2S2_IN_D2 = 114"
definition FUNC_I2S2_IN_D3 :: nat where "FUNC_I2S2_IN_D3 = 115"
definition FUNC_I2S2_OUT_D0 :: nat where "FUNC_I2S2_OUT_D0 = 116"
definition FUNC_I2S2_OUT_D1 :: nat where "FUNC_I2S2_OUT_D1 = 117"
definition FUNC_I2S2_OUT_D2 :: nat where "FUNC_I2S2_OUT_D2 = 118"
definition FUNC_I2S2_OUT_D3 :: nat where "FUNC_I2S2_OUT_D3 = 119"
definition FUNC_RESV0 :: nat where "FUNC_RESV0 = 120"
definition FUNC_RESV1 :: nat where "FUNC_RESV1 = 121"
definition FUNC_RESV2 :: nat where "FUNC_RESV2 = 122"
definition FUNC_RESV3 :: nat where "FUNC_RESV3 = 123"
definition FUNC_RESV4 :: nat where "FUNC_RESV4 = 124"
definition FUNC_RESV5 :: nat where "FUNC_RESV5 = 125"
definition FUNC_I2C0_SCLK :: nat where "FUNC_I2C0_SCLK = 126"
definition FUNC_I2C0_SDA :: nat where "FUNC_I2C0_SDA = 127"
definition FUNC_I2C1_SCLK :: nat where "FUNC_I2C1_SCLK = 128"
definition FUNC_I2C1_SDA :: nat where "FUNC_I2C1_SDA = 129"
definition FUNC_I2C2_SCLK :: nat where "FUNC_I2C2_SCLK = 130"
definition FUNC_I2C2_SDA :: nat where "FUNC_I2C2_SDA = 131"
definition FUNC_CMOS_XCLK :: nat where "FUNC_CMOS_XCLK = 132"
definition FUNC_CMOS_RST :: nat where "FUNC_CMOS_RST = 133"
definition FUNC_CMOS_PWDN :: nat where "FUNC_CMOS_PWDN = 134"
definition FUNC_CMOS_VSYNC :: nat where "FUNC_CMOS_VSYNC = 135"
definition FUNC_CMOS_HREF :: nat where "FUNC_CMOS_HREF = 136"
definition FUNC_CMOS_PCLK :: nat where "FUNC_CMOS_PCLK = 137"
definition FUNC_CMOS_D0 :: nat where "FUNC_CMOS_D0 = 138"
definition FUNC_CMOS_D1 :: nat where "FUNC_CMOS_D1 = 139"
definition FUNC_CMOS_D2 :: nat where "FUNC_CMOS_D2 = 140"
definition FUNC_CMOS_D3 :: nat where "FUNC_CMOS_D3 = 141"
definition FUNC_CMOS_D4 :: nat where "FUNC_CMOS_D4 = 142"
definition FUNC_CMOS_D5 :: nat where "FUNC_CMOS_D5 = 143"
definition FUNC_CMOS_D6 :: nat where "FUNC_CMOS_D6 = 144"
definition FUNC_CMOS_D7 :: nat where "FUNC_CMOS_D7 = 145"
definition FUNC_SCCB_SCLK :: nat where "FUNC_SCCB_SCLK = 146"
definition FUNC_SCCB_SDA :: nat where "FUNC_SCCB_SDA = 147"
definition FUNC_UART1_CTS :: nat where "FUNC_UART1_CTS = 148"
definition FUNC_UART1_DSR :: nat where "FUNC_UART1_DSR = 149"
definition FUNC_UART1_DCD :: nat where "FUNC_UART1_DCD = 150"
definition FUNC_UART1_RI :: nat where "FUNC_UART1_RI = 151"
definition FUNC_UART1_SIR_IN :: nat where "FUNC_UART1_SIR_IN = 152"
definition FUNC_UART1_DTR :: nat where "FUNC_UART1_DTR = 153"
definition FUNC_UART1_RTS :: nat where "FUNC_UART1_RTS = 154"
definition FUNC_UART1_OUT2 :: nat where "FUNC_UART1_OUT2 = 155"
definition FUNC_UART1_OUT1 :: nat where "FUNC_UART1_OUT1 = 156"
definition FUNC_UART1_SIR_OUT :: nat where "FUNC_UART1_SIR_OUT = 157"
definition FUNC_UART1_BAUD :: nat where "FUNC_UART1_BAUD = 158"
definition FUNC_UART1_RE :: nat where "FUNC_UART1_RE = 159"
definition FUNC_UART1_DE :: nat where "FUNC_UART1_DE = 160"
definition FUNC_UART1_RS485_EN :: nat where "FUNC_UART1_RS485_EN = 161"
definition FUNC_UART2_CTS :: nat where "FUNC_UART2_CTS = 162"
definition FUNC_UART2_DSR :: nat where "FUNC_UART2_DSR = 163"
definition FUNC_UART2_DCD :: nat where "FUNC_UART2_DCD = 164"
definition FUNC_UART2_RI :: nat where "FUNC_UART2_RI = 165"
definition FUNC_UART2_SIR_IN :: nat where "FUNC_UART2_SIR_IN = 166"
definition FUNC_UART2_DTR :: nat where "FUNC_UART2_DTR = 167"
definition FUNC_UART2_RTS :: nat where "FUNC_UART2_RTS = 168"
definition FUNC_UART2_OUT2 :: nat where "FUNC_UART2_OUT2 = 169"
definition FUNC_UART2_OUT1 :: nat where "FUNC_UART2_OUT1 = 170"
definition FUNC_UART2_SIR_OUT :: nat where "FUNC_UART2_SIR_OUT = 171"
definition FUNC_UART2_BAUD :: nat where "FUNC_UART2_BAUD = 172"
definition FUNC_UART2_RE :: nat where "FUNC_UART2_RE = 173"
definition FUNC_UART2_DE :: nat where "FUNC_UART2_DE = 174"
definition FUNC_UART2_RS485_EN :: nat where "FUNC_UART2_RS485_EN = 175"
definition FUNC_UART3_CTS :: nat where "FUNC_UART3_CTS = 176"
definition FUNC_UART3_DSR :: nat where "FUNC_UART3_DSR = 177"
definition FUNC_UART3_DCD :: nat where "FUNC_UART3_DCD = 178"
definition FUNC_UART3_RI :: nat where "FUNC_UART3_RI = 179"
definition FUNC_UART3_SIR_IN :: nat where "FUNC_UART3_SIR_IN = 180"
definition FUNC_UART3_DTR :: nat where "FUNC_UART3_DTR = 181"
definition FUNC_UART3_RTS :: nat where "FUNC_UART3_RTS = 182"
definition FUNC_UART3_OUT2 :: nat where "FUNC_UART3_OUT2 = 183"
definition FUNC_UART3_OUT1 :: nat where "FUNC_UART3_OUT1 = 184"
definition FUNC_UART3_SIR_OUT :: nat where "FUNC_UART3_SIR_OUT = 185"
definition FUNC_UART3_BAUD :: nat where "FUNC_UART3_BAUD = 186"
definition FUNC_UART3_RE :: nat where "FUNC_UART3_RE = 187"
definition FUNC_UART3_DE :: nat where "FUNC_UART3_DE = 188"
definition FUNC_UART3_RS485_EN :: nat where "FUNC_UART3_RS485_EN = 189"
definition FUNC_TIMER0_TOGGLE1 :: nat where "FUNC_TIMER0_TOGGLE1 = 190"
definition FUNC_TIMER0_TOGGLE2 :: nat where "FUNC_TIMER0_TOGGLE2 = 191"
definition FUNC_TIMER0_TOGGLE3 :: nat where "FUNC_TIMER0_TOGGLE3 = 192"
definition FUNC_TIMER0_TOGGLE4 :: nat where "FUNC_TIMER0_TOGGLE4 = 193"
definition FUNC_TIMER1_TOGGLE1 :: nat where "FUNC_TIMER1_TOGGLE1 = 194"
definition FUNC_TIMER1_TOGGLE2 :: nat where "FUNC_TIMER1_TOGGLE2 = 195"
definition FUNC_TIMER1_TOGGLE3 :: nat where "FUNC_TIMER1_TOGGLE3 = 196"
definition FUNC_TIMER1_TOGGLE4 :: nat where "FUNC_TIMER1_TOGGLE4 = 197"
definition FUNC_TIMER2_TOGGLE1 :: nat where "FUNC_TIMER2_TOGGLE1 = 198"
definition FUNC_TIMER2_TOGGLE2 :: nat where "FUNC_TIMER2_TOGGLE2 = 199"
definition FUNC_TIMER2_TOGGLE3 :: nat where "FUNC_TIMER2_TOGGLE3 = 200"
definition FUNC_TIMER2_TOGGLE4 :: nat where "FUNC_TIMER2_TOGGLE4 = 201"
definition FUNC_CLK_SPI2 :: nat where "FUNC_CLK_SPI2 = 202"
definition FUNC_CLK_I2C2 :: nat where "FUNC_CLK_I2C2 = 203"
definition FUNC_INTERNAL0 :: nat where "FUNC_INTERNAL0 = 204"
definition FUNC_INTERNAL1 :: nat where "FUNC_INTERNAL1 = 205"
definition FUNC_INTERNAL2 :: nat where "FUNC_INTERNAL2 = 206"
definition FUNC_INTERNAL3 :: nat where "FUNC_INTERNAL3 = 207"
definition FUNC_INTERNAL4 :: nat where "FUNC_INTERNAL4 = 208"
definition FUNC_INTERNAL5 :: nat where "FUNC_INTERNAL5 = 209"
definition FUNC_INTERNAL6 :: nat where "FUNC_INTERNAL6 = 210"
definition FUNC_INTERNAL7 :: nat where "FUNC_INTERNAL7 = 211"
definition FUNC_INTERNAL8 :: nat where "FUNC_INTERNAL8 = 212"
definition FUNC_INTERNAL9 :: nat where "FUNC_INTERNAL9 = 213"
definition FUNC_INTERNAL10 :: nat where "FUNC_INTERNAL10 = 214"
definition FUNC_INTERNAL11 :: nat where "FUNC_INTERNAL11 = 215"
definition FUNC_INTERNAL12 :: nat where "FUNC_INTERNAL12 = 216"
definition FUNC_INTERNAL13 :: nat where "FUNC_INTERNAL13 = 217"
definition FUNC_INTERNAL14 :: nat where "FUNC_INTERNAL14 = 218"
definition FUNC_INTERNAL15 :: nat where "FUNC_INTERNAL15 = 219"
definition FUNC_INTERNAL16 :: nat where "FUNC_INTERNAL16 = 220"
definition FUNC_INTERNAL17 :: nat where "FUNC_INTERNAL17 = 221"
definition FUNC_CONSTANT :: nat where "FUNC_CONSTANT = 222"
definition FUNC_INTERNAL18 :: nat where "FUNC_INTERNAL18 = 223"
definition FUNC_DEBUG0 :: nat where "FUNC_DEBUG0 = 224"
definition FUNC_DEBUG1 :: nat where "FUNC_DEBUG1 = 225"
definition FUNC_DEBUG2 :: nat where "FUNC_DEBUG2 = 226"
definition FUNC_DEBUG3 :: nat where "FUNC_DEBUG3 = 227"
definition FUNC_DEBUG4 :: nat where "FUNC_DEBUG4 = 228"
definition FUNC_DEBUG5 :: nat where "FUNC_DEBUG5 = 229"
definition FUNC_DEBUG6 :: nat where "FUNC_DEBUG6 = 230"
definition FUNC_DEBUG7 :: nat where "FUNC_DEBUG7 = 231"
definition FUNC_DEBUG8 :: nat where "FUNC_DEBUG8 = 232"
definition FUNC_DEBUG9 :: nat where "FUNC_DEBUG9 = 233"
definition FUNC_DEBUG10 :: nat where "FUNC_DEBUG10 = 234"
definition FUNC_DEBUG11 :: nat where "FUNC_DEBUG11 = 235"
definition FUNC_DEBUG12 :: nat where "FUNC_DEBUG12 = 236"
definition FUNC_DEBUG13 :: nat where "FUNC_DEBUG13 = 237"
definition FUNC_DEBUG14 :: nat where "FUNC_DEBUG14 = 238"
definition FUNC_DEBUG15 :: nat where "FUNC_DEBUG15 = 239"
definition FUNC_DEBUG16 :: nat where "FUNC_DEBUG16 = 240"
definition FUNC_DEBUG17 :: nat where "FUNC_DEBUG17 = 241"
definition FUNC_DEBUG18 :: nat where "FUNC_DEBUG18 = 242"
definition FUNC_DEBUG19 :: nat where "FUNC_DEBUG19 = 243"
definition FUNC_DEBUG20 :: nat where "FUNC_DEBUG20 = 244"
definition FUNC_DEBUG21 :: nat where "FUNC_DEBUG21 = 245"
definition FUNC_DEBUG22 :: nat where "FUNC_DEBUG22 = 246"
definition FUNC_DEBUG23 :: nat where "FUNC_DEBUG23 = 247"
definition FUNC_DEBUG24 :: nat where "FUNC_DEBUG24 = 248"
definition FUNC_DEBUG25 :: nat where "FUNC_DEBUG25 = 249"
definition FUNC_DEBUG26 :: nat where "FUNC_DEBUG26 = 250"
definition FUNC_DEBUG27 :: nat where "FUNC_DEBUG27 = 251"
definition FUNC_DEBUG28 :: nat where "FUNC_DEBUG28 = 252"
definition FUNC_DEBUG29 :: nat where "FUNC_DEBUG29 = 253"
definition FUNC_DEBUG30 :: nat where "FUNC_DEBUG30 = 254"
definition FUNC_DEBUG31 :: nat where "FUNC_DEBUG31 = 255"
definition FUNC_MAX :: nat where "FUNC_MAX = 256"

lemmas fpioa_function_defs =
  FUNC_JTAG_TCLK_def FUNC_JTAG_TDI_def FUNC_JTAG_TMS_def FUNC_JTAG_TDO_def FUNC_SPI0_D0_def 
  FUNC_SPI0_D1_def FUNC_SPI0_D2_def FUNC_SPI0_D3_def FUNC_SPI0_D4_def FUNC_SPI0_D5_def 
  FUNC_SPI0_D6_def FUNC_SPI0_D7_def FUNC_SPI0_SS0_def FUNC_SPI0_SS1_def FUNC_SPI0_SS2_def 
  FUNC_SPI0_SS3_def FUNC_SPI0_ARB_def FUNC_SPI0_SCLK_def FUNC_UARTHS_RX_def FUNC_UARTHS_TX_def 
  FUNC_RESV6_def FUNC_RESV7_def FUNC_CLK_SPI1_def FUNC_CLK_I2C1_def FUNC_GPIOHS0_def 
  FUNC_GPIOHS1_def FUNC_GPIOHS2_def FUNC_GPIOHS3_def FUNC_GPIOHS4_def FUNC_GPIOHS5_def 
  FUNC_GPIOHS6_def FUNC_GPIOHS7_def FUNC_GPIOHS8_def FUNC_GPIOHS9_def FUNC_GPIOHS10_def 
  FUNC_GPIOHS11_def FUNC_GPIOHS12_def FUNC_GPIOHS13_def FUNC_GPIOHS14_def FUNC_GPIOHS15_def 
  FUNC_GPIOHS16_def FUNC_GPIOHS17_def FUNC_GPIOHS18_def FUNC_GPIOHS19_def FUNC_GPIOHS20_def 
  FUNC_GPIOHS21_def FUNC_GPIOHS22_def FUNC_GPIOHS23_def FUNC_GPIOHS24_def FUNC_GPIOHS25_def 
  FUNC_GPIOHS26_def FUNC_GPIOHS27_def FUNC_GPIOHS28_def FUNC_GPIOHS29_def FUNC_GPIOHS30_def 
  FUNC_GPIOHS31_def FUNC_GPIO0_def FUNC_GPIO1_def FUNC_GPIO2_def FUNC_GPIO3_def FUNC_GPIO4_def 
  FUNC_GPIO5_def FUNC_GPIO6_def FUNC_GPIO7_def FUNC_UART1_RX_def FUNC_UART1_TX_def 
  FUNC_UART2_RX_def FUNC_UART2_TX_def FUNC_UART3_RX_def FUNC_UART3_TX_def FUNC_SPI1_D0_def 
  FUNC_SPI1_D1_def FUNC_SPI1_D2_def FUNC_SPI1_D3_def FUNC_SPI1_D4_def FUNC_SPI1_D5_def 
  FUNC_SPI1_D6_def FUNC_SPI1_D7_def FUNC_SPI1_SS0_def FUNC_SPI1_SS1_def FUNC_SPI1_SS2_def 
  FUNC_SPI1_SS3_def FUNC_SPI1_ARB_def FUNC_SPI1_SCLK_def FUNC_SPI_SLAVE_D0_def 
  FUNC_SPI_SLAVE_SS_def FUNC_SPI_SLAVE_SCLK_def FUNC_I2S0_MCLK_def FUNC_I2S0_SCLK_def 
  FUNC_I2S0_WS_def FUNC_I2S0_IN_D0_def FUNC_I2S0_IN_D1_def FUNC_I2S0_IN_D2_def 
  FUNC_I2S0_IN_D3_def FUNC_I2S0_OUT_D0_def FUNC_I2S0_OUT_D1_def FUNC_I2S0_OUT_D2_def 
  FUNC_I2S0_OUT_D3_def FUNC_I2S1_MCLK_def FUNC_I2S1_SCLK_def FUNC_I2S1_WS_def FUNC_I2S1_IN_D0_def 
  FUNC_I2S1_IN_D1_def FUNC_I2S1_IN_D2_def FUNC_I2S1_IN_D3_def FUNC_I2S1_OUT_D0_def 
  FUNC_I2S1_OUT_D1_def FUNC_I2S1_OUT_D2_def FUNC_I2S1_OUT_D3_def FUNC_I2S2_MCLK_def 
  FUNC_I2S2_SCLK_def FUNC_I2S2_WS_def FUNC_I2S2_IN_D0_def FUNC_I2S2_IN_D1_def FUNC_I2S2_IN_D2_def 
  FUNC_I2S2_IN_D3_def FUNC_I2S2_OUT_D0_def FUNC_I2S2_OUT_D1_def FUNC_I2S2_OUT_D2_def 
  FUNC_I2S2_OUT_D3_def FUNC_RESV0_def FUNC_RESV1_def FUNC_RESV2_def FUNC_RESV3_def FUNC_RESV4_def 
  FUNC_RESV5_def FUNC_I2C0_SCLK_def FUNC_I2C0_SDA_def FUNC_I2C1_SCLK_def FUNC_I2C1_SDA_def 
  FUNC_I2C2_SCLK_def FUNC_I2C2_SDA_def FUNC_CMOS_XCLK_def FUNC_CMOS_RST_def FUNC_CMOS_PWDN_def 
  FUNC_CMOS_VSYNC_def FUNC_CMOS_HREF_def FUNC_CMOS_PCLK_def FUNC_CMOS_D0_def FUNC_CMOS_D1_def 
  FUNC_CMOS_D2_def FUNC_CMOS_D3_def FUNC_CMOS_D4_def FUNC_CMOS_D5_def FUNC_CMOS_D6_def 
  FUNC_CMOS_D7_def FUNC_SCCB_SCLK_def FUNC_SCCB_SDA_def FUNC_UART1_CTS_def FUNC_UART1_DSR_def 
  FUNC_UART1_DCD_def FUNC_UART1_RI_def FUNC_UART1_SIR_IN_def FUNC_UART1_DTR_def 
  FUNC_UART1_RTS_def FUNC_UART1_OUT2_def FUNC_UART1_OUT1_def FUNC_UART1_SIR_OUT_def 
  FUNC_UART1_BAUD_def FUNC_UART1_RE_def FUNC_UART1_DE_def FUNC_UART1_RS485_EN_def 
  FUNC_UART2_CTS_def FUNC_UART2_DSR_def FUNC_UART2_DCD_def FUNC_UART2_RI_def 
  FUNC_UART2_SIR_IN_def FUNC_UART2_DTR_def FUNC_UART2_RTS_def FUNC_UART2_OUT2_def 
  FUNC_UART2_OUT1_def FUNC_UART2_SIR_OUT_def FUNC_UART2_BAUD_def FUNC_UART2_RE_def 
  FUNC_UART2_DE_def FUNC_UART2_RS485_EN_def FUNC_UART3_CTS_def FUNC_UART3_DSR_def 
  FUNC_UART3_DCD_def FUNC_UART3_RI_def FUNC_UART3_SIR_IN_def FUNC_UART3_DTR_def 
  FUNC_UART3_RTS_def FUNC_UART3_OUT2_def FUNC_UART3_OUT1_def FUNC_UART3_SIR_OUT_def 
  FUNC_UART3_BAUD_def FUNC_UART3_RE_def FUNC_UART3_DE_def FUNC_UART3_RS485_EN_def 
  FUNC_TIMER0_TOGGLE1_def FUNC_TIMER0_TOGGLE2_def FUNC_TIMER0_TOGGLE3_def FUNC_TIMER0_TOGGLE4_def 
  FUNC_TIMER1_TOGGLE1_def FUNC_TIMER1_TOGGLE2_def FUNC_TIMER1_TOGGLE3_def FUNC_TIMER1_TOGGLE4_def 
  FUNC_TIMER2_TOGGLE1_def FUNC_TIMER2_TOGGLE2_def FUNC_TIMER2_TOGGLE3_def FUNC_TIMER2_TOGGLE4_def 
  FUNC_CLK_SPI2_def FUNC_CLK_I2C2_def FUNC_INTERNAL0_def FUNC_INTERNAL1_def FUNC_INTERNAL2_def 
  FUNC_INTERNAL3_def FUNC_INTERNAL4_def FUNC_INTERNAL5_def FUNC_INTERNAL6_def FUNC_INTERNAL7_def 
  FUNC_INTERNAL8_def FUNC_INTERNAL9_def FUNC_INTERNAL10_def FUNC_INTERNAL11_def 
  FUNC_INTERNAL12_def FUNC_INTERNAL13_def FUNC_INTERNAL14_def FUNC_INTERNAL15_def 
  FUNC_INTERNAL16_def FUNC_INTERNAL17_def FUNC_CONSTANT_def FUNC_INTERNAL18_def FUNC_DEBUG0_def 
  FUNC_DEBUG1_def FUNC_DEBUG2_def FUNC_DEBUG3_def FUNC_DEBUG4_def FUNC_DEBUG5_def FUNC_DEBUG6_def 
  FUNC_DEBUG7_def FUNC_DEBUG8_def FUNC_DEBUG9_def FUNC_DEBUG10_def FUNC_DEBUG11_def 
  FUNC_DEBUG12_def FUNC_DEBUG13_def FUNC_DEBUG14_def FUNC_DEBUG15_def FUNC_DEBUG16_def 
  FUNC_DEBUG17_def FUNC_DEBUG18_def FUNC_DEBUG19_def FUNC_DEBUG20_def FUNC_DEBUG21_def 
  FUNC_DEBUG22_def FUNC_DEBUG23_def FUNC_DEBUG24_def FUNC_DEBUG25_def FUNC_DEBUG26_def 
  FUNC_DEBUG27_def FUNC_DEBUG28_def FUNC_DEBUG29_def FUNC_DEBUG30_def FUNC_DEBUG31_def 
  FUNC_MAX_def

section \<open>fpioa_assign_t\<close>

text \<open>The bit fields of a row, each at its width.\<close>

record fpioa_assign =
  ch_sel :: "8 word"
  ds :: "4 word"
  oe_en :: "1 word"
  oe_inv :: "1 word"
  do_sel :: "1 word"
  do_inv :: "1 word"
  pu :: "1 word"
  pd :: "1 word"
  resv0 :: "1 word"
  sl :: "1 word"
  ie_en :: "1 word"
  ie_inv :: "1 word"
  di_inv :: "1 word"
  st :: "1 word"
  tie_en :: "1 word"
  tie_val :: "1 word"
  resv1 :: "5 word"
  pad_di :: "1 word"

text \<open>
  A row. The fields come in the order of the struct; the initialisers name \<open>resv1\<close> before \<open>sl\<close>
  and \<open>resv0\<close> after \<open>tie_val\<close>, and some name \<open>oe_en\<close> twice, with the same value.
\<close>

definition cell :: "nat \<Rightarrow> 4 word \<Rightarrow> 1 word \<Rightarrow> 1 word \<Rightarrow> 1 word \<Rightarrow> 1 word \<Rightarrow> 1 word \<Rightarrow> 1 word \<Rightarrow>
    1 word \<Rightarrow> 1 word \<Rightarrow> 1 word \<Rightarrow> 1 word \<Rightarrow> 1 word \<Rightarrow> 1 word \<Rightarrow> 1 word \<Rightarrow> 1 word \<Rightarrow> 5 word \<Rightarrow> 1 word \<Rightarrow>
    fpioa_assign" where
  "cell f d oe oi ds' di u p r0 l ie ii dii s te tv r1 pad =
     \<lparr>ch_sel = word_of_nat f, ds = d, oe_en = oe, oe_inv = oi, do_sel = ds', do_inv = di, pu = u, pd = p,
      resv0 = r0, sl = l, ie_en = ie, ie_inv = ii, di_inv = dii, st = s, tie_en = te, tie_val = tv,
      resv1 = r1, pad_di = pad\<rparr>"

section \<open>function_config\<close>

text \<open>
  Columns: ch_sel, ds, oe_en, oe_inv, do_sel, do_inv, pu, pd, resv0, sl, ie_en, ie_inv, di_inv, st,
  tie_en, tie_val, resv1, pad_di.
\<close>

definition function_config_0 :: "fpioa_assign list" where
  "function_config_0 = [
     cell FUNC_JTAG_TCLK 0x0 0 0 0 0 0 0 0 0 1 0 0 1 0 0 0 0,
     cell FUNC_JTAG_TDI 0x0 0 0 0 0 0 0 0 0 1 0 0 1 0 0 0 0,
     cell FUNC_JTAG_TMS 0x0 0 0 0 0 0 0 0 0 1 0 0 1 0 0 0 0,
     cell FUNC_JTAG_TDO 0xf 1 0 0 0 0 0 0 0 0 0 0 0 0 0 0 0,
     cell FUNC_SPI0_D0 0xf 1 1 0 0 0 0 0 0 1 1 0 1 0 0 0 0,
     cell FUNC_SPI0_D1 0xf 1 1 0 0 0 0 0 0 1 1 0 1 0 0 0 0,
     cell FUNC_SPI0_D2 0xf 1 1 0 0 0 0 0 0 1 1 0 1 0 0 0 0,
     cell FUNC_SPI0_D3 0xf 1 1 0 0 0 0 0 0 1 1 0 1 0 0 0 0]"

definition function_config_1 :: "fpioa_assign list" where
  "function_config_1 = [
     cell FUNC_SPI0_D4 0xf 1 1 0 0 0 0 0 0 1 1 0 1 0 0 0 0,
     cell FUNC_SPI0_D5 0xf 1 1 0 0 0 0 0 0 1 1 0 1 0 0 0 0,
     cell FUNC_SPI0_D6 0xf 1 1 0 0 0 0 0 0 1 1 0 1 0 0 0 0,
     cell FUNC_SPI0_D7 0xf 1 1 0 0 0 0 0 0 1 1 0 1 0 0 0 0,
     cell FUNC_SPI0_SS0 0xf 1 0 0 0 0 0 0 0 0 0 0 0 0 0 0 0,
     cell FUNC_SPI0_SS1 0xf 1 0 0 0 0 0 0 0 0 0 0 0 0 0 0 0,
     cell FUNC_SPI0_SS2 0xf 1 0 0 0 0 0 0 0 0 0 0 0 0 0 0 0,
     cell FUNC_SPI0_SS3 0xf 1 0 0 0 0 0 0 0 0 0 0 0 0 0 0 0]"

definition function_config_2 :: "fpioa_assign list" where
  "function_config_2 = [
     cell FUNC_SPI0_ARB 0x0 0 0 0 0 0 0 0 0 1 0 0 1 1 1 0 0,
     cell FUNC_SPI0_SCLK 0xf 1 0 0 0 0 0 0 0 0 0 0 0 0 0 0 0,
     cell FUNC_UARTHS_RX 0x0 0 0 0 0 0 0 0 0 1 0 0 1 0 0 0 0,
     cell FUNC_UARTHS_TX 0xf 1 0 0 0 0 0 0 0 0 0 0 0 0 0 0 0,
     cell FUNC_RESV6 0x0 0 0 0 0 0 0 0 0 1 0 0 1 0 0 0 0,
     cell FUNC_RESV7 0x0 0 0 0 0 0 0 0 0 1 0 0 1 0 0 0 0,
     cell FUNC_CLK_SPI1 0xf 1 0 0 0 0 0 0 0 0 0 0 0 0 0 0 0,
     cell FUNC_CLK_I2C1 0xf 1 0 0 0 0 0 0 0 0 0 0 0 0 0 0 0]"

definition function_config_3 :: "fpioa_assign list" where
  "function_config_3 = [
     cell FUNC_GPIOHS0 0xf 1 0 0 0 0 0 0 0 1 0 0 1 0 0 0 0,
     cell FUNC_GPIOHS1 0xf 1 0 0 0 0 0 0 0 1 0 0 1 0 0 0 0,
     cell FUNC_GPIOHS2 0xf 1 0 0 0 0 0 0 0 1 0 0 1 0 0 0 0,
     cell FUNC_GPIOHS3 0xf 1 0 0 0 0 0 0 0 1 0 0 1 0 0 0 0,
     cell FUNC_GPIOHS4 0xf 1 0 0 0 0 0 0 0 1 0 0 1 0 0 0 0,
     cell FUNC_GPIOHS5 0xf 1 0 0 0 0 0 0 0 1 0 0 1 0 0 0 0,
     cell FUNC_GPIOHS6 0xf 1 0 0 0 0 0 0 0 1 0 0 1 0 0 0 0,
     cell FUNC_GPIOHS7 0xf 1 0 0 0 0 0 0 0 1 0 0 1 0 0 0 0]"

definition function_config_4 :: "fpioa_assign list" where
  "function_config_4 = [
     cell FUNC_GPIOHS8 0xf 1 0 0 0 0 0 0 0 1 0 0 1 0 0 0 0,
     cell FUNC_GPIOHS9 0xf 1 0 0 0 0 0 0 0 1 0 0 1 0 0 0 0,
     cell FUNC_GPIOHS10 0xf 1 0 0 0 0 0 0 0 1 0 0 1 0 0 0 0,
     cell FUNC_GPIOHS11 0xf 1 0 0 0 0 0 0 0 1 0 0 1 0 0 0 0,
     cell FUNC_GPIOHS12 0xf 1 0 0 0 0 0 0 0 1 0 0 1 0 0 0 0,
     cell FUNC_GPIOHS13 0xf 1 0 0 0 0 0 0 0 1 0 0 1 0 0 0 0,
     cell FUNC_GPIOHS14 0xf 1 0 0 0 0 0 0 0 1 0 0 1 0 0 0 0,
     cell FUNC_GPIOHS15 0xf 1 0 0 0 0 0 0 0 1 0 0 1 0 0 0 0]"

definition function_config_5 :: "fpioa_assign list" where
  "function_config_5 = [
     cell FUNC_GPIOHS16 0xf 1 0 0 0 0 0 0 0 1 0 0 1 0 0 0 0,
     cell FUNC_GPIOHS17 0xf 1 0 0 0 0 0 0 0 1 0 0 1 0 0 0 0,
     cell FUNC_GPIOHS18 0xf 1 0 0 0 0 0 0 0 1 0 0 1 0 0 0 0,
     cell FUNC_GPIOHS19 0xf 1 0 0 0 0 0 0 0 1 0 0 1 0 0 0 0,
     cell FUNC_GPIOHS20 0xf 1 0 0 0 0 0 0 0 1 0 0 1 0 0 0 0,
     cell FUNC_GPIOHS21 0xf 1 0 0 0 0 0 0 0 1 0 0 1 0 0 0 0,
     cell FUNC_GPIOHS22 0xf 1 0 0 0 0 0 0 0 1 0 0 1 0 0 0 0,
     cell FUNC_GPIOHS23 0xf 1 0 0 0 0 0 0 0 1 0 0 1 0 0 0 0]"

definition function_config_6 :: "fpioa_assign list" where
  "function_config_6 = [
     cell FUNC_GPIOHS24 0xf 1 0 0 0 0 0 0 0 1 0 0 1 0 0 0 0,
     cell FUNC_GPIOHS25 0xf 1 0 0 0 0 0 0 0 1 0 0 1 0 0 0 0,
     cell FUNC_GPIOHS26 0xf 1 0 0 0 0 0 0 0 1 0 0 1 0 0 0 0,
     cell FUNC_GPIOHS27 0xf 1 0 0 0 0 0 0 0 1 0 0 1 0 0 0 0,
     cell FUNC_GPIOHS28 0xf 1 0 0 0 0 0 0 0 1 0 0 1 0 0 0 0,
     cell FUNC_GPIOHS29 0xf 1 0 0 0 0 0 0 0 1 0 0 1 0 0 0 0,
     cell FUNC_GPIOHS30 0xf 1 0 0 0 0 0 0 0 1 0 0 1 0 0 0 0,
     cell FUNC_GPIOHS31 0xf 1 0 0 0 0 0 0 0 1 0 0 1 0 0 0 0]"

definition function_config_7 :: "fpioa_assign list" where
  "function_config_7 = [
     cell FUNC_GPIO0 0xf 1 0 0 0 0 0 0 0 1 0 0 1 0 0 0 0,
     cell FUNC_GPIO1 0xf 1 0 0 0 0 0 0 0 1 0 0 1 0 0 0 0,
     cell FUNC_GPIO2 0xf 1 0 0 0 0 0 0 0 1 0 0 1 0 0 0 0,
     cell FUNC_GPIO3 0xf 1 0 0 0 0 0 0 0 1 0 0 1 0 0 0 0,
     cell FUNC_GPIO4 0xf 1 0 0 0 0 0 0 0 1 0 0 1 0 0 0 0,
     cell FUNC_GPIO5 0xf 1 0 0 0 0 0 0 0 1 0 0 1 0 0 0 0,
     cell FUNC_GPIO6 0xf 1 0 0 0 0 0 0 0 1 0 0 1 0 0 0 0,
     cell FUNC_GPIO7 0xf 1 0 0 0 0 0 0 0 1 0 0 1 0 0 0 0]"

definition function_config_8 :: "fpioa_assign list" where
  "function_config_8 = [
     cell FUNC_UART1_RX 0x0 0 0 0 0 0 0 0 0 1 0 0 1 0 0 0 0,
     cell FUNC_UART1_TX 0xf 1 0 0 0 0 0 0 0 0 0 0 0 0 0 0 0,
     cell FUNC_UART2_RX 0x0 0 0 0 0 0 0 0 0 1 0 0 1 0 0 0 0,
     cell FUNC_UART2_TX 0xf 1 0 0 0 0 0 0 0 0 0 0 0 0 0 0 0,
     cell FUNC_UART3_RX 0x0 0 0 0 0 0 0 0 0 1 0 0 1 0 0 0 0,
     cell FUNC_UART3_TX 0xf 1 0 0 0 0 0 0 0 0 0 0 0 0 0 0 0,
     cell FUNC_SPI1_D0 0xf 1 1 0 0 0 0 0 0 1 1 0 1 0 0 0 0,
     cell FUNC_SPI1_D1 0xf 1 1 0 0 0 0 0 0 1 1 0 1 0 0 0 0]"

definition function_config_9 :: "fpioa_assign list" where
  "function_config_9 = [
     cell FUNC_SPI1_D2 0xf 1 1 0 0 0 0 0 0 1 1 0 1 0 0 0 0,
     cell FUNC_SPI1_D3 0xf 1 1 0 0 0 0 0 0 1 1 0 1 0 0 0 0,
     cell FUNC_SPI1_D4 0xf 1 1 0 0 0 0 0 0 1 1 0 1 0 0 0 0,
     cell FUNC_SPI1_D5 0xf 1 1 0 0 0 0 0 0 1 1 0 1 0 0 0 0,
     cell FUNC_SPI1_D6 0xf 1 1 0 0 0 0 0 0 1 1 0 1 0 0 0 0,
     cell FUNC_SPI1_D7 0xf 1 1 0 0 0 0 0 0 1 1 0 1 0 0 0 0,
     cell FUNC_SPI1_SS0 0xf 1 0 0 0 0 0 0 0 0 0 0 0 0 0 0 0,
     cell FUNC_SPI1_SS1 0xf 1 0 0 0 0 0 0 0 0 0 0 0 0 0 0 0]"

definition function_config_10 :: "fpioa_assign list" where
  "function_config_10 = [
     cell FUNC_SPI1_SS2 0xf 1 0 0 0 0 0 0 0 0 0 0 0 0 0 0 0,
     cell FUNC_SPI1_SS3 0xf 1 0 0 0 0 0 0 0 0 0 0 0 0 0 0 0,
     cell FUNC_SPI1_ARB 0x0 0 0 0 0 0 0 0 0 1 0 0 1 1 1 0 0,
     cell FUNC_SPI1_SCLK 0xf 1 0 0 0 0 0 0 0 0 0 0 0 0 0 0 0,
     cell FUNC_SPI_SLAVE_D0 0xf 1 1 0 0 0 0 0 0 1 1 0 1 0 0 0 0,
     cell FUNC_SPI_SLAVE_SS 0x0 0 0 0 0 0 0 0 0 1 0 0 1 0 0 0 0,
     cell FUNC_SPI_SLAVE_SCLK 0x0 0 0 0 0 0 0 0 0 1 0 0 1 0 0 0 0,
     cell FUNC_I2S0_MCLK 0xf 1 0 0 0 0 0 0 0 0 0 0 0 0 0 0 0]"

definition function_config_11 :: "fpioa_assign list" where
  "function_config_11 = [
     cell FUNC_I2S0_SCLK 0xf 1 0 0 0 0 0 0 0 0 0 0 0 0 0 0 0,
     cell FUNC_I2S0_WS 0xf 1 0 0 0 0 0 0 0 0 0 0 0 0 0 0 0,
     cell FUNC_I2S0_IN_D0 0x0 0 0 0 0 0 0 0 0 1 0 0 1 0 0 0 0,
     cell FUNC_I2S0_IN_D1 0x0 0 0 0 0 0 0 0 0 1 0 0 1 0 0 0 0,
     cell FUNC_I2S0_IN_D2 0x0 0 0 0 0 0 0 0 0 1 0 0 1 0 0 0 0,
     cell FUNC_I2S0_IN_D3 0x0 0 0 0 0 0 0 0 0 1 0 0 1 0 0 0 0,
     cell FUNC_I2S0_OUT_D0 0xf 1 0 0 0 0 0 0 0 0 0 0 0 0 0 0 0,
     cell FUNC_I2S0_OUT_D1 0xf 1 0 0 0 0 0 0 0 0 0 0 0 0 0 0 0]"

definition function_config_12 :: "fpioa_assign list" where
  "function_config_12 = [
     cell FUNC_I2S0_OUT_D2 0xf 1 0 0 0 0 0 0 0 0 0 0 0 0 0 0 0,
     cell FUNC_I2S0_OUT_D3 0xf 1 0 0 0 0 0 0 0 0 0 0 0 0 0 0 0,
     cell FUNC_I2S1_MCLK 0xf 1 0 0 0 0 0 0 0 0 0 0 0 0 0 0 0,
     cell FUNC_I2S1_SCLK 0xf 1 0 0 0 0 0 0 0 0 0 0 0 0 0 0 0,
     cell FUNC_I2S1_WS 0xf 1 0 0 0 0 0 0 0 0 0 0 0 0 0 0 0,
     cell FUNC_I2S1_IN_D0 0x0 0 0 0 0 0 0 0 0 1 0 0 1 0 0 0 0,
     cell FUNC_I2S1_IN_D1 0x0 0 0 0 0 0 0 0 0 1 0 0 1 0 0 0 0,
     cell FUNC_I2S1_IN_D2 0x0 0 0 0 0 0 0 0 0 1 0 0 1 0 0 0 0]"

definition function_config_13 :: "fpioa_assign list" where
  "function_config_13 = [
     cell FUNC_I2S1_IN_D3 0x0 0 0 0 0 0 0 0 0 1 0 0 1 0 0 0 0,
     cell FUNC_I2S1_OUT_D0 0xf 1 0 0 0 0 0 0 0 0 0 0 0 0 0 0 0,
     cell FUNC_I2S1_OUT_D1 0xf 1 0 0 0 0 0 0 0 0 0 0 0 0 0 0 0,
     cell FUNC_I2S1_OUT_D2 0xf 1 0 0 0 0 0 0 0 0 0 0 0 0 0 0 0,
     cell FUNC_I2S1_OUT_D3 0xf 1 0 0 0 0 0 0 0 0 0 0 0 0 0 0 0,
     cell FUNC_I2S2_MCLK 0xf 1 0 0 0 0 0 0 0 0 0 0 0 0 0 0 0,
     cell FUNC_I2S2_SCLK 0xf 1 0 0 0 0 0 0 0 0 0 0 0 0 0 0 0,
     cell FUNC_I2S2_WS 0xf 1 0 0 0 0 0 0 0 0 0 0 0 0 0 0 0]"

definition function_config_14 :: "fpioa_assign list" where
  "function_config_14 = [
     cell FUNC_I2S2_IN_D0 0x0 0 0 0 0 0 0 0 0 1 0 0 1 0 0 0 0,
     cell FUNC_I2S2_IN_D1 0x0 0 0 0 0 0 0 0 0 1 0 0 1 0 0 0 0,
     cell FUNC_I2S2_IN_D2 0x0 0 0 0 0 0 0 0 0 1 0 0 1 0 0 0 0,
     cell FUNC_I2S2_IN_D3 0x0 0 0 0 0 0 0 0 0 1 0 0 1 0 0 0 0,
     cell FUNC_I2S2_OUT_D0 0xf 1 0 0 0 0 0 0 0 0 0 0 0 0 0 0 0,
     cell FUNC_I2S2_OUT_D1 0xf 1 0 0 0 0 0 0 0 0 0 0 0 0 0 0 0,
     cell FUNC_I2S2_OUT_D2 0xf 1 0 0 0 0 0 0 0 0 0 0 0 0 0 0 0,
     cell FUNC_I2S2_OUT_D3 0xf 1 0 0 0 0 0 0 0 0 0 0 0 0 0 0 0]"

definition function_config_15 :: "fpioa_assign list" where
  "function_config_15 = [
     cell FUNC_RESV0 0x0 0 0 0 0 0 0 0 0 0 0 0 0 0 0 0 0,
     cell FUNC_RESV1 0x0 0 0 0 0 0 0 0 0 0 0 0 0 0 0 0 0,
     cell FUNC_RESV2 0x0 0 0 0 0 0 0 0 0 0 0 0 0 0 0 0 0,
     cell FUNC_RESV3 0x0 0 0 0 0 0 0 0 0 0 0 0 0 0 0 0 0,
     cell FUNC_RESV4 0x0 0 0 0 0 0 0 0 0 0 0 0 0 0 0 0 0,
     cell FUNC_RESV5 0x0 0 0 0 0 0 0 0 0 0 0 0 0 0 0 0 0,
     cell FUNC_I2C0_SCLK 0x0 1 0 0 0 1 0 0 1 1 0 0 1 0 0 0 0,
     cell FUNC_I2C0_SDA 0x0 1 0 0 0 1 0 0 1 1 0 0 1 0 0 0 0]"

definition function_config_16 :: "fpioa_assign list" where
  "function_config_16 = [
     cell FUNC_I2C1_SCLK 0x0 1 0 0 0 1 0 0 1 1 0 0 1 0 0 0 0,
     cell FUNC_I2C1_SDA 0x0 1 0 0 0 1 0 0 1 1 0 0 1 0 0 0 0,
     cell FUNC_I2C2_SCLK 0x0 1 0 0 0 1 0 0 1 1 0 0 1 0 0 0 0,
     cell FUNC_I2C2_SDA 0x0 1 0 0 0 1 0 0 1 1 0 0 1 0 0 0 0,
     cell FUNC_CMOS_XCLK 0xf 1 0 0 0 0 0 0 0 0 0 0 0 0 0 0 0,
     cell FUNC_CMOS_RST 0xf 1 0 0 0 0 0 0 0 0 0 0 0 0 0 0 0,
     cell FUNC_CMOS_PWDN 0xf 1 0 0 0 0 0 0 0 0 0 0 0 0 0 0 0,
     cell FUNC_CMOS_VSYNC 0x0 0 0 0 0 0 0 0 0 1 0 0 1 0 0 0 0]"

definition function_config_17 :: "fpioa_assign list" where
  "function_config_17 = [
     cell FUNC_CMOS_HREF 0x0 0 0 0 0 0 0 0 0 1 0 0 1 0 0 0 0,
     cell FUNC_CMOS_PCLK 0x0 0 0 0 0 0 0 0 0 1 0 0 1 0 0 0 0,
     cell FUNC_CMOS_D0 0x0 0 0 0 0 0 0 0 0 1 0 0 1 0 0 0 0,
     cell FUNC_CMOS_D1 0x0 0 0 0 0 0 0 0 0 1 0 0 1 0 0 0 0,
     cell FUNC_CMOS_D2 0x0 0 0 0 0 0 0 0 0 1 0 0 1 0 0 0 0,
     cell FUNC_CMOS_D3 0x0 0 0 0 0 0 0 0 0 1 0 0 1 0 0 0 0,
     cell FUNC_CMOS_D4 0x0 0 0 0 0 0 0 0 0 1 0 0 1 0 0 0 0,
     cell FUNC_CMOS_D5 0x0 0 0 0 0 0 0 0 0 1 0 0 1 0 0 0 0]"

definition function_config_18 :: "fpioa_assign list" where
  "function_config_18 = [
     cell FUNC_CMOS_D6 0x0 0 0 0 0 0 0 0 0 1 0 0 1 0 0 0 0,
     cell FUNC_CMOS_D7 0x0 0 0 0 0 0 0 0 0 1 0 0 1 0 0 0 0,
     cell FUNC_SCCB_SCLK 0x0 1 1 0 0 1 0 0 1 1 0 0 1 0 0 0 0,
     cell FUNC_SCCB_SDA 0x0 1 1 0 0 1 0 0 1 1 0 0 1 0 0 0 0,
     cell FUNC_UART1_CTS 0x0 0 0 0 0 0 0 0 0 1 0 0 1 0 0 0 0,
     cell FUNC_UART1_DSR 0x0 0 0 0 0 0 0 0 0 1 0 0 1 0 0 0 0,
     cell FUNC_UART1_DCD 0x0 0 0 0 0 0 0 0 0 1 0 0 1 0 0 0 0,
     cell FUNC_UART1_RI 0x0 0 0 0 0 0 0 0 0 1 0 0 1 0 0 0 0]"

definition function_config_19 :: "fpioa_assign list" where
  "function_config_19 = [
     cell FUNC_UART1_SIR_IN 0x0 0 0 0 0 0 0 0 0 1 0 0 1 0 0 0 0,
     cell FUNC_UART1_DTR 0xf 1 0 0 0 0 0 0 0 0 0 0 0 0 0 0 0,
     cell FUNC_UART1_RTS 0xf 1 0 0 0 0 0 0 0 0 0 0 0 0 0 0 0,
     cell FUNC_UART1_OUT2 0xf 1 0 0 0 0 0 0 0 0 0 0 0 0 0 0 0,
     cell FUNC_UART1_OUT1 0xf 1 0 0 0 0 0 0 0 0 0 0 0 0 0 0 0,
     cell FUNC_UART1_SIR_OUT 0xf 1 0 0 0 0 0 0 0 0 0 0 0 0 0 0 0,
     cell FUNC_UART1_BAUD 0xf 1 0 0 0 0 0 0 0 0 0 0 0 0 0 0 0,
     cell FUNC_UART1_RE 0xf 1 0 0 0 0 0 0 0 0 0 0 0 0 0 0 0]"

definition function_config_20 :: "fpioa_assign list" where
  "function_config_20 = [
     cell FUNC_UART1_DE 0xf 1 0 0 0 0 0 0 0 0 0 0 0 0 0 0 0,
     cell FUNC_UART1_RS485_EN 0xf 1 0 0 0 0 0 0 0 0 0 0 0 0 0 0 0,
     cell FUNC_UART2_CTS 0x0 0 0 0 0 0 0 0 0 1 0 0 1 0 0 0 0,
     cell FUNC_UART2_DSR 0x0 0 0 0 0 0 0 0 0 1 0 0 1 0 0 0 0,
     cell FUNC_UART2_DCD 0x0 0 0 0 0 0 0 0 0 1 0 0 1 0 0 0 0,
     cell FUNC_UART2_RI 0x0 0 0 0 0 0 0 0 0 1 0 0 1 0 0 0 0,
     cell FUNC_UART2_SIR_IN 0x0 0 0 0 0 0 0 0 0 1 0 0 1 0 0 0 0,
     cell FUNC_UART2_DTR 0xf 1 0 0 0 0 0 0 0 0 0 0 0 0 0 0 0]"

definition function_config_21 :: "fpioa_assign list" where
  "function_config_21 = [
     cell FUNC_UART2_RTS 0xf 1 0 0 0 0 0 0 0 0 0 0 0 0 0 0 0,
     cell FUNC_UART2_OUT2 0xf 1 0 0 0 0 0 0 0 0 0 0 0 0 0 0 0,
     cell FUNC_UART2_OUT1 0xf 1 0 0 0 0 0 0 0 0 0 0 0 0 0 0 0,
     cell FUNC_UART2_SIR_OUT 0xf 1 0 0 0 0 0 0 0 0 0 0 0 0 0 0 0,
     cell FUNC_UART2_BAUD 0xf 1 0 0 0 0 0 0 0 0 0 0 0 0 0 0 0,
     cell FUNC_UART2_RE 0xf 1 0 0 0 0 0 0 0 0 0 0 0 0 0 0 0,
     cell FUNC_UART2_DE 0xf 1 0 0 0 0 0 0 0 0 0 0 0 0 0 0 0,
     cell FUNC_UART2_RS485_EN 0xf 1 0 0 0 0 0 0 0 0 0 0 0 0 0 0 0]"

definition function_config_22 :: "fpioa_assign list" where
  "function_config_22 = [
     cell FUNC_UART3_CTS 0x0 0 0 0 0 0 0 0 0 1 0 0 1 0 0 0 0,
     cell FUNC_UART3_DSR 0x0 0 0 0 0 0 0 0 0 1 0 0 1 0 0 0 0,
     cell FUNC_UART3_DCD 0x0 0 0 0 0 0 0 0 0 1 0 0 1 0 0 0 0,
     cell FUNC_UART3_RI 0x0 0 0 0 0 0 0 0 0 1 0 0 1 0 0 0 0,
     cell FUNC_UART3_SIR_IN 0x0 0 0 0 0 0 0 0 0 1 0 0 1 0 0 0 0,
     cell FUNC_UART3_DTR 0xf 1 0 0 0 0 0 0 0 0 0 0 0 0 0 0 0,
     cell FUNC_UART3_RTS 0xf 1 0 0 0 0 0 0 0 0 0 0 0 0 0 0 0,
     cell FUNC_UART3_OUT2 0xf 1 0 0 0 0 0 0 0 0 0 0 0 0 0 0 0]"

definition function_config_23 :: "fpioa_assign list" where
  "function_config_23 = [
     cell FUNC_UART3_OUT1 0xf 1 0 0 0 0 0 0 0 0 0 0 0 0 0 0 0,
     cell FUNC_UART3_SIR_OUT 0xf 1 0 0 0 0 0 0 0 0 0 0 0 0 0 0 0,
     cell FUNC_UART3_BAUD 0xf 1 0 0 0 0 0 0 0 0 0 0 0 0 0 0 0,
     cell FUNC_UART3_RE 0xf 1 0 0 0 0 0 0 0 0 0 0 0 0 0 0 0,
     cell FUNC_UART3_DE 0xf 1 0 0 0 0 0 0 0 0 0 0 0 0 0 0 0,
     cell FUNC_UART3_RS485_EN 0xf 1 0 0 0 0 0 0 0 0 0 0 0 0 0 0 0,
     cell FUNC_TIMER0_TOGGLE1 0xf 1 0 0 0 0 0 0 0 0 0 0 0 0 0 0 0,
     cell FUNC_TIMER0_TOGGLE2 0xf 1 0 0 0 0 0 0 0 0 0 0 0 0 0 0 0]"

definition function_config_24 :: "fpioa_assign list" where
  "function_config_24 = [
     cell FUNC_TIMER0_TOGGLE3 0xf 1 0 0 0 0 0 0 0 0 0 0 0 0 0 0 0,
     cell FUNC_TIMER0_TOGGLE4 0xf 1 0 0 0 0 0 0 0 0 0 0 0 0 0 0 0,
     cell FUNC_TIMER1_TOGGLE1 0xf 1 0 0 0 0 0 0 0 0 0 0 0 0 0 0 0,
     cell FUNC_TIMER1_TOGGLE2 0xf 1 0 0 0 0 0 0 0 0 0 0 0 0 0 0 0,
     cell FUNC_TIMER1_TOGGLE3 0xf 1 0 0 0 0 0 0 0 0 0 0 0 0 0 0 0,
     cell FUNC_TIMER1_TOGGLE4 0xf 1 0 0 0 0 0 0 0 0 0 0 0 0 0 0 0,
     cell FUNC_TIMER2_TOGGLE1 0xf 1 0 0 0 0 0 0 0 0 0 0 0 0 0 0 0,
     cell FUNC_TIMER2_TOGGLE2 0xf 1 0 0 0 0 0 0 0 0 0 0 0 0 0 0 0]"

definition function_config_25 :: "fpioa_assign list" where
  "function_config_25 = [
     cell FUNC_TIMER2_TOGGLE3 0xf 1 0 0 0 0 0 0 0 0 0 0 0 0 0 0 0,
     cell FUNC_TIMER2_TOGGLE4 0xf 1 0 0 0 0 0 0 0 0 0 0 0 0 0 0 0,
     cell FUNC_CLK_SPI2 0xf 1 0 0 0 0 0 0 0 0 0 0 0 0 0 0 0,
     cell FUNC_CLK_I2C2 0xf 1 0 0 0 0 0 0 0 0 0 0 0 0 0 0 0,
     cell FUNC_INTERNAL0 0xf 1 0 0 0 0 0 0 0 0 0 0 0 0 0 0 0,
     cell FUNC_INTERNAL1 0xf 1 0 0 0 0 0 0 0 0 0 0 0 0 0 0 0,
     cell FUNC_INTERNAL2 0xf 1 0 0 0 0 0 0 0 0 0 0 0 0 0 0 0,
     cell FUNC_INTERNAL3 0xf 1 0 0 0 0 0 0 0 0 0 0 0 0 0 0 0]"

definition function_config_26 :: "fpioa_assign list" where
  "function_config_26 = [
     cell FUNC_INTERNAL4 0xf 1 0 0 0 0 0 0 0 0 0 0 0 0 0 0 0,
     cell FUNC_INTERNAL5 0xf 1 0 0 0 0 0 0 0 0 0 0 0 0 0 0 0,
     cell FUNC_INTERNAL6 0xf 1 0 0 0 0 0 0 0 0 0 0 0 0 0 0 0,
     cell FUNC_INTERNAL7 0xf 1 0 0 0 0 0 0 0 0 0 0 0 0 0 0 0,
     cell FUNC_INTERNAL8 0xf 1 0 0 0 0 0 0 0 0 0 0 0 0 0 0 0,
     cell FUNC_INTERNAL9 0x0 0 0 0 0 0 0 0 0 1 0 0 1 0 0 0 0,
     cell FUNC_INTERNAL10 0x0 0 0 0 0 0 0 0 0 1 0 0 1 0 0 0 0,
     cell FUNC_INTERNAL11 0x0 0 0 0 0 0 0 0 0 1 0 0 1 0 0 0 0]"

definition function_config_27 :: "fpioa_assign list" where
  "function_config_27 = [
     cell FUNC_INTERNAL12 0x0 0 0 0 0 0 0 0 0 1 0 0 1 0 0 0 0,
     cell FUNC_INTERNAL13 0x0 0 0 0 0 1 0 0 0 1 0 0 1 0 0 0 0,
     cell FUNC_INTERNAL14 0xf 1 0 0 0 1 0 0 1 1 0 0 1 0 0 0 0,
     cell FUNC_INTERNAL15 0x0 0 0 0 0 0 0 0 0 1 0 0 1 0 0 0 0,
     cell FUNC_INTERNAL16 0x0 0 0 0 0 0 0 0 0 1 0 0 1 0 0 0 0,
     cell FUNC_INTERNAL17 0x0 0 0 0 0 0 0 0 0 1 0 0 1 0 0 0 0,
     cell FUNC_CONSTANT 0x0 0 0 0 0 0 0 0 0 0 0 0 0 0 0 0 0,
     cell FUNC_INTERNAL18 0x0 0 0 0 0 0 0 0 0 1 0 0 1 0 0 0 0]"

definition function_config_28 :: "fpioa_assign list" where
  "function_config_28 = [
     cell FUNC_DEBUG0 0xf 1 0 0 0 0 0 0 0 0 0 0 0 0 0 0 0,
     cell FUNC_DEBUG1 0xf 1 0 0 0 0 0 0 0 0 0 0 0 0 0 0 0,
     cell FUNC_DEBUG2 0xf 1 0 0 0 0 0 0 0 0 0 0 0 0 0 0 0,
     cell FUNC_DEBUG3 0xf 1 0 0 0 0 0 0 0 0 0 0 0 0 0 0 0,
     cell FUNC_DEBUG4 0xf 1 0 0 0 0 0 0 0 0 0 0 0 0 0 0 0,
     cell FUNC_DEBUG5 0xf 1 0 0 0 0 0 0 0 0 0 0 0 0 0 0 0,
     cell FUNC_DEBUG6 0xf 1 0 0 0 0 0 0 0 0 0 0 0 0 0 0 0,
     cell FUNC_DEBUG7 0xf 1 0 0 0 0 0 0 0 0 0 0 0 0 0 0 0]"

definition function_config_29 :: "fpioa_assign list" where
  "function_config_29 = [
     cell FUNC_DEBUG8 0xf 1 0 0 0 0 0 0 0 0 0 0 0 0 0 0 0,
     cell FUNC_DEBUG9 0xf 1 0 0 0 0 0 0 0 0 0 0 0 0 0 0 0,
     cell FUNC_DEBUG10 0xf 1 0 0 0 0 0 0 0 0 0 0 0 0 0 0 0,
     cell FUNC_DEBUG11 0xf 1 0 0 0 0 0 0 0 0 0 0 0 0 0 0 0,
     cell FUNC_DEBUG12 0xf 1 0 0 0 0 0 0 0 0 0 0 0 0 0 0 0,
     cell FUNC_DEBUG13 0xf 1 0 0 0 0 0 0 0 0 0 0 0 0 0 0 0,
     cell FUNC_DEBUG14 0xf 1 0 0 0 0 0 0 0 0 0 0 0 0 0 0 0,
     cell FUNC_DEBUG15 0xf 1 0 0 0 0 0 0 0 0 0 0 0 0 0 0 0]"

definition function_config_30 :: "fpioa_assign list" where
  "function_config_30 = [
     cell FUNC_DEBUG16 0xf 1 0 0 0 0 0 0 0 0 0 0 0 0 0 0 0,
     cell FUNC_DEBUG17 0xf 1 0 0 0 0 0 0 0 0 0 0 0 0 0 0 0,
     cell FUNC_DEBUG18 0xf 1 0 0 0 0 0 0 0 0 0 0 0 0 0 0 0,
     cell FUNC_DEBUG19 0xf 1 0 0 0 0 0 0 0 0 0 0 0 0 0 0 0,
     cell FUNC_DEBUG20 0xf 1 0 0 0 0 0 0 0 0 0 0 0 0 0 0 0,
     cell FUNC_DEBUG21 0xf 1 0 0 0 0 0 0 0 0 0 0 0 0 0 0 0,
     cell FUNC_DEBUG22 0xf 1 0 0 0 0 0 0 0 0 0 0 0 0 0 0 0,
     cell FUNC_DEBUG23 0xf 1 0 0 0 0 0 0 0 0 0 0 0 0 0 0 0]"

definition function_config_31 :: "fpioa_assign list" where
  "function_config_31 = [
     cell FUNC_DEBUG24 0xf 1 0 0 0 0 0 0 0 0 0 0 0 0 0 0 0,
     cell FUNC_DEBUG25 0xf 1 0 0 0 0 0 0 0 0 0 0 0 0 0 0 0,
     cell FUNC_DEBUG26 0xf 1 0 0 0 0 0 0 0 0 0 0 0 0 0 0 0,
     cell FUNC_DEBUG27 0xf 1 0 0 0 0 0 0 0 0 0 0 0 0 0 0 0,
     cell FUNC_DEBUG28 0xf 1 0 0 0 0 0 0 0 0 0 0 0 0 0 0 0,
     cell FUNC_DEBUG29 0xf 1 0 0 0 0 0 0 0 0 0 0 0 0 0 0 0,
     cell FUNC_DEBUG30 0xf 1 0 0 0 0 0 0 0 0 0 0 0 0 0 0 0,
     cell FUNC_DEBUG31 0xf 1 0 0 0 0 0 0 0 0 0 0 0 0 0 0 0]"

definition function_config :: "fpioa_assign list" where
  "function_config = concat [
     function_config_0, function_config_1, function_config_2, function_config_3,
     function_config_4, function_config_5, function_config_6, function_config_7,
     function_config_8, function_config_9, function_config_10, function_config_11,
     function_config_12, function_config_13, function_config_14, function_config_15,
     function_config_16, function_config_17, function_config_18, function_config_19,
     function_config_20, function_config_21, function_config_22, function_config_23,
     function_config_24, function_config_25, function_config_26, function_config_27,
     function_config_28, function_config_29, function_config_30, function_config_31]"

section \<open>Row i is function i\<close>

lemma ch_sels_0: "map ch_sel function_config_0 = [0, 1, 2, 3, 4, 5, 6, 7]"
  by (simp add: function_config_0_def cell_def fpioa_function_defs)

lemma ch_sels_1: "map ch_sel function_config_1 = [8, 9, 10, 11, 12, 13, 14, 15]"
  by (simp add: function_config_1_def cell_def fpioa_function_defs)

lemma ch_sels_2: "map ch_sel function_config_2 = [16, 17, 18, 19, 20, 21, 22, 23]"
  by (simp add: function_config_2_def cell_def fpioa_function_defs)

lemma ch_sels_3: "map ch_sel function_config_3 = [24, 25, 26, 27, 28, 29, 30, 31]"
  by (simp add: function_config_3_def cell_def fpioa_function_defs)

lemma ch_sels_4: "map ch_sel function_config_4 = [32, 33, 34, 35, 36, 37, 38, 39]"
  by (simp add: function_config_4_def cell_def fpioa_function_defs)

lemma ch_sels_5: "map ch_sel function_config_5 = [40, 41, 42, 43, 44, 45, 46, 47]"
  by (simp add: function_config_5_def cell_def fpioa_function_defs)

lemma ch_sels_6: "map ch_sel function_config_6 = [48, 49, 50, 51, 52, 53, 54, 55]"
  by (simp add: function_config_6_def cell_def fpioa_function_defs)

lemma ch_sels_7: "map ch_sel function_config_7 = [56, 57, 58, 59, 60, 61, 62, 63]"
  by (simp add: function_config_7_def cell_def fpioa_function_defs)

lemma ch_sels_8: "map ch_sel function_config_8 = [64, 65, 66, 67, 68, 69, 70, 71]"
  by (simp add: function_config_8_def cell_def fpioa_function_defs)

lemma ch_sels_9: "map ch_sel function_config_9 = [72, 73, 74, 75, 76, 77, 78, 79]"
  by (simp add: function_config_9_def cell_def fpioa_function_defs)

lemma ch_sels_10: "map ch_sel function_config_10 = [80, 81, 82, 83, 84, 85, 86, 87]"
  by (simp add: function_config_10_def cell_def fpioa_function_defs)

lemma ch_sels_11: "map ch_sel function_config_11 = [88, 89, 90, 91, 92, 93, 94, 95]"
  by (simp add: function_config_11_def cell_def fpioa_function_defs)

lemma ch_sels_12: "map ch_sel function_config_12 = [96, 97, 98, 99, 100, 101, 102, 103]"
  by (simp add: function_config_12_def cell_def fpioa_function_defs)

lemma ch_sels_13: "map ch_sel function_config_13 = [104, 105, 106, 107, 108, 109, 110, 111]"
  by (simp add: function_config_13_def cell_def fpioa_function_defs)

lemma ch_sels_14: "map ch_sel function_config_14 = [112, 113, 114, 115, 116, 117, 118, 119]"
  by (simp add: function_config_14_def cell_def fpioa_function_defs)

lemma ch_sels_15: "map ch_sel function_config_15 = [120, 121, 122, 123, 124, 125, 126, 127]"
  by (simp add: function_config_15_def cell_def fpioa_function_defs)

lemma ch_sels_16: "map ch_sel function_config_16 = [128, 129, 130, 131, 132, 133, 134, 135]"
  by (simp add: function_config_16_def cell_def fpioa_function_defs)

lemma ch_sels_17: "map ch_sel function_config_17 = [136, 137, 138, 139, 140, 141, 142, 143]"
  by (simp add: function_config_17_def cell_def fpioa_function_defs)

lemma ch_sels_18: "map ch_sel function_config_18 = [144, 145, 146, 147, 148, 149, 150, 151]"
  by (simp add: function_config_18_def cell_def fpioa_function_defs)

lemma ch_sels_19: "map ch_sel function_config_19 = [152, 153, 154, 155, 156, 157, 158, 159]"
  by (simp add: function_config_19_def cell_def fpioa_function_defs)

lemma ch_sels_20: "map ch_sel function_config_20 = [160, 161, 162, 163, 164, 165, 166, 167]"
  by (simp add: function_config_20_def cell_def fpioa_function_defs)

lemma ch_sels_21: "map ch_sel function_config_21 = [168, 169, 170, 171, 172, 173, 174, 175]"
  by (simp add: function_config_21_def cell_def fpioa_function_defs)

lemma ch_sels_22: "map ch_sel function_config_22 = [176, 177, 178, 179, 180, 181, 182, 183]"
  by (simp add: function_config_22_def cell_def fpioa_function_defs)

lemma ch_sels_23: "map ch_sel function_config_23 = [184, 185, 186, 187, 188, 189, 190, 191]"
  by (simp add: function_config_23_def cell_def fpioa_function_defs)

lemma ch_sels_24: "map ch_sel function_config_24 = [192, 193, 194, 195, 196, 197, 198, 199]"
  by (simp add: function_config_24_def cell_def fpioa_function_defs)

lemma ch_sels_25: "map ch_sel function_config_25 = [200, 201, 202, 203, 204, 205, 206, 207]"
  by (simp add: function_config_25_def cell_def fpioa_function_defs)

lemma ch_sels_26: "map ch_sel function_config_26 = [208, 209, 210, 211, 212, 213, 214, 215]"
  by (simp add: function_config_26_def cell_def fpioa_function_defs)

lemma ch_sels_27: "map ch_sel function_config_27 = [216, 217, 218, 219, 220, 221, 222, 223]"
  by (simp add: function_config_27_def cell_def fpioa_function_defs)

lemma ch_sels_28: "map ch_sel function_config_28 = [224, 225, 226, 227, 228, 229, 230, 231]"
  by (simp add: function_config_28_def cell_def fpioa_function_defs)

lemma ch_sels_29: "map ch_sel function_config_29 = [232, 233, 234, 235, 236, 237, 238, 239]"
  by (simp add: function_config_29_def cell_def fpioa_function_defs)

lemma ch_sels_30: "map ch_sel function_config_30 = [240, 241, 242, 243, 244, 245, 246, 247]"
  by (simp add: function_config_30_def cell_def fpioa_function_defs)

lemma ch_sels_31: "map ch_sel function_config_31 = [248, 249, 250, 251, 252, 253, 254, 255]"
  by (simp add: function_config_31_def cell_def fpioa_function_defs)

lemmas ch_sels =
  ch_sels_0 ch_sels_1 ch_sels_2 ch_sels_3 ch_sels_4 ch_sels_5 ch_sels_6 ch_sels_7 ch_sels_8
  ch_sels_9 ch_sels_10 ch_sels_11 ch_sels_12 ch_sels_13 ch_sels_14 ch_sels_15 ch_sels_16
  ch_sels_17 ch_sels_18 ch_sels_19 ch_sels_20 ch_sels_21 ch_sels_22 ch_sels_23 ch_sels_24
  ch_sels_25 ch_sels_26 ch_sels_27 ch_sels_28 ch_sels_29 ch_sels_30 ch_sels_31

lemma ch_sels_all: "map ch_sel function_config = map word_of_nat [0..<256]"
  by (simp add: function_config_def ch_sels upt_conv_Cons)

lemma function_config_length: "length function_config = 256"
  using arg_cong [OF ch_sels_all, of length] by simp

lemma ch_sel_function_config:
  assumes "i < 256"
  shows "ch_sel (function_config ! i) = word_of_nat i"
proof -
  have "map ch_sel function_config ! i = map word_of_nat [0..<256] ! i" by (simp only: ch_sels_all)
  with assms show ?thesis by (simp add: function_config_length)
qed

end
