(* ===== verification/Fpioa.thy ===== *)
theory Fpioa
  imports FpioaTable
begin

text \<open>
  The pin multiplexer's operations, \<open>driver/fpioa.c\<close>, over the array of pin registers
  (\<open>fpioa->io\<close>, 48 of them): pull resistors, the assignment of a function to a pin, and the
  lookup of a function's pin. The tie registers are written by no compiled function.
\<close>

section \<open>State and operations\<close>

record fpioa_io_config =
  io_ch_sel :: "8 word"
  io_ds :: "4 word"
  io_oe_en :: "1 word"
  io_oe_inv :: "1 word"
  io_do_sel :: "1 word"
  io_do_inv :: "1 word"
  io_pu :: "1 word"
  io_pd :: "1 word"
  io_resv0 :: "1 word"
  io_sl :: "1 word"
  io_ie_en :: "1 word"
  io_ie_inv :: "1 word"
  io_di_inv :: "1 word"
  io_st :: "1 word"
  io_resv1 :: "7 word"
  io_pad_di :: "1 word"

type_synonym pins = "fpioa_io_config list"

definition FPIOA_NUM_IO :: nat where "FPIOA_NUM_IO = 48"

definition FPIOA_PULL_NONE :: int where "FPIOA_PULL_NONE = 0"
definition FPIOA_PULL_DOWN :: int where "FPIOA_PULL_DOWN = 1"
definition FPIOA_PULL_UP :: int where "FPIOA_PULL_UP = 2"
definition FPIOA_PULL_MAX :: int where "FPIOA_PULL_MAX = 3"

definition fpioa_set_io_pull :: "int \<Rightarrow> int \<Rightarrow> pins \<Rightarrow> int \<times> pins" where
  "fpioa_set_io_pull number pull io =
     (if number < 0 \<or> number \<ge> int FPIOA_NUM_IO \<or> pull \<ge> FPIOA_PULL_MAX then (- 1, io)
      else
        let cfg = io ! nat number;
            cfg = (if pull = FPIOA_PULL_NONE then cfg\<lparr>io_pu := 0, io_pd := 0\<rparr>
                   else if pull = FPIOA_PULL_DOWN then cfg\<lparr>io_pu := 0, io_pd := 1\<rparr>
                   else if pull = FPIOA_PULL_UP then cfg\<lparr>io_pu := 1, io_pd := 0\<rparr>
                   else cfg)
        in (0, io[nat number := cfg]))"

text \<open>The compound literal of \<open>fpioa_set_function_raw\<close>; the fields it leaves out are zero.\<close>

definition io_config_of :: "fpioa_assign \<Rightarrow> fpioa_io_config" where
  "io_config_of a =
     \<lparr>io_ch_sel = ch_sel a, io_ds = ds a, io_oe_en = oe_en a, io_oe_inv = oe_inv a,
      io_do_sel = do_sel a, io_do_inv = do_inv a, io_pu = pu a, io_pd = pd a, io_resv0 = 0,
      io_sl = sl a, io_ie_en = ie_en a, io_ie_inv = ie_inv a, io_di_inv = di_inv a, io_st = st a,
      io_resv1 = 0, io_pad_di = 0\<rparr>"

definition fpioa_set_function_raw :: "int \<Rightarrow> int \<Rightarrow> pins \<Rightarrow> int \<times> pins" where
  "fpioa_set_function_raw number function io =
     (if number < 0 \<or> number \<ge> int FPIOA_NUM_IO \<or> function < 0 \<or> function \<ge> int FUNC_MAX
      then (- 1, io)
      else (0, io[nat number := io_config_of (function_config ! nat function)]))"

text \<open>The loop over the pins; \<open>n\<close> of them are left.\<close>

fun fpioa_release_loop :: "nat \<Rightarrow> nat \<Rightarrow> int \<Rightarrow> int \<Rightarrow> pins \<Rightarrow> pins" where
  "fpioa_release_loop 0 index number function io = io"
| "fpioa_release_loop (Suc n) index number function io =
     fpioa_release_loop n (Suc index) number function
       (if uint (io_ch_sel (io ! index)) = function \<and> int index \<noteq> number
        then snd (fpioa_set_function_raw (int index) (int FUNC_RESV0) io) else io)"

definition fpioa_set_function :: "int \<Rightarrow> int \<Rightarrow> pins \<Rightarrow> int \<times> pins" where
  "fpioa_set_function number function io =
     (if number < 0 \<or> number \<ge> int FPIOA_NUM_IO \<or> function < 0 \<or> function \<ge> int FUNC_MAX
      then (- 1, io)
      else if function = int FUNC_RESV0
      then (0, snd (fpioa_set_function_raw number (int FUNC_RESV0) io))
      else
        let io = fpioa_release_loop FPIOA_NUM_IO 0 number function io
        in (0, snd (fpioa_set_function_raw number function io)))"

fun fpioa_find_loop :: "nat \<Rightarrow> nat \<Rightarrow> int \<Rightarrow> pins \<Rightarrow> int" where
  "fpioa_find_loop 0 index function io = - 1"
| "fpioa_find_loop (Suc n) index function io =
     (if uint (io_ch_sel (io ! index)) = function then int index
      else fpioa_find_loop n (Suc index) function io)"

definition fpioa_get_io_by_function :: "int \<Rightarrow> pins \<Rightarrow> int" where
  "fpioa_get_io_by_function function io = fpioa_find_loop FPIOA_NUM_IO 0 function io"

definition fpioa_pin_init :: "pins \<Rightarrow> pins" where
  "fpioa_pin_init io =
     (let io = snd (fpioa_set_function 27 (int FUNC_SPI0_SCLK) io);
          io = snd (fpioa_set_function 28 (int FUNC_SPI0_D0) io);
          io = snd (fpioa_set_function 26 (int FUNC_SPI0_D1) io);
          io = snd (fpioa_set_function 32 (int FUNC_GPIOHS7) io)
      in snd (fpioa_set_function 29 (int FUNC_SPI0_SS3) io))"

section \<open>Which pin carries a function\<close>

definition carries :: "pins \<Rightarrow> nat \<Rightarrow> nat \<Rightarrow> bool" where
  "carries io f i \<longleftrightarrow> i < 48 \<and> unat (io_ch_sel (io ! i)) = f"

lemma config_ch_sel: "f < 256 \<Longrightarrow> unat (io_ch_sel (io_config_of (function_config ! f))) = f"
  by (simp add: io_config_of_def ch_sel_function_config unat_of_nat)

lemma RESV0_less: "FUNC_RESV0 < 256"
  by (simp add: FUNC_RESV0_def)

lemma set_function_raw_ok:
  assumes "i < 48" "f < 256"
  shows "fpioa_set_function_raw (int i) (int f) io = (0, io[i := io_config_of (function_config ! f)])"
  using assms by (simp add: fpioa_set_function_raw_def FPIOA_NUM_IO_def FUNC_MAX_def)

definition reserved :: fpioa_io_config where
  "reserved = io_config_of (function_config ! FUNC_RESV0)"

lemma reserved_ch_sel: "unat (io_ch_sel reserved) = FUNC_RESV0"
  unfolding reserved_def by (rule config_ch_sel [OF RESV0_less])

lemma release_loop:
  assumes "length io = 48" "index + n \<le> 48" "f \<noteq> FUNC_RESV0"
  shows "length (fpioa_release_loop n index (int number) (int f) io) = 48 \<and>
    (\<forall>j<48. fpioa_release_loop n index (int number) (int f) io ! j =
      (if index \<le> j \<and> j < index + n \<and> unat (io_ch_sel (io ! j)) = f \<and> j \<noteq> number
       then reserved else io ! j))"
  using assms
proof (induction n arbitrary: index io)
  case 0
  then show ?case by auto
next
  case (Suc n)
  have i: "index < 48" using Suc.prems(2) by simp
  let ?io = "if uint (io_ch_sel (io ! index)) = int f \<and> int index \<noteq> int number
    then io[index := reserved] else io"
  have s: "snd (fpioa_set_function_raw (int index) (int FUNC_RESV0) io) = io[index := reserved]"
    using set_function_raw_ok [OF i RESV0_less] by (simp add: reserved_def)
  have e: "fpioa_release_loop (Suc n) index (int number) (int f) io =
      fpioa_release_loop n (Suc index) (int number) (int f) ?io"
    by (simp add: s)
  have "length ?io = 48" using Suc.prems(1) by simp
  note IH = Suc.IH [OF this, of "Suc index"]
  have q: "uint (io_ch_sel (io ! index)) = int f \<longleftrightarrow> unat (io_ch_sel (io ! index)) = f"
    by (metis nat_int uint_nat of_nat_eq_iff)
  show ?case
    unfolding e
  proof (intro conjI allI impI)
    show "length (fpioa_release_loop n (Suc index) (int number) (int f) ?io) = 48"
      using IH Suc.prems by simp
    fix j :: nat assume j: "j < 48"
    have "fpioa_release_loop n (Suc index) (int number) (int f) ?io ! j =
      (if Suc index \<le> j \<and> j < Suc index + n \<and> unat (io_ch_sel (?io ! j)) = f \<and> j \<noteq> number
       then reserved else ?io ! j)"
      using IH Suc.prems j by simp
    also have "\<dots> = (if index \<le> j \<and> j < index + Suc n \<and> unat (io_ch_sel (io ! j)) = f \<and> j \<noteq> number
       then reserved else io ! j)"
      by (cases "j = index") (use Suc.prems(1) i q in auto)
    finally show "fpioa_release_loop n (Suc index) (int number) (int f) ?io ! j =
      (if index \<le> j \<and> j < index + Suc n \<and> unat (io_ch_sel (io ! j)) = f \<and> j \<noteq> number
       then reserved else io ! j)" .
  qed
qed

text \<open>The pins after a successful \<open>fpioa_set_function\<close>.\<close>

lemma set_function_pins:
  assumes "length io = 48" "number < 48" "f < 256" "f \<noteq> FUNC_RESV0"
  shows "\<exists>io'. fpioa_set_function (int number) (int f) io = (0, io') \<and> length io' = 48 \<and>
    (\<forall>j<48. io' ! j = (if j = number then io_config_of (function_config ! f)
      else if carries io f j then reserved else io ! j))"
proof -
  let ?io = "fpioa_release_loop 48 0 (int number) (int f) io"
  have R: "length ?io = 48" "\<And>j. j < 48 \<Longrightarrow> ?io ! j =
      (if unat (io_ch_sel (io ! j)) = f \<and> j \<noteq> number then reserved else io ! j)"
    using release_loop [OF assms(1), of 0 48 f number] assms(4) by simp_all
  have "fpioa_set_function (int number) (int f) io =
      (0, ?io[number := io_config_of (function_config ! f)])"
    using assms set_function_raw_ok [OF assms(2,3), of ?io]
    by (simp add: fpioa_set_function_def FPIOA_NUM_IO_def FUNC_MAX_def)
  then show ?thesis using R by (auto simp: carries_def nth_list_update)
qed

lemma set_function_carries:
  assumes "length io = 48" "number < 48" "f < 256" "f \<noteq> FUNC_RESV0"
  obtains io' where "fpioa_set_function (int number) (int f) io = (0, io')" "length io' = 48"
    "\<And>j. carries io' f j \<longleftrightarrow> j = number"
    "\<And>g j. g \<noteq> f \<Longrightarrow> g \<noteq> FUNC_RESV0 \<Longrightarrow> carries io' g j \<longleftrightarrow> carries io g j \<and> j \<noteq> number"
proof -
  obtain io' where a: "fpioa_set_function (int number) (int f) io = (0, io')" "length io' = 48"
    and p: "\<And>j. j < 48 \<Longrightarrow> io' ! j = (if j = number then io_config_of (function_config ! f)
      else if carries io f j then reserved else io ! j)"
    using set_function_pins [OF assms] by blast
  have "carries io' f j \<longleftrightarrow> j = number" for j
    using p [of j] config_ch_sel [OF assms(3)] reserved_ch_sel assms(2,4)
    by (auto simp: carries_def split: if_splits)
  moreover have "carries io' g j \<longleftrightarrow> carries io g j \<and> j \<noteq> number" if "g \<noteq> f" "g \<noteq> FUNC_RESV0" for g j
    using p [of j] config_ch_sel [OF assms(3)] reserved_ch_sel that
    by (auto simp: carries_def split: if_splits)
  ultimately show thesis using that a by blast
qed

lemma find_loop:
  assumes "index + n \<le> 48" "\<And>i. index \<le> i \<Longrightarrow> i < index + n \<Longrightarrow> carries io f i \<longleftrightarrow> i = number"
    "index \<le> number" "number < index + n"
  shows "fpioa_find_loop n index (int f) io = int number"
  using assms
proof (induction n arbitrary: index)
  case 0
  then show ?case by simp
next
  case (Suc n)
  have q: "uint (io_ch_sel (io ! index)) = int f \<longleftrightarrow> carries io f index"
    using Suc.prems(1) by (simp add: carries_def) (metis nat_int uint_nat)
  show ?case
  proof (cases "index = number")
    case True
    then show ?thesis using q Suc.prems(2) [of index] by simp
  next
    case False
    have "fpioa_find_loop n (Suc index) (int f) io = int number"
      by (rule Suc.IH) (use Suc.prems False in auto)
    then show ?thesis using q Suc.prems(2) [of index] False by simp
  qed
qed

lemma set_function_keeps:
  assumes "length io = 48" "number < 48" "f < 256" "f \<noteq> FUNC_RESV0"
  obtains io' where "snd (fpioa_set_function (int number) (int f) io) = io'" "length io' = 48"
    "\<And>j. carries io' f j \<longleftrightarrow> j = number"
    "\<And>g n j. g \<noteq> f \<Longrightarrow> g \<noteq> FUNC_RESV0 \<Longrightarrow> n \<noteq> number \<Longrightarrow> (\<And>j. carries io g j \<longleftrightarrow> j = n) \<Longrightarrow>
      carries io' g j \<longleftrightarrow> j = n"
proof -
  obtain io' where r: "fpioa_set_function (int number) (int f) io = (0, io')" "length io' = 48"
    "\<And>j. carries io' f j \<longleftrightarrow> j = number"
    "\<And>g j. g \<noteq> f \<Longrightarrow> g \<noteq> FUNC_RESV0 \<Longrightarrow> carries io' g j \<longleftrightarrow> carries io g j \<and> j \<noteq> number"
    using set_function_carries [OF assms] by metis
  show thesis by (rule that [of io']) (use r in auto)
qed

section \<open>Properties\<close>

text \<open>C5: after \<open>fpioa_set_function\<close> has given a function other than the reserved one to a pin, the
  pin has the whole configuration the table holds for that function, it alone carries the function, and
  \<open>fpioa_get_io_by_function\<close> finds it there. Every other pin keeps its whole configuration, except that a pin
  that carried the function before gets the table's reserved configuration; every other function but the
  reserved one stays where it was except on the pin. A bad argument changes nothing.\<close>

theorem fpioa_set_function_unique:
  assumes "length io = 48" "f \<noteq> FUNC_RESV0"
  shows "if number < 48 \<and> f < 256
    then \<exists>io'. fpioa_set_function (int number) (int f) io = (0, io') \<and> length io' = 48 \<and>
      io' ! number = io_config_of (function_config ! f) \<and>
      (\<forall>j. j < 48 \<longrightarrow> j \<noteq> number \<longrightarrow> io' ! j = (if carries io f j then io_config_of (function_config ! FUNC_RESV0) else io ! j)) \<and>
      (\<forall>j. carries io' f j \<longleftrightarrow> j = number) \<and>
      fpioa_get_io_by_function (int f) io' = int number \<and>
      (\<forall>g j. g \<noteq> f \<longrightarrow> g \<noteq> FUNC_RESV0 \<longrightarrow> (carries io' g j \<longleftrightarrow> carries io g j \<and> j \<noteq> number))
    else fpioa_set_function (int number) (int f) io = (- 1, io)"
proof (cases "number < 48 \<and> f < 256")
  case True
  then obtain io' where r: "fpioa_set_function (int number) (int f) io = (0, io')" "length io' = 48"
    "\<And>j. carries io' f j \<longleftrightarrow> j = number"
    "\<And>g j. g \<noteq> f \<Longrightarrow> g \<noteq> FUNC_RESV0 \<Longrightarrow> carries io' g j \<longleftrightarrow> carries io g j \<and> j \<noteq> number"
    using set_function_carries [OF assms(1) _ _ assms(2)] by metis
  have p: "\<forall>j<48. io' ! j = (if j = number then io_config_of (function_config ! f) else if carries io f j then reserved else io ! j)"
    using set_function_pins [OF assms(1) _ _ assms(2), of number] True r(1) by auto
  have "fpioa_get_io_by_function (int f) io' = int number"
    unfolding fpioa_get_io_by_function_def FPIOA_NUM_IO_def
    by (rule find_loop) (use r(3) True in auto)
  with r p True show ?thesis by (auto simp: reserved_def)
next
  case False
  then show ?thesis by (auto simp: fpioa_set_function_def FPIOA_NUM_IO_def FUNC_MAX_def)
qed

definition reset_pins :: pins where
  "reset_pins = replicate 48 reserved"

theorem fpioa_set_function_unique_witness:
  "\<exists>io'. fpioa_set_function 27 (int FUNC_SPI0_SCLK) reset_pins = (0, io') \<and>
     fpioa_get_io_by_function (int FUNC_SPI0_SCLK) io' = 27"
  using fpioa_set_function_unique [of reset_pins FUNC_SPI0_SCLK 27]
  by (auto simp: reset_pins_def FUNC_SPI0_SCLK_def FUNC_RESV0_def)

text \<open>\<open>fpioa_pin_init\<close> leaves the SPI clock, data, chip select and the GPIO line of the SD card
  each on its own pin, and on no other, whatever the pins carried before.\<close>

theorem fpioa_pin_init_assigns:
  assumes "length io = 48"
  shows "(\<forall>j. carries (fpioa_pin_init io) FUNC_SPI0_SCLK j \<longleftrightarrow> j = 27) \<and>
    (\<forall>j. carries (fpioa_pin_init io) FUNC_SPI0_D0 j \<longleftrightarrow> j = 28) \<and>
    (\<forall>j. carries (fpioa_pin_init io) FUNC_SPI0_D1 j \<longleftrightarrow> j = 26) \<and>
    (\<forall>j. carries (fpioa_pin_init io) FUNC_GPIOHS7 j \<longleftrightarrow> j = 32) \<and>
    (\<forall>j. carries (fpioa_pin_init io) FUNC_SPI0_SS3 j \<longleftrightarrow> j = 29)"
proof -
  note d = FUNC_SPI0_SCLK_def FUNC_SPI0_D0_def FUNC_SPI0_D1_def FUNC_GPIOHS7_def
    FUNC_SPI0_SS3_def FUNC_RESV0_def
  obtain a where a: "snd (fpioa_set_function (int 27) (int FUNC_SPI0_SCLK) io) = a" "length a = 48"
    "\<And>j. carries a FUNC_SPI0_SCLK j \<longleftrightarrow> j = 27"
    by (rule set_function_keeps [OF assms, of 27 FUNC_SPI0_SCLK]) (auto simp: d)
  obtain b where b: "snd (fpioa_set_function (int 28) (int FUNC_SPI0_D0) a) = b" "length b = 48"
    "\<And>j. carries b FUNC_SPI0_D0 j \<longleftrightarrow> j = 28"
    and kb: "\<And>g n j. g \<noteq> FUNC_SPI0_D0 \<Longrightarrow> g \<noteq> FUNC_RESV0 \<Longrightarrow> n \<noteq> 28 \<Longrightarrow>
      (\<And>j. carries a g j \<longleftrightarrow> j = n) \<Longrightarrow> carries b g j \<longleftrightarrow> j = n"
    by (rule set_function_keeps [OF a(2), of 28 FUNC_SPI0_D0]) (auto simp: d)
  obtain c where c: "snd (fpioa_set_function (int 26) (int FUNC_SPI0_D1) b) = c" "length c = 48"
    "\<And>j. carries c FUNC_SPI0_D1 j \<longleftrightarrow> j = 26"
    and kc: "\<And>g n j. g \<noteq> FUNC_SPI0_D1 \<Longrightarrow> g \<noteq> FUNC_RESV0 \<Longrightarrow> n \<noteq> 26 \<Longrightarrow>
      (\<And>j. carries b g j \<longleftrightarrow> j = n) \<Longrightarrow> carries c g j \<longleftrightarrow> j = n"
    by (rule set_function_keeps [OF b(2), of 26 FUNC_SPI0_D1]) (auto simp: d)
  obtain e where e: "snd (fpioa_set_function (int 32) (int FUNC_GPIOHS7) c) = e" "length e = 48"
    "\<And>j. carries e FUNC_GPIOHS7 j \<longleftrightarrow> j = 32"
    and ke: "\<And>g n j. g \<noteq> FUNC_GPIOHS7 \<Longrightarrow> g \<noteq> FUNC_RESV0 \<Longrightarrow> n \<noteq> 32 \<Longrightarrow>
      (\<And>j. carries c g j \<longleftrightarrow> j = n) \<Longrightarrow> carries e g j \<longleftrightarrow> j = n"
    by (rule set_function_keeps [OF c(2), of 32 FUNC_GPIOHS7]) (auto simp: d)
  obtain f where f: "snd (fpioa_set_function (int 29) (int FUNC_SPI0_SS3) e) = f" "length f = 48"
    "\<And>j. carries f FUNC_SPI0_SS3 j \<longleftrightarrow> j = 29"
    and kf: "\<And>g n j. g \<noteq> FUNC_SPI0_SS3 \<Longrightarrow> g \<noteq> FUNC_RESV0 \<Longrightarrow> n \<noteq> 29 \<Longrightarrow>
      (\<And>j. carries e g j \<longleftrightarrow> j = n) \<Longrightarrow> carries f g j \<longleftrightarrow> j = n"
    by (rule set_function_keeps [OF e(2), of 29 FUNC_SPI0_SS3]) (auto simp: d)
  have "fpioa_pin_init io = f"
    using a(1) b(1) c(1) e(1) f(1) by (simp add: fpioa_pin_init_def)
  moreover have "\<And>j. carries f FUNC_SPI0_SCLK j \<longleftrightarrow> j = 27"
    by (rule kf, simp_all add: d, rule ke, simp_all add: d, rule kc, simp_all add: d, rule kb,
        simp_all add: d a(3) [unfolded d])
  moreover have "\<And>j. carries f FUNC_SPI0_D0 j \<longleftrightarrow> j = 28"
    by (rule kf, simp_all add: d, rule ke, simp_all add: d, rule kc, simp_all add: d b(3) [unfolded d])
  moreover have "\<And>j. carries f FUNC_SPI0_D1 j \<longleftrightarrow> j = 26"
    by (rule kf, simp_all add: d, rule ke, simp_all add: d c(3) [unfolded d])
  moreover have "\<And>j. carries f FUNC_GPIOHS7 j \<longleftrightarrow> j = 32"
    by (rule kf, simp_all add: d e(3) [unfolded d])
  ultimately show ?thesis using f(3) by simp
qed

theorem fpioa_pin_init_assigns_witness:
  "(\<forall>j. carries (fpioa_pin_init reset_pins) FUNC_SPI0_SCLK j \<longleftrightarrow> j = 27) \<and>
    (\<forall>j. carries (fpioa_pin_init reset_pins) FUNC_SPI0_D0 j \<longleftrightarrow> j = 28) \<and>
    (\<forall>j. carries (fpioa_pin_init reset_pins) FUNC_SPI0_D1 j \<longleftrightarrow> j = 26) \<and>
    (\<forall>j. carries (fpioa_pin_init reset_pins) FUNC_GPIOHS7 j \<longleftrightarrow> j = 32) \<and>
    (\<forall>j. carries (fpioa_pin_init reset_pins) FUNC_SPI0_SS3 j \<longleftrightarrow> j = 29)"
  by (rule fpioa_pin_init_assigns) (simp add: reset_pins_def)

end
