(* ===== verification/Fat32.thy ===== *)
theory Fat32
  imports Prelude
begin

text \<open>
  The FAT32 file system, \<open>fs/fat32.cpp\<close>: the one-sector write-back cache over the special
  device, the file allocation table read and written through it, cluster allocation and
  release, file handles and seeking.

  A sector is a memory of which the first 512 bytes count. \<open>read_sector\<close> and \<open>write_sector\<close> report no errors,
  but \<open>vfsdread\<close> and \<open>vfsdwrite\<close> below them may never return: on the machine modelled they never do
  (\<open>raw_devices_stop\<close> in \<open>Vfs\<close>). So the device is a map from sector numbers to sectors together with the
  sectors at which it stops, and a stop is recorded in \<open>halted\<close>. What the definitions compute after a stop is no
  behaviour of the program; the operations on open files and on the volume (\<open>FatDir\<close>, \<open>FatWrite\<close>, \<open>FatFormat\<close>)
  turn it into an outcome that is no result. The lemmas below say what is computed where nothing stops.
\<close>

section \<open>State\<close>

text \<open>\<open>TFInfo\<close>, with the device it caches.\<close>

record tfinfo =
  disk :: "u32 \<Rightarrow> mem"
  stops :: "u32 \<Rightarrow> bool"
  halted :: bool
  ftype :: u8
  sectorsPerCluster :: u8
  firstDataSector :: u32
  totalSectors :: u32
  reservedSectors :: u16
  currentSector :: u32
  sectorFlags :: u8
  rootDirectorySize :: u32
  buffer :: mem

definition TF_FLAG_DIRTY :: u8 where "TF_FLAG_DIRTY = 1"
definition TF_FLAG_OPEN :: u8 where "TF_FLAG_OPEN = 2"
definition TF_FLAG_SIZECHANGED :: u8 where "TF_FLAG_SIZECHANGED = 4"
definition TF_FLAG_ROOT :: u8 where "TF_FLAG_ROOT = 8"
definition TF_MARK_EOC32 :: u32 where "TF_MARK_EOC32 = 0x0fffffff"
definition TF_MARK_EOC16 :: u32 where "TF_MARK_EOC16 = 0xfff8"
definition TF_ERR_INVALID_SEEK :: int where "TF_ERR_INVALID_SEEK = 1"
definition TF_ATTR_DIRECTORY :: u8 where "TF_ATTR_DIRECTORY = 0x10"
definition TF_ATTR_LONG_NAME :: u8 where "TF_ATTR_LONG_NAME = 0x0f"

section \<open>Sectors\<close>

text \<open>
  The sector is turned into a byte offset (\<open>sector * 512\<close>, 32 bits), passed as an \<open>int\<close> through
  \<open>vfsdread\<close> to \<open>DeviceFS::read\<close>, and divided by 512 again there.
\<close>

definition dev_sector :: "u32 \<Rightarrow> u32" where
  "dev_sector sector = word_of_int (sint (sector * 512) sdiv 512)"

definition read_sector :: "u32 \<Rightarrow> tfinfo \<Rightarrow> int \<times> tfinfo" where
  "read_sector sector s =
     (0, s\<lparr>buffer := disk s (dev_sector sector), halted := halted s \<or> stops s (dev_sector sector)\<rparr>)"

definition write_sector :: "mem \<Rightarrow> u32 \<Rightarrow> tfinfo \<Rightarrow> int \<times> tfinfo" where
  "write_sector data sector s =
     (0, s\<lparr>disk := (disk s)(dev_sector sector := data), halted := halted s \<or> stops s (dev_sector sector)\<rparr>)"

text \<open>The device answers everywhere; an outcome reached across a stop is no result.\<close>

abbreviation answers :: "tfinfo \<Rightarrow> bool" where
  "answers s \<equiv> \<forall>k. \<not> stops s k"

definition settled :: "tfinfo \<Rightarrow> 'r res \<Rightarrow> 'r res" where
  "settled s r = (if halted s then Inl (Hang ''special device'') else r)"

definition tf_store :: "tfinfo \<Rightarrow> int \<times> tfinfo" where
  "tf_store s =
     (let s = s\<lparr>sectorFlags := sectorFlags s AND NOT TF_FLAG_DIRTY\<rparr>
      in write_sector (buffer s) (currentSector s) s)"

definition tf_fetch :: "u32 \<Rightarrow> tfinfo \<Rightarrow> int \<times> tfinfo" where
  "tf_fetch sector s =
     (if sector = currentSector s then (0, s)
      else
        let (rc, s) = (if sectorFlags s AND TF_FLAG_DIRTY \<noteq> 0 then tf_store s else (0, s));
            (rc', s) = read_sector sector s;
            rc = or rc rc'
        in (rc, if rc = 0 then s\<lparr>currentSector := sector\<rparr> else s))"

section \<open>The file allocation table\<close>

definition tf_get_fat_entry :: "u32 \<Rightarrow> tfinfo \<Rightarrow> u32 \<times> tfinfo" where
  "tf_get_fat_entry cluster s =
     (let offset = cluster * 4;
          (_, s) = tf_fetch (ucast (reservedSectors s) + offset div 512) s
      in (ld32 (buffer s) (ucast (offset mod 512)), s))"

definition tf_set_fat_entry :: "u32 \<Rightarrow> u32 \<Rightarrow> tfinfo \<Rightarrow> int \<times> tfinfo" where
  "tf_set_fat_entry cluster value s =
     (let offset = cluster * 4;
          (rc, s) = tf_fetch (ucast (reservedSectors s) + offset div 512) s
      in (rc, if ld32 (buffer s) (ucast (offset mod 512)) \<noteq> value
              then s\<lparr>sectorFlags := sectorFlags s OR TF_FLAG_DIRTY,
                     buffer := st32 (buffer s) (ucast (offset mod 512)) value\<rparr>
              else s))"

definition tf_first_sector :: "u32 \<Rightarrow> tfinfo \<Rightarrow> u32" where
  "tf_first_sector cluster s = (cluster - 2) * ucast (sectorsPerCluster s) + firstDataSector s"

text \<open>The loops of \<open>tf_find_free_cluster\<close> and \<open>tf_find_free_cluster_from\<close>, from cluster \<open>i\<close>.\<close>

function find_free_loop :: "u32 \<Rightarrow> u32 \<Rightarrow> tfinfo \<Rightarrow> u32 \<times> tfinfo" where
  "find_free_loop i totalClusters s =
     (if i < totalClusters then
        (let (e, s) = tf_get_fat_entry i s in
         if e AND 0x0fffffff = 0 then (i, s) else find_free_loop (i + 1) totalClusters s)
      else (i, s))"
  by pat_completeness auto
termination
  by (relation "measure (\<lambda>(i, t, s). unat (t - i))") (auto intro: word_loop_less)

declare find_free_loop.simps [simp del]

definition totalClusters :: "tfinfo \<Rightarrow> u32" where
  "totalClusters s = totalSectors s div ucast (sectorsPerCluster s)"

definition tf_find_free_cluster :: "tfinfo \<Rightarrow> u32 \<times> tfinfo" where
  "tf_find_free_cluster s = find_free_loop 0 (totalClusters s) s"

definition tf_find_free_cluster_from :: "u32 \<Rightarrow> tfinfo \<Rightarrow> u32 \<times> tfinfo" where
  "tf_find_free_cluster_from c s =
     (let (i, s) = find_free_loop c (totalClusters s) s in
      if i = totalClusters s then tf_find_free_cluster s else (i, s))"

text \<open>
  The loop of \<open>tf_free_clusterchain\<close>, with the two variables it keeps; that it ends on every
  table is a theorem below.
\<close>

partial_function (option) free_chain_loop :: "u32 \<Rightarrow> u32 \<Rightarrow> tfinfo \<Rightarrow> tfinfo option" where
  "free_chain_loop cluster fat_entry s =
     (if fat_entry < TF_MARK_EOC32 then
        if fat_entry \<le> 2 then Some s
        else
          (let (_, s) = tf_set_fat_entry cluster 0 s;
               (fat_entry, s) = tf_get_fat_entry fat_entry s
           in free_chain_loop fat_entry fat_entry s)
      else Some s)"

definition tf_free_clusterchain :: "u32 \<Rightarrow> tfinfo \<Rightarrow> (int \<times> tfinfo) option" where
  "tf_free_clusterchain cluster s =
     (let (fat_entry, s) = tf_get_fat_entry cluster s
      in map_option (\<lambda>s. (0, s)) (free_chain_loop cluster fat_entry s))"

section \<open>File handles and seeking\<close>

record TFFile =
  parentStartCluster :: u32
  startCluster :: u32
  currentClusterIdx :: u32
  currentCluster :: u32
  f_currentSector :: u16
  currentByte :: u16
  f_pos :: u32
  f_flags :: u8
  f_attributes :: u8
  f_mode :: u8
  f_size :: u32
  f_filename :: "u8 list"

text \<open>Conversions to \<open>int\<close> and \<open>long\<close>; \<open>currentByte\<close> is a \<open>short\<close>.\<close>

definition to_int32 :: "int \<Rightarrow> int" where "to_int32 x = sint (word_of_int x :: 32 word)"
definition to_long :: "int \<Rightarrow> int" where "to_long x = sint (word_of_int x :: 64 word)"

definition mark_of :: "tfinfo \<Rightarrow> u32" where
  "mark_of s = (if ftype s \<noteq> 0 then TF_MARK_EOC32 else TF_MARK_EOC16)"

text \<open>
  The walk along the chain, \<open>cluster_idx\<close> steps; a step past the end allocates. The result says
  whether the walk failed.
\<close>

fun seek_walk :: "nat \<Rightarrow> u32 \<Rightarrow> TFFile \<Rightarrow> tfinfo \<Rightarrow> bool \<times> TFFile \<times> tfinfo" where
  "seek_walk 0 mark fp s = (False, fp, s)"
| "seek_walk (Suc cluster_idx) mark fp s =
     (let (temp, s) = tf_get_fat_entry (currentCluster fp) s;
          (fp, s) =
            (if temp AND 0x0fffffff \<noteq> mark then (fp\<lparr>currentCluster := temp\<rparr>, s)
             else
               let (temp, s) = tf_find_free_cluster_from (currentCluster fp) s;
                   (_, s) = tf_set_fat_entry (currentCluster fp) temp s;
                   (_, s) = tf_set_fat_entry temp mark s
               in (fp\<lparr>currentCluster := temp\<rparr>, s))
      in if currentCluster fp \<ge> mark \<and> cluster_idx > 0 then (True, fp, s)
         else seek_walk cluster_idx mark fp s)"

text \<open>The part of \<open>tf_unsafe_fseek\<close> under \<open>cluster_idx != fp->currentClusterIdx\<close>.\<close>

definition seek_cluster :: "u32 \<Rightarrow> u32 \<Rightarrow> TFFile \<Rightarrow> tfinfo \<Rightarrow> bool \<times> TFFile \<times> tfinfo" where
  "seek_cluster cluster_idx mark fp s =
     (if cluster_idx \<noteq> currentClusterIdx fp then
        (let temp = cluster_idx;
             (cluster_idx, fp) =
               (if cluster_idx > currentClusterIdx fp
                then (cluster_idx - currentClusterIdx fp, fp)
                else (cluster_idx, fp\<lparr>currentCluster := startCluster fp\<rparr>));
             fp = fp\<lparr>currentClusterIdx := temp\<rparr>
         in seek_walk (unat cluster_idx) mark fp s)
      else (False, fp, s))"

definition tf_unsafe_fseek ::
    "TFFile \<Rightarrow> int \<Rightarrow> int \<Rightarrow> tfinfo \<Rightarrow> int \<times> TFFile \<times> tfinfo" where
  "tf_unsafe_fseek fp base offset s =
     (let pos = base + offset; bpc = uint (sectorsPerCluster s) * 512 in
      if pos > uint (f_size fp) then (TF_ERR_INVALID_SEEK, fp, s)
      else
        let fp = (if pos = uint (f_size fp)
                  then fp\<lparr>f_size := f_size fp + 1, f_flags := f_flags fp OR TF_FLAG_SIZECHANGED\<rparr>
                  else fp);
            (failed, fp, s) = seek_cluster (word_of_int (pos sdiv bpc)) (mark_of s) fp s
        in if failed then (TF_ERR_INVALID_SEEK, fp, s)
           else (0, fp\<lparr>currentByte := word_of_int (pos smod bpc), f_pos := word_of_int pos\<rparr>, s))"

definition tf_fseek ::
    "TFFile \<Rightarrow> int \<Rightarrow> int \<Rightarrow> tfinfo \<Rightarrow> int \<times> TFFile \<times> tfinfo" where
  "tf_fseek fp base offset s =
     (let pos = to_long (base + offset) in
      if pos \<ge> uint (f_size fp) then (TF_ERR_INVALID_SEEK, fp, s)
      else tf_unsafe_fseek fp (to_int32 base) offset s)"

section \<open>Reading\<close>

text \<open>How many bytes one turn of the loop of \<open>tf_fread\<close> copies.\<close>

definition BFSIZE :: int where "BFSIZE = 512"

definition fread_chunk :: "TFFile \<Rightarrow> int \<Rightarrow> u64" where
  "fread_chunk fp sz =
     (let x = word_of_int (BFSIZE - sint (currentByte fp) smod 512) :: u64;
          x = (if x > ucast (f_size fp - f_pos fp) then ucast (f_size fp - f_pos fp) else x)
      in if x > word_of_int sz then word_of_int sz else x)"

lemma smod512: "- 512 < (b :: int) smod 512 \<and> b smod 512 < 512"
  using smod_int_range [of 512 b] by auto

lemma uint_of_small: "0 \<le> d \<Longrightarrow> d < 9223372036854775808 \<Longrightarrow> uint (word_of_int d :: u64) = d"
  by (simp add: uint_word_of_int)

lemma uint_min: "uint (if x > y then y else x) = min (uint x) (uint y)"
  for x y :: u64
  by (simp add: word_less_def min_def)

lemma uint_fread_chunk:
  assumes "0 < sz" "sz < 2 ^ 31"
  shows "uint (fread_chunk fp sz) =
    min (min (512 - sint (currentByte fp) smod 512) (uint (f_size fp - f_pos fp))) sz"
proof -
  have "uint (word_of_int (BFSIZE - sint (currentByte fp) smod 512) :: u64) = 512 - sint (currentByte fp) smod 512"
    using smod512 [of "sint (currentByte fp)"] by (subst uint_of_small) (simp_all add: BFSIZE_def)
  moreover have "uint (word_of_int sz :: u64) = sz"
    using assms by (intro uint_of_small) simp_all
  moreover have "uint (ucast (f_size fp - f_pos fp) :: u64) = uint (f_size fp - f_pos fp)"
    by (simp add: uint_up_ucast is_up)
  ultimately show ?thesis unfolding fread_chunk_def Let_def uint_min by simp
qed

lemma to_long_small: "0 \<le> x \<Longrightarrow> x < 9223372036854775808 \<Longrightarrow> to_long x = x"
  unfolding to_long_def by (subst signed_of_int) (simp add: signed_take_bit_int_eq_self)

lemma fread_chunk_less:
  assumes "0 < sz" "sz < 2 ^ 31"
    and "tf_fseek fp 0 (uint (f_pos fp) + uint (fread_chunk fp sz)) s = (0, fp', s')"
  shows "0 < uint (fread_chunk fp sz) \<and> uint (fread_chunk fp sz) \<le> sz"
proof -
  have "uint (fread_chunk fp sz) \<noteq> 0"
  proof
    assume z: "uint (fread_chunk fp sz) = 0"
    then have "uint (f_size fp - f_pos fp) = 0"
      using smod512 [of "sint (currentByte fp)"] assms(1) uint_fread_chunk [OF assms(1,2), of fp]
      by (simp add: min_def split: if_splits)
    then have "f_size fp - f_pos fp = 0" by (metis word_of_int_uint word_of_int_0)
    then have "f_pos fp = f_size fp" by simp
    moreover have "to_long (uint (f_size fp)) = uint (f_size fp)"
      using unsigned_less [of "f_size fp", where ?'a = int] by (intro to_long_small) simp_all
    ultimately show False
      using assms(3) z by (simp add: tf_fseek_def TF_ERR_INVALID_SEEK_def)
  qed
  then show ?thesis
    using uint_fread_chunk [OF assms(1,2), of fp] uint_nonnegative [of "fread_chunk fp sz"] by linarith
qed

text \<open>
  \<open>tf_fread\<close> with a kernel destination; the bytes it copies there are returned in order. The
  size is an \<open>int\<close>, and both branches on \<open>TF_ATTR_DIRECTORY\<close> are the same code.
\<close>

lemma sint_minus_ucast:
  fixes sz :: "32 word" and x :: u64
  assumes "0 < sint sz" "uint x \<le> sint sz"
  shows "sint (sz - ucast x) = sint sz - uint x"
proof -
  have "sint sz < 2147483648" using sint_lt [of sz] by simp
  then have r: "- 2147483648 \<le> sint sz - uint x" "sint sz - uint x < 2147483648"
    using assms uint_nonnegative [of x] by linarith+
  have "sz - ucast x = word_of_int (sint sz - uint x)"
    unfolding ucast_eq wi_hom_sub [symmetric] of_int_sint scast_id ..
  then show ?thesis using r
    by (simp only: signed_of_int) (simp add: signed_take_bit_int_eq_self)
qed

function tf_fread :: "32 word \<Rightarrow> TFFile \<Rightarrow> tfinfo \<Rightarrow> (int \<times> u8 list) \<times> TFFile \<times> tfinfo" where
  "tf_fread sz fp s =
     (if 0 < sint sz then
        let sector = tf_first_sector (currentCluster fp) s + word_of_int (sint (currentByte fp) sdiv 512);
            (_, s) = tf_fetch sector s;
            x = fread_chunk fp (sint sz);
            bytes = map (\<lambda>i. buffer s (word_of_int (sint (currentByte fp) smod 512) + word_of_nat i))
                      [0..<unat x];
            (rc, fp, s) = tf_fseek fp 0 (uint (f_pos fp) + uint x) s
        in if rc \<noteq> 0 then ((uint x, bytes), fp, s)
           else let ((n, bs), fp, s) = tf_fread (sz - ucast x) fp s
                in ((uint x + n, bytes @ bs), fp, s)
      else ((0, []), fp, s))"
  by pat_completeness auto
termination
proof (relation "measure (\<lambda>(sz, fp, s). nat (sint sz))", goal_cases)
  case (2 sz fp s _ _ _ s1 x bytes _ rc r2 fp' s')
  have "sint sz < 2 ^ 31" using sint_lt [of sz] by simp
  moreover have "tf_fseek fp 0 (uint (f_pos fp) + uint (fread_chunk fp (sint sz))) s1 = (0, fp', s')"
    using 2 by simp
  ultimately have "0 < uint x \<and> uint x \<le> sint sz"
    using fread_chunk_less [of "sint sz" fp s1 fp' s'] 2 by simp
  then show ?case using sint_minus_ucast [of sz x] 2 by simp
qed simp

declare tf_fread.simps [simp del]

section \<open>The cache\<close>

text \<open>
  What a read of a sector through the cache yields. A clean cache holds what the device has;
  the sectors up to 2 GiB are the ones the byte offset of \<open>read_sector\<close> can name.
\<close>

definition view :: "tfinfo \<Rightarrow> u32 \<Rightarrow> mem" where
  "view s sec = (if sec = currentSector s then buffer s else disk s (dev_sector sec))"

definition low :: "u32 \<Rightarrow> bool" where "low sec \<longleftrightarrow> unat sec < 4194304"

definition cache_ok :: "tfinfo \<Rightarrow> bool" where
  "cache_ok s \<longleftrightarrow> low (currentSector s) \<and>
     (sectorFlags s AND TF_FLAG_DIRTY = 0 \<longrightarrow> buffer s = disk s (currentSector s))"

text \<open>Two states that show the same sectors and have the same geometry; with a device that stops nowhere, no stop
  happens between them.\<close>

definition same_geometry :: "tfinfo \<Rightarrow> tfinfo \<Rightarrow> bool" where
  "same_geometry s s' \<longleftrightarrow> ftype s' = ftype s \<and> sectorsPerCluster s' = sectorsPerCluster s \<and>
     firstDataSector s' = firstDataSector s \<and> totalSectors s' = totalSectors s \<and>
     reservedSectors s' = reservedSectors s \<and> stops s' = stops s \<and>
     (answers s \<longrightarrow> halted s' = halted s)"

definition same_view :: "tfinfo \<Rightarrow> tfinfo \<Rightarrow> bool" where
  "same_view s s' \<longleftrightarrow> same_geometry s s' \<and> (\<forall>sec. low sec \<longrightarrow> view s' sec = view s sec)"

lemma same_geometry_refl [simp]: "same_geometry s s"
  by (simp add: same_geometry_def)

lemma same_view_refl [simp]: "same_view s s"
  by (simp add: same_view_def)

lemma same_view_trans [trans]: "same_view s s' \<Longrightarrow> same_view s' s'' \<Longrightarrow> same_view s s''"
  by (simp add: same_view_def same_geometry_def)

lemma dev_sector_low:
  assumes "low sec"
  shows "dev_sector sec = sec"
proof -
  have "int (unat sec) < int 4194304" using assms unfolding low_def by (simp only: of_nat_less_iff)
  then have u: "0 \<le> uint sec" "uint sec < 4194304" by simp_all
  have e: "sec * 512 = word_of_int (uint sec * 512)"
    by (simp add: wi_hom_mult [symmetric])
  have "- 2147483648 \<le> uint sec * 512" "uint sec * 512 < 2147483648" using u by linarith+
  then have "signed_take_bit 31 (uint sec * 512) = uint sec * 512"
    by (intro signed_take_bit_int_eq_self) simp_all
  moreover have "sint (sec * 512) = signed_take_bit 31 (uint sec * 512)"
    unfolding e signed_of_int by simp
  ultimately have "sint (sec * 512) sdiv 512 = uint sec"
    using u by (simp add: sdiv_nonneg)
  then show ?thesis by (simp add: dev_sector_def)
qed

lemma dirty_flag_bits:
  "(x AND NOT TF_FLAG_DIRTY) AND TF_FLAG_DIRTY = 0" "(x OR TF_FLAG_DIRTY) AND TF_FLAG_DIRTY \<noteq> 0"
  "TF_FLAG_DIRTY \<noteq> 0"
  by (simp_all add: TF_FLAG_DIRTY_def and.assoc bit.conj_disj_distrib2 bit.conj_disj_distrib)

lemma tf_fetch_view:
  assumes "cache_ok s" "low sec" "tf_fetch sec s = (rc, s')"
  shows "rc = 0" "cache_ok s'" "same_view s s'" "currentSector s' = sec" "buffer s' = view s sec"
proof -
  have d: "dev_sector sec = sec" "dev_sector (currentSector s) = currentSector s"
    using assms(1,2) by (auto simp: dev_sector_low cache_ok_def)
  have all: "rc = 0 \<and> cache_ok s' \<and> same_view s s' \<and> currentSector s' = sec \<and> buffer s' = view s sec"
  proof (cases "sec = currentSector s")
    case True
    with assms show ?thesis by (simp add: tf_fetch_def view_def)
  next
    case False
    show ?thesis
    proof (cases "sectorFlags s AND TF_FLAG_DIRTY = 0")
      case True
      with assms False d show ?thesis
        by (auto simp: tf_fetch_def read_sector_def cache_ok_def same_view_def same_geometry_def
            view_def dev_sector_low)
    next
      case dirty: False
      with assms False d show ?thesis
        by (auto simp: tf_fetch_def tf_store_def write_sector_def read_sector_def cache_ok_def
            same_view_def same_geometry_def view_def dev_sector_low dirty_flag_bits)
    qed
  qed
  then show "rc = 0" "cache_ok s'" "same_view s s'" "currentSector s' = sec" "buffer s' = view s sec"
    by auto
qed

text \<open>Writing into the cached sector.\<close>

lemma view_poke:
  assumes "cache_ok s" "currentSector s = sec"
    and "s' = s\<lparr>sectorFlags := sectorFlags s OR TF_FLAG_DIRTY, buffer := b\<rparr>"
  shows "cache_ok s'" "same_geometry s s'"
    and "view s' = (view s)(sec := b)"
  using assms by (auto simp: cache_ok_def same_geometry_def view_def dirty_flag_bits fun_eq_iff)

lemma unat_ucast_up:
  "unat (ucast (a :: u16) :: u32) = unat a" "unat (ucast (b :: u32) :: u64) = unat b"
  using unsigned_less [of a, where ?'a = nat] unsigned_less [of b, where ?'a = nat]
  by (simp_all add: unsigned_ucast_eq take_bit_nat_eq_self)

section \<open>The table as a map\<close>

definition cluster_ok :: "u32 \<Rightarrow> bool" where "cluster_ok c \<longleftrightarrow> unat c < 268435456"

definition fat_sector :: "tfinfo \<Rightarrow> u32 \<Rightarrow> u32" where
  "fat_sector s c = ucast (reservedSectors s) + c * 4 div 512"

definition fat_slot :: "u32 \<Rightarrow> u64" where "fat_slot c = ucast (c * 4 mod 512)"

definition fat :: "tfinfo \<Rightarrow> u32 \<Rightarrow> u32" where
  "fat s c = ld32 (view s (fat_sector s c)) (fat_slot c)"

lemma unat_c4: "cluster_ok c \<Longrightarrow> unat (c * 4) = 4 * unat c"
  by (simp add: cluster_ok_def unat_word_ariths)

lemma unat_fat_sector:
  assumes "cluster_ok c"
  shows "unat (fat_sector s c) = unat (reservedSectors s) + unat c div 128"
proof -
  have r: "unat (ucast (reservedSectors s) :: u32) = unat (reservedSectors s)"
    "unat (reservedSectors s) < 65536"
    using unsigned_less [of "reservedSectors s", where ?'a = nat] by (simp_all add: unat_ucast_up)
  have d: "unat (c * 4 div 512) = unat c div 128"
    using unat_c4 [OF assms] div_mult2_eq [of "4 * unat c" 4 128] by (simp add: unat_div)
  have "unat c div 128 < 2097152" using assms by (simp add: cluster_ok_def less_mult_imp_div_less)
  with r d show ?thesis by (simp add: fat_sector_def unat_word_ariths)
qed

lemma low_fat_sector: "cluster_ok c \<Longrightarrow> low (fat_sector s c)"
proof -
  assume c: "cluster_ok c"
  have "unat (reservedSectors s) < 65536"
    using unsigned_less [of "reservedSectors s", where ?'a = nat] by simp
  moreover have "unat c div 128 < 2097152" using c by (simp add: cluster_ok_def less_mult_imp_div_less)
  ultimately show ?thesis using unat_fat_sector [OF c, of s] by (simp add: low_def)
qed

lemma unat_fat_slot: "cluster_ok c \<Longrightarrow> unat (fat_slot c) = 4 * (unat c mod 128)"
  using unat_c4 [of c] mult_mod_right [of 4 "unat c" 128]
  by (simp add: fat_slot_def unat_ucast_up unat_mod)

lemma fat_slot_inj:
  assumes "cluster_ok c" "cluster_ok d" "c \<noteq> d" "fat_sector s c = fat_sector s d"
  shows "fat_slot c \<noteq> fat_slot d"
proof
  assume "fat_slot c = fat_slot d"
  then have "unat c mod 128 = unat d mod 128" using unat_fat_slot assms(1,2) by (metis mult_cancel1 zero_neq_numeral)
  moreover have "unat c div 128 = unat d div 128"
    using unat_fat_sector [OF assms(1), of s] unat_fat_sector [OF assms(2), of s] assms(4) by simp
  ultimately have "unat c = unat d" by (metis mult_div_mod_eq)
  with assms(3) show False by (simp add: word_unat_eq_iff)
qed

lemma ld32_poke:
  assumes "cluster_ok c" "cluster_ok d"
  shows "ld32 (((view s)(fat_sector s c := st32 (view s (fat_sector s c)) (fat_slot c) v)) (fat_sector s d))
           (fat_slot d) = (if d = c then v else fat s d)"
proof (cases "fat_sector s d = fat_sector s c \<and> d \<noteq> c")
  case True
  then have "fat_slot d \<noteq> fat_slot c" using fat_slot_inj [OF assms(2,1), of s] by simp
  moreover have "unat (fat_slot c) mod 4 = 0" "unat (fat_slot d) mod 4 = 0"
    using unat_fat_slot assms by simp_all
  ultimately show ?thesis using True by (simp add: ld32_st32_other fat_def)
next
  case False
  then show ?thesis by (auto simp: fat_def)
qed

lemma tf_get_fat_entry_fat:
  assumes "cache_ok s" "cluster_ok c"
  shows "\<exists>s'. tf_get_fat_entry c s = (fat s c, s') \<and> cache_ok s' \<and> same_view s s'"
proof -
  obtain rc s' where f: "tf_fetch (fat_sector s c) s = (rc, s')" by force
  note v = tf_fetch_view [OF assms(1) low_fat_sector [OF assms(2)] f]
  show ?thesis using f v
    by (simp add: tf_get_fat_entry_def Let_def flip: fat_sector_def fat_slot_def)
       (simp add: fat_def fat_slot_def)
qed

lemma tf_set_fat_entry_fat:
  assumes "cache_ok s" "cluster_ok c"
  shows "\<exists>s'. tf_set_fat_entry c v s = (0, s') \<and> cache_ok s' \<and> same_geometry s s' \<and>
    (\<forall>d. cluster_ok d \<longrightarrow> fat s' d = (if d = c then v else fat s d)) \<and>
    (\<forall>sec. low sec \<longrightarrow> sec \<noteq> fat_sector s c \<longrightarrow> view s' sec = view s sec)"
proof -
  let ?sec = "fat_sector s c"
  obtain rc s1 where f: "tf_fetch ?sec s = (rc, s1)" by force
  note v = tf_fetch_view [OF assms(1) low_fat_sector [OF assms(2)] f]
  have g: "same_geometry s s1" and vw: "\<And>sec. low sec \<Longrightarrow> view s1 sec = view s sec"
    using v(3) by (auto simp: same_view_def)
  have fs: "\<And>d. fat_sector s1 d = fat_sector s d" using g by (simp add: same_geometry_def fat_sector_def)
  have f1: "\<And>d. cluster_ok d \<Longrightarrow> fat s1 d = fat s d"
    by (simp add: fat_def fs vw low_fat_sector)
  let ?s2 = "s1\<lparr>sectorFlags := sectorFlags s1 OR TF_FLAG_DIRTY,
                 buffer := st32 (buffer s1) (fat_slot c) v\<rparr>"
  have b1: "buffer s1 = view s1 ?sec" using v(4) by (simp add: view_def)
  note p = view_poke [OF v(2,4), of ?s2 "st32 (buffer s1) (fat_slot c) v", OF refl]
  have fs2: "\<And>d. fat_sector ?s2 d = fat_sector s1 d" by (simp add: fat_sector_def)
  have f2: "fat ?s2 d = (if d = c then v else fat s d)" if d: "cluster_ok d" for d
    using ld32_poke [OF assms(2) d, of s1 v] p(3) b1 f1 [OF d] fs
    unfolding fat_def [of ?s2] fs2 by simp
  have g2: "same_geometry s ?s2" using g by (simp add: same_geometry_def)
  have v2: "view ?s2 sec = view s sec" if "low sec" "sec \<noteq> ?sec" for sec
    using p(3) vw that by simp
  have e1: "ld32 (buffer s1) (fat_slot c) = fat s c"
    using f1 [OF assms(2)] b1 fs by (simp add: fat_def)
  have t: "tf_set_fat_entry c v s = (0, if fat s c \<noteq> v then ?s2 else s1)"
    using f v(1) e1
    by (simp add: tf_set_fat_entry_def Let_def flip: fat_sector_def fat_slot_def)
  show ?thesis
  proof (cases "fat s c = v")
    case True
    with t v(2) g f1 vw show ?thesis by auto
  next
    case False
    with t p(1) g2 f2 v2 show ?thesis by auto
  qed
qed

lemma same_view_fat: "same_view s s' \<Longrightarrow> cluster_ok c \<Longrightarrow> fat s' c = fat s c"
  by (simp add: fat_def same_view_def same_geometry_def fat_sector_def
      low_fat_sector [unfolded fat_sector_def])

subsection \<open>The interface\<close>

text \<open>
  A table of cells behind a cache: a read yields the cell and changes nothing that can be
  seen, a write changes its cell only.
\<close>

locale cell_table =
  fixes get :: "'k \<Rightarrow> 's \<Rightarrow> 'v \<times> 's"
    and put :: "'k \<Rightarrow> 'v \<Rightarrow> 's \<Rightarrow> int \<times> 's"
    and inv :: "'s \<Rightarrow> bool"
    and tab :: "'s \<Rightarrow> 'k \<Rightarrow> 'v"
    and key :: "'k \<Rightarrow> bool"
    and unchanged :: "'s \<Rightarrow> 's \<Rightarrow> bool"
    and frame :: "'s \<Rightarrow> 's \<Rightarrow> bool"
  assumes get_law: "inv s \<Longrightarrow> key k \<Longrightarrow> \<exists>s'. get k s = (tab s k, s') \<and> inv s' \<and> unchanged s s'"
    and put_law: "inv s \<Longrightarrow> key k \<Longrightarrow> \<exists>s'. put k v s = (0, s') \<and> inv s' \<and> frame s s' \<and>
      (\<forall>j. key j \<longrightarrow> tab s' j = (if j = k then v else tab s j))"
    and unchanged_tab: "unchanged s s' \<Longrightarrow> key k \<Longrightarrow> tab s' k = tab s k"
    and unchanged_frame: "unchanged s s' \<Longrightarrow> frame s s'"
    and frame_trans: "frame s s' \<Longrightarrow> frame s' s'' \<Longrightarrow> frame s s''"
begin

lemma getE:
  assumes "inv s" "key k"
  obtains s' where "get k s = (tab s k, s')" "inv s'" "unchanged s s'" "frame s s'"
    "\<And>j. key j \<Longrightarrow> tab s' j = tab s j"
  using get_law [OF assms] unchanged_tab unchanged_frame by blast

lemma putE:
  assumes "inv s" "key k"
  obtains s' where "put k v s = (0, s')" "inv s'" "frame s s'"
    "\<And>j. key j \<Longrightarrow> tab s' j = (if j = k then v else tab s j)"
  using put_law [OF assms] by blast

text \<open>What a read returns after a write.\<close>

lemma put_getE:
  assumes "inv s" "key k" "key j"
  obtains s1 s2 where "put k v s = (0, s1)" "get j s1 = (if j = k then v else tab s j, s2)"
    "inv s2" "frame s s2" "\<And>i. key i \<Longrightarrow> tab s2 i = (if i = k then v else tab s i)"
proof -
  from putE [OF assms(1,2)] obtain s1 where 1: "put k v s = (0, s1)" "inv s1" "frame s s1"
    "\<And>j. key j \<Longrightarrow> tab s1 j = (if j = k then v else tab s j)" by metis
  from getE [OF 1(2) assms(3)] obtain s2 where 2: "get j s1 = (tab s1 j, s2)" "inv s2" "frame s1 s2"
    "\<And>j. key j \<Longrightarrow> tab s2 j = tab s1 j" by metis
  show thesis
    by (rule that [of s1 s2]) (use 1 2 assms(3) frame_trans in \<open>auto\<close>)
qed

end

interpretation fat_cells: cell_table tf_get_fat_entry tf_set_fat_entry cache_ok fat cluster_ok
  same_view same_geometry
proof unfold_locales
  fix s c v assume "cache_ok s" "cluster_ok c"
  then show "\<exists>s'. tf_set_fat_entry c v s = (0, s') \<and> cache_ok s' \<and> same_geometry s s' \<and>
      (\<forall>j. cluster_ok j \<longrightarrow> fat s' j = (if j = c then v else fat s j))"
    using tf_set_fat_entry_fat [of s c v] by blast
qed (simp_all only: tf_get_fat_entry_fat same_view_fat, auto simp: same_view_def same_geometry_def)

section \<open>Searching for a free cluster\<close>

definition free_entry :: "tfinfo \<Rightarrow> u32 \<Rightarrow> bool" where
  "free_entry s c \<longleftrightarrow> fat s c AND 0x0fffffff = 0"

lemma same_view_free: "same_view s s' \<Longrightarrow> cluster_ok c \<Longrightarrow> free_entry s' c = free_entry s c"
  by (simp add: free_entry_def same_view_fat)

lemma find_free_loop_spec:
  assumes "cache_ok s" "unat t \<le> 268435456"
  shows "\<exists>i' s'. find_free_loop i t s = (i', s') \<and> cache_ok s' \<and> same_view s s' \<and> i \<le> i' \<and>
    (\<forall>j. i \<le> j \<longrightarrow> j < i' \<longrightarrow> \<not> free_entry s j) \<and>
    (i' < t \<longrightarrow> free_entry s i') \<and> (if i < t then i' \<le> t else i' = i)"
  using assms
proof (induction i t s rule: find_free_loop.induct)
  case (1 i t s)
  show ?case
  proof (cases "i < t")
    case False
    then show ?thesis using 1 by (subst find_free_loop.simps) auto
  next
    case True
    then have k: "cluster_ok i" using 1(3) by (simp add: cluster_ok_def word_less_nat_alt)
    obtain s1 where g: "tf_get_fat_entry i s = (fat s i, s1)" "cache_ok s1" "same_view s s1"
      using fat_cells.getE [OF 1(2) k] by metis
    show ?thesis
    proof (cases "free_entry s i")
      case True
      then show ?thesis using \<open>i < t\<close> g
        by (subst find_free_loop.simps) (auto simp: free_entry_def)
    next
      case nf: False
      then have e: "find_free_loop i t s = find_free_loop (i + 1) t s1"
        using \<open>i < t\<close> g by (subst find_free_loop.simps) (simp add: free_entry_def)
      obtain i' s' where r: "find_free_loop (i + 1) t s1 = (i', s')" "cache_ok s'" "same_view s1 s'"
        "i + 1 \<le> i'" "\<forall>j. i + 1 \<le> j \<longrightarrow> j < i' \<longrightarrow> \<not> free_entry s1 j" "i' < t \<longrightarrow> free_entry s1 i'"
        "if i + 1 < t then i' \<le> t else i' = i + 1"
        using 1(1) [OF True g(1) [symmetric] refl] nf g(2) 1(3) by (auto simp: free_entry_def)
      have u: "unat (i + 1) = Suc (unat i)" by (rule unat_succ_less [OF True])
      have it: "i' \<le> t" using r(7) True u by (auto simp: word_le_nat_alt word_less_nat_alt split: if_splits)
      have ok: "cluster_ok j" if "j < t" for j
        using that 1(3) by (simp add: cluster_ok_def word_less_nat_alt)
      have f: "free_entry s1 j = free_entry s j" if "j < t" for j
        using same_view_free [OF g(3) ok [OF that]] .
      have "\<not> free_entry s j" if "i \<le> j" "j < i'" for j
      proof (cases "j = i")
        case False
        then have "i + 1 \<le> j" using that(1) u by (auto simp: word_le_nat_alt word_unat_eq_iff)
        moreover have "j < t" using that(2) it by simp
        ultimately show ?thesis using r(5) that(2) f by blast
      qed (use nf in simp)
      moreover have "i' < t \<longrightarrow> free_entry s i'" using r(6) f by blast
      moreover have "i \<le> i'" using r(4) u by (simp add: word_le_nat_alt)
      ultimately show ?thesis
        using e r(1,2) same_view_trans [OF g(3) r(3)] it True by auto
    qed
  qed
qed

text \<open>searching from a cluster\<close>

theorem tf_find_free_cluster_from_spec:
  assumes "cache_ok s" "unat (totalClusters s) \<le> 268435456" "c \<le> totalClusters s"
  shows "\<exists>i s'. tf_find_free_cluster_from c s = (i, s') \<and> cache_ok s' \<and> same_view s s' \<and>
    (if \<exists>j. c \<le> j \<and> j < totalClusters s \<and> free_entry s j
     then c \<le> i \<and> i < totalClusters s \<and> free_entry s i \<and> (\<forall>j. c \<le> j \<longrightarrow> j < i \<longrightarrow> \<not> free_entry s j)
     else if \<exists>j < totalClusters s. free_entry s j
     then i < totalClusters s \<and> free_entry s i \<and> (\<forall>j < i. \<not> free_entry s j)
     else i = totalClusters s)"
proof -
  let ?t = "totalClusters s"
  obtain i s1 where 1: "find_free_loop c ?t s = (i, s1)" "cache_ok s1" "same_view s s1" "c \<le> i"
    "\<forall>j. c \<le> j \<longrightarrow> j < i \<longrightarrow> \<not> free_entry s j" "i < ?t \<longrightarrow> free_entry s i"
    "if c < ?t then i \<le> ?t else i = c"
    using find_free_loop_spec [OF assms(1,2), of c] by blast
  have it: "i \<le> ?t" using 1(7) assms(3) by (auto split: if_splits)
  have t1: "totalClusters s1 = ?t" using 1(3) by (simp add: totalClusters_def same_view_def same_geometry_def)
  show ?thesis
  proof (cases "i = ?t")
    case False
    then have "i < ?t" using it by simp
    then show ?thesis using 1 False t1 by (auto simp: tf_find_free_cluster_from_def)
  next
    case True
    obtain j s2 where 2: "find_free_loop 0 ?t s1 = (j, s2)" "cache_ok s2" "same_view s1 s2"
      "\<forall>k. 0 \<le> k \<longrightarrow> k < j \<longrightarrow> \<not> free_entry s1 k" "j < ?t \<longrightarrow> free_entry s1 j"
      "if 0 < ?t then j \<le> ?t else j = 0"
      using find_free_loop_spec [OF 1(2) assms(2), of 0] by blast
    have jt: "j \<le> ?t" using 2(6) by (auto split: if_splits)
    have f: "free_entry s1 k = free_entry s k" if "k < ?t" for k
      using that assms(2) by (intro same_view_free [OF 1(3)]) (simp add: cluster_ok_def word_less_nat_alt)
    have r: "tf_find_free_cluster_from c s = (j, s2)"
      using 1(1) True 2(1) t1 by (simp add: tf_find_free_cluster_from_def tf_find_free_cluster_def)
    have n: "\<not> (\<exists>j. c \<le> j \<and> j < ?t \<and> free_entry s j)" using 1(5) True by auto
    have b: "\<forall>k < j. \<not> free_entry s k" using 2(4) jt f by (metis order_less_le_trans word_zero_le)
    show ?thesis
    proof (cases "j < ?t")
      case True
      then show ?thesis using r n b 2 f same_view_trans [OF 1(3) 2(3)] by auto
    next
      case False
      then have "j = ?t" using jt by simp
      then show ?thesis using r n b 2 same_view_trans [OF 1(3) 2(3)] by auto
    qed
  qed
qed

section \<open>Releasing a chain\<close>

lemma free_chain_loop_stop: "fat_entry \<le> 2 \<or> \<not> fat_entry < TF_MARK_EOC32 \<Longrightarrow> free_chain_loop cluster fat_entry s = Some s"
  by (subst free_chain_loop.simps) (auto simp: TF_MARK_EOC32_def)

lemma free_chain_loop_step:
  "fat_entry < TF_MARK_EOC32 \<Longrightarrow> 2 < fat_entry \<Longrightarrow>
   free_chain_loop cluster fat_entry s =
     (let s1 = snd (tf_set_fat_entry cluster 0 s); (e, s2) = tf_get_fat_entry fat_entry s1
      in free_chain_loop e e s2)"
  by (subst free_chain_loop.simps) (auto simp add: case_prod_beta Let_def)

lemma below_EOC_ok: "c < TF_MARK_EOC32 \<Longrightarrow> cluster_ok c"
  by (simp add: TF_MARK_EOC32_def cluster_ok_def word_less_nat_alt)

text \<open>
  The table after \<open>tf_free_clusterchain\<close>: of the chain \<open>c0\<close>, \<open>c1\<close>, \<open>c2\<close>, ... the entries of \<open>c0\<close>
  and \<open>c2\<close> at most become free.
\<close>

definition in_chain :: "u32 \<Rightarrow> bool" where "in_chain e \<longleftrightarrow> 2 < e \<and> e < TF_MARK_EOC32"

definition chain_freed :: "(u32 \<Rightarrow> u32) \<Rightarrow> u32 \<Rightarrow> u32 \<Rightarrow> u32" where
  "chain_freed f c0 =
     (let c1 = f c0 in
      if \<not> in_chain c1 then f
      else let g = f(c0 := 0); c2 = g c1 in if in_chain c2 then g(c2 := 0) else g)"

text \<open>tf_free_clusterchain ends on every table and frees at most the first and the third cluster of
  the chain.
\<close>

theorem tf_free_clusterchain_spec:
  assumes "cache_ok s" "cluster_ok c0"
  shows "\<exists>s'. tf_free_clusterchain c0 s = Some (0, s') \<and> cache_ok s' \<and> same_geometry s s' \<and>
    (\<forall>d. cluster_ok d \<longrightarrow> fat s' d = chain_freed (fat s) c0 d)"
proof -
  let ?c1 = "fat s c0"
  obtain s1 where 1: "tf_get_fat_entry c0 s = (?c1, s1)" "cache_ok s1" "same_geometry s s1"
    "\<And>d. cluster_ok d \<Longrightarrow> fat s1 d = fat s d"
    using fat_cells.getE [OF assms] by metis
  have start: "tf_free_clusterchain c0 s = map_option (\<lambda>s. (0, s)) (free_chain_loop c0 ?c1 s1)"
    using 1(1) by (simp add: tf_free_clusterchain_def)
  show ?thesis
  proof (cases "in_chain ?c1")
    case False
    then show ?thesis using start 1
      by (auto simp: in_chain_def chain_freed_def free_chain_loop_stop not_less)
  next
    case True
    then have k1: "cluster_ok ?c1" by (simp add: in_chain_def below_EOC_ok)
    let ?g = "(fat s)(c0 := 0)" and ?c2 = "((fat s)(c0 := 0)) (fat s c0)"
    obtain s2 s3 where 2: "tf_set_fat_entry c0 0 s1 = (0, s2)"
      "tf_get_fat_entry ?c1 s2 = (if ?c1 = c0 then 0 else fat s1 ?c1, s3)" "cache_ok s3" "same_geometry s1 s3"
      "\<And>d. cluster_ok d \<Longrightarrow> fat s3 d = (if d = c0 then 0 else fat s1 d)"
      using fat_cells.put_getE [OF 1(2) assms(2) k1, of 0] by metis
    have g3: "same_geometry s s3" using 1(3) 2(4) fat_cells.frame_trans by blast
    have v2: "(if ?c1 = c0 then 0 else fat s1 ?c1) = ?c2" using 1(4) [OF k1] by auto
    have l1: "free_chain_loop c0 ?c1 s1 = free_chain_loop ?c2 ?c2 s3"
      using True 2(1,2) v2 by (simp add: in_chain_def free_chain_loop_step)
    have f3: "fat s3 d = ?g d" if "cluster_ok d" for d using 2(5) 1(4) that by auto
    show ?thesis
    proof (cases "in_chain ?c2")
      case False
      then show ?thesis using start l1 2(3) g3 f3 True
        by (auto simp: in_chain_def chain_freed_def Let_def free_chain_loop_stop not_less)
    next
      case in2: True
      then have k2: "cluster_ok ?c2" by (simp add: in_chain_def below_EOC_ok)
      obtain s4 s5 where 4: "tf_set_fat_entry ?c2 0 s3 = (0, s4)"
        "tf_get_fat_entry ?c2 s4 = (if ?c2 = ?c2 then 0 else fat s3 ?c2, s5)"
        "cache_ok s5" "same_geometry s3 s5" "\<And>d. cluster_ok d \<Longrightarrow> fat s5 d = (if d = ?c2 then 0 else fat s3 d)"
        by (rule fat_cells.put_getE [OF 2(3) k2 k2, of 0]) blast
      have "free_chain_loop ?c2 ?c2 s3 = Some s5"
        using in2 4(1,2) by (simp add: in_chain_def free_chain_loop_step free_chain_loop_stop)
      moreover have "same_geometry s s5" using g3 4(4) fat_cells.frame_trans by blast
      moreover have "fat s5 d = chain_freed (fat s) c0 d" if "cluster_ok d" for d
        using 4(5) [OF that] f3 [OF that] True in2 by (simp add: chain_freed_def Let_def)
      ultimately show ?thesis using start l1 4(3) by auto
    qed
  qed
qed

section \<open>Following a chain\<close>

fun hops :: "('a \<Rightarrow> 'a) \<Rightarrow> 'a \<Rightarrow> nat \<Rightarrow> 'a" where
  "hops f c 0 = c"
| "hops f c (Suc n) = hops f (f c) n"

lemma hops_Suc': "hops f c (Suc n) = f (hops f c n)"
  by (induction n arbitrary: c) auto

lemma hops_add: "hops f c (m + n) = hops f (hops f c m) n"
  by (induction m arbitrary: c) auto

text \<open>A chain of \<open>n\<close> steps that all lead to clusters.\<close>

definition links :: "tfinfo \<Rightarrow> u32 \<Rightarrow> nat \<Rightarrow> bool" where
  "links s c n \<longleftrightarrow> (\<forall>k \<le> n. hops (fat s) c k < TF_MARK_EOC32)"

lemma links_hops: "links s c (m + n) \<Longrightarrow> links s (hops (fat s) c m) n"
  by (simp add: links_def flip: hops_add)

lemma links_mono: "links s c n \<Longrightarrow> m \<le> n \<Longrightarrow> links s c m"
  by (simp add: links_def)

lemma same_view_hops:
  assumes "same_view s s'" "links s c n"
  shows "hops (fat s') c n = hops (fat s) c n"
  using assms(2)
proof (induction n)
  case (Suc n)
  then have "hops (fat s') c n = hops (fat s) c n" using links_mono by (metis le_SucI order_refl)
  moreover have "cluster_ok (hops (fat s) c n)" using Suc.prems by (simp add: links_def below_EOC_ok)
  ultimately show ?case using same_view_fat [OF assms(1)] by (simp add: hops_Suc' del: hops.simps)
qed simp

lemma same_view_links: "same_view s s' \<Longrightarrow> links s c n \<Longrightarrow> links s' c n"
  unfolding links_def [of s'] using same_view_hops links_mono by (metis links_def)

lemma and_mask28: "c < TF_MARK_EOC32 \<Longrightarrow> c AND 0x0fffffff = c"
proof -
  assume "c < TF_MARK_EOC32"
  then have "unat c < 2 ^ 28" by (simp add: TF_MARK_EOC32_def word_less_nat_alt)
  then have "take_bit 28 c = c"
    by (simp add: word_unat_eq_iff unsigned_take_bit_eq take_bit_nat_eq_self)
  then show ?thesis by (simp add: take_bit_eq_mask mask_eq_exp_minus_1)
qed

lemma seek_walk_links:
  assumes "cache_ok s" "links s (currentCluster fp) n"
  shows "\<exists>s'. seek_walk n TF_MARK_EOC32 fp s =
      (False, fp\<lparr>currentCluster := hops (fat s) (currentCluster fp) n\<rparr>, s') \<and> cache_ok s' \<and> same_view s s'"
  using assms
proof (induction n arbitrary: fp s)
  case 0
  then show ?case by simp
next
  case (Suc n)
  let ?c = "currentCluster fp" and ?d = "fat s (currentCluster fp)"
  have c: "cluster_ok ?c" using Suc.prems(2) by (auto simp: links_def below_EOC_ok)
  have d: "?d < TF_MARK_EOC32" using Suc.prems(2) by (force simp: links_def)
  obtain s1 where g: "tf_get_fat_entry ?c s = (?d, s1)" "cache_ok s1" "same_view s s1"
    using fat_cells.getE [OF Suc.prems(1) c] by metis
  have l: "links s ?d n" using links_hops [of s ?c 1 n] Suc.prems(2) by simp
  obtain s2 where r: "seek_walk n TF_MARK_EOC32 (fp\<lparr>currentCluster := ?d\<rparr>) s1 =
      (False, fp\<lparr>currentCluster := hops (fat s1) ?d n\<rparr>, s2)" "cache_ok s2" "same_view s1 s2"
    using Suc.IH [OF g(2), of "fp\<lparr>currentCluster := ?d\<rparr>"] same_view_links [OF g(3) l] by auto
  have d': "\<not> TF_MARK_EOC32 \<le> ?d" "?d AND 0x0fffffff \<noteq> TF_MARK_EOC32" using d and_mask28 [OF d] by auto
  show ?case
    using g d' r same_view_hops [OF g(3) l] same_view_trans [OF g(3) r(3)]
    by (simp add: Let_def)
qed

section \<open>Where a position lies\<close>

definition bpc :: "tfinfo \<Rightarrow> nat" where "bpc s = unat (sectorsPerCluster s) * 512"

text \<open>
  The handle names the cluster of its cluster index, and the chain reaches as far as position
  \<open>p\<close>.
\<close>

definition handle_ok :: "tfinfo \<Rightarrow> TFFile \<Rightarrow> bool" where
  "handle_ok s fp \<longleftrightarrow> ftype s \<noteq> 0 \<and> 0 < unat (sectorsPerCluster s) \<and>
     currentCluster fp = hops (fat s) (startCluster fp) (unat (currentClusterIdx fp)) \<and>
     links s (startCluster fp) (unat (currentClusterIdx fp))"

definition reaches :: "tfinfo \<Rightarrow> TFFile \<Rightarrow> nat \<Rightarrow> bool" where
  "reaches s fp p \<longleftrightarrow> links s (startCluster fp) (p div bpc s)"

definition grow :: "TFFile \<Rightarrow> TFFile" where
  "grow fp = fp\<lparr>f_size := f_size fp + 1, f_flags := f_flags fp OR TF_FLAG_SIZECHANGED\<rparr>"

text \<open>The handle after a seek to \<open>p\<close>.\<close>

definition at_pos :: "tfinfo \<Rightarrow> TFFile \<Rightarrow> nat \<Rightarrow> TFFile" where
  "at_pos s fp p = fp\<lparr>currentClusterIdx := word_of_nat (p div bpc s),
     currentCluster := hops (fat s) (startCluster fp) (p div bpc s),
     currentByte := word_of_nat (p mod bpc s), f_pos := word_of_nat p\<rparr>"

lemma bpc_pos: "handle_ok s fp \<Longrightarrow> 512 \<le> bpc s"
  by (simp add: handle_ok_def bpc_def)

lemma bpc_le: "bpc s \<le> 130560"
  using unsigned_less [of "sectorsPerCluster s", where ?'a = nat] by (simp add: bpc_def)

lemma same_view_bpc: "same_view s s' \<Longrightarrow> bpc s' = bpc s"
  by (simp add: same_view_def same_geometry_def bpc_def)

lemma at_pos_handle_ok:
  assumes "handle_ok s fp" "reaches s fp p" "p < 2 ^ 32"
  shows "handle_ok s (at_pos s fp p)"
proof -
  have "p div bpc s \<le> p" by simp
  then have "p div bpc s < 2 ^ 32" using assms(3) by linarith
  then have "unat (word_of_nat (p div bpc s) :: u32) = p div bpc s" by (simp add: unat_of_nat)
  then show ?thesis using assms(1,2) by (simp add: handle_ok_def at_pos_def reaches_def)
qed

lemma same_view_at_pos:
  "same_view s s' \<Longrightarrow> reaches s fp p \<Longrightarrow> at_pos s' fp p = at_pos s fp p"
  by (simp add: at_pos_def same_view_bpc same_view_hops reaches_def)

lemma same_view_reaches: "same_view s s' \<Longrightarrow> reaches s fp p \<Longrightarrow> reaches s' fp p"
  by (simp add: reaches_def same_view_bpc same_view_links)

lemma same_view_handle_ok: "same_view s s' \<Longrightarrow> handle_ok s fp \<Longrightarrow> handle_ok s' fp"
  using same_view_hops same_view_links
  by (simp add: handle_ok_def) (auto simp: same_view_def same_geometry_def)

text \<open>The walk of a seek to cluster number \<open>n\<close>, from either side.\<close>

lemma seek_cluster_spec:
  assumes inv: "cache_ok s" "handle_ok s fp" and n: "links s (startCluster fp) (unat n)"
  shows "\<exists>s'. seek_cluster n TF_MARK_EOC32 fp s =
     (False, fp\<lparr>currentClusterIdx := n, currentCluster := hops (fat s) (startCluster fp) (unat n)\<rparr>, s')
     \<and> cache_ok s' \<and> same_view s s'"
proof -
  let ?i = "currentClusterIdx fp"
  have c: "currentCluster fp = hops (fat s) (startCluster fp) (unat ?i)" using inv(2) by (simp add: handle_ok_def)
  consider "n = ?i" | "n > ?i" | "n < ?i" by (rule linorder_cases)
  then show ?thesis
  proof cases
    case 1
    have "fp = fp\<lparr>currentClusterIdx := n, currentCluster := hops (fat s) (startCluster fp) (unat n)\<rparr>"
      using 1 c by simp
    then show ?thesis using 1 inv(1) by (simp add: seek_cluster_def)
  next
    case 2
    then have e: "unat n = unat ?i + unat (n - ?i)"
      by (simp add: unat_sub word_less_nat_alt word_le_nat_alt)
    have "links s (currentCluster fp) (unat (n - ?i))" using links_hops n e c by metis
    with seek_walk_links [OF inv(1), of "fp\<lparr>currentClusterIdx := n\<rparr>" "unat (n - ?i)"] 2 order_less_imp_not_eq2 [OF 2]
    show ?thesis unfolding e by (simp add: seek_cluster_def c hops_add)
  next
    case 3
    then have "\<not> n > ?i" "n \<noteq> ?i" by auto
    with seek_walk_links [OF inv(1), of "fp\<lparr>currentCluster := startCluster fp, currentClusterIdx := n\<rparr>" "unat n"] n
    show ?thesis by (simp add: seek_cluster_def)
  qed
qed

lemma seek_index:
  assumes "handle_ok s fp" "p < 2 ^ 32"
  shows "(word_of_int (int p sdiv (uint (sectorsPerCluster s) * 512)) :: u32) = word_of_nat (p div bpc s)"
    and "(word_of_int (int p smod (uint (sectorsPerCluster s) * 512)) :: u16) = word_of_nat (p mod bpc s)"
    and "unat (word_of_nat (p div bpc s) :: u32) = p div bpc s"
proof -
  have b: "uint (sectorsPerCluster s) * 512 = int (bpc s)" by (simp add: bpc_def)
  have pos: "0 < int (bpc s)" using bpc_pos [OF assms(1)] by simp
  show "(word_of_int (int p sdiv (uint (sectorsPerCluster s) * 512)) :: u32) = word_of_nat (p div bpc s)"
    unfolding b sdiv_nonneg [OF of_nat_0_le_iff pos] by (simp flip: zdiv_int)
  show "(word_of_int (int p smod (uint (sectorsPerCluster s) * 512)) :: u16) = word_of_nat (p mod bpc s)"
    unfolding b smod_nonneg [OF of_nat_0_le_iff pos] by (simp flip: zmod_int)
  have "p div bpc s \<le> p" by simp
  then have "p div bpc s < 2 ^ 32" using assms(2) by linarith
  then show "unat (word_of_nat (p div bpc s) :: u32) = p div bpc s" by (simp add: unat_of_nat)
qed

lemma handle_ok_grow [simp]: "handle_ok s (grow fp) = handle_ok s fp"
  by (simp add: handle_ok_def grow_def)

lemma unsafe_fseek_at:
  assumes "cache_ok s" "handle_ok s fp" "reaches s fp p" "base + offset = int p" "p \<le> unat (f_size fp)"
  shows "\<exists>s'. tf_unsafe_fseek fp base offset s =
      (0, at_pos s (if p = unat (f_size fp) then grow fp else fp) p, s') \<and> cache_ok s' \<and> same_view s s'"
proof -
  let ?fp = "if p = unat (f_size fp) then grow fp else fp"
  have p32: "p < 2 ^ 32" using assms(5) unsigned_less [of "f_size fp", where ?'a = nat] by simp
  note ix = seek_index [OF assms(2) p32]
  let ?n = "word_of_nat (p div bpc s) :: u32"
  have m: "mark_of s = TF_MARK_EOC32" using assms(2) by (simp add: mark_of_def handle_ok_def)
  have u: "uint (f_size fp) = int (unat (f_size fp))" by simp
  have g: "(if base + offset = uint (f_size fp)
      then fp\<lparr>f_size := f_size fp + 1, f_flags := f_flags fp OR TF_FLAG_SIZECHANGED\<rparr> else fp) = ?fp"
    unfolding assms(4) u of_nat_eq_iff grow_def ..
  have le: "\<not> base + offset > uint (f_size fp)" 
    unfolding assms(4) u of_nat_less_iff using assms(5) by simp
  have l: "links s (startCluster ?fp) (unat ?n)"
    unfolding ix(3) using assms(3) by (auto simp: reaches_def grow_def)
  have h: "handle_ok s ?fp" using assms(2) by simp
  obtain s' where w: "seek_cluster ?n TF_MARK_EOC32 ?fp s =
      (False, ?fp\<lparr>currentClusterIdx := ?n, currentCluster := hops (fat s) (startCluster ?fp) (p div bpc s)\<rparr>, s')"
    "cache_ok s'" "same_view s s'"
    using seek_cluster_spec [OF assms(1) h l] unfolding ix(3) by blast
  have "tf_unsafe_fseek fp base offset s =
    (0, ?fp\<lparr>currentClusterIdx := ?n, currentCluster := hops (fat s) (startCluster ?fp) (p div bpc s),
      currentByte := word_of_nat (p mod bpc s), f_pos := word_of_nat p\<rparr>, s')"
    unfolding tf_unsafe_fseek_def Let_def assms(4) g [unfolded assms(4)] m ix(1,2) w(1) prod.case
    using le [unfolded assms(4)] by simp
  with w(2,3) show ?thesis by (simp add: at_pos_def)
qed

text \<open>seeking\<close>

theorem tf_unsafe_fseek_spec:
  assumes "cache_ok s" "handle_ok s fp" "reaches s fp p" "base + offset = int p" "p \<le> unat (f_size fp)"
  shows "\<exists>s'. tf_unsafe_fseek fp base offset s =
      (0, at_pos s (if p = unat (f_size fp) then grow fp else fp) p, s') \<and> cache_ok s' \<and> same_view s s'"
  using assms by (rule unsafe_fseek_at)

text \<open>The same for \<open>tf_fseek\<close>, which takes its base as a \<open>size_t\<close>.\<close>

lemma tf_fseek_at:
  assumes "cache_ok s" "handle_ok s fp" "reaches s fp p" "p < unat (f_size fp)"
    and base: "to_long (base + offset) = int p" "to_int32 base + offset = int p"
  shows "\<exists>s'. tf_fseek fp base offset s = (0, at_pos s fp p, s') \<and> cache_ok s' \<and> same_view s s'"
proof -
  have u: "uint (f_size fp) = int (unat (f_size fp))" by simp
  have nl: "\<not> to_long (base + offset) \<ge> uint (f_size fp)"
    unfolding base(1) u using assms(4) by (simp only: of_nat_le_iff not_le)
  show ?thesis
    using unsafe_fseek_at [OF assms(1-3) base(2)] assms(4) nl by (simp add: tf_fseek_def)
qed

section \<open>What a read returns\<close>

definition pos_sector :: "tfinfo \<Rightarrow> u32 \<Rightarrow> nat \<Rightarrow> u32" where
  "pos_sector s start p =
     tf_first_sector (hops (fat s) start (p div bpc s)) s + word_of_nat (p mod bpc s div 512)"

text \<open>Byte \<open>p\<close> of the file whose chain begins at \<open>start\<close>.\<close>

definition file_byte :: "tfinfo \<Rightarrow> u32 \<Rightarrow> nat \<Rightarrow> u8" where
  "file_byte s start p = view s (pos_sector s start p) (word_of_nat (p mod 512))"

text \<open>
  A handle standing at a position inside its file, the chain of which covers the file. Clusters
  have at most 64 sectors: \<open>currentByte\<close> is a \<open>short\<close>.
\<close>

definition readable :: "tfinfo \<Rightarrow> TFFile \<Rightarrow> bool" where
  "readable s fp \<longleftrightarrow> ftype s \<noteq> 0 \<and> 0 < unat (sectorsPerCluster s) \<and> unat (sectorsPerCluster s) \<le> 64 \<and>
     fp = at_pos s fp (unat (f_pos fp)) \<and> unat (f_pos fp) < unat (f_size fp) \<and>
     (\<forall>q < unat (f_size fp). reaches s fp q \<and> low (pos_sector s (startCluster fp) q))"

lemma block_split:
  fixes p i k :: nat
  assumes "p mod 512 + i < 512"
  shows "(p + i) mod 512 = p mod 512 + i" "(p + i) div (k * 512) = p div (k * 512)"
    "(p + i) mod (k * 512) div 512 = p mod (k * 512) div 512"
proof -
  obtain q r where p: "p = 512 * q + r" "r < 512"
    by (rule that [of "p div 512" "p mod 512"]) simp_all
  then have r: "r + i < 512" "p + i = (r + i) + 512 * q" "p = r + 512 * q" using assms by simp_all
  have "p div 512 = q" "p mod 512 = r" unfolding r(3) using p(2) by simp_all
  moreover have "(p + i) div 512 = q" "(p + i) mod 512 = r + i" unfolding r(2) using r(1)
    by (simp_all only: div_mult_self2 mod_mult_self2 mod_less div_less add_0_right add_0)
  ultimately have d: "(p + i) div 512 = p div 512" and m: "(p + i) mod 512 = p mod 512 + i" by simp_all
  show "(p + i) mod 512 = p mod 512 + i" by (rule m)
  show "(p + i) div (k * 512) = p div (k * 512)"
    using d by (simp add: mult.commute [of k] div_mult2_eq)
  have "q mod (k * 512) div 512 = q div 512 mod k" for q :: nat
    by (simp add: mult.commute [of k] mod_mult2_eq)
  with d show "(p + i) mod (k * 512) div 512 = p mod (k * 512) div 512" by simp
qed

lemma file_byte_block:
  assumes "p mod 512 + i < 512"
  shows "file_byte s start (p + i) = view s (pos_sector s start p) (word_of_nat (p mod 512 + i))"
  using block_split(1) [OF assms] block_split(2,3) [OF assms, of "unat (sectorsPerCluster s)"]
  by (simp add: file_byte_def pos_sector_def bpc_def)

lemma same_view_first_sector: "same_view s s' \<Longrightarrow> tf_first_sector c s' = tf_first_sector c s"
  by (simp add: same_view_def same_geometry_def tf_first_sector_def)

lemma same_view_pos_sector:
  "same_view s s' \<Longrightarrow> reaches s fp p \<Longrightarrow> pos_sector s' (startCluster fp) p = pos_sector s (startCluster fp) p"
  by (simp add: pos_sector_def reaches_def same_view_bpc same_view_hops same_view_first_sector)

lemma same_view_file_byte:
  "same_view s s' \<Longrightarrow> reaches s fp p \<Longrightarrow> low (pos_sector s (startCluster fp) p) \<Longrightarrow>
   file_byte s' (startCluster fp) p = file_byte s (startCluster fp) p"
  by (simp add: file_byte_def same_view_pos_sector) (simp add: same_view_def)

lemma same_view_readable:
  assumes "same_view s s'" "readable s fp"
  shows "readable s' fp"
proof -
  have "at_pos s' fp (unat (f_pos fp)) = at_pos s fp (unat (f_pos fp))"
    using assms same_view_at_pos by (auto simp: readable_def)
  with assms show ?thesis
    by (auto simp: readable_def same_view_reaches same_view_pos_sector)
       (simp_all add: same_view_def same_geometry_def)
qed

lemma readable_at_pos:
  assumes "readable s fp" "p < unat (f_size fp)"
  shows "readable s (at_pos s fp p)"
proof -
  have "p < 2 ^ 32" using assms(2) unsigned_less [of "f_size fp", where ?'a = nat] by simp
  then have "unat (word_of_nat p :: u32) = p" by (simp add: unat_of_nat)
  with assms show ?thesis by (simp add: readable_def at_pos_def reaches_def)
qed

lemma readable_handle_ok:
  assumes "readable s fp"
  shows "handle_ok s fp"
proof -
  let ?p = "unat (f_pos fp)"
  have "?p < 2 ^ 32" using unsigned_less [of "f_pos fp", where ?'a = nat] by simp
  then have "?p div bpc s < 2 ^ 32" by (rule order_le_less_trans [OF div_le_dividend])
  then have u: "unat (word_of_nat (?p div bpc s) :: u32) = ?p div bpc s" by (simp add: unat_of_nat)
  have f: "fp = at_pos s fp ?p" and r: "reaches s fp ?p" using assms by (auto simp: readable_def)
  have "currentClusterIdx fp = word_of_nat (?p div bpc s)"
    "currentCluster fp = hops (fat s) (startCluster fp) (?p div bpc s)"
    by (subst f, simp add: at_pos_def)+
  with u r assms show ?thesis by (simp add: handle_ok_def readable_def reaches_def)
qed

lemma readable_currentByte:
  assumes "readable s fp"
  shows "sint (currentByte fp) = int (unat (f_pos fp) mod bpc s)"
proof -
  let ?m = "unat (f_pos fp) mod bpc s"
  have f: "fp = at_pos s fp (unat (f_pos fp))" and b: "0 < bpc s" "bpc s \<le> 32768"
    using assms by (auto simp: readable_def bpc_def)
  have m: "?m < 32768" using b mod_less_divisor [OF b(1), of "unat (f_pos fp)"] by linarith
  have "currentByte fp = word_of_int (int ?m)" by (subst f) (simp add: at_pos_def)
  then have "sint (currentByte fp) = signed_take_bit 15 (int ?m)" by (simp only: signed_of_int) simp
  also have "\<dots> = int ?m" using m by (intro signed_take_bit_int_eq_self) simp_all
  finally show ?thesis .
qed

lemma bpc_mod: "p mod bpc s mod 512 = p mod 512"
  unfolding bpc_def by (simp add: mod_mod_cancel)

lemma readable_chunk:
  fixes sz :: "32 word"
  assumes "readable s fp" "0 < sint sz"
  shows "unat (fread_chunk fp (sint sz)) =
    min (min (512 - unat (f_pos fp) mod 512) (unat (f_size fp) - unat (f_pos fp))) (nat (sint sz))"
proof -
  let ?p = "unat (f_pos fp)"
  have sz: "sint sz < 2 ^ 31" using sint_lt [of sz] by simp
  have sm: "sint (currentByte fp) smod 512 = int (?p mod 512)"
    unfolding readable_currentByte [OF assms(1)] 
    by (subst smod_nonneg) (simp, simp, metis zmod_int bpc_mod of_nat_numeral)
  have "f_pos fp \<le> f_size fp" using assms(1) by (simp add: readable_def word_le_nat_alt)
  then have "unat (f_size fp - f_pos fp) = unat (f_size fp) - ?p" by (simp add: unat_sub)
  then have d: "uint (f_size fp - f_pos fp) = int (unat (f_size fp) - ?p)" by (metis int_nat_eq uint_nonnegative unat_eq_nat_uint)
  have "uint (fread_chunk fp (sint sz)) = min (min (512 - int (?p mod 512)) (int (unat (f_size fp) - ?p))) (sint sz)"
    using uint_fread_chunk [OF assms(2) sz, of fp] unfolding sm d .
  moreover have "512 - int (?p mod 512) = int (512 - ?p mod 512)" by (simp add: of_nat_diff)
  moreover have "sint sz = int (nat (sint sz))" using assms(2) by simp
  ultimately have "uint (fread_chunk fp (sint sz)) =
      int (min (min (512 - ?p mod 512) (unat (f_size fp) - ?p)) (nat (sint sz)))"
    by (metis of_nat_min)
  then show ?thesis unfolding unat_eq_nat_uint by (simp only: nat_int)
qed

lemma min_chunk:
  fixes x p n :: nat
  shows "x \<le> nat z \<Longrightarrow> p + x \<le> n \<Longrightarrow> min (nat z) (n - p) = x + min (nat (z - int x)) (n - (p + x))"
  by (simp add: min_def nat_diff_distrib') arith

lemma upt_map_append: "map f [a..<a + n] @ map f [a + n..<a + n + m] = map f [a..<a + n + m]"
  by (simp flip: map_append upt_add_eq_append)

lemma tf_fseek_inside:
  assumes "cache_ok s" "readable s fp" "p < unat (f_size fp)"
  shows "\<exists>s'. tf_fseek fp 0 (int p) s = (0, at_pos s fp p, s') \<and> cache_ok s' \<and> same_view s s'"
proof -
  have "p < 2 ^ 32" using assms(3) unsigned_less [of "f_size fp", where ?'a = nat] by simp
  then have "to_long (0 + int p) = int p" "to_int32 0 + int p = int p" by (simp_all add: to_long_small to_int32_def)
  with assms show ?thesis
    by (intro tf_fseek_at readable_handle_ok) (simp_all add: readable_def)
qed

lemma tf_fseek_outside:
  assumes "unat (f_size fp) \<le> p" "p < 2 ^ 62"
  shows "tf_fseek fp 0 (int p) s = (TF_ERR_INVALID_SEEK, fp, s)"
proof -
  have l: "to_long (0 + int p) = int p" using assms(2) by (simp add: to_long_small)
  have u: "uint (f_size fp) = int (unat (f_size fp))" by simp
  have "to_long (0 + int p) \<ge> uint (f_size fp)" unfolding l u using assms(1) by (simp only: of_nat_le_iff)
  then show ?thesis by (simp add: tf_fseek_def)
qed

lemma at_pos_sel: "p < 2 ^ 32 \<Longrightarrow> unat (f_pos (at_pos s fp p)) = p"
  "f_size (at_pos s fp p) = f_size fp" "startCluster (at_pos s fp p) = startCluster fp"
  by (simp_all add: at_pos_def unat_of_nat)

text \<open>The bytes one turn copies.\<close>

lemma chunk_bytes:
  assumes "readable s fp" and n: "n \<le> 512 - unat (f_pos fp) mod 512"
    and "b = view s (pos_sector s (startCluster fp) (unat (f_pos fp)))"
  shows "map (\<lambda>i. b (word_of_int (sint (currentByte fp) smod 512) + word_of_nat i)) [0..<n] =
    map (file_byte s (startCluster fp)) [unat (f_pos fp)..<unat (f_pos fp) + n]"
proof -
  let ?p = "unat (f_pos fp)"
  have "sint (currentByte fp) smod 512 = int (?p mod 512)"
    unfolding readable_currentByte [OF assms(1)]
    by (subst smod_nonneg) (simp, simp, metis zmod_int bpc_mod of_nat_numeral)
  then have "b (word_of_int (sint (currentByte fp) smod 512) + word_of_nat i) =
      file_byte s (startCluster fp) (?p + i)" if "i < n" for i
    using file_byte_block [of ?p i s "startCluster fp"] n that assms(3) by simp
  then show ?thesis
    by (intro nth_equalityI) (simp_all add: add.commute)
qed

lemma fread_at:
  assumes "cache_ok s" "readable s fp"
  shows "\<exists>fp' s'. tf_fread sz fp s =
      (let n = min (nat (sint sz)) (unat (f_size fp) - unat (f_pos fp))
       in ((int n, map (file_byte s (startCluster fp)) [unat (f_pos fp)..<unat (f_pos fp) + n]), fp', s')) \<and>
    cache_ok s' \<and> same_view s s' \<and> f_flags fp' = f_flags fp"
  using assms
proof (induction sz fp s rule: tf_fread.induct)
  case (1 sz fp s)
  let ?p = "unat (f_pos fp)" and ?N = "unat (f_size fp)" and ?st = "startCluster fp"
  let ?sec = "tf_first_sector (currentCluster fp) s + word_of_int (sint (currentByte fp) sdiv 512)"
  let ?x = "fread_chunk fp (sint sz)"
  show ?case
  proof (cases "0 < sint sz")
    case False
    then show ?thesis using 1 by (subst tf_fread.simps) simp
  next
    case True
    have pN: "?p < ?N" using 1(3) by (simp add: readable_def)
    have N32: "?N < 2 ^ 32" using unsigned_less [of "f_size fp", where ?'a = nat] by simp
    have "fp = at_pos s fp ?p" using 1(3) by (simp add: readable_def)
    then have "currentCluster fp = currentCluster (at_pos s fp ?p)" by (rule arg_cong)
    also have "\<dots> = hops (fat s) ?st (?p div bpc s)" by (simp add: at_pos_def)
    finally have h: "currentCluster fp = hops (fat s) ?st (?p div bpc s)" .
    have sec: "?sec = pos_sector s ?st ?p"
      unfolding readable_currentByte [OF 1(3)] pos_sector_def h
      by (subst sdiv_nonneg) (simp, simp, metis zdiv_int of_nat_numeral of_int_of_nat_eq)
    have lw: "low (pos_sector s ?st ?p)" using 1(3) pN by (simp add: readable_def)
    obtain rc s1 where f: "tf_fetch ?sec s = (rc, s1)" by force
    note v = tf_fetch_view [OF 1(2) lw f [unfolded sec]]
    let ?X = "unat ?x"
    have X: "?X = min (min (512 - ?p mod 512) (?N - ?p)) (nat (sint sz))" by (rule readable_chunk [OF 1(3) True])
    have X0: "0 < ?X" "?X \<le> 512 - ?p mod 512" "?X \<le> ?N - ?p" "?X \<le> nat (sint sz)"
      using X pN True by (auto simp: min_def)
    have by1: "map (\<lambda>i. buffer s1 (word_of_int (sint (currentByte fp) smod 512) + word_of_nat i)) [0..<?X] =
        map (file_byte s ?st) [?p..<?p + ?X]"
      by (rule chunk_bytes [OF 1(3) X0(2) v(5)])
    have ps: "uint (f_pos fp) + uint ?x = int (?p + ?X)" by simp
    have r1: "readable s1 fp" by (rule same_view_readable [OF v(3) 1(3)])
    show ?thesis
    proof (cases "?p + ?X < ?N")
      case False
      then have "?N \<le> ?p + ?X" "?p + ?X < 2 ^ 62" using X0(3) N32 pN by (simp, linarith?)+
      then have "tf_fseek fp 0 (uint (f_pos fp) + uint ?x) s1 = (TF_ERR_INVALID_SEEK, fp, s1)"
        unfolding ps by (rule tf_fseek_outside)
      moreover have "min (nat (sint sz)) (?N - ?p) = ?X" using False X0 by simp
      ultimately show ?thesis
        using True f by1 v(2,3)
        by (subst tf_fread.simps) (simp add: Let_def TF_ERR_INVALID_SEEK_def)
    next
      case inside: True
      let ?fp = "at_pos s1 fp (?p + ?X)"
      obtain s2 where k: "tf_fseek fp 0 (uint (f_pos fp) + uint ?x) s1 = (0, ?fp, s2)" "cache_ok s2" "same_view s1 s2"
        using tf_fseek_inside [OF v(2) r1 inside] unfolding ps by blast
      have r2: "readable s2 ?fp"
        using readable_at_pos [OF r1 inside] same_view_readable [OF k(3)] by blast
      have sv: "same_view s s2" using v(3) k(3) same_view_trans by blast
      have p2: "unat (f_pos ?fp) = ?p + ?X" "f_size ?fp = f_size fp" "startCluster ?fp = ?st"
        using at_pos_sel(1) [OF order_less_trans [OF inside N32]] at_pos_sel(2,3) by blast+
      have uX: "uint ?x = int ?X" by simp
      have sz2: "sint (sz - ucast ?x) = sint sz - int ?X"
        using sint_minus_ucast [OF True, of ?x] X0(4) True uX by linarith
      let ?m = "min (nat (sint sz - int ?X)) (?N - (?p + ?X))"
      obtain fp' s' where r: "tf_fread (sz - ucast ?x) ?fp s2 =
          ((int ?m, map (file_byte s2 ?st) [?p + ?X..<?p + ?X + ?m]), fp', s')" "cache_ok s'" "same_view s2 s'"
          "f_flags fp' = f_flags ?fp"
        using 1(1) [OF True refl refl f [symmetric] refl refl refl k(1) [symmetric] refl] k(2) r2 p2 sz2
        by (auto simp: Let_def)
      have b2: "map (file_byte s2 ?st) [?p + ?X..<?p + ?X + ?m] = map (file_byte s ?st) [?p + ?X..<?p + ?X + ?m]"
        by (rule map_cong [OF refl], rule same_view_file_byte [OF sv, of fp]) (use 1(3) in \<open>auto simp: readable_def\<close>)
      have "min (nat (sint sz)) (?N - ?p) = ?X + ?m" 
        by (rule min_chunk [OF X0(4)]) (use inside in simp)
      then show ?thesis
        using True f k(1) by1 r [unfolded b2] same_view_trans [OF sv r(3)] upt_map_append [of "file_byte s ?st" ?p ?X ?m]
        by (subst tf_fread.simps) (simp add: Let_def add.assoc at_pos_def)
    qed
  qed
qed

text \<open>tf_fread returns exactly the bytes of the file from the position of the handle, as many as asked
  for and present, whatever sectors and clusters they lie in, and changes nothing that can be
  read.
\<close>

theorem tf_fread_spec:
  assumes "cache_ok s" "readable s fp"
  shows "\<exists>fp' s'. tf_fread sz fp s =
      (let n = min (nat (sint sz)) (unat (f_size fp) - unat (f_pos fp))
       in ((int n, map (file_byte s (startCluster fp)) [unat (f_pos fp)..<unat (f_pos fp) + n]), fp', s')) \<and>
    cache_ok s' \<and> same_view s s'"
  using fread_at [OF assms, of sz] by blast

section \<open>Reading an open file at an offset\<close>

text \<open>
  \<open>Fat32FileSystem::read\<close> between \<open>tf_fopen\<close> and \<open>tf_fclose\<close>; the result of the seek is not
  looked at.
\<close>

definition read_opened :: "int \<Rightarrow> 32 word \<Rightarrow> TFFile \<Rightarrow> tfinfo \<Rightarrow> (int \<times> u8 list) \<times> TFFile \<times> tfinfo" where
  "read_opened offset n fp s = (let (_, fp, s) = tf_fseek fp 0 offset s in tf_fread n fp s)"

lemma read_opened_at:
  assumes "cache_ok s" "readable s fp" "f_pos fp = 0" "p < 2 ^ 31"
  shows "\<exists>fp' s'. read_opened (int p) n fp s =
      (let q = (if p < unat (f_size fp) then p else 0); k = min (nat (sint n)) (unat (f_size fp) - q)
       in ((int k, map (file_byte s (startCluster fp)) [q..<q + k]), fp', s')) \<and>
    cache_ok s' \<and> same_view s s' \<and> f_flags fp' = f_flags fp"
proof (cases "p < unat (f_size fp)")
  case True
  obtain s1 where 1: "tf_fseek fp 0 (int p) s = (0, at_pos s fp p, s1)" "cache_ok s1" "same_view s s1"
    using tf_fseek_inside [OF assms(1,2) True] by blast
  have r: "readable s1 (at_pos s fp p)"
    using readable_at_pos [OF assms(2) True] same_view_readable [OF 1(3)] by blast
  have p32: "p < 2 ^ 32" using assms(4) by simp
  let ?k = "min (nat (sint n)) (unat (f_size fp) - p)"
  obtain fp' s2 where 2: "tf_fread n (at_pos s fp p) s1 =
      ((int ?k, map (file_byte s1 (startCluster fp)) [p..<p + ?k]), fp', s2)" "cache_ok s2" "same_view s1 s2"
      "f_flags fp' = f_flags fp"
    using fread_at [OF 1(2) r, of n] at_pos_sel(1) [OF p32, of s fp] at_pos_sel(2,3) [of s fp p]
    by (auto simp: Let_def) (auto simp: at_pos_def)
  have "map (file_byte s1 (startCluster fp)) [p..<p + ?k] = map (file_byte s (startCluster fp)) [p..<p + ?k]"
    by (rule map_cong [OF refl], rule same_view_file_byte [OF 1(3), of fp])
       (use assms(2) in \<open>auto simp: readable_def\<close>)
  with 1 2 True same_view_trans [OF 1(3) 2(3)] show ?thesis by (simp add: read_opened_def Let_def)
next
  case False
  then have "tf_fseek fp 0 (int p) s = (TF_ERR_INVALID_SEEK, fp, s)"
    using assms(4) by (intro tf_fseek_outside) simp_all
  with fread_at [OF assms(1,2), of n] False assms(3) show ?thesis
    by (simp add: read_opened_def)
qed

section \<open>File handles\<close>

definition TF_FILE_HANDLES :: nat where "TF_FILE_HANDLES = 5"

definition is_open :: "TFFile \<Rightarrow> bool" where "is_open fp \<longleftrightarrow> f_flags fp AND TF_FLAG_OPEN \<noteq> 0"

text \<open>The index of the handle, if one is free, and the table.\<close>

fun get_free_from :: "nat \<Rightarrow> nat \<Rightarrow> TFFile list \<Rightarrow> nat option \<times> TFFile list" where
  "get_free_from 0 i hs = (None, hs)"
| "get_free_from (Suc k) i hs =
     (if f_flags (hs ! i) AND TF_FLAG_OPEN \<noteq> 0 then get_free_from k (Suc i) hs
      else (Some i, hs[i := (hs ! i)\<lparr>f_flags := TF_FLAG_OPEN\<rparr>]))"

definition tf_get_free_handle :: "TFFile list \<Rightarrow> nat option \<times> TFFile list" where
  "tf_get_free_handle hs = get_free_from TF_FILE_HANDLES 0 hs"

definition tf_release_handle :: "nat \<Rightarrow> TFFile list \<Rightarrow> TFFile list" where
  "tf_release_handle i hs = hs[i := (hs ! i)\<lparr>f_flags := f_flags (hs ! i) AND NOT TF_FLAG_OPEN\<rparr>]"

text \<open>
  The bound of the loop of \<open>tf_get_open_handles\<close> is the macro \<open>min(TF_FILE_HANDLES, 64)\<close>, whose
  expansion has no parentheses: \<open>i < (5 < 64) ? 5 : 64\<close>. \<open>flags\<close> gives the \<open>flags\<close> byte at each
  index, the memory behind the table included.
\<close>

definition open_handles_cond :: "nat \<Rightarrow> int" where
  "open_handles_cond i =
     (if i < (if TF_FILE_HANDLES < 64 then 1 else 0) then int TF_FILE_HANDLES else 64)"

partial_function (option) open_handles_from :: "nat \<Rightarrow> (nat \<Rightarrow> u8) \<Rightarrow> u64 \<Rightarrow> u64 option" where
  "open_handles_from i flags retval =
     (if open_handles_cond i \<noteq> 0 then
        (let retval = push_bit 1 retval
         in open_handles_from (Suc i) flags
              (if flags i AND TF_FLAG_OPEN \<noteq> 0 then retval OR 1 else retval))
      else Some retval)"

definition tf_get_open_handles :: "(nat \<Rightarrow> u8) \<Rightarrow> u64 option" where
  "tf_get_open_handles flags = open_handles_from 0 flags 0"

lemma get_free_from_spec:
  "i + k \<le> length hs \<Longrightarrow> get_free_from k i hs =
    (case find (\<lambda>j. \<not> is_open (hs ! j)) [i..<i + k] of
       None \<Rightarrow> (None, hs) | Some j \<Rightarrow> (Some j, hs[j := (hs ! j)\<lparr>f_flags := TF_FLAG_OPEN\<rparr>]))"
proof (induction k arbitrary: i)
  case (Suc k)
  then have "[i..<i + Suc k] = i # [Suc i..<Suc i + k]" by (simp add: upt_conv_Cons)
  with Suc show ?case by (auto simp: is_open_def)
qed simp

lemma open_flag: "is_open (fp\<lparr>f_flags := TF_FLAG_OPEN\<rparr>)"
  "\<not> is_open (fp\<lparr>f_flags := x AND NOT TF_FLAG_OPEN\<rparr>)"
  "\<not> is_open (fp\<lparr>f_flags := 0\<rparr>)"
  by (simp_all add: is_open_def TF_FLAG_OPEN_def and.assoc)

text \<open>handles\<close>

theorem tf_get_free_handle_spec:
  assumes "length hs = TF_FILE_HANDLES"
  shows "case tf_get_free_handle hs of
    (None, hs') \<Rightarrow> hs' = hs \<and> (\<forall>fp \<in> set hs. is_open fp)
  | (Some i, hs') \<Rightarrow> i < TF_FILE_HANDLES \<and> \<not> is_open (hs ! i) \<and> (\<forall>j < i. is_open (hs ! j)) \<and>
      is_open (hs' ! i) \<and> (\<forall>j. j \<noteq> i \<longrightarrow> hs' ! j = hs ! j) \<and> length hs' = length hs \<and>
      map is_open (tf_release_handle i hs') = map is_open hs"
proof -
  let ?P = "\<lambda>j. \<not> is_open (hs ! j)"
  have g: "tf_get_free_handle hs = (case find ?P [0..<TF_FILE_HANDLES] of
      None \<Rightarrow> (None, hs) | Some j \<Rightarrow> (Some j, hs[j := (hs ! j)\<lparr>f_flags := TF_FLAG_OPEN\<rparr>]))"
    using get_free_from_spec [of 0 TF_FILE_HANDLES hs] assms by (simp add: tf_get_free_handle_def)
  show ?thesis
  proof (cases "find ?P [0..<TF_FILE_HANDLES]")
    case None
    then have "\<forall>j < length hs. is_open (hs ! j)" using assms by (auto simp: find_None_iff)
    then have "\<forall>fp \<in> set hs. is_open fp" by (auto simp: in_set_conv_nth)
    with g None show ?thesis by simp
  next
    case (Some i)
    then have i: "i < TF_FILE_HANDLES" "\<not> is_open (hs ! i)" "\<forall>j < i. is_open (hs ! j)"
      by (auto simp: find_Some_iff)
    have "map is_open (tf_release_handle i (hs[i := (hs ! i)\<lparr>f_flags := TF_FLAG_OPEN\<rparr>])) = map is_open hs"
      using i assms open_flag
      by (intro nth_equalityI) (auto simp: tf_release_handle_def nth_list_update)
    with g Some i assms open_flag show ?thesis by simp
  qed
qed

lemma open_handles_cond_true: "open_handles_cond i \<noteq> 0"
  by (simp add: open_handles_cond_def TF_FILE_HANDLES_def)

lemma open_handles_from_never: "open_handles_from i flags retval \<noteq> Some y"
proof
  assume "open_handles_from i flags retval = Some y"
  then show False
    by (rule open_handles_from.raw_induct [where P = "\<lambda>_ _ _ _. False", rotated])
       (use open_handles_cond_true in \<open>auto simp: Let_def split: if_splits\<close>)
qed

text \<open>counting the open handles never ends\<close>

theorem tf_get_open_handles_hangs: "tf_get_open_handles flags = None"
  using open_handles_from_never unfolding tf_get_open_handles_def by (metis not_None_eq)

section \<open>A small volume\<close>

text \<open>
  One sector per cluster, the table in sector 1, a file in clusters 3, 4, 5 and 6 and its handle.
\<close>

definition small_table :: mem where
  "small_table = st32 (st32 (st32 (st32 (\<lambda>_. 0) 12 4) 16 5) 20 6) 24 0x0fffffff"

definition small_fs :: tfinfo where
  "small_fs = \<lparr>disk = (\<lambda>sec. if sec = 1 then small_table else (\<lambda>a. ucast sec)), stops = (\<lambda>_. False), halted = False, ftype = 1,
     sectorsPerCluster = 1, firstDataSector = 40, totalSectors = 64, reservedSectors = 1,
     currentSector = 1, sectorFlags = 0, rootDirectorySize = 0xffffffff, buffer = small_table\<rparr>"

definition small_file :: TFFile where
  "small_file = \<lparr>parentStartCluster = 2, startCluster = 3, currentClusterIdx = 0, currentCluster = 3,
     f_currentSector = 0, currentByte = 0, f_pos = 0, f_flags = 2, f_attributes = 0, f_mode = 1,
     f_size = 600, f_filename = []\<rparr>"

lemma small_cache: "cache_ok small_fs"
  by (simp add: cache_ok_def small_fs_def low_def)

lemma small_view: "view small_fs 1 = small_table"
  by (simp add: view_def small_fs_def)

lemma small_fat: "fat small_fs 3 = 4" "fat small_fs 4 = 5" "fat small_fs 5 = 6" "fat small_fs 6 = 0x0fffffff"
proof -
  have "fat_sector small_fs c = 1" if "c \<in> {3, 4, 5, 6}" for c
    using that by (auto simp: fat_sector_def small_fs_def)
  then show "fat small_fs 3 = 4" "fat small_fs 4 = 5" "fat small_fs 5 = 6" "fat small_fs 6 = 0x0fffffff"
    by (simp_all add: fat_def small_view small_table_def fat_slot_def ld32_st32_other)
qed

lemma small_bpc: "bpc small_fs = 512"
  by (simp add: bpc_def small_fs_def)

lemma small_reaches: "q < 1024 \<Longrightarrow> reaches small_fs small_file q"
proof -
  assume "q < 1024"
  then have "q div 512 < 2" by (simp add: less_mult_imp_div_less)
  then have "q div 512 = 0 \<or> q div 512 = 1" by linarith
  then show ?thesis
    by (auto simp: reaches_def small_bpc links_def small_file_def TF_MARK_EOC32_def le_Suc_eq small_fat)
qed

lemma small_handle: "handle_ok small_fs small_file"
  by (simp add: handle_ok_def links_def small_file_def TF_MARK_EOC32_def) (simp add: small_fs_def)

lemma small_readable: "readable small_fs small_file"
proof -
  have a: "small_file = at_pos small_fs small_file (unat (f_pos small_file))"
    by (simp add: at_pos_def small_bpc) (simp add: small_file_def)
  have "low (pos_sector small_fs (startCluster small_file) q)" if "q < 600" for q
  proof -
    have "q div 512 < 2" using that by (simp add: less_mult_imp_div_less)
    then have "q div 512 = 0 \<or> q div 512 = 1" by linarith
    then show ?thesis
      by (auto simp: pos_sector_def small_bpc low_def tf_first_sector_def small_file_def small_fat)
         (simp_all add: small_fs_def)
  qed
  with a small_reaches show ?thesis
    unfolding readable_def
    by (auto simp: small_fs_def small_file_def)
qed

theorem tf_find_free_cluster_from_spec_witness:
  "\<exists>i s'. tf_find_free_cluster_from 3 small_fs = (i, s') \<and> cache_ok s' \<and> same_view small_fs s'"
  using tf_find_free_cluster_from_spec [OF small_cache, of 3]
  by (fastforce simp: totalClusters_def small_fs_def)

text \<open>Of the four clusters 3, 4, 5, 6 the second and the fourth stay allocated.\<close>

theorem tf_free_clusterchain_spec_witness:
  "\<exists>s'. tf_free_clusterchain 3 small_fs = Some (0, s') \<and> fat s' 3 = 0 \<and> fat s' 4 = 5 \<and>
     fat s' 5 = 0 \<and> fat s' 6 = 0x0fffffff"
proof -
  have k: "cluster_ok 3" "cluster_ok 4" "cluster_ok 5" "cluster_ok 6" by (simp_all add: cluster_ok_def)
  from tf_free_clusterchain_spec [OF small_cache k(1)] obtain s' where
    "tf_free_clusterchain 3 small_fs = Some (0, s')"
    "\<forall>d. cluster_ok d \<longrightarrow> fat s' d = chain_freed (fat small_fs) 3 d" by blast
  with k show ?thesis
    by (simp add: chain_freed_def in_chain_def small_fat TF_MARK_EOC32_def)
qed

theorem tf_unsafe_fseek_spec_witness:
  "\<exists>s'. tf_unsafe_fseek small_file 0 520 small_fs = (0, at_pos small_fs small_file 520, s')"
  using tf_unsafe_fseek_spec [OF small_cache small_handle, of 520 0 520] small_reaches [of 520]
  by (auto simp: small_file_def)

theorem tf_fread_spec_witness:
  "\<exists>bs fp' s'. tf_fread 1000 small_file small_fs = ((600, bs), fp', s') \<and> length bs = 600"
  using tf_fread_spec [OF small_cache small_readable, of 1000]
  by (auto simp: small_file_def Let_def)

theorem tf_get_free_handle_spec_witness:
  "case tf_get_free_handle (replicate 5 small_file) of
     (None, hs) \<Rightarrow> hs = replicate 5 small_file | (Some i, hs) \<Rightarrow> i < 5"
  using tf_get_free_handle_spec [of "replicate 5 small_file"]
  by (auto simp: TF_FILE_HANDLES_def split: prod.splits option.splits)

end
