(* ===== verification/Lfn.thy ===== *)
theory Lfn
  imports KString
begin

text \<open>
  Long file names in \<open>fs/fat32.cpp\<close>: how \<open>tf_create_lfn_entry\<close> and \<open>tf_place_lfn_chain\<close> cut a
  name into directory entries of 13 wide characters, last part first, and how \<open>copylfn\<close> and
  \<open>copysfn\<close> put names together again for a listing; the short-name checksum; the comparison
  of one entry with a path component.
\<close>

section \<open>Entries\<close>

text \<open>\<open>FatFileLFN\<close>; the three name fields have 5, 6 and 2 cells.\<close>

record lfn =
  sequence_number :: u8
  name1 :: "u16 list"
  l_attributes :: u8
  l_reserved :: u8
  checksum :: u8
  name2 :: "u16 list"
  l_firstCluster :: u16
  name3 :: "u16 list"

definition LFN_ATTR_LONG_NAME :: u8 where "LFN_ATTR_LONG_NAME = 0x0F"

text \<open>
  One of the loops over a name field: the cells, the pointer and \<open>done\<close>. The pointer moves and
  is read past the NUL.
\<close>

fun lfn_cells :: "nat \<Rightarrow> mem \<Rightarrow> u64 \<Rightarrow> bool \<Rightarrow> u16 list \<times> u64 \<times> bool" where
  "lfn_cells 0 m filename dn = ([], filename, dn)"
| "lfn_cells (Suc n) m filename dn =
     (let cell = (if \<not> dn then ucast (m filename) else 0xffff);
          dn = (m filename = 0 \<or> dn);
          (cells, q, dn) = lfn_cells n m (filename + 1) dn
      in (cell # cells, q, dn))"

definition tf_create_lfn_entry :: "mem \<Rightarrow> u64 \<Rightarrow> lfn \<Rightarrow> u64 \<times> lfn" where
  "tf_create_lfn_entry m filename entry =
     (let (n1, filename, dn) = lfn_cells 5 m filename False;
          (n2, filename, dn) = lfn_cells 6 m filename dn;
          (n3, filename, dn) = lfn_cells 2 m filename dn;
          entry = entry\<lparr>name1 := n1, name2 := n2, name3 := n3, l_attributes := LFN_ATTR_LONG_NAME,
                        l_reserved := 0, l_firstCluster := 0\<rparr>
      in (if dn then 0 else if m filename \<noteq> 0 then filename else 0, entry))"

fun checksum_loop :: "nat \<Rightarrow> mem \<Rightarrow> u64 \<Rightarrow> u8 \<Rightarrow> u8" where
  "checksum_loop 0 m p acc = acc"
| "checksum_loop (Suc i) m p acc =
     checksum_loop i m (p + 1) (push_bit 7 (acc AND 1) + drop_bit 1 acc + m p)"

definition tf_lfn_checksum :: "mem \<Rightarrow> u64 \<Rightarrow> u8" where
  "tf_lfn_checksum m pFcbName = checksum_loop 11 m pFcbName 0"

text \<open>
  The counting loop of \<open>tf_place_lfn_chain\<close> (\<open>None\<close>: it never ends), then the entries in the
  order in which they are handed to \<open>tf_fwrite\<close>.
\<close>

partial_function (option) lfn_count :: "mem \<Rightarrow> u64 \<Rightarrow> lfn \<Rightarrow> nat \<Rightarrow> u64 \<Rightarrow> (nat \<times> u64 \<times> lfn) option" where
  "lfn_count m strptr entry entries last_strptr =
     (let (strptr, entry) = tf_create_lfn_entry m strptr entry in
      if strptr \<noteq> 0 then lfn_count m strptr entry (entries + 1) strptr
      else Some (entries, last_strptr, entry))"

fun lfn_place :: "nat \<Rightarrow> mem \<Rightarrow> u64 \<Rightarrow> u8 \<Rightarrow> u64 \<Rightarrow> lfn \<Rightarrow> lfn list" where
  "lfn_place 0 m last_strptr seq sfn entry = []"
| "lfn_place (Suc i) m last_strptr seq sfn entry =
     (let (_, entry) = tf_create_lfn_entry m last_strptr entry;
          entry = entry\<lparr>sequence_number := seq, checksum := tf_lfn_checksum m sfn\<rparr>
      in entry # lfn_place i m (last_strptr - 13) ((seq AND NOT 0x40) - 1) sfn entry)"

definition tf_place_lfn_chain :: "mem \<Rightarrow> u64 \<Rightarrow> u64 \<Rightarrow> lfn \<Rightarrow> lfn list option" where
  "tf_place_lfn_chain m filename sfn entry =
     map_option (\<lambda>(entries, last_strptr, entry).
         lfn_place entries m last_strptr (word_of_nat entries OR 0x40) sfn entry)
       (lfn_count m filename entry 1 filename)"

section \<open>Listing names\<close>

text \<open>\<open>either_copyout\<close> to a kernel address.\<close>

fun poke :: "mem \<Rightarrow> u64 \<Rightarrow> u8 list \<Rightarrow> mem" where
  "poke m d [] = m"
| "poke m d (b # bs) = poke (m(d := b)) (d + 1) bs"

definition name_part :: "u16 list \<Rightarrow> u8 list" where
  "name_part cells = map ucast (takeWhile (\<lambda>c. c \<noteq> 0xffff) cells)"

definition copylfn :: "lfn \<Rightarrow> u64 \<Rightarrow> mem \<Rightarrow> int \<times> mem" where
  "copylfn entry dst m =
     (let sno = uint (sequence_number entry AND NOT 0x40);
          offset = word_of_int (13 * (sno - 1));
          tmp = name_part (name1 entry);
          m = poke m (dst + offset) tmp;
          n = length tmp;
          tmp = name_part (name2 entry);
          m = poke m (dst + word_of_nat n + offset) tmp;
          n = n + length tmp;
          tmp = name_part (name3 entry);
          m = poke m (dst + word_of_nat n + offset) tmp;
          n = n + length tmp
      in (int n, m))"

text \<open>\<open>sfn\<close> is the 11 bytes of the short name.\<close>

definition copysfn :: "u8 list \<Rightarrow> u64 \<Rightarrow> mem \<Rightarrow> int \<times> mem" where
  "copysfn sfn dst m =
     (let base = takeWhile (\<lambda>c. c \<noteq> 0x20) (take 8 sfn);
          n = length base;
          m = poke m dst base;
          ext = takeWhile (\<lambda>c. c \<noteq> 0x20) (take 3 (drop 8 sfn))
      in if ext = [] then (int n, m)
         else let m = poke m (dst + word_of_nat n) [0x2E];
                  n = n + 1;
                  m = poke m (dst + word_of_nat n) ext
              in (int (n + length ext), m))"

section \<open>Writing bytes\<close>

lemma poke_append: "poke m d (xs @ ys) = poke (poke m d xs) (d + word_of_nat (length xs)) ys"
  by (induction xs arbitrary: m d) (simp_all add: add_ac)

lemma poke_apply:
  "length bs \<le> 2 ^ 64 - 1 \<Longrightarrow> poke m d bs x = (if unat (x - d) < length bs then bs ! unat (x - d) else m x)"
proof (induction bs arbitrary: m d)
  case (Cons b bs)
  show ?case
  proof (cases "x = d")
    case True
    have "\<not> unat (d - (d + 1)) < length bs" using Cons.prems by (simp only: unat_diff_self_pred) simp
    with True Cons show ?thesis by simp
  next
    case False
    with Cons show ?thesis by (simp add: unat_diff_Suc [OF False])
  qed
qed simp

section \<open>The cells of one entry\<close>

definition all_cells :: "lfn \<Rightarrow> u16 list" where
  "all_cells e = name1 e @ name2 e @ name3 e"

lemma lfn_cells_length: "length (fst (lfn_cells n m p d)) = n"
  by (induction n arbitrary: p d) (auto simp: Let_def case_prod_beta)

lemma cstr_drop: "cstr m p xs \<Longrightarrow> k \<le> length xs \<Longrightarrow> cstr m (p + word_of_nat k) (drop k xs)"
proof (induction k arbitrary: p xs)
  case (Suc k)
  then obtain y ys where "xs = y # ys" "k \<le> length ys" "cstr m (p + 1) ys" by (cases xs) auto
  with Suc.IH [of "p + 1" ys] show ?case by (simp add: add.assoc)
qed simp

lemma lfn_cells_add:
  "lfn_cells (a + b) m p d =
     (let (xs, q, d) = lfn_cells a m p d; (ys, q, d) = lfn_cells b m q d in (xs @ ys, q, d))"
  by (induction a arbitrary: p d) (auto simp: Let_def split: prod.splits)

lemma lfn_cells_done: "lfn_cells n m p True = (replicate n 0xffff, p + word_of_nat n, True)"
  by (induction n arbitrary: p) (auto simp: Let_def add_ac)

text \<open>The cells of a NUL-terminated name.\<close>

definition name_cells :: "u8 list \<Rightarrow> u16 list" where "name_cells xs = map ucast xs @ [0]"

lemma lfn_cells_cstr:
  "cstr m p xs \<Longrightarrow> lfn_cells n m p False =
    (take n (name_cells xs) @ replicate (n - length (name_cells xs)) 0xffff, p + word_of_nat n, length xs < n)"
proof (induction n arbitrary: p xs)
  case (Suc n)
  show ?case
  proof (cases xs)
    case Nil
    with Suc show ?thesis by (simp add: lfn_cells_done name_cells_def add_ac)
  next
    case (Cons y ys)
    with Suc have "lfn_cells n m (p + 1) False =
      (take n (name_cells ys) @ replicate (n - length (name_cells ys)) 0xffff, p + 1 + word_of_nat n, length ys < n)"
      by simp
    with Suc Cons show ?thesis by (simp add: name_cells_def add_ac)
  qed
qed simp

lemma tf_create_lfn_entry_cstr:
  assumes "cstr m p xs"
  shows "\<exists>e'. tf_create_lfn_entry m p e = (if length xs \<le> 13 then 0 else p + 13, e') \<and>
    all_cells e' = take 13 (name_cells xs) @ replicate (13 - length (name_cells xs)) 0xffff \<and>
    length (name1 e') = 5 \<and> length (name2 e') = 6 \<and> length (name3 e') = 2"
proof -
  obtain n1 q1 d1 where 1: "lfn_cells 5 m p False = (n1, q1, d1)" by (metis prod_cases3)
  obtain n2 q2 d2 where 2: "lfn_cells 6 m q1 d1 = (n2, q2, d2)" by (metis prod_cases3)
  obtain n3 q3 d3 where 3: "lfn_cells 2 m q2 d2 = (n3, q3, d3)" by (metis prod_cases3)
  have l: "length n1 = 5" "length n2 = 6" "length n3 = 2"
    using lfn_cells_length 1 2 3 by (metis fst_conv)+
  have "lfn_cells (5 + (6 + 2)) m p False = (n1 @ n2 @ n3, q3, d3)"
    by (simp only: lfn_cells_add 1 2 3 Let_def prod.case)
  with lfn_cells_cstr [OF assms, of 13]
  have c: "n1 @ n2 @ n3 = take 13 (name_cells xs) @ replicate (13 - length (name_cells xs)) 0xffff"
    "q3 = p + 13" "d3 = (length xs < 13)" by simp_all
  have q: "length xs = 13 \<Longrightarrow> m (p + 13) = 0" and q': "13 < length xs \<Longrightarrow> m (p + 13) \<noteq> 0"
    using cstr_drop [OF assms, of 13] by (auto, cases "drop 13 xs") auto
  show ?thesis
    using c l q q' by (auto simp: tf_create_lfn_entry_def 1 2 3 Let_def all_cells_def not_less)
qed

section \<open>Cutting a name and joining it again\<close>

lemma ucast_cells:
  "(ucast (b :: u8) :: u16) \<noteq> 0xffff" "(ucast (ucast b :: u16) :: u8) = b"
proof -
  have "unat (ucast b :: u16) < 256"
    using unsigned_less [of b, where ?'a = nat] by (simp add: unsigned_ucast_eq take_bit_nat_eq_self)
  then show "(ucast b :: u16) \<noteq> 0xffff" by (auto dest: arg_cong [of _ _ unat])
  show "(ucast (ucast b :: u16) :: u8) = b" by (rule bit_word_eqI) (simp add: bit_simps)
qed

lemma name_cells_clean: "c \<in> set (name_cells xs) \<Longrightarrow> c \<noteq> 0xffff"
  using ucast_cells(1) by (auto simp: name_cells_def)

lemma name_part_clean:
  assumes "\<forall>c \<in> set cs. c \<noteq> 0xffff"
  shows "name_part (cs @ replicate j 0xffff) = map ucast cs"
proof -
  have "takeWhile (\<lambda>c. c \<noteq> 0xffff) (replicate j (0xffff :: u16)) = []" by (cases j) auto
  then show ?thesis using assms by (simp add: name_part_def takeWhile_append2)
qed

lemma takeWhile_take: "takeWhile P (take n xs) = take n (takeWhile P xs)"
proof (induction xs arbitrary: n)
  case (Cons x xs)
  then show ?case by (cases n) auto
qed simp

lemma name_part_take: "name_part (take n cs) = take n (name_part cs)"
  by (simp add: name_part_def take_map takeWhile_take)

text \<open>A run of cells followed by padding, cut in three, is copied as one run.\<close>

lemma name_part_drop:
  assumes "\<forall>c \<in> set cs. c \<noteq> 0xffff"
  shows "name_part (drop n (cs @ replicate j 0xffff)) = drop n (map ucast cs)"
  using name_part_clean [of "drop n cs" "j - (n - length cs)"] assms
  by (auto simp: drop_map dest: in_set_dropD)

lemma copylfn_cells:
  assumes cells: "all_cells e = cs @ replicate j 0xffff" and clean: "\<forall>c \<in> set cs. c \<noteq> 0xffff"
    and len: "length (name1 e) = 5" "length (name2 e) = 6" "length (name3 e) = 2"
  shows "copylfn e d m = (int (length cs),
    poke m (d + word_of_int (13 * (uint (sequence_number e AND NOT 0x40) - 1))) (map ucast cs))"
proof -
  let ?b = "map ucast cs :: u8 list" and ?all = "cs @ replicate j 0xffff"
  let ?o = "word_of_int (13 * (uint (sequence_number e AND NOT 0x40) - 1)) :: u64"
  have n1: "name1 e = take 5 (drop 0 ?all)" and n2: "name2 e = take 6 (drop 5 ?all)"
    and n3: "name3 e = take 2 (drop 11 ?all)"
    using cells [symmetric] len by (simp_all add: all_cells_def)
  have p1: "name_part (name1 e) = take 5 ?b" unfolding n1 name_part_take by (simp add: name_part_clean [OF clean])
  have p2: "name_part (name2 e) = take 6 (drop 5 ?b)" unfolding n2 name_part_take name_part_drop [OF clean] ..
  have p3: "name_part (name3 e) = take 2 (drop 11 ?b)" unfolding n3 name_part_take name_part_drop [OF clean] ..
  have "length ?all = 13" using cells [symmetric] len by (simp add: all_cells_def)
  then have l13: "length ?b \<le> 13" by simp
  have b: "take 5 ?b @ take 6 (drop 5 ?b) @ take 2 (drop 11 ?b) = ?b"
  proof -
    have "take 2 (drop 11 ?b) = drop 11 ?b" using l13 by simp
    moreover have "take 6 (drop 5 ?b) @ drop 11 ?b = drop 5 ?b"
      using append_take_drop_id [of 6 "drop 5 ?b"] by (simp add: drop_drop)
    ultimately show ?thesis by (simp only: append_take_drop_id)
  qed
  have w: "poke m (d + ?o) ?b = poke (poke (poke m (d + ?o) (take 5 ?b)) (d + word_of_nat (length (take 5 ?b)) + ?o) (take 6 (drop 5 ?b)))
      (d + word_of_nat (length (take 5 ?b) + length (take 6 (drop 5 ?b))) + ?o) (take 2 (drop 11 ?b))"
    by (subst b [symmetric], simp only: poke_append of_nat_add) (simp only: ac_simps)
  have n: "length (take 5 ?b) + length (take 6 (drop 5 ?b)) + length (take 2 (drop 11 ?b)) = length cs"
    using arg_cong [OF b, of length] by (simp only: length_append length_map add.assoc)
  show ?thesis
    unfolding copylfn_def Let_def p1 p2 p3 n [symmetric] w by simp
qed

subsection \<open>Sequence numbers\<close>

lemma seq_bits:
  fixes x :: u8
  assumes "unat x < 64"
  shows "(x OR 0x40) AND NOT 0x40 = x" "x AND NOT 0x40 = x"
proof -
  have b: "\<not> bit x 6"
  proof
    assume "bit x 6"
    then have "bit (unat x) 6" by (simp add: bit_unsigned_iff)
    then have "odd (unat x div 64)" by (simp add: bit_iff_odd)
    with assms show False by simp
  qed
  have e: "(0x40 :: u8) = 2 ^ 6" by simp
  have f: "bit (0x40 :: u8) n \<longleftrightarrow> n = 6" for n
    unfolding e bit_exp_iff by (auto simp: possible_bit_def)
  show "(x OR 0x40) AND NOT 0x40 = x"
    by (rule bit_word_eqI) (use b in \<open>auto simp only: bit_and_iff bit_or_iff bit_not_iff f possible_bit_word split: if_splits\<close>)
  show "x AND NOT 0x40 = x"
    by (rule bit_word_eqI) (use b in \<open>auto simp only: bit_and_iff bit_not_iff f possible_bit_word split: if_splits\<close>)
qed

lemma seq_last: "unat (word_of_nat n :: u8) = n" if "n < 64" for n
  using that by (simp add: unat_of_nat)

subsection \<open>The chain\<close>

definition segs :: "u8 list \<Rightarrow> nat" where "segs xs = (length xs - 1) div 13"

lemma lfn_count_cstr:
  assumes "cstr m p xs" "unat p + length xs < 2 ^ 64"
  shows "\<exists>e'. lfn_count m p e n p = Some (n + segs xs, p + word_of_nat (13 * segs xs), e')"
  using assms
proof (induction "length xs" arbitrary: p xs e n rule: less_induct)
  case less
  obtain e' where e': "tf_create_lfn_entry m p e = (if length xs \<le> 13 then 0 else p + 13, e')"
    using tf_create_lfn_entry_cstr [OF less.prems(1)] by blast
  show ?case
  proof (cases "length xs \<le> 13")
    case True
    then have "segs xs = 0" by (simp add: segs_def)
    with True e' show ?thesis by (subst lfn_count.simps) simp
  next
    case False
    have u: "unat (p + 13) = unat p + 13" using unat_add_off [of p 13] less.prems(2) False by simp
    then have nz: "p + 13 \<noteq> 0" by (metis add_is_0 unat_eq_0 zero_neq_numeral)
    have c: "cstr m (p + 13) (drop 13 xs)" using cstr_drop [OF less.prems(1), of 13] False by simp
    have l: "length (drop 13 xs) < length xs" using False by (cases xs) auto
    have "unat (p + 13) + length (drop 13 xs) < 2 ^ 64" using u False less.prems(2) by simp
    from less.hyps [OF l c this, of e' "n + 1"]
    obtain e2 where r: "lfn_count m (p + 13) e' (n + 1) (p + 13) =
        Some (n + 1 + segs (drop 13 xs), p + 13 + word_of_nat (13 * segs (drop 13 xs)), e2)"
      by blast
    obtain k where k: "length xs = 14 + k" using False nat_le_iff_add [of 14 "length xs"] by auto
    have s: "segs xs = Suc (segs (drop 13 xs))" unfolding segs_def length_drop k by simp
    have "p + 13 + word_of_nat (13 * segs (drop 13 xs)) = p + word_of_nat (13 * segs xs)" unfolding s by simp
    moreover have "n + 1 + segs (drop 13 xs) = n + segs xs" unfolding s by simp
    moreover have "lfn_count m p e n p = lfn_count m (p + 13) e' (n + 1) (p + 13)"
      using e' False nz by (subst lfn_count.simps) simp
    ultimately show ?thesis using r by metis
  qed
qed

text \<open>What one entry of the chain says: which part of the name it holds.\<close>

definition holds_seg :: "u8 list \<Rightarrow> nat \<Rightarrow> u8 \<Rightarrow> lfn \<Rightarrow> bool" where
  "holds_seg xs i cks e \<longleftrightarrow> uint (sequence_number e AND NOT 0x40) = int i + 1 \<and>
     (\<exists>j. all_cells e = take 13 (name_cells (drop (13 * i) xs)) @ replicate j 0xffff) \<and>
     length (name1 e) = 5 \<and> length (name2 e) = 6 \<and> length (name3 e) = 2 \<and> checksum e = cks"

lemma lfn_place_cstr:
  assumes "cstr m p xs" "13 * i \<le> length xs" "Suc i < 64" "uint (seq AND NOT 0x40) = int i + 1"
  shows "list_all2 (\<lambda>k e. holds_seg xs k (tf_lfn_checksum m sfn) e) (rev [0..<Suc i])
    (lfn_place (Suc i) m (p + word_of_nat (13 * i)) seq sfn e)"
  using assms(2-)
proof (induction i arbitrary: seq e)
  case (0 seq e)
  obtain e' where "tf_create_lfn_entry m p e = (if length xs \<le> 13 then 0 else p + 13, e')"
    "all_cells e' = take 13 (name_cells xs) @ replicate (13 - length (name_cells xs)) 0xffff"
    "length (name1 e') = 5" "length (name2 e') = 6" "length (name3 e') = 2"
    using tf_create_lfn_entry_cstr [OF assms(1)] by blast
  with 0 show ?case by (auto simp: holds_seg_def all_cells_def Let_def)
next
  case (Suc i seq e)
  have c: "cstr m (p + word_of_nat (13 * Suc i)) (drop (13 * Suc i) xs)"
    using cstr_drop [OF assms(1)] Suc.prems(1) .
  obtain e' where e': "snd (tf_create_lfn_entry m (p + word_of_nat (13 * Suc i)) e) = e'"
    "all_cells e' = take 13 (name_cells (drop (13 * Suc i) xs)) @ replicate (13 - length (name_cells (drop (13 * Suc i) xs))) 0xffff"
    "length (name1 e') = 5" "length (name2 e') = 6" "length (name3 e') = 2"
    using tf_create_lfn_entry_cstr [OF c, of e] by (metis snd_conv)
  let ?e = "e'\<lparr>sequence_number := seq, checksum := tf_lfn_checksum m sfn\<rparr>"
  have h: "holds_seg xs (Suc i) (tf_lfn_checksum m sfn) ?e"
    using e' Suc.prems(3) by (auto simp: holds_seg_def all_cells_def)
  have ptr: "p + word_of_nat (13 * Suc i) - 13 = p + word_of_nat (13 * i)" by simp
  have "seq AND NOT 0x40 = word_of_int (int (Suc (Suc i)))"
    using arg_cong [OF Suc.prems(3), of "word_of_int :: int \<Rightarrow> u8"] by (simp add: add_ac)
  then have q: "(seq AND NOT 0x40) - 1 = word_of_nat (Suc i)" by simp
  have "unat (word_of_nat (Suc i) :: u8) = Suc i" by (rule seq_last) (use Suc.prems(2) in simp)
  then have "uint ((word_of_nat (Suc i) :: u8) AND NOT 0x40) = int i + 1"
    using seq_bits(2) [of "word_of_nat (Suc i)"] Suc.prems(2) by (metis Suc_lessD of_nat_Suc add.commute unat_eq_nat_uint int_nat_eq uint_nonnegative)
  then have "list_all2 (\<lambda>k e. holds_seg xs k (tf_lfn_checksum m sfn) e) (rev [0..<Suc i])
      (lfn_place (Suc i) m (p + word_of_nat (13 * i)) ((seq AND NOT 0x40) - 1) sfn ?e)"
    unfolding q by (intro Suc.IH) (use Suc.prems(1,2) in simp_all)
  with h e'(1) ptr show ?case
    by (subst lfn_place.simps) (simp add: case_prod_beta Let_def del: lfn_place.simps)
qed

text \<open>The bytes part \<open>i\<close> of a name brings back.\<close>

definition seg_bytes :: "u8 list \<Rightarrow> nat \<Rightarrow> u8 list" where
  "seg_bytes xs i = take 13 (drop (13 * i) xs @ [0])"

lemma name_cells_bytes: "map ucast (name_cells ys) = ys @ [0]"
  by (simp add: name_cells_def comp_def ucast_cells(2))

lemma copylfn_holds_seg:
  assumes "holds_seg xs i c e"
  shows "copylfn e d m = (int (length (seg_bytes xs i)), poke m (d + word_of_nat (13 * i)) (seg_bytes xs i))"
proof -
  let ?cs = "take 13 (name_cells (drop (13 * i) xs))"
  obtain j where j: "all_cells e = ?cs @ replicate j 0xffff" "length (name1 e) = 5" "length (name2 e) = 6"
    "length (name3 e) = 2" "uint (sequence_number e AND NOT 0x40) - 1 = int i"
    using assms by (auto simp: holds_seg_def)
  have clean: "\<forall>c \<in> set ?cs. c \<noteq> 0xffff" using name_cells_clean by (auto dest: in_set_takeD)
  have b: "map ucast ?cs = seg_bytes xs i"
    by (simp only: take_map [symmetric] name_cells_bytes seg_bytes_def)
  have "length ?cs = length (seg_bytes xs i)" using arg_cong [OF b, of length] by simp
  moreover have "word_of_int (13 * int i) = (word_of_nat (13 * i) :: u64)" by simp
  ultimately show ?thesis
    using copylfn_cells [OF j(1) clean j(2,3,4), of d m] unfolding b j(5) by simp
qed

lemma poke_seg:
  assumes "i < 64" "n < 2 ^ 20" "length (seg_bytes xs i) \<le> 13"
  shows "poke m (d + word_of_nat (13 * i)) (seg_bytes xs i) (d + word_of_nat n) =
    (if 13 * i \<le> n \<and> n - 13 * i < length (seg_bytes xs i) then seg_bytes xs i ! (n - 13 * i)
     else m (d + word_of_nat n))"
proof -
  let ?x = "d + word_of_nat n - (d + word_of_nat (13 * i)) :: u64"
  have l: "length (seg_bytes xs i) \<le> 2 ^ 64 - 1" using assms(3) by simp
  show ?thesis
  proof (cases "13 * i \<le> n")
    case True
    then have "?x = word_of_nat (n - 13 * i)" by (simp add: of_nat_diff)
    then have "unat ?x = n - 13 * i" using assms(2) by (simp add: unat_of_nat)
    with True show ?thesis unfolding poke_apply [OF l] by simp
  next
    case False
    then obtain k where k1: "0 < k" "n + k = 13 * i"
      using less_imp_add_positive [of n "13 * i"] by auto
    then have k: "13 * i = n + k" "0 < k" "k < 1000" using assms(1) by simp_all
    then have "?x = 0 - word_of_nat k" unfolding k(1) by simp
    moreover have u: "unat (word_of_nat k :: u64) = k" using k(3) by (simp add: unat_of_nat)
    moreover have "(word_of_nat k :: u64) \<noteq> 0" using u k(2) by (metis unat_0 less_irrefl)
    ultimately have "unat ?x = 2 ^ 64 - k" by (simp only: unat_sub_if') (use k(2) in \<open>simp add: word_le_nat_alt\<close>)
    then have "\<not> unat ?x < length (seg_bytes xs i)" using k(3) assms(3) by simp
    with False show ?thesis unfolding poke_apply [OF l] by simp
  qed
qed

lemma seg_bytes_length: "length (seg_bytes xs i) \<le> 13"
  by (simp add: seg_bytes_def)

lemma seg_bytes_nth:
  "13 * i \<le> n \<Longrightarrow> n < 13 * i + 13 \<Longrightarrow> n < length xs \<Longrightarrow>
    n - 13 * i < length (seg_bytes xs i) \<and> seg_bytes xs i ! (n - 13 * i) = xs ! n"
  by (auto simp: seg_bytes_def nth_append less_diff_conv2 add.commute min_def)

text \<open>Copying the parts \<open>i\<close>, ..., 0 leaves the first \<open>13 (i + 1)\<close> bytes of the name.\<close>

lemma fold_segs:
  assumes "list_all2 (\<lambda>k e. holds_seg xs k c e) (rev [0..<k]) es" "k \<le> 64" "n < length xs" "n < 13 * k"
  shows "fold (\<lambda>e m. snd (copylfn e d m)) es m (d + word_of_nat n) = xs ! n"
  using assms
proof (induction k arbitrary: es m)
  case 0
  then show ?case by simp
next
  case (Suc k)
  from Suc.prems(1) obtain e es' where es: "es = e # es'" "holds_seg xs k c e"
    "list_all2 (\<lambda>k e. holds_seg xs k c e) (rev [0..<k]) es'"
    by (auto simp: list_all2_Cons1)
  have n20: "n < 2 ^ 20" using Suc.prems(2,4) by simp
  have frame: "fold (\<lambda>e m. snd (copylfn e d m)) zs m (d + word_of_nat n) = m (d + word_of_nat n)"
    if "list_all2 (\<lambda>k e. holds_seg xs k c e) (rev [0..<j]) zs" "j \<le> 64" "13 * j \<le> n" for zs j m
    using that
  proof (induction j arbitrary: zs m)
    case (Suc j)
    from Suc.prems(1) obtain e zs' where z: "zs = e # zs'" "holds_seg xs j c e"
      "list_all2 (\<lambda>k e. holds_seg xs k c e) (rev [0..<j]) zs'"
      by (auto simp: list_all2_Cons1)
    have "\<not> n - 13 * j < length (seg_bytes xs j)" using seg_bytes_length [of xs j] Suc.prems(3) by simp
    then have "poke m (d + word_of_nat (13 * j)) (seg_bytes xs j) (d + word_of_nat n) = m (d + word_of_nat n)"
      using poke_seg [OF _ n20 seg_bytes_length, where i = j and xs = xs and m = m and d = d] Suc.prems(2) by simp
    with Suc.IH [OF z(3)] Suc.prems z copylfn_holds_seg [OF z(2), of d m] show ?case by simp
  qed simp
  show ?case
  proof (cases "13 * k \<le> n")
    case True
    then have "poke m (d + word_of_nat (13 * k)) (seg_bytes xs k) (d + word_of_nat n) = xs ! n"
      using poke_seg [OF _ n20 seg_bytes_length, where i = k and xs = xs and m = m and d = d] seg_bytes_nth [of k n xs] Suc.prems by simp
    with frame [OF es(3) _ True] Suc.prems(2) es(1) copylfn_holds_seg [OF es(2), of d m] show ?thesis by simp
  next
    case False
    with Suc.IH [OF es(3)] Suc.prems es(1) show ?thesis by simp
  qed
qed

lemma lfn_place_hd: "sequence_number (hd (lfn_place (Suc i) m q seq sfn e)) = seq"
  by (simp add: case_prod_beta Let_def)

text \<open>C6: the directory entries tf_place_lfn_chain makes of a name of up to 255 characters carry the
  checksum and sequence marks and copylfn puts the name together again from them.
\<close>

theorem lfn_round_trip:
  assumes "cstr m p xs" "unat p + length xs < 2 ^ 64" "length xs \<le> 255"
  shows "\<exists>es. tf_place_lfn_chain m p sfn e = Some es \<and> length es = Suc ((length xs - 1) div 13) \<and>
    (\<forall>f \<in> set es. checksum f = tf_lfn_checksum m sfn) \<and>
    sequence_number (hd es) = word_of_nat (length es) OR 0x40 \<and>
    (\<forall>m d i. i < length xs \<longrightarrow> fold (\<lambda>e m. snd (copylfn e d m)) es m (d + word_of_nat i) = xs ! i)"
proof -
  let ?k = "segs xs" and ?seq = "word_of_nat (Suc (segs xs)) OR 0x40 :: u8"
  obtain e' where c: "lfn_count m p e 1 p = Some (Suc ?k, p + word_of_nat (13 * ?k), e')"
    using lfn_count_cstr [OF assms(1,2), of e 1] by auto
  let ?es = "lfn_place (Suc ?k) m (p + word_of_nat (13 * ?k)) ?seq sfn e'"
  have t: "tf_place_lfn_chain m p sfn e = Some ?es" by (simp only: tf_place_lfn_chain_def c option.map prod.case)
  have k: "Suc ?k < 64" using assms(3) by (simp add: segs_def)
  have k13: "13 * ?k \<le> length xs" unfolding segs_def by simp
  have u: "unat (word_of_nat (Suc ?k) :: u8) = Suc ?k" by (rule seq_last [OF k])
  then have "?seq AND NOT 0x40 = word_of_nat (Suc ?k)" using seq_bits(1) k by simp
  then have "uint (?seq AND NOT 0x40) = int ?k + 1" using u by (metis of_nat_Suc add.commute unat_eq_nat_uint int_nat_eq uint_nonnegative)
  then have a: "list_all2 (\<lambda>k e. holds_seg xs k (tf_lfn_checksum m sfn) e) (rev [0..<Suc ?k]) ?es"
    by (rule lfn_place_cstr [OF assms(1) k13 k])
  have l: "length ?es = Suc ?k"
    using list_all2_lengthD [OF a] by (metis length_rev length_upt minus_nat.diff_0)
  have "checksum f = tf_lfn_checksum m sfn" if "f \<in> set ?es" for f
    using a that by (auto simp: list_all2_conv_all_nth in_set_conv_nth holds_seg_def simp del: lfn_place.simps)
  moreover have "sequence_number (hd ?es) = word_of_nat (length ?es) OR 0x40"
    unfolding l by (simp add: lfn_place_hd del: lfn_place.simps)
  moreover have "n < 13 * Suc ?k" if "n < length xs" for n
    using that dividend_less_times_div [of 13 "length xs - 1"] unfolding segs_def mult_Suc_right by linarith
  ultimately show ?thesis
    using t l fold_segs [OF a] k by (intro exI [of _ ?es]) (auto simp: segs_def simp del: lfn_place.simps)
qed

definition blank_lfn :: lfn where
  "blank_lfn = \<lparr>sequence_number = 0, name1 = [], l_attributes = 0, l_reserved = 0, checksum = 0,
     name2 = [], l_firstCluster = 0, name3 = []\<rparr>"

definition ab_name :: mem where "ab_name = (\<lambda>_. 0)(100 := 97, 101 := 98)"

theorem lfn_round_trip_witness:
  "\<exists>es. tf_place_lfn_chain ab_name 100 0 blank_lfn = Some es \<and> length es = 1 \<and>
    fold (\<lambda>e m. snd (copylfn e 500 m)) es (\<lambda>_. 0) (500 + word_of_nat 1) = 98"
proof -
  have "cstr ab_name 100 [97, 98]" by (simp add: ab_name_def)
  moreover have "unat (100 :: u64) + length [97 :: u8, 98] < 2 ^ 64" "length [97 :: u8, 98] \<le> 255" by simp_all
  ultimately obtain es where es: "tf_place_lfn_chain ab_name 100 0 blank_lfn = Some es"
    "length es = Suc ((length [97 :: u8, 98] - 1) div 13)"
    "\<forall>m d i. i < length [97 :: u8, 98] \<longrightarrow>
      fold (\<lambda>e m. snd (copylfn e d m)) es m (d + word_of_nat i) = [97, 98] ! i"
    using lfn_round_trip by blast
  have "fold (\<lambda>e m. snd (copylfn e 500 m)) es (\<lambda>_. 0) (500 + word_of_nat 1) = [97, 98] ! 1"
    using spec [OF spec [OF spec [OF es(3), of "\<lambda>_. 0"], of 500], of 1] by simp
  with es(1,2) show ?thesis by simp
qed

end
