(* ===== verification/FatDir.thy ===== *)
theory FatDir
  imports Fat32 Lfn
begin

text \<open>
  Directories of \<open>fs/fat32.cpp\<close>: the 32-byte entries, how one is compared with a component of a
  path, the search of a directory (\<open>tf_compare_filename\<close>, \<open>tf_find_file\<close>), the walk along a path
  (\<open>tf_walk\<close>) and the opening of a handle (\<open>tf_fnopen\<close>). The search is shown to refine a scan of
  the list of the entries.

  A string the code only reads is the list of its bytes before the NUL, and a pointer into it the
  rest of that list.
\<close>

section \<open>Entries\<close>

text \<open>
  \<open>FatFileEntry\<close> is a union over 32 bytes; it is kept as the list of these bytes, from which the
  two views are decoded.
\<close>

definition le16 :: "u8 list \<Rightarrow> nat \<Rightarrow> u16" where
  "le16 e i = ucast (e ! i) OR push_bit 8 (ucast (e ! (i + 1)))"

definition le32 :: "u8 list \<Rightarrow> nat \<Rightarrow> u32" where
  "le32 e i = ucast (le16 e i) OR push_bit 16 (ucast (le16 e (i + 2)))"

definition bytes16 :: "u16 \<Rightarrow> u8 list" where "bytes16 x = [ucast x, ucast (drop_bit 8 x)]"

definition bytes32 :: "u32 \<Rightarrow> u8 list" where
  "bytes32 x = bytes16 (ucast x) @ bytes16 (ucast (drop_bit 16 x))"

record FatFile83 =
  e_filename :: "u8 list"
  e_extension :: "u8 list"
  e_attributes :: u8
  e_reserved :: u8
  e_creationTimeMs :: u8
  e_creationTime :: u16
  e_creationDate :: u16
  e_lastAccessTime :: u16
  e_eaIndex :: u16
  e_modifiedTime :: u16
  e_modifiedDate :: u16
  e_firstCluster :: u16
  e_fileSize :: u32

definition msdos :: "u8 list \<Rightarrow> FatFile83" where
  "msdos e = \<lparr>e_filename = take 8 e, e_extension = take 3 (drop 8 e), e_attributes = e ! 11,
     e_reserved = e ! 12, e_creationTimeMs = e ! 13, e_creationTime = le16 e 14,
     e_creationDate = le16 e 16, e_lastAccessTime = le16 e 18, e_eaIndex = le16 e 20,
     e_modifiedTime = le16 e 22, e_modifiedDate = le16 e 24, e_firstCluster = le16 e 26,
     e_fileSize = le32 e 28\<rparr>"

definition of_msdos :: "FatFile83 \<Rightarrow> u8 list" where
  "of_msdos f = e_filename f @ e_extension f @ [e_attributes f, e_reserved f, e_creationTimeMs f] @
     bytes16 (e_creationTime f) @ bytes16 (e_creationDate f) @ bytes16 (e_lastAccessTime f) @
     bytes16 (e_eaIndex f) @ bytes16 (e_modifiedTime f) @ bytes16 (e_modifiedDate f) @
     bytes16 (e_firstCluster f) @ bytes32 (e_fileSize f)"

definition lfn_of :: "u8 list \<Rightarrow> lfn" where
  "lfn_of e = \<lparr>sequence_number = e ! 0, name1 = map (\<lambda>k. le16 e (1 + 2 * k)) [0..<5],
     l_attributes = e ! 11, l_reserved = e ! 12, checksum = e ! 13,
     name2 = map (\<lambda>k. le16 e (14 + 2 * k)) [0..<6], l_firstCluster = le16 e 26,
     name3 = map (\<lambda>k. le16 e (28 + 2 * k)) [0..<2]\<rparr>"

definition of_lfn :: "lfn \<Rightarrow> u8 list" where
  "of_lfn l = [sequence_number l] @ concat (map bytes16 (name1 l)) @
     [l_attributes l, l_reserved l, checksum l] @ concat (map bytes16 (name2 l)) @
     bytes16 (l_firstCluster l) @ concat (map bytes16 (name3 l))"

lemma bytes16_bits:
  "ucast (ucast x :: u8) OR push_bit 8 (ucast (ucast (drop_bit 8 x) :: u8)) = (x :: u16)"
  by (rule bit_word_eqI) (auto simp: bit_simps)

lemma le16_bytes16: "le16 (xs @ bytes16 x @ ys) (length xs) = x"
  by (simp add: le16_def bytes16_def nth_append bytes16_bits)

lemma bytes32_bits:
  "ucast (ucast x :: u16) OR push_bit 16 (ucast (ucast (drop_bit 16 x) :: u16)) = (x :: u32)"
  by (rule bit_word_eqI) (auto simp: bit_simps)

lemma msdos_of_msdos:
  assumes "length (e_filename f) = 8" "length (e_extension f) = 3"
  shows "msdos (of_msdos f) = f \<and> length (of_msdos f) = 32"
proof -
  obtain a0 a1 a2 a3 a4 a5 a6 a7 where n: "e_filename f = [a0, a1, a2, a3, a4, a5, a6, a7]"
    using assms(1) by (auto simp: numeral_eq_Suc length_Suc_conv)
  obtain b0 b1 b2 where x: "e_extension f = [b0, b1, b2]"
    using assms(2) by (auto simp: numeral_eq_Suc length_Suc_conv)
  show ?thesis
    by (cases f) (use n x in \<open>simp add: msdos_def of_msdos_def le16_def le32_def bytes16_def bytes32_def
        bytes16_bits bytes32_bits\<close>)
qed

lemma lfn_of_of_lfn:
  assumes "length (name1 l) = 5" "length (name2 l) = 6" "length (name3 l) = 2"
  shows "lfn_of (of_lfn l) = l \<and> length (of_lfn l) = 32"
proof -
  obtain a0 a1 a2 a3 a4 where 1: "name1 l = [a0, a1, a2, a3, a4]"
    using assms(1) by (auto simp: numeral_eq_Suc length_Suc_conv)
  obtain b0 b1 b2 b3 b4 b5 where 2: "name2 l = [b0, b1, b2, b3, b4, b5]"
    using assms(2) by (auto simp: numeral_eq_Suc length_Suc_conv)
  obtain c0 c1 where 3: "name3 l = [c0, c1]"
    using assms(3) by (auto simp: numeral_eq_Suc length_Suc_conv)
  show ?thesis
    by (cases l) (use 1 2 3 in \<open>simp add: lfn_of_def of_lfn_def le16_def bytes16_def bytes16_bits upt_rec\<close>)
qed

section \<open>Comparing names\<close>

text \<open>\<open>strncasecmp\<close> on two arrays of bytes, of which it reads no more than the NUL of the first.\<close>

fun strncasecmp_bytes :: "nat \<Rightarrow> u8 list \<Rightarrow> u8 list \<Rightarrow> int" where
  "strncasecmp_bytes (Suc n) (x # xs) (y # ys) =
     (let result = uint (toLowCase x) - uint (toLowCase y) in
      if result \<noteq> 0 then result else if x = 0 then 0 else strncasecmp_bytes n xs ys)"
| "strncasecmp_bytes _ _ _ = 0"

definition SLASH :: u8 where "SLASH = 0x2F"

text \<open>\<open>reformatted_file\<close>, an array of 16 bytes that starts as zeros.\<close>

definition pad16 :: "u8 list \<Rightarrow> u8 list" where "pad16 xs = xs @ replicate (16 - length xs) 0"

definition reformatted :: "u8 list \<Rightarrow> u8 list" where
  "reformatted e =
     (if e_attributes (msdos e) \<noteq> TF_ATTR_LONG_NAME then
        (let base = filter (\<lambda>c. c \<noteq> 0x20) (e_filename (msdos e));
             ext = filter (\<lambda>c. c \<noteq> 0x20) (e_extension (msdos e))
         in if ext = [] then base else base @ [0x2E] @ ext)
      else map ucast (name1 (lfn_of e) @ name2 (lfn_of e) @ name3 (lfn_of e)))"

definition tf_compare_filename_segment :: "u8 list \<Rightarrow> u8 list \<Rightarrow> int" where
  "tf_compare_filename_segment entry nm =
     (let reformatted_file = pad16 (reformatted entry);
          i = length (takeWhile (\<lambda>c. c \<noteq> SLASH) nm)
      in if i > 13 then
           (if strncasecmp_bytes 13 (nm @ [0]) reformatted_file \<noteq> 0 then 0 else 1)
         else if reformatted_file ! i \<noteq> 0 \<or> strncasecmp_bytes i (nm @ [0]) reformatted_file \<noteq> 0 then 0
         else 1)"

section \<open>Searching a directory\<close>

text \<open>
  One \<open>tf_fread\<close> of an entry: the bytes that arrived. A caller whose entry is still uninitialised
  must not look at a byte that did not arrive.
\<close>

definition read_entry :: "TFFile \<Rightarrow> tfinfo \<Rightarrow> u8 list \<times> TFFile \<times> tfinfo" where
  "read_entry fp s = (let ((_, bs), fp, s) = tf_fread 32 fp s in (bs, fp, s))"

text \<open>A \<open>tf_fseek\<close> whose result is not looked at; \<open>base\<close> is a \<open>size_t\<close> relative to the position.\<close>

definition seek_by :: "u64 \<Rightarrow> TFFile \<Rightarrow> tfinfo \<Rightarrow> TFFile \<times> tfinfo" where
  "seek_by base fp s = snd (tf_fseek fp (uint base) (uint (f_pos fp)) s)"

definition LFN_ENTRY_CAPACITY :: u32 where "LFN_ENTRY_CAPACITY = 13"

text \<open>The number of long entries a chain has, from the sequence number of its first entry.\<close>

definition lfn_number :: "u8 \<Rightarrow> u32" where "lfn_number x = ucast (x AND NOT 0x40)"

text \<open>The loop over a chain of long entries, from the last one; \<open>k\<close> of \<open>lfn_entries\<close> are left.\<close>

fun lfn_match_loop ::
    "nat \<Rightarrow> u32 \<Rightarrow> u8 list \<Rightarrow> u8 list \<Rightarrow> TFFile \<Rightarrow> tfinfo \<Rightarrow> (int \<times> TFFile \<times> tfinfo) res" where
  "lfn_match_loop 0 lfn_entries compare_name entry fp s =
     (let (fp, s) = seek_by (ucast (32 * lfn_entries)) fp s in Inr (1, fp, s))"
| "lfn_match_loop (Suc k) lfn_entries compare_name entry fp s =
     (let i = lfn_entries - word_of_nat (Suc k);
          (fp, s) = seek_by (- 32) fp s;
          (bs, fp, s) = read_entry fp s;
          entry = bs @ drop (length bs) entry
      in if tf_compare_filename_segment entry compare_name = 0 then
           (let (fp, s) = seek_by (word_of_int (sint i) * 32) fp s in Inr (0, fp, s))
         else
           (let (fp, s) = seek_by (- 32) fp s
            in lfn_match_loop k lfn_entries (drop 13 compare_name) entry fp s))"

definition tf_compare_filename :: "u8 list \<Rightarrow> TFFile \<Rightarrow> tfinfo \<Rightarrow> (int \<times> TFFile \<times> tfinfo) res" where
  "tf_compare_filename nm fp s =
     (let (entry, fp, s) = read_entry fp s in
      if entry = [] then Inl (Undef ''entry'')
      else if entry ! 0 = 0 then Inr (- 1, fp, s)
      else if length entry < 32 then Inl (Undef ''entry'')
      else if e_attributes (msdos entry) \<noteq> TF_ATTR_LONG_NAME then
        (if tf_compare_filename_segment entry nm = 1 then
           (let (fp, s) = seek_by (- 32) fp s in Inr (1, fp, s))
         else Inr (0, fp, s))
      else if sequence_number (lfn_of entry) AND 0xc0 = 0x40 then
        (let lfn_entries = lfn_number (sequence_number (lfn_of entry));
             (fp, s) = seek_by (ucast (32 * (lfn_entries - 1))) fp s;
             namelen = word_of_nat (length nm) :: u32
         in if (namelen + 12) div LFN_ENTRY_CAPACITY \<noteq> lfn_entries then Inr (0, fp, s)
            else lfn_match_loop (unat lfn_entries) lfn_entries nm entry fp s)
      else Inr (- 1, fp, s))"

text \<open>\<open>None\<close>: the loop never ends.\<close>

partial_function (option) find_file_loop ::
    "u8 list \<Rightarrow> TFFile \<Rightarrow> tfinfo \<Rightarrow> (int \<times> TFFile \<times> tfinfo) res option" where
  "find_file_loop nm fp s =
     (case tf_compare_filename nm fp s of
        Inl e \<Rightarrow> Some (Inl e)
      | Inr (rc, fp, s) \<Rightarrow>
          if rc < 0 then Some (Inr (- 1, fp, s))
          else if rc = 1 then Some (Inr (0, fp, s))
          else find_file_loop nm fp s)"

definition tf_find_file :: "TFFile \<Rightarrow> u8 list \<Rightarrow> tfinfo \<Rightarrow> (int \<times> TFFile \<times> tfinfo) res option" where
  "tf_find_file current_directory nm s =
     (let (_, fp, s) = tf_fseek current_directory 0 0 s in find_file_loop nm fp s)"

section \<open>Walking a path\<close>

text \<open>What \<open>tf_walk\<close> makes of the handle once it has the entry of the next component.\<close>

definition enter_entry :: "u8 list \<Rightarrow> TFFile \<Rightarrow> TFFile" where
  "enter_entry entry fp =
     (let fp = fp\<lparr>parentStartCluster := startCluster fp\<rparr>;
          fp = fp\<lparr>startCluster := push_bit 16 (ucast (e_eaIndex (msdos entry))) OR
                                  ucast (e_firstCluster (msdos entry))\<rparr>
      in fp\<lparr>f_attributes := e_attributes (msdos entry),
            currentCluster := startCluster fp, currentClusterIdx := 0, f_currentSector := 0,
            currentByte := 0, f_pos := 0, f_flags := TF_FLAG_OPEN,
            f_size := (if e_attributes (msdos entry) AND TF_ATTR_DIRECTORY \<noteq> 0 then 0xffffffff
                       else e_fileSize (msdos entry))\<rparr>)"

text \<open>The rest of the path, or \<open>None\<close> for the null pointer.\<close>

definition tf_walk ::
    "u8 list \<Rightarrow> TFFile \<Rightarrow> tfinfo \<Rightarrow> (u8 list option \<times> TFFile \<times> tfinfo) res option" where
  "tf_walk filename fp s =
     (let filename' = (case filename of c # cs \<Rightarrow> if c = SLASH then cs else filename | [] \<Rightarrow> []) in
      if filename' = [] then Some (Inr (None, fp, s))
      else
        opt_bnd (tf_find_file fp filename' s) (\<lambda>(rc, fp, s).
          if rc \<noteq> 0 then Some (Inr (None, fp\<lparr>f_flags := 0xff\<rparr>, s))
          else
            (let (entry, fp, s) = read_entry fp s;
                 rest = dropWhile (\<lambda>c. c \<noteq> SLASH) filename';
                 rest = (case rest of c # cs \<Rightarrow> cs | [] \<Rightarrow> [])
             in if length entry < 32 then Some (Inl (Undef ''entry''))
                else Some (Inr (if rest = [] then None else Some rest, enter_entry entry fp, s)))))"

section \<open>Opening a handle\<close>

record Fat32FileSystem =
  tf_info :: tfinfo
  tf_file_handles :: "TFFile list"

text \<open>A \<open>TFFile\<close> pointer is null, \<open>(TFFile *)-1\<close>, or points into the table of handles.\<close>

datatype tf_ptr = No_file | No_handle | Handle nat

definition TF_MODE_READ :: u8 where "TF_MODE_READ = 0x01"
definition TF_MODE_WRITE :: u8 where "TF_MODE_WRITE = 0x02"
definition TF_MODE_APPEND :: u8 where "TF_MODE_APPEND = 0x04"
definition TF_MODE_OVERWRITE :: u8 where "TF_MODE_OVERWRITE = 0x08"

text \<open>The loop of \<open>tf_fnopen\<close> over the path.\<close>

partial_function (option) walk_path ::
    "u8 list \<Rightarrow> TFFile \<Rightarrow> tfinfo \<Rightarrow> (bool \<times> TFFile \<times> tfinfo) res option" where
  "walk_path temp_filename fp s =
     (case tf_walk temp_filename fp s of
        None \<Rightarrow> None
      | Some (Inl e) \<Rightarrow> Some (Inl e)
      | Some (Inr (rest, fp, s)) \<Rightarrow>
          if f_flags fp = 0xff then Some (Inr (False, fp, s))
          else (case rest of None \<Rightarrow> Some (Inr (True, fp, s)) | Some rest \<Rightarrow> walk_path rest fp s))"

definition root_handle :: "TFFile \<Rightarrow> TFFile" where
  "root_handle fp = fp\<lparr>currentCluster := 2, startCluster := 2, parentStartCluster := 0xffffffff,
     currentClusterIdx := 0, f_currentSector := 0, currentByte := 0,
     f_attributes := TF_ATTR_DIRECTORY, f_pos := 0, f_flags := f_flags fp OR TF_FLAG_ROOT,
     f_size := 0xffffffff, f_mode := TF_MODE_READ OR TF_MODE_WRITE OR TF_MODE_OVERWRITE\<rparr>"

text \<open>The treatment of the mode string, once the handle stands on the file.\<close>

definition open_mode :: "string \<Rightarrow> TFFile \<Rightarrow> tfinfo \<Rightarrow> (TFFile \<times> tfinfo) option" where
  "open_mode mode fp s =
     (let fp = (if CHR ''r'' \<in> set mode then fp\<lparr>f_mode := f_mode fp OR TF_MODE_READ\<rparr> else fp);
          (fp, s) = (if CHR ''a'' \<in> set mode then
              (let (_, fp, s) = tf_unsafe_fseek fp (to_int32 (uint (f_size fp))) 0 s
               in (fp\<lparr>f_mode := f_mode fp OR (TF_MODE_WRITE OR TF_MODE_OVERWRITE)\<rparr>, s))
            else (fp, s));
          fp = (if CHR ''+'' \<in> set mode
                then fp\<lparr>f_mode := f_mode fp OR (TF_MODE_OVERWRITE OR TF_MODE_WRITE)\<rparr> else fp)
      in if CHR ''w'' \<in> set mode then
           map_option (\<lambda>(fp, s). (fp\<lparr>f_mode := f_mode fp OR TF_MODE_WRITE\<rparr>, s))
             (if f_attributes fp AND TF_ATTR_DIRECTORY = 0 then
                (let fp = fp\<lparr>f_size := 0\<rparr>;
                     (_, fp, s) = tf_unsafe_fseek fp 0 0 s;
                     (cluster, s) = tf_get_fat_entry (startCluster fp) s
                 in if cluster \<noteq> TF_MARK_EOC32 then
                      map_option (\<lambda>(_, s). (fp, snd (tf_set_fat_entry (startCluster fp) TF_MARK_EOC32 s)))
                        (tf_free_clusterchain cluster s)
                    else Some (fp, s))
              else Some (fp, s))
         else Some (fp, s))"

text \<open>
  \<open>n\<close> is an \<open>int\<close>; the local \<open>myfile\<close> has 256 bytes and is read back as far as its NUL.
\<close>

definition tf_fnopen ::
    "u8 list \<Rightarrow> string \<Rightarrow> int \<Rightarrow> Fat32FileSystem \<Rightarrow> (tf_ptr \<times> Fat32FileSystem) res option" where
  "tf_fnopen filename mode n fs =
     (case tf_get_free_handle (tf_file_handles fs) of
        (None, hs) \<Rightarrow> Some (Inr (No_handle, fs\<lparr>tf_file_handles := hs\<rparr>))
      | (Some h, hs) \<Rightarrow>
          if n < 0 \<or> n > 255 then Some (Inl (Undef ''myfile''))
          else
            (let myfile = take (nat n) filename in
             opt_bnd (walk_path myfile (root_handle (hs ! h)) (tf_info fs)) (\<lambda>(ok, fp, s).
               if \<not> ok then
                 Some (settled s (Inr (No_file, fs\<lparr>tf_info := s,
                   tf_file_handles := tf_release_handle h (hs[h := fp])\<rparr>)))
               else
                 map_option (\<lambda>(fp, s). settled s (Inr (Handle h, fs\<lparr>tf_info := s,
                     tf_file_handles := hs[h := fp\<lparr>f_filename := myfile\<rparr>]\<rparr>)))
                   (open_mode mode fp s))))"


section \<open>The entries a directory shows\<close>

definition dir_entry :: "tfinfo \<Rightarrow> u32 \<Rightarrow> nat \<Rightarrow> u8 list" where
  "dir_entry s start k = map (file_byte s start) [32 * k..<32 * k + 32]"

text \<open>
  A handle on a directory (which has the size \<open>0xffffffff\<close>) whose chain covers \<open>n\<close> entries, at
  most the 2 MiB of a FAT directory.
\<close>

definition dir_ok :: "tfinfo \<Rightarrow> TFFile \<Rightarrow> nat \<Rightarrow> bool" where
  "dir_ok s fp n \<longleftrightarrow> ftype s \<noteq> 0 \<and> 0 < unat (sectorsPerCluster s) \<and> unat (sectorsPerCluster s) \<le> 64 \<and>
     f_size fp = 0xffffffff \<and> n \<le> 65536 \<and>
     (\<forall>q \<le> 32 * n. reaches s fp q \<and> low (pos_sector s (startCluster fp) q))"

text \<open>The handle stands before entry \<open>k\<close> and nothing that can be read has changed.\<close>

definition dir_at :: "tfinfo \<Rightarrow> TFFile \<Rightarrow> nat \<Rightarrow> TFFile \<Rightarrow> tfinfo \<Rightarrow> bool" where
  "dir_at s0 fp0 k fp s \<longleftrightarrow> fp = at_pos s0 fp0 (32 * k) \<and> cache_ok s \<and> same_view s0 s"

lemma at_pos_twice [simp]: "at_pos s (at_pos s fp p) q = at_pos s fp q"
  by (simp add: at_pos_def)

lemma dir_at_handle:
  assumes "dir_ok s0 fp0 n" "dir_at s0 fp0 k fp s" "k \<le> n"
  shows "handle_ok s fp" "f_size fp = 0xffffffff" "startCluster fp = startCluster fp0"
    "unat (f_pos fp) = 32 * k" "j \<le> n \<Longrightarrow> reaches s fp (32 * j)" "at_pos s fp (32 * k) = fp"
    "j \<le> n \<Longrightarrow> at_pos s fp (32 * j) = at_pos s0 fp0 (32 * j)"
proof -
  have k32: "32 * k < 2 ^ 32" using assms(1,3) by (simp add: dir_ok_def)
  have r: "reaches s0 fp0 (32 * j)" if "j \<le> n" for j using assms(1) that by (simp add: dir_ok_def)
  have fp: "fp = at_pos s0 fp0 (32 * k)" and sv: "same_view s0 s" using assms(2) by (simp_all add: dir_at_def)
  have rr: "reaches s0 fp q = reaches s0 fp0 q" for q by (simp add: reaches_def fp at_pos_def)
  have "32 * k div bpc s0 < 2 ^ 32" by (rule order_le_less_trans [OF div_le_dividend k32])
  then have "unat (word_of_nat (32 * k div bpc s0) :: u32) = 32 * k div bpc s0" by (simp add: unat_of_nat)
  then have "handle_ok s0 fp"
    using assms(1) r [OF assms(3)] by (simp add: handle_ok_def fp at_pos_def dir_ok_def reaches_def)
  then show "handle_ok s fp" by (rule same_view_handle_ok [OF sv])
  have "unat (word_of_nat (32 * k) :: u32) = 32 * k" unfolding unat_of_nat using k32 by simp
  then show "f_size fp = 0xffffffff" "startCluster fp = startCluster fp0" "unat (f_pos fp) = 32 * k"
    using assms(1) by (simp_all add: fp at_pos_def dir_ok_def del: of_nat_mult)
  show "reaches s fp (32 * j)" if "j \<le> n" for j
    using same_view_reaches [OF sv] r [OF that] rr by blast
  have a: "at_pos s fp (32 * j) = at_pos s0 fp (32 * j)" if "j \<le> n" for j
    using same_view_at_pos [OF sv] r [OF that] rr by blast
  show "at_pos s fp (32 * k) = fp" using a [OF assms(3)] by (simp add: fp)
  show "at_pos s fp (32 * j) = at_pos s0 fp0 (32 * j)" if "j \<le> n" for j using a [OF that] by (simp add: fp)
qed

lemma signed_base:
  assumes "- 2147483648 \<le> b" "b < 2147483648" "0 \<le> b + p" "b + p < 4294967296"
  shows "to_long (uint (word_of_int b :: u64) + p) = b + p" "to_int32 (uint (word_of_int b :: u64)) = b"
proof -
  have "(word_of_int (uint (word_of_int b :: u64) + p) :: u64) = word_of_int (b + p)"
    by (simp flip: wi_hom_add)
  then show "to_long (uint (word_of_int b :: u64) + p) = b + p"
    using to_long_small [of "b + p"] assms(3,4) by (simp add: to_long_def)
  have "(word_of_int (uint (word_of_int b :: u64)) :: 32 word) = word_of_int b"
    by (simp add: unsigned_of_int word_of_int_eq_iff take_bit_take_bit)
  then show "to_int32 (uint (word_of_int b :: u64)) = b"
    using assms(1,2) by (simp add: to_int32_def signed_of_int) (simp add: signed_take_bit_int_eq_self)
qed

lemma dir_seek:
  assumes "dir_ok s0 fp0 n" "dir_at s0 fp0 k fp s" "k \<le> n" "int j = int k + b" "j \<le> n"
    and "base = word_of_int (32 * b)"
  shows "\<exists>s'. seek_by base fp s = (at_pos s0 fp0 (32 * j), s') \<and> dir_at s0 fp0 j (at_pos s0 fp0 (32 * j)) s'"
proof -
  note h = dir_at_handle [OF assms(1-3)]
  have n: "n \<le> 65536" using assms(1) by (simp add: dir_ok_def)
  have b: "32 * b + int (32 * k) = int (32 * j)" using assms(4) by simp
  have u: "uint (f_pos fp) = int (32 * k)" using h(4) by (metis uint_nat)
  have e: "to_long (uint base + uint (f_pos fp)) = int (32 * j)" "to_int32 (uint base) + uint (f_pos fp) = int (32 * j)"
    using signed_base [of "32 * b" "int (32 * k)"] n assms(3-5) unfolding u assms(6) b by linarith+
  have "32 * j < unat (f_size fp)" using n assms(5) by (simp add: h(2))
  from tf_fseek_at [OF _ h(1) h(5) [OF assms(5)] this e] assms(2)
  show ?thesis using h(7) [OF assms(5)] same_view_trans by (fastforce simp: seek_by_def dir_at_def)
qed

lemma map_block: "(\<And>i. i < n \<Longrightarrow> g i = f (a + i)) \<Longrightarrow> map g [0..<n] = map f [a..<a + n]"
  by (rule nth_equalityI) simp_all

lemma tf_fread_0: "tf_fread 0 fp s = ((0, []), fp, s)"
  by (subst tf_fread.simps) simp

text \<open>The sector of an entry, the bytes of the entry in it, and the size of the transfer.\<close>

lemma dir_fetch:
  assumes "dir_ok s0 fp0 n" "dir_at s0 fp0 k fp s" "k < n"
  shows "\<exists>rc s1. tf_fetch (tf_first_sector (currentCluster fp) s + word_of_int (sint (currentByte fp) sdiv 512)) s = (rc, s1) \<and>
    fread_chunk fp 32 = 32 \<and> dir_at s0 fp0 k fp s1 \<and>
    (\<forall>i < 32. buffer s1 (word_of_int (sint (currentByte fp) smod 512) + word_of_nat i) =
       file_byte s0 (startCluster fp0) (32 * k + i))"
proof -
  have k: "k \<le> n" "Suc k \<le> n" using assms(3) by simp_all
  note h = dir_at_handle [OF assms(1,2) k(1)]
  have sv: "same_view s0 s" and c: "cache_ok s" using assms(2) by (simp_all add: dir_at_def)
  have n: "n \<le> 65536" and reach: "reaches s0 fp0 (32 * k)" and lw0: "low (pos_sector s0 (startCluster fp0) (32 * k))"
    using assms(1) k(1) by (simp_all add: dir_ok_def)
  have b: "0 < bpc s" "bpc s \<le> 32768" "bpc s = bpc s0"
    using assms(1) same_view_bpc [OF sv] by (auto simp: dir_ok_def bpc_def)
  let ?m = "32 * k mod bpc s"
  have m: "?m < 32768" using mod_less_divisor [OF b(1), of "32 * k"] b(2) by linarith
  have "currentByte (at_pos s fp (32 * k)) = word_of_nat ?m" by (simp add: at_pos_def)
  then have "currentByte fp = word_of_int (int ?m)" unfolding h(6) by simp
  then have "sint (currentByte fp) = signed_take_bit 15 (int ?m)" by (simp only: signed_of_int) simp
  also have "\<dots> = int ?m" using m by (intro signed_take_bit_int_eq_self) simp_all
  finally have cb: "sint (currentByte fp) = int ?m" .
  have sm: "sint (currentByte fp) smod 512 = int (32 * k mod 512)"
    unfolding cb by (subst smod_nonneg) (simp, simp, metis zmod_int bpc_mod of_nat_numeral)
  have "32 * k mod (32 * 16) = 32 * (k mod 16)" by (simp only: mult_mod_right)
  then have r: "32 * k mod 512 + 32 \<le> 512" using mod_less_divisor [of 16 k] by simp
  have "f_pos fp \<le> f_size fp" using n k h(4) by (simp add: word_le_nat_alt h(2))
  then have "unat (f_size fp - f_pos fp) = 0xffffffff - 32 * k" by (simp add: unat_sub h(2,4))
  then have "uint (f_size fp - f_pos fp) = int (0xffffffff - 32 * k)" by (metis int_nat_eq uint_nonnegative unat_eq_nat_uint)
  then have left: "32 \<le> uint (f_size fp - f_pos fp)" using n k by simp
  have "uint (fread_chunk fp 32) = 32"
    using uint_fread_chunk [of 32 fp] r left unfolding sm by simp
  then have x: "fread_chunk fp 32 = 32" by (metis word_of_int_uint word_of_int_numeral)
  let ?sec = "tf_first_sector (currentCluster fp) s + word_of_int (sint (currentByte fp) sdiv 512)"
  have "currentCluster fp = currentCluster (at_pos s fp (32 * k))" unfolding h(6) ..
  then have h0: "currentCluster fp = hops (fat s) (startCluster fp) (32 * k div bpc s)" by (simp add: at_pos_def)
  have sec: "?sec = pos_sector s (startCluster fp) (32 * k)"
    unfolding cb pos_sector_def h0
    by (subst sdiv_nonneg) (simp, simp, metis zdiv_int of_nat_numeral of_int_of_nat_eq)
  have ps: "pos_sector s (startCluster fp) (32 * k) = pos_sector s0 (startCluster fp0) (32 * k)"
    unfolding h(3) by (rule same_view_pos_sector [OF sv reach])
  have lw: "low ?sec" unfolding sec ps by (rule lw0)
  obtain rc s1 where f: "tf_fetch ?sec s = (rc, s1)" by force
  note v = tf_fetch_view [OF c lw f]
  have one: "buffer s1 (word_of_int (sint (currentByte fp) smod 512) + word_of_nat i) = file_byte s0 (startCluster fp0) (32 * k + i)"
    if "i < 32" for i
  proof -
    have "file_byte s0 (startCluster fp0) (32 * k + i) = view s0 (pos_sector s0 (startCluster fp0) (32 * k)) (word_of_nat (32 * k mod 512 + i))"
      by (rule file_byte_block) (use r that in simp)
    also have "view s0 (pos_sector s0 (startCluster fp0) (32 * k)) = buffer s1"
      using v(5) sv lw0 unfolding sec ps by (simp add: same_view_def)
    finally show ?thesis unfolding sm by simp
  qed
  have d1: "dir_at s0 fp0 k fp s1"
    using assms(2) v(2,3) same_view_trans by (auto simp: dir_at_def)
  show ?thesis using f x d1 one by blast
qed

lemma dir_read:
  assumes "dir_ok s0 fp0 n" "dir_at s0 fp0 k fp s" "k < n"
  shows "\<exists>s'. read_entry fp s = (dir_entry s0 (startCluster fp0) k, at_pos s0 fp0 (32 * Suc k), s') \<and>
    dir_at s0 fp0 (Suc k) (at_pos s0 fp0 (32 * Suc k)) s'"
proof -
  have k: "k \<le> n" "Suc k \<le> n" using assms(3) by simp_all
  have n: "n \<le> 65536" using assms(1) by (simp add: dir_ok_def)
  note h = dir_at_handle [OF assms(1,2) k(1)]
  obtain rc s1 where f: "tf_fetch (tf_first_sector (currentCluster fp) s + word_of_int (sint (currentByte fp) sdiv 512)) s = (rc, s1)"
    and x: "fread_chunk fp 32 = 32" and d1: "dir_at s0 fp0 k fp s1"
    and one: "\<And>i. i < 32 \<Longrightarrow> buffer s1 (word_of_int (sint (currentByte fp) smod 512) + word_of_nat i) =
       file_byte s0 (startCluster fp0) (32 * k + i)"
    using dir_fetch [OF assms] by blast
  have bytes: "map (\<lambda>i. buffer s1 (word_of_int (sint (currentByte fp) smod 512) + word_of_nat i)) [0..<32] =
      dir_entry s0 (startCluster fp0) k"
    unfolding dir_entry_def by (rule map_block) (rule one)
  note h1 = dir_at_handle [OF assms(1) d1 k(1)]
  have "uint (f_pos fp) = int (32 * k)" using h(4) by (metis uint_nat)
  then have u: "uint (f_pos fp) + 32 = int (32 * Suc k)" by simp
  have "to_long (0 + int (32 * Suc k)) = int (32 * Suc k)" "to_int32 0 + int (32 * Suc k) = int (32 * Suc k)"
    using n k by (simp_all add: to_long_small to_int32_def)
  from tf_fseek_at [OF _ h1(1) h1(5) [OF k(2)] _ this] n k(2) d1
  obtain s2 where s2: "tf_fseek fp 0 (int (32 * Suc k)) s1 = (0, at_pos s1 fp (32 * Suc k), s2)" "cache_ok s2" "same_view s1 s2"
    by (auto simp: h(2) dir_at_def)
  have "tf_fread 32 fp s = ((32, dir_entry s0 (startCluster fp0) k), at_pos s1 fp (32 * Suc k), s2)"
    by (subst tf_fread.simps) (simp add: f x u s2(1) [simplified] bytes tf_fread_0 Let_def)
  then show ?thesis using h1(7) [OF k(2)] s2(2,3) d1 same_view_trans
    by (auto simp: read_entry_def dir_at_def)
qed

section \<open>The scan of the entries\<close>

text \<open>
  What \<open>tf_compare_filename\<close> amounts to on the entries \<open>ent\<close>, from number \<open>k\<close>: its result and the
  entry the handle stands before afterwards.
\<close>

definition compare_at :: "(nat \<Rightarrow> u8 list) \<Rightarrow> u8 list \<Rightarrow> nat \<Rightarrow> int \<times> nat" where
  "compare_at ent nm k =
     (let m = unat (lfn_number (ent k ! 0)) in
      if ent k ! 0 = 0 then (- 1, Suc k)
      else if e_attributes (msdos (ent k)) \<noteq> TF_ATTR_LONG_NAME then
        (if tf_compare_filename_segment (ent k) nm = 1 then (1, k) else (0, Suc k))
      else if ent k ! 0 AND 0xc0 = 0x40 then
        (if (length nm + 12) div 13 = m \<and>
            (\<forall>i < m. tf_compare_filename_segment (ent (k + m - 1 - i)) (drop (13 * i) nm) \<noteq> 0)
         then 1 else 0, k + max m 1)
      else (- 1, Suc k))"

text \<open>The search of a directory of which \<open>n\<close> entries are known.\<close>

function scan_from :: "(nat \<Rightarrow> u8 list) \<Rightarrow> u8 list \<Rightarrow> nat \<Rightarrow> nat \<Rightarrow> (int \<times> nat) option" where
  "scan_from ent nm n k =
     (if k < n then
        (let (rc, k') = compare_at ent nm k in
         if k' > n then None
         else if rc < 0 then Some (- 1, k')
         else if rc = 1 then Some (0, k')
         else scan_from ent nm n k')
      else None)"
  by pat_completeness auto
termination
  by (relation "measure (\<lambda>(ent, nm, n, k). n - k)") (auto simp: compare_at_def Let_def split: if_splits)

declare scan_from.simps [simp del]

lemma dir_entry_length [simp]: "length (dir_entry s start k) = 32"
  by (simp add: dir_entry_def)

lemma dir_at_fp: "dir_at s0 fp0 k fp s \<Longrightarrow> fp = at_pos s0 fp0 (32 * k)"
  by (simp add: dir_at_def)

lemma ucast_mult32: "j < 65536 \<Longrightarrow> (ucast (32 * word_of_nat j :: u32) :: u64) = word_of_int (32 * int j)"
proof -
  assume "j < 65536"
  then have "32 * j mod 2 ^ 32 = 32 * j" by simp
  moreover have "(32 * word_of_nat j :: u32) = word_of_nat (32 * j)" by simp
  ultimately have "unat (32 * word_of_nat j :: u32) = 32 * j" by (simp only: unat_of_nat len_of_numeral_defs) simp
  then have "uint (32 * word_of_nat j :: u32) = 32 * int j" by (metis of_nat_mult of_nat_numeral uint_nat)
  then show ?thesis by (simp add: ucast_eq)
qed

lemma sint_u32_diff:
  assumes "k \<le> m" "m < 65536"
  shows "sint (word_of_nat m - word_of_nat k :: u32) = int m - int k"
proof -
  have "(word_of_nat m - word_of_nat k :: u32) = word_of_int (int m - int k)" by (simp add: wi_hom_syms)
  then have "sint (word_of_nat m - word_of_nat k :: u32) = signed_take_bit 31 (int m - int k)"
    by (simp only: signed_of_int) simp
  also have "\<dots> = int m - int k" using assms by (intro signed_take_bit_int_eq_self) simp_all
  finally show ?thesis .
qed

lemma lfn_match_loop_spec:
  fixes k0 m :: nat
  assumes d: "dir_ok s0 fp0 n" and "k0 + m \<le> n" "m < 65536" and ent: "ent = dir_entry s0 (startCluster fp0)"
    and "j \<le> m" "dir_at s0 fp0 (k0 + j) fp s" "length entry \<le> 32"
  shows "\<exists>s'. lfn_match_loop j (word_of_nat m) nm entry fp s =
      Inr (if \<forall>i < j. tf_compare_filename_segment (ent (k0 + j - 1 - i)) (drop (13 * i) nm) \<noteq> 0 then 1 else 0,
           at_pos s0 fp0 (32 * (k0 + m)), s') \<and>
    dir_at s0 fp0 (k0 + m) (at_pos s0 fp0 (32 * (k0 + m))) s'"
  using assms(5-)
proof (induction j arbitrary: nm entry fp s)
  case 0
  then show ?case
    using dir_seek [OF d 0(2), of "k0 + m" "int m" "ucast (32 * word_of_nat m :: u32)"] assms(2,3)
    by (auto simp: ucast_mult32)
next
  case (Suc j)
  let ?P = "\<lambda>j. at_pos s0 fp0 (32 * (k0 + j))"
  have le: "k0 + Suc j \<le> n" "k0 + j < n" "k0 + j \<le> n" using Suc.prems(1) assms(2) by simp_all
  obtain s1 where s1: "seek_by (- 32) fp s = (?P j, s1)" "dir_at s0 fp0 (k0 + j) (?P j) s1"
    using dir_seek [OF d Suc.prems(2) le(1), of "k0 + j" "- 1" "- 32"] le by auto
  obtain s2 where s2: "read_entry (?P j) s1 = (ent (k0 + j), ?P (Suc j), s2)" "dir_at s0 fp0 (k0 + Suc j) (?P (Suc j)) s2"
    using dir_read [OF d s1(2) le(2)] by (auto simp: ent)
  have l: "ent (k0 + j) @ drop (length (ent (k0 + j))) entry = ent (k0 + j)" "length (ent (k0 + j)) \<le> 32"
    using Suc.prems(3) by (simp_all add: ent)
  show ?case
  proof (cases "tf_compare_filename_segment (ent (k0 + j)) nm = 0")
    case True
    let ?i = "word_of_nat m - word_of_nat (Suc j) :: u32"
    have "sint ?i = int m - int (Suc j)" using Suc.prems(1) assms(3) by (intro sint_u32_diff) simp_all
    then have b: "word_of_int (sint ?i) * 32 = (word_of_int (32 * (int m - int (Suc j))) :: u64)"
      by (simp only: wi_hom_mult [symmetric]) simp
    obtain s3 where "seek_by (word_of_int (sint ?i) * 32) (?P (Suc j)) s2 = (?P m, s3)" "dir_at s0 fp0 (k0 + m) (?P m) s3"
      using dir_seek [OF d s2(2) le(1), of "k0 + m" "int m - int (Suc j)" "word_of_int (sint ?i) * 32"] b assms(2)
      by auto
    then show ?thesis using True s1(1) s2(1) by (auto simp: Let_def l(1))
  next
    case False
    obtain s3 where s3: "seek_by (- 32) (?P (Suc j)) s2 = (?P j, s3)" "dir_at s0 fp0 (k0 + j) (?P j) s3"
      using dir_seek [OF d s2(2) le(1), of "k0 + j" "- 1" "- 32"] le by auto
    have e: "(\<forall>i < Suc j. tf_compare_filename_segment (ent (k0 + Suc j - 1 - i)) (drop (13 * i) nm) \<noteq> 0) =
        (\<forall>i < j. tf_compare_filename_segment (ent (k0 + j - 1 - i)) (drop (13 * i) (drop 13 nm)) \<noteq> 0)"
      using False by (auto simp: All_less_Suc2 add.commute)
    from Suc.IH [OF _ s3(2) l(2), of "drop 13 nm"] Suc.prems(1) show ?thesis
      unfolding e using False s1(1) s2(1) s3(1) by (simp add: Let_def l(1))
  qed
qed

lemma seek_too_far:
  assumes "dir_ok s0 fp0 n" "dir_at s0 fp0 k fp s" "k \<le> n" "0 < k"
  shows "seek_by (ucast (32 * (0 - 1) :: u32)) fp s = (fp, s)"
proof -
  note h = dir_at_handle [OF assms(1-3)]
  have n: "n \<le> 65536" using assms(1) by (simp add: dir_ok_def)
  have "uint (f_pos fp) = int (32 * k)" using h(4) by (metis uint_nat)
  moreover have "to_long (4294967264 + int (32 * k)) = 4294967264 + int (32 * k)"
    using n assms(3) by (intro to_long_small) simp_all
  ultimately show ?thesis using assms(4) by (simp add: seek_by_def tf_fseek_def h(2))
qed

lemma short_count: "(x :: u8) AND 0xc0 = 0x40 \<Longrightarrow> unat (lfn_number x) < 64"
proof -
  assume x: "x AND 0xc0 = 0x40"
  have "x AND 0x80 = (x AND 0xc0) AND 0x80" by (simp add: and.assoc)
  then have "x AND 0x80 = 0" unfolding x by simp
  moreover have "(NOT 0x40 :: u8) = 0x80 OR 0x3f" by code_simp
  ultimately have "x AND NOT 0x40 = x AND 0x3f" by (simp only: bit.conj_disj_distrib or.left_neutral)
  moreover have "x AND 0x3f \<le> 0x3f" by (rule word_and_le1)
  ultimately have "unat (x AND NOT 0x40) < 64" by (simp add: word_le_nat_alt)
  then show ?thesis unfolding lfn_number_def
    by (simp only: unsigned_ucast_eq) (simp add: take_bit_nat_eq_self)
qed

lemma tf_compare_filename_scan:
  assumes d: "dir_ok s0 fp0 n" and at: "dir_at s0 fp0 k fp s" and "k < n" "length nm < 65536"
    and ent: "ent = dir_entry s0 (startCluster fp0)" and c: "compare_at ent nm k = (rc, k')" "k' \<le> n"
  shows "\<exists>s'. tf_compare_filename nm fp s = Inr (rc, at_pos s0 fp0 (32 * k'), s') \<and>
    dir_at s0 fp0 k' (at_pos s0 fp0 (32 * k')) s'"
proof -
  let ?P = "\<lambda>j. at_pos s0 fp0 (32 * j)" and ?l = "lfn_number (ent k ! 0)" and ?m = "unat (lfn_number (ent k ! 0))"
  have k: "k \<le> n" "Suc k \<le> n" using assms(3) by simp_all
  obtain s1 where s1: "read_entry fp s = (ent k, ?P (Suc k), s1)" "dir_at s0 fp0 (Suc k) (?P (Suc k)) s1"
    using dir_read [OF d at assms(3)] by (auto simp: ent)
  have e: "ent k \<noteq> []" "length (ent k) = 32" "sequence_number (lfn_of (ent k)) = ent k ! 0"
    using dir_entry_length [of s0 "startCluster fp0" k] by (auto simp: ent lfn_of_def simp del: dir_entry_length)
  have retreat: "\<exists>s'. seek_by (- 32) (?P (Suc k)) s1 = (?P k, s') \<and> dir_at s0 fp0 k (?P k) s'"
    using dir_seek [OF d s1(2) k(2), of k "- 1" "- 32"] k by simp
  show ?thesis
  proof (cases "ent k ! 0 = 0 \<or> e_attributes (msdos (ent k)) \<noteq> TF_ATTR_LONG_NAME \<or> ent k ! 0 AND 0xc0 \<noteq> 0x40")
    case True
    then show ?thesis
      using s1 e c retreat by (auto simp: tf_compare_filename_def compare_at_def Let_def split: if_splits)
  next
    case False
    then have m: "?m < 64" using short_count by blast
    have l: "?l = word_of_nat ?m" by (metis of_nat_unat ucast_id)
    have len: "unat ((word_of_nat (length nm) + 12) div LFN_ENTRY_CAPACITY :: u32) = (length nm + 12) div 13"
      using assms(4) by (simp add: LFN_ENTRY_CAPACITY_def unat_div unat_word_ariths unat_of_nat)
    then have lc: "((word_of_nat (length nm) + 12) div LFN_ENTRY_CAPACITY = ?l) \<longleftrightarrow> (length nm + 12) div 13 = ?m"
      by (simp only: word_unat_eq_iff)
    have kk: "ent k ! 0 \<noteq> 0" "e_attributes (msdos (ent k)) = TF_ATTR_LONG_NAME" "ent k ! 0 AND 0xc0 = 0x40"
      using False by auto
    show ?thesis
    proof (cases "?m = 0")
      case True
      then have l0: "?l = 0" using l by simp
      have ne: "(length nm + 12) div 13 = 0 \<longleftrightarrow> nm = []" by (cases nm) (auto simp: div_eq_0_iff)
      have k': "k' = Suc k" "rc = (if length nm = 0 then 1 else 0)"
        using c(1) kk True by (auto simp: compare_at_def Let_def div_eq_0_iff split: if_splits)
      obtain s2 where s2: "seek_by 0 (?P (Suc k)) s1 = (?P (Suc k), s2)" "dir_at s0 fp0 (Suc k) (?P (Suc k)) s2"
        using dir_seek [OF d s1(2) k(2), of "Suc k" 0 0] k by auto
      show ?thesis
        using s1 s2 e kk lc True k' seek_too_far [OF d s1(2) k(2)] ne
        by (auto simp: tf_compare_filename_def Let_def l0)
    next
      case pos: False
      have k': "k' = k + ?m" using c(1) kk pos by (auto simp: compare_at_def Let_def)
      then have j: "k + ?m \<le> n" using c(2) by simp
      have "?l - 1 = word_of_nat (?m - 1)" using pos l by (simp add: of_nat_diff)
      then have "(ucast (32 * (?l - 1)) :: u64) = word_of_int (32 * int (?m - 1))"
        using m by (simp only: ucast_mult32)
      then obtain s2 where s2: "seek_by (ucast (32 * (?l - 1))) (?P (Suc k)) s1 = (?P (k + ?m), s2)"
          "dir_at s0 fp0 (k + ?m) (?P (k + ?m)) s2"
        using dir_seek [OF d s1(2) k(2), of "k + ?m" "int (?m - 1)" "ucast (32 * (?l - 1))"] j pos by auto
      show ?thesis
      proof (cases "(length nm + 12) div 13 = ?m")
        case False
        then have "rc = 0" using c(1) kk by (auto simp: compare_at_def Let_def)
        then show ?thesis using False s1 s2 e kk lc k' by (simp add: tf_compare_filename_def Let_def)
      next
        case True
        have rc: "rc = (if \<forall>i < ?m. tf_compare_filename_segment (ent (k + ?m - 1 - i)) (drop (13 * i) nm) \<noteq> 0 then 1 else 0)"
          using c(1) kk True by (auto simp: compare_at_def Let_def)
        have "?m < 65536" "length (ent k) \<le> 32" using m e(2) by simp_all
        from lfn_match_loop_spec [OF d j this(1) ent order_refl s2(2) this(2), of nm]
        obtain s3 where s3: "lfn_match_loop ?m ?l nm (ent k) (?P (k + ?m)) s2 = Inr (rc, ?P (k + ?m), s3)"
            "dir_at s0 fp0 (k + ?m) (?P (k + ?m)) s3"
          unfolding l [symmetric] rc by blast
        then show ?thesis using True s1 s2 e kk lc by (simp add: tf_compare_filename_def Let_def k')
      qed
    qed
  qed
qed

lemma find_file_loop_scan:
  assumes "dir_ok s0 fp0 n" "length nm < 65536" "ent = dir_entry s0 (startCluster fp0)"
    and "dir_at s0 fp0 k fp s" "scan_from ent nm n k = Some (rc, j)"
  shows "\<exists>s'. find_file_loop nm fp s = Some (Inr (rc, at_pos s0 fp0 (32 * j), s')) \<and>
    dir_at s0 fp0 j (at_pos s0 fp0 (32 * j)) s'"
  using assms
proof (induction ent nm n k arbitrary: fp s rule: scan_from.induct)
  case (1 ent nm n k)
  obtain rc' k' where c: "compare_at ent nm k = (rc', k')" by force
  from 1(6) c have k: "k < n" "k' \<le> n"
    by (auto simp: scan_from.simps [of ent nm n k] split: if_splits)
  obtain s' where s': "tf_compare_filename nm fp s = Inr (rc', at_pos s0 fp0 (32 * k'), s')"
      "dir_at s0 fp0 k' (at_pos s0 fp0 (32 * k')) s'"
    using tf_compare_filename_scan [OF 1(2,5) k(1) 1(3,4) c k(2)] by blast
  show ?case
  proof (cases "rc' < 0 \<or> rc' = 1")
    case True
    then show ?thesis using 1(6) c k s' 
      by (subst find_file_loop.simps) (auto simp: scan_from.simps [of ent nm n k] split: if_splits)
  next
    case False
    then have sc: "scan_from ent nm n k' = Some (rc, j)"
      using 1(6) c k by (simp add: scan_from.simps [of ent nm n k])
    have "\<exists>s''. find_file_loop nm (at_pos s0 fp0 (32 * k')) s' = Some (Inr (rc, at_pos s0 fp0 (32 * j), s'')) \<and>
        dir_at s0 fp0 j (at_pos s0 fp0 (32 * j)) s''"
      using 1(1) [OF k(1) c [symmetric] refl] False k(2) 1(2-4) s'(2) sc by simp
    then show ?thesis using False s'(1) by (subst find_file_loop.simps) simp
  qed
qed

lemma tf_find_file_at:
  assumes "cache_ok s" "handle_ok s fp" "dir_ok s fp n" "length nm < 65536"
    and "scan_from (dir_entry s (startCluster fp)) nm n 0 = Some (rc, j)"
  shows "\<exists>s'. tf_find_file fp nm s = Some (Inr (rc, at_pos s fp (32 * j), s')) \<and> cache_ok s' \<and> same_view s s'"
proof -
  have "reaches s fp 0" "0 < unat (f_size fp)" using assms(3) by (auto simp: dir_ok_def)
  moreover have "to_long (0 + 0) = int 0" "to_int32 0 + 0 = int 0" by (simp_all add: to_long_def to_int32_def)
  ultimately obtain s1 where s1: "tf_fseek fp 0 0 s = (0, at_pos s fp 0, s1)" "cache_ok s1" "same_view s s1"
    using tf_fseek_at [OF assms(1,2)] by blast
  then have "dir_at s fp 0 (at_pos s fp 0) s1" by (simp add: dir_at_def)
  from find_file_loop_scan [OF assms(3,4) refl this assms(5)] show ?thesis
    by (auto simp: tf_find_file_def s1(1) dir_at_def)
qed

text \<open>the search of a directory refines a scan of the list of its entries: it finds the entry the scan
  finds and leaves the handle before it.
\<close>

theorem tf_find_file_scan:
  assumes "cache_ok s" "handle_ok s fp" "dir_ok s fp n" "length nm < 65536"
    and "scan_from (dir_entry s (startCluster fp)) nm n 0 = Some (rc, j)"
  shows "\<exists>s'. tf_find_file fp nm s = Some (Inr (rc, at_pos s fp (32 * j), s')) \<and> cache_ok s' \<and> same_view s s'"
  using assms by (rule tf_find_file_at)

section \<open>What the comparison of an entry means\<close>

lemma toLowCase_0 [simp]: "toLowCase x = 0 \<longleftrightarrow> x = 0"
proof -
  have "x + 32 \<noteq> 0" if "x \<le> 90"
  proof
    assume "x + 32 = 0"
    then have "x = 224" by (simp add: add_eq_0_iff2)
    then show False using that by simp
  qed
  then show ?thesis by (auto simp: toLowCase_def)
qed

lemma strncasecmp_bytes_zero:
  "n \<le> length xs \<Longrightarrow> n \<le> length ys \<Longrightarrow> 0 \<notin> set (take n xs) \<Longrightarrow>
   strncasecmp_bytes n xs ys = 0 \<longleftrightarrow> map toLowCase (take n xs) = map toLowCase (take n ys)"
proof (induction n xs ys rule: strncasecmp_bytes.induct)
  case (1 n x xs y ys)
  have "(uint (toLowCase x) - uint (toLowCase y) = 0) \<longleftrightarrow> toLowCase x = toLowCase y"
    by (auto simp: word_uint_eq_iff)
  with 1 show ?case by (auto simp: Let_def)
qed auto

lemma takeWhile_pad16: "takeWhile (\<lambda>c. c \<noteq> 0) (pad16 xs) = takeWhile (\<lambda>c. c \<noteq> 0) xs"
proof -
  have "takeWhile (\<lambda>c. c \<noteq> 0) (replicate k (0 :: u8)) = []" for k by (cases k) auto
  then show ?thesis by (auto simp: pad16_def takeWhile_append takeWhile_eq_all_conv intro: sym)
qed

lemma takeWhile_until:
  "i < length xs \<Longrightarrow> xs ! i = 0 \<Longrightarrow> 0 \<notin> set (take i xs) \<Longrightarrow> takeWhile (\<lambda>c. c \<noteq> (0 :: u8)) xs = take i xs"
proof (induction xs arbitrary: i)
  case (Cons x xs)
  then show ?case by (cases i) auto
qed simp

lemma reformatted_length: "length e = 32 \<Longrightarrow> length (reformatted e) \<le> 13"
proof -
  assume e: "length e = 32"
  have "length (filter (\<lambda>c. c \<noteq> 0x20) (e_filename (msdos e))) \<le> 8"
    "length (filter (\<lambda>c. c \<noteq> 0x20) (e_extension (msdos e))) \<le> 3"
    using e by (simp_all add: msdos_def order_trans [OF length_filter_le])
  then show ?thesis by (simp add: reformatted_def Let_def lfn_of_def)
qed

text \<open>C7: the comparison of a path component with an entry of a directory answers 1 exactly when the first 13
  characters of the component are, up to case, the name the entry holds (its 13 characters of a long name, or base,
  dot and extension of a short one), and 0 otherwise.
\<close>

theorem segment_is_caseless_equality:
  assumes "length e = 32" "0 \<notin> set nm"
  shows "tf_compare_filename_segment e nm =
    (if map toLowCase (take 13 (takeWhile (\<lambda>c. c \<noteq> SLASH) nm)) =
        map toLowCase (takeWhile (\<lambda>c. c \<noteq> 0) (reformatted e)) then 1 else 0)"
proof -
  let ?r = "pad16 (reformatted e)" and ?t = "takeWhile (\<lambda>c. c \<noteq> 0) (reformatted e)"
  let ?c = "takeWhile (\<lambda>c. c \<noteq> SLASH) nm"
  have lr: "length (reformatted e) \<le> 13" by (rule reformatted_length [OF assms(1)])
  then have l16: "length ?r = 16" by (simp add: pad16_def)
  have t: "?t = takeWhile (\<lambda>c. c \<noteq> 0) ?r" by (simp add: takeWhile_pad16)
  have lt: "length ?t \<le> 13" using lr length_takeWhile_le [of _ "reformatted e"] by (rule order_trans [rotated])
  have cn: "?c = take (length ?c) nm" by (rule takeWhile_eq_take)
  have nz: "0 \<notin> set (take i (nm @ [0]))" if "i \<le> length nm" for i
    using assms(2) that by (auto dest: in_set_takeD)
  have cmp: "strncasecmp_bytes i (nm @ [0]) ?r = 0 \<longleftrightarrow> map toLowCase (take i nm) = map toLowCase (take i ?r)"
    if "i \<le> length nm" "i \<le> 16" for i
    using strncasecmp_bytes_zero [of i "nm @ [0]" ?r] nz [OF that(1)] that l16 by simp
  have same: "map toLowCase xs = map toLowCase ys \<Longrightarrow> 0 \<notin> set xs \<Longrightarrow> 0 \<notin> set ys" for xs ys
    by (metis (mono_tags, lifting) image_iff set_map toLowCase_0)
  have all: "?t = take (length ?t) ?r" unfolding t by (rule takeWhile_eq_take)
  have endt: "?r ! length ?t = 0"
    using nth_length_takeWhile [of "\<lambda>c. c \<noteq> 0" ?r] lt l16 by (simp add: t)
  show ?thesis
  proof (cases "length ?c > 13")
    case True
    then have ln: "13 \<le> length nm" using length_takeWhile_le [of _ nm] by (meson less_imp_le order_trans)
    have "take 13 ?c = take 13 nm" using True by (subst cn) simp
    moreover have "map toLowCase (take 13 nm) = map toLowCase (take 13 ?r) \<longleftrightarrow> map toLowCase (take 13 nm) = map toLowCase ?t"
    proof
      assume m: "map toLowCase (take 13 nm) = map toLowCase (take 13 ?r)"
      have "0 \<notin> set (take 13 nm)" using assms(2) by (auto dest: in_set_takeD)
      then have "0 \<notin> set (take 13 ?r)" by (rule same [OF m])
      then have "length ?t \<noteq> i" if "i < 13" for i using endt that l16 by (auto simp: in_set_conv_nth)
      then have "\<not> length ?t < 13" by blast
      then have "length ?t = 13" using lt by simp
      then show "map toLowCase (take 13 nm) = map toLowCase ?t" using m all by metis
    next
      assume m: "map toLowCase (take 13 nm) = map toLowCase ?t"
      then have "length ?t = 13" using ln by (metis length_map length_take min.absorb2)
      then show "map toLowCase (take 13 nm) = map toLowCase (take 13 ?r)" using m all by metis
    qed
    ultimately show ?thesis using True cmp [OF ln] by (simp add: tf_compare_filename_segment_def Let_def)
  next
    case False
    let ?i = "length ?c"
    have il: "?i \<le> length nm" by (rule length_takeWhile_le)
    have "?r ! ?i = 0 \<and> map toLowCase (take ?i nm) = map toLowCase (take ?i ?r) \<longleftrightarrow> map toLowCase ?c = map toLowCase ?t"
    proof
      assume m: "?r ! ?i = 0 \<and> map toLowCase (take ?i nm) = map toLowCase (take ?i ?r)"
      have "0 \<notin> set (take ?i nm)" using assms(2) by (auto dest: in_set_takeD)
      then have "0 \<notin> set (take ?i ?r)" using m same by blast
      then have "?t = take ?i ?r" unfolding t using m False l16 by (intro takeWhile_until) simp_all
      then show "map toLowCase ?c = map toLowCase ?t" using m cn by simp
    next
      assume m: "map toLowCase ?c = map toLowCase ?t"
      then have "?i = length ?t" by (metis length_map)
      then show "?r ! ?i = 0 \<and> map toLowCase (take ?i nm) = map toLowCase (take ?i ?r)"
        using m endt all cn by metis
    qed
    then show ?thesis using False cmp [OF il] by (auto simp: tf_compare_filename_segment_def Let_def)
  qed
qed

section \<open>One step along a path\<close>

text \<open>The string after an optional leading slash, and what is left after the next component.\<close>

definition unslash :: "u8 list \<Rightarrow> u8 list" where
  "unslash cs = (case cs of c # cs' \<Rightarrow> if c = SLASH then cs' else cs | [] \<Rightarrow> [])"

definition after_component :: "u8 list \<Rightarrow> u8 list" where
  "after_component cs = unslash (dropWhile (\<lambda>c. c \<noteq> SLASH) cs)"

lemma scan_from_bounds:
  "scan_from ent nm n k = Some (rc, j) \<Longrightarrow> j \<le> n \<and> (rc = 0 \<or> rc = - 1)"
proof (induction ent nm n k rule: scan_from.induct)
  case (1 ent nm n k)
  then show ?case
    by (auto simp: scan_from.simps [of ent nm n k] split: if_splits prod.splits) 
qed

lemma tf_walk_at:
  assumes "cache_ok s" "handle_ok s fp" "dir_ok s fp n" "length path < 65536" "unslash path \<noteq> []"
    and "scan_from (dir_entry s (startCluster fp)) (unslash path) n 0 = Some (rc, j)" "j < n"
  shows "\<exists>s'. tf_walk path fp s = Some (Inr
      (if rc = 0 then
         (if after_component (unslash path) = [] then None else Some (after_component (unslash path)),
          enter_entry (dir_entry s (startCluster fp) j) (at_pos s fp (32 * Suc j)), s')
       else (None, (at_pos s fp (32 * j))\<lparr>f_flags := 0xff\<rparr>, s'))) \<and>
    cache_ok s' \<and> same_view s s'"
proof -
  have p: "(case path of c # cs \<Rightarrow> if c = SLASH then cs else path | [] \<Rightarrow> []) = unslash path"
    by (simp add: unslash_def split: list.splits)
  have "length (unslash path) < 65536" using assms(4) by (auto simp: unslash_def split: list.splits)
  then obtain s1 where s1: "tf_find_file fp (unslash path) s = Some (Inr (rc, at_pos s fp (32 * j), s1))"
      "cache_ok s1" "same_view s s1"
    using tf_find_file_at [OF assms(1-3) _ assms(6)] by blast
  then have at: "dir_at s fp j (at_pos s fp (32 * j)) s1" by (simp add: dir_at_def)
  obtain s2 where s2: "read_entry (at_pos s fp (32 * j)) s1 =
      (dir_entry s (startCluster fp) j, at_pos s fp (32 * Suc j), s2)" "cache_ok s2" "same_view s s2"
    using dir_read [OF assms(3) at assms(7)] by (auto simp: dir_at_def)
  have a: "(case dropWhile (\<lambda>c. c \<noteq> SLASH) cs of c # cs \<Rightarrow> cs | [] \<Rightarrow> []) = after_component cs" for cs
  proof (cases "dropWhile (\<lambda>c. c \<noteq> SLASH) cs")
    case (Cons c cs')
    then have "c = SLASH" by (simp add: dropWhile_eq_Cons_conv)
    then show ?thesis unfolding after_component_def unslash_def Cons by simp
  next
    case Nil
    show ?thesis unfolding after_component_def unslash_def Nil by simp
  qed
  show ?thesis
    unfolding tf_walk_def Let_def p a
    using assms(5) s1 s2 by (cases "rc = 0") (simp_all add: opt_bnd_def)
qed


text \<open>
  one step along a path enters the entry the search found, with its cluster, size and attributes,
  and returns the rest of the path.
\<close>

theorem tf_walk_enters:
  assumes "cache_ok s" "handle_ok s fp" "dir_ok s fp n" "length path < 65536" "unslash path \<noteq> []"
    and "scan_from (dir_entry s (startCluster fp)) (unslash path) n 0 = Some (rc, j)" "j < n"
  shows "\<exists>s'. tf_walk path fp s = Some (Inr
      (if rc = 0 then
         (if after_component (unslash path) = [] then None else Some (after_component (unslash path)),
          enter_entry (dir_entry s (startCluster fp) j) (at_pos s fp (32 * Suc j)), s')
       else (None, (at_pos s fp (32 * j))\<lparr>f_flags := 0xff\<rparr>, s'))) \<and>
    cache_ok s' \<and> same_view s s'"
  using assms by (rule tf_walk_at)

section \<open>Whole paths\<close>

text \<open>
  The handle a path leads to from a directory's handle, on the entries the directories show: at
  every level the search finds a component before the \<open>n\<close> entries that are known end.
\<close>

inductive leads :: "tfinfo \<Rightarrow> u8 list \<Rightarrow> TFFile \<Rightarrow> TFFile \<Rightarrow> bool" for s where
  leads_file: "dir_ok s fp n \<Longrightarrow> handle_ok s fp \<Longrightarrow> unslash path \<noteq> [] \<Longrightarrow> after_component (unslash path) = [] \<Longrightarrow>
    scan_from (dir_entry s (startCluster fp)) (unslash path) n 0 = Some (0, j) \<Longrightarrow> j < n \<Longrightarrow>
    leads s path fp (enter_entry (dir_entry s (startCluster fp) j) (at_pos s fp (32 * Suc j)))"
| leads_dir: "dir_ok s fp n \<Longrightarrow> handle_ok s fp \<Longrightarrow> unslash path \<noteq> [] \<Longrightarrow> after_component (unslash path) \<noteq> [] \<Longrightarrow>
    scan_from (dir_entry s (startCluster fp)) (unslash path) n 0 = Some (0, j) \<Longrightarrow> j < n \<Longrightarrow>
    leads s (after_component (unslash path))
      (enter_entry (dir_entry s (startCluster fp) j) (at_pos s fp (32 * Suc j))) fp' \<Longrightarrow>
    leads s path fp fp'"

lemma compare_at_cong:
  assumes "\<forall>i < n. ent i = ent' i" "k < n" "compare_at ent nm k = (rc, k')" "k' \<le> n"
  shows "compare_at ent' nm k = (rc, k')"
proof -
  let ?m = "unat (lfn_number (ent k ! 0))"
  have k: "ent' k = ent k" using assms(1,2) by simp
  have c: "(\<forall>i < ?m. tf_compare_filename_segment (ent' (k + ?m - 1 - i)) (drop (13 * i) nm) \<noteq> 0) =
      (\<forall>i < ?m. tf_compare_filename_segment (ent (k + ?m - 1 - i)) (drop (13 * i) nm) \<noteq> 0)" if "k + ?m \<le> n"
  proof -
    have "ent' (k + ?m - 1 - i) = ent (k + ?m - 1 - i)" if "i < ?m" for i
    proof -
      have "k + ?m - 1 - i < n" using \<open>k + ?m \<le> n\<close> that by linarith
      then show ?thesis using assms(1) by simp
    qed
    then show ?thesis by metis
  qed
  have "k' = k + max ?m 1" if "ent k ! 0 \<noteq> 0" "e_attributes (msdos (ent k)) = TF_ATTR_LONG_NAME" "ent k ! 0 AND 0xc0 = 0x40"
    using assms(3) that by (simp add: compare_at_def Let_def)
  then show ?thesis using assms(3,4) c by (auto simp: compare_at_def Let_def k split: if_splits)
qed

lemma compare_at_next:
  "ent k = ent' k \<Longrightarrow> snd (compare_at ent nm k) = snd (compare_at ent' nm k)"
  by (simp add: compare_at_def Let_def)

lemma scan_from_cong:
  assumes "\<forall>i < n. ent i = ent' i"
  shows "scan_from ent nm n k = scan_from ent' nm n k"
proof (induction "n - k" arbitrary: k rule: less_induct)
  case less
  obtain rc k' where c: "compare_at ent nm k = (rc, k')" by force
  obtain rc2 k2 where c2: "compare_at ent' nm k = (rc2, k2)" by force
  show ?case
  proof (cases "k < n")
    case True
    then have "k2 = k'" using compare_at_next [of ent k ent' nm] assms c c2 by simp
    moreover have "k' \<le> n \<Longrightarrow> rc2 = rc" using compare_at_cong [OF assms True c] c2 by simp
    moreover have "rc = 0 \<Longrightarrow> k < k'" using c by (auto simp: compare_at_def Let_def split: if_splits)
    moreover have "rc = 0 \<or> rc = 1 \<or> rc < 0" using c by (auto simp: compare_at_def Let_def split: if_splits)
    ultimately show ?thesis
      using True c c2 less [of k'] by (auto simp: scan_from.simps [of _ _ _ k])
  qed (simp add: scan_from.simps [of _ _ _ k])
qed

lemma same_view_dir_ok: "same_view s s' \<Longrightarrow> dir_ok s fp n \<Longrightarrow> dir_ok s' fp n"
  using same_view_reaches same_view_pos_sector
  by (auto simp: dir_ok_def) (auto simp: same_view_def same_geometry_def)

lemma same_view_dir_entry:
  assumes "same_view s s'" "dir_ok s fp n" "k < n"
  shows "dir_entry s' (startCluster fp) k = dir_entry s (startCluster fp) k"
  unfolding dir_entry_def using assms
  by (intro map_cong refl same_view_file_byte) (auto simp: dir_ok_def)

lemma walk_path_leads:
  assumes "leads s path fp fp'" "length path < 65536" "cache_ok s1" "same_view s s1"
  shows "\<exists>s'. walk_path path fp s1 = Some (Inr (True, fp', s')) \<and> cache_ok s' \<and> same_view s s'"
  using assms
proof (induction arbitrary: s1 rule: leads.induct)
  case (leads_file fp n path j)
  note st = leads_file(8,9)
  let ?fp = "at_pos s fp (32 * Suc j)" and ?e = "dir_entry s (startCluster fp) j"
  have r: "reaches s fp (32 * Suc j)" using leads_file(1,6) by (simp add: dir_ok_def)
  have sc: "scan_from (dir_entry s1 (startCluster fp)) (unslash path) n 0 = Some (0, j)"
    using scan_from_cong [of n "dir_entry s1 (startCluster fp)"] same_view_dir_entry [OF st(2) leads_file(1)] leads_file(5) by metis
  from tf_walk_at [OF st(1) same_view_handle_ok [OF st(2) leads_file(2)] same_view_dir_ok [OF st(2) leads_file(1)]
      leads_file(7,3) sc leads_file(6)]
  obtain s2 where s2: "tf_walk path fp s1 = Some (Inr (None, enter_entry ?e ?fp, s2))" "cache_ok s2" "same_view s1 s2"
    using same_view_at_pos [OF st(2) r] same_view_dir_entry [OF st(2) leads_file(1,6)] leads_file(4) by auto
  have "f_flags (enter_entry ?e ?fp) \<noteq> 0xff" by (simp add: enter_entry_def Let_def TF_FLAG_OPEN_def)
  with s2 same_view_trans [OF st(2) s2(3)] show ?case by (subst walk_path.simps) simp
next
  case (leads_dir fp n path j fp')
  note st = leads_dir(10,11)
  let ?fp = "at_pos s fp (32 * Suc j)" and ?e = "dir_entry s (startCluster fp) j"
  have r: "reaches s fp (32 * Suc j)" using leads_dir(1,6) by (simp add: dir_ok_def)
  have sc: "scan_from (dir_entry s1 (startCluster fp)) (unslash path) n 0 = Some (0, j)"
    using scan_from_cong [of n "dir_entry s1 (startCluster fp)"] same_view_dir_entry [OF st(2) leads_dir(1)] leads_dir(5) by metis
  from tf_walk_at [OF st(1) same_view_handle_ok [OF st(2) leads_dir(2)] same_view_dir_ok [OF st(2) leads_dir(1)]
      leads_dir(9,3) sc leads_dir(6)]
  obtain s2 where s2: "tf_walk path fp s1 =
      Some (Inr (Some (after_component (unslash path)), enter_entry ?e ?fp, s2))" "cache_ok s2" "same_view s1 s2"
    using same_view_at_pos [OF st(2) r] same_view_dir_entry [OF st(2) leads_dir(1,6)] leads_dir(4) by auto
  have "length (after_component cs) \<le> length cs" "length (unslash cs) \<le> length cs" for cs
    using length_dropWhile_le [of "\<lambda>c. c \<noteq> SLASH" cs]
    by (auto simp: after_component_def unslash_def split: list.splits)
  then have l: "length (after_component (unslash path)) < 65536" using leads_dir(9) by (meson order_le_less_trans order_trans)
  have "f_flags (enter_entry ?e ?fp) \<noteq> 0xff" by (simp add: enter_entry_def Let_def TF_FLAG_OPEN_def)
  with s2 leads_dir(8) [OF l s2(2) same_view_trans [OF st(2) s2(3)]] show ?case
    by (subst walk_path.simps) simp
qed

section \<open>A small directory\<close>

text \<open>\<open>README.TXT\<close> as the only entry, in the first cluster of the small volume.\<close>

definition readme_entry :: "u8 list" where
  "readme_entry = [0x52, 0x45, 0x41, 0x44, 0x4D, 0x45, 0x20, 0x20, 0x54, 0x58, 0x54, 0x20,
     0, 0, 0, 0, 0, 0, 0, 0, 0, 0, 0, 0, 0, 0, 5, 0, 9, 0, 0, 0]"

definition dir_sector :: mem where
  "dir_sector a = (if unat a < 32 then readme_entry ! unat a else 0)"

definition dir_fs :: tfinfo where
  "dir_fs = small_fs\<lparr>disk := (disk small_fs)(40 := dir_sector)\<rparr>"

definition dir_file :: TFFile where
  "dir_file = small_file\<lparr>startCluster := 2, currentCluster := 2, f_attributes := TF_ATTR_DIRECTORY, f_size := 0xffffffff\<rparr>"

lemma dir_fs_first: "q < 512 \<Longrightarrow> pos_sector dir_fs 2 q = 40" "bpc dir_fs = 512"
  by (simp_all add: pos_sector_def bpc_def dir_fs_def small_fs_def tf_first_sector_def)

lemma dir_fs_byte: "q < 512 \<Longrightarrow> file_byte dir_fs 2 q = dir_sector (word_of_nat q)"
  by (simp add: file_byte_def dir_fs_first) (simp add: view_def dir_fs_def small_fs_def dev_sector_low low_def)

lemma dir_fs_entry: "dir_entry dir_fs 2 0 = readme_entry"
proof -
  have "dir_entry dir_fs 2 0 = map (\<lambda>q. dir_sector (word_of_nat q)) [0..<32]"
    unfolding dir_entry_def mult_0_right add_0 by (intro map_cong refl dir_fs_byte) simp
  then show ?thesis
    by (simp add: dir_sector_def readme_entry_def upt_rec unat_of_nat)
qed

lemma dir_fs_ok: "cache_ok dir_fs" "handle_ok dir_fs dir_file" "dir_ok dir_fs dir_file 4"
proof -
  show "cache_ok dir_fs" using small_cache by (simp add: cache_ok_def dir_fs_def small_fs_def)
  have l: "links dir_fs 2 0" by (simp add: links_def TF_MARK_EOC32_def)
  then show "handle_ok dir_fs dir_file"
    by (simp add: handle_ok_def dir_file_def small_file_def) (simp add: dir_fs_def small_fs_def)
  have "reaches dir_fs dir_file q \<and> low (pos_sector dir_fs 2 q)" if "q \<le> 128" for q
    using that l by (simp add: reaches_def dir_fs_first dir_file_def small_file_def low_def)
  then show "dir_ok dir_fs dir_file 4"
    by (simp add: dir_ok_def) (simp add: dir_file_def small_file_def dir_fs_def small_fs_def)
qed

definition readme_name :: "u8 list" where
  "readme_name = [0x72, 0x65, 0x61, 0x64, 0x6D, 0x65, 0x2E, 0x74, 0x78, 0x74]"

lemma dir_fs_scan: "scan_from (dir_entry dir_fs (startCluster dir_file)) readme_name 4 0 = Some (0, 0)"
proof -
  have e: "readme_entry ! 0 \<noteq> 0" "e_attributes (msdos readme_entry) \<noteq> TF_ATTR_LONG_NAME"
    "tf_compare_filename_segment readme_entry readme_name = 1"
    by code_simp+
  then show ?thesis
    by (simp add: scan_from.simps [of _ _ _ 0] compare_at_def dir_file_def small_file_def dir_fs_entry Let_def)
qed

theorem tf_find_file_scan_witness:
  "\<exists>s'. tf_find_file dir_file readme_name dir_fs = Some (Inr (0, at_pos dir_fs dir_file (32 * 0), s')) \<and>
    cache_ok s' \<and> same_view dir_fs s'"
  using tf_find_file_scan [OF dir_fs_ok _ dir_fs_scan] by (simp add: readme_name_def)

theorem segment_is_caseless_equality_witness:
  "tf_compare_filename_segment readme_entry readme_name = 1"
  by (subst segment_is_caseless_equality) code_simp+

theorem tf_walk_enters_witness:
  "\<exists>s'. tf_walk (SLASH # readme_name) dir_file dir_fs = Some (Inr (None, enter_entry readme_entry
      (at_pos dir_fs dir_file 32), s')) \<and> cache_ok s' \<and> same_view dir_fs s'"
proof -
  have r: "unslash (SLASH # readme_name) = readme_name" "after_component readme_name = []" "readme_name \<noteq> []"
    by code_simp+
  have "dir_entry dir_fs (startCluster dir_file) 0 = readme_entry"
    using dir_fs_entry by (simp add: dir_file_def small_file_def)
  with tf_walk_enters [OF dir_fs_ok, of "SLASH # readme_name" 0 0, unfolded r, OF _ r(3) dir_fs_scan]
  show ?thesis by (simp add: readme_name_def)
qed

end
