(* ===== verification/FatWrite.thy ===== *)
theory FatWrite
  imports FatDir
begin

text \<open>
  Changing the volume, \<open>fs/fat32.cpp\<close>: writing and flushing files, short names, creating and
  removing files and directories.

  The call \<open>either_copyin(&user, tf_info.buffer[tracking], (uint64)src, x)\<close> of \<open>tf_fwrite\<close> passes its
  arguments in the wrong order: the destination is the one-byte parameter \<open>user\<close> on the stack, and
  the byte of the sector says whether \<open>src\<close> is a user address. The model follows the call: no byte
  reaches the sector, and a copy of more than one byte overruns the parameter.
\<close>

section \<open>Writing\<close>

text \<open>
  \<open>user_copy x\<close> is what \<open>copyin\<close> does for a request of \<open>x\<close> bytes at the kernel address \<open>src\<close> in the
  current process's page table: the number of bytes it stores, or \<open>None\<close> when no process is
  current (its page table is then read through a null pointer). \<open>memmove\<close> stores all \<open>x\<close>.
\<close>

definition copyin_into_user ::
    "(u64 \<Rightarrow> nat option) \<Rightarrow> u8 \<Rightarrow> u8 list \<Rightarrow> u64 \<Rightarrow> u8 \<Rightarrow> u8 res" where
  "copyin_into_user user_copy byte src x user =
     (case (if byte \<noteq> 0 then user_copy x else Some (unat x)) of
        None \<Rightarrow> null_deref
      | Some stored \<Rightarrow>
          if stored = 0 then Inr user
          else if stored = 1 then Inr (src ! 0)
          else Inl (Undef ''user''))"

partial_function (option) fwrite_loop ::
    "(u64 \<Rightarrow> nat option) \<Rightarrow> u8 \<Rightarrow> u8 list \<Rightarrow> 32 word \<Rightarrow> int \<Rightarrow> TFFile \<Rightarrow> tfinfo \<Rightarrow>
     (int \<times> TFFile \<times> tfinfo) res option" where
  "fwrite_loop user_copy user src sz n fp s =
     (if 0 < sint sz then
        (let sector = tf_first_sector (currentCluster fp) s + word_of_int (sint (currentByte fp) sdiv 512);
             (_, s) = tf_fetch sector s;
             byte = buffer s (word_of_int (sint (currentByte fp) smod 512));
             x = fread_chunk fp (sint sz)
         in case copyin_into_user user_copy byte src x user of
              Inl e \<Rightarrow> Some (Inl e)
            | Inr user \<Rightarrow>
                (let s = s\<lparr>sectorFlags := sectorFlags s OR TF_FLAG_DIRTY\<rparr>;
                     fp = (if ucast (f_pos fp) + x > ucast (f_size fp)
                           then fp\<lparr>f_flags := f_flags fp OR TF_FLAG_SIZECHANGED,
                                   f_size := ucast x + f_pos fp\<rparr>
                           else fp);
                     (rc, fp, s) = tf_unsafe_fseek fp 0 (uint (ucast (f_pos fp) + x)) s
                 in if rc \<noteq> 0 then Some (Inr (- 1, fp, s))
                    else fwrite_loop user_copy user (drop (unat x) src) (sz - ucast x) (n + uint x) fp s))
      else Some (Inr (n, fp, s)))"

definition tf_fwrite ::
    "(u64 \<Rightarrow> nat option) \<Rightarrow> bool \<Rightarrow> u8 list \<Rightarrow> 32 word \<Rightarrow> TFFile \<Rightarrow> tfinfo \<Rightarrow>
     (int \<times> TFFile \<times> tfinfo) res option" where
  "tf_fwrite user_copy user src sz fp s =
     fwrite_loop user_copy (if user then 1 else 0) src sz 0 (fp\<lparr>f_flags := f_flags fp OR TF_FLAG_DIRTY\<rparr>) s"

definition tf_fputs ::
    "(u64 \<Rightarrow> nat option) \<Rightarrow> u8 list \<Rightarrow> TFFile \<Rightarrow> tfinfo \<Rightarrow> (int \<times> TFFile \<times> tfinfo) res option" where
  "tf_fputs user_copy src fp s = tf_fwrite user_copy False src (word_of_nat (length src)) fp s"

section \<open>Working on a handle\<close>

text \<open>
  An operation on the file behind a pointer; a null pointer and \<open>(TFFile *)-1\<close> are not addresses
  of the kernel.
\<close>

definition on_handle ::
    "tf_ptr \<Rightarrow> (TFFile \<Rightarrow> tfinfo \<Rightarrow> ('r \<times> TFFile \<times> tfinfo) res option) \<Rightarrow> Fat32FileSystem \<Rightarrow>
     ('r \<times> Fat32FileSystem) res option" where
  "on_handle p f fs =
     (case p of
        Handle h \<Rightarrow>
          opt_bnd (f (tf_file_handles fs ! h) (tf_info fs)) (\<lambda>(r, fp, s).
            Some (settled s (Inr (r, fs\<lparr>tf_info := s, tf_file_handles := (tf_file_handles fs)[h := fp]\<rparr>))))
      | _ \<Rightarrow> Some null_deref)"

text \<open>The offset of the last slash, which the code takes from \<open>strrchr\<close> without testing it.\<close>

definition last_slash :: "u8 list \<Rightarrow> nat option" where
  "last_slash cs =
     (if SLASH \<in> set cs then Some (length cs - 1 - length (takeWhile (\<lambda>c. c \<noteq> SLASH) (rev cs))) else None)"

section \<open>Flushing and closing\<close>

text \<open>
  \<open>tf_parent\<close> without \<open>mkParents\<close>: the difference of a null \<open>strrchr\<close> and the path has no meaning.
\<close>

definition parent_open :: "u8 list \<Rightarrow> Fat32FileSystem \<Rightarrow> (tf_ptr \<times> Fat32FileSystem) res option" where
  "parent_open filename fs =
     (case last_slash filename of
        None \<Rightarrow> Some (Inl (Undef ''strrchr''))
      | Some f2 \<Rightarrow> tf_fnopen filename ''rw'' (int f2) fs)"

text \<open>The part of \<open>tf_fflush\<close> that rewrites the directory entry of a file, up to \<open>tf_fclose(dir)\<close>.\<close>

definition update_entry ::
    "(u64 \<Rightarrow> nat option) \<Rightarrow> u8 list \<Rightarrow> u32 \<Rightarrow> tf_ptr \<Rightarrow> Fat32FileSystem \<Rightarrow> Fat32FileSystem res option" where
  "update_entry user_copy nm sz dir fs =
     map_option (\<lambda>r. bnd r (\<lambda>(_, fs). Inr fs)) (on_handle dir (\<lambda>fp s.
       opt_bnd (tf_find_file fp nm s) (\<lambda>(_, fp, s).
         (let (entry, fp, s) = read_entry fp s;
              (fp, s) = seek_by (- 32) fp s
          in tf_fwrite user_copy False (take 28 entry @ bytes32 (sz - 1)) 32 fp s))) fs)"

text \<open>\<open>tf_fflush\<close>; the call of \<open>tf_fclose\<close> for the directory is written out.\<close>

definition close_flags :: "nat \<Rightarrow> Fat32FileSystem \<Rightarrow> Fat32FileSystem" where
  "close_flags h fs = fs\<lparr>tf_file_handles := tf_release_handle h (tf_file_handles fs)\<rparr>"

definition clear_flag :: "u8 \<Rightarrow> nat \<Rightarrow> Fat32FileSystem \<Rightarrow> Fat32FileSystem" where
  "clear_flag m h fs = fs\<lparr>tf_file_handles := (tf_file_handles fs)[h := (tf_file_handles fs ! h)
     \<lparr>f_flags := f_flags (tf_file_handles fs ! h) AND NOT m\<rparr>]\<rparr>"

definition flush_cache :: "Fat32FileSystem \<Rightarrow> (int \<times> Fat32FileSystem) res" where
  "flush_cache fs =
     (if sectorFlags (tf_info fs) AND TF_FLAG_DIRTY \<noteq> 0
      then (let (rc, s) = tf_store (tf_info fs) in settled s (Inr (rc, fs\<lparr>tf_info := s\<rparr>)))
      else Inr (0, fs))"

partial_function (option) tf_fflush ::
    "(u64 \<Rightarrow> nat option) \<Rightarrow> nat \<Rightarrow> Fat32FileSystem \<Rightarrow> (int \<times> Fat32FileSystem) res option" where
  "tf_fflush user_copy h fs =
     (let fp = tf_file_handles fs ! h in
      if f_flags fp AND TF_FLAG_DIRTY = 0 then Some (Inr (0, fs))
      else
        opt_bnd (Some (flush_cache fs)) (\<lambda>(rc, fs).
         if f_flags fp AND TF_FLAG_SIZECHANGED = 0 then Some (Inr (rc, clear_flag TF_FLAG_DIRTY h fs))
         else if f_attributes fp AND 0x10 \<noteq> 0 then
           Some (Inr (rc, clear_flag TF_FLAG_DIRTY h (clear_flag TF_FLAG_SIZECHANGED h fs)))
         else
           opt_bnd (parent_open (f_filename fp) fs) (\<lambda>(dir, fs).
             if dir = No_handle then Some (Inr (- 1, fs))
             else
               (case (dir, last_slash (f_filename fp)) of
                  (Handle d, Some f2) \<Rightarrow>
                    opt_bnd (update_entry user_copy (drop (Suc f2) (f_filename fp)) (f_size fp) dir fs) (\<lambda>fs.
                    opt_bnd (tf_fflush user_copy d fs) (\<lambda>(_, fs).
                      Some (Inr (rc, clear_flag TF_FLAG_DIRTY h
                        (clear_flag TF_FLAG_SIZECHANGED h (close_flags d fs))))))
                | _ \<Rightarrow> Some null_deref))))"

definition tf_fclose ::
    "(u64 \<Rightarrow> nat option) \<Rightarrow> tf_ptr \<Rightarrow> Fat32FileSystem \<Rightarrow> (int \<times> Fat32FileSystem) res option" where
  "tf_fclose user_copy p fs =
     (case p of
        Handle h \<Rightarrow> opt_bnd (tf_fflush user_copy h fs) (\<lambda>(rc, fs). Some (Inr (rc, close_flags h fs)))
      | _ \<Rightarrow> Some null_deref)"

section \<open>Short names\<close>

definition upper :: "u8 \<Rightarrow> u8" where
  "upper c = (if c \<ge> 0x61 \<and> c \<le> 0x7A then c + (0x41 - 0x61) else c)"

text \<open>The characters \<open>tf_shorten_filename\<close> keeps; the others it skips.\<close>

definition sfn_char :: "u8 \<Rightarrow> bool" where
  "sfn_char c \<longleftrightarrow> c < 0x7f \<and> c > 20 \<and>
     c \<notin> {0x22, 0x2a, 0x2e, 0x2f, 0x3a, 0x3c, 0x3e, 0x3f, 0x5b, 0x5c, 0x5d, 0x7c}"

fun sfn_ext :: "nat \<Rightarrow> u8 list \<Rightarrow> u8 list" where
  "sfn_ext 0 tmp = []"
| "sfn_ext (Suc k) tmp =
     (case dropWhile (\<lambda>c. \<not> sfn_char c) tmp of
        [] \<Rightarrow> 0x20 # sfn_ext k []
      | c # cs \<Rightarrow> upper c # sfn_ext k cs)"

text \<open>
  The loop over the base name with \<open>k\<close> bytes to go; \<open>dot\<close> is the length of the string from the
  last dot on, when there is one: the pointers \<open>src\<close> and \<open>tmp\<close> are equal when these lengths are.
\<close>

fun sfn_base :: "nat \<Rightarrow> u8 list \<Rightarrow> nat option \<Rightarrow> u8 list \<Rightarrow> u8 list" where
  "sfn_base 0 dest dot src = dest"
| "sfn_base (Suc k) dest dot src =
     (let i = 7 - k in
      if dot = Some (length src) then sfn_base k (dest[i := 0x20]) dot src
      else if dest ! 0 = 0x20 then sfn_base k dest dot src
      else
        (case dropWhile (\<lambda>c. \<not> sfn_char c) src of
           [] \<Rightarrow> sfn_base k (dest[i := 0x20]) dot []
         | c # cs \<Rightarrow>
             if c = 0x2C \<or> c = 0x5B \<or> c = 0x5D then sfn_base k (dest[i := 0x5F]) dot (c # cs)
             else sfn_base k (dest[i := upper c]) dot cs))"

definition last_dot :: "u8 list \<Rightarrow> nat option" where
  "last_dot src =
     (if 0x2E \<in> set src then Some (Suc (length (takeWhile (\<lambda>c. c \<noteq> 0x2E) (rev src)))) else None)"

definition tf_shorten_filename :: "u8 list \<Rightarrow> u8 list \<Rightarrow> u8 \<Rightarrow> u8 list" where
  "tf_shorten_filename dest src num =
     (let dot = last_dot src;
          ext = sfn_ext 3 (case dot of None \<Rightarrow> [] | Some l \<Rightarrow> drop (length src - l) src);
          dest = sfn_base 8 (take 8 dest @ ext) dot src
      in if num > 4 then dest[7 := 0x31]
         else
           (let i = length (takeWhile (\<lambda>c. c \<noteq> 0x20) (takeWhile (\<lambda>c. c \<noteq> 0) dest)) in
            if i > 6 \<or> dest ! i \<noteq> 0x20 then dest[6 := 0x7E, 7 := num + 0x30]
            else dest[i := 0x7E, Suc i := num + 0x30]))"

text \<open>The trials of \<open>tf_choose_sfn\<close> for a name \<open>src\<close>, on its copy of the directory's handle.\<close>

partial_function (option) choose_loop ::
    "u8 list \<Rightarrow> u8 list \<Rightarrow> int \<Rightarrow> TFFile \<Rightarrow> tfinfo \<Rightarrow> (u8 list \<times> tfinfo) res option" where
  "choose_loop dest src num xfile s =
     (let dest = tf_shorten_filename dest src (word_of_int num);
          temp = takeWhile (\<lambda>c. c \<noteq> 0) (take 8 dest @ [0x2E] @ take 3 (drop 8 dest))
      in opt_bnd (tf_find_file xfile temp s) (\<lambda>(rc, xfile, s).
           if rc < 0 then Some (Inr (dest, s)) else choose_loop dest src (num + 1) xfile s))"

definition tf_choose_sfn ::
    "u8 list \<Rightarrow> u8 list \<Rightarrow> TFFile \<Rightarrow> tfinfo \<Rightarrow> (u8 list \<times> tfinfo) res option" where
  "tf_choose_sfn dest src fp s = choose_loop dest src 1 fp s"

section \<open>New directory entries\<close>

text \<open>
  The long entries of a name, written one after the other. \<open>tf_place_lfn_chain\<close> reads the name and
  the short name through pointers: they are put into an otherwise empty memory.
\<close>

definition name_memory :: "u8 list \<Rightarrow> u8 list \<Rightarrow> mem" where
  "name_memory filename sfn = poke (poke (\<lambda>_. 0) 0x10 sfn) 0x1000 (filename @ [0])"

fun write_entries ::
    "(u64 \<Rightarrow> nat option) \<Rightarrow> u8 list list \<Rightarrow> TFFile \<Rightarrow> tfinfo \<Rightarrow> (TFFile \<times> tfinfo) res option" where
  "write_entries user_copy [] fp s = Some (Inr (fp, s))"
| "write_entries user_copy (e # es) fp s =
     opt_bnd (tf_fwrite user_copy False e 32 fp s) (\<lambda>(_, fp, s). write_entries user_copy es fp s)"

definition write_lfn_chain ::
    "(u64 \<Rightarrow> nat option) \<Rightarrow> u8 list \<Rightarrow> u8 list \<Rightarrow> TFFile \<Rightarrow> tfinfo \<Rightarrow> (TFFile \<times> tfinfo) res option" where
  "write_lfn_chain user_copy filename sfn fp s =
     (case tf_place_lfn_chain (name_memory filename sfn) 0x1000 0x10 (lfn_of (replicate 32 0)) of
        None \<Rightarrow> None
      | Some es \<Rightarrow> write_entries user_copy (map of_lfn es) fp s)"

text \<open>Reading entries up to the one whose first byte is zero, which is returned.\<close>

partial_function (option) skip_entries ::
    "u8 list \<Rightarrow> TFFile \<Rightarrow> tfinfo \<Rightarrow> (u8 list \<times> TFFile \<times> tfinfo) res option" where
  "skip_entries entry fp s =
     (let (bs, fp, s) = read_entry fp s;
          entry = bs @ drop (length bs) entry
      in if entry = [] then Some (Inl (Undef ''entry''))
         else if entry ! 0 \<noteq> 0 then skip_entries entry fp s
         else Some (Inr (entry, fp, s)))"

definition new_entry :: "u8 \<Rightarrow> u32 \<Rightarrow> FatFile83 \<Rightarrow> FatFile83" where
  "new_entry attributes cluster e = e\<lparr>e_attributes := attributes, e_creationTimeMs := 0x25,
     e_creationTime := 0x7e3c, e_creationDate := 0x4262, e_lastAccessTime := 0x4262,
     e_eaIndex := ucast (drop_bit 16 cluster AND 0xffff), e_modifiedTime := 0x7e3c,
     e_modifiedDate := 0x4262, e_firstCluster := ucast (cluster AND 0xffff), e_fileSize := 0\<rparr>"

text \<open>
  The part \<open>tf_create\<close> and \<open>tf_mkdir\<close> share, on the handle of the directory; \<open>nm\<close> is the last
  component of the path. The entry is handed back for \<open>tf_mkdir\<close>.
\<close>

definition add_entry ::
    "(u64 \<Rightarrow> nat option) \<Rightarrow> u8 \<Rightarrow> u8 list \<Rightarrow> TFFile \<Rightarrow> tfinfo \<Rightarrow> (u8 list \<times> TFFile \<times> tfinfo) res option" where
  "add_entry user_copy attributes nm fp s =
     opt_bnd (skip_entries [] fp s) (\<lambda>(entry, fp, s).
       (let (fp, s) = seek_by (- 32) fp s;
            (cluster, s) = tf_find_free_cluster s;
            (_, s) = tf_set_fat_entry cluster TF_MARK_EOC32 s
        in if length entry < 32 then Some (Inl (Undef ''entry''))
           else
             (let entry = of_msdos (new_entry attributes cluster (msdos entry)) in
              opt_bnd (tf_choose_sfn (take 11 entry) nm fp s) (\<lambda>(sfn, s).
                (let entry = sfn @ drop 11 entry in
                 opt_bnd (write_lfn_chain user_copy nm sfn fp s) (\<lambda>(fp, s).
                 opt_bnd (tf_fwrite user_copy False entry 32 fp s) (\<lambda>(_, fp, s).
                 opt_bnd (tf_fwrite user_copy False (replicate 32 0) 32 fp s) (\<lambda>(_, fp, s).
                   Some (Inr (entry, fp, s))))))))))"

definition tf_create ::
    "(u64 \<Rightarrow> nat option) \<Rightarrow> u8 list \<Rightarrow> Fat32FileSystem \<Rightarrow> (int \<times> Fat32FileSystem) res option" where
  "tf_create user_copy filename fs =
     opt_bnd (parent_open filename fs) (\<lambda>(p, fs).
       if p = No_file then Some (Inr (1, fs))
       else
         opt_bnd (tf_fclose user_copy p fs) (\<lambda>(_, fs).
         opt_bnd (parent_open filename fs) (\<lambda>(p, fs).
           (case last_slash filename of
              None \<Rightarrow> Some null_deref
            | Some f2 \<Rightarrow>
                opt_bnd (on_handle p (add_entry user_copy 0 (drop (Suc f2) filename)) fs) (\<lambda>(_, fs).
                opt_bnd (tf_fclose user_copy p fs) (\<lambda>(_, fs). Some (Inr (0, fs))))))))"

section \<open>Opening by path\<close>

definition DOT :: u8 where "DOT = 0x2E"

definition tf_fopen ::
    "(u64 \<Rightarrow> nat option) \<Rightarrow> u8 list \<Rightarrow> string \<Rightarrow> Fat32FileSystem \<Rightarrow> (tf_ptr \<times> Fat32FileSystem) res option" where
  "tf_fopen user_copy filename mode fs =
     (if take 4 filename = [SLASH, DOT, DOT, SLASH] then Some (Inr (No_file, fs))
      else
        (let filename = (if take 2 filename = [SLASH, DOT] then drop 2 filename else filename);
             again = (\<lambda>fs. tf_fnopen filename mode (int (length filename)) fs)
         in opt_bnd (again fs) (\<lambda>(p, fs).
              if p \<noteq> No_file then Some (Inr (p, fs))
              else if CHR ''+'' \<in> set mode \<or> CHR ''w'' \<in> set mode \<or> CHR ''a'' \<in> set mode then
                opt_bnd (tf_create user_copy filename fs) (\<lambda>(_, fs). again fs)
              else again fs)))"

section \<open>Directories\<close>

text \<open>
  \<open>tf_mkdir\<close> up to the call of \<open>tf_parent\<close>: \<open>Some rc\<close> when it returns before. Then the rest, with
  the parent's handle.
\<close>

definition mkdir_name :: "u8 list \<Rightarrow> u8 list" where
  "mkdir_name filename = (if take 3 filename = [SLASH, DOT, SLASH] then drop 2 filename else filename)"

definition mkdir_check ::
    "(u64 \<Rightarrow> nat option) \<Rightarrow> u8 list \<Rightarrow> bool \<Rightarrow> Fat32FileSystem \<Rightarrow>
     (int option \<times> Fat32FileSystem) res option" where
  "mkdir_check user_copy filename mkParents fs =
     (if take 4 (mkdir_name filename) = [SLASH, DOT, DOT, SLASH] then Some (Inr (Some 0, fs))
      else
        opt_bnd (tf_fopen user_copy (mkdir_name filename) ''r'' fs) (\<lambda>(p, fs).
          if p = No_file then Some (Inr (None, fs))
          else opt_bnd (tf_fclose user_copy p fs) (\<lambda>(_, fs).
                 Some (Inr (Some (if mkParents then 0 else 1), fs)))))"

definition mkdir_fill ::
    "(u64 \<Rightarrow> nat option) \<Rightarrow> u8 list \<Rightarrow> tf_ptr \<Rightarrow> Fat32FileSystem \<Rightarrow> (int \<times> Fat32FileSystem) res option" where
  "mkdir_fill user_copy entry p fs =
     (let named = (\<lambda>nm. nm @ replicate (11 - length nm) 0x20 @ drop 11 entry) in
      opt_bnd (on_handle p (\<lambda>fp s. opt_bnd
          (write_entries user_copy [named [DOT], named [DOT, DOT], replicate 32 0] fp s)
          (\<lambda>(fp, s). Some (Inr ((), fp, s)))) fs) (\<lambda>(_, fs).
      opt_bnd (tf_fclose user_copy p fs) (\<lambda>(_, fs). Some (Inr (0, fs)))))"

definition mkdir_rest ::
    "(u64 \<Rightarrow> nat option) \<Rightarrow> u8 list \<Rightarrow> tf_ptr \<Rightarrow> Fat32FileSystem \<Rightarrow> (int \<times> Fat32FileSystem) res option" where
  "mkdir_rest user_copy filename p fs =
     (case last_slash filename of
        None \<Rightarrow> Some null_deref
      | Some f2 \<Rightarrow>
          opt_bnd (on_handle p (add_entry user_copy TF_ATTR_DIRECTORY (drop (Suc f2) filename)) fs) (\<lambda>(entry, fs).
          opt_bnd (tf_fclose user_copy p fs) (\<lambda>(_, fs).
          opt_bnd (tf_fopen user_copy (take 255 filename) ''w'' fs) (\<lambda>(p, fs).
            mkdir_fill user_copy entry p fs))))"

text \<open>\<open>tf_parent\<close>, with the calls of \<open>tf_mkdir\<close> written out; its \<open>mode\<close> is not used.\<close>

partial_function (option) tf_parent ::
    "(u64 \<Rightarrow> nat option) \<Rightarrow> u8 list \<Rightarrow> bool \<Rightarrow> Fat32FileSystem \<Rightarrow> (tf_ptr \<times> Fat32FileSystem) res option" where
  "tf_parent user_copy filename mkParents fs =
     opt_bnd (parent_open filename fs) (\<lambda>(p, fs).
       if p = No_file \<and> mkParents then
         (case last_slash filename of
            None \<Rightarrow> Some null_deref
          | Some f2 \<Rightarrow>
              if f2 > 260 then Some (Inr (No_file, fs))
              else
                (let tmpbuf = take f2 filename in
                 opt_bnd (mkdir_check user_copy tmpbuf mkParents fs) (\<lambda>(r, fs).
                   if r \<noteq> None then tf_parent user_copy filename mkParents fs
                   else
                     opt_bnd (tf_parent user_copy (mkdir_name tmpbuf) mkParents fs) (\<lambda>(q, fs).
                       if q = No_file then tf_parent user_copy filename mkParents fs
                       else
                         opt_bnd (mkdir_rest user_copy (mkdir_name tmpbuf) q fs) (\<lambda>(_, fs).
                           tf_parent user_copy filename mkParents fs)))))
       else Some (Inr (p, fs)))"

definition tf_mkdir ::
    "(u64 \<Rightarrow> nat option) \<Rightarrow> u8 list \<Rightarrow> bool \<Rightarrow> Fat32FileSystem \<Rightarrow> (int \<times> Fat32FileSystem) res option" where
  "tf_mkdir user_copy filename mkParents fs =
     opt_bnd (mkdir_check user_copy filename mkParents fs) (\<lambda>(r, fs).
       case r of
         Some rc \<Rightarrow> Some (Inr (rc, fs))
       | None \<Rightarrow>
           opt_bnd (tf_parent user_copy (mkdir_name filename) mkParents fs) (\<lambda>(p, fs).
             if p = No_file then Some (Inr (1, fs))
             else mkdir_rest user_copy (mkdir_name filename) p fs))"

section \<open>Removing\<close>

partial_function (option) remove_loop ::
    "(u64 \<Rightarrow> nat option) \<Rightarrow> u8 list \<Rightarrow> TFFile \<Rightarrow> tfinfo \<Rightarrow> (TFFile \<times> tfinfo) res option" where
  "remove_loop user_copy entry fp s =
     (let (rc, fp, s) = tf_fseek fp 32 (uint (f_pos fp)) s in
      if rc \<noteq> 0 then Some (Inr (fp, s))
      else
        (let (bs, fp, s) = read_entry fp s;
             entry = bs @ drop (length bs) entry;
             (fp, s) = seek_by (- 96) fp s
         in opt_bnd (tf_fwrite user_copy False entry 32 fp s) (\<lambda>(_, fp, s).
              if entry = [] then Some (Inl (Undef ''entry''))
              else if entry ! 0 = 0 then Some (Inr (fp, s))
              else remove_loop user_copy entry fp s)))"

definition remove_entry ::
    "(u64 \<Rightarrow> nat option) \<Rightarrow> u8 list \<Rightarrow> TFFile \<Rightarrow> tfinfo \<Rightarrow> (unit \<times> TFFile \<times> tfinfo) res option" where
  "remove_entry user_copy nm fp s =
     opt_bnd (tf_find_file fp nm s) (\<lambda>(rc, fp, s).
       if rc \<noteq> 0 then Some (Inr ((), fp, s))
       else
         opt_bnd (remove_loop user_copy [] fp s) (\<lambda>(fp, s).
           Some (Inr ((), fp\<lparr>f_size := f_size fp - 32, f_flags := f_flags fp OR TF_FLAG_SIZECHANGED\<rparr>, s))))"

definition tf_remove ::
    "(u64 \<Rightarrow> nat option) \<Rightarrow> u8 list \<Rightarrow> Fat32FileSystem \<Rightarrow> (int \<times> Fat32FileSystem) res option" where
  "tf_remove user_copy filename fs =
     opt_bnd (tf_fopen user_copy filename ''r'' fs) (\<lambda>(p, fs).
       if p = No_file then Some (Inr (- 1, fs))
       else
         opt_bnd (on_handle p (\<lambda>fp s. Some (Inr (startCluster fp, fp, s))) fs) (\<lambda>(cluster, fs).
         opt_bnd (tf_fclose user_copy p fs) (\<lambda>(_, fs).
         opt_bnd (parent_open filename fs) (\<lambda>(q, fs).
           (case last_slash filename of
              None \<Rightarrow> Some null_deref
            | Some f2 \<Rightarrow>
                opt_bnd (on_handle q (remove_entry user_copy (drop (Suc f2) filename)) fs) (\<lambda>(_, fs).
                opt_bnd (tf_fclose user_copy q fs) (\<lambda>(_, fs).
                  map_option (\<lambda>(_, s). settled s (Inr (0, fs\<lparr>tf_info := s\<rparr>)))
                    (tf_free_clusterchain cluster (tf_info fs)))))))))"

section \<open>The methods of the file system\<close>

definition O_CREATE :: u64 where "O_CREATE = 0x200"
definition O_DIRECTORY :: u64 where "O_DIRECTORY = 0x0200000"

text \<open>
  \<open>open\<close>: the result, and the size and the kind of file it leaves in the caller's \<open>struct file\<close>.
\<close>

definition fat32_open ::
    "(u64 \<Rightarrow> nat option) \<Rightarrow> u8 list \<Rightarrow> u64 \<Rightarrow> Fat32FileSystem \<Rightarrow>
     ((int \<times> (u32 \<times> bool) option) \<times> Fat32FileSystem) res option" where
  "fat32_open user_copy filePath flags fs =
     opt_bnd (tf_fopen user_copy filePath (if flags AND O_CREATE \<noteq> 0 then ''w'' else ''r'') fs) (\<lambda>(tf, fs).
     opt_bnd (if tf = No_file \<and> flags = O_DIRECTORY
              then opt_bnd (tf_mkdir user_copy filePath False fs) (\<lambda>(_, fs). tf_fopen user_copy filePath ''r'' fs)
              else Some (Inr (tf, fs))) (\<lambda>(tf, fs).
       if tf = No_file then Some (Inr ((- 1, None), fs))
       else
         opt_bnd (on_handle tf (\<lambda>fp s. Some (Inr ((f_size fp, f_attributes fp AND TF_ATTR_DIRECTORY \<noteq> 0), fp, s))) fs)
           (\<lambda>((sz, dir), fs).
             if flags = O_DIRECTORY \<and> \<not> dir then Some (Inr ((- 1, None), fs))
             else opt_bnd (tf_fclose user_copy tf fs) (\<lambda>(_, fs). Some (Inr ((0, Some (sz, dir)), fs))))))"

definition fat32_mkdir ::
    "(u64 \<Rightarrow> nat option) \<Rightarrow> u8 list \<Rightarrow> Fat32FileSystem \<Rightarrow> (int \<times> Fat32FileSystem) res option" where
  "fat32_mkdir user_copy filepath fs = tf_mkdir user_copy filepath False fs"

text \<open>\<open>read\<close> with a kernel buffer: the number and the bytes.\<close>

definition fat32_read ::
    "(u64 \<Rightarrow> nat option) \<Rightarrow> u8 list \<Rightarrow> int \<Rightarrow> 32 word \<Rightarrow> Fat32FileSystem \<Rightarrow>
     ((int \<times> u8 list) \<times> Fat32FileSystem) res option" where
  "fat32_read user_copy path offset n fs =
     opt_bnd (tf_fopen user_copy path ''r'' fs) (\<lambda>(p, fs).
       if p = No_file then Some (Inr ((- 1, []), fs))
       else
         opt_bnd (on_handle p (\<lambda>fp s. Some (Inr (read_opened offset n fp s))) fs) (\<lambda>(x, fs).
         opt_bnd (tf_fclose user_copy p fs) (\<lambda>(_, fs). Some (Inr (x, fs)))))"

definition fat32_write ::
    "(u64 \<Rightarrow> nat option) \<Rightarrow> u8 list \<Rightarrow> bool \<Rightarrow> u8 list \<Rightarrow> int \<Rightarrow> 32 word \<Rightarrow> Fat32FileSystem \<Rightarrow>
     (int \<times> Fat32FileSystem) res option" where
  "fat32_write user_copy path user buf offset n fs =
     opt_bnd (tf_fopen user_copy path ''+'' fs) (\<lambda>(p, fs).
     opt_bnd (on_handle p (\<lambda>fp s.
         (let (_, fp, s) = tf_fseek fp 0 offset s in tf_fwrite user_copy user buf n fp s)) fs) (\<lambda>(x, fs).
     opt_bnd (tf_fclose user_copy p fs) (\<lambda>(_, fs). Some (Inr (x, fs)))))"

definition fat32_clear :: "Fat32FileSystem \<Rightarrow> int \<times> Fat32FileSystem" where "fat32_clear fs = (0, fs)"
definition fat32_truncate :: "Fat32FileSystem \<Rightarrow> int \<times> Fat32FileSystem" where "fat32_truncate fs = (0, fs)"

definition fat32_get_file ::
    "(u64 \<Rightarrow> nat option) \<Rightarrow> u8 list \<Rightarrow> Fat32FileSystem \<Rightarrow>
     ((int \<times> u32 option) \<times> Fat32FileSystem) res option" where
  "fat32_get_file user_copy filepath fs =
     opt_bnd (tf_fopen user_copy filepath ''r'' fs) (\<lambda>(tf, fs).
       if tf = No_file then Some (Inr ((- 1, None), fs))
       else
         opt_bnd (on_handle tf (\<lambda>fp s. Some (Inr (f_size fp, fp, s))) fs) (\<lambda>(sz, fs).
         opt_bnd (tf_fclose user_copy tf fs) (\<lambda>(_, fs). Some (Inr ((0, Some sz), fs)))))"

definition fat32_touch ::
    "(u64 \<Rightarrow> nat option) \<Rightarrow> u8 list \<Rightarrow> Fat32FileSystem \<Rightarrow> (int \<times> Fat32FileSystem) res option" where
  "fat32_touch user_copy filepath fs =
     opt_bnd (tf_create user_copy filepath fs) (\<lambda>(_, fs). Some (Inr (0, fs)))"

definition fat32_rm ::
    "(u64 \<Rightarrow> nat option) \<Rightarrow> u8 list \<Rightarrow> Fat32FileSystem \<Rightarrow> (int \<times> Fat32FileSystem) res option" where
  "fat32_rm user_copy filepath fs =
     opt_bnd (tf_remove user_copy filepath fs) (\<lambda>(_, fs). Some (Inr (0, fs)))"

section \<open>Listing a directory\<close>

text \<open>\<open>struct dirent\<close> up to its name, and where the name goes.\<close>

definition DT_FIFO :: u8 where "DT_FIFO = 1"
definition DT_DIR :: u8 where "DT_DIR = 4"
definition DIENT_BASE_LEN :: int where "DIENT_BASE_LEN = 19"
definition LFN_NAME_CAPACITY :: int where "LFN_NAME_CAPACITY = 26"

definition bytes64 :: "u64 \<Rightarrow> u8 list" where
  "bytes64 x = bytes32 (ucast x) @ bytes32 (ucast (drop_bit 32 x))"

definition put_dirent :: "u8 list \<Rightarrow> u64 \<Rightarrow> int \<Rightarrow> mem \<Rightarrow> u16 \<times> mem" where
  "put_dirent entry contents n m =
     (let d_ino = ucast (e_firstCluster (msdos entry));
          d_type = (if e_attributes (msdos entry) AND TF_ATTR_DIRECTORY \<noteq> 0 then DT_DIR else DT_FIFO);
          d_reclen = word_of_int (DIENT_BASE_LEN + n) :: u16;
          d_off = contents + ucast d_reclen
      in (d_reclen, poke m contents (bytes64 d_ino @ bytes64 d_off @ bytes16 d_reclen @ [d_type])))"

text \<open>The remaining long entries of a chain: \<open>None\<close> in the result for \<open>return -1\<close>.\<close>

fun ls_chain ::
    "nat \<Rightarrow> u64 \<Rightarrow> int \<Rightarrow> TFFile \<Rightarrow> tfinfo \<Rightarrow> mem \<Rightarrow> int option \<times> TFFile \<times> tfinfo \<times> mem" where
  "ls_chain 0 d_name n fp s m = (Some n, fp, s, m)"
| "ls_chain (Suc k) d_name n fp s m =
     (let (bs, fp, s) = read_entry fp s in
      if length bs \<noteq> 32 then (None, fp, s, m)
      else if l_attributes (lfn_of bs) \<noteq> TF_ATTR_LONG_NAME then (None, fp, s, m)
      else (let (x, m) = copylfn (lfn_of bs) d_name m in ls_chain k d_name (n + x) fp s m))"

partial_function (option) ls_loop ::
    "u64 \<Rightarrow> int \<Rightarrow> int \<Rightarrow> TFFile \<Rightarrow> tfinfo \<Rightarrow> mem \<Rightarrow> (int \<times> TFFile \<times> tfinfo \<times> mem) option" where
  "ls_loop contents len readn fp s m =
     (let (entry, fp, s) = read_entry fp s;
          d_name = contents + word_of_int DIENT_BASE_LEN
      in if length entry \<noteq> 32 then Some (readn, fp, s, m)
         else if entry ! 0 = 0 \<or> (word_of_int (readn + 8) :: u64) \<ge> word_of_int len then Some (readn, fp, s, m)
         else if e_attributes (msdos entry) \<noteq> TF_ATTR_LONG_NAME then
           (let (n, m) = copysfn (e_filename (msdos entry) @ e_extension (msdos entry)) d_name m;
                (d_reclen, m) = put_dirent entry contents n m
            in ls_loop (contents + ucast d_reclen) len (readn + uint d_reclen) fp s m)
         else if sequence_number (lfn_of entry) AND 0xc0 = 0x40 then
           (let lfn_entries = lfn_number (sequence_number (lfn_of entry)) in
            if uint lfn_entries * LFN_NAME_CAPACITY + readn \<ge> len then Some (readn, fp, s, m)
            else
              (let (n, m) = copylfn (lfn_of entry) d_name m;
                   (r, fp, s, m) = ls_chain (unat lfn_entries - 1) d_name n fp s m
               in case r of
                    None \<Rightarrow> Some (- 1, fp, s, m)
                  | Some n \<Rightarrow>
                      (let (entry, fp, s) = read_entry fp s in
                       if length entry \<noteq> 32 then Some (- 1, fp, s, m)
                       else
                         (let (d_reclen, m) = put_dirent entry contents n m
                          in ls_loop (contents + ucast d_reclen) len (readn + uint d_reclen) fp s m))))
         else ls_loop contents len readn fp s m)"

text \<open>\<open>ls\<close> with a kernel buffer; the handle is not closed.\<close>

definition fat32_ls ::
    "(u64 \<Rightarrow> nat option) \<Rightarrow> u8 list \<Rightarrow> u64 \<Rightarrow> int \<Rightarrow> mem \<Rightarrow> Fat32FileSystem \<Rightarrow>
     ((int \<times> mem) \<times> Fat32FileSystem) res option" where
  "fat32_ls user_copy filepath contents len m fs =
     opt_bnd (tf_fopen user_copy filepath ''r'' fs) (\<lambda>(p, fs).
       if p = No_file then Some (Inr ((- 1, m), fs))
       else
         on_handle p (\<lambda>fp s.
           if f_attributes fp AND TF_ATTR_DIRECTORY = 0 then Some (Inr ((- 1, m), fp, s))
           else map_option (\<lambda>(r, fp, s, m). Inr ((r, m), fp, s)) (ls_loop contents len 0 fp s m)) fs)"

section \<open>Short names of plain files\<close>

text \<open>A character of a base name that the short name keeps as it is, up to case.\<close>

definition plain_char :: "u8 \<Rightarrow> bool" where
  "plain_char c \<longleftrightarrow> sfn_char c \<and> c \<noteq> 0x20 \<and> c \<noteq> 0x2C"

definition pad :: "nat \<Rightarrow> u8 list \<Rightarrow> u8 list" where
  "pad n xs = take n xs @ replicate (n - length xs) 0x20"

lemma upper_blank: "upper c = 0x20 \<longleftrightarrow> c = 0x20"
proof -
  have "c + (0x41 - 0x61) = 0x20 \<longleftrightarrow> c = 0x40" by (auto simp: word_eq_iff_unsigned)
  then show ?thesis by (auto simp: upper_def)
qed

lemma sfn_ext_pad: "sfn_ext k xs = pad k (map upper (filter sfn_char xs))"
proof (induction k xs rule: sfn_ext.induct)
  case (2 k xs)
  have f: "filter sfn_char (dropWhile (\<lambda>c. \<not> sfn_char c) xs) = filter sfn_char xs" for xs
    by (induction xs) auto
  show ?case
  proof (cases "dropWhile (\<lambda>c. \<not> sfn_char c) xs")
    case Nil
    then have "filter sfn_char xs = []" using f [of xs] by simp
    with 2(1) [OF Nil] show ?thesis unfolding sfn_ext.simps Nil by (simp add: pad_def)
  next
    case (Cons c cs)
    then have "sfn_char c" by (simp add: dropWhile_eq_Cons_conv)
    then have "filter sfn_char xs = c # filter sfn_char cs" using f [of xs] unfolding Cons by simp
    with 2(2) [OF Cons] show ?thesis unfolding sfn_ext.simps Cons by (simp add: pad_def)
  qed
qed (simp add: pad_def)

lemma put_byte: "i < length xs \<Longrightarrow> take (Suc i) (xs[i := x]) = take i xs @ [x]"
  by (simp add: take_Suc_conv_app_nth)

lemma sfn_base_plain:
  assumes "\<forall>c \<in> set bs. plain_char c" "length dest = 11" "k \<le> 8" "dest ! 0 \<noteq> 0x20" "bs = [] \<longrightarrow> k < 8"
    and "tail = [] \<and> dot = None \<or> tail \<noteq> [] \<and> dot = Some (length tail)"
  shows "sfn_base k dest dot (bs @ tail) = take (8 - k) dest @ pad k (map upper bs) @ drop 8 dest"
  using assms
proof (induction k arbitrary: dest bs)
  case 0
  then show ?case by (simp add: pad_def)
next
  case (Suc k)
  let ?i = "7 - k"
  have i: "?i < 11" "8 - k = Suc ?i" "8 - Suc k = ?i" using Suc.prems(3) by simp_all
  have put: "take (8 - k) (dest[?i := x]) = take ?i dest @ [x]" "drop 8 (dest[?i := x]) = drop 8 dest" for x
    using put_byte [of ?i dest x] Suc.prems(2) i by simp_all
  show ?case
  proof (cases bs)
    case Nil
    then have k: "0 < ?i" using Suc.prems(5) by simp
    then have z: "(dest[?i := 0x20]) ! 0 \<noteq> 0x20" using Suc.prems(4) by simp
    have "sfn_base (Suc k) dest dot tail = sfn_base k (dest[?i := 0x20]) dot tail"
      using Suc.prems(4,6) by (cases tail) (auto simp: Let_def)
    also have "\<dots> = take (8 - k) (dest[?i := 0x20]) @ pad k [] @ drop 8 (dest[?i := 0x20])"
      using Suc.IH [of "[]" "dest[?i := 0x20]"] Suc.prems z by simp
    finally show ?thesis unfolding put i(3) by (simp add: Nil pad_def)
  next
    case (Cons c cs)
    then have c: "sfn_char c" "c \<noteq> 0x20" "c \<noteq> 0x2C" "c \<noteq> 0x5B" "c \<noteq> 0x5D"
      using Suc.prems(1) by (auto simp: plain_char_def sfn_char_def)
    have z: "(dest[?i := upper c]) ! 0 \<noteq> 0x20"
      using Suc.prems(2,4) c(2) upper_blank by (cases "?i = 0") simp_all
    have "cs = [] \<longrightarrow> k < 8" using Suc.prems(3) by simp
    have "sfn_base (Suc k) dest dot (bs @ tail) = sfn_base k (dest[?i := upper c]) dot (cs @ tail)"
      using Suc.prems(4,6) c Cons by (auto simp: Let_def)
    also have "\<dots> = take (8 - k) (dest[?i := upper c]) @ pad k (map upper cs) @ drop 8 (dest[?i := upper c])"
      using Suc.IH [of cs "dest[?i := upper c]"] Suc.prems Cons z by simp
    finally show ?thesis unfolding put i(3) by (simp add: Cons pad_def)
  qed
qed

lemma last_dot_split:
  assumes "0x2E \<notin> set ext"
  shows "last_dot (bs @ 0x2E # ext) = Some (Suc (length ext))"
proof -
  have "takeWhile (\<lambda>c. c \<noteq> 0x2E) (rev ext @ 0x2E # rev bs) = rev ext"
    using assms by (subst takeWhile_append2) auto
  then show ?thesis by (simp add: last_dot_def)
qed

lemma upper_nonzero: "sfn_char c \<Longrightarrow> upper c \<noteq> 0"
proof -
  assume "sfn_char c"
  moreover have "c + (0x41 - 0x61) = 0 \<longleftrightarrow> c = 0x20" by (auto simp: word_eq_iff_unsigned)
  ultimately show ?thesis by (auto simp: upper_def sfn_char_def)
qed

lemma pad_chars: "c \<in> set (pad n xs) \<Longrightarrow> c \<in> set xs \<or> c = 0x20"
  by (auto simp: pad_def dest: in_set_takeD)

lemma pad_length [simp]: "length (pad n xs) = n"
  by (simp add: pad_def)

text \<open>The tail that makes the name unique goes after six characters or before the first blank.\<close>

lemma put_tail:
  fixes us E :: "u8 list"
  assumes "0x20 \<notin> set us" "i = length (takeWhile (\<lambda>c. c \<noteq> 0x20) (pad 8 us @ E))"
  shows "(if i > 6 \<or> (pad 8 us @ E) ! i \<noteq> 0x20 then (pad 8 us @ E)[6 := x, 7 := y]
          else (pad 8 us @ E)[i := x, Suc i := y]) = pad 8 (take 6 us @ [x, y]) @ E"
proof (cases "length us \<le> 6")
  case True
  let ?k = "6 - length us"
  have k: "8 - length us = Suc (Suc ?k)" using True by arith
  have p: "pad 8 us = us @ 0x20 # 0x20 # replicate ?k 0x20" using True by (simp add: pad_def k)
  have "takeWhile (\<lambda>c. c \<noteq> 0x20) (pad 8 us @ E) = us"
    unfolding p using assms(1) by (auto simp: takeWhile_append)
  then have i: "i = length us" using assms(2) by simp
  have "pad 8 (take 6 us @ [x, y]) = us @ x # y # replicate ?k 0x20" using True by (simp add: pad_def)
  then show ?thesis unfolding i p using True by (simp add: list_update_append nth_append)
next
  case False
  then obtain us' z w where us: "us = us' @ z # w" "length us' = 6"
    by (metis append_take_drop_id length_take min.absorb2 nat_le_linear drop_eq_Nil neq_Nil_conv)
  obtain v where p: "pad 8 us = us' @ [z, v]"
    using us by (cases w) (auto simp: pad_def numeral_eq_Suc)
  have "6 < i"
  proof -
    have "takeWhile (\<lambda>c. c \<noteq> 0x20) (pad 8 us @ E) = us' @ z # takeWhile (\<lambda>c. c \<noteq> 0x20) (v # E)"
      unfolding p using assms(1) us by (auto simp: takeWhile_append)
    then show ?thesis using assms(2) us(2) by simp
  qed
  moreover have "pad 8 (take 6 us @ [x, y]) = us' @ [x, y]" using us by (simp add: pad_def)
  ultimately show ?thesis using us(2) unfolding p by (simp add: list_update_append)
qed

lemma zero_free:
  fixes us E :: "u8 list"
  assumes "0 \<notin> set us" "0 \<notin> set es"
  shows "takeWhile (\<lambda>c. c \<noteq> 0) (pad 8 us @ pad 3 es) = pad 8 us @ pad 3 es"
proof -
  have "0 \<notin> set (pad n xs)" if "0 \<notin> set xs" for n and xs :: "u8 list"
    using that pad_chars [of 0 n xs] by auto
  then have "\<forall>c \<in> set (pad 8 us @ pad 3 es). c \<noteq> 0" using assms unfolding set_append by blast
  then show ?thesis unfolding takeWhile_eq_all_conv .
qed

text \<open>C4: the short name of a plain name is its base in upper case with a tilde and the number after it,
  and its extension.
\<close>

theorem short_name_plain:
  assumes "base \<noteq> []" "\<forall>c \<in> set base. plain_char c" "0x2E \<notin> set ext" "num \<le> 4"
    and "nm = base \<and> ext = [] \<or> nm = base @ 0x2E # ext" "length dest = 11" "dest ! 0 \<noteq> 0x20"
  shows "tf_shorten_filename dest nm num =
    pad 8 (take 6 (map upper base) @ [0x7E, num + 0x30]) @ pad 3 (map upper (filter sfn_char ext))"
proof -
  let ?E = "pad 3 (map upper (filter sfn_char ext))"
  let ?us = "map upper base"
  define dot where "dot = last_dot nm"
  define tail where "tail = drop (length base) nm"
  have nm: "nm = base @ tail" and t: "tail = [] \<and> dot = None \<or> tail \<noteq> [] \<and> dot = Some (length tail)"
    and e: "sfn_ext 3 (case dot of None \<Rightarrow> [] | Some l \<Rightarrow> drop (length nm - l) nm) = ?E"
  proof -
    have nd: "0x2E \<notin> set base" using assms(2) by (auto simp: plain_char_def sfn_char_def)
    have "nm = base \<and> ext = [] \<and> dot = None \<or> nm = base @ 0x2E # ext \<and> dot = Some (Suc (length ext))"
      using assms(5) last_dot_split [OF assms(3), of base] nd by (auto simp: dot_def last_dot_def)
    then show "nm = base @ tail" "tail = [] \<and> dot = None \<or> tail \<noteq> [] \<and> dot = Some (length tail)"
      "sfn_ext 3 (case dot of None \<Rightarrow> [] | Some l \<Rightarrow> drop (length nm - l) nm) = ?E"
      by (auto simp: tail_def sfn_ext_pad sfn_char_def)
  qed
  have b: "sfn_base 8 (take 8 dest @ ?E) dot nm = pad 8 ?us @ ?E"
    unfolding nm using sfn_base_plain [of base "take 8 dest @ ?E" 8 tail dot] assms(1,2,6,7) t
    by (simp add: nth_append)
  have "0 \<notin> set ?us"
  proof
    assume "0 \<in> set ?us"
    then obtain c where "c \<in> set base" "upper c = 0" by auto
    then show False using assms(2) upper_nonzero [of c] by (simp add: plain_char_def)
  qed
  moreover have "0 \<notin> set (map upper (filter sfn_char ext))"
  proof
    assume "0 \<in> set (map upper (filter sfn_char ext))"
    then obtain c where "sfn_char c" "upper c = 0" by auto
    then show False using upper_nonzero [of c] by simp
  qed
  ultimately have z: "takeWhile (\<lambda>c. c \<noteq> 0) (pad 8 ?us @ ?E) = pad 8 ?us @ ?E" by (rule zero_free)
  have "0x20 \<notin> set ?us"
  proof
    assume "0x20 \<in> set ?us"
    then obtain c where "c \<in> set base" "upper c = 0x20" by auto
    then show False using assms(2) upper_blank [of c] by (auto simp: plain_char_def)
  qed
  moreover have "\<not> num > 4" using assms(4) by simp
  ultimately show ?thesis
    unfolding tf_shorten_filename_def Let_def dot_def [symmetric] e b z
    by (simp only: if_False) (intro put_tail refl)
qed

section \<open>No byte is ever stored\<close>

lemma fwrite_over_end_mark:
  assumes "dir_ok s0 fp0 n" "dir_at s0 fp0 k fp s" "k < n" "dir_entry s0 (startCluster fp0) k ! 0 = 0"
  shows "fwrite_loop user_copy user src 32 acc fp s = Some (Inl (Undef ''user''))"
proof -
  obtain rc s1 where f: "tf_fetch (tf_first_sector (currentCluster fp) s + word_of_int (sint (currentByte fp) sdiv 512)) s = (rc, s1)"
    and x: "fread_chunk fp 32 = 32"
    and b: "\<forall>i < 32. buffer s1 (word_of_int (sint (currentByte fp) smod 512) + word_of_nat i) =
       file_byte s0 (startCluster fp0) (32 * k + i)"
    using dir_fetch [OF assms(1-3)] by blast
  have "dir_entry s0 (startCluster fp0) k ! 0 = file_byte s0 (startCluster fp0) (32 * k + 0)"
    unfolding dir_entry_def by (subst nth_map) simp_all
  then have "buffer s1 (word_of_int (sint (currentByte fp) smod 512)) = 0"
    using spec [OF b, of 0] assms(4) by simp
  then have "copyin_into_user user_copy (buffer s1 (word_of_int (sint (currentByte fp) smod 512))) src 32 user =
      Inl (Undef ''user'')"
    by (simp add: copyin_into_user_def)
  then show ?thesis by (subst fwrite_loop.simps) (simp add: f x)
qed

text \<open>directory entries are not written\<close>

theorem entry_write_overruns:
  assumes "cache_ok s" "dir_ok s fp n" "k < n" "dir_entry s (startCluster fp) k ! 0 = 0"
  shows "tf_fwrite user_copy user entry 32 (at_pos s fp (32 * k)) s = Some (Inl (Undef ''user''))"
proof -
  let ?f = "\<lambda>fp :: TFFile. fp\<lparr>f_flags := f_flags fp OR TF_FLAG_DIRTY\<rparr>"
  have "dir_ok s (?f fp) n" using assms(2) by (simp add: dir_ok_def reaches_def)
  moreover have "dir_at s (?f fp) k (?f (at_pos s fp (32 * k))) s"
    using assms(1) by (simp add: dir_at_def at_pos_def)
  ultimately show ?thesis
    using fwrite_over_end_mark assms(3,4) by (simp add: tf_fwrite_def)
qed

text \<open>One turn of the loop at the last byte of a file.\<close>

definition at_end :: "tfinfo \<Rightarrow> TFFile \<Rightarrow> nat \<Rightarrow> nat \<Rightarrow> bool" where
  "at_end s fp p m \<longleftrightarrow> ftype s \<noteq> 0 \<and> 0 < unat (sectorsPerCluster s) \<and> unat (sectorsPerCluster s) \<le> 64 \<and>
     fp = at_pos s fp p \<and> unat (f_size fp) = Suc p \<and> p + m + 1 < 2 ^ 32 \<and>
     (\<forall>q \<le> p + m. reaches s fp q \<and> low (pos_sector s (startCluster fp) q))"

lemma at_end_readable: "at_end s fp p m \<Longrightarrow> readable s fp \<and> unat (f_pos fp) = p"
proof -
  assume a: "at_end s fp p m"
  then have "p < 2 ^ 32" by (simp add: at_end_def)
  then have "unat (f_pos (at_pos s fp p)) = p" by (rule at_pos_sel)
  with a have "unat (f_pos fp) = p" by (simp add: at_end_def)
  with a show ?thesis by (auto simp: at_end_def readable_def)
qed

lemma readable_sector:
  assumes "readable s fp"
  shows "tf_first_sector (currentCluster fp) s + word_of_int (sint (currentByte fp) sdiv 512) =
    pos_sector s (startCluster fp) (unat (f_pos fp))"
proof -
  let ?p = "unat (f_pos fp)"
  have "fp = at_pos s fp ?p" using assms by (simp add: readable_def)
  then have "currentCluster fp = currentCluster (at_pos s fp ?p)" by (rule arg_cong)
  then have h: "currentCluster fp = hops (fat s) (startCluster fp) (?p div bpc s)" by (simp add: at_pos_def)
  show ?thesis
    unfolding readable_currentByte [OF assms] pos_sector_def h
    by (subst sdiv_nonneg) (simp, simp, metis zdiv_int of_nat_numeral of_int_of_nat_eq)
qed

lemma append_turn:
  fixes sz :: "32 word"
  assumes "cache_ok s" "at_end s fp p (Suc m)" "0 < sint sz"
  shows "\<exists>rc s1 s2 fp'. tf_fetch (tf_first_sector (currentCluster fp) s + word_of_int (sint (currentByte fp) sdiv 512)) s = (rc, s1) \<and>
    fread_chunk fp (sint sz) = 1 \<and> \<not> ucast (f_pos fp) + (1 :: u64) > ucast (f_size fp) \<and>
    tf_unsafe_fseek fp 0 (uint (ucast (f_pos fp) + (1 :: u64))) (s1\<lparr>sectorFlags := sectorFlags s1 OR TF_FLAG_DIRTY\<rparr>) = (0, fp', s2) \<and>
    cache_ok s2 \<and> same_view s s2 \<and> at_end s2 fp' (Suc p) m"
proof -
  have r: "readable s fp" and p: "unat (f_pos fp) = p" using at_end_readable [OF assms(2)] by simp_all
  have b: "p + Suc m + 1 < 2 ^ 32" and sz: "unat (f_size fp) = Suc p" and fp: "fp = at_pos s fp p"
    using assms(2) by (simp_all add: at_end_def)
  note sec = readable_sector [OF r, unfolded p]
  have lw: "low (pos_sector s (startCluster fp) p)" using assms(2) by (simp add: at_end_def)
  obtain rc s1 where f: "tf_fetch (tf_first_sector (currentCluster fp) s + word_of_int (sint (currentByte fp) sdiv 512)) s = (rc, s1)"
    by force
  note v = tf_fetch_view [OF assms(1) lw f [unfolded sec]]
  let ?s1 = "s1\<lparr>sectorFlags := sectorFlags s1 OR TF_FLAG_DIRTY\<rparr>"
  have c1: "cache_ok ?s1" and sv1: "same_view s ?s1"
    using v(2,3) by (auto simp: cache_ok_def dirty_flag_bits same_view_def same_geometry_def view_def)
  have "unat (fread_chunk fp (sint sz)) = 1"
    unfolding readable_chunk [OF r assms(3)] p sz using assms(3) by (simp add: min_def) arith
  then have x: "fread_chunk fp (sint sz) = 1" by (metis of_nat_1 of_nat_unat ucast_id)
  have u: "unat (ucast (f_pos fp) + (1 :: u64)) = Suc p"
    using b unat_ucast_up(2) [of "f_pos fp"] unfolding p by (simp add: unat_word_ariths)
  then have le: "\<not> ucast (f_pos fp) + (1 :: u64) > ucast (f_size fp)"
    using unat_ucast_up(2) [of "f_size fp"] sz by (simp add: word_less_nat_alt)
  have off: "0 + uint (ucast (f_pos fp) + (1 :: u64)) = int (Suc p)" using u by (metis add_0 uint_nat)
  have h: "handle_ok ?s1 fp" by (rule same_view_handle_ok [OF sv1 readable_handle_ok [OF r]])
  have re: "reaches s fp q" if "q \<le> p + Suc m" for q using assms(2) that by (simp add: at_end_def)
  obtain s2 where s2: "tf_unsafe_fseek fp 0 (uint (ucast (f_pos fp) + (1 :: u64))) ?s1 =
      (0, at_pos ?s1 (grow fp) (Suc p), s2)" "cache_ok s2" "same_view ?s1 s2"
    using unsafe_fseek_at [OF c1 h same_view_reaches [OF sv1 re] off] sz by auto
  let ?fp = "at_pos ?s1 (grow fp) (Suc p)"
  have sv2: "same_view s s2" by (rule same_view_trans [OF sv1 s2(3)])
  have g: "startCluster ?fp = startCluster fp" "reaches t ?fp q = reaches t fp q" for t q
    by (simp_all add: at_pos_def grow_def reaches_def)
  have "unat (f_size ?fp) = Suc (Suc p)" using sz b by (simp add: at_pos_def grow_def unat_word_ariths)
  moreover have "?fp = at_pos s2 ?fp (Suc p)"
    using same_view_at_pos [OF s2(3), of ?fp "Suc p"] same_view_reaches [OF sv1 re [of "Suc p"]] by (simp add: g(2))
  moreover have "reaches s2 ?fp q \<and> low (pos_sector s2 (startCluster ?fp) q)" if "q \<le> Suc p + m" for q
  proof -
    have q: "q \<le> p + Suc m" using that by simp
    have "low (pos_sector s (startCluster fp) q)" using assms(2) q by (simp add: at_end_def)
    then show ?thesis
      using same_view_reaches [OF sv2 re [OF q]] same_view_pos_sector [OF sv2 re [OF q]] by (simp add: g)
  qed
  ultimately have "at_end s2 ?fp (Suc p) m"
    using assms(2) b sv2 by (simp add: at_end_def) (auto simp: same_view_def same_geometry_def)
  with f x le s2 sv2 show ?thesis by blast
qed

lemma copyin_one:
  assumes "user_copy 1 = Some j" "j \<le> 1"
  shows "\<exists>user'. copyin_into_user user_copy b src 1 user = Inr user'"
proof -
  have "j = 0 \<or> j = 1" using assms(2) by auto
  then show ?thesis using assms(1) by (cases "b = 0") (auto simp: copyin_into_user_def)
qed

lemma fwrite_appends:
  assumes "cache_ok s" "at_end s fp p m" "m < 2 ^ 31" "user_copy 1 = Some j" "j \<le> 1"
  shows "\<exists>fp' s'. fwrite_loop user_copy user src (word_of_nat m) acc fp s = Some (Inr (acc + int m, fp', s')) \<and>
    cache_ok s' \<and> same_view s s' \<and> at_end s' fp' (p + m) 0"
  using assms
proof (induction m arbitrary: p fp s user src acc)
  case 0
  then show ?case by (subst fwrite_loop.simps) auto
next
  case (Suc m)
  let ?sz = "word_of_nat (Suc m) :: 32 word"
  have "sint ?sz = signed_take_bit 31 (int (Suc m))" by (simp only: signed_of_nat) simp
  also have "\<dots> = int (Suc m)" using Suc.prems(3) by (intro signed_take_bit_int_eq_self) simp_all
  finally have sz: "0 < sint ?sz" by simp
  obtain rc s1 s2 fp' where t: "tf_fetch (tf_first_sector (currentCluster fp) s + word_of_int (sint (currentByte fp) sdiv 512)) s = (rc, s1)"
      "fread_chunk fp (sint ?sz) = 1" "\<not> ucast (f_pos fp) + (1 :: u64) > ucast (f_size fp)"
      "tf_unsafe_fseek fp 0 (uint (ucast (f_pos fp) + (1 :: u64))) (s1\<lparr>sectorFlags := sectorFlags s1 OR TF_FLAG_DIRTY\<rparr>) = (0, fp', s2)"
      "cache_ok s2" "same_view s s2" "at_end s2 fp' (Suc p) m"
    using append_turn [OF Suc.prems(1,2) sz] by blast
  obtain user' where c: "copyin_into_user user_copy (buffer s1 (word_of_int (sint (currentByte fp) smod 512))) src 1 user = Inr user'"
    using copyin_one [of user_copy, OF Suc.prems(4,5)] by blast
  have "fwrite_loop user_copy user src ?sz acc fp s = fwrite_loop user_copy user' (drop 1 src) (word_of_nat m) (acc + 1) fp' s2"
    using sz t(1-4) c by (subst fwrite_loop.simps) (simp add: Let_def)
  moreover obtain fp2 s3 where "fwrite_loop user_copy user' (drop 1 src) (word_of_nat m) (acc + 1) fp' s2 =
      Some (Inr (acc + 1 + int m, fp2, s3))" "cache_ok s3" "same_view s2 s3" "at_end s3 fp2 (Suc p + m) 0"
    using Suc.IH [of s2 fp' "Suc p" user' "drop 1 src" "acc + 1"] t(5,7) Suc.prems(3-5) by auto
  ultimately show ?case using same_view_trans [OF t(6)] by (auto simp: add.assoc)
qed

text \<open>
  appending to a file changes no sector: the bytes never reach the sector buffer.
\<close>

theorem append_stores_nothing:
  assumes "cache_ok s" "at_end s fp p m" "m < 2 ^ 31" "user_copy 1 = Some j" "j \<le> 1"
  shows "\<exists>fp' s'. tf_fwrite user_copy user src (word_of_nat m) fp s = Some (Inr (int m, fp', s')) \<and>
    unat (f_pos fp') = p + m \<and> unat (f_size fp') = p + m + 1 \<and> same_view s s'"
proof -
  let ?f = "fp\<lparr>f_flags := f_flags fp OR TF_FLAG_DIRTY\<rparr>"
  have e: "fp = at_pos s fp p" using assms(2) by (simp add: at_end_def)
  have "?f = at_pos s ?f p" by (subst e) (simp add: at_pos_def)
  then have "at_end s ?f p m" using assms(2) unfolding at_end_def reaches_def by simp
  then obtain fp' s' where r: "tf_fwrite user_copy user src (word_of_nat m) fp s = Some (Inr (int m, fp', s'))"
      "same_view s s'" "at_end s' fp' (p + m) 0"
    using fwrite_appends [of s ?f p m user_copy j "if user then 1 else 0" src 0] assms
    by (auto simp: tf_fwrite_def)
  then show ?thesis using at_end_readable [OF r(3)] by (auto simp: at_end_def)
qed

section \<open>Reading by path\<close>

lemma leads_fresh: "leads s path fp fp' \<Longrightarrow> f_pos fp' = 0 \<and> f_flags fp' = TF_FLAG_OPEN"
  by (induction rule: leads.induct) (simp_all add: enter_entry_def Let_def)

lemma at_pos_flags [simp]: "f_flags (at_pos s fp p) = f_flags fp"
  by (simp add: at_pos_def)

text \<open>on a device that answers everywhere, reading a file by its path through the directories of a volume
  returns exactly the bytes of the file from the offset (from its start when the offset is not below its size, since
  the seek is refused), and gives the handle back.
\<close>

theorem fat32_read_by_path:
  assumes "cache_ok (tf_info fs)" "length (tf_file_handles fs) = TF_FILE_HANDLES"
    and free: "tf_get_free_handle (tf_file_handles fs) = (Some h, hs)"
    and path: "length path \<le> 255" "take 2 path \<noteq> [SLASH, DOT]" "leads (tf_info fs) path (root_handle (hs ! h)) fp"
    and "readable (tf_info fs) fp" "p < 2 ^ 31" "answers (tf_info fs)" "\<not> halted (tf_info fs)"
  shows "\<exists>fs'. fat32_read user_copy path (int p) n fs = Some (Inr
      (let q = (if p < unat (f_size fp) then p else 0); k = min (nat (sint n)) (unat (f_size fp) - q)
       in (int k, map (file_byte (tf_info fs) (startCluster fp)) [q..<q + k]), fs')) \<and>
    same_view (tf_info fs) (tf_info fs') \<and> map is_open (tf_file_handles fs') = map is_open (tf_file_handles fs)"
proof -
  let ?s = "tf_info fs"
  have h: "h < length hs" "length hs = length (tf_file_handles fs)" "\<not> is_open (tf_file_handles fs ! h)"
    "\<forall>j. j \<noteq> h \<longrightarrow> hs ! j = tf_file_handles fs ! j"
    using tf_get_free_handle_spec [OF assms(2)] assms(2) by (auto simp: free)
  have t4: "take 4 path \<noteq> [SLASH, DOT, DOT, SLASH]"
  proof
    assume "take 4 path = [SLASH, DOT, DOT, SLASH]"
    then have "take 2 (take 4 path) = [SLASH, DOT]" by simp
    then show False using path(2) by simp
  qed
  obtain s1 where w: "walk_path path (root_handle (hs ! h)) ?s = Some (Inr (True, fp, s1))" "cache_ok s1" "same_view ?s s1"
    using walk_path_leads [OF path(3) _ assms(1) same_view_refl] path(1) by auto
  have hl: "\<not> halted s1" "answers s1" using w(3) assms(9,10) by (auto simp: same_view_def same_geometry_def)
  let ?fp = "fp\<lparr>f_mode := f_mode fp OR TF_MODE_READ, f_filename := path\<rparr>"
  let ?fs = "fs\<lparr>tf_info := s1, tf_file_handles := hs[h := ?fp]\<rparr>"
  have f: "tf_fopen user_copy path ''r'' fs = Some (Inr (Handle h, ?fs))"
    using path(1,2) t4 hl(1) by (simp add: tf_fopen_def Let_def tf_fnopen_def free w(1) open_mode_def settled_def)
  have r1: "readable s1 fp" by (rule same_view_readable [OF w(3) assms(7)])
  have e: "fp = at_pos s1 fp (unat (f_pos fp))" using r1 by (simp add: readable_def)
  have e': "?fp = at_pos s1 ?fp (unat (f_pos ?fp))" by (subst (1) e) (simp add: at_pos_def)
  have r: "readable s1 ?fp"
    unfolding readable_def using e' r1 by (simp add: readable_def reaches_def)
  obtain fp2 s2 where ro: "read_opened (int p) n ?fp s1 =
      (let q = (if p < unat (f_size fp) then p else 0); k = min (nat (sint n)) (unat (f_size fp) - q)
       in ((int k, map (file_byte s1 (startCluster fp)) [q..<q + k]), fp2, s2))" "same_view s1 s2"
      "f_flags fp2 = TF_FLAG_OPEN"
    using read_opened_at [OF w(2) r _ assms(8), of n] leads_fresh [OF path(3)] by auto
  have hl2: "\<not> halted s2" using ro(2) hl by (simp add: same_view_def same_geometry_def)
  have b: "map (file_byte s1 (startCluster fp)) [q..<q + min m (unat (f_size fp) - q)] =
      map (file_byte ?s (startCluster fp)) [q..<q + min m (unat (f_size fp) - q)]" for q m
    by (rule map_cong [OF refl], rule same_view_file_byte [OF w(3), of fp]) (use assms(7) in \<open>auto simp: readable_def\<close>)
  let ?hs = "hs[h := fp2\<lparr>f_flags := 0\<rparr>]"
  have c: "tf_fclose user_copy (Handle h) (fs\<lparr>tf_info := s2, tf_file_handles := hs[h := fp2]\<rparr>) =
      Some (Inr (0, fs\<lparr>tf_info := s2, tf_file_handles := ?hs\<rparr>))"
    using h(1) ro(3) by (simp add: tf_fclose_def tf_fflush.simps close_flags_def tf_release_handle_def
        TF_FLAG_OPEN_def TF_FLAG_DIRTY_def)
  have "map is_open ?hs = map is_open (tf_file_handles fs)"
    using h by (intro nth_equalityI) (auto simp: nth_list_update is_open_def)
  then show ?thesis
    using same_view_trans [OF w(3) ro(2)] h(1)
    using hl2 by (simp add: fat32_read_def f on_handle_def ro(1) c b Let_def settled_def)
qed

section \<open>On the small directory\<close>

text \<open>Nothing is mapped for the process: \<open>copyin\<close> stores nothing.\<close>

definition no_copy :: "u64 \<Rightarrow> nat option" where "no_copy x = Some 0"

lemma dir_fs_live: "answers dir_fs" "\<not> halted dir_fs"
  by (simp_all add: dir_fs_def small_fs_def)

definition dir_volume :: Fat32FileSystem where
  "dir_volume = \<lparr>tf_info = dir_fs, tf_file_handles = replicate 5 (small_file\<lparr>f_flags := 0\<rparr>)\<rparr>"

text \<open>\<open>program.c\<close>\<close>

theorem short_name_plain_witness:
  "tf_shorten_filename (replicate 11 0) [0x70, 0x72, 0x6F, 0x67, 0x72, 0x61, 0x6D, 0x2E, 0x63] 1 =
    [0x50, 0x52, 0x4F, 0x47, 0x52, 0x41, 0x7E, 0x31, 0x43, 0x20, 0x20]"
proof -
  let ?b = "[0x70, 0x72, 0x6F, 0x67, 0x72, 0x61, 0x6D] :: u8 list"
  have "\<forall>c \<in> set ?b. plain_char c" "sfn_char 0x63" by (simp_all add: plain_char_def sfn_char_def)
  moreover have "pad 8 (take 6 (map upper ?b) @ [0x7E, 1 + 0x30]) = [0x50, 0x52, 0x4F, 0x47, 0x52, 0x41, 0x7E, 0x31]"
    "pad 3 (map upper [0x63]) = [0x43, 0x20, 0x20]"
    by code_simp+
  ultimately show ?thesis
    using short_name_plain [of ?b "[0x63]" 1 "?b @ 0x2E # [0x63]" "replicate 11 0"] by simp
qed

theorem entry_write_overruns_witness:
  "tf_fwrite no_copy False readme_entry 32 (at_pos dir_fs dir_file (32 * 1)) dir_fs = Some (Inl (Undef ''user''))"
proof -
  have "dir_entry dir_fs 2 1 ! 0 = file_byte dir_fs 2 32" unfolding dir_entry_def by (subst nth_map) simp_all
  also have "\<dots> = 0" by (simp add: dir_fs_byte dir_sector_def)
  finally have "dir_entry dir_fs (startCluster dir_file) 1 ! 0 = 0" by (simp add: dir_file_def)
  with entry_write_overruns [OF dir_fs_ok(1,3), of 1] show ?thesis by simp
qed

lemma small_at_end: "at_end small_fs (at_pos small_fs small_file 599) 599 2"
proof -
  have "reaches small_fs small_file q \<and> low (pos_sector small_fs (startCluster small_file) q)" if "q \<le> 601" for q
  proof -
    have "q div 512 < 2" using that by (simp add: less_mult_imp_div_less)
    then have "q div 512 = 0 \<or> q div 512 = 1" by linarith
    moreover have "reaches small_fs small_file q" using that by (intro small_reaches) simp
    ultimately show ?thesis
      by (auto simp: pos_sector_def small_bpc low_def tf_first_sector_def small_file_def small_fat)
         (simp_all add: small_fs_def)
  qed
  then have "\<forall>q \<le> 601. reaches small_fs (at_pos small_fs small_file 599) q \<and>
      low (pos_sector small_fs (startCluster (at_pos small_fs small_file 599)) q)"
    by (simp add: reaches_def at_pos_sel)
  then show ?thesis
    by (simp add: at_end_def at_pos_sel) (simp add: small_fs_def small_file_def)
qed

theorem append_stores_nothing_witness:
  "\<exists>fp' s'. tf_fwrite no_copy False [7, 8] 2 (at_pos small_fs small_file 599) small_fs = Some (Inr (2, fp', s')) \<and>
    unat (f_pos fp') = 601 \<and> unat (f_size fp') = 602 \<and> same_view small_fs s'"
  using append_stores_nothing [OF small_cache small_at_end, of no_copy 0 False "[7, 8]"]
  by (simp add: no_copy_def)

lemma dir_fs_root: "dir_ok dir_fs (root_handle fp) 4" "handle_ok dir_fs (root_handle fp)"
proof -
  have e: "startCluster (root_handle fp) = startCluster dir_file" "f_size (root_handle fp) = f_size dir_file"
    by (simp_all add: root_handle_def dir_file_def)
  show "dir_ok dir_fs (root_handle fp) 4"
    using dir_fs_ok(3) unfolding dir_ok_def reaches_def e .
  then have "links dir_fs 2 0" by (auto simp: dir_ok_def reaches_def root_handle_def)
  with dir_fs_ok(2) show "handle_ok dir_fs (root_handle fp)" by (simp add: handle_ok_def root_handle_def)
qed

lemma readme_handle:
  "startCluster (enter_entry readme_entry fp) = 5" "f_size (enter_entry readme_entry fp) = 9"
  "currentCluster (enter_entry readme_entry fp) = 5" "currentClusterIdx (enter_entry readme_entry fp) = 0"
  "currentByte (enter_entry readme_entry fp) = 0" "f_pos (enter_entry readme_entry fp) = 0"
proof -
  have "e_eaIndex (msdos readme_entry) = 0" "e_firstCluster (msdos readme_entry) = 5"
    "e_fileSize (msdos readme_entry) = 9" "e_attributes (msdos readme_entry) AND TF_ATTR_DIRECTORY = 0"
    by code_simp+
  then show "startCluster (enter_entry readme_entry fp) = 5" "f_size (enter_entry readme_entry fp) = 9"
    "currentCluster (enter_entry readme_entry fp) = 5" "currentClusterIdx (enter_entry readme_entry fp) = 0"
    "currentByte (enter_entry readme_entry fp) = 0" "f_pos (enter_entry readme_entry fp) = 0"
    by (simp_all add: enter_entry_def Let_def)
qed

lemma dir_fs_data: "q < 512 \<Longrightarrow> pos_sector dir_fs 5 q = 43" "file_byte dir_fs 5 1 = 43"
proof -
  show p: "q < 512 \<Longrightarrow> pos_sector dir_fs 5 q = 43" for q
    by (simp add: pos_sector_def dir_fs_first) (simp add: dir_fs_def small_fs_def tf_first_sector_def)
  show "file_byte dir_fs 5 1 = 43"
    by (simp add: file_byte_def p) (simp add: view_def dir_fs_def small_fs_def dev_sector_low low_def)
qed

lemma readme_readable: "readable dir_fs (enter_entry readme_entry fp)"
proof -
  let ?e = "enter_entry readme_entry fp"
  have "?e = at_pos dir_fs ?e 0"
    by (rule TFFile.equality) (simp_all add: at_pos_def readme_handle)
  moreover have "reaches dir_fs ?e q \<and> low (pos_sector dir_fs 5 q)" if "q < 9" for q
    using that by (simp add: reaches_def dir_fs_first readme_handle links_def TF_MARK_EOC32_def dir_fs_data low_def)
  ultimately show ?thesis
    by (simp add: readable_def readme_handle) (simp add: dir_fs_def small_fs_def)
qed

theorem fat32_read_by_path_witness:
  "\<exists>fs'. fat32_read no_copy (SLASH # readme_name) 1 1 dir_volume = Some (Inr ((1, [43]), fs')) \<and>
    same_view dir_fs (tf_info fs') \<and> map is_open (tf_file_handles fs') = replicate 5 False"
proof -
  let ?h = "small_file\<lparr>f_flags := 0\<rparr>"
  obtain hs where hs: "tf_get_free_handle (replicate 5 ?h) = (Some 0, hs)" 
    by (simp add: tf_get_free_handle_def TF_FILE_HANDLES_def numeral_eq_Suc)
  have r: "unslash (SLASH # readme_name) = readme_name" "after_component readme_name = []" "readme_name \<noteq> []"
    by code_simp+
  let ?r = "root_handle (hs ! 0)"
  have c: "startCluster ?r = 2" "startCluster dir_file = 2" by (simp_all add: root_handle_def dir_file_def)
  have "leads dir_fs (SLASH # readme_name) ?r (enter_entry (dir_entry dir_fs (startCluster ?r) 0) (at_pos dir_fs ?r (32 * Suc 0)))"
    by (rule leads_file [OF dir_fs_root]) (use r dir_fs_scan in \<open>simp_all add: c\<close>)
  then have l: "leads dir_fs (SLASH # readme_name) ?r (enter_entry readme_entry (at_pos dir_fs ?r 32))"
    by (simp add: c dir_fs_entry)
  have "is_open ?h = False" by (simp add: is_open_def)
  then show ?thesis
    using fat32_read_by_path [of dir_volume 0 hs "SLASH # readme_name"
        "enter_entry readme_entry (at_pos dir_fs ?r 32)" 1 no_copy 1] dir_fs_ok(1) hs l
      readme_readable dir_fs_data(2) dir_fs_live
    by (simp add: dir_volume_def TF_FILE_HANDLES_def readme_handle readme_name_def DOT_def Let_def)
qed

end
