(* ===== verification/FatFormat.thy ===== *)
theory FatFormat
  imports FatWrite
begin

text \<open>
  The layout of a volume, \<open>fs/fat32.cpp\<close> and \<open>fs/fat32bpb.h\<close>: the parameter block of sector 0,
  mounting (\<open>tf_init\<close>), and formatting in one go (\<open>tf_initializeMedia\<close>) and in steps
  (\<open>tf_initializeMediaNoBlock\<close>). Formatting in steps is shown to write the same disk, and mounting
  a formatted disk to find its geometry and an empty root directory.
\<close>

section \<open>The parameter block\<close>

text \<open>\<open>BPB_struct\<close> with the FAT32 arm of its union, packed into 90 bytes.\<close>

record BPB_struct =
  BS_JumpBoot :: "u8 list"
  BS_OEMName :: "u8 list"
  BytesPerSector :: u16
  SectorsPerCluster :: u8
  ReservedSectorCount :: u16
  NumFATs :: u8
  RootEntryCount :: u16
  TotalSectors16 :: u16
  Media :: u8
  FATSize16 :: u16
  SectorsPerTrack :: u16
  NumberOfHeads :: u16
  HiddenSectors :: u32
  TotalSectors32 :: u32
  FATSize :: u32
  ExtFlags :: u16
  FSVersion :: u16
  RootCluster :: u32
  FSInfo :: u16
  BkBootSec :: u16
  Reserved :: "u8 list"
  BS_DriveNumber :: u8
  BS_Reserved1 :: u8
  BS_BootSig :: u8
  BS_VolumeID :: u32
  BS_VolumeLabel :: "u8 list"
  BS_FileSystemType :: "u8 list"

definition bpb_of :: "u8 list \<Rightarrow> BPB_struct" where
  "bpb_of b = \<lparr>BS_JumpBoot = take 3 b, BS_OEMName = take 8 (drop 3 b), BytesPerSector = le16 b 11,
     SectorsPerCluster = b ! 13, ReservedSectorCount = le16 b 14, NumFATs = b ! 16,
     RootEntryCount = le16 b 17, TotalSectors16 = le16 b 19, Media = b ! 21, FATSize16 = le16 b 22,
     SectorsPerTrack = le16 b 24, NumberOfHeads = le16 b 26, HiddenSectors = le32 b 28,
     TotalSectors32 = le32 b 32, FATSize = le32 b 36, ExtFlags = le16 b 40, FSVersion = le16 b 42,
     RootCluster = le32 b 44, FSInfo = le16 b 48, BkBootSec = le16 b 50, Reserved = take 12 (drop 52 b),
     BS_DriveNumber = b ! 64, BS_Reserved1 = b ! 65, BS_BootSig = b ! 66, BS_VolumeID = le32 b 67,
     BS_VolumeLabel = take 11 (drop 71 b), BS_FileSystemType = take 8 (drop 82 b)\<rparr>"

definition of_bpb :: "BPB_struct \<Rightarrow> u8 list" where
  "of_bpb p = BS_JumpBoot p @ BS_OEMName p @ bytes16 (BytesPerSector p) @ [SectorsPerCluster p] @
     bytes16 (ReservedSectorCount p) @ [NumFATs p] @ bytes16 (RootEntryCount p) @
     bytes16 (TotalSectors16 p) @ [Media p] @ bytes16 (FATSize16 p) @ bytes16 (SectorsPerTrack p) @
     bytes16 (NumberOfHeads p) @ bytes32 (HiddenSectors p) @ bytes32 (TotalSectors32 p) @
     bytes32 (FATSize p) @ bytes16 (ExtFlags p) @ bytes16 (FSVersion p) @ bytes32 (RootCluster p) @
     bytes16 (FSInfo p) @ bytes16 (BkBootSec p) @ Reserved p @ [BS_DriveNumber p, BS_Reserved1 p,
     BS_BootSig p] @ bytes32 (BS_VolumeID p) @ BS_VolumeLabel p @ BS_FileSystemType p"

section \<open>Mounting\<close>

definition TF_ERR_BAD_FS_TYPE :: int where "TF_ERR_BAD_FS_TYPE = 2"

text \<open>The checks of \<open>tf_init\<close> on the parameter block.\<close>

definition bpb_accepted :: "BPB_struct \<Rightarrow> bool" where
  "bpb_accepted p \<longleftrightarrow>
     (BS_JumpBoot p ! 0 = 0xEB \<and> BS_JumpBoot p ! 2 = 0x90 \<or> BS_JumpBoot p ! 0 = 0xE9) \<and>
     BytesPerSector p = 512 \<and> ReservedSectorCount p \<noteq> 0 \<and> (Media p = 0xF0 \<or> Media p \<ge> 0xF8)"

text \<open>
  The geometry \<open>tf_init\<close> takes from it. The number of clusters it also computes is not used: both
  branches on it choose the same type.
\<close>

definition set_geometry :: "BPB_struct \<Rightarrow> tfinfo \<Rightarrow> tfinfo" where
  "set_geometry p s =
     (let fat_size = (if FATSize16 p \<noteq> 0 then ucast (FATSize16 p) else FATSize p) :: u32;
          root_dir_sectors = (ucast (RootEntryCount p) * 32 + (ucast (BytesPerSector p) - 1)) div 512 :: u32
      in s\<lparr>totalSectors := (if TotalSectors16 p \<noteq> 0 then ucast (TotalSectors16 p) else TotalSectors32 p),
           sectorsPerCluster := SectorsPerCluster p, reservedSectors := ReservedSectorCount p,
           firstDataSector := ucast (ReservedSectorCount p) + ucast (NumFATs p) * fat_size + root_dir_sectors,
           ftype := 1, rootDirectorySize := 0xffffffff\<rparr>)"

text \<open>The loop that measures the root directory.\<close>

partial_function (option) measure_root ::
    "u32 \<Rightarrow> u8 list \<Rightarrow> TFFile \<Rightarrow> tfinfo \<Rightarrow> (u32 \<times> TFFile \<times> tfinfo) res option" where
  "measure_root temp e fp s =
     (let temp = temp + 32;
          (bs, fp, s) = read_entry fp s;
          e = bs @ drop (length bs) e
      in if e = [] then Some (Inl (Undef ''e''))
         else if e ! 0 \<noteq> 0 then measure_root temp e fp s
         else Some (Inr (temp, fp, s)))"

definition zero_handle :: TFFile where
  "zero_handle = \<lparr>parentStartCluster = 0, startCluster = 0, currentClusterIdx = 0, currentCluster = 0,
     f_currentSector = 0, currentByte = 0, f_pos = 0, f_flags = 0, f_attributes = 0, f_mode = 0,
     f_size = 0, f_filename = []\<rparr>"

definition tf_init :: "(u64 \<Rightarrow> nat option) \<Rightarrow> Fat32FileSystem \<Rightarrow> (int \<times> Fat32FileSystem) res option" where
  "tf_init user_copy fs =
     (let s = (tf_info fs)\<lparr>currentSector := - 1, sectorFlags := 0\<rparr>;
          (_, s) = tf_fetch 0 s;
          bpb = bpb_of (map (\<lambda>i. buffer s (word_of_nat i)) [0..<90])
      in if halted s then Some (Inl (Hang ''special device''))
         else if \<not> bpb_accepted bpb then Some (Inr (TF_ERR_BAD_FS_TYPE, fs\<lparr>tf_info := s\<rparr>))
         else if SectorsPerCluster bpb = 0 then Some (Inl (Undef ''cluster_count''))
         else
           opt_bnd (tf_fopen user_copy [SLASH] ''r'' (fs\<lparr>tf_info := set_geometry bpb s\<rparr>)) (\<lambda>(p, fs).
           opt_bnd (on_handle p (measure_root 0 []) fs) (\<lambda>(temp, fs).
           opt_bnd (tf_fclose user_copy p fs) (\<lambda>(_, fs).
             (let fs = fs\<lparr>tf_info := (tf_info fs)\<lparr>rootDirectorySize := temp\<rparr>,
                         tf_file_handles := replicate TF_FILE_HANDLES zero_handle\<rparr>
              in opt_bnd (tf_fclose user_copy p fs) (\<lambda>(_, fs). Some (Inr (0, fs))))))))"

definition fat32_init :: "(u64 \<Rightarrow> nat option) \<Rightarrow> Fat32FileSystem \<Rightarrow> Fat32FileSystem res option" where
  "fat32_init user_copy fs =
     opt_bnd (tf_init user_copy fs) (\<lambda>(rc, fs).
       if rc \<noteq> 0 then Some (Inl (Panic ''fat32 init'')) else Some (Inr fs))"

section \<open>Formatting\<close>

text \<open>The parameter block both formatters build.\<close>

definition new_bpb :: "u32 \<Rightarrow> BPB_struct" where
  "new_bpb nsec = \<lparr>BS_JumpBoot = [0xEB, 0x58, 0x90], BS_OEMName = bytes_of '' mkdosfs'',
     BytesPerSector = 0x200, SectorsPerCluster = 32, ReservedSectorCount = 32, NumFATs = 2,
     RootEntryCount = 0, TotalSectors16 = 0, Media = 0xf8, FATSize16 = 0, SectorsPerTrack = 32,
     NumberOfHeads = 64, HiddenSectors = 0, TotalSectors32 = nsec,
     FATSize = nsec div 4095, ExtFlags = 0, FSVersion = 0, RootCluster = 2, FSInfo = 1,
     BkBootSec = 6, Reserved = replicate 12 0, BS_DriveNumber = 0, BS_Reserved1 = 0, BS_BootSig = 0x29,
     BS_VolumeID = 0xf358ddc1, BS_VolumeLabel = replicate 11 0x20, BS_FileSystemType = bytes_of ''FAT32   ''\<rparr>"

definition boot_message :: "u8 list" where
  "boot_message = [0x0e, 0x1f, 0xbe, 0x77, 0x7c, 0xac, 0x22, 0xc0, 0x74, 0x0b, 0x56, 0xb4, 0x0e, 0xbb,
     0x07, 0x00, 0xcd, 0x10, 0x5e, 0xeb, 0xf0, 0x32, 0xe4, 0xcd, 0x17, 0xcd, 0x19, 0xeb, 0xfe] @
     bytes_of ''This is not a bootable disk.  Please insert a bootable floppy and'' @ [0x0D, 0x0A] @
     bytes_of ''press any key to try again ... '' @ [0x0D, 0x0A]"

text \<open>\<open>sectorBuf0\<close>, the boot sector, and the \<open>FSInfo\<close> sector.\<close>

definition boot_sector :: "u32 \<Rightarrow> mem" where
  "boot_sector nsec =
     (let m = poke (\<lambda>_. 0) 0 (of_bpb (new_bpb nsec));
          m = poke m 0x5a boot_message
      in m(0x1fe := 0x55, 0x1ff := 0xAA))"

definition fsinfo_sector :: mem where
  "fsinfo_sector =
     (let m = st32 (\<lambda>_. 0) 0 0x41615252;
          m = st32 m 0x1e4 0x61417272;
          m = st32 m 0x1e8 0xffffffff;
          m = st32 m 0x1ec 0xffffffff;
          m = st32 m 0x1f0 0;
          m = st32 m 0x1f4 0;
          m = st32 m 0x1f8 0
      in st32 m 0x1fc 0xaa550000)"

definition fat_head :: mem where
  "fat_head = st32 (st32 (st32 (\<lambda>_. 0) 0 0x0ffffff8) 4 0x0fffffff) 8 0x0ffffff8"

definition put_sector :: "mem \<Rightarrow> u32 \<Rightarrow> tfinfo \<Rightarrow> tfinfo" where
  "put_sector data sector s = snd (write_sector data sector s)"

text \<open>
  The two loops over sectors: downwards over the first cluster of the root directory (for a start
  of data at 0 it would not end), and over the tables.
\<close>

partial_function (option) wipe_root :: "u32 \<Rightarrow> u32 \<Rightarrow> tfinfo \<Rightarrow> tfinfo option" where
  "wipe_root ssa scl s =
     (if scl \<ge> ssa then wipe_root ssa (scl - 1) (put_sector (\<lambda>_. 0) scl s) else Some s)"

function clear_fats :: "u32 \<Rightarrow> u32 \<Rightarrow> u32 \<Rightarrow> tfinfo \<Rightarrow> tfinfo" where
  "clear_fats ssa stop scl s =
     (if scl < stop then
        clear_fats ssa stop (scl + 1)
          (put_sector (\<lambda>_. 0) (scl + ssa div 2) (put_sector (\<lambda>_. 0) scl s))
      else s)"
  by pat_completeness auto
termination
  by (relation "measure (\<lambda>(ssa, stop, scl, s). unat (stop - scl))") (auto intro: word_loop_less)

declare clear_fats.simps [simp del]

text \<open>Up to the loop over the tables the two formatters do the same; the start of the data is returned.\<close>

definition format_start :: "u32 \<Rightarrow> tfinfo \<Rightarrow> (u32 \<times> tfinfo) option" where
  "format_start nsec s =
     (let bpb = new_bpb nsec;
          fat = ucast (ReservedSectorCount bpb);
          s = put_sector (boot_sector nsec) 0 s;
          ssa = ucast (NumFATs bpb) * FATSize bpb + fat;
          s = put_sector fsinfo_sector 1 s;
          s = fold (\<lambda>scl. put_sector (\<lambda>_. 0) (word_of_nat scl)) [2..<unat (SectorsPerCluster bpb)] s;
          s = put_sector (boot_sector nsec) 6 s
      in map_option (Pair ssa) (wipe_root ssa (ssa + ucast (SectorsPerCluster bpb)) s))"

definition tf_initializeMedia :: "u32 \<Rightarrow> tfinfo \<Rightarrow> (u32 \<times> tfinfo) option" where
  "tf_initializeMedia nsec s =
     map_option (\<lambda>(ssa, s).
         (let s = clear_fats ssa (ssa div 2) (ucast (ReservedSectorCount (new_bpb nsec))) s
          in (0, put_sector fat_head (ucast (SectorsPerCluster (new_bpb nsec))) s)))
       (format_start nsec s)"

text \<open>The static variables of the formatter in steps.\<close>

record format_statics =
  fs_scl :: u32
  fs_ssa :: u32
  sectors_per_cluster :: u32

definition tf_initializeMediaNoBlock ::
    "u32 \<Rightarrow> bool \<Rightarrow> format_statics \<Rightarrow> tfinfo \<Rightarrow> (bool \<times> format_statics \<times> tfinfo) option" where
  "tf_initializeMediaNoBlock nsec start st s =
     (if start then
        map_option (\<lambda>(ssa, s).
            (True, st\<lparr>fs_ssa := ssa, fs_scl := ucast (ReservedSectorCount (new_bpb nsec)),
                      sectors_per_cluster := 32\<rparr>, s))
          (format_start nsec s)
      else
        (let stop = fs_scl st + 100;
             stop = (if stop \<ge> fs_ssa st div 2 then fs_ssa st div 2 else stop);
             s = clear_fats (fs_ssa st) stop (fs_scl st) s;
             st = st\<lparr>fs_scl := (if fs_scl st < stop then stop else fs_scl st)\<rparr>
         in if fs_scl st < fs_ssa st div 2 then Some (False, st, s)
            else Some (True, st, put_sector fat_head (sectors_per_cluster st) s)))"

text \<open>A format in steps: the first call, then calls until one answers \<open>true\<close>.\<close>

partial_function (option) format_steps :: "u32 \<Rightarrow> format_statics \<Rightarrow> tfinfo \<Rightarrow> tfinfo option" where
  "format_steps nsec st s =
     (case tf_initializeMediaNoBlock nsec False st s of
        None \<Rightarrow> None
      | Some (fin, st, s) \<Rightarrow> if fin then Some s else format_steps nsec st s)"

definition format_in_steps :: "u32 \<Rightarrow> format_statics \<Rightarrow> tfinfo \<Rightarrow> tfinfo option" where
  "format_in_steps nsec st s =
     (case tf_initializeMediaNoBlock nsec True st s of
        None \<Rightarrow> None
      | Some (_, st, s) \<Rightarrow> format_steps nsec st s)"

section \<open>What formatting writes\<close>

lemma put_sector_low: "low sec \<Longrightarrow> answers s \<Longrightarrow> put_sector d sec s = s\<lparr>disk := (disk s)(sec := d)\<rparr>"
  by (simp add: put_sector_def write_sector_def dev_sector_low)

lemma wipe_root_low:
  assumes "0 < ssa" "low scl" "answers s"
  shows "wipe_root ssa scl s = Some (s\<lparr>disk := \<lambda>k. if ssa \<le> k \<and> k \<le> scl then (\<lambda>_. 0) else disk s k\<rparr>)"
  using assms(2,3)
proof (induction "unat scl" arbitrary: scl s rule: less_induct)
  case less
  show ?case
  proof (cases "ssa \<le> scl")
    case True
    then have "scl \<noteq> 0" using assms(1) by auto
    then have u: "unat (scl - 1) = unat scl - 1" "0 < unat scl" by (auto simp: unat_minus_one unat_gt_0)
    then have "unat (scl - 1) < unat scl" "low (scl - 1)" "answers (put_sector (\<lambda>_. 0) scl s)"
      using less.prems by (simp_all add: low_def put_sector_low)
    note ih = less.hyps [OF this]
    have "k \<le> scl \<longleftrightarrow> k = scl \<or> k \<le> scl - 1" for k
      using u by (auto simp: word_le_nat_alt word_unat_eq_iff)
    then have "(\<lambda>k. if ssa \<le> k \<and> k \<le> scl - 1 then (\<lambda>_. 0) else ((disk s)(scl := \<lambda>_. 0)) k) =
        (\<lambda>k. if ssa \<le> k \<and> k \<le> scl then (\<lambda>_. 0) else disk s k)"
      using True by (auto simp: fun_eq_iff)
    note same = this
    have "wipe_root ssa scl s = Some (s\<lparr>disk :=
        \<lambda>k. if ssa \<le> k \<and> k \<le> scl - 1 then (\<lambda>_. 0) else ((disk s)(scl := \<lambda>_. 0)) k\<rparr>)"
      using True ih by (subst wipe_root.simps) (simp only: put_sector_low [OF less.prems] if_True, simp cong: if_cong)
    then show ?thesis by (simp only: same)
  next
    case False
    then have "(\<lambda>k. if ssa \<le> k \<and> k \<le> scl then (\<lambda>_. 0) else disk s k) = disk s" by (auto simp: fun_eq_iff)
    with False show ?thesis by (subst wipe_root.simps) simp
  qed
qed

lemma clear_fats_low:
  assumes "unat stop + unat (ssa div 2) < 4194304" "unat scl + unat (ssa div 2) < 4194304" "answers s"
  shows "clear_fats ssa stop scl s = s\<lparr>disk := \<lambda>k.
    if scl \<le> k \<and> k < stop \<or> scl + ssa div 2 \<le> k \<and> k < stop + ssa div 2 then (\<lambda>_. 0) else disk s k\<rparr>"
  using assms
proof (induction ssa stop scl s rule: clear_fats.induct)
  case (1 ssa stop scl s)
  let ?h = "ssa div 2"
  have plus: "unat (a + ?h) = unat a + unat ?h" if "unat a + unat ?h < 4194304" for a
    using that by (simp add: unat_word_ariths)
  show ?case
  proof (cases "scl < stop")
    case True
    have u: "unat (scl + 1) = Suc (unat scl)" using True by (rule unat_succ_less)
    have l: "low scl" "low (scl + ?h)" using 1(3) plus [OF 1(3)] by (simp_all add: low_def)
    have av: "answers (put_sector (\<lambda>_. 0) scl s)" "answers (put_sector (\<lambda>_. 0) (scl + ?h) (put_sector (\<lambda>_. 0) scl s))"
      using 1(4) by (simp_all add: put_sector_def write_sector_def)
    have b: "unat (scl + 1) + unat ?h < 4194304" using u True 1(2) by (simp add: word_less_nat_alt)
    have "(scl \<le> k \<and> k < stop \<or> scl + ?h \<le> k \<and> k < stop + ?h) \<longleftrightarrow>
        k = scl \<or> k = scl + ?h \<or> scl + 1 \<le> k \<and> k < stop \<or> scl + 1 + ?h \<le> k \<and> k < stop + ?h" for k
      using True u plus [OF 1(2)] plus [OF 1(3)] plus [OF b]
      by (auto simp: word_le_nat_alt word_less_nat_alt word_unat_eq_iff)
    then have "(\<lambda>k. if scl + 1 \<le> k \<and> k < stop \<or> scl + 1 + ?h \<le> k \<and> k < stop + ?h then (\<lambda>_. 0)
          else ((disk s)(scl := \<lambda>_. 0, scl + ?h := \<lambda>_. 0)) k) =
        (\<lambda>k. if scl \<le> k \<and> k < stop \<or> scl + ?h \<le> k \<and> k < stop + ?h then (\<lambda>_. 0) else disk s k)"
      by (auto simp: fun_eq_iff)
    note same = this
    have "clear_fats ssa stop scl s = s\<lparr>disk :=
        \<lambda>k. if scl + 1 \<le> k \<and> k < stop \<or> scl + 1 + ?h \<le> k \<and> k < stop + ?h then (\<lambda>_. 0)
            else ((disk s)(scl := \<lambda>_. 0, scl + ?h := \<lambda>_. 0)) k\<rparr>"
      using 1(1) [OF True 1(2) b av(2)] True
      by (subst clear_fats.simps) (simp add: put_sector_low [OF l(1) 1(4)] put_sector_low [OF l(2)] 1(4) cong: if_cong)
    then show ?thesis by (simp only: same)
  next
    case False
    then have "(\<lambda>k. if scl \<le> k \<and> k < stop \<or> scl + ?h \<le> k \<and> k < stop + ?h then (\<lambda>_. 0) else disk s k) = disk s"
      using plus [OF 1(2)] plus [OF 1(3)] by (auto simp: fun_eq_iff word_le_nat_alt word_less_nat_alt)
    with False show ?thesis by (subst clear_fats.simps) simp
  qed
qed

lemma fold_put_sector:
  assumes "b \<le> 4194304" "answers s"
  shows "fold (\<lambda>scl. put_sector d (word_of_nat scl)) [a..<b] s =
    s\<lparr>disk := \<lambda>k. if a \<le> unat k \<and> unat k < b then d else disk s k\<rparr>"
  using assms
proof (induction b)
  case (Suc b)
  have u: "unat (word_of_nat b :: u32) = b" using Suc.prems by (simp add: unat_of_nat)
  then have l: "low (word_of_nat b)" using Suc.prems by (simp add: low_def)
  have w: "k = word_of_nat b \<longleftrightarrow> unat k = b" for k :: u32 using u by (metis of_nat_unat ucast_id)
  show ?case
  proof (cases "a \<le> b")
    case True
    have "(\<lambda>k. if a \<le> unat k \<and> unat k < b then d else disk s k)(word_of_nat b := d) =
        (\<lambda>k. if a \<le> unat k \<and> unat k < Suc b then d else disk s k)"
      using True w by (auto simp: fun_eq_iff)
    with True Suc l show ?thesis by (simp add: put_sector_low)
  next
    case False
    then have "(\<lambda>k. if a \<le> unat k \<and> unat k < Suc b then d else disk s k) = disk s" by (auto simp: fun_eq_iff)
    with False show ?thesis by simp
  qed
qed (auto intro!: tfinfo.equality)

text \<open>
  The disk a format leaves, for \<open>F\<close> sectors in each table. The tables are the sectors from 32 and
  from 32 + F on; the loop that clears them takes half of all that lies before the data for the
  distance between them, so that the sectors from 16 + F up to 48 + F keep what they held.
\<close>

definition formatted :: "u32 \<Rightarrow> (u32 \<Rightarrow> mem) \<Rightarrow> u32 \<Rightarrow> mem" where
  "formatted nsec d k =
     (let F = unat nsec div 4095; n = unat k
      in if n = 0 \<or> n = 6 then boot_sector nsec
         else if n = 1 then fsinfo_sector
         else if n = 32 then fat_head
         else if n < 32 \<or> n < 16 + F \<or> 48 + F \<le> n \<and> n \<le> 2 * F + 64 \<or> 2 * F + 32 \<le> n \<and> n \<le> 2 * F + 64
           then (\<lambda>_. 0) else d k)"

lemma new_bpb_sizes [simp]:
  "ucast (ReservedSectorCount (new_bpb nsec)) = (32 :: u32)" "ucast (SectorsPerCluster (new_bpb nsec)) = (32 :: u32)"
  "unat (SectorsPerCluster (new_bpb nsec)) = 32" "ucast (NumFATs (new_bpb nsec)) = (2 :: u32)"
  "FATSize (new_bpb nsec) = nsec div 4095"
  by (simp_all add: new_bpb_def)

lemma data_start:
  fixes nsec :: u32
  defines "F \<equiv> nsec div 4095"
  shows "unat F = unat nsec div 4095" "unat F \<le> 1048832" "unat (2 * F + 32) = 2 * unat F + 32"
    "unat (2 * F + 64) = 2 * unat F + 64" "(2 * F + 32) div 2 = F + 16" "unat (F + 16) = unat F + 16"
proof -
  show F: "unat F = unat nsec div 4095" by (simp add: F_def unat_div)
  have "unat nsec \<le> 4294967295" using unsigned_less [of nsec, where 'a = nat] by simp
  then show b: "unat F \<le> 1048832" unfolding F by linarith
  then show s: "unat (2 * F + 32) = 2 * unat F + 32" "unat (F + 16) = unat F + 16"
    "unat (2 * F + 64) = 2 * unat F + 64" by (simp_all add: unat_word_ariths)
  show "(2 * F + 32) div 2 = F + 16" by (simp add: word_unat_eq_iff unat_div s)
qed

lemma format_start_disk:
  assumes "answers s"
  shows "format_start nsec s = Some (2 * (nsec div 4095) + 32, s\<lparr>disk := \<lambda>k.
     if 2 * (unat nsec div 4095) + 32 \<le> unat k \<and> unat k \<le> 2 * (unat nsec div 4095) + 64 then (\<lambda>_. 0)
     else if unat k = 0 \<or> unat k = 6 then boot_sector nsec
     else if unat k = 1 then fsinfo_sector
     else if unat k < 32 then (\<lambda>_. 0) else disk s k\<rparr>)"
proof -
  note d = data_start [of nsec]
  let ?ssa = "2 * (nsec div 4095) + 32 :: u32"
  have low: "low 0" "low 1" "low 6" "low (?ssa + 32)" using d by (simp_all add: low_def add.assoc)
  have pos: "0 < ?ssa" using d(3) by (metis add_is_0 gr0I unat_eq_zero word_gt_0 zero_neq_numeral)
  let ?t = "put_sector (boot_sector nsec) 6 (fold (\<lambda>scl. put_sector (\<lambda>_. 0) (word_of_nat scl)) [2..<32]
    (put_sector fsinfo_sector 1 (put_sector (boot_sector nsec) 0 s)))"
  have w: "k = 0 \<longleftrightarrow> unat k = 0" "k = 1 \<longleftrightarrow> unat k = 1" "k = 6 \<longleftrightarrow> unat k = 6" for k :: u32
    by (simp_all add: word_unat_eq_iff)
  have av: "answers ?t" using assms by (simp add: put_sector_low low fold_put_sector del: upt_rec_numeral)
  have t: "?t = s\<lparr>disk := \<lambda>k. if unat k = 0 \<or> unat k = 6 then boot_sector nsec
      else if unat k = 1 then fsinfo_sector else if unat k < 32 then (\<lambda>_. 0) else disk s k\<rparr>"
    by (rule tfinfo.equality) (auto simp: put_sector_low [OF low(1)] put_sector_low [OF low(2)]
        put_sector_low [OF low(3)] fold_put_sector fun_eq_iff w assms simp del: upt_rec_numeral)
  have "format_start nsec s = map_option (Pair ?ssa) (wipe_root ?ssa (?ssa + 32) ?t)"
    by (simp only: format_start_def Let_def new_bpb_sizes)
  also have "\<dots> = Some (?ssa, ?t\<lparr>disk := \<lambda>k. if ?ssa \<le> k \<and> k \<le> ?ssa + 32 then (\<lambda>_. 0) else disk ?t k\<rparr>)"
    by (simp only: wipe_root_low [OF pos low(4) av] option.map)
  finally show ?thesis
    unfolding t using d by (simp add: word_le_nat_alt add.assoc cong: if_cong)
qed

lemma tf_initializeMedia_disk:
  assumes "answers s"
  shows "tf_initializeMedia nsec s = Some (0, s\<lparr>disk := formatted nsec (disk s)\<rparr>)"
proof -
  note d = data_start [of nsec]
  have b: "unat (nsec div 4095 + 16) + unat ((2 * (nsec div 4095) + 32) div 2) < 4194304"
      "unat (32 :: u32) + unat ((2 * (nsec div 4095) + 32) div 2) < 4194304"
    using d by simp_all
  have "low 32" by (simp add: low_def)
  have u: "unat (32 + (nsec div 4095 + 16)) = unat nsec div 4095 + 48"
      "unat (nsec div 4095 + 16 + (nsec div 4095 + 16)) = 2 * (unat nsec div 4095) + 32"
    using d by (simp_all add: unat_word_ariths)
  have w: "k = 32 \<longleftrightarrow> unat k = 32" for k :: u32 by (simp add: word_unat_eq_iff)
  show ?thesis
    using d u
    by (auto simp: assms tf_initializeMedia_def format_start_disk Let_def clear_fats_low [OF b, unfolded d(5)]
        d(5) put_sector_low [OF \<open>low 32\<close>] formatted_def word_le_nat_alt word_less_nat_alt w
        intro!: tfinfo.equality ext)
qed

section \<open>Formatting in steps\<close>

lemma clear_fats_split:
  "stop \<le> b \<Longrightarrow> clear_fats ssa b scl s =
    clear_fats ssa b (if scl < stop then stop else scl) (clear_fats ssa stop scl s)"
proof (induction ssa stop scl s rule: clear_fats.induct)
  case (1 ssa stop scl s)
  show ?case
  proof (cases "scl < stop")
    case True
    have "scl + 1 \<le> stop" using True by (rule inc_le)
    then have e: "(if scl + 1 < stop then stop else scl + 1) = stop" by auto
    have "scl < b" using True 1(2) by simp
    then show ?thesis
      using True 1(1) [OF True 1(2)] e
      by (simp add: clear_fats.simps [of ssa b scl s] clear_fats.simps [of ssa stop scl s])
  qed (simp add: clear_fats.simps [of ssa stop scl s])
qed

lemma format_steps_all:
  assumes "unat (fs_ssa st div 2) < 4194304" "unat (fs_scl st) < 4194304" "sectors_per_cluster st = 32"
  shows "format_steps nsec st s =
    Some (put_sector fat_head 32 (clear_fats (fs_ssa st) (fs_ssa st div 2) (fs_scl st) s))"
  using assms
proof (induction "unat (fs_ssa st div 2) - unat (fs_scl st)" arbitrary: st s rule: less_induct)
  case less
  let ?h = "fs_ssa st div 2"
  have u: "unat (fs_scl st + 100) = unat (fs_scl st) + 100" using less.prems by (simp add: unat_word_ariths)
  show ?case
  proof (cases "?h \<le> fs_scl st + 100")
    case True
    have nl: "\<not> (if fs_scl st < ?h then ?h else fs_scl st) < ?h" by simp
    show ?thesis
      using True nl less.prems(3) by (subst format_steps.simps) (simp add: tf_initializeMediaNoBlock_def Let_def)
  next
    case False
    let ?st = "st\<lparr>fs_scl := fs_scl st + 100\<rparr>" and ?s = "clear_fats (fs_ssa st) (fs_scl st + 100) (fs_scl st) s"
    have lt: "fs_scl st < fs_scl st + 100" using u by (simp add: word_less_nat_alt)
    have h: "fs_scl st + 100 < ?h" using False by simp
    have m: "unat (fs_ssa ?st div 2) - unat (fs_scl ?st) < unat ?h - unat (fs_scl st)"
      "unat (fs_ssa ?st div 2) < 4194304" "unat (fs_scl ?st) < 4194304" "sectors_per_cluster ?st = 32"
      using u h less.prems by (simp_all add: word_less_nat_alt)
    have "format_steps nsec st s = format_steps nsec ?st ?s"
      using False lt h by (subst format_steps.simps) (simp add: tf_initializeMediaNoBlock_def Let_def)
    also have "\<dots> = Some (put_sector fat_head 32 (clear_fats (fs_ssa st) ?h (fs_scl st + 100) ?s))"
      using less.hyps [OF m, of ?s] by simp
    also have "clear_fats (fs_ssa st) ?h (fs_scl st + 100) ?s = clear_fats (fs_ssa st) ?h (fs_scl st) s"
      using clear_fats_split [of "fs_scl st + 100" ?h "fs_ssa st" "fs_scl st" s] h lt by simp
    finally show ?thesis .
  qed
qed

lemma format_in_steps_at:
  assumes "answers s"
  shows "format_in_steps nsec st s = map_option snd (tf_initializeMedia nsec s)"
proof -
  note d = data_start [of nsec]
  have "unat ((2 * (nsec div 4095) + 32) div 2) < 4194304" using d by simp
  then show ?thesis
    by (simp add: format_in_steps_def tf_initializeMediaNoBlock_def tf_initializeMedia_def
        format_start_disk format_steps_all Let_def assms)
qed

section \<open>Mounting a formatted disk\<close>

lemma length_bytes [simp]: "length (bytes16 x) = 2" "length (bytes32 y) = 4"
  by (simp_all add: bytes16_def bytes32_def)

lemma bpb_of_of_bpb:
  assumes "length (BS_JumpBoot p) = 3" "length (BS_OEMName p) = 8" "length (Reserved p) = 12"
    "length (BS_VolumeLabel p) = 11" "length (BS_FileSystemType p) = 8"
  shows "bpb_of (of_bpb p) = p \<and> length (of_bpb p) = 90"
proof -
  obtain a0 a1 a2 where 1: "BS_JumpBoot p = [a0, a1, a2]"
    using assms(1) by (auto simp: numeral_eq_Suc length_Suc_conv)
  obtain b0 b1 b2 b3 b4 b5 b6 b7 where 2: "BS_OEMName p = [b0, b1, b2, b3, b4, b5, b6, b7]"
    using assms(2) by (auto simp: numeral_eq_Suc length_Suc_conv)
  obtain c0 c1 c2 c3 c4 c5 c6 c7 c8 c9 c10 c11 where 3: "Reserved p = [c0, c1, c2, c3, c4, c5, c6, c7, c8, c9, c10, c11]"
    using assms(3) by (auto simp: numeral_eq_Suc length_Suc_conv)
  obtain d0 d1 d2 d3 d4 d5 d6 d7 d8 d9 d10 where 4: "BS_VolumeLabel p = [d0, d1, d2, d3, d4, d5, d6, d7, d8, d9, d10]"
    using assms(4) by (auto simp: numeral_eq_Suc length_Suc_conv)
  obtain e0 e1 e2 e3 e4 e5 e6 e7 where 5: "BS_FileSystemType p = [e0, e1, e2, e3, e4, e5, e6, e7]"
    using assms(5) by (auto simp: numeral_eq_Suc length_Suc_conv)
  show ?thesis
    by (cases p) (use 1 2 3 4 5 in \<open>simp add: bpb_of_def of_bpb_def le16_def le32_def bytes16_def bytes32_def
        bytes16_bits bytes32_bits\<close>)
qed

lemma boot_sector_bpb: "bpb_of (map (\<lambda>i. boot_sector nsec (word_of_nat i)) [0..<90]) = new_bpb nsec"
proof -
  have b: "bpb_of (of_bpb (new_bpb nsec)) = new_bpb nsec" "length (of_bpb (new_bpb nsec)) = 90"
    using bpb_of_of_bpb [of "new_bpb nsec"] by (simp_all add: new_bpb_def bytes_of_def)
  have "boot_sector nsec (word_of_nat i) = of_bpb (new_bpb nsec) ! i" if i: "i < 90" for i
  proof -
    have u: "unat (word_of_nat i :: u64) = i" using i by (simp add: unat_of_nat)
    have "word_of_nat i \<noteq> (0x1fe :: u64)" "word_of_nat i \<noteq> (0x1ff :: u64)"
      using u i by (auto simp: word_unat_eq_iff)
    moreover have "unat (word_of_nat i - 0x5a :: u64) = 2 ^ 64 + i - 0x5a"
      using i u by (simp add: unat_sub_if' word_less_nat_alt)
    then have "\<not> unat (word_of_nat i - 0x5a :: u64) < length boot_message"
      using i by (simp add: boot_message_def bytes_of_def)
    moreover have "length boot_message \<le> 2 ^ 64 - 1" by (simp add: boot_message_def bytes_of_def)
    ultimately show ?thesis
      using b(2) i u by (simp add: boot_sector_def Let_def poke_apply)
  qed
  then have "map (\<lambda>i. boot_sector nsec (word_of_nat i)) [0..<90] = of_bpb (new_bpb nsec)"
    by (intro nth_equalityI) (simp_all add: b(2))
  with b(1) show ?thesis by simp
qed

text \<open>The state in which \<open>tf_init\<close> opens the root directory of a formatted disk.\<close>

definition on_volume :: "u32 \<Rightarrow> tfinfo \<Rightarrow> bool" where
  "on_volume nsec s \<longleftrightarrow> ftype s = 1 \<and> sectorsPerCluster s = 32 \<and> reservedSectors s = 32 \<and>
     totalSectors s = nsec \<and> firstDataSector s = 2 * (nsec div 4095) + 32"

lemma bpb_new_accepted: "bpb_accepted (new_bpb nsec)"
  by (simp add: bpb_accepted_def new_bpb_def)

lemma set_geometry_new: "set_geometry (new_bpb nsec) s =
   s\<lparr>totalSectors := nsec, sectorsPerCluster := 32, reservedSectors := 32,
     firstDataSector := 2 * (nsec div 4095) + 32, ftype := 1, rootDirectorySize := 0xffffffff\<rparr>"
  by (simp add: set_geometry_def new_bpb_def)

lemma root_view:
  assumes "on_volume nsec s" "cache_ok s" "sectorFlags s AND TF_FLAG_DIRTY = 0" "disk s = formatted nsec d"
    "4095 \<le> unat nsec"
  shows "dir_ok s (root_handle fp) 1" "at_pos s (root_handle fp) 0 = root_handle fp"
    "dir_entry s 2 0 = replicate 32 0"
proof -
  note g = data_start [of nsec]
  have F: "0 < unat nsec div 4095" using assms(5) by (simp add: div_greater_zero_iff)
  have b: "bpc s = 16384" using assms(1) by (simp add: bpc_def on_volume_def)
  have ps: "pos_sector s 2 q = 2 * (nsec div 4095) + 32" if "q \<le> 32" for q
    using that assms(1) by (simp add: pos_sector_def b tf_first_sector_def on_volume_def)
  have lw: "low (2 * (nsec div 4095) + 32)" using g by (simp add: low_def)
  have "links s 2 0" by (simp add: links_def TF_MARK_EOC32_def)
  then show "dir_ok s (root_handle fp) 1"
    using assms(1) lw by (simp add: dir_ok_def reaches_def b ps root_handle_def on_volume_def)
  show "at_pos s (root_handle fp) 0 = root_handle fp"
    by (simp add: at_pos_def root_handle_def)
  have "view s sec = disk s sec" if "low sec" for sec
    using assms(2,3) that dev_sector_low [OF that] by (simp add: view_def cache_ok_def)
  then have "file_byte s 2 q = 0" if "q < 32" for q
    using that lw F g assms(4) by (simp add: file_byte_def ps formatted_def Let_def)
  then show "dir_entry s 2 0 = replicate 32 0"
    unfolding dir_entry_def by (intro nth_equalityI) simp_all
qed

lemma measure_root_new:
  assumes "on_volume nsec s" "cache_ok s" "sectorFlags s AND TF_FLAG_DIRTY = 0" "disk s = formatted nsec d"
    "4095 \<le> unat nsec"
  shows "\<exists>s'. measure_root 0 [] (root_handle fp) s = Some (Inr (32, at_pos s (root_handle fp) 32, s')) \<and>
    cache_ok s' \<and> same_view s s'"
proof -
  note r = root_view(1,2) [OF assms, of fp] root_view(3) [OF assms]
  have "dir_at s (root_handle fp) 0 (root_handle fp) s" using assms(2) r(2) by (simp add: dir_at_def)
  from dir_read [OF r(1) this] obtain s' where
    "read_entry (root_handle fp) s = (replicate 32 0, at_pos s (root_handle fp) 32, s')" "cache_ok s'" "same_view s s'"
    using r(3) by (auto simp: dir_at_def root_handle_def)
  then show ?thesis by (subst measure_root.simps) simp
qed

lemma open_root:
  assumes "tf_get_free_handle (tf_file_handles fs) = (Some h, hs)" "f_flags (hs ! h) = TF_FLAG_OPEN"
  shows "\<not> halted (tf_info fs) \<Longrightarrow> tf_fopen user_copy [SLASH] ''r'' fs = Some (Inr (Handle h, fs\<lparr>tf_file_handles :=
    hs[h := (root_handle (hs ! h))\<lparr>f_filename := [SLASH]\<rparr>]\<rparr>))"
proof -
  have w: "walk_path [SLASH] (root_handle (hs ! h)) s = Some (Inr (True, root_handle (hs ! h), s))" for s
    using assms(2) by (subst walk_path.simps) (simp add: tf_walk_def root_handle_def TF_FLAG_OPEN_def TF_FLAG_ROOT_def)
  have m: "(root_handle fp)\<lparr>f_mode := f_mode (root_handle fp) OR TF_MODE_READ\<rparr> = root_handle fp" for fp
    by (simp add: root_handle_def TF_MODE_READ_def TF_MODE_WRITE_def TF_MODE_OVERWRITE_def)
  assume "\<not> halted (tf_info fs)"
  then show ?thesis
    by (simp add: tf_fopen_def tf_fnopen_def assms(1) w open_mode_def Let_def m SLASH_def [symmetric] settled_def)
qed

lemma close_clean:
  "f_flags (tf_file_handles fs ! h) AND TF_FLAG_DIRTY = 0 \<Longrightarrow>
   tf_fclose user_copy (Handle h) fs = Some (Inr (0, close_flags h fs))"
  by (simp add: tf_fclose_def) (simp add: tf_fflush.simps Let_def)

lemma root_handle_named: "(root_handle fp)\<lparr>f_filename := x\<rparr> = root_handle (fp\<lparr>f_filename := x\<rparr>)"
  by (cases fp) (simp add: root_handle_def)

lemma free_handle_found:
  assumes "length hs = TF_FILE_HANDLES" "fp \<in> set hs" "\<not> is_open fp"
  obtains h where "h < TF_FILE_HANDLES"
    "tf_get_free_handle hs = (Some h, hs[h := (hs ! h)\<lparr>f_flags := TF_FLAG_OPEN\<rparr>])"
proof -
  have "find (\<lambda>j. \<not> is_open (hs ! j)) [0..<TF_FILE_HANDLES] \<noteq> None"
    using assms by (auto simp: find_None_iff in_set_conv_nth)
  then obtain h where h: "find (\<lambda>j. \<not> is_open (hs ! j)) [0..<TF_FILE_HANDLES] = Some h" by blast
  then have "h < TF_FILE_HANDLES" by (auto simp: find_Some_iff)
  with h that show ?thesis
    using get_free_from_spec [of 0 TF_FILE_HANDLES hs] assms(1) by (simp add: tf_get_free_handle_def)
qed

lemma tf_init_formatted:
  assumes "4095 \<le> unat nsec" "disk (tf_info fs) = formatted nsec d"
    "length (tf_file_handles fs) = TF_FILE_HANDLES" "fp \<in> set (tf_file_handles fs)" "\<not> is_open fp"
    and live: "answers (tf_info fs)" "\<not> halted (tf_info fs)"
  shows "\<exists>s. tf_init user_copy fs = Some (Inr (0, fs\<lparr>tf_info := s\<lparr>rootDirectorySize := 32\<rparr>,
      tf_file_handles := replicate TF_FILE_HANDLES zero_handle\<rparr>)) \<and>
    on_volume nsec s \<and> cache_ok s \<and> (\<forall>sec. low sec \<longrightarrow> view s sec = formatted nsec d sec) \<and>
    dir_entry s 2 0 = replicate 32 0"
proof -
  let ?s0 = "(tf_info fs)\<lparr>currentSector := - 1, sectorFlags := 0\<rparr>"
  let ?s1 = "?s0\<lparr>buffer := boot_sector nsec, currentSector := 0\<rparr>"
  have "dev_sector 0 = 0" by (simp add: dev_sector_low low_def)
  then have s1: "tf_fetch 0 ?s0 = (0, ?s1)"
    using assms(2) live by (simp add: tf_fetch_def read_sector_def formatted_def)
  let ?s = "set_geometry (new_bpb nsec) ?s1"
  have s: "on_volume nsec ?s" "cache_ok ?s" "sectorFlags ?s AND TF_FLAG_DIRTY = 0" "disk ?s = formatted nsec d"
    using assms(2) by (simp_all add: set_geometry_new on_volume_def cache_ok_def low_def formatted_def)
  obtain h where h: "h < TF_FILE_HANDLES" "tf_get_free_handle (tf_file_handles fs) =
      (Some h, (tf_file_handles fs)[h := (tf_file_handles fs ! h)\<lparr>f_flags := TF_FLAG_OPEN\<rparr>])"
    using free_handle_found [OF assms(3-5)] by blast
  let ?fp = "root_handle ((tf_file_handles fs ! h)\<lparr>f_flags := TF_FLAG_OPEN, f_filename := [SLASH]\<rparr>)"
  have op: "tf_fopen user_copy [SLASH] ''r'' (fs\<lparr>tf_info := ?s\<rparr>) = Some (Inr (Handle h, fs\<lparr>tf_info := ?s,
      tf_file_handles := (tf_file_handles fs)[h := ?fp]\<rparr>))"
    using open_root [of "fs\<lparr>tf_info := ?s\<rparr>" h] h assms(3) live by (simp add: root_handle_named set_geometry_new)
  obtain s' where s': "measure_root 0 [] ?fp ?s = Some (Inr (32, at_pos ?s ?fp 32, s'))" "cache_ok s'" "same_view ?s s'"
    using measure_root_new [OF s assms(1)] by blast
  have l': "\<not> halted s'" using s'(3) live by (simp add: same_view_def same_geometry_def set_geometry_new)
  let ?fs = "fs\<lparr>tf_info := s', tf_file_handles := (tf_file_handles fs)[h := at_pos ?s ?fp 32]\<rparr>"
  have me: "on_handle (Handle h) (measure_root 0 []) (fs\<lparr>tf_info := ?s, tf_file_handles := (tf_file_handles fs)[h := ?fp]\<rparr>) =
      Some (Inr (32, ?fs))"
    using h(1) assms(3) s'(1) l' by (simp add: on_handle_def settled_def)
  have c1: "tf_fclose user_copy (Handle h) ?fs = Some (Inr (0, close_flags h ?fs))"
    using h(1) assms(3) by (intro close_clean)
      (simp add: at_pos_def root_handle_def TF_FLAG_DIRTY_def TF_FLAG_OPEN_def TF_FLAG_ROOT_def)
  let ?fs2 = "fs\<lparr>tf_info := s'\<lparr>rootDirectorySize := 32\<rparr>, tf_file_handles := replicate TF_FILE_HANDLES zero_handle\<rparr>"
  have "tf_fclose user_copy (Handle h) ?fs2 = Some (Inr (0, close_flags h ?fs2))"
    using h(1) by (intro close_clean) (simp add: zero_handle_def)
  moreover have "close_flags h ?fs2 = ?fs2"
    using h(1) by (simp add: close_flags_def tf_release_handle_def zero_handle_def list_update_same_conv)
  ultimately have c2: "tf_fclose user_copy (Handle h) ?fs2 = Some (Inr (0, ?fs2))" by simp
  have cl: "(close_flags h ?fs)\<lparr>tf_info := (tf_info (close_flags h ?fs))\<lparr>rootDirectorySize := 32\<rparr>,
      tf_file_handles := replicate TF_FILE_HANDLES zero_handle\<rparr> = ?fs2"
    by (simp add: close_flags_def)
  have hs: "halted ?s1 = False" using live by simp
  have bu: "buffer ?s1 = boot_sector nsec" and nz: "SectorsPerCluster (new_bpb nsec) \<noteq> 0"
    by (simp_all add: new_bpb_def)
  have "tf_init user_copy fs = Some (Inr (0, ?fs2))"
    unfolding tf_init_def Let_def s1 case_prod_conv bu boot_sector_bpb
    by (simp only: hs bpb_new_accepted nz not_True_eq_False if_False op opt_bnd_simps prod.case me c1 cl c2)
  moreover have "on_volume nsec s'" using s(1) s'(3) by (simp add: on_volume_def same_view_def same_geometry_def)
  moreover have "view s' sec = formatted nsec d sec" if "low sec" for sec
    using s s'(3) that dev_sector_low [OF that] by (simp add: same_view_def view_def cache_ok_def)
  moreover have "dir_entry s' 2 0 = replicate 32 0"
    using same_view_dir_entry [OF s'(3) root_view(1) [OF s assms(1)], of 0 ?fp]
      root_view(3) [OF s assms(1)] by (simp add: root_handle_def)
  ultimately show ?thesis using s'(2) by blast
qed

text \<open>formatting a device of \<open>nsec\<close> sectors leaves the boot sector in sectors 0 and 6, the \<open>FSInfo\<close>
  block in sector 1, in sector 32 a table whose first two entries are reserved and whose third ends
  the root directory's chain, and zeros in the other sectors below 16 + F and from 48 + F to the end
  of the root directory's first cluster, for F sectors in each table. All other sectors keep what
  they held, also the 32 from 16 + F on, which belong to the two tables.
\<close>

theorem tf_initializeMedia_writes:
  assumes "answers s"
  shows "tf_initializeMedia nsec s = Some (0, s\<lparr>disk := formatted nsec (disk s)\<rparr>)"
  using assms by (rule tf_initializeMedia_disk)

text \<open>formatting in steps of at most 100 sectors of the tables, whatever its static variables held
  before, ends, and leaves the disk that formatting in one go leaves.
\<close>

theorem format_in_steps_same:
  assumes "answers s"
  shows "format_in_steps nsec st s = map_option snd (tf_initializeMedia nsec s)"
  using assms by (rule format_in_steps_at)

text \<open>a device that stops at its first sector is never mounted: \<open>tf_init\<close> and the method \<open>init\<close> do not return.
  The card is such a device, for every access to it stops (\<open>raw_devices_stop\<close>).\<close>

theorem tf_init_stops:
  assumes "stops (tf_info fs) 0"
  shows "\<exists>e. tf_init user_copy fs = Some (Inl e) \<and> fat32_init user_copy fs = Some (Inl e)"
proof -
  have "dev_sector 0 = 0" by (simp add: dev_sector_low low_def)
  then have "halted (snd (tf_fetch 0 ((tf_info fs)\<lparr>currentSector := - 1, sectorFlags := 0\<rparr>)))"
    using assms by (simp add: tf_fetch_def read_sector_def)
  then have "tf_init user_copy fs = Some (Inl (Hang ''special device''))"
    by (simp add: tf_init_def Let_def case_prod_beta)
  then show ?thesis by (simp add: fat32_init_def)
qed

text \<open>a device of at least 4095 sectors, once formatted, is mounted by \<open>tf_init\<close> when a handle is
  free: it answers 0 with the geometry that was written (one sector in 4095 for each of two
  tables after 32 reserved sectors, 32 sectors in a cluster), an empty root directory of one
  entry's size, and all handles free.
\<close>

theorem format_then_mount:
  assumes "4095 \<le> unat nsec" "tf_initializeMedia nsec (tf_info fs) = Some (rc, formatted_info)"
    "length (tf_file_handles fs) = TF_FILE_HANDLES" "fp \<in> set (tf_file_handles fs)" "\<not> is_open fp"
    "answers (tf_info fs)" "\<not> halted (tf_info fs)"
  shows "\<exists>s. tf_init user_copy (fs\<lparr>tf_info := formatted_info\<rparr>) =
      Some (Inr (0, fs\<lparr>tf_info := s\<lparr>rootDirectorySize := 32\<rparr>,
        tf_file_handles := replicate TF_FILE_HANDLES zero_handle\<rparr>)) \<and>
    on_volume nsec s \<and> cache_ok s \<and> (\<forall>sec. low sec \<longrightarrow> view s sec = disk formatted_info sec) \<and>
    dir_entry s 2 0 = replicate 32 0"
proof -
  have d: "disk formatted_info = formatted nsec (disk (tf_info fs))" "answers formatted_info" "\<not> halted formatted_info"
    using assms(2,6,7) by (auto simp: tf_initializeMedia_disk)
  then show ?thesis
    using tf_init_formatted [OF assms(1), of "fs\<lparr>tf_info := formatted_info\<rparr>" "disk (tf_info fs)" fp] assms(3-5)
    by (simp add: d)
qed

theorem format_then_mount_witness:
  "\<exists>s. tf_init (\<lambda>_. None) \<lparr>tf_info = dir_fs\<lparr>disk := formatted 0x100000 (disk dir_fs)\<rparr>,
        tf_file_handles = replicate TF_FILE_HANDLES zero_handle\<rparr> =
      Some (Inr (0, \<lparr>tf_info = s\<lparr>rootDirectorySize := 32\<rparr>,
        tf_file_handles = replicate TF_FILE_HANDLES zero_handle\<rparr>)) \<and>
    totalSectors s = 0x100000 \<and> dir_entry s 2 0 = replicate 32 0"
proof -
  have f: "tf_initializeMedia 0x100000 dir_fs = Some (0, dir_fs\<lparr>disk := formatted 0x100000 (disk dir_fs)\<rparr>)"
    by (rule tf_initializeMedia_disk) (simp add: dir_fs_live)
  have o: "\<not> is_open zero_handle" by (simp add: is_open_def zero_handle_def)
  have m: "zero_handle \<in> set (replicate TF_FILE_HANDLES zero_handle)" by (simp add: TF_FILE_HANDLES_def)
  show ?thesis
    using format_then_mount [of "0x100000" "\<lparr>tf_info = dir_fs, tf_file_handles = replicate TF_FILE_HANDLES zero_handle\<rparr>"
        0 "dir_fs\<lparr>disk := formatted 0x100000 (disk dir_fs)\<rparr>" zero_handle "\<lambda>_. None"] f o m dir_fs_live
    by (auto simp: on_volume_def)
qed

end
