(* ===== verification/Rtc.thy ===== *)
theory Rtc
  imports Prelude
begin

text \<open>
  The real-time clock, \<open>driver/rtc.c\<close>: its registers with the widths of their bit fields, the
  calendar arithmetic, setting and reading timer and alarm, interrupts and the callback they
  run. The registers hold what was written last: the clock does not advance between the
  operations of the model.
\<close>

section \<open>Calendar\<close>

text \<open>\<open>struct tm\<close> (libs/time.h).\<close>

record tm =
  tm_sec :: int
  tm_min :: int
  tm_hour :: int
  tm_mday :: int
  tm_mon :: int
  tm_year :: int
  tm_wday :: int
  tm_yday :: int
  tm_isdst :: int

definition rtc_in_range :: "int \<Rightarrow> int \<Rightarrow> int \<Rightarrow> bool" where
  "rtc_in_range value mn mx \<longleftrightarrow> value \<ge> mn \<and> value \<le> mx"

definition rtc_year_is_leap :: "int \<Rightarrow> bool" where
  "rtc_year_is_leap year \<longleftrightarrow> year smod 4 = 0 \<and> year smod 100 \<noteq> 0 \<or> year smod 400 = 0"

text \<open>\<open>None\<close>: the month is outside the table.\<close>

definition yday_table :: "bool \<Rightarrow> int list" where
  "yday_table leap =
     (if leap then [0, 0, 31, 60, 91, 121, 152, 182, 213, 244, 274, 305, 335]
      else [0, 0, 31, 59, 90, 120, 151, 181, 212, 243, 273, 304, 334])"

definition rtc_get_yday :: "int \<Rightarrow> int \<Rightarrow> int \<Rightarrow> int option" where
  "rtc_get_yday year month day =
     (let leap = rtc_year_is_leap year in
      if 0 \<le> month \<and> month < 13 then Some (yday_table leap ! nat month + day) else None)"

text \<open>\<open>day += month < 3 ? year-- : year - 2\<close>, then the sum.\<close>

definition rtc_get_wday :: "int \<Rightarrow> int \<Rightarrow> int \<Rightarrow> int" where
  "rtc_get_wday year month day =
     (let (day, year) = (if month < 3 then (day + year, year - 1) else (day + (year - 2), year))
      in (23 * month sdiv 9 + day + 4 + year sdiv 4 - year sdiv 100 + year sdiv 400) smod 7)"

section \<open>Registers\<close>

record rtc_date =
  d_week :: "3 word"
  d_resv0 :: "5 word"
  d_day :: "5 word"
  d_resv1 :: "3 word"
  d_month :: "4 word"
  d_year :: "12 word"

record rtc_time =
  t_resv0 :: "10 word"
  t_second :: "6 word"
  t_minute :: "6 word"
  t_resv1 :: "2 word"
  t_hour :: "5 word"
  t_resv2 :: "3 word"

text \<open>\<open>rtc_alarm_date_t\<close> and \<open>rtc_alarm_time_t\<close> have the same fields.\<close>

type_synonym rtc_alarm_date = rtc_date
type_synonym rtc_alarm_time = rtc_time

record rtc_interrupt_ctrl =
  tick_enable :: "1 word"
  alarm_enable :: "1 word"
  tick_int_mode :: "2 word"
  ic_resv :: "20 word"
  alarm_compare_mask :: "8 word"

record rtc_register_ctrl =
  read_enable :: "1 word"
  write_enable :: "1 word"
  rc_resv0 :: "11 word"
  timer_mask :: "8 word"
  alarm_mask :: "8 word"
  initial_count_mask :: "1 word"
  interrupt_register_mask :: "1 word"
  rc_resv1 :: "1 word"

record rtc_extended =
  century :: "5 word"
  leap_year :: "1 word"
  e_resv :: "26 word"

text \<open>\<open>rtc_mask_t\<close>, the first field in the least significant bit.\<close>

record rtc_mask =
  mask_resv :: bool
  mask_second :: bool
  mask_minute :: bool
  mask_hour :: bool
  mask_week :: bool
  mask_day :: bool
  mask_month :: bool
  mask_year :: bool

definition mask_byte :: "rtc_mask \<Rightarrow> 8 word" where
  "mask_byte k = of_bool (mask_resv k) + 2 * of_bool (mask_second k) + 4 * of_bool (mask_minute k)
     + 8 * of_bool (mask_hour k) + 16 * of_bool (mask_week k) + 32 * of_bool (mask_day k)
     + 64 * of_bool (mask_month k) + 128 * of_bool (mask_year k)"

definition byte_mask :: "8 word \<Rightarrow> rtc_mask" where
  "byte_mask b = \<lparr>mask_resv = bit b 0, mask_second = bit b 1, mask_minute = bit b 2,
     mask_hour = bit b 3, mask_week = bit b 4, mask_day = bit b 5, mask_month = bit b 6,
     mask_year = bit b 7\<rparr>"

text \<open>A callback is a function and its context, as numbers; 0 is \<open>NULL\<close>.\<close>

record rtc_instance_t =
  rtc_tick_callback :: u64
  tick_ctx :: u64
  rtc_alarm_callback :: u64
  alarm_ctx :: u64
  tick_is_single_shot :: bool
  alarm_is_single_shot :: bool
  tick_enable_by_alarm :: bool
  tick_enable_by_user :: bool
  tick_mode_by_user :: u32
  tick_mode_by_alarm :: u32

record rtc =
  r_date :: rtc_date
  r_time :: rtc_time
  r_alarm_date :: rtc_alarm_date
  r_alarm_time :: rtc_alarm_time
  r_initial_count :: u32
  r_current_count :: u32
  r_interrupt_ctrl :: rtc_interrupt_ctrl
  r_register_ctrl :: rtc_register_ctrl
  r_extended :: rtc_extended
  rtc_timer_date_time :: tm
  rtc_alarm_date_time :: tm
  rtc_instance :: rtc_instance_t

section \<open>Modes\<close>

definition RTC_TIMER_PAUSE :: int where "RTC_TIMER_PAUSE = 0"
definition RTC_TIMER_RUNNING :: int where "RTC_TIMER_RUNNING = 1"
definition RTC_TIMER_SETTING :: int where "RTC_TIMER_SETTING = 2"
definition RTC_INT_SECOND :: u32 where "RTC_INT_SECOND = 0"
definition RTC_INT_MINUTE :: u32 where "RTC_INT_MINUTE = 1"
definition RTC_INT_HOUR :: u32 where "RTC_INT_HOUR = 2"
definition RTC_INT_DAY :: u32 where "RTC_INT_DAY = 3"
definition RTC_INT_MAX :: u32 where "RTC_INT_MAX = 4"

text \<open>The counting loop in between has no effect.\<close>

definition rtc_timer_set_mode :: "int \<Rightarrow> rtc \<Rightarrow> rtc" where
  "rtc_timer_set_mode timer_mode s =
     (let rc = r_register_ctrl s;
          rc = (if timer_mode = RTC_TIMER_PAUSE then rc\<lparr>read_enable := 0, write_enable := 0\<rparr>
                else if timer_mode = RTC_TIMER_RUNNING then rc\<lparr>read_enable := 1, write_enable := 0\<rparr>
                else if timer_mode = RTC_TIMER_SETTING then rc\<lparr>read_enable := 0, write_enable := 1\<rparr>
                else rc\<lparr>read_enable := 0, write_enable := 0\<rparr>)
      in s\<lparr>r_register_ctrl := rc\<rparr>)"

definition rtc_timer_get_mode :: "rtc \<Rightarrow> int \<times> rtc" where
  "rtc_timer_get_mode s =
     (let rc = r_register_ctrl s in
      if read_enable rc = 0 \<and> write_enable rc = 0 then (RTC_TIMER_PAUSE, s)
      else if read_enable rc \<noteq> 0 \<and> write_enable rc = 0 then (RTC_TIMER_RUNNING, s)
      else if read_enable rc = 0 \<and> write_enable rc \<noteq> 0 then (RTC_TIMER_RUNNING, s)
      else (RTC_TIMER_PAUSE, rtc_timer_set_mode RTC_TIMER_PAUSE s))"

section \<open>Setting\<close>

text \<open>
  The local register values start with what the stack holds (\<open>d\<close>, \<open>t\<close>, \<open>e\<close>): the reserved
  fields and \<open>leap_year\<close> are never assigned.
\<close>

definition rtc_timer_set_tm ::
    "rtc_date \<times> rtc_time \<times> rtc_extended \<Rightarrow> tm \<Rightarrow> rtc \<Rightarrow> int \<times> rtc" where
  "rtc_timer_set_tm junk tm s =
     (let (d, t, e) = junk in
      if \<not> rtc_in_range (tm_sec tm) 0 59 then (- 1, s)
      else let t = t\<lparr>t_second := word_of_int (tm_sec tm)\<rparr> in
      if \<not> rtc_in_range (tm_min tm) 0 59 then (- 1, s)
      else let t = t\<lparr>t_minute := word_of_int (tm_min tm)\<rparr> in
      if \<not> rtc_in_range (tm_hour tm) 0 23 then (- 1, s)
      else let t = t\<lparr>t_hour := word_of_int (tm_hour tm)\<rparr> in
      if \<not> rtc_in_range (tm_mday tm) 1 31 then (- 1, s)
      else let d = d\<lparr>d_day := word_of_int (tm_mday tm)\<rparr> in
      if \<not> rtc_in_range (tm_mon tm) 0 11 then (- 1, s)
      else let d = d\<lparr>d_month := word_of_int (tm_mon tm + 1)\<rparr>;
               human_year = tm_year tm + 1900;
               rtc_year = human_year smod 100;
               rtc_century = human_year sdiv 100 in
      if \<not> (rtc_in_range rtc_year 0 99 \<and> rtc_in_range rtc_century 0 31) then (- 1, s)
      else let d = d\<lparr>d_year := word_of_int rtc_year\<rparr>;
               e = e\<lparr>century := word_of_int rtc_century\<rparr> in
      if \<not> rtc_in_range (tm_wday tm) 0 6 then (- 1, s)
      else let d = d\<lparr>d_week := word_of_int (tm_wday tm)\<rparr>;
               s = rtc_timer_set_mode RTC_TIMER_SETTING s;
               s = s\<lparr>r_date := d\<rparr>;
               s = s\<lparr>r_time := t\<rparr>;
               s = s\<lparr>r_extended := e\<rparr>
           in (0, rtc_timer_set_mode RTC_TIMER_RUNNING s))"

definition rtc_alarm_set_tm :: "rtc_alarm_date \<times> rtc_alarm_time \<Rightarrow> tm \<Rightarrow> rtc \<Rightarrow> int \<times> rtc" where
  "rtc_alarm_set_tm junk tm s =
     (let (d, t) = junk in
      if \<not> rtc_in_range (tm_sec tm) 0 59 then (- 1, s)
      else let t = t\<lparr>t_second := word_of_int (tm_sec tm)\<rparr> in
      if \<not> rtc_in_range (tm_min tm) 0 59 then (- 1, s)
      else let t = t\<lparr>t_minute := word_of_int (tm_min tm)\<rparr> in
      if \<not> rtc_in_range (tm_hour tm) 0 23 then (- 1, s)
      else let t = t\<lparr>t_hour := word_of_int (tm_hour tm)\<rparr> in
      if \<not> rtc_in_range (tm_mday tm) 1 31 then (- 1, s)
      else let d = d\<lparr>d_day := word_of_int (tm_mday tm)\<rparr> in
      if \<not> rtc_in_range (tm_mon tm) 0 11 then (- 1, s)
      else let d = d\<lparr>d_month := word_of_int (tm_mon tm + 1)\<rparr>;
               human_year = tm_year tm + 1900;
               rtc_year = human_year smod 100;
               rtc_century = human_year sdiv 100 in
      if \<not> (rtc_in_range rtc_year 0 99 \<and> rtc_in_range rtc_century 0 31) then (- 1, s)
      else let d = d\<lparr>d_year := word_of_int rtc_year\<rparr> in
      if \<not> rtc_in_range (tm_wday tm) 0 6 then (- 1, s)
      else let d = d\<lparr>d_week := word_of_int (tm_wday tm)\<rparr>;
               s = rtc_timer_set_mode RTC_TIMER_SETTING s;
               s = s\<lparr>r_alarm_date := d\<rparr>;
               s = s\<lparr>r_alarm_time := t\<rparr>
           in (0, rtc_timer_set_mode RTC_TIMER_RUNNING s))"

definition date_time_of :: "int \<Rightarrow> int \<Rightarrow> int \<Rightarrow> int \<Rightarrow> int \<Rightarrow> int \<Rightarrow> tm option" where
  "date_time_of year month day hour minute second =
     map_option (\<lambda>yday.
       \<lparr>tm_sec = second, tm_min = minute, tm_hour = hour, tm_mday = day, tm_mon = month - 1,
        tm_year = year - 1900, tm_wday = rtc_get_wday year month day, tm_yday = yday,
        tm_isdst = - 1\<rparr>)
       (rtc_get_yday year month day)"

definition rtc_timer_set ::
    "rtc_date \<times> rtc_time \<times> rtc_extended \<Rightarrow> int \<Rightarrow> int \<Rightarrow> int \<Rightarrow> int \<Rightarrow> int \<Rightarrow> int \<Rightarrow> rtc \<Rightarrow> (int \<times> rtc) option"
where
  "rtc_timer_set junk year month day hour minute second s =
     map_option (\<lambda>tm. rtc_timer_set_tm junk tm s) (date_time_of year month day hour minute second)"

definition rtc_alarm_set ::
    "rtc_alarm_date \<times> rtc_alarm_time \<Rightarrow> int \<Rightarrow> int \<Rightarrow> int \<Rightarrow> int \<Rightarrow> int \<Rightarrow> int \<Rightarrow> rtc \<Rightarrow> (int \<times> rtc) option"
where
  "rtc_alarm_set junk year month day hour minute second s =
     map_option (\<lambda>tm. rtc_alarm_set_tm junk tm s) (date_time_of year month day hour minute second)"

section \<open>Reading\<close>

text \<open>
  The common part of the two readers; the month index is between 0 and 12 here, so the table
  lookup is inside.
\<close>

definition tm_of_registers :: "rtc_date \<Rightarrow> rtc_time \<Rightarrow> rtc_extended \<Rightarrow> tm" where
  "tm_of_registers d t e =
     (let mday = uint (d_day d) smod 32;
          mon = (uint (d_month d) - 1) smod 12;
          year = uint (d_year d) smod 100 + uint (century e) * 100 - 1900
      in \<lparr>tm_sec = uint (t_second t) smod 61, tm_min = uint (t_minute t) smod 60,
          tm_hour = uint (t_hour t) smod 24, tm_mday = mday, tm_mon = mon, tm_year = year,
          tm_wday = uint (d_week d) smod 7,
          tm_yday = the (rtc_get_yday (year + 1900) (mon + 1) mday) smod 366, tm_isdst = - 1\<rparr>)"

text \<open>The result says whether the returned pointer is \<open>NULL\<close>; the value is in the global.\<close>

definition rtc_timer_get_tm :: "rtc \<Rightarrow> bool \<times> rtc" where
  "rtc_timer_get_tm s =
     (let (mode, s) = rtc_timer_get_mode s in
      if mode \<noteq> RTC_TIMER_RUNNING then (False, s)
      else (True, s\<lparr>rtc_timer_date_time := tm_of_registers (r_date s) (r_time s) (r_extended s)\<rparr>))"

definition rtc_alarm_get_tm :: "rtc \<Rightarrow> bool \<times> rtc" where
  "rtc_alarm_get_tm s =
     (let (mode, s) = rtc_timer_get_mode s in
      if mode \<noteq> RTC_TIMER_RUNNING then (False, s)
      else (True, s\<lparr>rtc_alarm_date_time := tm_of_registers (r_alarm_date s) (r_alarm_time s) (r_extended s)\<rparr>))"

text \<open>The result code and the six values, for a caller that passes six pointers.\<close>

definition rtc_timer_get :: "rtc \<Rightarrow> (int \<times> int list) \<times> rtc" where
  "rtc_timer_get s =
     (let (ok, s) = rtc_timer_get_tm s; tm = rtc_timer_date_time s in
      if ok then ((0, [tm_year tm + 1900, tm_mon tm + 1, tm_mday tm, tm_hour tm, tm_min tm, tm_sec tm]), s)
      else ((- 1, []), s))"

definition rtc_alarm_get :: "rtc \<Rightarrow> (int \<times> int list) \<times> rtc" where
  "rtc_alarm_get s =
     (let (ok, s) = rtc_alarm_get_tm s; tm = rtc_alarm_date_time s in
      if ok then ((0, [tm_year tm + 1900, tm_mon tm + 1, tm_mday tm, tm_hour tm, tm_min tm, tm_sec tm]), s)
      else ((- 1, []), s))"

section \<open>Counters, interrupts, protection\<close>

definition rtc_timer_set_clock_frequency :: "u32 \<Rightarrow> rtc \<Rightarrow> rtc" where
  "rtc_timer_set_clock_frequency frequency s =
     (let s = rtc_timer_set_mode RTC_TIMER_SETTING s; s = s\<lparr>r_initial_count := frequency\<rparr>
      in rtc_timer_set_mode RTC_TIMER_RUNNING s)"

definition rtc_timer_get_clock_frequency :: "rtc \<Rightarrow> u32" where
  "rtc_timer_get_clock_frequency s = r_initial_count s"

definition rtc_timer_set_clock_count_value :: "u32 \<Rightarrow> rtc \<Rightarrow> rtc" where
  "rtc_timer_set_clock_count_value count s =
     (let s = rtc_timer_set_mode RTC_TIMER_SETTING s; s = s\<lparr>r_current_count := count\<rparr>
      in rtc_timer_set_mode RTC_TIMER_RUNNING s)"

definition rtc_timer_get_clock_count_value :: "rtc \<Rightarrow> u32" where
  "rtc_timer_get_clock_count_value s = r_current_count s"

definition write_interrupt_ctrl :: "rtc_interrupt_ctrl \<Rightarrow> rtc \<Rightarrow> rtc" where
  "write_interrupt_ctrl ic s =
     (let s = rtc_timer_set_mode RTC_TIMER_SETTING s; s = s\<lparr>r_interrupt_ctrl := ic\<rparr>
      in rtc_timer_set_mode RTC_TIMER_RUNNING s)"

definition rtc_tick_set_interrupt :: "int \<Rightarrow> rtc \<Rightarrow> rtc" where
  "rtc_tick_set_interrupt enable s =
     write_interrupt_ctrl ((r_interrupt_ctrl s)\<lparr>tick_enable := word_of_int enable\<rparr>) s"

definition rtc_tick_get_interrupt :: "rtc \<Rightarrow> int" where
  "rtc_tick_get_interrupt s = uint (tick_enable (r_interrupt_ctrl s))"

definition rtc_tick_set_interrupt_mode :: "u32 \<Rightarrow> rtc \<Rightarrow> rtc" where
  "rtc_tick_set_interrupt_mode mode s =
     write_interrupt_ctrl ((r_interrupt_ctrl s)\<lparr>tick_int_mode := ucast mode\<rparr>) s"

definition rtc_tick_get_interrupt_mode :: "rtc \<Rightarrow> u32" where
  "rtc_tick_get_interrupt_mode s = ucast (tick_int_mode (r_interrupt_ctrl s))"

definition rtc_alarm_set_interrupt :: "int \<Rightarrow> rtc \<Rightarrow> rtc" where
  "rtc_alarm_set_interrupt enable s =
     write_interrupt_ctrl ((r_interrupt_ctrl s)\<lparr>alarm_enable := word_of_int enable\<rparr>) s"

definition rtc_alarm_get_interrupt :: "rtc \<Rightarrow> int" where
  "rtc_alarm_get_interrupt s = uint (alarm_enable (r_interrupt_ctrl s))"

definition rtc_alarm_set_mask :: "rtc_mask \<Rightarrow> rtc \<Rightarrow> rtc" where
  "rtc_alarm_set_mask k s =
     write_interrupt_ctrl ((r_interrupt_ctrl s)\<lparr>alarm_compare_mask := mask_byte k\<rparr>) s"

definition rtc_alarm_get_mask :: "rtc \<Rightarrow> rtc_mask" where
  "rtc_alarm_get_mask s = byte_mask (alarm_compare_mask (r_interrupt_ctrl s))"

definition rtc_protect_set :: "int \<Rightarrow> rtc \<Rightarrow> rtc" where
  "rtc_protect_set enable s =
     (let rc = r_register_ctrl s;
          mark = \<lparr>mask_resv = False, mask_second = True, mask_minute = True, mask_hour = True,
                  mask_week = True, mask_day = True, mask_month = True, mask_year = True\<rparr>;
          unmask = \<lparr>mask_resv = False, mask_second = False, mask_minute = False, mask_hour = False,
                    mask_week = False, mask_day = False, mask_month = False, mask_year = False\<rparr>;
          rc = (if enable \<noteq> 0
                then rc\<lparr>timer_mask := mask_byte unmask, alarm_mask := mask_byte unmask,
                        initial_count_mask := 0, interrupt_register_mask := 0\<rparr>
                else rc\<lparr>timer_mask := mask_byte mark, alarm_mask := mask_byte mark,
                        initial_count_mask := 1, interrupt_register_mask := 1\<rparr>)
      in s\<lparr>r_register_ctrl := rc\<rparr>)"

text \<open>
  \<open>sysctl_reset\<close> and \<open>sysctl_clock_get_freq\<close> are declared in driver/sysctl.h and defined nowhere in the
  repository: what the reset does to the registers and the frequency are arguments. Enabling the
  clock does not change the registers.
\<close>

definition rtc_init :: "(rtc \<Rightarrow> rtc) \<Rightarrow> u32 \<Rightarrow> rtc \<Rightarrow> int \<times> rtc" where
  "rtc_init reset freq_in0 s =
     (let s = reset s;
          s = rtc_protect_set 0 s;
          s = rtc_timer_set_clock_frequency freq_in0 s;
          s = rtc_timer_set_clock_count_value 1 s
      in (0, rtc_timer_set_mode RTC_TIMER_RUNNING s))"

section \<open>The interrupt callback and its registration\<close>

text \<open>
  \<open>rtc_instance\<close> before any registration; \<open>NULL\<close> callbacks and contexts.
\<close>

definition rtc_instance_init :: rtc_instance_t where
  "rtc_instance_init = \<lparr>rtc_tick_callback = 0, tick_ctx = 0, rtc_alarm_callback = 0, alarm_ctx = 0,
     tick_is_single_shot = False, alarm_is_single_shot = False, tick_enable_by_alarm = False,
     tick_enable_by_user = False, tick_mode_by_user = - 1, tick_mode_by_alarm = RTC_INT_MAX\<rparr>"

text \<open>
  The alarm comparison of \<open>rtc_irq_callback\<close>: whether no \<open>goto tick\<close> is taken. The week is never
  compared.
\<close>

definition alarm_matches :: "rtc_mask \<Rightarrow> tm \<Rightarrow> tm \<Rightarrow> bool" where
  "alarm_matches k now alarm \<longleftrightarrow>
     mask_byte k AND 0xFE \<noteq> 0
     \<and> (mask_year k \<longrightarrow> tm_year now = tm_year alarm)
     \<and> (mask_month k \<longrightarrow> tm_mon now = tm_mon alarm)
     \<and> (mask_day k \<longrightarrow> tm_mday now = tm_mday alarm)
     \<and> (mask_hour k \<longrightarrow> tm_hour now = tm_hour alarm)
     \<and> (mask_minute k \<longrightarrow> tm_min now = tm_min alarm)
     \<and> (mask_second k \<longrightarrow> tm_sec now = tm_sec alarm)"

text \<open>The restoring of the user's tick interrupt, the same lines in two functions.\<close>

definition restore_user_tick :: "rtc \<Rightarrow> rtc" where
  "restore_user_tick s =
     (if tick_enable_by_user (rtc_instance s) then
        if tick_mode_by_user (rtc_instance s) > rtc_tick_get_interrupt_mode s then
          rtc_tick_set_interrupt 1
            (rtc_tick_set_interrupt_mode (tick_mode_by_user (rtc_instance s)) (rtc_tick_set_interrupt 0 s))
        else s
      else rtc_tick_set_interrupt 0 s)"

text \<open>
  \<open>call f ctx\<close> is the effect of the function at \<open>f\<close>, which the driver is given. The context is
  \<open>&rtc_instance\<close>. Both readers of the time return \<open>NULL\<close> when the clock is not running and the
  result is used all the same: the access to page 0 ends in \<open>kerneltrap\<close>.
\<close>

definition alarm_part :: "(u64 \<Rightarrow> u64 \<Rightarrow> rtc \<Rightarrow> rtc) \<Rightarrow> bool \<Rightarrow> rtc \<Rightarrow> rtc res" where
  "alarm_part call now_ok s =
     (if rtc_alarm_get_interrupt s = 0 then Inr s
      else let (alarm_ok, s) = rtc_alarm_get_tm s; k = rtc_alarm_get_mask s in
        if mask_byte k AND 0xFE = 0 then Inr s
        else if \<not> (now_ok \<and> alarm_ok) \<and> (mask_year k \<or> mask_month k \<or> mask_day k \<or> mask_hour k \<or> mask_minute k \<or> mask_second k)
        then null_deref
        else if \<not> alarm_matches k (rtc_timer_date_time s) (rtc_alarm_date_time s) then Inr s
        else let s = (if alarm_is_single_shot (rtc_instance s) then
                        let s = rtc_alarm_set_interrupt 0 s;
                            s = s\<lparr>rtc_instance := (rtc_instance s)\<lparr>tick_enable_by_alarm := False, tick_mode_by_alarm := RTC_INT_MAX\<rparr>\<rparr>
                        in restore_user_tick s
                      else s)
             in Inr (if rtc_alarm_callback (rtc_instance s) \<noteq> 0
                     then call (rtc_alarm_callback (rtc_instance s)) (alarm_ctx (rtc_instance s)) s else s))"

definition tick_due :: "u32 \<Rightarrow> tm \<Rightarrow> bool" where
  "tick_due mode now \<longleftrightarrow>
     (if mode = RTC_INT_MINUTE then tm_sec now = 0
      else if mode = RTC_INT_HOUR then tm_sec now = 0 \<and> tm_min now = 0
      else if mode = RTC_INT_DAY then tm_sec now = 0 \<and> tm_min now = 0 \<and> tm_hour now = 0
      else True)"

definition tick_part :: "(u64 \<Rightarrow> u64 \<Rightarrow> rtc \<Rightarrow> rtc) \<Rightarrow> bool \<Rightarrow> rtc \<Rightarrow> rtc res" where
  "tick_part call now_ok s =
     (if \<not> tick_enable_by_user (rtc_instance s) then Inr s
      else let mode = tick_mode_by_user (rtc_instance s) in
        if \<not> now_ok \<and> (mode = RTC_INT_MINUTE \<or> mode = RTC_INT_HOUR \<or> mode = RTC_INT_DAY) then null_deref
        else if \<not> tick_due mode (rtc_timer_date_time s) then Inr s
        else let s = (if tick_is_single_shot (rtc_instance s) then
                        let s = rtc_tick_set_interrupt 0 s
                        in s\<lparr>rtc_instance := (rtc_instance s)\<lparr>tick_enable_by_user := False, tick_mode_by_user := - 1\<rparr>\<rparr>
                      else s)
             in Inr (if rtc_tick_callback (rtc_instance s) \<noteq> 0
                     then call (rtc_tick_callback (rtc_instance s)) (tick_ctx (rtc_instance s)) s else s))"

definition rtc_irq_callback :: "(u64 \<Rightarrow> u64 \<Rightarrow> rtc \<Rightarrow> rtc) \<Rightarrow> rtc \<Rightarrow> rtc res" where
  "rtc_irq_callback call s =
     (let (now_ok, s) = rtc_timer_get_tm s
      in bnd (alarm_part call now_ok s) (tick_part call now_ok))"

definition rtc_tick_irq_register :: "bool \<Rightarrow> u32 \<Rightarrow> u64 \<Rightarrow> u64 \<Rightarrow> rtc \<Rightarrow> rtc" where
  "rtc_tick_irq_register is_single_shot mode callback ctx s =
     (let s = rtc_tick_set_interrupt 0 s;
          s = s\<lparr>rtc_instance := (rtc_instance s)\<lparr>rtc_tick_callback := callback, tick_ctx := ctx,
                  tick_is_single_shot := is_single_shot, tick_enable_by_user := True,
                  tick_mode_by_user := mode\<rparr>\<rparr>;
          s = (if \<not> tick_enable_by_alarm (rtc_instance s)
                  \<or> (tick_enable_by_alarm (rtc_instance s) \<and> mode < rtc_tick_get_interrupt_mode s)
               then rtc_tick_set_interrupt_mode mode s else s)
      in rtc_tick_set_interrupt 1 s)"

definition rtc_tick_irq_unregister :: "rtc \<Rightarrow> rtc" where
  "rtc_tick_irq_unregister s =
     (let s = (if rtc_alarm_get_interrupt s = 0 then rtc_tick_set_interrupt 0 s else s)
      in s\<lparr>rtc_instance := (rtc_instance s)\<lparr>tick_enable_by_user := False, tick_mode_by_user := - 1,
             rtc_tick_callback := 0, tick_ctx := 0\<rparr>\<rparr>)"

definition rtc_alarm_irq_register :: "bool \<Rightarrow> rtc_mask \<Rightarrow> u64 \<Rightarrow> u64 \<Rightarrow> rtc \<Rightarrow> rtc" where
  "rtc_alarm_irq_register is_single_shot k callback ctx s =
     (let s = rtc_tick_set_interrupt 0 s;
          s = rtc_alarm_set_interrupt 0 s;
          mode = (if mask_second k then RTC_INT_SECOND
                  else if mask_minute k then RTC_INT_MINUTE
                  else if mask_hour k then RTC_INT_HOUR else RTC_INT_DAY);
          s = s\<lparr>rtc_instance := (rtc_instance s)\<lparr>rtc_alarm_callback := callback, alarm_ctx := ctx,
                  alarm_is_single_shot := is_single_shot, tick_enable_by_alarm := True,
                  tick_mode_by_alarm := mode\<rparr>\<rparr>;
          s = (if (tick_enable_by_user (rtc_instance s)
                   \<and> tick_mode_by_alarm (rtc_instance s) < rtc_tick_get_interrupt_mode s)
                  \<or> \<not> tick_enable_by_user (rtc_instance s)
               then rtc_tick_set_interrupt_mode (tick_mode_by_alarm (rtc_instance s)) s else s);
          s = rtc_alarm_set_mask k s;
          s = rtc_alarm_set_interrupt 1 s
      in rtc_tick_set_interrupt 1 s)"

definition rtc_alarm_irq_unregister :: "rtc \<Rightarrow> rtc" where
  "rtc_alarm_irq_unregister s =
     (let s = rtc_alarm_set_interrupt 0 s;
          s = s\<lparr>rtc_instance := (rtc_instance s)\<lparr>rtc_alarm_callback := 0, alarm_ctx := 0,
                  tick_enable_by_alarm := False, tick_mode_by_alarm := RTC_INT_MAX\<rparr>\<rparr>
      in restore_user_tick s)"

section \<open>Lemmas\<close>

lemma registers_set_mode [simp]:
  "r_date (rtc_timer_set_mode m s) = r_date s"
  "r_time (rtc_timer_set_mode m s) = r_time s"
  "r_extended (rtc_timer_set_mode m s) = r_extended s"
  "r_alarm_date (rtc_timer_set_mode m s) = r_alarm_date s"
  "r_alarm_time (rtc_timer_set_mode m s) = r_alarm_time s"
  "r_interrupt_ctrl (rtc_timer_set_mode m s) = r_interrupt_ctrl s"
  "rtc_instance (rtc_timer_set_mode m s) = rtc_instance s"
  "rtc_timer_date_time (rtc_timer_set_mode m s) = rtc_timer_date_time s"
  by (simp_all add: rtc_timer_set_mode_def Let_def)

text \<open>A clock set to run is seen running.\<close>

lemma get_mode_running:
  "rtc_timer_get_mode (rtc_timer_set_mode RTC_TIMER_RUNNING s)
     = (RTC_TIMER_RUNNING, rtc_timer_set_mode RTC_TIMER_RUNNING s)"
  by (simp add: rtc_timer_get_mode_def rtc_timer_set_mode_def Let_def RTC_TIMER_RUNNING_def RTC_TIMER_PAUSE_def)

lemma get_tm_running:
  "rtc_timer_get_tm (rtc_timer_set_mode RTC_TIMER_RUNNING s)
     = (True, (rtc_timer_set_mode RTC_TIMER_RUNNING s)
         \<lparr>rtc_timer_date_time := tm_of_registers (r_date s) (r_time s) (r_extended s)\<rparr>)"
  by (simp add: rtc_timer_get_tm_def get_mode_running)

text \<open>
  The reference: day 1 of year 0 of the proleptic Gregorian calendar is a Saturday, and
  weekdays follow one another.
\<close>

fun days_before_year :: "nat \<Rightarrow> int" where
  "days_before_year 0 = 0"
| "days_before_year (Suc y) = days_before_year y + (if rtc_year_is_leap (int y) then 366 else 365)"

definition weekday :: "nat \<Rightarrow> int \<Rightarrow> int" where
  "weekday year yday = (5 + days_before_year year + yday) mod 7"

definition leap_count :: "int \<Rightarrow> int" where
  "leap_count y = y div 4 - y div 100 + y div 400"

lemma div_step:
  assumes k: "0 < (k :: int)"
  shows "z div k - (z - 1) div k = (if z mod k = 0 then 1 else 0)"
proof -
  define q r where "q = (z - 1) div k" and "r = (z - 1) mod k"
  have z: "z = k * q + r + 1" using mult_div_mod_eq [of k "z - 1"] by (simp add: q_def r_def)
  have r: "0 \<le> r" "r < k" using k by (simp_all add: r_def)
  show ?thesis
  proof (cases "r + 1 = k")
    case True
    hence z': "z = k * (q + 1)" using z by (simp add: algebra_simps)
    have "z div k = q + 1" "z mod k = 0" using k unfolding z' by simp_all
    thus ?thesis by (simp add: q_def)
  next
    case False
    hence b: "r + 1 < k" "0 \<le> r + 1" using r by linarith+
    have e: "z = k * q + (r + 1)" using z by linarith
    have "z div k = q" "z mod k = r + 1"
      using int_div_pos_eq [OF e b(2,1)] int_mod_pos_eq [OF e b(2,1)] by blast+
    thus ?thesis using r by (simp add: q_def)
  qed
qed

lemma leap_step: "(if rtc_year_is_leap (int y) then 1 else 0) = leap_count (int y) - leap_count (int y - 1)"
proof -
  have "leap_count (int y) - leap_count (int y - 1)
      = (if int y mod 4 = 0 then 1 else 0) - (if int y mod 100 = 0 then 1 else 0) + (if int y mod 400 = 0 then 1 else 0)"
    unfolding leap_count_def div_step [OF zero_less_numeral, symmetric] by (simp only: algebra_simps)
  also have "\<dots> = (if rtc_year_is_leap (int y) then 1 else 0)"
  proof -
    have "4 dvd int y" if "100 dvd int y" using that by (rule dvd_trans [rotated]) simp
    moreover have "100 dvd int y" if "400 dvd int y" using that by (rule dvd_trans [rotated]) simp
    ultimately show ?thesis
      by (cases "4 dvd int y"; cases "100 dvd int y"; cases "400 dvd int y";
          simp add: rtc_year_is_leap_def smod_nonneg dvd_eq_mod_eq_0 [symmetric])
  qed
  finally show ?thesis by simp
qed

lemma days_before_year_closed:
  "days_before_year y = 365 * int y + leap_count (int y - 1) + 1"
proof (induction y)
  case 0
  show ?case by (simp add: leap_count_def)
next
  case (Suc y)
  show ?case using Suc leap_step [of y] by (cases "rtc_year_is_leap (int y)") (auto simp: algebra_simps)
qed

lemma month_cases:
  assumes "1 \<le> month" "month \<le> (12 :: int)"
  shows "month = 1 \<or> month = 2 \<or> month = 3 \<or> month = 4 \<or> month = 5 \<or> month = 6 \<or> month = 7 \<or> month = 8
    \<or> month = 9 \<or> month = 10 \<or> month = 11 \<or> month = 12"
  using assms by presburger

lemma smod_pred: "0 \<le> (y :: int) \<Longrightarrow> y \<noteq> 0 \<Longrightarrow> (y - 1) sdiv 4 - (y - 1) sdiv 100 + (y - 1) sdiv 400 = leap_count (y - 1)"
  by (simp add: sdiv_nonneg leap_count_def)

lemma smod_whole: "0 \<le> (y :: int) \<Longrightarrow> y sdiv 4 - y sdiv 100 + y sdiv 400 = leap_count y"
  by (simp add: sdiv_nonneg leap_count_def)

lemma leap_count_nonneg: "0 \<le> y \<Longrightarrow> 0 \<le> leap_count y"
  unfolding leap_count_def using zdiv_mono2 [of y 4 100] pos_imp_zdiv_nonneg_iff [of 400 y] by linarith

lemma wday_late:
  assumes "3 \<le> month" "month \<le> 12" "0 \<le> day"
  shows "rtc_get_wday (int y) month day = (23 * month div 9 + day + int y + 2 + leap_count (int y)) mod 7"
proof -
  have "0 \<le> 23 * month div 9 + day + int y + 2 + leap_count (int y)"
    using leap_count_nonneg [of "int y"] assms by (simp add: pos_imp_zdiv_nonneg_iff)
  hence "(23 * month div 9 + day + int y + 2 + leap_count (int y)) smod 7
       = (23 * month div 9 + day + int y + 2 + leap_count (int y)) mod 7" by (intro smod_nonneg) auto
  moreover have "23 * month sdiv 9 = 23 * month div 9" using assms by (intro sdiv_nonneg) auto
  moreover have "23 * month div 9 + (day + (int y - 2)) + 4 + int y sdiv 4 - int y sdiv 100 + int y sdiv 400
    = 23 * month div 9 + day + int y + 2 + leap_count (int y)" using smod_whole [of "int y"] by linarith
  moreover have "rtc_get_wday (int y) month day
    = (23 * month sdiv 9 + (day + (int y - 2)) + 4 + int y sdiv 4 - int y sdiv 100 + int y sdiv 400) smod 7"
    using assms by (simp add: rtc_get_wday_def)
  ultimately show ?thesis by (simp only:)
qed

lemma wday_early:
  assumes "1 \<le> month" "month \<le> 2" "0 \<le> day" "0 < y"
  shows "rtc_get_wday (int y) month day = (23 * month div 9 + day + int y + 4 + leap_count (int y - 1)) mod 7"
proof -
  have "0 \<le> 23 * month div 9 + day + int y + 4 + leap_count (int y - 1)"
    using leap_count_nonneg [of "int y - 1"] assms by (simp add: pos_imp_zdiv_nonneg_iff)
  hence "(23 * month div 9 + day + int y + 4 + leap_count (int y - 1)) smod 7
       = (23 * month div 9 + day + int y + 4 + leap_count (int y - 1)) mod 7" by (intro smod_nonneg) auto
  moreover have "23 * month sdiv 9 = 23 * month div 9" using assms by (intro sdiv_nonneg) auto
  moreover have "23 * month div 9 + (day + int y) + 4 + (int y - 1) sdiv 4 - (int y - 1) sdiv 100 + (int y - 1) sdiv 400
    = 23 * month div 9 + day + int y + 4 + leap_count (int y - 1)" using smod_pred [of "int y"] assms by linarith
  moreover have "rtc_get_wday (int y) month day
    = (23 * month sdiv 9 + (day + int y) + 4 + (int y - 1) sdiv 4 - (int y - 1) sdiv 100 + (int y - 1) sdiv 400) smod 7"
    using assms by (simp add: rtc_get_wday_def)
  ultimately show ?thesis by (simp only:)
qed

lemma seven_cancel:
  assumes "(b - a) mod 7 = (0 :: int)"
  shows "a mod 7 = b mod 7"
  using assms by presburger

lemma wday_range:
  assumes "1 \<le> month" "month \<le> 12" "0 \<le> day" "0 \<le> year"
  shows "0 \<le> rtc_get_wday year month day \<and> rtc_get_wday year month day \<le> 6"
proof -
  obtain y where y: "year = int y" using assms(4) by (metis zero_le_imp_eq_int)
  consider "3 \<le> month" | "month \<le> 2" "0 < y" | "month \<le> 2" "y = 0" by linarith
  thus ?thesis
  proof cases
    case 3
    have "rtc_get_wday 0 month day = (23 * month div 9 + day + 4) mod 7"
      using 3 assms by (auto simp: rtc_get_wday_def sdiv_nonneg smod_nonneg pos_imp_zdiv_nonneg_iff)
    thus ?thesis by (simp add: y 3)
  qed (use assms wday_late [of month day y] wday_early [of month day y] in \<open>simp_all add: y\<close>)
qed

text \<open>The magic coefficient agrees with the lengths of the months modulo a week.\<close>

lemma month_offset:
  assumes "1 \<le> month" "month \<le> 12"
  shows "(yday_table leap ! nat month - 23 * month div 9
            + (if month < 3 then 2 else if leap then 3 else 4)) mod 7 = 0"
  using month_cases [OF assms] by (cases leap; elim disjE; simp add: yday_table_def)

text \<open>C18: the formula of \<open>rtc_get_wday\<close> gives the weekday, 0 for Sunday, that counting the days
  of the Gregorian calendar gives, for every date but those of January and February of year 0,
  where the divisions of C round the wrong way.\<close>

theorem rtc_get_wday_is_weekday:
  assumes m: "1 \<le> month" "month \<le> 12" and d: "0 \<le> day" and y: "0 < y \<or> 3 \<le> month"
  shows "rtc_get_wday (int y) month day = weekday y (the (rtc_get_yday (int y) month day))"
proof -
  define t where "t = yday_table (rtc_year_is_leap (int y)) ! nat month"
  have o: "(t - 23 * month div 9 + (if month < 3 then 2 else if rtc_year_is_leap (int y) then 3 else 4)) mod 7 = 0"
    unfolding t_def by (rule month_offset [OF m])
  define q where "q = 23 * month div 9"
  have R: "weekday y (the (rtc_get_yday (int y) month day)) = (6 + 365 * int y + leap_count (int y - 1) + t + day) mod 7"
    using m by (simp add: weekday_def days_before_year_closed rtc_get_yday_def t_def algebra_simps)
  consider "3 \<le> month" | "month \<le> 2" "0 < y" using y by linarith
  thus ?thesis
  proof cases
    case 1
    have "leap_count (int y) = leap_count (int y - 1) + (if rtc_year_is_leap (int y) then 1 else 0)"
      using leap_step [of y] by simp
    moreover have "(t - q + (if rtc_year_is_leap (int y) then 3 else 4)) mod 7 = 0" using o 1 by (simp add: q_def)
    ultimately show ?thesis unfolding R wday_late [OF 1 m(2) d] q_def [symmetric]
      by (intro seven_cancel, cases "rtc_year_is_leap (int y)"; simp only: if_True if_False; presburger)
  next
    case 2
    moreover have "(t - q + 2) mod 7 = 0" using o 2 by (simp add: q_def)
    ultimately show ?thesis unfolding R wday_early [OF m(1) 2(1) d 2(2)] q_def [symmetric]
      by (intro seven_cancel) presburger
  qed
qed

lemma yday_some: "1 \<le> month \<Longrightarrow> month \<le> 12 \<Longrightarrow> \<exists>y. rtc_get_yday year month day = Some y"
  by (simp add: rtc_get_yday_def)

text \<open>A field keeps a number that fits in it.\<close>

lemma field_fits:
  "0 \<le> x \<Longrightarrow> x < 2 ^ LENGTH('a::len) \<Longrightarrow> uint (word_of_int x :: 'a word) = x"
  by (simp add: uint_word_of_int take_bit_int_eq_self)

text \<open>C17: for every date of the years 0 to 3199 and every time of day \<open>rtc_timer_set\<close> succeeds,
  whatever the registers and the stack hold, and \<open>rtc_timer_get\<close> then reads the same six
  numbers from the bit fields of the registers.\<close>

theorem rtc_timer_set_get:
  assumes "0 \<le> year" "year \<le> 3199" "1 \<le> month" "month \<le> 12" "1 \<le> day" "day \<le> 31"
    "0 \<le> hour" "hour \<le> 23" "0 \<le> minute" "minute \<le> 59" "0 \<le> second" "second \<le> 59"
  shows "\<exists>s'. rtc_timer_set junk year month day hour minute second s = Some (0, s')
           \<and> fst (rtc_timer_get s') = (0, [year, month, day, hour, minute, second])"
proof -
  obtain d t e where j: "junk = (d, t, e)" by (cases junk) auto
  obtain yd where yd: "rtc_get_yday year month day = Some yd" using yday_some assms by blast
  have w: "0 \<le> rtc_get_wday year month day" "rtc_get_wday year month day \<le> 6"
    using wday_range [of month day year] assms by auto
  define c where "c = year div 100"
  define r where "r = year mod 100"
  have cr: "year = r + c * 100" "0 \<le> r" "r < 100" "0 \<le> c" "c \<le> 31"
    using assms unfolding c_def r_def by (simp_all add: pos_imp_zdiv_nonneg_iff)
  have sd: "year smod 100 = r" "year sdiv 100 = c" using assms by (simp_all add: smod_nonneg sdiv_nonneg c_def r_def)
  define d' t' e' where "d' = d\<lparr>d_day := word_of_int day, d_month := word_of_int month,
      d_year := word_of_int r, d_week := word_of_int (rtc_get_wday year month day)\<rparr>"
    and "t' = t\<lparr>t_second := word_of_int second, t_minute := word_of_int minute, t_hour := word_of_int hour\<rparr>"
    and "e' = e\<lparr>century := word_of_int c\<rparr>"
  define s1 where "s1 = (rtc_timer_set_mode RTC_TIMER_SETTING s)\<lparr>r_date := d', r_time := t', r_extended := e'\<rparr>"
  define tm0 where "tm0 = \<lparr>tm_sec = second, tm_min = minute, tm_hour = hour, tm_mday = day,
      tm_mon = month - 1, tm_year = year - 1900, tm_wday = rtc_get_wday year month day, tm_yday = yd,
      tm_isdst = - 1\<rparr>"
  have "date_time_of year month day hour minute second = Some tm0"
    by (simp add: date_time_of_def yd tm0_def)
  moreover have "rtc_timer_set_tm junk tm0 s = (0, rtc_timer_set_mode RTC_TIMER_RUNNING s1)"
    using assms w cr(2-5)
    by (simp add: j rtc_timer_set_tm_def rtc_in_range_def Let_def tm0_def sd s1_def d'_def t'_def e'_def wi_hom_add)
  ultimately have set: "rtc_timer_set junk year month day hour minute second s = Some (0, rtc_timer_set_mode RTC_TIMER_RUNNING s1)"
    by (simp add: rtc_timer_set_def)
  have f: "uint (d_day d') = day" "uint (d_month d') = month" "uint (d_year d') = r"
     "uint (t_second t') = second" "uint (t_minute t') = minute" "uint (t_hour t') = hour" "uint (century e') = c"
    using assms cr(2-5) by (simp_all add: d'_def t'_def e'_def field_fits)
  have "fst (rtc_timer_get (rtc_timer_set_mode RTC_TIMER_RUNNING s1)) = (0, [year, month, day, hour, minute, second])"
    using assms cr(2-5) cr(1) [symmetric]
    by (simp add: rtc_timer_get_def get_tm_running tm_of_registers_def Let_def f s1_def smod_nonneg)
  thus ?thesis using set by blast
qed

theorem rtc_get_wday_is_weekday_witness:
  "rtc_get_wday (int 2021) 8 20 = weekday 2021 232 \<and> rtc_get_wday (int 2021) 8 20 = 5"
  using rtc_get_wday_is_weekday [of 8 20 2021]
  by (simp add: rtc_get_yday_def yday_table_def rtc_year_is_leap_def smod_nonneg)
    (simp add: rtc_get_wday_def sdiv_nonneg smod_nonneg)

theorem rtc_timer_set_get_witness:
  "\<forall>junk s. \<exists>s'. rtc_timer_set junk 2024 2 29 23 59 58 s = Some (0, s')
     \<and> fst (rtc_timer_get s') = (0, [2024, 2, 29, 23, 59, 58])"
  by (intro allI rtc_timer_set_get) simp_all

end
