(* ===== verification/Clock.thy ===== *)
theory Clock
  imports Rtc
begin

text \<open>
  The bit helpers of \<open>driver/utils.c\<close>, on words of memory, and \<open>driver/clock.cpp\<close> on top of the
  real-time clock.
\<close>

unbundle bit_operations_syntax

section \<open>Bit helpers\<close>

definition set_bit_c :: "u64 \<Rightarrow> u32 \<Rightarrow> u32 \<Rightarrow> mem \<Rightarrow> mem" where
  "set_bit_c bits k value m =
     (let org = ld32 m bits AND NOT k in st32 m bits (org OR (value AND k)))"

definition set_bit_offset :: "u64 \<Rightarrow> u32 \<Rightarrow> u64 \<Rightarrow> u32 \<Rightarrow> mem \<Rightarrow> mem" where
  "set_bit_offset bits k offset value m =
     set_bit_c bits (push_bit (unat offset) k) (push_bit (unat offset) value) m"

definition set_gpio_bit :: "u64 \<Rightarrow> u64 \<Rightarrow> u32 \<Rightarrow> mem \<Rightarrow> mem" where
  "set_gpio_bit bits offset value m = set_bit_offset bits 1 offset value m"

definition get_bit_c :: "u64 \<Rightarrow> u32 \<Rightarrow> u64 \<Rightarrow> mem \<Rightarrow> u32" where
  "get_bit_c bits k offset m = drop_bit (unat offset) (ld32 m bits AND push_bit (unat offset) k)"

definition get_gpio_bit :: "u64 \<Rightarrow> u64 \<Rightarrow> mem \<Rightarrow> u32" where
  "get_gpio_bit bits offset m = get_bit_c bits 1 offset m"

section \<open>Clock\<close>

definition setDateTime ::
    "rtc_date \<times> rtc_time \<times> rtc_extended \<Rightarrow> int \<Rightarrow> int \<Rightarrow> int \<Rightarrow> int \<Rightarrow> int \<Rightarrow> int \<Rightarrow> rtc \<Rightarrow> (int \<times> rtc) option"
where
  "setDateTime junk year mon day hour mn sec s = rtc_timer_set junk year mon day hour mn sec s"

definition getDateTime :: "rtc \<Rightarrow> (int \<times> int list) \<times> rtc" where
  "getDateTime s = rtc_timer_get s"

text \<open>
  \<open>leapYear\<close> is an array of 100 \<open>bool\<close>. A \<open>+=\<close> on a \<open>bool\<close> adds as \<open>int\<close> and converts back. The
  years run from 1971, so the C remainders are those of \<open>int\<close>.
\<close>

definition leap_entry :: "nat \<Rightarrow> bool \<Rightarrow> bool" where
  "leap_entry i old =
     (let year = int i + 1970; n = of_bool old :: int in
      if (year mod 4 = 0 \<and> year mod 100 \<noteq> 0) \<or> year mod 400 = 0
      then n + (n + 1) \<noteq> 0 else n + n \<noteq> 0)"

fun initLeapYear_loop :: "nat \<Rightarrow> nat \<Rightarrow> bool list \<Rightarrow> bool list" where
  "initLeapYear_loop 0 i ly = ly"
| "initLeapYear_loop (Suc k) i ly = initLeapYear_loop k (Suc i) (ly[i := leap_entry i (ly ! i)])"

definition initLeapYear :: "bool list \<Rightarrow> bool list" where
  "initLeapYear ly = initLeapYear_loop 99 1 (ly[0 := False])"

text \<open>
  \<open>None\<close>: \<open>leapYear\<close> is read outside its bounds. A clock that does not run gives \<open>NULL\<close>, which is
  read from.
\<close>

definition getTimestamp :: "bool list \<Rightarrow> rtc \<Rightarrow> (u64 option \<times> rtc) res" where
  "getTimestamp leapYear s =
     (let (ok, s) = rtc_timer_get_tm s; tm = rtc_timer_date_time s in
      if \<not> ok then null_deref
      else let off = tm_year tm - 1970 in
        if off - 1 < 0 \<or> off - 1 \<ge> int (List.length leapYear) then Inr (None, s)
        else let leaps = of_bool (leapYear ! nat (off - 1)) :: int;
                 days = word_of_int (leaps * 366 + (off - 1 - leaps) * 365 + tm_yday tm) :: u64
             in Inr (Some (days * 86400 + word_of_int (tm_hour tm * 3600) + word_of_int (tm_sec tm)), s))"

definition initClock ::
    "(rtc \<Rightarrow> rtc) \<Rightarrow> u32 \<Rightarrow> rtc_date \<times> rtc_time \<times> rtc_extended \<Rightarrow> bool list \<times> rtc \<Rightarrow> (bool list \<times> rtc) option"
where
  "initClock reset freq_in0 junk st =
     (let (ly, s) = st;
          (_, s) = rtc_init reset freq_in0 s;
          ly = initLeapYear ly
      in map_option (\<lambda>(_, s). (ly, s)) (rtc_timer_set junk 2021 5 30 0 0 0 s))"

section \<open>Lemmas\<close>

text \<open>After \<open>set_bit_offset\<close> of a field that lies in the 32-bit word, \<open>get_bit\<close> of the field
  reads the value's bits under the mask, any field that shares no bit with it reads as before, and
  the bytes outside the word are untouched.\<close>

theorem set_bit_offset_get_bit:
  assumes "push_bit (unat offset) k AND push_bit (unat offset') k' = 0"
    and "drop_bit (unat offset) (push_bit (unat offset) k) = k"
  shows "get_bit_c bits k offset (set_bit_offset bits k offset value m) = value AND k
       \<and> get_bit_c bits k' offset' (set_bit_offset bits k offset value m) = get_bit_c bits k' offset' m
       \<and> (\<forall>x. 4 \<le> unat (x - bits) \<longrightarrow> set_bit_offset bits k offset value m x = m x)"
proof (intro conjI allI impI)
  define w where "w = ld32 m bits"
  have l: "ld32 (set_bit_offset bits k offset value m) bits
      = w AND NOT (push_bit (unat offset) k) OR (push_bit (unat offset) value AND push_bit (unat offset) k)"
    by (simp add: set_bit_offset_def set_bit_c_def Let_def w_def)
  have "get_bit_c bits k offset (set_bit_offset bits k offset value m)
      = drop_bit (unat offset) (push_bit (unat offset) (value AND k))"
    unfolding get_bit_c_def l by (simp add: push_bit_and bit_eq_iff bit_simps) blast
  also have "\<dots> = value AND k"
    using assms(2) by (auto simp: bit_eq_iff bit_simps)
  finally show "get_bit_c bits k offset (set_bit_offset bits k offset value m) = value AND k" .
  have "ld32 (set_bit_offset bits k offset value m) bits AND push_bit (unat offset') k' = w AND push_bit (unat offset') k'"
    using assms(1) unfolding l by (auto simp: bit_eq_iff bit_simps)
  thus "get_bit_c bits k' offset' (set_bit_offset bits k offset value m) = get_bit_c bits k' offset' m"
    by (simp add: get_bit_c_def w_def)
  show "set_bit_offset bits k offset value m x = m x" if "4 \<le> unat (x - bits)" for x
    using that by (simp add: set_bit_offset_def set_bit_c_def Let_def st32_def stn_apply)
qed

theorem set_bit_offset_get_bit_witness:
  "get_bit_c 0x38001000 7 4 (set_bit_offset 0x38001000 7 4 5 (\<lambda>_. 0xFF)) = 5
   \<and> get_bit_c 0x38001000 1 3 (set_bit_offset 0x38001000 7 4 5 (\<lambda>_. 0xFF)) = get_bit_c 0x38001000 1 3 (\<lambda>_. 0xFF)"
  using set_bit_offset_get_bit [of 4 7 3 1 "0x38001000" 5 "\<lambda>_. 0xFF"]
  by simp

lemma smod_bounds: "0 \<le> x \<Longrightarrow> 0 < b \<Longrightarrow> x smod b < (b :: int)"
  by (simp add: smod_nonneg)

text \<open>No call of \<open>getTimestamp\<close> computes a time: with the clock stopped it reads from a null
  pointer, and with the clock running it indexes \<open>leapYear\<close> far below its first element, because
  \<open>tm_year\<close> counts from 1900 and is compared with 1970.\<close>

theorem getTimestamp_out_of_bounds:
  "getTimestamp leapYear s = null_deref \<or> (\<exists>s'. getTimestamp leapYear s = Inr (None, s'))"
proof -
  have y: "tm_year (tm_of_registers d t e) < 1971" for d t e
  proof -
    have "uint (d_year d) smod 100 < 100" by (intro smod_bounds) simp_all
    moreover have "uint (century e) < 32" using uint_lt2p [of "century e"] by simp
    ultimately show ?thesis by (simp add: tm_of_registers_def Let_def)
  qed
  show ?thesis
    by (auto simp: getTimestamp_def rtc_timer_get_tm_def Let_def y less_imp_le split: prod.splits)
qed

lemma leap_entry_false: "leap_entry i False \<longleftrightarrow> rtc_year_is_leap (1970 + int i)"
  by (simp add: leap_entry_def rtc_year_is_leap_def smod_nonneg Let_def add.commute)

lemma initLeapYear_loop_length [simp]:
  "List.length (initLeapYear_loop k i ly) = List.length ly"
  by (induction k i ly rule: initLeapYear_loop.induct) auto

lemma initLeapYear_loop_nth:
  "j < List.length ly \<Longrightarrow> initLeapYear_loop k i ly ! j = (if i \<le> j \<and> j < i + k then leap_entry j (ly ! j) else ly ! j)"
  by (induction k i ly rule: initLeapYear_loop.induct) (auto simp: nth_list_update not_less_eq_eq dest: le_antisym)

text \<open>The flags of the years 1970 to 2069, from the zeroed array.\<close>

lemma initLeapYear_flags:
  assumes "j < 100"
  shows "initLeapYear (replicate 100 False) ! j = rtc_year_is_leap (1970 + int j)"
proof (cases "j = 0")
  case True
  thus ?thesis by (simp add: initLeapYear_def initLeapYear_loop_nth rtc_year_is_leap_def smod_nonneg)
next
  case False
  thus ?thesis using assms
    by (simp add: initLeapYear_def initLeapYear_loop_nth leap_entry_false nth_list_update)
qed

end
