(* ===== verification/Sleeplock.thy ===== *)
theory Sleeplock
  imports Proc_Facts
begin

text \<open>
  Sleep locks, \<open>sync/sleeplock.cpp\<close>, and the timer, \<open>sync/timer.cpp\<close>, on top of sleeping and waking.
\<close>

section \<open>Sleep locks\<close>

text \<open>\<open>struct sleeplock\<close> without its spin lock \<open>L_sleep i\<close>.\<close>

record sleeplock =
  sl_locked :: u32
  sl_name :: u64
  sl_pid :: int

text \<open>\<open>timer_at\<close> is the time the SBI was last asked to interrupt at.\<close>

record sleep_state = proc_state +
  sleeplocks :: "nat \<Rightarrow> sleeplock"
  timer_at :: u64

definition upd_sleeplock :: "nat \<Rightarrow> (sleeplock \<Rightarrow> sleeplock) \<Rightarrow> 'a sleep_state_scheme \<Rightarrow> 'a sleep_state_scheme" where
  "upd_sleeplock i f s = s\<lparr>sleeplocks := (sleeplocks s)(i := f (sleeplocks s i))\<rparr>"

text \<open>
  \<open>name\<close> is copied through the field \<open>name\<close> of the lock, a pointer nothing has set; \<open>nm\<close> is the
  address of the literal \<open>"sleep lock"\<close>.
\<close>

definition initsleeplock :: "u64 \<Rightarrow> nat \<Rightarrow> u64 \<Rightarrow> 'a sleep_state_scheme \<Rightarrow> 'a sleep_state_scheme res" where
  "initsleeplock nm slk name s =
     (let s = initlock (L_sleep slk) nm 10 s in
      bnd (copy_string (sl_name (sleeplocks s slk)) name s) (\<lambda>s.
        Inr (upd_sleeplock slk (\<lambda>l. l\<lparr>sl_locked := 0, sl_pid := 0\<rparr>) s)))"

partial_function (option) acquiresleep_wait ::
    "'a sleep_state_ext switch \<Rightarrow> nat \<Rightarrow> 'a sleep_state_scheme \<Rightarrow> 'a sleep_state_scheme res option" where
  "acquiresleep_wait pswitch slk s =
     (if sl_locked (sleeplocks s slk) \<noteq> 0 then
        (case sleep pswitch (Ch_sleeplock slk) (L_sleep slk) s of
           Inl e \<Rightarrow> Some (Inl e)
         | Inr s \<Rightarrow> acquiresleep_wait pswitch slk s)
      else Some (Inr s))"

definition acquiresleep ::
    "'a sleep_state_ext switch \<Rightarrow> nat \<Rightarrow> 'a sleep_state_scheme \<Rightarrow> 'a sleep_state_scheme res option" where
  "acquiresleep pswitch slk s =
     opt_bnd (Some (acquire (L_sleep slk) s)) (\<lambda>s.
     opt_bnd (acquiresleep_wait pswitch slk s) (\<lambda>s.
     let s = upd_sleeplock slk (\<lambda>l. l\<lparr>sl_locked := 1\<rparr>) s in
     Some (bnd (myproc s) (\<lambda>(p, s).
       let s = upd_sleeplock slk (\<lambda>l. l\<lparr>sl_pid := p_pid (procTable s p)\<rparr>) s
       in release (L_sleep slk) s))))"

definition releasesleep :: "nat \<Rightarrow> 'a sleep_state_scheme \<Rightarrow> 'a sleep_state_scheme res" where
  "releasesleep slk s =
     bnd (acquire (L_sleep slk) s) (\<lambda>s.
       let s = upd_sleeplock slk (\<lambda>l. l\<lparr>sl_locked := 0, sl_pid := 0\<rparr>) s;
           s = wakeup (Ch_sleeplock slk) s
       in release (L_sleep slk) s)"

text \<open>\<open>&&\<close> asks for the current process only when the lock is taken.\<close>

definition holdingsleep :: "nat \<Rightarrow> 'a sleep_state_scheme \<Rightarrow> (bool \<times> 'a sleep_state_scheme) res" where
  "holdingsleep slk s =
     bnd (acquire (L_sleep slk) s) (\<lambda>s.
     bnd (if sl_locked (sleeplocks s slk) \<noteq> 0
          then bnd (myproc s) (\<lambda>(p, s). Inr (sl_pid (sleeplocks s slk) = p_pid (procTable s p), s))
          else Inr (False, s)) (\<lambda>(r, s).
     bnd (release (L_sleep slk) s) (\<lambda>s. Inr (r, s))))"

section \<open>Timer\<close>

definition INTERVAL :: u64 where "INTERVAL = 390000000 div 200"

definition timerInit :: "u64 \<Rightarrow> 'a sleep_state_scheme \<Rightarrow> 'a sleep_state_scheme" where
  "timerInit nm s = initlock L_ticks nm 4 s"

text \<open>\<open>now\<close> is the value of the \<open>time\<close> register.\<close>

definition set_next_timeout :: "u64 \<Rightarrow> 'a sleep_state_scheme \<Rightarrow> 'a sleep_state_scheme" where
  "set_next_timeout now s = s\<lparr>timer_at := now + INTERVAL\<rparr>"

definition timer_tick :: "u64 \<Rightarrow> 'a sleep_state_scheme \<Rightarrow> 'a sleep_state_scheme res" where
  "timer_tick now s =
     bnd (acquire L_ticks s) (\<lambda>s.
       let s = s\<lparr>ticks := ticks s + 1\<rparr>;
           s = wakeup Ch_ticks s
       in bnd (release L_ticks s) (\<lambda>s. Inr (set_next_timeout now s)))"

section \<open>Lemmas\<close>

lemma depth_sleep_upd [simp]: "depth (upd_sleeplock i f s) = depth s"
  by (simp add: depth_def hart_defs upd_sleeplock_def)

lemma depth_wakeup [simp]: "depth (wakeup c s) = depth s"
  by (simp add: wakeup_def)

lemma acquiresleep_wait_depth:
  "acquiresleep_wait pswitch slk s =
     (if sl_locked (sleeplocks s slk) \<noteq> 0 then Some (Inl (projl (sleep pswitch (Ch_sleeplock slk) (L_sleep slk) s)))
      else Some (Inr s))"
proof -
  obtain e where "sleep pswitch (Ch_sleeplock slk) (L_sleep slk) s = Inl e" using sleep_Inl by blast
  thus ?thesis by (subst acquiresleep_wait.simps) simp
qed

lemma myproc_nested: "0 < depth s \<Longrightarrow> myproc s = Inl (Panic ''pop_off'')"
  by (simp add: myproc_def curproc_nested depth_def)

text \<open>Whatever the state of the lock, taking it never returns.\<close>

lemma acquiresleep_stops:
  assumes "0 \<le> depth s"
  shows "\<exists>e. acquiresleep pswitch i s = Some (Inl e)"
proof (cases "acquire (L_sleep i) s")
  case (Inr s1)
  hence "0 < depth s1" using acquire_depth [OF Inr] assms by simp
  thus ?thesis by (auto simp: acquiresleep_def Inr opt_bnd_def acquiresleep_wait_depth myproc_nested Let_def)
qed (simp add: acquiresleep_def opt_bnd_def)

text \<open>The atomic section of a lock that only touches the fields of later records.\<close>

lemma upd_sleeplock_section:
  "upd_sleeplock i f (in_section l s) = in_section l (upd_sleeplock i f s)"
  by (simp add: upd_sleeplock_def in_section_def hart_defs)

lemma upd_sleeplock_ready [simp]:
  "ready l (upd_sleeplock i f s) = ready l s" "ready l (wakeup c s) = ready l s"
  by (simp_all add: ready_def) (simp add: upd_sleeplock_def quiet_def lock_free_def hart_defs)

lemma ticks_section:
  "(in_section l s)\<lparr>ticks := t\<rparr> = in_section l (s\<lparr>ticks := t\<rparr>)" "ticks (in_section l s) = ticks s"
  "ready l (s\<lparr>ticks := t\<rparr>) = ready l s" "ticks (masked s) = ticks s" "ticks (wakeup c s) = ticks s"
  by (simp_all add: in_section_def masked_def hart_defs ready_def quiet_def lock_free_def wakeup_def)

text \<open>C15: no sleep lock can ever be taken: \<open>acquiresleep\<close> asks for the current process under the lock's
  spin lock and panics, also on a free lock. \<open>releasesleep\<close> works: it frees the lock, makes exactly the
  processes asleep on it runnable and leaves the spin lock free; \<open>holdingsleep\<close> answers no on a free
  lock and panics on a taken one.\<close>

theorem sleep_locks_cannot_be_taken:
  assumes "ready (L_sleep i) s"
  shows "(\<exists>e. acquiresleep pswitch i s = Some (Inl e))
    \<and> (\<exists>s'. releasesleep i s = Inr s' \<and> sl_locked (sleeplocks s' i) = 0 \<and> sl_pid (sleeplocks s' i) = 0
          \<and> procTable s' = procTable (wakeup (Ch_sleeplock i) s) \<and> ready (L_sleep i) s')
    \<and> (if sl_locked (sleeplocks s i) = 0 then \<exists>s'. holdingsleep i s = Inr (False, s') \<and> sleeplocks s' = sleeplocks s
       else \<exists>e. holdingsleep i s = Inl e)"
proof (intro conjI)
  have sl: "sleeplocks (in_section (L_sleep i) s) = sleeplocks s" "sleeplocks (masked s) = sleeplocks s"
    by (simp_all add: in_section_def masked_def)
  have acq: "acquire (L_sleep i) s = Inr (in_section (L_sleep i) s)" using assms by (simp add: ready_section)
  have d: "depth (in_section (L_sleep i) s) = 1" by (simp add: depth_def)
  show "\<exists>e. acquiresleep pswitch i s = Some (Inl e)"
    using d by (auto simp: acquiresleep_def acq opt_bnd_def acquiresleep_wait_depth myproc_nested Let_def)
  define s1 where "s1 = wakeup (Ch_sleeplock i) (upd_sleeplock i (\<lambda>l. l\<lparr>sl_locked := 0, sl_pid := 0\<rparr>) s)"
  have "releasesleep i s = release (L_sleep i) (in_section (L_sleep i) s1)"
    by (simp add: releasesleep_def acq Let_def upd_sleeplock_section wakeup_in_section s1_def)
  also have "\<dots> = Inr (masked s1)" using assms by (simp add: ready_section s1_def)
  finally have "releasesleep i s = Inr (masked s1)" .
  moreover have "procTable (masked s1) = procTable (wakeup (Ch_sleeplock i) s)"
    by (simp add: s1_def wakeup_def upd_sleeplock_def)
  moreover have "ready (L_sleep i) (masked s1)" using assms by (simp add: s1_def)
  moreover have "sl_locked (sleeplocks (masked s1) i) = 0" "sl_pid (sleeplocks (masked s1) i) = 0"
    by (simp_all add: s1_def masked_def wakeup_def upd_sleeplock_def)
  ultimately show "\<exists>s'. releasesleep i s = Inr s' \<and> sl_locked (sleeplocks s' i) = 0 \<and> sl_pid (sleeplocks s' i) = 0
      \<and> procTable s' = procTable (wakeup (Ch_sleeplock i) s) \<and> ready (L_sleep i) s'" by blast
  show "if sl_locked (sleeplocks s i) = 0 then \<exists>s'. holdingsleep i s = Inr (False, s') \<and> sleeplocks s' = sleeplocks s
       else \<exists>e. holdingsleep i s = Inl e"
    using assms d by (auto simp: holdingsleep_def acq sl myproc_nested ready_section)
qed

lemma timer_tick_eq:
  assumes "ready L_ticks s"
  shows "timer_tick now s = Inr (set_next_timeout now (masked (wakeup Ch_ticks (s\<lparr>ticks := ticks s + 1\<rparr>))))"
proof -
  define s1 where "s1 = wakeup Ch_ticks (s\<lparr>ticks := ticks s + 1\<rparr>)"
  have "timer_tick now s = bnd (release L_ticks (in_section L_ticks s1)) (\<lambda>s. Inr (set_next_timeout now s))"
    using assms by (simp add: timer_tick_def ready_section Let_def ticks_section wakeup_in_section s1_def)
  thus ?thesis using assms by (simp add: ready_section s1_def ticks_section)
qed

definition sleepy :: sleep_state where
  "sleepy = proc_state.extend one_proc
     (sleep_state.fields (\<lambda>_. \<lparr>sl_locked = 0, sl_name = 0x80410000, sl_pid = 0\<rparr>) 0)"

lemma sleepy_ready: "ready l sleepy"
  by (simp add: sleepy_def proc_state.defs sleep_state.defs one_proc_def ready_def quiet_def lock_free_def hart_defs)

theorem sleep_locks_cannot_be_taken_witness:
  "(\<exists>e. acquiresleep (\<lambda>_ _ s. Inr s) 3 sleepy = Some (Inl e)) \<and> (\<exists>s'. releasesleep 3 sleepy = Inr s')"
  using sleep_locks_cannot_be_taken [of 3 sleepy "\<lambda>_ _ s. Inr s"] by (auto simp: sleepy_ready)

end
