(* ===== verification/Ring.thy ===== *)
theory Ring
  imports Prelude
begin

text \<open>
  The interface of a bounded queue of bytes, as the pipe and the transmit buffer of the serial port
  provide it to their readers and writers: what is put comes out in order, under any interleaving.
\<close>

datatype 'b ring_op = Put 'b | Get

text \<open>
  A run of guarded operations: a put waits on a full queue and a get on an empty one, so such a
  turn changes nothing. The result is what was put, what was got, and the state.
\<close>

fun ring_run ::
    "('b \<Rightarrow> 's \<Rightarrow> 's) \<Rightarrow> ('s \<Rightarrow> 'b \<times> 's) \<Rightarrow> ('s \<Rightarrow> bool) \<Rightarrow> ('s \<Rightarrow> bool) \<Rightarrow> 'b ring_op list \<Rightarrow> 's \<Rightarrow> 'b list \<times> 'b list \<times> 's"
where
  "ring_run put get full vacant [] s = ([], [], s)"
| "ring_run put get full vacant (Put b # ops) s =
     (if full s then ring_run put get full vacant ops s
      else case ring_run put get full vacant ops (put b s) of (ins, outs, s') \<Rightarrow> (b # ins, outs, s'))"
| "ring_run put get full vacant (Get # ops) s =
     (if vacant s then ring_run put get full vacant ops s
      else case get s of (b, s) \<Rightarrow>
        (case ring_run put get full vacant ops s of (ins, outs, s') \<Rightarrow> (ins, b # outs, s')))"

locale byte_ring =
  fixes put :: "'b \<Rightarrow> 's \<Rightarrow> 's"
    and get :: "'s \<Rightarrow> 'b \<times> 's"
    and full :: "'s \<Rightarrow> bool"
    and vacant :: "'s \<Rightarrow> bool"
    and contents :: "'s \<Rightarrow> 'b list"
    and inv :: "'s \<Rightarrow> bool"
    and cap :: nat
  assumes put_inv: "inv s \<Longrightarrow> \<not> full s \<Longrightarrow> inv (put b s)"
    and put_contents: "inv s \<Longrightarrow> \<not> full s \<Longrightarrow> contents (put b s) = contents s @ [b]"
    and get_inv: "inv s \<Longrightarrow> \<not> vacant s \<Longrightarrow> inv (snd (get s))"
    and get_contents: "inv s \<Longrightarrow> \<not> vacant s \<Longrightarrow> contents s = fst (get s) # contents (snd (get s))"
    and full_iff: "inv s \<Longrightarrow> full s \<longleftrightarrow> length (contents s) = cap"
    and vacant_iff: "inv s \<Longrightarrow> vacant s \<longleftrightarrow> contents s = []"
    and bounded: "inv s \<Longrightarrow> length (contents s) \<le> cap"
begin

lemma run_fifo:
  "ring_run put get full vacant ops s = (ins, outs, s') \<Longrightarrow> inv s \<Longrightarrow>
     inv s' \<and> contents s @ ins = outs @ contents s' \<and> length (contents s') \<le> cap"
proof (induction ops arbitrary: s ins outs s')
  case Nil
  thus ?case using bounded by auto
next
  case (Cons op ops)
  show ?case
  proof (cases op)
    case (Put b)
    show ?thesis
    proof (cases "full s")
      case False
      obtain i1 o1 s1 where r: "ring_run put get full vacant ops (put b s) = (i1, o1, s1)" by (cases "ring_run put get full vacant ops (put b s)") auto
      have "ins = b # i1" "outs = o1" "s' = s1" using Cons.prems(1) r False by (simp_all add: Put)
      thus ?thesis using Cons.IH [OF r] put_inv [OF Cons.prems(2) False] put_contents [OF Cons.prems(2) False, of b] by auto
    qed (use Cons in \<open>simp add: Put\<close>)
  next
    case Get
    show ?thesis
    proof (cases "vacant s")
      case False
      obtain b s0 where g: "get s = (b, s0)" by (cases "get s") auto
      obtain i1 o1 s1 where r: "ring_run put get full vacant ops s0 = (i1, o1, s1)" by (cases "ring_run put get full vacant ops s0") auto
      have "ins = i1" "outs = b # o1" "s' = s1" using Cons.prems(1) r g False by (simp_all add: Get)
      thus ?thesis using Cons.IH [OF r] get_inv [OF Cons.prems(2) False] get_contents [OF Cons.prems(2) False] g by auto
    qed (use Cons in \<open>simp add: Get\<close>)
  qed
qed

text \<open>As many puts as there is room for, and as many gets as there are bytes.\<close>

lemma put_many:
  "inv s \<Longrightarrow> length (contents s) + length bs \<le> cap \<Longrightarrow>
     inv (fold put bs s) \<and> contents (fold put bs s) = contents s @ bs"
proof (induction bs arbitrary: s)
  case (Cons b bs)
  have nf: "\<not> full s" using Cons.prems full_iff by auto
  show ?case
    using Cons.IH [of "put b s"] put_inv [OF Cons.prems(1) nf, of b] put_contents [OF Cons.prems(1) nf, of b] Cons.prems(2)
    by auto
qed simp

end

end
