(* ===== verification/Pipe.thy ===== *)
theory Pipe
  imports Sleeplock Ring
begin

text \<open>
  Pipes, \<open>proc/pipe.cpp\<close>: the buffer of 512 bytes with its two running counters, as a provider of
  \<open>byte_ring\<close>, and reading, writing and closing with their waits.
\<close>

section \<open>State\<close>

definition PIPESIZE :: nat where "PIPESIZE = 512"

text \<open>\<open>class pipe\<close> without its spin lock \<open>L_pipe i\<close>.\<close>

record kpipe =
  pi_readable :: bool
  pi_writeable :: bool
  pi_nwrite :: u32
  pi_nread :: u32
  pi_buf :: "nat \<Rightarrow> u8"

text \<open>Pipes are objects at addresses; \<open>pipes a\<close> is the one at \<open>a\<close>.\<close>

record pipe_state = sleep_state +
  pipes :: "u64 \<Rightarrow> kpipe"

definition upd_pipe :: "u64 \<Rightarrow> (kpipe \<Rightarrow> kpipe) \<Rightarrow> 'a pipe_state_scheme \<Rightarrow> 'a pipe_state_scheme" where
  "upd_pipe a f s = s\<lparr>pipes := (pipes s)(a := f (pipes s a))\<rparr>"

section \<open>The buffer\<close>

text \<open>\<open>buf[nwrite++ % PIPESIZE] = ch\<close> and \<open>ch = buf[nread++ % PIPESIZE]\<close>, and the two tests.\<close>

definition pipe_put :: "u8 \<Rightarrow> kpipe \<Rightarrow> kpipe" where
  "pipe_put ch p = p\<lparr>pi_buf := (pi_buf p)(unat (pi_nwrite p mod 512) := ch), pi_nwrite := pi_nwrite p + 1\<rparr>"

definition pipe_get :: "kpipe \<Rightarrow> u8 \<times> kpipe" where
  "pipe_get p = (pi_buf p (unat (pi_nread p mod 512)), p\<lparr>pi_nread := pi_nread p + 1\<rparr>)"

definition pipe_full :: "kpipe \<Rightarrow> bool" where
  "pipe_full p \<longleftrightarrow> pi_nwrite p = pi_nread p + 512"

definition pipe_empty :: "kpipe \<Rightarrow> bool" where
  "pipe_empty p \<longleftrightarrow> pi_nread p = pi_nwrite p"

text \<open>The bytes written and not yet read, and what the counters keep to.\<close>

definition pipe_contents :: "kpipe \<Rightarrow> u8 list" where
  "pipe_contents p = map (\<lambda>k. pi_buf p ((unat (pi_nread p) + k) mod 512)) [0..<unat (pi_nwrite p - pi_nread p)]"

definition pipe_inv :: "kpipe \<Rightarrow> bool" where
  "pipe_inv p \<longleftrightarrow> unat (pi_nwrite p - pi_nread p) \<le> PIPESIZE"

lemma unat_mod512: "unat ((r :: u32) + d) mod 512 = (unat r + unat d) mod 512"
  by (simp add: unat_word_ariths mod_mod_cancel)

lemma unat_idx: "unat ((r :: u32) mod 512) = unat r mod 512"
  by (simp add: unat_mod)

lemma unat_succ_diff:
  "unat ((w :: u32) - r) \<le> 512 \<Longrightarrow> unat (w + 1 - r) = unat (w - r) + 1"
proof -
  assume a: "unat (w - r) \<le> 512"
  have e: "w + 1 - r = (w - r) + 1" by simp
  have "unat ((w - r) + 1) = (unat (w - r) + 1) mod 2 ^ 32" by (simp add: unat_word_ariths)
  thus ?thesis unfolding e using a by simp
qed

lemma unat_pred_diff:
  assumes "w \<noteq> (r :: u32)"
  shows "unat (w - r) = Suc (unat (w - (r + 1)))"
proof -
  have e: "w - (r + 1) = (w - r) - 1" by simp
  have "w - r \<noteq> 0" using assms by simp
  hence "unat (w - r - 1) = unat (w - r) - 1" "0 < unat (w - r)" by (simp_all add: unat_minus_one unat_gt_0)
  thus ?thesis unfolding e by simp
qed

lemma pipe_contents_length [simp]: "length (pipe_contents p) = unat (pi_nwrite p - pi_nread p)"
  by (simp add: pipe_contents_def)

interpretation pipe_ring: byte_ring pipe_put pipe_get pipe_full pipe_empty pipe_contents pipe_inv PIPESIZE
proof unfold_locales
  have c512: "unat (512 :: u32) = 512" by simp
  show full: "pipe_full p \<longleftrightarrow> length (pipe_contents p) = PIPESIZE" for p
  proof -
    have "pi_nwrite p = pi_nread p + 512 \<longleftrightarrow> pi_nwrite p - pi_nread p = 512" by (auto simp: diff_eq_eq add.commute)
    also have "\<dots> \<longleftrightarrow> unat (pi_nwrite p - pi_nread p) = 512" by (metis c512 word_unat_eq_iff)
    finally show ?thesis by (simp add: pipe_full_def PIPESIZE_def)
  qed
  show "pipe_empty p \<longleftrightarrow> pipe_contents p = []" for p
    by (simp add: pipe_empty_def pipe_contents_def unat_eq_0) auto
  show "length (pipe_contents p) \<le> PIPESIZE" if "pipe_inv p" for p using that by (simp add: pipe_inv_def)
  fix p b assume i: "pipe_inv p" and nf: "\<not> pipe_full p"
  define n where "n = unat (pi_nwrite p - pi_nread p)"
  have n: "n < 512" using i nf by (simp add: full pipe_inv_def n_def PIPESIZE_def)
  have n1: "unat (pi_nwrite p + 1 - pi_nread p) = n + 1" using unat_succ_diff n by (simp add: n_def)
  show "pipe_inv (pipe_put b p)" using n n1 by (simp add: pipe_inv_def pipe_put_def PIPESIZE_def)
  have w: "unat (pi_nwrite p mod 512) = (unat (pi_nread p) + n) mod 512"
    using unat_mod512 [of "pi_nread p" "pi_nwrite p - pi_nread p"] by (simp add: n_def unat_idx)
  have d: "(unat (pi_nread p) + k) mod 512 \<noteq> (unat (pi_nread p) + n) mod 512" if "k < n" for k
  proof
    assume "(unat (pi_nread p) + k) mod 512 = (unat (pi_nread p) + n) mod 512"
    hence "(512 :: nat) dvd (unat (pi_nread p) + n) - (unat (pi_nread p) + k)"
      using that by (subst mod_eq_dvd_iff_nat [symmetric]) simp_all
    hence "512 dvd n - k" by simp
    thus False using that n by (auto dest: dvd_imp_le)
  qed
  show "pipe_contents (pipe_put b p) = pipe_contents p @ [b]"
    unfolding pipe_contents_def using n1 d
    by (simp add: pipe_put_def n_def [symmetric] w)
next
  fix p assume i: "pipe_inv p" and ne: "\<not> pipe_empty p"
  have n: "unat (pi_nwrite p - pi_nread p) = Suc (unat (pi_nwrite p - (pi_nread p + 1)))"
    using ne by (intro unat_pred_diff) (auto simp: pipe_empty_def)
  show "pipe_inv (snd (pipe_get p))" using i n by (simp add: pipe_inv_def pipe_get_def)
  have s: "(unat (pi_nread p + 1) + k) mod 512 = (unat (pi_nread p) + Suc k) mod 512" for k
  proof -
    have "(unat (pi_nread p + 1) + k) mod 512 = (unat (pi_nread p + 1) mod 512 + k) mod 512"
      by (simp only: mod_add_left_eq)
    also have "unat (pi_nread p + 1) mod 512 = (unat (pi_nread p) + 1) mod 512"
      using unat_mod512 [of "pi_nread p" 1] by simp
    also have "((unat (pi_nread p) + 1) mod 512 + k) mod 512 = (unat (pi_nread p) + 1 + k) mod 512"
      by (simp only: mod_add_left_eq)
    finally show ?thesis by simp
  qed
  show "pipe_contents p = fst (pipe_get p) # pipe_contents (snd (pipe_get p))"
    unfolding pipe_contents_def n
    by (simp add: pipe_get_def s unat_idx upt_conv_Cons del: upt_Suc flip: map_Suc_upt)
qed


section \<open>Reading and writing\<close>

text \<open>
  The constructor; \<open>nm\<close> is the address of the literal \<open>"pipe"\<close>, \<open>f0\<close> and \<open>f1\<close> slots of \<open>fileTable\<close>.
\<close>

definition pipe_new :: "u64 \<Rightarrow> u64 \<Rightarrow> nat \<Rightarrow> nat \<Rightarrow> 'a pipe_state_scheme \<Rightarrow> 'a pipe_state_scheme" where
  "pipe_new nm a f0 f1 s =
     (let s = upd_pipe a (\<lambda>p. p\<lparr>pi_readable := True, pi_writeable := True, pi_nread := 0, pi_nwrite := 0\<rparr>) s;
          s = initlock (L_pipe (unat a)) nm 4 s;
          s = s\<lparr>fileTable := (fileTable s)(f0 := (fileTable s f0)
                \<lparr>f_type := FD_PIPE, f_readable := 1, f_writable := 0, f_pip := a\<rparr>)\<rparr>
      in s\<lparr>fileTable := (fileTable s)(f1 := (fileTable s f1)
                \<lparr>f_type := FD_PIPE, f_readable := 0, f_writable := 1, f_pip := a\<rparr>)\<rparr>)"

text \<open>
  The wait of \<open>piperead\<close> on an empty pipe: \<open>None\<close> in the result when a killed process leaves.
\<close>

partial_function (option) piperead_wait ::
    "'a pipe_state_ext sleep_state_ext switch \<Rightarrow> u64 \<Rightarrow> nat \<Rightarrow> 'a pipe_state_scheme \<Rightarrow> (bool \<times> 'a pipe_state_scheme) res option"
where
  "piperead_wait pswitch a p s =
     (if pipe_empty (pipes s a) \<and> pi_writeable (pipes s a) then
        if p_killed (procTable s p) \<noteq> 0 then Some (Inr (False, s))
        else (case sleep pswitch (Ch_nread (unat a)) (L_pipe (unat a)) s of
                Inl e \<Rightarrow> Some (Inl e)
              | Inr s \<Rightarrow> piperead_wait pswitch a p s)
      else Some (Inr (True, s)))"

text \<open>The copying loop from \<open>i\<close> with \<open>n\<close> to go; \<open>chp\<close> is the address of the local \<open>ch\<close>.\<close>

fun piperead_loop ::
    "u64 \<Rightarrow> u64 \<Rightarrow> u64 \<Rightarrow> u64 \<Rightarrow> nat \<Rightarrow> int \<Rightarrow> 'a pipe_state_scheme \<Rightarrow> (int \<times> 'a pipe_state_scheme) res" where
  "piperead_loop a pt chp addr 0 i s = Inr (i, s)"
| "piperead_loop a pt chp addr (Suc n) i s =
     (if pipe_empty (pipes s a) then Inr (i, s)
      else let (ch, pi) = pipe_get (pipes s a); s = upd_pipe a (\<lambda>_. pi) s; s = s\<lparr>ram := (ram s)(chp := ch)\<rparr> in
        bnd (copyout pt (addr + word_of_int i) chp 1 s) (\<lambda>(r, s).
          if r = - 1 then Inr (i, s) else piperead_loop a pt chp addr n (i + 1) s))"

definition piperead ::
    "'a pipe_state_ext sleep_state_ext switch \<Rightarrow> u64 \<Rightarrow> u64 \<Rightarrow> u64 \<Rightarrow> int \<Rightarrow> 'a pipe_state_scheme
       \<Rightarrow> (int \<times> 'a pipe_state_scheme) res option" where
  "piperead pswitch chp a addr n s =
     opt_bnd (Some (curproc s)) (\<lambda>(p, s).
     opt_bnd (Some (acquire (L_pipe (unat a)) s)) (\<lambda>s.
     case p of
       None \<Rightarrow> Some (if pipe_empty (pipes s a) \<and> pi_writeable (pipes s a) \<or> 0 < n \<and> \<not> pipe_empty (pipes s a)
                     then null_deref
                     else bnd (release (L_pipe (unat a)) (wakeup (Ch_nwrite (unat a)) s)) (\<lambda>s. Inr (0, s)))
     | Some p \<Rightarrow>
         opt_bnd (piperead_wait pswitch a p s) (\<lambda>(go, s).
         Some (if \<not> go then bnd (release (L_pipe (unat a)) s) (\<lambda>s. Inr (- 1, s))
               else bnd (piperead_loop a (p_pagetable (procTable s p)) chp addr (nat n) 0 s) (\<lambda>(i, s).
                      let s = wakeup (Ch_nwrite (unat a)) s
                      in bnd (release (L_pipe (unat a)) s) (\<lambda>s. Inr (i, s)))))))"

partial_function (option) pipewrite_wait ::
    "'a pipe_state_ext sleep_state_ext switch \<Rightarrow> u64 \<Rightarrow> nat \<Rightarrow> 'a pipe_state_scheme \<Rightarrow> (bool \<times> 'a pipe_state_scheme) res option"
where
  "pipewrite_wait pswitch a p s =
     (if pipe_full (pipes s a) then
        if \<not> pi_readable (pipes s a) \<or> p_killed (procTable s p) \<noteq> 0 then Some (Inr (False, s))
        else (let s = wakeup (Ch_nread (unat a)) s in
              case sleep pswitch (Ch_nwrite (unat a)) (L_pipe (unat a)) s of
                Inl e \<Rightarrow> Some (Inl e)
              | Inr s \<Rightarrow> pipewrite_wait pswitch a p s)
      else Some (Inr (True, s)))"

text \<open>The result \<open>None\<close> is the early return -1.\<close>

fun pipewrite_loop ::
    "'a pipe_state_ext sleep_state_ext switch \<Rightarrow> u64 \<Rightarrow> nat \<Rightarrow> u64 \<Rightarrow> u64 \<Rightarrow> u64 \<Rightarrow> nat \<Rightarrow> int \<Rightarrow> 'a pipe_state_scheme
       \<Rightarrow> (int option \<times> 'a pipe_state_scheme) res option" where
  "pipewrite_loop pswitch a p pt chp addr 0 i s = Some (Inr (Some i, s))"
| "pipewrite_loop pswitch a p pt chp addr (Suc n) i s =
     opt_bnd (pipewrite_wait pswitch a p s) (\<lambda>(go, s).
       if \<not> go then Some (Inr (None, s))
       else opt_bnd (Some (copyin pt chp (addr + word_of_int i) 1 s)) (\<lambda>(r, s).
         if r = - 1 then Some (Inr (Some i, s))
         else pipewrite_loop pswitch a p pt chp addr n (i + 1)
                (upd_pipe a (pipe_put (ram s chp)) s)))"

definition pipewrite ::
    "'a pipe_state_ext sleep_state_ext switch \<Rightarrow> u64 \<Rightarrow> u64 \<Rightarrow> u64 \<Rightarrow> int \<Rightarrow> 'a pipe_state_scheme
       \<Rightarrow> (int \<times> 'a pipe_state_scheme) res option" where
  "pipewrite pswitch chp a addr n s =
     opt_bnd (Some (curproc s)) (\<lambda>(p, s).
     opt_bnd (Some (acquire (L_pipe (unat a)) s)) (\<lambda>s.
     if n \<le> 0 then
       Some (bnd (release (L_pipe (unat a)) (wakeup (Ch_nread (unat a)) s)) (\<lambda>s. Inr (0, s)))
     else case p of
       None \<Rightarrow> Some (if pipe_full (pipes s a) \<and> \<not> pi_readable (pipes s a)
                     then bnd (release (L_pipe (unat a)) s) (\<lambda>s. Inr (- 1, s)) else null_deref)
     | Some p \<Rightarrow>
         opt_bnd (pipewrite_loop pswitch a p (p_pagetable (procTable s p)) chp addr (nat n) 0 s) (\<lambda>(r, s).
         Some (case r of
                 None \<Rightarrow> bnd (release (L_pipe (unat a)) s) (\<lambda>s. Inr (- 1, s))
               | Some i \<Rightarrow>
                   (let s = wakeup (Ch_nread (unat a)) s
                    in bnd (release (L_pipe (unat a)) s) (\<lambda>s. Inr (i, s)))))))"

datatype end_type = READ_END | WRITE_END

definition pipeclose :: "u64 \<Rightarrow> end_type \<Rightarrow> 'a pipe_state_scheme \<Rightarrow> 'a pipe_state_scheme res" where
  "pipeclose a endt s =
     bnd (acquire (L_pipe (unat a)) s) (\<lambda>s.
       let s = (if endt = READ_END
                then wakeup (Ch_nwrite (unat a)) (upd_pipe a (\<lambda>p. p\<lparr>pi_readable := False\<rparr>) s)
                else wakeup (Ch_nread (unat a)) (upd_pipe a (\<lambda>p. p\<lparr>pi_writeable := False\<rparr>) s))
       in if \<not> pi_readable (pipes s a) \<and> \<not> pi_writeable (pipes s a)
          then bnd (release (L_pipe (unat a)) s) (operator_delete a)
          else release (L_pipe (unat a)) s)"


section \<open>One byte to or from user memory\<close>

text \<open>
  The byte at \<open>va\<close> is at the physical address \<open>pa\<close>, as the copies find it; \<open>clear\<close> addresses lie in no
  table of the tree.
\<close>

definition maps_byte :: "mem \<Rightarrow> u64 \<Rightarrow> u64 \<Rightarrow> u64 \<Rightarrow> bool" where
  "maps_byte m pt va pa \<longleftrightarrow>
     (let v = PGROUNDDOWN va; e = entry 2 m pt v in
      v < MAXVA \<and> leaf 2 m pt v \<noteq> Some 0 \<and> e \<noteq> 0 \<and> PTE2PAGE e \<noteq> 0 \<and> pa = PTE2PAGE e + (va - v))"

definition clear :: "mem \<Rightarrow> u64 \<Rightarrow> u64 \<Rightarrow> bool" where
  "clear m pt b \<longleftrightarrow> (\<forall>x \<in> set (tables 2 m pt). \<not> in_page x b)"

lemma clear_upd:
  assumes "clear m pt b"
  shows "clear (m(b := v)) pt c = clear m pt c" "maps_byte (m(b := v)) pt va pa = maps_byte m pt va pa"
proof -
  have s: "(m(b := v)) c = m c" if "x \<in> set (tables 2 m pt)" "in_page x c" for x c
    using assms that by (auto simp: clear_def)
  show "clear (m(b := v)) pt c = clear m pt c" unfolding clear_def by (subst tables_cong) (use s in auto)
  have "leaf 2 (m(b := v)) pt x = leaf 2 m pt x" "entry 2 (m(b := v)) pt x = entry 2 m pt x" for x
    by (rule leaf_cong entry_cong, use s in blast)+
  thus "maps_byte (m(b := v)) pt va pa = maps_byte m pt va pa" by (simp add: maps_byte_def)
qed

lemma memmove_byte: "memmove m d s 1 = m(d := m s)"
  by (simp add: memmove_def)

lemma PGROUNDDOWN_mod: "PGROUNDDOWN va mod PGSIZE = 0"
  using PGROUNDDOWN_aligned [of va] by (simp add: word_unat_eq_iff unat_mod PGSIZE_def)

lemma KGetKaddr_maps:
  assumes "maps_byte (ram s) pt va pa"
  shows "KGetKaddr pt (PGROUNDDOWN va) s = Inr (PTE2PAGE (entry 2 (ram s) pt (PGROUNDDOWN va)), s)"
proof -
  obtain a where a: "leaf 2 (ram s) pt (PGROUNDDOWN va) = Some a" "a \<noteq> 0" "ld64 (ram s) a \<noteq> 0"
    using assms by (auto simp: maps_byte_def Let_def entry_def split: option.splits)
  have "PGROUNDDOWN va < MAXVA" using assms by (simp add: maps_byte_def Let_def)
  thus ?thesis using a
    by (simp add: KGetKaddr_def walk_def not_le walk_level_read entry_def PGROUNDDOWN_mod PTE_V_def)
qed

lemma at_most_one: "(n :: u64) \<noteq> 0 \<Longrightarrow> (if n > 1 then 1 else n) = 1"
proof -
  assume "n \<noteq> 0"
  hence "n = 1" if "\<not> n > 1"
    using that word_le_nat_alt [of n 1] word_unat_eq_iff [of n 1] by (simp add: not_less unat_eq_0 le_Suc_eq)
  thus ?thesis by simp
qed

lemma one_of_page:
  fixes va :: u64
  shows "(let n = PGSIZE - (va - PGROUNDDOWN va) in if n > 1 then 1 else n) = 1"
proof -
  have o: "unat (va - PGROUNDDOWN va) < 4096" by (simp add: PGROUNDDOWN_offset)
  have "PGSIZE - (va - PGROUNDDOWN va) \<noteq> 0"
  proof
    assume "PGSIZE - (va - PGROUNDDOWN va) = 0"
    hence "va - PGROUNDDOWN va = PGSIZE" by simp
    thus False using o by (simp add: PGSIZE_def)
  qed
  thus ?thesis unfolding Let_def by (rule at_most_one)
qed

lemma copyout_byte:
  assumes "maps_byte (ram s) pt va pa"
  shows "copyout pt va src 1 s = Inr (0, s\<lparr>ram := (ram s)(pa := ram s src)\<rparr>)"
proof -
  have "PTE2PAGE (entry 2 (ram s) pt (PGROUNDDOWN va)) \<noteq> 0"
    "pa = PTE2PAGE (entry 2 (ram s) pt (PGROUNDDOWN va)) + (va - PGROUNDDOWN va)"
    using assms by (simp_all add: maps_byte_def Let_def)
  thus ?thesis
    using one_of_page [of va]
    by (simp add: copyout.simps [of pt va] copyout.simps [of pt _ _ 0] KGetKaddr_maps [OF assms] Let_def memmove_byte
        split del: if_split)
qed

lemma copyin_byte:
  assumes "maps_byte (ram s) pt va pa"
  shows "copyin pt dst va 1 s = Inr (0, s\<lparr>ram := (ram s)(dst := ram s pa)\<rparr>)"
proof -
  have "PTE2PAGE (entry 2 (ram s) pt (PGROUNDDOWN va)) \<noteq> 0"
    "pa = PTE2PAGE (entry 2 (ram s) pt (PGROUNDDOWN va)) + (va - PGROUNDDOWN va)"
    using assms by (simp_all add: maps_byte_def Let_def)
  thus ?thesis
    using one_of_page [of va]
    by (simp add: copyin.simps [of pt dst va] copyin.simps [of pt _ _ 0] KGetKaddr_maps [OF assms] Let_def memmove_byte
        split del: if_split)
qed


section \<open>The copying loops\<close>

lemma pipe_state_triv: "s\<lparr>ram := (ram s)(x := ram s x), pipes := (pipes s)(a := pipes s a)\<rparr> = s"
  by (cases s) simp

lemma pipewrite_loop_spec:
  assumes "pipe_inv (pipes s a)" "length (pipe_contents (pipes s a)) + n \<le> PIPESIZE"
    and "\<forall>k < n. maps_byte (ram s) pt (addr + word_of_int (i + int k)) (pa k) \<and> pa k \<noteq> chp"
    and "clear (ram s) pt chp"
  shows "\<exists>c. pipewrite_loop pswitch a p pt chp addr n i s = Some (Inr (Some (i + int n),
           s\<lparr>ram := (ram s)(chp := c), pipes := (pipes s)(a := fold pipe_put (map (\<lambda>k. ram s (pa k)) [0..<n]) (pipes s a))\<rparr>))"
  using assms
proof (induction n arbitrary: i s pa)
  case 0
  show ?case using pipe_state_triv [of s chp a] by (intro exI [of _ "ram s chp"]) simp
next
  case (Suc n)
  have nf: "\<not> pipe_full (pipes s a)" using Suc.prems(1,2) pipe_ring.full_iff by auto
  have w: "pipewrite_wait pswitch a p s = Some (Inr (True, s))" using nf by (subst pipewrite_wait.simps) simp
  have m0: "maps_byte (ram s) pt (addr + word_of_int i) (pa 0)" "pa 0 \<noteq> chp" using Suc.prems(3) by force+
  define b where "b = ram s (pa 0)"
  define s2 where "s2 = upd_pipe a (pipe_put b) (s\<lparr>ram := (ram s)(chp := b)\<rparr>)"
  have step: "pipewrite_loop pswitch a p pt chp addr (Suc n) i s = pipewrite_loop pswitch a p pt chp addr n (i + 1) s2"
    by (simp add: w opt_bnd_def copyin_byte [OF m0(1)] s2_def b_def)
  have f2: "ram s2 = (ram s)(chp := b)" "pipes s2 = (pipes s)(a := pipe_put b (pipes s a))"
    by (simp_all add: s2_def upd_pipe_def)
  have p2: "pipe_inv (pipes s2 a)" "length (pipe_contents (pipes s2 a)) + n \<le> PIPESIZE"
    using pipe_ring.put_inv [OF Suc.prems(1) nf, of b] pipe_ring.put_contents [OF Suc.prems(1) nf, of b] Suc.prems(2)
    by (simp_all add: f2 del: pipe_contents_length)
  have m2: "maps_byte (ram s2) pt (addr + word_of_int (i + 1 + int k)) (pa (Suc k)) \<and> pa (Suc k) \<noteq> chp" if "k < n" for k
    using Suc.prems(3) [rule_format, of "Suc k"] that clear_upd(2) [OF Suc.prems(4), of b] unfolding f2 by (simp add: add.assoc)
  have "clear (ram s2) pt chp" using clear_upd(1) [OF Suc.prems(4)] Suc.prems(4) by (simp add: f2)
  from Suc.IH [of s2 "i + 1" "\<lambda>k. pa (Suc k)", OF p2 _ this] m2 obtain c where
    c: "pipewrite_loop pswitch a p pt chp addr n (i + 1) s2 = Some (Inr (Some (i + 1 + int n),
           s2\<lparr>ram := (ram s2)(chp := c), pipes := (pipes s2)(a := fold pipe_put (map (\<lambda>k. ram s2 (pa (Suc k))) [0..<n]) (pipes s2 a))\<rparr>))"
    by blast
  have r: "map (\<lambda>k. ram s2 (pa (Suc k))) [0..<n] = map (\<lambda>k. ram s (pa (Suc k))) [0..<n]"
    using Suc.prems(3) by (intro map_cong) (auto simp: f2)
  have l: "map (\<lambda>k. ram s (pa k)) [0..<Suc n] = b # map (\<lambda>k. ram s (pa (Suc k))) [0..<n]"
    by (simp add: upt_conv_Cons b_def del: upt_Suc flip: map_Suc_upt)
  have st: "s2\<lparr>ram := (ram s2)(chp := c), pipes := (pipes s2)(a := fold pipe_put (map (\<lambda>k. ram s (pa (Suc k))) [0..<n]) (pipes s2 a))\<rparr>
      = s\<lparr>ram := (ram s)(chp := c), pipes := (pipes s)(a := fold pipe_put (map (\<lambda>k. ram s (pa k)) [0..<Suc n]) (pipes s a))\<rparr>"
    unfolding l by (simp add: s2_def upd_pipe_def)
  have ie: "i + 1 + int n = i + int (Suc n)" by simp
  have "pipewrite_loop pswitch a p pt chp addr (Suc n) i s = Some (Inr (Some (i + int (Suc n)),
      s\<lparr>ram := (ram s)(chp := c), pipes := (pipes s)(a := fold pipe_put (map (\<lambda>k. ram s (pa k)) [0..<Suc n]) (pipes s a))\<rparr>))"
    unfolding step c r st ie ..
  thus ?case by blast
qed

lemma piperead_loop_spec:
  assumes "pipe_inv (pipes s a)" "m = min n (length (pipe_contents (pipes s a)))"
    and "\<forall>k < m. maps_byte (ram s) pt (addr + word_of_int (i + int k)) (pa k) \<and> pa k \<noteq> chp \<and> clear (ram s) pt (pa k)"
    and "clear (ram s) pt chp" "inj_on pa {..<m}"
  shows "\<exists>r q. piperead_loop a pt chp addr n i s = Inr (i + int m, s\<lparr>ram := r, pipes := (pipes s)(a := q)\<rparr>)
           \<and> pipe_inv q \<and> pipe_contents q = drop m (pipe_contents (pipes s a))
           \<and> (\<forall>k < m. r (pa k) = pipe_contents (pipes s a) ! k)
           \<and> (\<forall>x. x \<noteq> chp \<longrightarrow> (\<forall>k < m. x \<noteq> pa k) \<longrightarrow> r x = ram s x)"
  using assms
proof (induction n arbitrary: i s pa m)
  case 0
  show ?case
    by (rule exI [of _ "ram s"], rule exI [of _ "pipes s a"])
       (use 0 pipe_state_triv [of s chp a] in simp)
next
  case (Suc n)
  show ?case
  proof (cases "pipe_empty (pipes s a)")
    case True
    hence "pipe_contents (pipes s a) = []" using pipe_ring.vacant_iff Suc.prems(1) by blast
    hence "m = 0" using Suc.prems(2) by (simp del: pipe_contents_length)
    thus ?thesis
      by (intro exI [of _ "ram s"] exI [of _ "pipes s a"])
         (use True Suc.prems(1) pipe_state_triv [of s chp a] in simp)
  next
    case False
    obtain ch q0 where g: "pipe_get (pipes s a) = (ch, q0)" by (cases "pipe_get (pipes s a)") auto
    have c: "pipe_contents (pipes s a) = ch # pipe_contents q0" "pipe_inv q0"
      using pipe_ring.get_contents [OF Suc.prems(1) False] pipe_ring.get_inv [OF Suc.prems(1) False] g by auto
    define m0 where "m0 = min n (length (pipe_contents q0))"
    have m: "m = Suc m0" using Suc.prems(2) unfolding c(1) m0_def by (simp del: pipe_contents_length)
    have k0: "maps_byte (ram s) pt (addr + word_of_int i) (pa 0)" "pa 0 \<noteq> chp" "clear (ram s) pt (pa 0)"
      using Suc.prems(3) m by force+
    define s1 where "s1 = (upd_pipe a (\<lambda>_. q0) s)\<lparr>ram := (ram s)(chp := ch)\<rparr>"
    define s2 where "s2 = s1\<lparr>ram := (ram s1)(pa 0 := ch)\<rparr>"
    have f1: "ram s1 = (ram s)(chp := ch)" "pipes s1 = (pipes s)(a := q0)" by (simp_all add: s1_def upd_pipe_def)
    have f2: "ram s2 = (ram s)(chp := ch, pa 0 := ch)" "pipes s2 = (pipes s)(a := q0)"
      by (simp_all add: s2_def f1)
    have cl: "clear (ram s2) pt x = clear (ram s) pt x" "maps_byte (ram s2) pt va y = maps_byte (ram s) pt va y" for x va y
      using clear_upd [OF Suc.prems(4), of ch] clear_upd [of "(ram s)(chp := ch)" pt "pa 0" ch] k0(3)
      by (simp_all add: f2)
    have mb: "maps_byte (ram s1) pt (addr + word_of_int i) (pa 0)"
      using k0(1) clear_upd(2) [OF Suc.prems(4)] by (simp add: f1)
    have step: "piperead_loop a pt chp addr (Suc n) i s = piperead_loop a pt chp addr n (i + 1) s2"
      using False g copyout_byte [OF mb, of chp] by (simp add: upd_pipe_def s1_def s2_def)
    have mp: "\<forall>k < m0. maps_byte (ram s2) pt (addr + word_of_int (i + 1 + int k)) (pa (Suc k)) \<and> pa (Suc k) \<noteq> chp \<and> clear (ram s2) pt (pa (Suc k))"
    proof (intro allI impI)
      fix k assume "k < m0"
      thus "maps_byte (ram s2) pt (addr + word_of_int (i + 1 + int k)) (pa (Suc k)) \<and> pa (Suc k) \<noteq> chp \<and> clear (ram s2) pt (pa (Suc k))"
        using Suc.prems(3) [rule_format, of "Suc k"] m by (simp add: cl add.assoc)
    qed
    have ij: "inj_on (\<lambda>k. pa (Suc k)) {..<m0}"
      using Suc.prems(5) m by (auto simp: inj_on_def)
    have cc: "clear (ram s2) pt chp" by (simp add: cl Suc.prems(4))
    have ii: "pipe_inv (pipes s2 a)" "m0 = min n (length (pipe_contents (pipes s2 a)))"
      using c by (simp_all add: f2 m0_def)
    obtain r q where
      r: "piperead_loop a pt chp addr n (i + 1) s2 = Inr (i + 1 + int m0, s2\<lparr>ram := r, pipes := (pipes s2)(a := q)\<rparr>)"
      and q: "pipe_inv q" "pipe_contents q = drop m0 (pipe_contents (pipes s2 a))"
      and rk: "\<forall>k < m0. r (pa (Suc k)) = pipe_contents (pipes s2 a) ! k"
      and rx: "\<forall>x. x \<noteq> chp \<longrightarrow> (\<forall>k < m0. x \<noteq> pa (Suc k)) \<longrightarrow> r x = ram s2 x"
      using Suc.IH [OF ii mp cc ij] by (elim exE conjE)
    have st: "s2\<lparr>ram := r, pipes := (pipes s2)(a := q)\<rparr> = s\<lparr>ram := r, pipes := (pipes s)(a := q)\<rparr>"
      by (simp add: s2_def s1_def upd_pipe_def)
    have n0: "pa 0 \<noteq> pa (Suc k)" if "k < m0" for k
      using Suc.prems(5) m that by (auto simp: inj_on_def)
    have r0: "r (pa 0) = ch" using rx [rule_format, of "pa 0"] n0 k0(2) by (simp add: f2)
    have "\<forall>k < m. r (pa k) = pipe_contents (pipes s a) ! k"
    proof (intro allI impI)
      fix k assume "k < m"
      thus "r (pa k) = pipe_contents (pipes s a) ! k" using rk r0 m by (cases k) (simp_all add: c(1) f2)
    qed
    moreover have "\<forall>x. x \<noteq> chp \<longrightarrow> (\<forall>k < m. x \<noteq> pa k) \<longrightarrow> r x = ram s x"
    proof (intro allI impI)
      fix x assume x: "x \<noteq> chp" "\<forall>k < m. x \<noteq> pa k"
      hence "x \<noteq> pa 0" "\<forall>k < m0. x \<noteq> pa (Suc k)" using m by auto
      thus "r x = ram s x" using rx x(1) by (simp add: f2)
    qed
    moreover have "pipe_contents q = drop m (pipe_contents (pipes s a))" using q by (simp add: m c(1) f2)
    moreover have "piperead_loop a pt chp addr (Suc n) i s = Inr (i + int m, s\<lparr>ram := r, pipes := (pipes s)(a := q)\<rparr>)"
      unfolding step r st by (simp add: m)
    ultimately show ?thesis using q(1) by blast
  qed
qed


section \<open>Whole calls\<close>

lemma pipe_section:
  "(in_section l s)\<lparr>ram := m, pipes := q\<rparr> = in_section l (s\<lparr>ram := m, pipes := q\<rparr>)"
  "(masked s)\<lparr>ram := m, pipes := q\<rparr> = masked (s\<lparr>ram := m, pipes := q\<rparr>)"
  "pipes (in_section l s) = pipes s" "pipes (masked s) = pipes s"
  by (simp_all add: in_section_def masked_def hart_defs)

lemma pipe_ready [simp]: "ready l (s\<lparr>ram := m, pipes := q\<rparr>) = ready l s"
  by (rule ready_cong) simp_all

lemma wakeup_pipe [simp]: "pipes (wakeup c s) = pipes s" "ram (wakeup c s) = ram s"
  by (simp_all add: wakeup_def)

lemma curproc_quiet: "quiet s \<Longrightarrow> cproc (curcpu s) = Some p \<Longrightarrow> curproc s = Inr (Some p, masked s)"
  by (simp add: curproc_noff0 quiet_def masked_def)

text \<open>C19: for any interleaving of writers and readers that wait on a full and an empty buffer as the code
  does, the bytes of the pipe come out in the order they went in, none lost, none twice, across the
  wrap-around of both 32-bit counters, and never more than 512 are inside.\<close>

theorem pipe_fifo:
  assumes "pipe_inv p" "ring_run pipe_put pipe_get pipe_full pipe_empty ops p = (ins, outs, q)"
  shows "pipe_contents p @ ins = outs @ pipe_contents q \<and> length (pipe_contents q) \<le> 512 \<and> pipe_inv q"
  using pipe_ring.run_fifo [OF assms(2,1)] by (simp add: PIPESIZE_def)

theorem pipe_fifo_witness:
  "\<exists>q. ring_run pipe_put pipe_get pipe_full pipe_empty [Put 5, Put 6, Get, Get, Get]
          \<lparr>pi_readable = True, pi_writeable = True, pi_nwrite = 0xFFFFFFFF, pi_nread = 0xFFFFFFFF, pi_buf = (\<lambda>_. 0)\<rparr>
        = ([5, 6], [5, 6], q) \<and> pipe_contents q = []"
proof -
  let ?p = "\<lparr>pi_readable = True, pi_writeable = True, pi_nwrite = 0xFFFFFFFF, pi_nread = 0xFFFFFFFF, pi_buf = (\<lambda>_. 0)\<rparr> :: kpipe"
  have i: "pipe_inv ?p" by (simp add: pipe_inv_def)
  obtain q where q: "ring_run pipe_put pipe_get pipe_full pipe_empty [Put 5, Put 6, Get, Get, Get] ?p = ([5, 6], [5, 6], q)"
    by (simp add: pipe_full_def pipe_empty_def pipe_put_def pipe_get_def)
  show ?thesis using pipe_fifo [OF i q] q by (auto simp: pipe_contents_def)
qed

text \<open>C20: a write of \<open>n\<close> bytes that fit, from mapped user memory, returns \<open>n\<close> and appends exactly those
  bytes to what the pipe holds; no other pipe and no memory but the local byte changes, the processes
  asleep on the read counter are made runnable and the lock is free again.\<close>

theorem pipewrite_spec:
  assumes "ready (L_pipe (unat a)) s" "cproc (curcpu s) = Some p" "pipe_inv (pipes s a)" "0 \<le> n"
    and "length (pipe_contents (pipes s a)) + nat n \<le> 512"
    and "\<forall>k < nat n. maps_byte (ram s) (p_pagetable (procTable s p)) (addr + word_of_nat k) (pa k) \<and> pa k \<noteq> chp"
    and "clear (ram s) (p_pagetable (procTable s p)) chp"
  shows "\<exists>s'. pipewrite pswitch chp a addr n s = Some (Inr (n, s'))
    \<and> pipe_contents (pipes s' a) = pipe_contents (pipes s a) @ map (\<lambda>k. ram s (pa k)) [0..<nat n]
    \<and> pipe_inv (pipes s' a) \<and> (\<forall>b. b \<noteq> a \<longrightarrow> pipes s' b = pipes s b) \<and> (\<forall>x. x \<noteq> chp \<longrightarrow> ram s' x = ram s x)
    \<and> procTable s' = procTable (wakeup (Ch_nread (unat a)) s) \<and> ready (L_pipe (unat a)) s'"
proof -
  define l where "l = L_pipe (unat a)"
  define m where "m = masked s"
  have cur: "curproc s = Inr (Some p, m)" using assms(1,2) by (simp add: m_def ready_def curproc_quiet)
  have pm: "procTable m = procTable s" by (simp add: m_def)
  have rm: "ready l m" using assms(1) by (simp add: m_def l_def)
  have acq: "acquire l m = Inr (in_section l m)" using rm by (simp add: ready_section)
  define bs where "bs = map (\<lambda>k. ram s (pa k)) [0..<nat n]"
  have put: "pipe_inv (fold pipe_put bs (pipes s a))" "pipe_contents (fold pipe_put bs (pipes s a)) = pipe_contents (pipes s a) @ bs"
    using pipe_ring.put_many [of "pipes s a" bs] assms(3,5) by (simp_all add: bs_def PIPESIZE_def)
  obtain c where c: "n \<le> 0 \<or> pipewrite_loop pswitch a p (p_pagetable (procTable s p)) chp addr (nat n) 0 (in_section l m)
        = Some (Inr (Some n, (in_section l m)\<lparr>ram := (ram s)(chp := c), pipes := (pipes s)(a := fold pipe_put bs (pipes s a))\<rparr>))"
    using pipewrite_loop_spec [of "in_section l m" a "nat n" "p_pagetable (procTable s p)" addr 0 pa chp pswitch p] assms(3-7)
    by (auto simp: pipe_section m_def bs_def PIPESIZE_def)
  have rel: "release l (wakeup ch (in_section l t)) = Inr (masked (wakeup ch t))" if "ready l t" for ch and t :: "'a pipe_state_scheme"
    using that by (simp add: wakeup_in_section ready_section)
  define t where "t = (if n \<le> 0 then m else m\<lparr>ram := (ram s)(chp := c), pipes := (pipes s)(a := fold pipe_put bs (pipes s a))\<rparr>)"
  define s' where "s' = masked (wakeup (Ch_nread (unat a)) t)"
  have rt: "ready l t" using rm by (simp add: t_def)
  have res: "pipewrite pswitch chp a addr n s = Some (Inr (n, s'))"
  proof (cases "n \<le> 0")
    case True
    hence "n = 0" using assms(4) by simp
    thus ?thesis using rel [OF rm] by (simp add: pipewrite_def cur opt_bnd_def acq l_def [symmetric] s'_def t_def)
  next
    case False
    with c have "pipewrite_loop pswitch a p (p_pagetable (procTable s p)) chp addr (nat n) 0 (in_section l m)
        = Some (Inr (Some n, in_section l t))" by (simp add: t_def pipe_section)
    thus ?thesis using False rel [OF rt]
      by (simp add: pipewrite_def cur opt_bnd_def acq pm l_def [symmetric] s'_def)
  qed
  have "n \<le> 0 \<Longrightarrow> bs = []" by (simp add: bs_def)
  hence "pipes s' = (pipes s)(a := fold pipe_put bs (pipes s a))" "\<forall>x. x \<noteq> chp \<longrightarrow> ram s' x = ram s x"
    by (auto simp: s'_def t_def m_def pipe_section)
  moreover have "procTable s' = procTable (wakeup (Ch_nread (unat a)) s)"
    by (simp add: s'_def t_def m_def wakeup_def)
  moreover have "ready l s'" using rt by (simp add: s'_def)
  ultimately show ?thesis using res put by (auto simp: l_def bs_def)
qed


text \<open>C21: a read of up to \<open>n\<close> bytes into mapped user memory, from a pipe that is not empty or that no
  one can write any more, returns the lesser of \<open>n\<close> and what the pipe holds; the bytes arrive in
  order at the user's addresses, the pipe keeps the rest, no other pipe and no other memory but the
  local byte changes, the processes asleep on the write counter are made runnable and the lock is
  free again.\<close>

theorem piperead_spec:
  assumes "ready (L_pipe (unat a)) s" "cproc (curcpu s) = Some p" "pipe_inv (pipes s a)" "0 \<le> n"
    and "pipe_contents (pipes s a) \<noteq> [] \<or> \<not> pi_writeable (pipes s a)"
    and "m = min (nat n) (length (pipe_contents (pipes s a)))"
    and "\<forall>k < m. maps_byte (ram s) (p_pagetable (procTable s p)) (addr + word_of_nat k) (pa k) \<and> pa k \<noteq> chp
                 \<and> clear (ram s) (p_pagetable (procTable s p)) (pa k)"
    and "clear (ram s) (p_pagetable (procTable s p)) chp" "inj_on pa {..<m}"
  shows "\<exists>s'. piperead pswitch chp a addr n s = Some (Inr (int m, s'))
    \<and> (\<forall>k < m. ram s' (pa k) = pipe_contents (pipes s a) ! k)
    \<and> (\<forall>x. x \<noteq> chp \<longrightarrow> (\<forall>k < m. x \<noteq> pa k) \<longrightarrow> ram s' x = ram s x)
    \<and> pipe_contents (pipes s' a) = drop m (pipe_contents (pipes s a)) \<and> pipe_inv (pipes s' a)
    \<and> (\<forall>b. b \<noteq> a \<longrightarrow> pipes s' b = pipes s b)
    \<and> procTable s' = procTable (wakeup (Ch_nwrite (unat a)) s) \<and> ready (L_pipe (unat a)) s'"
proof -
  define l where "l = L_pipe (unat a)"
  define t where "t = masked s"
  have cur: "curproc s = Inr (Some p, t)" using assms(1,2) by (simp add: t_def ready_def curproc_quiet)
  have pm: "procTable t = procTable s" by (simp add: t_def)
  have rm: "ready l t" using assms(1) by (simp add: t_def l_def)
  have acq: "acquire l t = Inr (in_section l t)" using rm by (simp add: ready_section)
  have w: "piperead_wait pswitch a p (in_section l t) = Some (Inr (True, in_section l t))"
    using assms(5) pipe_ring.vacant_iff [OF assms(3)]
    by (subst piperead_wait.simps) (auto simp: t_def pipe_section)
  obtain r q where
    r: "piperead_loop a (p_pagetable (procTable s p)) chp addr (nat n) 0 (in_section l t)
       = Inr (int m, (in_section l t)\<lparr>ram := r, pipes := (pipes s)(a := q)\<rparr>)"
    and q: "pipe_inv q" "pipe_contents q = drop m (pipe_contents (pipes s a))"
      "\<forall>k < m. r (pa k) = pipe_contents (pipes s a) ! k"
      "\<forall>x. x \<noteq> chp \<longrightarrow> (\<forall>k < m. x \<noteq> pa k) \<longrightarrow> r x = ram s x"
    using piperead_loop_spec [of "in_section l t" a m "nat n" "p_pagetable (procTable s p)" addr 0 pa chp] assms(3,6-9)
    by (auto simp: pipe_section t_def simp del: pipe_contents_length)
  define t' where "t' = t\<lparr>ram := r, pipes := (pipes s)(a := q)\<rparr>"
  define s' where "s' = masked (wakeup (Ch_nwrite (unat a)) t')"
  have rt: "ready l t'" using rm by (simp add: t'_def)
  have rel: "release l (wakeup ch (in_section l t')) = Inr (masked (wakeup ch t'))" for ch
    using rt by (simp add: wakeup_in_section ready_section)
  have "piperead pswitch chp a addr n s = Some (Inr (int m, s'))"
    using w r rel by (simp add: piperead_def cur opt_bnd_def acq pm l_def [symmetric] s'_def t'_def pipe_section Let_def)
  moreover have "pipes s' = (pipes s)(a := q)" "ram s' = r"
    by (simp_all add: s'_def t'_def pipe_section)
  moreover have "procTable s' = procTable (wakeup (Ch_nwrite (unat a)) s)"
    by (simp add: s'_def t'_def t_def wakeup_def)
  moreover have "ready l s'" using rt by (simp add: s'_def)
  ultimately show ?thesis using q by (auto simp: l_def)
qed


section \<open>A process with one page of memory\<close>

text \<open>Address 0 of the process is at \<open>0x80504000\<close>; the local byte is at \<open>0x80400100\<close>.\<close>

definition pipe_mem :: mem where
  "pipe_mem = (st64 (st64 (st64 (\<lambda>_. 0) 0x80501000 (PAGE2PTE 0x80502000 OR PTE_V))
     0x80502000 (PAGE2PTE 0x80503000 OR PTE_V)) 0x80503000 (PAGE2PTE 0x80504000 OR 0x17))
     (0x80504000 := 11, 0x80504001 := 12)"

definition pipe_hart :: pipe_state where
  "pipe_hart = sleep_state.extend
     (sleepy\<lparr>ram := pipe_mem, procTable := (\<lambda>_. zero_proc\<lparr>p_pagetable := 0x80501000\<rparr>)\<rparr>)
     (pipe_state.fields (\<lambda>_. \<lparr>pi_readable = True, pi_writeable = True, pi_nwrite = 2, pi_nread = 0,
        pi_buf = (\<lambda>i. if i = 0 then 7 else 9)\<rparr>))"

lemma pipe_hart_fields:
  "ram pipe_hart = pipe_mem" "p_pagetable (procTable pipe_hart p) = 0x80501000"
  "cproc (curcpu pipe_hart) = Some 2" "ready l pipe_hart"
  "pipe_contents (pipes pipe_hart a) = [7, 9]" "pipe_inv (pipes pipe_hart a)"
  by (simp_all add: pipe_hart_def sleep_state.defs pipe_state.defs zero_proc_def sleepy_def proc_state.defs one_proc_def
      ready_def quiet_def lock_free_def hart_defs pipe_contents_def pipe_inv_def upt_rec PIPESIZE_def)

lemma slot0_st64:
  assumes "unat pt mod 4096 = 0" "unat qt mod 4096 = 0" "j < 512"
  shows "ld64 (st64 m pt v) (slot qt j) = (if pt = qt \<and> j = 0 then v else ld64 m (slot qt j))"
  using slot_st64 [OF assms(1,2) _ assms(3), of 0 m v] by auto

lemma unat_tables: "unat (0x80501000 :: u64) mod 4096 = 0" "unat (0x80502000 :: u64) mod 4096 = 0"
  "unat (0x80503000 :: u64) mod 4096 = 0"
  by simp_all

lemma pipe_mem_ld:
  assumes "unat pt mod 4096 = 0" "i < 512" "pt \<noteq> 0x80504000"
  shows "ld64 pipe_mem (slot pt i) =
    (if i = 0 then (if pt = 0x80501000 then PAGE2PTE 0x80502000 OR PTE_V
                    else if pt = 0x80502000 then PAGE2PTE 0x80503000 OR PTE_V
                    else if pt = 0x80503000 then PAGE2PTE 0x80504000 OR 0x17 else 0) else 0)"
proof -
  let ?m = "st64 (st64 (st64 (\<lambda>_. 0) 0x80501000 (PAGE2PTE 0x80502000 OR PTE_V))
     0x80502000 (PAGE2PTE 0x80503000 OR PTE_V)) 0x80503000 (PAGE2PTE 0x80504000 OR 0x17)"
  have "ld64 pipe_mem (slot pt i) = ld64 ?m (slot pt i)"
  proof (rule slot_cong [OF assms(2)])
    fix b assume b: "in_page pt b"
    have "b \<noteq> 0x80504000 \<and> b \<noteq> 0x80504001"
      using pages_disjoint [of pt "0x80504000" b] assms b by (auto simp: in_page_def)
    thus "pipe_mem b = ?m b" by (simp add: pipe_mem_def)
  qed
  also have "\<dots> = (if i = 0 then (if pt = 0x80501000 then PAGE2PTE 0x80502000 OR PTE_V
                    else if pt = 0x80502000 then PAGE2PTE 0x80503000 OR PTE_V
                    else if pt = 0x80503000 then PAGE2PTE 0x80504000 OR 0x17 else 0) else 0)"
    using assms by (simp only: slot0_st64 unat_tables) (auto)
  finally show ?thesis .
qed

lemma PTE_V_nz: "PTE_V \<noteq> 0"
  by (simp add: PTE_V_def)

lemma pipe_mem_entries:
  "ld64 pipe_mem 0x80501000 = PAGE2PTE 0x80502000 OR PTE_V" "ld64 pipe_mem 0x80502000 = PAGE2PTE 0x80503000 OR PTE_V"
  "ld64 pipe_mem 0x80503000 = PAGE2PTE 0x80504000 OR 0x17"
  "PTE2PAGE (PAGE2PTE 0x80502000 OR PTE_V) = 0x80502000" "PTE2PAGE (PAGE2PTE 0x80503000 OR PTE_V) = 0x80503000"
  "PTE2PAGE (PAGE2PTE 0x80504000 OR 0x17) = 0x80504000"
  using pipe_mem_ld [of "0x80501000" 0] pipe_mem_ld [of "0x80502000" 0] pipe_mem_ld [of "0x80503000" 0]
  by (simp_all add: PTE2PAGE_def PAGE2PTE_def PTE_V_def)

lemma pipe_leaf: "leaf 2 pipe_mem 0x80501000 0 = Some 0x80503000"
proof -
  have px: "PX k 0 = 0" for k by (simp add: PX_def)
  have "leaf (Suc (Suc 0)) pipe_mem 0x80501000 0 = Some 0x80503000"
    by (simp add: px Let_def pipe_mem_entries PTE_V_nz)
  thus ?thesis by (simp only: numeral_2_eq_2)
qed

lemma pipe_tables_step:
  assumes "ld64 pipe_mem pt = PAGE2PTE qt OR PTE_V" "PTE2PAGE (PAGE2PTE qt OR PTE_V) = qt"
    and "\<And>i. i < 512 \<Longrightarrow> i \<noteq> 0 \<Longrightarrow> ld64 pipe_mem (slot pt i) = 0"
  shows "set (tables (Suc l) pipe_mem pt) = insert pt (set (tables l pipe_mem qt))"
proof -
  have "branch l pipe_mem pt i = (if i = 0 then tables l pipe_mem qt else [])" if "i < 512" for i
    using that assms by (cases "i = 0") (auto simp: branch_def PTE_V_nz)
  hence "(\<Union>i<512. set (branch l pipe_mem pt i)) = set (tables l pipe_mem qt)" by (auto split: if_splits)
  thus ?thesis by (simp only: tables_Suc_set)
qed

lemma pipe_tables: "set (tables 2 pipe_mem 0x80501000) = {0x80501000, 0x80502000, 0x80503000}"
proof -
  have z: "ld64 pipe_mem (slot pt i) = 0" if "pt \<in> {0x80501000, 0x80502000}" "i < 512" "i \<noteq> 0" for pt i
    using pipe_mem_ld [of pt i] that by auto
  have "set (tables (Suc (Suc 0)) pipe_mem 0x80501000) = insert 0x80501000 (insert 0x80502000 (set (tables 0 pipe_mem 0x80503000)))"
    using z by (subst pipe_tables_step [where qt = "0x80502000"], simp_all only: pipe_mem_entries)
       (auto simp: pipe_tables_step [where qt = "0x80503000"] pipe_mem_entries)
  thus ?thesis by (simp add: numeral_2_eq_2)
qed

lemma pipe_hart_maps:
  "maps_byte pipe_mem 0x80501000 0 0x80504000" "maps_byte pipe_mem 0x80501000 1 0x80504001"
  by (simp_all add: maps_byte_def Let_def pipe_leaf entry_def pipe_mem_entries PGROUNDDOWN_def PGSIZE_def MAXVA_def)
    (simp_all add: PAGE2PTE_def)

lemma pipe_hart_clear:
  "clear pipe_mem 0x80501000 0x80400100" "clear pipe_mem 0x80501000 0x80504000" "clear pipe_mem 0x80501000 0x80504001"
  by (simp_all add: clear_def pipe_tables in_page_def)

theorem pipewrite_spec_witness:
  "\<exists>s'. pipewrite (\<lambda>_ _ s. Inr s) 0x80400100 0x80510000 0 2 pipe_hart = Some (Inr (2, s'))
     \<and> pipe_contents (pipes s' 0x80510000) = [7, 9, 11, 12]"
proof -
  have m: "\<forall>k < nat 2. maps_byte (ram pipe_hart) (p_pagetable (procTable pipe_hart 2)) (0 + word_of_nat k) (0x80504000 + word_of_nat k)
      \<and> 0x80504000 + word_of_nat k \<noteq> (0x80400100 :: u64)"
    using pipe_hart_maps by (auto simp: pipe_hart_fields less_2_cases_iff)
  have "ram pipe_hart 0x80504000 = 11" "ram pipe_hart 0x80504001 = 12"
    by (simp_all add: pipe_hart_fields pipe_mem_def)
  thus ?thesis
    using pipewrite_spec [where a = "0x80510000" and s = pipe_hart and p = 2 and n = 2 and addr = 0 and
        pa = "\<lambda>k. 0x80504000 + word_of_nat k" and chp = "0x80400100" and pswitch = "\<lambda>_ _ s. Inr s", OF _ _ _ _ _ m] pipe_hart_clear
    by (auto simp: pipe_hart_fields upt_rec)
qed

theorem piperead_spec_witness:
  "\<exists>s'. piperead (\<lambda>_ _ s. Inr s) 0x80400100 0x80510000 0 2 pipe_hart = Some (Inr (2, s'))
     \<and> ram s' 0x80504001 = 9 \<and> pipe_contents (pipes s' 0x80510000) = []"
proof -
  have m: "\<forall>k < 2. maps_byte (ram pipe_hart) (p_pagetable (procTable pipe_hart 2)) (0 + word_of_nat k) (0x80504000 + word_of_nat k)
      \<and> 0x80504000 + word_of_nat k \<noteq> (0x80400100 :: u64)
      \<and> clear (ram pipe_hart) (p_pagetable (procTable pipe_hart 2)) (0x80504000 + word_of_nat k)"
    using pipe_hart_maps pipe_hart_clear by (auto simp: pipe_hart_fields less_2_cases_iff)
  have j: "inj_on (\<lambda>k. 0x80504000 + word_of_nat k :: u64) {..<2}"
    by (auto simp: inj_on_def less_2_cases_iff)
  have l: "2 = min (nat 2) (length (pipe_contents (pipes pipe_hart 0x80510000)))"
    unfolding pipe_hart_fields(5) by simp
  have ne: "pipe_contents (pipes pipe_hart 0x80510000) \<noteq> [] \<or> \<not> pi_writeable (pipes pipe_hart 0x80510000)"
    by (simp add: pipe_hart_fields(5))
  have cl: "clear (ram pipe_hart) (p_pagetable (procTable pipe_hart 2)) 0x80400100"
    by (simp add: pipe_hart_fields pipe_hart_clear)
  have n: "(0 :: int) \<le> 2" by simp
  from piperead_spec [OF pipe_hart_fields(4,3,6) n ne l m cl j, of "\<lambda>_ _ s. Inr s"]
  obtain s' where s': "piperead (\<lambda>_ _ s. Inr s) 0x80400100 0x80510000 0 2 pipe_hart = Some (Inr (int 2, s'))"
      "\<forall>k < 2. ram s' (0x80504000 + word_of_nat k) = pipe_contents (pipes pipe_hart 0x80510000) ! k"
      "pipe_contents (pipes s' 0x80510000) = drop 2 (pipe_contents (pipes pipe_hart 0x80510000))"
    by blast
  have "ram s' (0x80504000 + word_of_nat 1) = [7, 9] ! 1"
    using s'(2) [rule_format, of 1] by (simp add: pipe_hart_fields(5))
  thus ?thesis using s'(1,3) by (auto simp: pipe_hart_fields(5))
qed

end
