(* ===== verification/Console.thy ===== *)
theory Console
  imports Pipe
begin

text \<open>
  The console, \<open>console/console.cpp\<close>, with its input buffer, the keys that edit it and the calls that read and
  write it, and the formatted output of \<open>libs/printf.c\<close> that goes through it.
\<close>

section \<open>State\<close>

text \<open>
  \<open>struct console\<close> without its lock \<open>L_console\<close>. The two indices are C \<open>int\<close>s that only grow: 32-bit words
  here, read with their sign, so that after \<open>2^31\<close> characters they turn negative (as the compiled code does;
  the C standard leaves it undefined) and the remainder \<open>% INPUT_BUF\<close> with them. The key of \<open>cons_buf\<close> is the index
  the code computes; a negative one is in front of the array. \<open>sbi_out\<close> lists
  what was handed to \<open>sbi_console_putchar\<close>, last at the end.
\<close>

record console_state = pipe_state +
  cons_buf :: "int \<Rightarrow> u8"
  cons_r :: u32
  cons_w :: u32
  sbi_out :: "int list"
  pr_locking :: bool

definition INPUT_BUF :: int where "INPUT_BUF = 128"
definition BACKSPACE :: int where "BACKSPACE = 0x100"

definition sbi_console_putchar :: "int \<Rightarrow> 'a console_state_scheme \<Rightarrow> 'a console_state_scheme" where
  "sbi_console_putchar c s = s\<lparr>sbi_out := sbi_out s @ [c]\<rparr>"

section \<open>Console\<close>

definition consoleinit :: "u64 \<Rightarrow> 'a console_state_scheme \<Rightarrow> 'a console_state_scheme" where
  "consoleinit nm s = (initlock L_console nm 7 s)\<lparr>cons_r := 0, cons_w := 0\<rparr>"

definition consputc :: "int \<Rightarrow> 'a console_state_scheme \<Rightarrow> 'a console_state_scheme" where
  "consputc c s =
     (if c = BACKSPACE
      then sbi_console_putchar 8 (sbi_console_putchar 32 (sbi_console_putchar 8 s))
      else sbi_console_putchar c s)"

text \<open>\<open>buf[write_index++ % INPUT_BUF] = c\<close> and \<open>c = buf[read_index++ % INPUT_BUF]\<close>.\<close>

definition cons_put :: "u8 \<Rightarrow> 'a console_state_scheme \<Rightarrow> 'a console_state_scheme" where
  "cons_put c s = s\<lparr>cons_buf := (cons_buf s)(sint (cons_w s) smod INPUT_BUF := c), cons_w := cons_w s + 1\<rparr>"

definition cons_get :: "'a console_state_scheme \<Rightarrow> u8 \<times> 'a console_state_scheme" where
  "cons_get s = (cons_buf s (sint (cons_r s) smod INPUT_BUF), s\<lparr>cons_r := cons_r s + 1\<rparr>)"

text \<open>The K210 build drops carriage returns; 16 is \<open>CTRL('P')\<close>.\<close>

definition consoleintr :: "int \<Rightarrow> 'a console_state_scheme \<Rightarrow> 'a console_state_scheme" where
  "consoleintr c s =
     (if c = 8 \<or> c = 0x7f then
        if cons_r s \<noteq> cons_w s
        then consputc 7 (consputc BACKSPACE (s\<lparr>cons_w := cons_w s - 1\<rparr>))
        else s
      else if c = 16 then s
      else if c = 13 then s
      else let s = consputc c s;
               s = cons_put (word_of_int c) s
           in if c = 10 then wakeup Ch_console s else s)"

partial_function (option) consoleread_wait ::
    "'a console_state_ext pipe_state_ext sleep_state_ext switch \<Rightarrow> 'a console_state_scheme \<Rightarrow> 'a console_state_scheme res option"
where
  "consoleread_wait pswitch s =
     (if cons_r s = cons_w s then
        (case sleep pswitch Ch_console L_console s of
           Inl e \<Rightarrow> Some (Inl e)
         | Inr s \<Rightarrow> consoleread_wait pswitch s)
      else Some (Inr s))"

text \<open>\<open>n\<close> bytes are still wanted; \<open>cp\<close> is the address of the local \<open>c\<close>. The result is what is left of \<open>n\<close>.\<close>

fun consoleread_loop ::
    "'a console_state_ext pipe_state_ext sleep_state_ext switch \<Rightarrow> u64 \<Rightarrow> int \<Rightarrow> nat \<Rightarrow> u64 \<Rightarrow> 'a console_state_scheme
       \<Rightarrow> (nat \<times> 'a console_state_scheme) res option" where
  "consoleread_loop pswitch cp user 0 dst s = Some (Inr (0, s))"
| "consoleread_loop pswitch cp user (Suc n) dst s =
     opt_bnd (consoleread_wait pswitch s) (\<lambda>s.
       let (c, s) = cons_get s; s = s\<lparr>ram := (ram s)(cp := c)\<rparr> in
       opt_bnd (Some (either_copyout user dst cp 1 s)) (\<lambda>(r, s).
         if r < 0 then Some (Inr (Suc n, s))
         else if c = 10 then Some (Inr (n, s))
         else consoleread_loop pswitch cp user n (dst + 1) s))"

definition consoleread ::
    "'a console_state_ext pipe_state_ext sleep_state_ext switch \<Rightarrow> u64 \<Rightarrow> u64 \<Rightarrow> int \<Rightarrow> int \<Rightarrow> 'a console_state_scheme
       \<Rightarrow> (int \<times> 'a console_state_scheme) res option" where
  "consoleread pswitch cp dst user n s =
     opt_bnd (Some (acquire L_console s)) (\<lambda>s.
     opt_bnd (consoleread_loop pswitch cp user (nat n) dst s) (\<lambda>(left, s).
       Some (bnd (release L_console s) (\<lambda>s. Inr (if n \<le> 0 then 0 else n - int left, s)))))"

fun consolewrite_loop ::
    "u64 \<Rightarrow> int \<Rightarrow> nat \<Rightarrow> int \<Rightarrow> u64 \<Rightarrow> 'a console_state_scheme \<Rightarrow> (int \<times> 'a console_state_scheme) res" where
  "consolewrite_loop cp user 0 i src s = Inr (i, s)"
| "consolewrite_loop cp user (Suc n) i src s =
     bnd (either_copyin cp user (src + word_of_int i) 1 s) (\<lambda>(r, s).
       if r = - 1 then Inr (i, s)
       else consolewrite_loop cp user n (i + 1) src (sbi_console_putchar (uint (ram s cp)) s))"

definition consolewrite :: "u64 \<Rightarrow> u64 \<Rightarrow> int \<Rightarrow> int \<Rightarrow> 'a console_state_scheme \<Rightarrow> (int \<times> 'a console_state_scheme) res" where
  "consolewrite cp src user n s =
     bnd (acquire L_console s) (\<lambda>s.
     bnd (consolewrite_loop cp user (nat n) 0 src s) (\<lambda>(i, s).
     bnd (release L_console s) (\<lambda>s. Inr (i, s))))"

section \<open>Formatted output\<close>

definition digit_chars :: "u8 list" where
  "digit_chars = [48, 49, 50, 51, 52, 53, 54, 55, 56, 57, 97, 98, 99, 100, 101, 102]"

definition digit_char :: "nat \<Rightarrow> u8" where
  "digit_char d = digit_chars ! d"

definition put_bytes :: "u8 list \<Rightarrow> 'a console_state_scheme \<Rightarrow> 'a console_state_scheme" where
  "put_bytes bs s = fold (\<lambda>b. consputc (uint b)) bs s"

definition printstring :: "u8 list \<Rightarrow> 'a console_state_scheme \<Rightarrow> 'a console_state_scheme" where
  "printstring str s = put_bytes str s"

text \<open>
  The \<open>do\<close> loop of \<open>printint\<close>, least digit first; the callers pass the bases 10 and 16, the others
  are cut off.
\<close>

function printint_digits :: "u32 \<Rightarrow> u32 \<Rightarrow> u8 list" where
  "printint_digits x base =
     (if base < 2 then []
      else digit_char (unat (x mod base)) # (if x div base \<noteq> 0 then printint_digits (x div base) base else []))"
  by pat_completeness auto
termination
proof (relation "measure (\<lambda>(x, base). unat x)")
  fix x base :: u32
  assume b: "\<not> base < 2" and d: "x div base \<noteq> 0"
  have "2 \<le> unat base" using b by (simp add: word_less_nat_alt)
  moreover have "0 < unat x" using d by (cases "x = 0") (auto simp: unat_gt_0)
  ultimately have "unat x div unat base < unat x" by (intro div_less_dividend) auto
  thus "((x div base, base), x, base) \<in> measure (\<lambda>(x, base). unat x)" by (simp add: unat_div)
qed simp

declare printint_digits.simps [simp del]

definition printint_chars :: "u32 \<Rightarrow> u32 \<Rightarrow> bool \<Rightarrow> u8 list" where
  "printint_chars num base sign =
     (let neg = sign \<and> sint num < 0;
          x = (if neg then - num else num);
          buf = printint_digits x base;
          buf = (if neg then buf @ [45] else buf)
      in rev buf)"

definition printint :: "u32 \<Rightarrow> u32 \<Rightarrow> bool \<Rightarrow> 'a console_state_scheme \<Rightarrow> 'a console_state_scheme" where
  "printint num base sign s = put_bytes (printint_chars num base sign) s"

fun printptr_digits :: "nat \<Rightarrow> u64 \<Rightarrow> u8 list" where
  "printptr_digits 0 x = []"
| "printptr_digits (Suc n) x = digit_char (unat (drop_bit 60 x)) # printptr_digits n (push_bit 4 x)"

definition printptr :: "u64 \<Rightarrow> 'a console_state_scheme \<Rightarrow> 'a console_state_scheme" where
  "printptr x s = put_bytes ([48, 120] @ printptr_digits 16 x) s"

text \<open>An argument as \<open>va_arg\<close> takes it; a string is \<open>None\<close> for \<open>NULL\<close>.\<close>

datatype fmt_arg = A_int u32 | A_ptr u64 | A_str "u8 list option"

text \<open>
  The loop over the format, without its final zero. A missing or ill-typed argument is undefined.
\<close>

fun printf_loop :: "u8 list \<Rightarrow> fmt_arg list \<Rightarrow> 'a console_state_scheme \<Rightarrow> 'a console_state_scheme res" where
  "printf_loop [] args s = Inr s"
| "printf_loop (c # fmt) args s =
     (if c \<noteq> 37 then printf_loop fmt args (consputc (uint c) s)
      else case fmt of
        [] \<Rightarrow> Inr s
      | d # fmt \<Rightarrow>
          if d = 100 then
            (case args of A_int v # args \<Rightarrow> printf_loop fmt args (printint v 10 True s) | _ \<Rightarrow> Inl (Undef ''va_arg''))
          else if d = 120 then
            (case args of A_int v # args \<Rightarrow> printf_loop fmt args (printint v 16 True s) | _ \<Rightarrow> Inl (Undef ''va_arg''))
          else if d = 112 then
            (case args of A_ptr v # args \<Rightarrow> printf_loop fmt args (printptr v s) | _ \<Rightarrow> Inl (Undef ''va_arg''))
          else if d = 115 then
            (case args of
               A_str v # args \<Rightarrow>
                 printf_loop fmt args (put_bytes (case v of None \<Rightarrow> [40, 110, 117, 108, 108, 41] | Some b \<Rightarrow> b) s)
             | _ \<Rightarrow> Inl (Undef ''va_arg''))
          else if d = 37 then printf_loop fmt args (consputc 37 s)
          else printf_loop fmt args (consputc (uint d) (consputc 37 s)))"

definition printf :: "u8 list \<Rightarrow> fmt_arg list \<Rightarrow> 'a console_state_scheme \<Rightarrow> 'a console_state_scheme res" where
  "printf fmt args s =
     (let locking = pr_locking s in
      bnd (if locking then acquire L_pr s else Inr s) (\<lambda>s.
      bnd (printf_loop fmt args s) (\<lambda>s.
        if locking then release L_pr s else Inr s)))"

definition printfInit :: "u64 \<Rightarrow> 'a console_state_scheme \<Rightarrow> 'a console_state_scheme" where
  "printfInit nm s = (initlock L_pr nm 2 s)\<lparr>pr_locking := True\<rparr>"


section \<open>The input buffer\<close>

definition cons_contents :: "'a console_state_scheme \<Rightarrow> u8 list" where
  "cons_contents s =
     map (\<lambda>k. cons_buf s ((sint (cons_r s) + int k) mod 128)) [0..<nat (sint (cons_w s) - sint (cons_r s))]"

definition cons_inv :: "'a console_state_scheme \<Rightarrow> bool" where
  "cons_inv s \<longleftrightarrow> 0 \<le> sint (cons_r s) \<and> sint (cons_r s) \<le> sint (cons_w s)
     \<and> sint (cons_w s) - sint (cons_r s) \<le> INPUT_BUF"

lemma cons_contents_length [simp]: "length (cons_contents s) = nat (sint (cons_w s) - sint (cons_r s))"
  by (simp add: cons_contents_def)

lemma cons_cells:
  assumes "0 \<le> j" "j < d" "d < (128 :: int)"
  shows "(r + j) mod 128 \<noteq> (r + d) mod 128"
proof
  assume "(r + j) mod 128 = (r + d) mod 128"
  hence "128 dvd (r + d) - (r + j)" by (metis mod_eq_dvd_iff)
  hence "128 dvd d - j" by simp
  thus False using assms zdvd_imp_le [of 128 "d - j"] by linarith
qed

text \<open>An index counts up until it reaches the largest \<open>int\<close>, and a positive one counts down.\<close>

lemma sint_in_range:
  assumes "- (2 ^ 31) \<le> k" "k < 2 ^ 31"
  shows "sint (word_of_int k :: u32) = k"
proof -
  have "sint (word_of_int k :: u32) = signed_take_bit 31 k" by (simp add: sint_sbintrunc')
  thus ?thesis using assms by (simp add: signed_take_bit_int_eq_self)
qed

lemma sint_step:
  fixes w :: u32
  shows "sint w + 1 < 2 ^ 31 \<Longrightarrow> sint (w + 1) = sint w + 1" "- (2 ^ 31) < sint w \<Longrightarrow> sint (w - 1) = sint w - 1"
proof -
  have b: "- (2 ^ 31) \<le> sint w" "sint w < 2 ^ 31" using sint_ge [of w] sint_lt [of w] by simp_all
  have e: "w + 1 = word_of_int (sint w + 1)" "w - 1 = word_of_int (sint w - 1)" by simp_all
  show "sint w + 1 < 2 ^ 31 \<Longrightarrow> sint (w + 1) = sint w + 1" unfolding e(1) by (rule sint_in_range) (use b in simp_all)
  show "- (2 ^ 31) < sint w \<Longrightarrow> sint (w - 1) = sint w - 1" unfolding e(2) by (rule sint_in_range) (use b in simp_all)
qed

lemma sint_inject: "sint v = sint w \<longleftrightarrow> v = w" for v w :: u32
  by (auto intro: signed_word_eqI)

text \<open>Storing a character in a buffer with room, before the index overflows.\<close>

lemma cons_put_contents:
  assumes i: "cons_inv s" and nf: "length (cons_contents s) < 128" and b: "sint (cons_w s) + 1 < 2 ^ 31"
  shows "cons_contents (cons_put c s) = cons_contents s @ [c] \<and> cons_inv (cons_put c s)
    \<and> sint (cons_w (cons_put c s)) = sint (cons_w s) + 1"
proof (intro conjI)
  define n where "n = nat (sint (cons_w s) - sint (cons_r s))"
  have w: "sint (cons_w s) = sint (cons_r s) + int n" and n: "int n < 128" "0 \<le> sint (cons_w s)"
    using i nf by (simp_all add: n_def cons_inv_def INPUT_BUF_def)
  have m: "sint (cons_w s) smod INPUT_BUF = (sint (cons_r s) + int n) mod 128"
    using n by (simp add: INPUT_BUF_def smod_nonneg w)
  have p: "sint (cons_w (cons_put c s)) = sint (cons_w s) + 1" "cons_r (cons_put c s) = cons_r s"
    using sint_step(1) [OF b] by (simp_all add: cons_put_def)
  thus "sint (cons_w (cons_put c s)) = sint (cons_w s) + 1" by simp
  show "cons_inv (cons_put c s)" using i n w unfolding cons_inv_def p by (simp add: INPUT_BUF_def)
  have other: "(sint (cons_r s) + int k) mod 128 \<noteq> (sint (cons_r s) + int n) mod 128" if "k < n" for k
    using cons_cells [of "int k" "int n" "sint (cons_r s)"] that n by simp
  have l: "nat (sint (cons_w s) + 1 - sint (cons_r s)) = Suc n" using w by simp
  have u: "cons_buf (cons_put c s) = (cons_buf s)((sint (cons_r s) + int n) mod 128 := c)"
    by (simp add: cons_put_def m)
  show "cons_contents (cons_put c s) = cons_contents s @ [c]"
    unfolding cons_contents_def p l u using other by (simp add: n_def [symmetric])
qed

text \<open>The line a user sees: a backspace or a delete takes the last character back. What the console echoes
  for it: backspace, space, backspace and a bell.\<close>

definition edit_key :: "int \<Rightarrow> u8 list \<Rightarrow> u8 list" where
  "edit_key c line =
     (if c = 8 \<or> c = 127 then butlast line
      else if c = 16 \<or> c = 13 then line
      else line @ [word_of_int c])"

fun echo_keys :: "int list \<Rightarrow> u8 list \<Rightarrow> int list" where
  "echo_keys [] line = []"
| "echo_keys (c # cs) line =
     (if c = 8 \<or> c = 127 then (if line = [] then [] else [8, 32, 8, 7])
      else if c = 16 \<or> c = 13 then [] else [c]) @ echo_keys cs (edit_key c line)"

lemma consputc_fields [simp]:
  "cons_buf (consputc c s) = cons_buf s" "cons_r (consputc c s) = cons_r s" "cons_w (consputc c s) = cons_w s"
  by (simp_all add: consputc_def sbi_console_putchar_def)

lemma consputc_out: "sbi_out (consputc c s) = sbi_out s @ (if c = BACKSPACE then [8, 32, 8] else [c])"
  by (simp add: consputc_def sbi_console_putchar_def)

lemma wakeup_console [simp]:
  "cons_buf (wakeup c s) = cons_buf s" "cons_r (wakeup c s) = cons_r s" "cons_w (wakeup c s) = cons_w s"
  "sbi_out (wakeup c s) = sbi_out s" "ram (wakeup c s) = ram s"
  by (simp_all add: wakeup_def)

lemma cons_contents_cong:
  "cons_buf s' = cons_buf s \<Longrightarrow> cons_r s' = cons_r s \<Longrightarrow> cons_w s' = cons_w s \<Longrightarrow> cons_contents s' = cons_contents s \<and> cons_inv s' = cons_inv s"
  by (simp add: cons_contents_def cons_inv_def)

lemma consoleintr_contents:
  assumes "cons_inv s" "length (cons_contents s) < 128" "sint (cons_w s) + 1 < 2 ^ 31"
  shows "cons_contents (consoleintr c s) = edit_key c (cons_contents s) \<and> cons_inv (consoleintr c s)
    \<and> sint (cons_w (consoleintr c s)) \<le> sint (cons_w s) + 1"
proof -
  consider "c = 8 \<or> c = 127" "cons_r s = cons_w s" | "c = 8 \<or> c = 127" "cons_r s \<noteq> cons_w s"
    | "c = 16 \<or> c = 13" | "c \<notin> {8, 127, 16, 13}" by blast
  thus ?thesis
  proof cases
    case 1
    thus ?thesis using assms(1) by (auto simp: consoleintr_def edit_key_def cons_contents_def)
  next
    case 2
    define t where "t = consputc 7 (consputc BACKSPACE (s\<lparr>cons_w := cons_w s - 1\<rparr>))"
    have ne: "sint (cons_r s) \<noteq> sint (cons_w s)" using 2(2) by (simp add: sint_inject)
    have p: "0 \<le> sint (cons_r s)" "sint (cons_r s) \<le> sint (cons_w s)" "sint (cons_w s) - sint (cons_r s) \<le> INPUT_BUF"
      using assms(1) by (simp_all add: cons_inv_def)
    have w1: "sint (cons_w s - 1) = sint (cons_w s) - 1" by (rule sint_step(2)) (use p in simp)
    hence w: "nat (sint (cons_w s) - sint (cons_r s)) = Suc (nat (sint (cons_w s - 1) - sint (cons_r s)))"
      using ne p by linarith
    have f: "cons_buf t = cons_buf s" "cons_r t = cons_r s" "cons_w t = cons_w s - 1" by (simp_all add: t_def)
    have "cons_contents t = butlast (cons_contents s)" unfolding cons_contents_def w f by (simp add: butlast_append)
    moreover have "cons_inv t" unfolding cons_inv_def f w1 using p ne by linarith
    moreover have "sint (cons_w t) \<le> sint (cons_w s) + 1" unfolding f w1 by simp
    moreover have "consoleintr c s = t" using 2 by (auto simp: consoleintr_def t_def)
    ultimately show ?thesis using 2(1) by (auto simp: edit_key_def)
  next
    case 3
    thus ?thesis using assms(1) by (auto simp: consoleintr_def edit_key_def)
  next
    case 4
    define t where "t = cons_put (word_of_int c) (consputc c s)"
    have p: "cons_inv (consputc c s)" "cons_contents (consputc c s) = cons_contents s"
      using assms(1) cons_contents_cong [of "consputc c s" s] by simp_all
    have t: "cons_inv t" "cons_contents t = cons_contents s @ [word_of_int c]" "sint (cons_w t) = sint (cons_w s) + 1"
      using cons_put_contents [OF p(1), of "word_of_int c"] assms(2,3) unfolding p(2) by (simp_all add: t_def)
    have "consoleintr c s = (if c = 10 then wakeup Ch_console t else t)"
      using 4 by (simp add: consoleintr_def t_def)
    thus ?thesis using 4 t cons_contents_cong [of "wakeup Ch_console t" t] by (auto simp: edit_key_def)
  qed
qed

lemma consoleintr_echo:
  assumes "cons_inv s" "c \<noteq> BACKSPACE"
  shows "sbi_out (consoleintr c s) = sbi_out s @ echo_keys [c] (cons_contents s) \<and> ram (consoleintr c s) = ram s"
proof -
  have "cons_contents s = [] \<longleftrightarrow> sint (cons_w s) \<le> sint (cons_r s)" by (simp add: cons_contents_def)
  hence "cons_contents s = [] \<longleftrightarrow> sint (cons_r s) = sint (cons_w s)" using assms(1) by (auto simp: cons_inv_def)
  hence e: "cons_contents s = [] \<longleftrightarrow> cons_r s = cons_w s" by (simp only: sint_inject)
  show ?thesis using assms(2)
    by (auto simp: consoleintr_def e Let_def consputc_out cons_put_def BACKSPACE_def) (simp_all add: consputc_def sbi_console_putchar_def)
qed

lemma edit_key_length: "length (edit_key c l) \<le> Suc (length l)"
  by (auto simp: edit_key_def)

text \<open>C22: keys typed one after another, no more than the buffer has room for and before its write index reaches the
  largest \<open>int\<close>, leave in the buffer the line as edited: each backspace or delete takes the last character back,
  carriage returns and control-P are dropped, the rest is appended; every character stored is echoed, and each
  erased one is wiped on the screen; memory does not change.\<close>

theorem console_edits_line:
  assumes "cons_inv s" "length (cons_contents s) + length ks \<le> 128" "sint (cons_w s) + int (length ks) < 2 ^ 31"
    and "\<forall>c \<in> set ks. c \<noteq> BACKSPACE"
  shows "cons_contents (fold consoleintr ks s) = fold edit_key ks (cons_contents s)
       \<and> cons_inv (fold consoleintr ks s)
       \<and> sbi_out (fold consoleintr ks s) = sbi_out s @ echo_keys ks (cons_contents s)
       \<and> ram (fold consoleintr ks s) = ram s"
  using assms
proof (induction ks arbitrary: s)
  case (Cons c ks)
  have c: "cons_contents (consoleintr c s) = edit_key c (cons_contents s)" "cons_inv (consoleintr c s)"
    "sint (cons_w (consoleintr c s)) \<le> sint (cons_w s) + 1"
    using consoleintr_contents [OF Cons.prems(1), of c] Cons.prems(2,3) by simp_all
  have o: "sbi_out (consoleintr c s) = sbi_out s @ echo_keys [c] (cons_contents s)" "ram (consoleintr c s) = ram s"
    using consoleintr_echo [OF Cons.prems(1), of c] Cons.prems(4) by simp_all
  have "length (cons_contents (consoleintr c s)) + length ks \<le> 128"
    using Cons.prems(2) edit_key_length [of c "cons_contents s"] unfolding c by simp
  moreover have "sint (cons_w (consoleintr c s)) + int (length ks) < 2 ^ 31" using c(3) Cons.prems(3) by simp
  ultimately show ?case using Cons.IH [OF c(2)] Cons.prems(4) c(1) o by simp
qed simp

lemma console_calls_stop_at:
  assumes "0 \<le> depth s" "0 < n"
  shows "(\<exists>e. consoleread pswitch cp dst user n s = Some (Inl e)) \<and> (\<exists>e. consolewrite cp src user n s = Inl e)"
proof (cases "acquire L_console s")
  case (Inl e)
  thus ?thesis by (simp add: consoleread_def consolewrite_def opt_bnd_def)
next
  case (Inr t)
  hence d: "0 < depth t" using acquire_depth [OF Inr] assms(1) by simp
  obtain m where m: "nat n = Suc m" using assms(2) by (cases "nat n") auto
  obtain e where sl: "sleep pswitch Ch_console L_console t = Inl e" using sleep_Inl by blast
  have w: "consoleread_wait pswitch t = Some (if cons_r t = cons_w t then Inl e else Inr t)"
    by (subst consoleread_wait.simps) (simp add: sl)
  have g: "curproc (t\<lparr>cons_r := i, ram := r\<rparr>) = Inl (Panic ''pop_off'')" for i r
    by (rule curproc_nested) (use d in \<open>simp add: depth_def hart_defs\<close>)
  have "\<exists>e. consoleread_loop pswitch cp user (nat n) dst t = Some (Inl e)"
    unfolding m consoleread_loop.simps w
    by (simp add: opt_bnd_def cons_get_def either_copyout_def Let_def g)
  moreover have "\<exists>e. consolewrite_loop cp user (nat n) 0 src t = Inl e"
    unfolding m using d by (simp add: either_copyin_def curproc_nested depth_def)
  ultimately show ?thesis by (auto simp: consoleread_def consolewrite_def Inr opt_bnd_def)
qed

text \<open>C23: neither call of the console ever returns when it is asked for a byte or more: a read waits for a line by
  sleeping, which never returns, or takes a character and asks for the current process under the console's lock,
  which panics; a write asks for the current process under that lock for its first byte. Neither the state of the
  buffer nor the kind of address matters.\<close>

theorem console_calls_stop:
  assumes "0 \<le> depth s" "0 < n"
  shows "(\<exists>e. consoleread pswitch cp dst user n s = Some (Inl e)) \<and> (\<exists>e. consolewrite cp src user n s = Inl e)"
  using assms by (rule console_calls_stop_at)

definition console_hart :: console_state where
  "console_hart = pipe_state.extend pipe_hart (console_state.fields (\<lambda>_. 0) 0 0 [] False)"

theorem console_edits_line_witness:
  "cons_contents (fold consoleintr [108, 115, 120, 8, 13, 10] console_hart) = [108, 115, 10]
   \<and> sbi_out (fold consoleintr [108, 115, 120, 8, 13, 10] console_hart) = [108, 115, 120, 8, 32, 8, 7, 10]"
  using console_edits_line [of console_hart "[108, 115, 120, 8, 13, 10]"]
  by (simp add: edit_key_def console_hart_def pipe_state.defs console_state.defs cons_inv_def cons_contents_def INPUT_BUF_def
      BACKSPACE_def)

theorem console_calls_stop_witness:
  "(\<exists>e. consoleread (\<lambda>_ _ s. Inr s) 0 0x80510000 0 5 console_hart = Some (Inl e)) \<and> (\<exists>e. consolewrite 0 0x80510000 1 2 console_hart = Inl e)"
proof -
  have d: "0 \<le> depth console_hart"
    by (simp add: console_hart_def pipe_state.defs console_state.defs pipe_hart_def sleep_state.defs sleepy_def
        proc_state.defs one_proc_def depth_def hart_defs)
  show ?thesis using console_calls_stop [OF d, of 5] console_calls_stop [OF d, of 2] by auto
qed

section \<open>Numbers as printed\<close>

text \<open>The value of a digit character, and of a string of them.\<close>

definition digit_value :: "u8 \<Rightarrow> int" where
  "digit_value b = (if b < 58 then uint b - 48 else uint b - 87)"

definition digits_value :: "int \<Rightarrow> u8 list \<Rightarrow> int" where
  "digits_value base bs = foldl (\<lambda>v b. base * v + digit_value b) 0 bs"

definition number_value :: "int \<Rightarrow> u8 list \<Rightarrow> int" where
  "number_value base bs = (case bs of [] \<Rightarrow> 0 | c # rest \<Rightarrow> if c = 45 then - digits_value base rest else digits_value base bs)"

lemma digit_char_value: "d < 16 \<Longrightarrow> digit_value (digit_char d) = int d \<and> digit_char d \<noteq> 45"
proof -
  have "list_all (\<lambda>d. digit_value (digit_char d) = int d \<and> digit_char d \<noteq> 45) [0..<16]" by code_simp
  thus "d < 16 \<Longrightarrow> ?thesis" by (simp add: list_all_iff)
qed

lemma digits_value_snoc: "digits_value base (bs @ [b]) = base * digits_value base bs + digit_value b"
  by (simp add: digits_value_def)

lemma printint_digits_value:
  "2 \<le> base \<Longrightarrow> base \<le> 16 \<Longrightarrow>
     digits_value (uint base) (rev (printint_digits x base)) = uint x \<and> printint_digits x base \<noteq> []
     \<and> 45 \<notin> set (printint_digits x base)"
proof (induction x base rule: printint_digits.induct)
  case (1 x base)
  have nb: "\<not> base < 2" and b16: "unat base \<le> 16" and b0: "0 < unat base"
    using 1(2,3) by (auto simp: word_le_nat_alt word_less_nat_alt)
  have m: "unat (x mod base) < 16" using b16 mod_less_divisor [OF b0, of "unat x"] by (simp add: unat_mod del: mod_less_divisor)
  have v: "digit_value (digit_char (unat (x mod base))) = uint x mod uint base" "digit_char (unat (x mod base)) \<noteq> 45"
    using digit_char_value [OF m] by (simp_all add: uint_mod flip: uint_nat)
  show ?case
  proof (cases "x div base = 0")
    case True
    hence "uint x div uint base = 0" by (simp flip: uint_div)
    hence "uint x mod uint base = uint x" using minus_div_mult_eq_mod [of "uint x" "uint base"] by simp
    thus ?thesis using nb True v by (subst (1 2 3) printint_digits.simps) (simp add: digits_value_def)
  next
    case False
    note IH = 1(1) [OF nb False 1(2,3)]
    have "uint base * uint (x div base) + uint x mod uint base = uint x" by (simp add: uint_div)
    thus ?thesis using nb False v IH by (subst (1 2 3) printint_digits.simps) (simp add: digits_value_snoc)
  qed
qed

lemma printint_digits_length:
  "2 \<le> base \<Longrightarrow> unat x < unat base ^ k \<Longrightarrow> 0 < k \<Longrightarrow> length (printint_digits x base) \<le> k"
proof (induction x base arbitrary: k rule: printint_digits.induct)
  case (1 x base)
  obtain j where k: "k = Suc j" using 1(4) by (cases k) auto
  have nb: "\<not> base < 2" and b0: "0 < unat base" using 1(2) by (auto simp: word_le_nat_alt word_less_nat_alt)
  have lt: "unat (x div base) < unat base ^ j"
    using 1(3) b0 by (simp add: unat_div k less_mult_imp_div_less mult.commute)
  show ?case
  proof (cases "x div base = 0")
    case False
    hence "unat (x div base) \<noteq> 0" by (simp add: unat_eq_0)
    hence "0 < j" using lt by (cases j) auto
    thus ?thesis using nb False 1(1) [OF nb False 1(2) lt] by (subst printint_digits.simps) (simp add: k)
  qed (use nb in \<open>subst printint_digits.simps, simp add: k\<close>)
qed

lemma printint_chars_length:
  assumes "2 \<le> base" "2 ^ 32 \<le> unat base ^ k" "0 < k"
  shows "length (printint_chars num base True) \<le> Suc k"
proof -
  have "length (printint_digits x base) \<le> k" for x
    using assms(2) unsigned_less [of x, where ?'a = nat] by (intro printint_digits_length assms) simp
  from this [of num] this [of "- num"] show ?thesis by (simp add: printint_chars_def Let_def)
qed

lemma sint_nonneg_uint:
  assumes "\<not> sint (num :: u32) < 0"
  shows "uint num = sint num"
proof -
  have "sint num < 2 ^ 32" using sint_lt [of num] by simp
  hence "uint (word_of_int (sint num) :: u32) = sint num" using assms by (simp only: uint_word_of_int) (simp add: mod_pos_pos_trivial)
  thus ?thesis by simp
qed

lemma uint_uminus:
  assumes "sint (num :: u32) < 0" shows "uint (- num) = - sint num"
proof -
  have "- (2 ^ 31) \<le> sint num" using sint_ge [of num] by simp
  hence "(- sint num) mod 2 ^ 32 = - sint num" using assms by (intro mod_pos_pos_trivial) simp_all
  hence "uint (word_of_int (- sint num) :: u32) = - sint num" by (simp only: uint_word_of_int) simp
  moreover have "- num = word_of_int (- sint num)" by simp
  ultimately show ?thesis by (simp only:)
qed

lemma printint_chars_value:
  assumes "2 \<le> base" "base \<le> 16"
  shows "number_value (uint base) (printint_chars num base True) = sint num"
proof -
  have nv: "number_value b bs = digits_value b bs" if "45 \<notin> set bs" for b and bs :: "u8 list"
    using that by (cases bs) (auto simp: number_value_def digits_value_def)
  show ?thesis
  proof (cases "sint num < 0")
    case True
    thus ?thesis using uint_uminus [OF True] printint_digits_value [OF assms, of "- num"]
      by (simp add: printint_chars_def number_value_def)
  next
    case False
    hence "uint num = sint num" by (simp add: sint_nonneg_uint)
    thus ?thesis using False printint_digits_value [OF assms, of num]
      by (simp add: printint_chars_def nv)
  qed
qed

lemma nibble_step:
  fixes X M q :: nat
  assumes "0 < M"
  shows "(X div (M * q)) * q + (16 * X mod (16 * (M * q))) div (16 * M) = X div M"
proof -
  have "16 * X mod (16 * (M * q)) div (16 * M) = X mod (M * q) div M" by (simp add: mult_mod_right [symmetric])
  also have "\<dots> = X div M mod q" using assms by (simp add: mod_mult2_eq)
  finally show ?thesis by (simp add: div_mult2_eq)
qed

lemma unat_drop64: "unat (drop_bit k (x :: u64)) = unat x div 2 ^ k"
  unfolding unat_drop_bit_eq by (rule drop_bit_eq_div)
lemma unat_push4: "unat (push_bit 4 (x :: u64)) = 16 * unat x mod 2 ^ 64"
  by (simp add: push_bit_eq_mult unat_word_ariths mult.commute)

lemma printptr_step:
  assumes "n < 16"
  shows "uint (drop_bit 60 x) * 16 ^ n + uint (drop_bit (64 - 4 * n) (push_bit 4 x)) = uint (drop_bit (60 - 4 * n) (x :: u64))"
proof -
  define M :: nat where "M = 2 ^ (60 - 4 * n)"
  have q: "(16 :: nat) ^ n = 2 ^ (4 * n)" by (simp add: power_mult)
  have "(2 :: nat) ^ 60 = M * 16 ^ n" unfolding q M_def using assms by (simp only: power_add [symmetric]) simp
  moreover have "(2 :: nat) ^ (64 - 4 * n) = 2 ^ 4 * M" unfolding M_def using assms
    by (simp only: power_add [symmetric]) simp
  ultimately have p: "(2 :: nat) ^ 60 = M * 16 ^ n" "(2 :: nat) ^ 64 = 16 * (M * 16 ^ n)" "(2 :: nat) ^ (64 - 4 * n) = 16 * M"
    by simp_all
  have "unat (drop_bit 60 x) * 16 ^ n + unat (drop_bit (64 - 4 * n) (push_bit 4 x)) = unat (drop_bit (60 - 4 * n) x)"
    unfolding unat_drop64 unat_push4 p M_def [symmetric] by (rule nibble_step) (simp add: M_def)
  hence "int (unat (drop_bit 60 x) * 16 ^ n + unat (drop_bit (64 - 4 * n) (push_bit 4 x))) = int (unat (drop_bit (60 - 4 * n) x))"
    by (rule arg_cong)
  thus ?thesis by (simp only: uint_nat of_nat_add of_nat_mult of_nat_power of_nat_numeral)
qed

lemma printptr_digits_value:
  "n \<le> 16 \<Longrightarrow> foldl (\<lambda>v b. 16 * v + digit_value b) v (printptr_digits n x) = v * 16 ^ n + uint (drop_bit (64 - 4 * n) x)"
proof (induction n arbitrary: v x)
  case (Suc n)
  have "unat x < 2 ^ 64" using unsigned_less [of x, where ?'a = nat] by simp
  hence "unat (drop_bit 60 x) < 16" unfolding unat_drop64 by (simp add: less_mult_imp_div_less)
  hence d: "digit_value (digit_char (unat (drop_bit 60 x))) = uint (drop_bit 60 x)"
    using digit_char_value by (simp only: uint_nat)
  have "foldl (\<lambda>v b. 16 * v + digit_value b) v (printptr_digits (Suc n) x)
      = foldl (\<lambda>v b. 16 * v + digit_value b) (16 * v + uint (drop_bit 60 x)) (printptr_digits n (push_bit 4 x))"
    by (simp only: printptr_digits.simps foldl_Cons d)
  also have "\<dots> = (16 * v + uint (drop_bit 60 x)) * 16 ^ n + uint (drop_bit (64 - 4 * n) (push_bit 4 x))"
    using Suc by (intro Suc.IH) simp
  also have "\<dots> = v * 16 ^ Suc n + (uint (drop_bit 60 x) * 16 ^ n + uint (drop_bit (64 - 4 * n) (push_bit 4 x)))"
    by (simp only: distrib_left power_Suc mult.commute mult.left_commute add.assoc)
  also have "uint (drop_bit 60 x) * 16 ^ n + uint (drop_bit (64 - 4 * n) (push_bit 4 x)) = uint (drop_bit (64 - 4 * Suc n) x)"
  proof -
    have "64 - 4 * Suc n = 60 - 4 * n" "n < 16" using Suc.prems by simp_all
    thus ?thesis using printptr_step [of n x] by (simp only:)
  qed
  finally show ?case .
qed simp

text \<open>C24: what \<open>printf\<close> prints of a number reads back as that number: the characters of \<open>printint\<close> with sign,
  in base 10 as in base 16, parse to the signed value of any 32-bit argument, the least one included,
  and there are never more than the 16 its buffer holds;
  those of \<open>printptr\<close> after its \<open>0x\<close> are 16 digits that parse to the 64-bit value.\<close>

theorem printint_reads_back:
  "number_value 10 (printint_chars num 10 True) = sint num
   \<and> number_value 16 (printint_chars num 16 True) = sint num
   \<and> length (printint_chars num 10 True) \<le> 16 \<and> length (printint_chars num 16 True) \<le> 16
   \<and> length (printptr_digits 16 x) = 16 \<and> digits_value 16 (printptr_digits 16 x) = uint x"
proof -
  have l: "length (printptr_digits n x) = n" for n and x by (induction n arbitrary: x) simp_all
  show ?thesis
    using printint_chars_length [of 10 10 num] printint_chars_length [of 16 8 num]
      printint_chars_value [of 10 num] printint_chars_value [of 16 num] printptr_digits_value [of 16 0 x]
    by (simp add: l digits_value_def)
qed

end
