(* ===== verification/Sdcard.thy ===== *)
theory Sdcard
  imports Console
begin

text \<open>
  The SD card driver, \<open>driver/sdcard.cpp\<close>: commands and responses in SPI mode, the start-up
  sequence, reading and writing a sector; with the transfers of \<open>driver/spi.c\<close> and the wait of
  \<open>driver/dmac.cpp\<close> that carry its bytes.
\<close>

section \<open>State\<close>

text \<open>
  What happens on the bus, latest first: the chip select, a byte sent, a byte received.
  The card and the DMA controller are hardware. \<open>card\<close> gives the byte the card answers with after a
  history of the bus, \<open>dma_idle\<close> whether the controller is found idle at its nth poll,
  \<open>dma_cleared\<close> the channels whose interrupt the handler \<open>dmac_intr\<close> has cleared, the last one first. The registers of
  the SPI and the DMA controller do not appear here: a byte put into the queue reaches the bus, in order;
  the register programs behind the transfers are in \<open>Spi\<close> and \<open>Dmac\<close>.
\<close>

datatype bus_event = Cs bool | Sent u8 | Got u8

record sd_state = console_state +
  bus :: "bus_event list"
  card :: "bus_event list \<Rightarrow> u8"
  dma_idle :: "nat \<Rightarrow> bool"
  dma_polls :: nat
  dma_cleared :: "nat list"
  standard_sd :: bool

type_synonym 'a sd_switch = "'a sd_state_ext console_state_ext pipe_state_ext sleep_state_ext switch"

definition SECTOR_BYTES :: nat where "SECTOR_BYTES = 512"

text \<open>The lock \<open>sdcard_lock\<close> comes after those of the 100 buffers.\<close>

definition sdcard_lock :: nat where "sdcard_lock = 100"

section \<open>Transfers\<close>

definition bus_send :: "u8 list \<Rightarrow> 'a sd_state_scheme \<Rightarrow> 'a sd_state_scheme" where
  "bus_send bs s = s\<lparr>bus := rev (map Sent bs) @ bus s\<rparr>"

fun bus_recv :: "nat \<Rightarrow> 'a sd_state_scheme \<Rightarrow> u8 list \<times> 'a sd_state_scheme" where
  "bus_recv 0 s = ([], s)"
| "bus_recv (Suc n) s =
     (let b = card s (bus s); (bs, s) = bus_recv n (s\<lparr>bus := Got b # bus s\<rparr>) in (b # bs, s))"

fun store_bytes :: "mem \<Rightarrow> u64 \<Rightarrow> u8 list \<Rightarrow> mem" where
  "store_bytes m a [] = m"
| "store_bytes m a (b # bs) = store_bytes (m(a := b)) (a + 1) bs"

definition load_bytes :: "mem \<Rightarrow> u64 \<Rightarrow> nat \<Rightarrow> u8 list" where
  "load_bytes m a n = map (\<lambda>i. m (a + word_of_nat i)) [0..<n]"

text \<open>The bytes are copied to a page of their own and sent from there.\<close>

definition spi_send_data_standard :: "u8 list \<Rightarrow> 'a sd_state_scheme \<Rightarrow> 'a sd_state_scheme res" where
  "spi_send_data_standard tx s =
     bnd (kalloc s) (\<lambda>(v_buf, s).
       if v_buf = 0 \<and> tx \<noteq> [] then null_deref
       else let s = s\<lparr>ram := store_bytes (ram s) v_buf tx\<rparr>;
                s = bus_send (load_bytes (ram s) v_buf (length tx)) s
            in kfree v_buf s)"

definition spi_receive_data_standard :: "nat \<Rightarrow> 'a sd_state_scheme \<Rightarrow> u8 list \<times> 'a sd_state_scheme" where
  "spi_receive_data_standard n s = bus_recv n s"

text \<open>\<open>dmac_is_idle\<close> and \<open>dmac_wait_idle\<close> over the polls of the controller; on its registers they are in \<open>Dmac\<close>.\<close>

definition transfer_done :: "'a sd_state_scheme \<Rightarrow> bool \<times> 'a sd_state_scheme" where
  "transfer_done s = (dma_idle s (dma_polls s), s\<lparr>dma_polls := Suc (dma_polls s)\<rparr>)"

partial_function (option) await_transfer :: "'a sd_switch \<Rightarrow> 'a sd_state_scheme \<Rightarrow> 'a sd_state_scheme res option" where
  "await_transfer pswitch s =
     (case transfer_done s of (idle, s) \<Rightarrow>
       if idle then Some (Inr s)
       else (case bnd (myproc s) (\<lambda>(p, s). bnd (acquire (L_proc p) s) (\<lambda>s.
                  bnd (myproc s) (\<lambda>(p, s). bnd (sleep pswitch Ch_dma (L_proc p) s) (\<lambda>s.
                  bnd (myproc s) (\<lambda>(p, s). release (L_proc p) s))))) of
               Inl e \<Rightarrow> Some (Inl e)
             | Inr s \<Rightarrow> await_transfer pswitch s))"

text \<open>The 32-bit words of a DMA page, each with one byte in its low end.\<close>

fun store_words :: "mem \<Rightarrow> u64 \<Rightarrow> u8 list \<Rightarrow> mem" where
  "store_words m a [] = m"
| "store_words m a (b # bs) = store_words (st32 m a (ucast b)) (a + 4) bs"

definition low_bytes :: "mem \<Rightarrow> u64 \<Rightarrow> nat \<Rightarrow> u8 list" where
  "low_bytes m a n = map (\<lambda>i. m (a + 4 * word_of_nat i)) [0..<n]"

definition spi_receive_data_standard_dma ::
    "'a sd_switch \<Rightarrow> u64 \<Rightarrow> nat \<Rightarrow> 'a sd_state_scheme \<Rightarrow> 'a sd_state_scheme res option" where
  "spi_receive_data_standard_dma pswitch rx_buff n s =
     opt_bnd (Some (kalloc s)) (\<lambda>(read_buf, s).
     opt_bnd (await_transfer pswitch s) (\<lambda>s.
     let (bs, s) = bus_recv n s; s = s\<lparr>ram := store_words (ram s) read_buf bs\<rparr> in
     opt_bnd (await_transfer pswitch s) (\<lambda>s.
       Some (if read_buf = 0 \<and> 0 < n then null_deref
             else let s = s\<lparr>ram := store_bytes (ram s) rx_buff (low_bytes (ram s) read_buf n)\<rparr>
                  in kfree read_buf s))))"

definition spi_send_data_standard_dma ::
    "'a sd_switch \<Rightarrow> u64 \<Rightarrow> nat \<Rightarrow> 'a sd_state_scheme \<Rightarrow> 'a sd_state_scheme res option" where
  "spi_send_data_standard_dma pswitch tx_buff n s =
     opt_bnd (Some (kalloc s)) (\<lambda>(buf, s).
       if buf = 0 \<and> 0 < n then Some null_deref
       else let s = s\<lparr>ram := store_words (ram s) buf (load_bytes (ram s) tx_buff n)\<rparr> in
         opt_bnd (await_transfer pswitch s) (\<lambda>s.
         let s = bus_send (low_bytes (ram s) buf n) s in
         opt_bnd (await_transfer pswitch s) (\<lambda>s. Some (kfree buf s))))"

section \<open>Commands\<close>

definition SD_CS_HIGH :: "'a sd_state_scheme \<Rightarrow> 'a sd_state_scheme" where
  "SD_CS_HIGH s = s\<lparr>bus := Cs True # bus s\<rparr>"

definition SD_CS_LOW :: "'a sd_state_scheme \<Rightarrow> 'a sd_state_scheme" where
  "SD_CS_LOW s = s\<lparr>bus := Cs False # bus s\<rparr>"

definition sd_write_data :: "u8 list \<Rightarrow> 'a sd_state_scheme \<Rightarrow> 'a sd_state_scheme res" where
  "sd_write_data data_buff s = spi_send_data_standard data_buff s"

definition sd_read_data :: "nat \<Rightarrow> 'a sd_state_scheme \<Rightarrow> u8 list \<times> 'a sd_state_scheme" where
  "sd_read_data len s = spi_receive_data_standard len s"

definition sd_write_data_dma ::
    "'a sd_switch \<Rightarrow> u64 \<Rightarrow> nat \<Rightarrow> 'a sd_state_scheme \<Rightarrow> 'a sd_state_scheme res option" where
  "sd_write_data_dma pswitch data_buff len s = spi_send_data_standard_dma pswitch data_buff len s"

definition sd_read_data_dma ::
    "'a sd_switch \<Rightarrow> u64 \<Rightarrow> nat \<Rightarrow> 'a sd_state_scheme \<Rightarrow> 'a sd_state_scheme res option" where
  "sd_read_data_dma pswitch data_buff len s = spi_receive_data_standard_dma pswitch data_buff len s"

definition sd_frame :: "u8 \<Rightarrow> u32 \<Rightarrow> u8 \<Rightarrow> u8 list" where
  "sd_frame cmd arg crc =
     [cmd OR 0x40, ucast (drop_bit 24 arg), ucast (drop_bit 16 arg), ucast (drop_bit 8 arg), ucast arg, crc]"

definition sd_send_cmd :: "u8 \<Rightarrow> u32 \<Rightarrow> u8 \<Rightarrow> 'a sd_state_scheme \<Rightarrow> 'a sd_state_scheme res" where
  "sd_send_cmd cmd arg crc s = (let s = SD_CS_LOW s in sd_write_data (sd_frame cmd arg crc) s)"

definition sd_end_cmd :: "'a sd_state_scheme \<Rightarrow> 'a sd_state_scheme res" where
  "sd_end_cmd s = (let s = SD_CS_HIGH s in sd_write_data [0xFF] s)"

fun response_loop :: "nat \<Rightarrow> 'a sd_state_scheme \<Rightarrow> u8 \<times> 'a sd_state_scheme" where
  "response_loop 0 s = (0xff, s)"
| "response_loop (Suc timeout) s =
     (let (bs, s) = sd_read_data 1 s; result = hd bs in
      if result \<noteq> 0xff then (result, s) else response_loop timeout s)"

definition sd_get_response_R1 :: "'a sd_state_scheme \<Rightarrow> u8 \<times> 'a sd_state_scheme" where
  "sd_get_response_R1 s = response_loop 0xff s"

definition sd_get_response_R3_rest :: "'a sd_state_scheme \<Rightarrow> u8 list \<times> 'a sd_state_scheme" where
  "sd_get_response_R3_rest s = sd_read_data 4 s"

definition sd_get_response_R7_rest :: "'a sd_state_scheme \<Rightarrow> u8 list \<times> 'a sd_state_scheme" where
  "sd_get_response_R7_rest s = sd_read_data 4 s"

text \<open>A command with its first response, and one with the four bytes that follow it.\<close>

definition sd_command :: "u8 \<Rightarrow> u32 \<Rightarrow> u8 \<Rightarrow> 'a sd_state_scheme \<Rightarrow> (u8 \<times> 'a sd_state_scheme) res" where
  "sd_command cmd arg crc s =
     bnd (sd_send_cmd cmd arg crc s) (\<lambda>s.
       let (result, s) = sd_get_response_R1 s in bnd (sd_end_cmd s) (\<lambda>s. Inr (result, s)))"

definition sd_command_rest ::
    "u8 \<Rightarrow> u32 \<Rightarrow> u8 \<Rightarrow> 'a sd_state_scheme \<Rightarrow> (u8 \<times> u8 list \<times> 'a sd_state_scheme) res" where
  "sd_command_rest cmd arg crc s =
     bnd (sd_send_cmd cmd arg crc s) (\<lambda>s.
       let (result, s) = sd_get_response_R1 s; (frame, s) = sd_get_response_R3_rest s
       in bnd (sd_end_cmd s) (\<lambda>s. Inr (result, frame, s)))"

section \<open>Start-up\<close>

fun switch_loop :: "nat \<Rightarrow> 'a sd_state_scheme \<Rightarrow> (bool \<times> 'a sd_state_scheme) res" where
  "switch_loop 0 s = Inr (False, s)"
| "switch_loop (Suc n) s =
     bnd (sd_command 0 0 0x95 s) (\<lambda>(result, s). if result = 0x01 then Inr (True, s) else switch_loop n s)"

text \<open>\<open>while (--timeout)\<close> from \<open>0xff\<close> makes 254 turns.\<close>

definition switch_to_SPI_mode :: "'a sd_state_scheme \<Rightarrow> (int \<times> 'a sd_state_scheme) res" where
  "switch_to_SPI_mode s =
     bnd (switch_loop 0xfe s) (\<lambda>(ok, s).
       if ok then Inr (0, s) else bnd (printf (bytes_of ''SD_CMD0 failed\<newline>'') [] s) (\<lambda>s. Inr (0xff, s)))"

definition verify_operation_condition :: "'a sd_state_scheme \<Rightarrow> (int \<times> 'a sd_state_scheme) res" where
  "verify_operation_condition s =
     bnd (sd_command_rest 8 0x01aa 0x87 s) (\<lambda>(result, frame, s).
       if result = 0x09 then bnd (printf (bytes_of ''invalid CRC for CMD8\<newline>'') [] s) (\<lambda>s. Inr (0xff, s))
       else if result = 0x01 \<and> frame ! 2 AND 0x0f = 0x01 \<and> frame ! 3 = 0xaa then Inr (0, s)
       else bnd (printf (bytes_of ''verify_operation_condition() fail!\<newline>'') [] s) (\<lambda>s. Inr (0xff, s)))"

fun ocr_loop :: "nat \<Rightarrow> u8 \<Rightarrow> 'a sd_state_scheme \<Rightarrow> (bool \<times> u8 \<times> 'a sd_state_scheme) res" where
  "ocr_loop 0 result s = Inr (False, result, s)"
| "ocr_loop (Suc n) result s =
     bnd (sd_command_rest 58 0 0 s) (\<lambda>(result, ocr, s).
       if result = 0x01 \<and> ocr ! 1 AND 0x1f \<noteq> 0 \<and> ocr ! 2 AND 0x80 \<noteq> 0 then Inr (True, result, s)
       else ocr_loop n result s)"

definition print_result :: "string \<Rightarrow> u8 \<Rightarrow> 'a sd_state_scheme \<Rightarrow> (int \<times> 'a sd_state_scheme) res" where
  "print_result str result s =
     bnd (printf (bytes_of str) [] s) (\<lambda>s.
     bnd (printf (bytes_of ''result = %d\<newline>'') [A_int (ucast result)] s) (\<lambda>s. Inr (0xff, s)))"

definition read_OCR :: "'a sd_state_scheme \<Rightarrow> (int \<times> 'a sd_state_scheme) res" where
  "read_OCR s =
     bnd (ocr_loop 0xfe 0 s) (\<lambda>(ok, result, s).
       if ok then Inr (0, s) else print_result ''read_OCR() timeout!\<newline>'' result s)"

fun capacity_loop :: "nat \<Rightarrow> u8 \<Rightarrow> 'a sd_state_scheme \<Rightarrow> (int \<times> 'a sd_state_scheme) res" where
  "capacity_loop 0 result s = print_result ''set_SDXC_capacity() timeout!\<newline>'' result s"
| "capacity_loop (Suc n) result s =
     bnd (sd_command 55 0 0 s) (\<lambda>(result, s).
       if result \<noteq> 0x01 then
         bnd (printf (bytes_of ''SD_CMD55 fail! result = %d\<newline>'') [A_int (ucast result)] s) (\<lambda>s. Inr (0xff, s))
       else bnd (sd_command 41 0x40000000 0 s) (\<lambda>(result, s).
         if result = 0 then Inr (0, s) else capacity_loop n result s))"

definition set_SDXC_capacity :: "'a sd_state_scheme \<Rightarrow> (int \<times> 'a sd_state_scheme) res" where
  "set_SDXC_capacity s = capacity_loop 0xffe 0xff s"

fun block_size_loop :: "nat \<Rightarrow> 'a sd_state_scheme \<Rightarrow> (bool \<times> 'a sd_state_scheme) res" where
  "block_size_loop 0 s = Inr (False, s)"
| "block_size_loop (Suc n) s =
     bnd (sd_command 16 (word_of_nat SECTOR_BYTES) 0 s) (\<lambda>(result, s).
       if result = 0 then Inr (True, s) else block_size_loop n s)"

fun check_block_loop :: "nat \<Rightarrow> u8 \<Rightarrow> 'a sd_state_scheme \<Rightarrow> (int \<times> 'a sd_state_scheme) res" where
  "check_block_loop 0 result s = print_result ''check_OCR() timeout!\<newline>'' result s"
| "check_block_loop (Suc n) result s =
     bnd (sd_command_rest 58 0 0 s) (\<lambda>(result, ocr, s).
       if result \<noteq> 0 then check_block_loop n result s
       else if ocr ! 0 AND 0x40 \<noteq> 0 then
         bnd (printf (bytes_of ''SDHC/SDXC detected\<newline>'') [] s) (\<lambda>s. Inr (0, s\<lparr>standard_sd := False\<rparr>))
       else
         bnd (printf (bytes_of ''SDSC detected, setting block size\<newline>'') [] s) (\<lambda>s.
         bnd (block_size_loop 0xfe s) (\<lambda>(ok, s).
           if ok then Inr (0, s\<lparr>standard_sd := True\<rparr>)
           else bnd (printf (bytes_of ''check_OCR(): fail to set block size'') [] s) (\<lambda>s. Inr (0xff, s)))))"

definition check_block_size :: "'a sd_state_scheme \<Rightarrow> (int \<times> 'a sd_state_scheme) res" where
  "check_block_size s = check_block_loop 0xff 0xff s"

text \<open>The drive mode of the chip select pin, set first, does not show on the bus.\<close>

definition sd_init :: "'a sd_state_scheme \<Rightarrow> (int \<times> 'a sd_state_scheme) res" where
  "sd_init s =
     (let s = SD_CS_LOW s in
      bnd (sd_write_data (replicate 10 0xff) s) (\<lambda>s.
      bnd (switch_to_SPI_mode s) (\<lambda>(r, s). if r \<noteq> 0 then Inr (0xff, s) else
      bnd (verify_operation_condition s) (\<lambda>(r, s). if r \<noteq> 0 then Inr (0xff, s) else
      bnd (read_OCR s) (\<lambda>(r, s). if r \<noteq> 0 then Inr (0xff, s) else
      bnd (set_SDXC_capacity s) (\<lambda>(r, s). if r \<noteq> 0 then Inr (0xff, s) else
      bnd (check_block_size s) (\<lambda>(r, s). if r \<noteq> 0 then Inr (0xff, s) else
        Inr (0, s))))))))"

text \<open>\<open>nm\<close> and \<open>name\<close> are the addresses of the literals \<open>"sleep lock"\<close> and \<open>"sdcard"\<close>.\<close>

definition sdcard_init :: "u64 \<Rightarrow> u64 \<Rightarrow> 'a sd_state_scheme \<Rightarrow> 'a sd_state_scheme res" where
  "sdcard_init nm name s =
     bnd (sd_init s) (\<lambda>(result, s).
     bnd (initsleeplock nm sdcard_lock name s) (\<lambda>s.
       if result \<noteq> 0 then Inl (Panic ''sdcard_init failed'') else Inr s))"

section \<open>Sectors\<close>

text \<open>Reading single bytes until one satisfies \<open>P\<close>, at most \<open>n\<close> times.\<close>

fun poll_byte :: "(u8 \<Rightarrow> bool) \<Rightarrow> nat \<Rightarrow> 'a sd_state_scheme \<Rightarrow> bool \<times> 'a sd_state_scheme" where
  "poll_byte P 0 s = (False, s)"
| "poll_byte P (Suc n) s =
     (let (bs, s) = sd_read_data 1 s in if P (hd bs) then (True, s) else poll_byte P n s)"

definition sector_address :: "int \<Rightarrow> 'a sd_state_scheme \<Rightarrow> u32" where
  "sector_address sectorno s =
     (if standard_sd s then push_bit 9 (word_of_int sectorno) else word_of_int sectorno)"

definition sdcard_read_sector ::
    "'a sd_switch \<Rightarrow> u64 \<Rightarrow> int \<Rightarrow> 'a sd_state_scheme \<Rightarrow> 'a sd_state_scheme res option" where
  "sdcard_read_sector pswitch buf sectorno s =
     (let address = sector_address sectorno s in
      opt_bnd (acquiresleep pswitch sdcard_lock s) (\<lambda>s.
      opt_bnd (Some (sd_send_cmd 17 address 0 s)) (\<lambda>s.
      let (result, s) = sd_get_response_R1 s in
      if result \<noteq> 0 then
        Some (bnd (releasesleep sdcard_lock s) (\<lambda>s. Inl (Panic ''sdcard: fail to read'')))
      else let (ok, s) = poll_byte (\<lambda>b. b = 0xfe) 0xfffffe s in
      if \<not> ok then Some (Inl (Panic ''sdcard: timeout waiting for reading''))
      else opt_bnd (sd_read_data_dma pswitch buf SECTOR_BYTES s) (\<lambda>s.
        let (dummy_crc, s) = sd_read_data 2 s in
        Some (bnd (sd_end_cmd s) (releasesleep sdcard_lock))))))"

definition sdcard_write_sector ::
    "'a sd_switch \<Rightarrow> u64 \<Rightarrow> int \<Rightarrow> 'a sd_state_scheme \<Rightarrow> 'a sd_state_scheme res option" where
  "sdcard_write_sector pswitch buf sectorno s =
     (let address = sector_address sectorno s;
          fail = (\<lambda>msg s. Some (bnd (releasesleep sdcard_lock s) (\<lambda>s. Inl (Panic msg)))) in
      opt_bnd (acquiresleep pswitch sdcard_lock s) (\<lambda>s.
      opt_bnd (Some (sd_send_cmd 24 address 0 s)) (\<lambda>s.
      let (result, s) = sd_get_response_R1 s in
      if result \<noteq> 0 then fail ''sdcard: fail to write'' s
      else opt_bnd (Some (sd_write_data [0xfe] s)) (\<lambda>s.
      opt_bnd (sd_write_data_dma pswitch buf SECTOR_BYTES s) (\<lambda>s.
      opt_bnd (Some (sd_write_data [0xff, 0xff] s)) (\<lambda>s.
      let (ok, s) = poll_byte (\<lambda>b. b AND 0x1f = 0x05) 0xffe s in
      if \<not> ok then fail ''sdcard: invalid response token'' s
      else let (ok, s) = poll_byte (\<lambda>b. b \<noteq> 0) 0xfffffe s in
      if \<not> ok then fail ''sdcard: timeout waiting for response'' s
      else opt_bnd (Some (sd_end_cmd s)) (\<lambda>s.
      opt_bnd (Some (sd_send_cmd 13 0 0 s)) (\<lambda>s.
      let (result, s) = sd_get_response_R1 s; (bs, s) = sd_read_data 1 s; error_code = hd bs in
      opt_bnd (Some (sd_end_cmd s)) (\<lambda>s.
        if result \<noteq> 0 \<or> error_code \<noteq> 0 then
          opt_bnd (Some (releasesleep sdcard_lock s)) (\<lambda>s.
          opt_bnd (Some (printf (bytes_of ''result: %x\<newline>'') [A_int (ucast result)] s)) (\<lambda>s.
          opt_bnd (Some (printf (bytes_of ''error_code: %x\<newline>'') [A_int (ucast error_code)] s)) (\<lambda>s.
            Some (Inl (Panic ''sdcard: an error occurs when writing'')))))
        else Some (releasesleep sdcard_lock s))))))))))"

section \<open>What a command puts on the bus\<close>

lemma store_bytes_apply:
  "length bs \<le> 2 ^ 64 - 1 \<Longrightarrow>
     store_bytes m a bs x = (if unat (x - a) < length bs then bs ! unat (x - a) else m x)"
proof (induction bs arbitrary: m a)
  case (Cons b bs)
  show ?case
  proof (cases "x = a")
    case True
    have "\<not> unat (a - (a + 1)) < length bs" using Cons.prems unat_diff_self_pred [of a] by simp
    thus ?thesis using True Cons by simp
  next
    case False
    thus ?thesis using Cons unat_diff_Suc [of x a] by auto
  qed
qed simp

lemma load_store_bytes: "length bs \<le> 4096 \<Longrightarrow> load_bytes (store_bytes m a bs) a (length bs) = bs"
  by (intro nth_equalityI) (auto simp: load_bytes_def store_bytes_apply unat_of_nat)

lemma bus_send_fields [simp]:
  "ram (bus_send bs s) = ram s" "freelist (bus_send bs s) = freelist s" "npages (bus_send bs s) = npages s"
  "kernel_end (bus_send bs s) = kernel_end s" "ready l (bus_send bs s) = ready l s"
  "bus (bus_send bs s) = rev (map Sent bs) @ bus s" "card (bus_send bs s) = card s"
  by (simp_all add: bus_send_def ready_def quiet_def lock_free_def hart_defs)

lemma kmem_inv_bus: "kmem_inv (s\<lparr>bus := b\<rparr>) xs = kmem_inv s xs"
  by (simp add: kmem_inv_def ready_def quiet_def lock_free_def hart_defs)

lemma sd_pushed_popped [simp]:
  "bus (pushed p s) = bus s" "card (pushed p s) = card s" "bus (popped s) = bus s" "card (popped s) = card s"
  by (simp_all add: pushed_def popped_def masked_def)

lemma sd_write_data_spec:
  assumes "kmem_inv s (p # ps)" "length bs \<le> 4096"
  shows "\<exists>s'. sd_write_data bs s = Inr s' \<and> bus s' = rev (map Sent bs) @ bus s \<and> card s' = card s
    \<and> kmem_inv s' (p # ps)"
proof -
  note a = kalloc_Cons [OF assms(1)] and q = kmem_inv_popped [OF assms(1)]
  define s1 where "s1 = (popped s)\<lparr>ram := store_bytes (ram (popped s)) p bs\<rparr>"
  define s2 where "s2 = bus_send bs s1"
  have pg: "page_ok (kernel_end s) p" "p \<notin> set ps" "\<forall>x \<in> set ps. page_ok (kernel_end s) x"
    using assms(1) by (auto simp: kmem_inv_def)
  have "kmem_inv s1 ps"
    unfolding s1_def
  proof (rule kmem_inv_ram [OF q(3)])
    fix x b assume x: "x \<in> set ps" "in_page x b"
    hence "\<not> in_page p b"
      using pages_disjoint [of x p b] pg page_ok_align(1) by metis
    thus "store_bytes (ram (popped s)) p bs b = ram (popped s) b"
      using assms(2) by (simp add: store_bytes_apply in_page_def)
  qed
  hence k2: "kmem_inv s2 ps" by (simp add: s2_def bus_send_def kmem_inv_bus)
  have e2: "kernel_end s2 = kernel_end s" by (simp add: s2_def s1_def)
  have "sd_write_data bs s = kfree p s2"
    using q(2) by (simp add: sd_write_data_def spi_send_data_standard_def a Let_def s2_def s1_def load_store_bytes [OF assms(2)])
  also have "\<dots> = Inr (pushed p s2)"
    using k2 pg(1) by (intro kfree_pushed) (auto simp: kmem_inv_def e2)
  finally have "sd_write_data bs s = Inr (pushed p s2)" .
  moreover have "kmem_inv (pushed p s2) (p # ps)" using k2 pg by (intro kmem_inv_pushed) (auto simp: e2)
  ultimately show ?thesis by (simp add: s2_def s1_def)
qed

text \<open>The answer is the first byte that is not \<open>0xff\<close>, if one comes in time.\<close>

lemma response_loop_spec:
  "response_loop n s = (r, s') \<Longrightarrow>
     \<exists>gots. s' = s\<lparr>bus := map Got gots @ bus s\<rparr> \<and> length gots \<le> n \<and> (\<forall>g \<in> set (tl gots). g = 0xff)
       \<and> (if r = 0xff then length gots = n \<and> (\<forall>g \<in> set gots. g = 0xff) else gots \<noteq> [] \<and> hd gots = r)"
proof (induction n arbitrary: s)
  case 0
  thus ?case by (intro exI [of _ "[]"]) auto
next
  case (Suc n)
  define b where "b = card s (bus s)"
  define t where "t = s\<lparr>bus := Got b # bus s\<rparr>"
  have st: "response_loop (Suc n) s = (if b \<noteq> 0xff then (b, t) else response_loop n t)"
    by (simp add: sd_read_data_def spi_receive_data_standard_def numeral_nat(7) b_def t_def Let_def)
  show ?case
  proof (cases "b = 0xff")
    case False
    thus ?thesis using Suc.prems st by (intro exI [of _ "[b]"]) (auto simp: t_def)
  next
    case True
    hence "response_loop n t = (r, s')" using Suc.prems st by simp
    from Suc.IH [OF this] obtain gots where g: "s' = t\<lparr>bus := map Got gots @ bus t\<rparr>" "length gots \<le> n"
      "\<forall>g \<in> set (tl gots). g = 0xff" "if r = 0xff then length gots = n \<and> (\<forall>g \<in> set gots. g = 0xff) else gots \<noteq> [] \<and> hd gots = r"
      by blast
    have "tl (gots @ [b]) = (if gots = [] then [] else tl gots @ [b])" by (cases gots) auto
    thus ?thesis using g True
      by (intro exI [of _ "gots @ [b]"]) (auto simp: t_def split: if_splits)
  qed
qed

lemma sd_frame_argument:
  "arg = push_bit 24 (ucast (sd_frame cmd arg crc ! 1)) OR push_bit 16 (ucast (sd_frame cmd arg crc ! 2))
     OR push_bit 8 (ucast (sd_frame cmd arg crc ! 3)) OR ucast (sd_frame cmd arg crc ! 4)"
proof (rule bit_word_eqI)
  fix n :: nat
  assume "n < LENGTH(32)"
  hence "n div 8 \<in> {0, 1, 2, 3}" by auto
  moreover obtain k where "n = 8 * (n div 8) + k" "k < 8" 
    using that [of "n mod 8"] by simp
  ultimately consider "n < 8" | k where "n = 8 + k" "k < 8" | k where "n = 16 + k" "k < 8" | k where "n = 24 + k" "k < 8"
    by fastforce
  thus "bit arg n = bit (push_bit 24 (ucast (sd_frame cmd arg crc ! 1)) OR push_bit 16 (ucast (sd_frame cmd arg crc ! 2))
     OR push_bit 8 (ucast (sd_frame cmd arg crc ! 3)) OR (ucast (sd_frame cmd arg crc ! 4) :: u32)) n"
    by cases (simp_all add: sd_frame_def bit_or_iff bit_push_bit_iff bit_ucast_iff bit_drop_bit_eq)
qed

text \<open>C25: with a free page in the pool, sending a command selects the card and puts exactly six bytes on
  the bus: the command with its start bit, the argument from its highest byte down, from which it reads
  back, and the checksum; the pool is as before. The response is then the first byte other than \<open>0xff\<close>
  the card answers, found with at most 255 reads; \<open>0xff\<close> is returned only after 255 of them.\<close>

theorem sd_send_cmd_frame:
  assumes "kmem_inv s (p # ps)"
  shows "\<exists>s' a b c d r s'' gots. sd_send_cmd cmd arg crc s = Inr s'
    \<and> bus s' = map Sent [crc, d, c, b, a, cmd OR 0x40] @ Cs False # bus s
    \<and> arg = push_bit 24 (ucast a) OR push_bit 16 (ucast b) OR push_bit 8 (ucast c) OR ucast d
    \<and> sd_get_response_R1 s' = (r, s'') \<and> bus s'' = map Got gots @ bus s' \<and> length gots \<le> 255
    \<and> (\<forall>g \<in> set (tl gots). g = 0xff)
    \<and> (if r = 0xff then length gots = 255 \<and> (\<forall>g \<in> set gots. g = 0xff) else gots \<noteq> [] \<and> hd gots = r)
    \<and> kmem_inv s'' (p # ps)"
proof -
  have "kmem_inv (SD_CS_LOW s) (p # ps)" using assms by (simp add: SD_CS_LOW_def kmem_inv_bus)
  then obtain s' where w: "sd_write_data (sd_frame cmd arg crc) (SD_CS_LOW s) = Inr s'"
      "bus s' = rev (map Sent (sd_frame cmd arg crc)) @ bus (SD_CS_LOW s)" "kmem_inv s' (p # ps)"
    using sd_write_data_spec [of "SD_CS_LOW s" p ps "sd_frame cmd arg crc"] by (auto simp: sd_frame_def)
  obtain r s'' where r: "sd_get_response_R1 s' = (r, s'')" by fastforce
  then obtain gots where g: "s'' = s'\<lparr>bus := map Got gots @ bus s'\<rparr>" "length gots \<le> 255" "\<forall>g \<in> set (tl gots). g = 0xff"
      "if r = 0xff then length gots = 255 \<and> (\<forall>g \<in> set gots. g = 0xff) else gots \<noteq> [] \<and> hd gots = r"
    using response_loop_spec [of "0xff" s' r s''] unfolding sd_get_response_R1_def by auto
  have f: "sd_frame cmd arg crc = [cmd OR 0x40, sd_frame cmd arg crc ! 1, sd_frame cmd arg crc ! 2,
      sd_frame cmd arg crc ! 3, sd_frame cmd arg crc ! 4, crc]" by (simp add: sd_frame_def)
  have "bus s' = map Sent [crc, sd_frame cmd arg crc ! 4, sd_frame cmd arg crc ! 3, sd_frame cmd arg crc ! 2,
      sd_frame cmd arg crc ! 1, cmd OR 0x40] @ Cs False # bus s"
    by (subst w(2), subst f) (simp add: SD_CS_LOW_def)
  moreover have "kmem_inv s'' (p # ps)" using w(3) g(1) by (simp add: kmem_inv_bus)
  moreover have "bus s'' = map Got gots @ bus s'" using g(1) by simp
  ultimately show ?thesis using w(1) r g(2-4) sd_frame_argument [of arg cmd crc]
    unfolding sd_send_cmd_def Let_def by blast
qed

text \<open>A machine with one free page and a card that answers every read with 1.\<close>

definition sd_machine :: sd_state where
  "sd_machine = console_state.extend (console_hart\<lparr>freelist := 0x80500000, npages := 1, kernel_end := 0x80500000, ram := (\<lambda>_. 0)\<rparr>)
     (sd_state.fields [] (\<lambda>_. 1) (\<lambda>_. True) 0 [] False)"

lemma sd_machine_inv: "kmem_inv sd_machine [0x80500000]"
  by (simp add: sd_machine_def console_state.defs sd_state.defs console_hart_def pipe_state.defs pipe_hart_def sleep_state.defs
      sleepy_def proc_state.defs one_proc_def kmem_inv_def page_ok_def PHYSTOP_def ready_def quiet_def lock_free_def hart_defs)

theorem sd_send_cmd_frame_witness:
  "\<exists>s' r s''. sd_send_cmd 17 2 0 sd_machine = Inr (s' :: sd_state) \<and> sd_get_response_R1 s' = (r, s'')
     \<and> kmem_inv s'' [0x80500000]"
  using sd_send_cmd_frame [OF sd_machine_inv, of 17 2 0] by blast

end
