(* ===== verification/Bio.thy ===== *)
theory Bio
  imports Sdcard
begin

text \<open>
  The buffer cache, \<open>fs/bio.cpp\<close> with \<open>driver/disk.cpp\<close>: 100 buffers of one sector, looked up by block
  number, with the least recently used unreferenced one as the victim.
\<close>

section \<open>State\<close>

text \<open>\<open>struct buf\<close> without its sleep lock, which has the number of the buffer; \<open>b_data\<close> is the address of its bytes.\<close>

record kbuf =
  b_valid :: int
  b_disk :: int
  b_dev :: int
  b_blockno :: int
  b_tick :: u64
  b_refcnt :: u32
  b_data :: u64

record bio_state = sd_state +
  bufCache :: "nat \<Rightarrow> kbuf"

definition BUFFER_NUM :: nat where "BUFFER_NUM = 100"

definition upd_buf :: "nat \<Rightarrow> (kbuf \<Rightarrow> kbuf) \<Rightarrow> 'a bio_state_scheme \<Rightarrow> 'a bio_state_scheme" where
  "upd_buf i f s = s\<lparr>bufCache := (bufCache s)(i := f (bufCache s i))\<rparr>"

type_synonym 'a bio_switch = "'a bio_state_ext sd_switch"

section \<open>Disk\<close>

definition disk_init :: "u64 \<Rightarrow> u64 \<Rightarrow> 'a bio_state_scheme \<Rightarrow> 'a bio_state_scheme res" where
  "disk_init nm name s = sdcard_init nm name s"

definition disk_read :: "'a bio_switch \<Rightarrow> nat \<Rightarrow> 'a bio_state_scheme \<Rightarrow> 'a bio_state_scheme res option" where
  "disk_read pswitch b s = sdcard_read_sector pswitch (b_data (bufCache s b)) (b_blockno (bufCache s b)) s"

definition disk_write :: "'a bio_switch \<Rightarrow> nat \<Rightarrow> 'a bio_state_scheme \<Rightarrow> 'a bio_state_scheme res option" where
  "disk_write pswitch b s = sdcard_write_sector pswitch (b_data (bufCache s b)) (b_blockno (bufCache s b)) s"

text \<open>\<open>dmac_intr\<close> of \<open>driver/dmac.cpp\<close>: the interrupt of the channel is cleared in the controller, and the
  sleepers on the controller are woken.\<close>

definition dmac_intr :: "nat \<Rightarrow> 'a sd_state_scheme \<Rightarrow> 'a sd_state_scheme" where
  "dmac_intr channel_num s = wakeup Ch_dma (s\<lparr>dma_cleared := channel_num # dma_cleared s\<rparr>)"

definition disk_intr :: "'a bio_state_scheme \<Rightarrow> 'a bio_state_scheme" where
  "disk_intr s = dmac_intr 0 s"

section \<open>Buffers\<close>

text \<open>Every turn of the loop initialises the lock of the first buffer.\<close>

fun init_loop :: "nat \<Rightarrow> u64 \<Rightarrow> u64 \<Rightarrow> 'a bio_state_scheme \<Rightarrow> 'a bio_state_scheme res" where
  "init_loop 0 nm name s = Inr s"
| "init_loop (Suc n) nm name s = bnd (initsleeplock nm 0 name s) (init_loop n nm name)"

definition BufferLayer_init :: "u64 \<Rightarrow> u64 \<Rightarrow> u64 \<Rightarrow> 'a bio_state_scheme \<Rightarrow> 'a bio_state_scheme res" where
  "BufferLayer_init nm_cache nm name s = init_loop BUFFER_NUM nm name (initlock L_bcache nm_cache 11 s)"

text \<open>The scan over the buffers: \<open>Inl\<close> a hit, \<open>Inr\<close> the earliest unreferenced one.\<close>

fun buffer_scan :: "(nat \<Rightarrow> kbuf) \<Rightarrow> int \<Rightarrow> nat \<Rightarrow> nat \<Rightarrow> nat option \<Rightarrow> nat + nat option" where
  "buffer_scan bs blockno 0 b earliest = Inr earliest"
| "buffer_scan bs blockno (Suc n) b earliest =
     (let earliest = (if b_refcnt (bs b) = 0 \<and>
                         (case earliest of None \<Rightarrow> True | Some e \<Rightarrow> b_tick (bs b) < b_tick (bs e))
                      then Some b else earliest)
      in if b_blockno (bs b) = blockno then Inl b else buffer_scan bs blockno n (Suc b) earliest)"

definition allocBuffer ::
    "'a bio_switch \<Rightarrow> int \<Rightarrow> int \<Rightarrow> 'a bio_state_scheme \<Rightarrow> (nat \<times> 'a bio_state_scheme) res option" where
  "allocBuffer pswitch dev blockno s =
     opt_bnd (Some (acquire L_bcache s)) (\<lambda>s.
       case buffer_scan (bufCache s) blockno BUFFER_NUM 0 None of
         Inl b \<Rightarrow>
           opt_bnd (Some (release L_bcache s)) (\<lambda>s.
             let s = upd_buf b (\<lambda>q. q\<lparr>b_refcnt := b_refcnt q + 1, b_tick := ucast (ticks s)\<rparr>) s
             in opt_bnd (acquiresleep pswitch b s) (\<lambda>s. Some (Inr (b, s))))
       | Inr earliest \<Rightarrow>
           opt_bnd (Some (release L_bcache s)) (\<lambda>s.
             case earliest of None \<Rightarrow> Some (Inl (Panic ''alloc buf''))
             | Some b \<Rightarrow>
                 let s = upd_buf b (\<lambda>q. q\<lparr>b_valid := 0, b_refcnt := 1, b_blockno := blockno, b_dev := dev,
                            b_tick := ucast (ticks s)\<rparr>) s
                 in opt_bnd (acquiresleep pswitch b s) (\<lambda>s. Some (Inr (b, s)))))"

definition BufferLayer_write :: "'a bio_switch \<Rightarrow> nat \<Rightarrow> 'a bio_state_scheme \<Rightarrow> 'a bio_state_scheme res option" where
  "BufferLayer_write pswitch b s = disk_write pswitch b s"

text \<open>The lock is released twice, and the sleep lock of the buffer not at all.\<close>

definition freeBuffer :: "'a bio_switch \<Rightarrow> nat \<Rightarrow> 'a bio_state_scheme \<Rightarrow> 'a bio_state_scheme res option" where
  "freeBuffer pswitch b s =
     opt_bnd (Some (acquire L_bcache s)) (\<lambda>s.
       let s = upd_buf b (\<lambda>q. q\<lparr>b_refcnt := b_refcnt q - 1\<rparr>) s in
       opt_bnd (Some (release L_bcache s)) (\<lambda>s.
       opt_bnd (BufferLayer_write pswitch b s) (\<lambda>s. Some (release L_bcache s))))"

definition BufferLayer_read ::
    "'a bio_switch \<Rightarrow> int \<Rightarrow> int \<Rightarrow> 'a bio_state_scheme \<Rightarrow> (nat \<times> 'a bio_state_scheme) res option" where
  "BufferLayer_read pswitch dev blockno s =
     opt_bnd (allocBuffer pswitch dev blockno s) (\<lambda>(b, s).
     opt_bnd (if b_valid (bufCache s b) = 0 then disk_read pswitch b s else Some (Inr s)) (\<lambda>s.
       Some (Inr (b, upd_buf b (\<lambda>q. q\<lparr>b_valid := 1\<rparr>) s))))"

section \<open>The victim of the scan\<close>

text \<open>What the scan keeps: the earliest so far is unreferenced and the first of the least recently used before \<open>b\<close>.\<close>

definition victim :: "(nat \<Rightarrow> kbuf) \<Rightarrow> nat \<Rightarrow> nat option \<Rightarrow> bool" where
  "victim bs b earliest \<longleftrightarrow>
     (case earliest of
        None \<Rightarrow> \<forall>i < b. b_refcnt (bs i) \<noteq> 0
      | Some e \<Rightarrow> e < b \<and> b_refcnt (bs e) = 0
          \<and> (\<forall>i < b. b_refcnt (bs i) = 0 \<longrightarrow> b_tick (bs e) \<le> b_tick (bs i))
          \<and> (\<forall>i < e. b_refcnt (bs i) = 0 \<longrightarrow> b_tick (bs e) < b_tick (bs i)))"

lemma victim_step:
  assumes "victim bs b earliest"
  shows "victim bs (Suc b)
    (if b_refcnt (bs b) = 0 \<and> (case earliest of None \<Rightarrow> True | Some e \<Rightarrow> b_tick (bs b) < b_tick (bs e))
     then Some b else earliest)"
proof (cases earliest)
  case None
  thus ?thesis using assms by (auto simp: victim_def less_Suc_eq)
next
  case (Some e)
  thus ?thesis using assms
    by (auto simp: victim_def less_Suc_eq)
qed

lemma buffer_scan_spec:
  "victim bs b earliest \<Longrightarrow> \<forall>i < b. b_blockno (bs i) \<noteq> blockno \<Longrightarrow>
   (case buffer_scan bs blockno n b earliest of
      Inl h \<Rightarrow> h < b + n \<and> b_blockno (bs h) = blockno \<and> (\<forall>i < h. b_blockno (bs i) \<noteq> blockno)
    | Inr e \<Rightarrow> victim bs (b + n) e \<and> (\<forall>i < b + n. b_blockno (bs i) \<noteq> blockno))"
proof (induction n arbitrary: b earliest)
  case (Suc n)
  show ?case
  proof (cases "b_blockno (bs b) = blockno")
    case True
    thus ?thesis using Suc.prems by simp
  next
    case False
    hence "\<forall>i < Suc b. b_blockno (bs i) \<noteq> blockno" using Suc.prems(2) by (auto simp: less_Suc_eq)
    note ih = Suc.IH [OF victim_step [OF Suc.prems(1)] this]
    moreover have "Suc b + n = b + Suc n" by simp
    ultimately show ?thesis using False by (simp only: buffer_scan.simps Let_def if_False)
  qed
qed simp

lemma release_depth0: "release l s = Inr s' \<Longrightarrow> depth s = 1 \<Longrightarrow> depth s' = 0"
  using release_depth by fastforce

lemma depth_buf_upd [simp]: "depth (upd_buf b f s) = depth s"
  by (simp add: depth_def hart_defs upd_buf_def)

text \<open>C33: the scan of the buffer cache returns the first buffer that has the block, whatever its device;
  only when there is none, it returns an unreferenced buffer that was used least recently, the
  first of those, and none exactly when every buffer is referenced. Taking the buffer's sleep lock
  then stops the kernel, so \<open>allocBuffer\<close> and \<open>read\<close> never return.\<close>

theorem allocBuffer_lru:
  assumes "0 \<le> depth s"
  shows "(case buffer_scan (bufCache s) blockno BUFFER_NUM 0 None of
            Inl h \<Rightarrow> h < BUFFER_NUM \<and> b_blockno (bufCache s h) = blockno \<and> (\<forall>i < h. b_blockno (bufCache s i) \<noteq> blockno)
          | Inr e \<Rightarrow> (\<forall>i < BUFFER_NUM. b_blockno (bufCache s i) \<noteq> blockno) \<and>
              (case e of None \<Rightarrow> \<forall>i < BUFFER_NUM. b_refcnt (bufCache s i) \<noteq> 0
               | Some e \<Rightarrow> e < BUFFER_NUM \<and> b_refcnt (bufCache s e) = 0
                   \<and> (\<forall>i < BUFFER_NUM. b_refcnt (bufCache s i) = 0 \<longrightarrow> b_tick (bufCache s e) \<le> b_tick (bufCache s i))
                   \<and> (\<forall>i < e. b_refcnt (bufCache s i) = 0 \<longrightarrow> b_tick (bufCache s e) < b_tick (bufCache s i))))
    \<and> (\<exists>e. allocBuffer pswitch dev blockno s = Some (Inl e)) \<and> (\<exists>e. BufferLayer_read pswitch dev blockno s = Some (Inl e))"
proof -
  have stop: "\<exists>e. allocBuffer pswitch dev blockno s = Some (Inl e)"
  proof (cases "acquire L_bcache s")
    case (Inr s1)
    have d1: "depth s1 = depth s + 1" using acquire_depth [OF Inr] .
    show ?thesis
    proof (cases "release L_bcache s1")
      case (Inr s2)
      have d2: "0 \<le> depth (upd_buf b f s2)" for b f using release_depth [OF Inr] d1 assms by simp
      have a: "\<exists>e. opt_bnd (acquiresleep pswitch b (upd_buf b f s2)) g = Some (Inl e)" for b f and g :: "_ \<Rightarrow> (nat \<times> 'a bio_state_scheme) res option"
        using acquiresleep_stops [OF d2, of pswitch b b f] by (auto simp: opt_bnd_def)
      have o: "opt_bnd (Some (Inr x)) g = g x" for x :: "'a bio_state_scheme" and g :: "_ \<Rightarrow> (nat \<times> 'a bio_state_scheme) res option"
        by (simp add: opt_bnd_def)
      show ?thesis
        unfolding allocBuffer_def \<open>acquire L_bcache s = Inr s1\<close> o Inr Let_def
        using a by (auto split: sum.split option.split)
    qed (use Inr in \<open>auto simp: allocBuffer_def opt_bnd_def split: sum.split\<close>)
  qed (simp add: allocBuffer_def opt_bnd_def)
  moreover from stop have "\<exists>e. BufferLayer_read pswitch dev blockno s = Some (Inl e)"
    by (auto simp: BufferLayer_read_def opt_bnd_def)
  ultimately show ?thesis
    using buffer_scan_spec [of "bufCache s" 0 None blockno BUFFER_NUM] by (auto simp: victim_def split: sum.splits option.splits)
qed

definition bio_machine :: bio_state where
  "bio_machine = sd_state.extend sd_machine
     (bio_state.fields (\<lambda>i. \<lparr>b_valid = 0, b_disk = 0, b_dev = 0, b_blockno = int i, b_tick = word_of_nat (200 - i),
        b_refcnt = (if i = 99 then 1 else 0), b_data = 0x80600000\<rparr>))"

theorem allocBuffer_lru_witness:
  "(\<exists>e. allocBuffer (\<lambda>_ _ s. Inr s) 0 7 bio_machine = Some (Inl e))"
  using allocBuffer_lru [of bio_machine 7 "\<lambda>_ _ s. Inr s" 0]
  by (simp add: bio_machine_def sd_machine_def console_state.defs sd_state.defs bio_state.defs console_hart_def
      pipe_state.defs pipe_hart_def sleep_state.defs sleepy_def proc_state.defs one_proc_def depth_def hart_defs)

end
