(* ===== verification/Vfs.thy ===== *)
theory Vfs
  imports Bio
begin

text \<open>
  The virtual file system, \<open>fs/vfs.cpp\<close>, and the only file system it ever mounts, \<open>fs/devicefs.cpp\<close>: paths,
  the mount table, opening, reading and writing by the kind of a file, pipes and the working directory.
  The table of open files is in \<open>File\<close>.
\<close>

section \<open>State\<close>

text \<open>
  \<open>mountedFS\<close> holds the addresses of the file system objects, 0 for \<open>NULL\<close>. Such an object is a page of
  memory: the virtual table, \<open>mountPos\<close>, \<open>specialDev\<close>, \<open>dev\<close>. \<open>addr_of\<close> gives the address of a string literal
  or of a local array, by its text or its function and name.
\<close>

record vfs_state = bio_state +
  mountedFS :: "nat \<Rightarrow> u64"
  addr_of :: "string \<Rightarrow> u64"

type_synonym 'a vfs_switch = "'a vfs_state_ext bio_switch"

definition NFILESYSTEM :: nat where "NFILESYSTEM = 5"

datatype fs_type = FAT32 | SYSFS | DEVFS | PROCFS | UNKNOWN

definition mountPos :: "u64 \<Rightarrow> u64" where "mountPos fs = fs + 8"
definition specialDev :: "u64 \<Rightarrow> u64" where "specialDev fs = fs + 72"

definition O_WRITEONLY :: u64 where "O_WRITEONLY = 1"
definition O_RDWR :: u64 where "O_RDWR = 2"
definition O_READONLY :: u64 where "O_READONLY = 0"
definition AT_FDCWD :: int where "AT_FDCWD = - 100"

text \<open>The length of a string in memory; without a zero byte \<open>strlen\<close> does not return.\<close>

definition len_at :: "u64 \<Rightarrow> 'a vfs_state_scheme \<Rightarrow> nat res" where
  "len_at a s = (case strlen (ram s) a of None \<Rightarrow> Inl (Hang ''strlen'') | Some n \<Rightarrow> Inr n)"

text \<open>\<open>memcpy(dst, src, strlen(src))\<close>.\<close>

definition copy_chars :: "u64 \<Rightarrow> u64 \<Rightarrow> 'a vfs_state_scheme \<Rightarrow> 'a vfs_state_scheme res" where
  "copy_chars dst src s = bnd (len_at src s) (\<lambda>n. Inr (s\<lparr>ram := memcpy (ram s) dst src (word_of_nat n)\<rparr>))"

definition zero_path :: "u64 \<Rightarrow> 'a vfs_state_scheme \<Rightarrow> 'a vfs_state_scheme" where
  "zero_path a s = s\<lparr>ram := memset (ram s) a 0 (word_of_nat MAXPATH)\<rparr>"

definition upd_file :: "nat \<Rightarrow> (kfile \<Rightarrow> kfile) \<Rightarrow> 'a file_state_scheme \<Rightarrow> 'a file_state_scheme" where
  "upd_file i f s = s\<lparr>fileTable := (fileTable s)(i := f (fileTable s i))\<rparr>"

section \<open>Paths\<close>

text \<open>
  The branch for a relative path, which needs the working directory of the process \<open>p\<close>; at boot there is none,
  and the address of its array is not followed then.
\<close>

definition relative_path :: "nat option \<Rightarrow> u64 \<Rightarrow> u64 \<Rightarrow> 'a vfs_state_scheme \<Rightarrow> 'a vfs_state_scheme res" where
  "relative_path p oldpath newpath s =
     bnd (myproc s) (\<lambda>(q, s).
     bnd (acquire (L_proc q) s) (\<lambda>s.
       case p of None \<Rightarrow> null_deref
       | Some p \<Rightarrow>
           let curdir = p_workDir (procTable s p) in
           bnd (copy_chars newpath curdir s) (\<lambda>s.
           bnd (len_at curdir s) (\<lambda>n.
           bnd (copy_chars (newpath + word_of_nat n) oldpath s) (\<lambda>s.
           bnd (myproc s) (\<lambda>(q, s). release (L_proc q) s))))))"

definition getAbPath :: "u64 \<Rightarrow> u64 \<Rightarrow> 'a vfs_state_scheme \<Rightarrow> 'a vfs_state_scheme res" where
  "getAbPath path newpath s =
     bnd (curproc s) (\<lambda>(p, s).
       let s = zero_path newpath s;
           oldpath = (if ram s path = 46 \<and> ram s (path + 1) = 47 then path + 2 else path)
       in if ram s oldpath = 47 then copy_chars newpath oldpath s
          else relative_path p oldpath newpath s)"

text \<open>
  The comparison of a mount point with a path from position \<open>j\<close>: the second condition of the loop looks at
  the position of the outer loop, \<open>i\<close>.
\<close>

partial_function (option) mount_match :: "mem \<Rightarrow> u64 \<Rightarrow> u64 \<Rightarrow> nat \<Rightarrow> nat \<Rightarrow> bool option" where
  "mount_match m mp filepath i j =
     (if m (mp + word_of_nat j) \<noteq> 0 \<and> m (filepath + word_of_nat i) \<noteq> 0 then
        if m (mp + word_of_nat j) \<noteq> m (filepath + word_of_nat j) then Some False
        else mount_match m mp filepath i (Suc j)
      else Some True)"

text \<open>\<open>n\<close> slots are left from \<open>i\<close>.\<close>

fun best_mount :: "u64 \<Rightarrow> nat \<Rightarrow> nat \<Rightarrow> nat \<Rightarrow> nat \<Rightarrow> 'a vfs_state_scheme \<Rightarrow> nat res" where
  "best_mount filepath 0 i bestMatch bestLength s = Inr bestMatch"
| "best_mount filepath (Suc n) i bestMatch bestLength s =
     (if mountedFS s i = 0 then best_mount filepath n (Suc i) bestMatch bestLength s
      else case mount_match (ram s) (mountPos (mountedFS s i)) filepath i 0 of
        None \<Rightarrow> Inl (Hang ''vfsgetFs'')
      | Some match \<Rightarrow>
          if match then
            bnd (len_at (mountPos (mountedFS s i)) s) (\<lambda>len.
              if len > bestLength then best_mount filepath n (Suc i) i len s
              else best_mount filepath n (Suc i) bestMatch bestLength s)
          else best_mount filepath n (Suc i) bestMatch bestLength s)"

definition vfsgetFs :: "u64 \<Rightarrow> 'a vfs_state_scheme \<Rightarrow> u64 res" where
  "vfsgetFs filepath s = bnd (best_mount filepath NFILESYSTEM 0 0 0 s) (\<lambda>b. Inr (mountedFS s b))"

section \<open>The device file system\<close>

definition DeviceFS_new :: "u64 \<Rightarrow> u64 \<Rightarrow> 'a vfs_state_scheme \<Rightarrow> (u64 \<times> 'a vfs_state_scheme) res" where
  "DeviceFS_new mp sd s =
     bnd (operator_new 144 s) (\<lambda>(fs, s).
       if fs = 0 then null_deref
       else bnd (copy_string (mountPos fs) mp s) (\<lambda>s.
            bnd (copy_string (specialDev fs) sd s) (\<lambda>s. Inr (fs, s))))"

definition DeviceFS_init :: "u64 \<Rightarrow> 'a vfs_state_scheme \<Rightarrow> 'a vfs_state_scheme" where
  "DeviceFS_init fs s = s"

definition DeviceFS_open :: "u64 \<Rightarrow> u64 \<Rightarrow> nat \<Rightarrow> 'a vfs_state_scheme \<Rightarrow> int \<times> 'a vfs_state_scheme" where
  "DeviceFS_open filepath flags fp s = (0, upd_file fp (\<lambda>f. f\<lparr>f_type := FD_DEVICE, f_directory := 0\<rparr>) s)"

text \<open>Which device a path names; \<open>L\<close> is its length.\<close>

datatype dev_kind = Dev_tty | Dev_disk | Dev_none

definition read_device :: "u64 \<Rightarrow> nat \<Rightarrow> 'a vfs_state_scheme \<Rightarrow> dev_kind" where
  "read_device path L s =
     (if strncmp (ram s) path (addr_of s ''/dev/tty'') (word_of_nat L) = 0 then Dev_tty
      else if strncmp (ram s) path (addr_of s ''/dev/vda2'') (word_of_nat L) = 0 then Dev_disk
      else if strncmp (ram s) path (addr_of s ''/dev/hda1'') 9 = 0 then Dev_disk
      else Dev_none)"

definition write_device :: "u64 \<Rightarrow> nat \<Rightarrow> 'a vfs_state_scheme \<Rightarrow> dev_kind" where
  "write_device path L s =
     (if strncmp (ram s) path (addr_of s ''/dev/tty'') (word_of_nat L) = 0 then Dev_tty
      else if strncmp (ram s) path (addr_of s ''/dev/vda2'') 9 = 0 then Dev_disk
      else if strncmp (ram s) path (addr_of s ''/dev/hda1'') 9 = 0 then Dev_disk
      else Dev_none)"

definition DeviceFS_read ::
    "'a vfs_switch \<Rightarrow> u64 \<Rightarrow> int \<Rightarrow> u64 \<Rightarrow> int \<Rightarrow> int \<Rightarrow> 'a vfs_state_scheme \<Rightarrow> (u64 \<times> 'a vfs_state_scheme) res option" where
  "DeviceFS_read pswitch path user buf offset n s =
     opt_bnd (Some (len_at path s)) (\<lambda>L.
       case read_device path L s of
         Dev_tty \<Rightarrow> opt_bnd (consoleread pswitch (addr_of s ''consoleread.c'') buf user n s) (\<lambda>(r, s).
                     Some (Inr (word_of_int r, s)))
       | Dev_disk \<Rightarrow> opt_bnd (sdcard_read_sector pswitch buf (offset sdiv 512) s) (\<lambda>s. Some (Inr (0, s)))
       | Dev_none \<Rightarrow> Some (Inl (Panic ''not support path'')))"

definition DeviceFS_write ::
    "'a vfs_switch \<Rightarrow> u64 \<Rightarrow> int \<Rightarrow> u64 \<Rightarrow> int \<Rightarrow> int \<Rightarrow> 'a vfs_state_scheme \<Rightarrow> (u64 \<times> 'a vfs_state_scheme) res option" where
  "DeviceFS_write pswitch path user buf offset n s =
     opt_bnd (Some (len_at path s)) (\<lambda>L.
       case write_device path L s of
         Dev_tty \<Rightarrow> Some (bnd (consolewrite (addr_of s ''consolewrite.c'') buf user n s) (\<lambda>(r, s). Inr (word_of_int r, s)))
       | Dev_disk \<Rightarrow> opt_bnd (sdcard_write_sector pswitch buf (offset sdiv 512) s) (\<lambda>s. Some (Inr (0, s)))
       | Dev_none \<Rightarrow> Some (Inl (Panic ''not support path'')))"

definition DeviceFS_rm :: "u64 \<Rightarrow> 'a vfs_state_scheme \<Rightarrow> u64 \<times> 'a vfs_state_scheme" where
  "DeviceFS_rm filepath s = (0, s)"

definition DeviceFS_ls :: "u64 \<Rightarrow> u64 \<Rightarrow> int \<Rightarrow> int \<Rightarrow> 'a vfs_state_scheme \<Rightarrow> int \<times> 'a vfs_state_scheme" where
  "DeviceFS_ls filepath contents len user s = (0, s)"

definition DeviceFS_truncate :: "u64 \<Rightarrow> u64 \<Rightarrow> 'a vfs_state_scheme \<Rightarrow> u64 \<times> 'a vfs_state_scheme" where
  "DeviceFS_truncate filepath sz s = (0, s)"

definition DeviceFS_clear :: "u64 \<Rightarrow> u64 \<Rightarrow> u64 \<Rightarrow> 'a vfs_state_scheme \<Rightarrow> u64 \<times> 'a vfs_state_scheme" where
  "DeviceFS_clear filepath count offset s = (0, s)"

definition DeviceFS_get_file :: "u64 \<Rightarrow> nat \<Rightarrow> 'a vfs_state_scheme \<Rightarrow> int \<times> 'a vfs_state_scheme" where
  "DeviceFS_get_file filepath fp s = (0, s)"

definition DeviceFS_touch :: "u64 \<Rightarrow> 'a vfs_state_scheme \<Rightarrow> u64 \<times> 'a vfs_state_scheme" where
  "DeviceFS_touch filepath s = (0, s)"

section \<open>Mounting\<close>

definition createFileSystem :: "fs_type \<Rightarrow> u64 \<Rightarrow> u64 \<Rightarrow> 'a vfs_state_scheme \<Rightarrow> (u64 \<times> 'a vfs_state_scheme) res" where
  "createFileSystem t mp sd s =
     (case t of DEVFS \<Rightarrow> DeviceFS_new mp sd s | FAT32 \<Rightarrow> DeviceFS_new mp sd s
      | _ \<Rightarrow> Inl (Panic ''create file system''))"

definition vfsmount :: "fs_type \<Rightarrow> u64 \<Rightarrow> u64 \<Rightarrow> 'a vfs_state_scheme \<Rightarrow> (int \<times> 'a vfs_state_scheme) res" where
  "vfsmount t mountPoint sd s =
     (let absolutMp = addr_of s ''vfsmount.absolutMp'' in
      bnd (getAbPath mountPoint absolutMp s) (\<lambda>s.
      bnd (createFileSystem t absolutMp sd s) (\<lambda>(fs, s).
      let s = DeviceFS_init fs s in
      bnd (acquire L_mountedfs s) (\<lambda>s.
        case first_from (\<lambda>i. mountedFS s i = 0) NFILESYSTEM 0 of
          Some i \<Rightarrow> bnd (release L_mountedfs s) (\<lambda>s. Inr (0, s\<lparr>mountedFS := (mountedFS s)(i := fs)\<rparr>))
        | None \<Rightarrow> bnd (release L_mountedfs s) (\<lambda>s. Inl (Panic ''mount file system''))))))"

fun umount_scan :: "u64 \<Rightarrow> nat \<Rightarrow> nat \<Rightarrow> nat \<Rightarrow> 'a vfs_state_scheme \<Rightarrow> nat option res" where
  "umount_scan absolutMp len 0 i s = Inr None"
| "umount_scan absolutMp len (Suc k) i s =
     (if mountedFS s i = 0 then umount_scan absolutMp len k (Suc i) s
      else bnd (len_at (mountPos (mountedFS s i)) s) (\<lambda>n.
        if strncmp (ram s) (mountPos (mountedFS s i)) absolutMp (word_of_nat (if n > len then n else len)) = 0
        then Inr (Some i) else umount_scan absolutMp len k (Suc i) s))"

definition vfsumount :: "u64 \<Rightarrow> 'a vfs_state_scheme \<Rightarrow> (int \<times> 'a vfs_state_scheme) res" where
  "vfsumount mpdir s =
     (let absolutMp = addr_of s ''vfsumount.absolutMp'' in
      bnd (getAbPath mpdir absolutMp s) (\<lambda>s.
      bnd (len_at absolutMp s) (\<lambda>len.
      bnd (acquire L_mountedfs s) (\<lambda>s.
      bnd (umount_scan absolutMp len NFILESYSTEM 0 s) (\<lambda>r.
        case r of
          Some i \<Rightarrow>
            (let fs = mountedFS s i; s = s\<lparr>mountedFS := (mountedFS s)(i := 0)\<rparr>
             in bnd (release L_mountedfs s) (\<lambda>s. bnd (operator_delete fs s) (\<lambda>s. Inr (0, s))))
        | None \<Rightarrow> bnd (release L_mountedfs s) (\<lambda>s. Inr (- 1, s)))))))"

definition vfsinit :: "'a vfs_state_scheme \<Rightarrow> 'a vfs_state_scheme res" where
  "vfsinit s =
     (let s = s\<lparr>mountedFS := (\<lambda>i. if i < NFILESYSTEM then 0 else mountedFS s i)\<rparr>;
          s = s\<lparr>ram := clear_paths (fileTable s) NFILE (ram s),
                fileTable := (\<lambda>i. if i < NFILE then (clear_file (fileTable s i))\<lparr>f_type := FD_NONE\<rparr> else fileTable s i)\<rparr>;
          s = initlock L_filetable (addr_of s ''filetable'') 9 s;
          s = initlock L_mountedfs (addr_of s ''mount fs'') 8 s
      in bnd (vfsmount DEVFS (addr_of s ''/dev'') (addr_of s '''') s) (\<lambda>(_, s).
         bnd (vfsmount FAT32 (addr_of s ''/'') (addr_of s ''/dev/hda1'') s) (\<lambda>(_, s). Inr s)))"

section \<open>Files\<close>

text \<open>A virtual call through a null pointer.\<close>

definition virt :: "u64 \<Rightarrow> 'b res \<Rightarrow> 'b res" where
  "virt fs call = (if fs = 0 then null_deref else call)"

definition vfsopen :: "u64 \<Rightarrow> u64 \<Rightarrow> 'a vfs_state_scheme \<Rightarrow> (int \<times> 'a vfs_state_scheme) res" where
  "vfsopen filename flags s =
     (let path = addr_of s ''vfsopen.path''; s = zero_path path s in
      bnd (getAbPath filename path s) (\<lambda>s.
      bnd (vfsgetFs path s) (\<lambda>fs.
      bnd (allocFileHandle s) (\<lambda>(fp, s).
      bnd (virt fs (Inr (DeviceFS_open path flags fp s))) (\<lambda>(r, s).
        if r = - 1 then Inr (- 1, freeFileHandle fp s)
        else bnd (copy_string (f_path (fileTable s fp)) path s) (\<lambda>s.
          let s = upd_file fp (\<lambda>f. f\<lparr>f_readable := (if flags AND O_WRITEONLY = 0 then 1 else 0),
                    f_writable := (if flags AND O_WRITEONLY \<noteq> 0 \<or> flags AND O_RDWR \<noteq> 0 then 1 else 0)\<rparr>) s
          in registFileHandle fp (- 1) s))))))"

definition to_int :: "u64 \<Rightarrow> int" where
  "to_int w = sint (ucast w :: u32)"

definition vfsread_file ::
    "'a vfs_switch \<Rightarrow> nat option \<Rightarrow> int \<Rightarrow> u64 \<Rightarrow> u64 \<Rightarrow> u64 \<Rightarrow> 'a vfs_state_scheme \<Rightarrow> (u64 \<times> 'a vfs_state_scheme) res option" where
  "vfsread_file pswitch fp user dst n offset s =
     (case fp of None \<Rightarrow> Some (Inr (- 1, s))
      | Some fp \<Rightarrow>
          if f_readable (fileTable s fp) = 0 then Some (Inr (- 1, s))
          else opt_bnd (Some (vfsgetFs (f_path (fileTable s fp)) s)) (\<lambda>fs.
            let f = fileTable s fp in
            case f_type f of
              FD_PIPE \<Rightarrow>
                opt_bnd (piperead pswitch (addr_of s ''piperead.ch'') (f_pip f) dst (to_int n) s) (\<lambda>(r, s).
                  Some (Inr (word_of_int r, s)))
            | FD_DEVICE \<Rightarrow>
                opt_bnd (Some (virt fs (Inr ()))) (\<lambda>_.
                opt_bnd (DeviceFS_read pswitch (f_path f) user dst 0 (to_int n) s) (\<lambda>(r, s).
                  Some (Inr (word_of_int (to_int r), s))))
            | FD_ENTRY \<Rightarrow>
                opt_bnd (Some (virt fs (Inr ()))) (\<lambda>_.
                opt_bnd (DeviceFS_read pswitch (f_path f) user dst (to_int (f_position f)) (to_int n) s) (\<lambda>(r, s).
                  let r = word_of_int (to_int r) in
                  Some (Inr (r, upd_file fp (\<lambda>f. f\<lparr>f_position := f_position f + r\<rparr>) s))))
            | FD_NONE \<Rightarrow> Some (Inl (Panic ''vfsread''))))"

definition vfsread ::
    "'a vfs_switch \<Rightarrow> int \<Rightarrow> int \<Rightarrow> u64 \<Rightarrow> u64 \<Rightarrow> u64 \<Rightarrow> 'a vfs_state_scheme \<Rightarrow> (u64 \<times> 'a vfs_state_scheme) res option" where
  "vfsread pswitch fd user dst n offset s =
     opt_bnd (Some (getFileByFd fd s)) (\<lambda>(f, s).
       case f of None \<Rightarrow> Some (Inr (- 1, s))
       | Some g \<Rightarrow> if f_readable (fileTable s g) = 0 then Some (Inr (- 1, s))
                   else vfsread_file pswitch f user dst n offset s)"

text \<open>The count of \<open>pipewrite\<close> is not kept.\<close>

definition vfswrite_file ::
    "'a vfs_switch \<Rightarrow> nat option \<Rightarrow> int \<Rightarrow> u64 \<Rightarrow> u64 \<Rightarrow> u64 \<Rightarrow> 'a vfs_state_scheme \<Rightarrow> (u64 \<times> 'a vfs_state_scheme) res option" where
  "vfswrite_file pswitch fp user src n offset s =
     (case fp of None \<Rightarrow> Some (Inr (- 1, s))
      | Some fp \<Rightarrow>
          if f_writable (fileTable s fp) = 0 then Some (Inr (- 1, s))
          else opt_bnd (Some (vfsgetFs (f_path (fileTable s fp)) s)) (\<lambda>fs.
            let f = fileTable s fp in
            case f_type f of
              FD_PIPE \<Rightarrow>
                opt_bnd (pipewrite pswitch (addr_of s ''pipewrite.ch'') (f_pip f) src (to_int n) s) (\<lambda>(_, s).
                  Some (Inr (0, s)))
            | FD_DEVICE \<Rightarrow>
                opt_bnd (Some (virt fs (Inr ()))) (\<lambda>_.
                opt_bnd (DeviceFS_write pswitch (f_path f) user src 0 (to_int n) s) (\<lambda>(r, s).
                  Some (Inr (word_of_int (to_int r), s))))
            | FD_ENTRY \<Rightarrow>
                opt_bnd (Some (virt fs (Inr ()))) (\<lambda>_.
                opt_bnd (DeviceFS_write pswitch (f_path f) user src 0 (to_int n) s) (\<lambda>(r, s).
                  let r = word_of_int (to_int r) in
                  Some (Inr (r, upd_file fp (\<lambda>f. f
                    \<lparr>f_size := (if f_position f + r < f_size f then f_size f else f_position f + r),
                     f_position := f_position f + r\<rparr>) s))))
            | FD_NONE \<Rightarrow> Some (Inl (Panic ''vfswrite''))))"

definition vfswrite ::
    "'a vfs_switch \<Rightarrow> int \<Rightarrow> int \<Rightarrow> u64 \<Rightarrow> u64 \<Rightarrow> u64 \<Rightarrow> 'a vfs_state_scheme \<Rightarrow> (u64 \<times> 'a vfs_state_scheme) res option" where
  "vfswrite pswitch fd user src n offset s =
     opt_bnd (Some (getFileByFd fd s)) (\<lambda>(f, s).
       case f of None \<Rightarrow> Some (Inr (- 1, s))
       | Some g \<Rightarrow> if f_writable (fileTable s g) = 0 then Some (Inr (- 1, s))
                   else vfswrite_file pswitch f user src n offset s)"

text \<open>
  The path an operation at a directory works on. The path of the directory's file is followed without
  a test whether there is such a file.
\<close>

definition path_at :: "int \<Rightarrow> u64 \<Rightarrow> u64 \<Rightarrow> 'a vfs_state_scheme \<Rightarrow> 'a vfs_state_scheme res" where
  "path_at dirfd filepath path s =
     (let s = zero_path path s in
      if dirfd = AT_FDCWD then getAbPath filepath path s
      else if ram s filepath = 47 then copy_chars path filepath s
      else bnd (getFileByFd dirfd s) (\<lambda>(fp, s).
        case fp of None \<Rightarrow> null_deref
        | Some fp \<Rightarrow>
            let dir = f_path (fileTable s fp) in
            bnd (copy_chars path dir s) (\<lambda>s.
            bnd (len_at dir s) (\<lambda>n. copy_chars (path + word_of_nat n) filepath s))))"

text \<open>\<open>DeviceFS::mkdir\<close> is declared but has no body in the repository: it is an argument.\<close>

definition vfsmkdirat ::
    "(u64 \<Rightarrow> 'a vfs_state_scheme \<Rightarrow> (int \<times> 'a vfs_state_scheme) res) \<Rightarrow> int \<Rightarrow> u64 \<Rightarrow> 'a vfs_state_scheme
       \<Rightarrow> (int \<times> 'a vfs_state_scheme) res" where
  "vfsmkdirat mkdir dirfd filepath s =
     (let path = addr_of s ''vfsmkdirat.path'' in
      bnd (path_at dirfd filepath path s) (\<lambda>s.
      bnd (vfsgetFs path s) (\<lambda>fs. virt fs (mkdir path s))))"

text \<open>The path that was put together is not the one that is opened.\<close>

definition vfsopenat :: "int \<Rightarrow> u64 \<Rightarrow> int \<Rightarrow> 'a vfs_state_scheme \<Rightarrow> (int \<times> 'a vfs_state_scheme) res" where
  "vfsopenat dirfd filepath flags s =
     bnd (path_at dirfd filepath (addr_of s ''vfsopenat.path'') s) (\<lambda>s. vfsopen filepath (word_of_int flags) s)"

definition vfsrm :: "int \<Rightarrow> u64 \<Rightarrow> 'a vfs_state_scheme \<Rightarrow> (int \<times> 'a vfs_state_scheme) res" where
  "vfsrm dirfd filepath s =
     (let path = addr_of s ''vfsrm.path'' in
      bnd (path_at dirfd filepath path s) (\<lambda>s.
      bnd (vfsgetFs path s) (\<lambda>fs. virt fs (case DeviceFS_rm path s of (r, s) \<Rightarrow> Inr (to_int r, s)))))"

definition vfsls :: "int \<Rightarrow> u64 \<Rightarrow> int \<Rightarrow> int \<Rightarrow> 'a vfs_state_scheme \<Rightarrow> (u64 \<times> 'a vfs_state_scheme) res" where
  "vfsls fd buffer len user s =
     bnd (getFileByFd fd s) (\<lambda>(fp, s).
       case fp of None \<Rightarrow> Inr (- 1, s)
       | Some fp \<Rightarrow>
           if f_directory (fileTable s fp) = 0 then Inr (- 1, s)
           else let path = f_path (fileTable s fp) in
             bnd (vfsgetFs path s) (\<lambda>fs.
               virt fs (case DeviceFS_ls path buffer len user s of (r, s) \<Rightarrow> Inr (word_of_int r, s))))"

definition vfsmounts :: "u64 \<Rightarrow> u64 \<Rightarrow> 'a vfs_state_scheme \<Rightarrow> u64 \<times> 'a vfs_state_scheme" where
  "vfsmounts buffer sz s = (0, s)"

definition vfsdread ::
    "'a vfs_switch \<Rightarrow> u64 \<Rightarrow> u64 \<Rightarrow> u64 \<Rightarrow> u64 \<Rightarrow> 'a vfs_state_scheme \<Rightarrow> (u64 \<times> 'a vfs_state_scheme) res option" where
  "vfsdread pswitch path buffer count offset s =
     opt_bnd (Some (vfsgetFs path s)) (\<lambda>fs.
     opt_bnd (Some (virt fs (Inr ()))) (\<lambda>_.
     opt_bnd (DeviceFS_read pswitch path 0 buffer (to_int offset) (to_int count) s) (\<lambda>(r, s).
       Some (Inr (word_of_int (to_int r), s)))))"

definition vfsdwrite ::
    "'a vfs_switch \<Rightarrow> u64 \<Rightarrow> u64 \<Rightarrow> u64 \<Rightarrow> u64 \<Rightarrow> 'a vfs_state_scheme \<Rightarrow> (u64 \<times> 'a vfs_state_scheme) res option" where
  "vfsdwrite pswitch path buffer count offset s =
     opt_bnd (Some (vfsgetFs path s)) (\<lambda>fs.
     opt_bnd (Some (virt fs (Inr ()))) (\<lambda>_.
     opt_bnd (DeviceFS_write pswitch path 0 buffer (to_int offset) (to_int count) s) (\<lambda>(r, s).
       Some (Inr (word_of_int (to_int r), s)))))"

definition vfschdir :: "u64 \<Rightarrow> 'a vfs_state_scheme \<Rightarrow> (int \<times> 'a vfs_state_scheme) res" where
  "vfschdir filepath s =
     (let path = addr_of s ''vfschdir.path'' in
      bnd (curproc s) (\<lambda>(p, s).
      let s = zero_path path s in
      bnd (allocFileHandle s) (\<lambda>(fp, s).
      bnd (getAbPath filepath path s) (\<lambda>s.
      bnd (vfsgetFs path s) (\<lambda>fs.
      bnd (virt fs (Inr (DeviceFS_open path O_READONLY fp s))) (\<lambda>(r, s).
        if r < 0 then Inr (- 1, s)
        else if f_directory (fileTable s fp) = 0 then Inr (- 1, freeFileHandle fp s)
        else bnd (len_at path s) (\<lambda>n.
          let s = (if ram s (path + word_of_nat n - 1) \<noteq> 47
                   then s\<lparr>ram := (ram s)(path + word_of_nat n := 47, path + word_of_nat n + 1 := 0)\<rparr> else s) in
          case p of None \<Rightarrow> null_deref
          | Some p \<Rightarrow>
              bnd (acquire (L_proc p) s) (\<lambda>s.
              bnd (copy_string (p_workDir (procTable s p)) path s) (\<lambda>s.
              bnd (release (L_proc p) s) (\<lambda>s. Inr (0, freeFileHandle fp s)))))))))))"

text \<open>\<open>fds\<close> is the address of the two descriptors.\<close>

definition vfscreatePipe :: "u64 \<Rightarrow> 'a vfs_state_scheme \<Rightarrow> (int \<times> 'a vfs_state_scheme) res" where
  "vfscreatePipe fds s =
     bnd (allocFileHandle s) (\<lambda>(f0, s).
     bnd (allocFileHandle s) (\<lambda>(f1, s).
     bnd (operator_new 544 s) (\<lambda>(pi, s).
       if pi = 0 then null_deref
       else let s = pipe_new (addr_of s ''pipe'') pi f0 f1 s in
         bnd (registFileHandle f0 (- 1) s) (\<lambda>(fd0, s).
         bnd (registFileHandle f1 (- 1) s) (\<lambda>(fd1, s).
           let s = s\<lparr>ram := st32 (ram s) fds (word_of_int fd0)\<rparr>;
               s = s\<lparr>ram := st32 (ram s) (fds + 4) (word_of_int fd1)\<rparr>
           in Inr (0, s))))))"

section \<open>What paths resolve to\<close>

text \<open>The string \<open>cs\<close> as \<open>getAbPath\<close> takes it.\<close>

definition undotted :: "u8 list \<Rightarrow> u8 list" where
  "undotted cs = (if take 2 cs = [46, 47] then drop 2 cs else cs)"

lemma cstr_drop2:
  assumes "cstr m a cs" "take 2 cs = [x, y]"
  shows "cstr m (a + 2) (drop 2 cs)" "m a = x" "m (a + 1) = y"
proof -
  obtain r where "cs = x # y # r" using assms(2) by (cases cs; cases "tl cs") auto
  thus "cstr m (a + 2) (drop 2 cs)" "m a = x" "m (a + 1) = y" using assms(1) by (simp_all add: add.commute)
qed

lemma dotted_iff:
  assumes "cstr m a cs"
  shows "m a = 46 \<and> m (a + 1) = 47 \<longleftrightarrow> take 2 cs = [46, 47]"
proof
  assume "m a = 46 \<and> m (a + 1) = 47"
  with assms show "take 2 cs = [46, 47]" by (cases cs; cases "tl cs") auto
qed (use cstr_drop2 [OF assms] in auto)


text \<open>A string of fewer than 64 bytes copied over a zeroed array apart from it.\<close>

definition apart :: "u64 \<Rightarrow> nat \<Rightarrow> u64 \<Rightarrow> bool" where
  "apart a n b \<longleftrightarrow> (\<forall>k < n. 64 \<le> unat (a + word_of_nat k - b))"

lemma zero_path_ram: "ram (zero_path b s) x = (if unat (x - b) < 64 then 0 else ram s x)"
  by (simp add: zero_path_def memset_apply MAXPATH_def)

lemma cstr_apart:
  assumes "cstr m a cs" "apart a (Suc (length cs)) b" "\<And>x. 64 \<le> unat (x - b) \<Longrightarrow> m' x = m x"
  shows "cstr m' a cs"
proof (rule cstr_intro)
  show "m' (a + word_of_nat i) = cs ! i \<and> cs ! i \<noteq> 0" if "i < length cs" for i
    using that cstr_nth [OF assms(1) that] assms(2,3) by (simp add: apart_def)
  show "m' (a + word_of_nat (length cs)) = 0"
    using cstr_end [OF assms(1)] assms(2,3) by (simp add: apart_def)
qed

lemma copy_chars_zeroed:
  assumes "cstr (ram s) a cs" "length cs < 64" "unat a + 64 \<le> 2 ^ 64" "unat b + 64 \<le> 2 ^ 64"
    "\<And>x. unat (x - b) < 64 \<Longrightarrow> ram s x = 0" "apart a (Suc (length cs)) b"
  shows "\<exists>s'. copy_chars b a s = Inr s' \<and> cstr (ram s') b cs \<and> (\<forall>x. 64 \<le> unat (x - b) \<longrightarrow> ram s' x = ram s x)
     \<and> s' = s\<lparr>ram := ram s'\<rparr>"
proof -
  define m where "m = memcpy (ram s) b a (word_of_nat (length cs))"
  have l: "unat (word_of_nat (length cs) :: u32) = length cs" using assms(2) by (simp add: unat_of_nat)
  have m: "m x = (if unat (x - b) < length cs then ram s (a + (x - b)) else ram s x)" for x
    using memmove_apply [of a "word_of_nat (length cs)" b "ram s" x] assms(2-4) by (simp add: m_def memcpy_def l)
  have off: "unat (b + word_of_nat i - b) = i" if "i < 64" for i
    using that by (simp add: unat_of_nat)
  have "cstr m b cs"
  proof (rule cstr_intro)
    show "m (b + word_of_nat i) = cs ! i \<and> cs ! i \<noteq> 0" if "i < length cs" for i
      using that assms(2) cstr_nth [OF assms(1) that] off [of i] by (simp add: m)
    show "m (b + word_of_nat (length cs)) = 0"
      using assms(2) assms(5) [of "b + word_of_nat (length cs)"] off [of "length cs"] by (simp add: m)
  qed
  moreover have "\<forall>x. 64 \<le> unat (x - b) \<longrightarrow> m x = ram s x" using assms(2) by (auto simp: m)
  ultimately show ?thesis
    by (simp add: copy_chars_def len_at_def strlen_cstr [OF assms(1)] m_def)
qed

lemma curproc_masked: "quiet s \<Longrightarrow> curproc s = Inr (cproc (curcpu s), masked s)"
  by (simp add: curproc_noff0 quiet_def masked_def)

lemma depth_vfs [simp]: "depth (zero_path a s) = depth s" "depth (masked s) = depth s"
  by (simp_all add: zero_path_def depth_def masked_def hart_defs)

lemma copy_chars_depth: "copy_chars d a s = Inr s' \<Longrightarrow> depth s' = depth s"
  by (auto simp: copy_chars_def len_at_def res_simps split: option.splits)

text \<open>The relative branch always stops.\<close>

lemma relative_path_stops:
  assumes "depth s = 0"
  shows "\<exists>e. relative_path p oldpath newpath s = Inl e"
proof (rule ccontr)
  assume "\<nexists>e. relative_path p oldpath newpath s = Inl e"
  then obtain r where "relative_path p oldpath newpath s = Inr r" by (cases "relative_path p oldpath newpath s") auto
  then obtain q s0 s1 s2 s3 z where *: "myproc s = Inr (q, s0)" "acquire (L_proc q) s0 = Inr s1"
      "copy_chars newpath z s1 = Inr s2" "\<exists>n a. copy_chars (newpath + word_of_nat n) a s2 = Inr s3"
      "\<exists>x. myproc s3 = Inr x"
    unfolding relative_path_def Let_def by (force simp: res_simps null_deref_def split: option.splits)
  have "depth s2 = 1"
    using copy_chars_depth [OF *(3)] acquire_depth [OF *(2)] myproc_depth [OF *(1)] assms by simp
  moreover obtain n a where "copy_chars (newpath + word_of_nat n) a s2 = Inr s3" using *(4) by blast
  ultimately have "depth s3 = 1" using copy_chars_depth by metis
  thus False using *(5) by (simp add: myproc_nested)
qed

text \<open>from a hart that holds no lock, \<open>getAbPath\<close> on a path that is absolute after a leading \<open>./\<close> leaves
  in the new array exactly that string and changes no other memory; on every relative path it stops
  the kernel, because it asks for the current process again under that process's lock: no relative path
  is ever resolved.\<close>

theorem getAbPath_spec:
  assumes "quiet s" "cstr (ram s) path cs" "length cs < 64" "unat path + 66 \<le> 2 ^ 64" "unat newpath + 64 \<le> 2 ^ 64"
    "apart path (Suc (length cs)) newpath"
  shows "if undotted cs \<noteq> [] \<and> hd (undotted cs) = 47
    then \<exists>s'. getAbPath path newpath s = Inr s' \<and> cstr (ram s') newpath (undotted cs)
           \<and> (\<forall>x. 64 \<le> unat (x - newpath) \<longrightarrow> ram s' x = ram s x)
    else \<exists>e. getAbPath path newpath s = Inl e"
proof -
  define t where "t = zero_path newpath (masked s)"
  have tr: "ram t x = (if unat (x - newpath) < 64 then 0 else ram s x)" for x by (simp add: t_def zero_path_ram)
  have c: "cstr (ram t) path cs" using assms(2,6) by (rule cstr_apart) (simp add: tr)
  define d where "d = (take 2 cs = [46, 47])"
  define old where "old = (if d then path + 2 else path)"
  have dd: "ram t path = 46 \<and> ram t (path + 1) = 47 \<longleftrightarrow> d" using dotted_iff [OF c] by (simp add: d_def)
  have co: "cstr (ram t) old (undotted cs)"
    using c cstr_drop2 [OF c, of 46 47] by (auto simp: old_def d_def undotted_def)
  have h: "ram t old = 47 \<longleftrightarrow> undotted cs \<noteq> [] \<and> hd (undotted cs) = 47"
    using co by (cases "undotted cs") auto
  show ?thesis
  proof (cases "ram t old = 47")
    case False
    have "depth t = 0" using assms(1) by (simp add: t_def) (simp add: quiet_def depth_def)
    hence "\<exists>e. relative_path (cproc (curcpu s)) old newpath t = Inl e" by (rule relative_path_stops)
    moreover have "getAbPath path newpath s = relative_path (cproc (curcpu s)) old newpath t"
      using False dd by (simp add: getAbPath_def curproc_masked [OF assms(1)] Let_def t_def [symmetric] old_def)
    ultimately show ?thesis using h False by auto
  next
    case True
    have "apart old (Suc (length (undotted cs))) newpath"
      unfolding apart_def
    proof (intro allI impI)
      fix k assume k: "k < Suc (length (undotted cs))"
      show "64 \<le> unat (old + word_of_nat k - newpath)"
      proof (cases d)
        case True
        hence t2: "take 2 cs = [46, 47]" by (simp add: d_def)
        have "length (take 2 cs) = 2" unfolding t2 by simp
        hence "2 \<le> length cs" by simp
        hence "length (undotted cs) + 2 = length cs" using t2 by (simp add: undotted_def)
        hence "k + 2 < Suc (length cs)" using k by simp
        moreover have "old + word_of_nat k = path + word_of_nat (k + 2)" using True by (simp add: old_def add_ac)
        ultimately show ?thesis using assms(6) unfolding apart_def by metis
      qed (use assms(6) k in \<open>simp add: apart_def undotted_def d_def old_def\<close>)
    qed
    moreover have "length (undotted cs) < 64" using assms(3) by (auto simp: undotted_def)
    moreover have "unat old + 64 \<le> 2 ^ 64"
    proof -
      have "unat (path + 2) \<le> unat path + 2" using unat_word_ariths(1) [of path 2] by simp
      thus ?thesis using assms(4) by (simp add: old_def)
    qed
    ultimately obtain s' where s': "copy_chars newpath old t = Inr s'" "cstr (ram s') newpath (undotted cs)"
        "\<forall>x. 64 \<le> unat (x - newpath) \<longrightarrow> ram s' x = ram t x"
      using copy_chars_zeroed [OF co, of newpath] assms(5) tr by auto
    have "getAbPath path newpath s = copy_chars newpath old t"
      using True dd by (simp add: getAbPath_def curproc_masked [OF assms(1)] Let_def t_def [symmetric] old_def)
    thus ?thesis using s' True h tr by auto
  qed
qed


section \<open>The raw devices\<close>

lemma sdcard_stops:
  assumes "0 \<le> depth s"
  shows "\<exists>e. sdcard_read_sector pswitch buf k s = Some (Inl e)" "\<exists>e. sdcard_write_sector pswitch buf k s = Some (Inl e)"
proof -
  obtain e where "acquiresleep pswitch sdcard_lock s = Some (Inl e)" using acquiresleep_stops [OF assms] by blast
  then show "\<exists>e. sdcard_read_sector pswitch buf k s = Some (Inl e)" "\<exists>e. sdcard_write_sector pswitch buf k s = Some (Inl e)"
    by (simp_all add: sdcard_read_sector_def sdcard_write_sector_def Let_def opt_bnd_def)
qed

lemma device_stops:
  assumes "0 \<le> depth s" "0 < n"
  shows "\<exists>e. DeviceFS_read pswitch path user buf offset n s = Some (Inl e)"
    "\<exists>e. DeviceFS_write pswitch path user buf offset n s = Some (Inl e)"
proof -
  show "\<exists>e. DeviceFS_read pswitch path user buf offset n s = Some (Inl e)"
  proof (cases "len_at path s")
    case (Inr L)
    obtain e1 where e1: "consoleread pswitch (addr_of s ''consoleread.c'') buf user n s = Some (Inl e1)"
      using console_calls_stop_at [OF assms, of pswitch "addr_of s ''consoleread.c''" buf user] by blast
    obtain e2 where e2: "sdcard_read_sector pswitch buf (offset sdiv 512) s = Some (Inl e2)" using sdcard_stops [OF assms(1)] by blast
    show ?thesis by (simp add: DeviceFS_read_def Inr opt_bnd_def e1 e2 split: dev_kind.split)
  qed (simp add: DeviceFS_read_def opt_bnd_def)
  show "\<exists>e. DeviceFS_write pswitch path user buf offset n s = Some (Inl e)"
  proof (cases "len_at path s")
    case (Inr L)
    obtain e1 where e1: "consolewrite (addr_of s ''consolewrite.c'') buf user n s = Inl e1"
      using console_calls_stop_at [OF assms, where cp = "addr_of s ''consolewrite.c''" and src = buf and user = user] by blast
    obtain e2 where e2: "sdcard_write_sector pswitch buf (offset sdiv 512) s = Some (Inl e2)" using sdcard_stops [OF assms(1)] by blast
    show ?thesis by (simp add: DeviceFS_write_def Inr opt_bnd_def e1 e2 split: dev_kind.split)
  qed (simp add: DeviceFS_write_def opt_bnd_def)
qed

lemma vfsd_stops_at:
  assumes "0 \<le> depth s" "0 < to_int count"
  shows "\<exists>e. vfsdread pswitch path buffer count offset s = Some (Inl e)"
    "\<exists>e. vfsdwrite pswitch path buffer count offset s = Some (Inl e)"
proof -
  obtain e1 where e1: "DeviceFS_read pswitch path 0 buffer (to_int offset) (to_int count) s = Some (Inl e1)"
    using device_stops(1) [OF assms] by blast
  obtain e2 where e2: "DeviceFS_write pswitch path 0 buffer (to_int offset) (to_int count) s = Some (Inl e2)"
    using device_stops(2) [OF assms] by blast
  show "\<exists>e. vfsdread pswitch path buffer count offset s = Some (Inl e)"
    "\<exists>e. vfsdwrite pswitch path buffer count offset s = Some (Inl e)"
    by (auto simp: vfsdread_def vfsdwrite_def opt_bnd_def e1 e2 split: sum.split)
qed

text \<open>C35: no byte ever comes from or goes to a device: whatever the path, the buffer and the offset, a raw read or
  write of one byte or more never returns. A path of the console ends in its read or write, one of the card in
  the sleep lock of the card, and any other panics.\<close>

theorem raw_devices_stop:
  assumes "0 \<le> depth s" "0 < to_int count"
  shows "(\<exists>e. vfsdread pswitch path buffer count offset s = Some (Inl e))
    \<and> (\<exists>e. vfsdwrite pswitch path buffer count offset s = Some (Inl e))"
  using vfsd_stops_at [OF assms] by blast


section \<open>The longest mounted prefix\<close>

lemma mount_match_spec:
  "cstr m mp cs \<Longrightarrow> m (fp + word_of_nat i) \<noteq> 0 \<Longrightarrow> j \<le> length cs \<Longrightarrow>
   mount_match m mp fp i j = Some (\<forall>k < length cs. j \<le> k \<longrightarrow> cs ! k = m (fp + word_of_nat k))"
proof (induction "length cs - j" arbitrary: j)
  case 0
  hence j: "j = length cs" by simp
  thus ?case using cstr_end [OF 0(2)] by (subst mount_match.simps) auto
next
  case (Suc d)
  hence l: "j < length cs" by simp
  note c = cstr_nth [OF Suc.prems(1) l]
  have ih: "mount_match m mp fp i (Suc j) = Some (\<forall>k < length cs. Suc j \<le> k \<longrightarrow> cs ! k = m (fp + word_of_nat k))"
    by (rule Suc.hyps(1)) (use Suc l in simp_all)
  have s: "(\<forall>k < length cs. j \<le> k \<longrightarrow> P k) \<longleftrightarrow> P j \<and> (\<forall>k < length cs. Suc j \<le> k \<longrightarrow> P k)" for P
    using l by (metis Suc_leD le_less_Suc_eq not_less_eq_eq order_le_less)
  show ?case
  proof (subst mount_match.simps, cases "cs ! j = m (fp + word_of_nat j)")
    case True
    thus "(if m (mp + word_of_nat j) \<noteq> 0 \<and> m (fp + word_of_nat i) \<noteq> 0 then
        if m (mp + word_of_nat j) \<noteq> m (fp + word_of_nat j) then Some False else mount_match m mp fp i (Suc j)
      else Some True) = Some (\<forall>k < length cs. j \<le> k \<longrightarrow> cs ! k = m (fp + word_of_nat k))"
      using c Suc.prems(2) by (subst s) (simp add: ih)
  next
    case False
    thus "(if m (mp + word_of_nat j) \<noteq> 0 \<and> m (fp + word_of_nat i) \<noteq> 0 then
        if m (mp + word_of_nat j) \<noteq> m (fp + word_of_nat j) then Some False else mount_match m mp fp i (Suc j)
      else Some True) = Some (\<forall>k < length cs. j \<le> k \<longrightarrow> cs ! k = m (fp + word_of_nat k))"
      using c Suc.prems(2) by (subst s) simp
  qed
qed

text \<open>Slot \<open>i\<close> holds a file system mounted, under a name that is not empty, at a prefix of the path.\<close>

definition mounted_prefix :: "(nat \<Rightarrow> u8 list) \<Rightarrow> u64 \<Rightarrow> 'a vfs_state_scheme \<Rightarrow> nat \<Rightarrow> bool" where
  "mounted_prefix mp path s i \<longleftrightarrow> mountedFS s i \<noteq> 0 \<and> mp i \<noteq> []
     \<and> (\<forall>k < length (mp i). mp i ! k = ram s (path + word_of_nat k))"

definition best_so_far :: "(nat \<Rightarrow> u8 list) \<Rightarrow> u64 \<Rightarrow> 'a vfs_state_scheme \<Rightarrow> nat \<Rightarrow> nat \<Rightarrow> nat \<Rightarrow> bool" where
  "best_so_far mp path s i b l \<longleftrightarrow>
     (if l = 0 then b = 0 \<and> (\<forall>k < i. \<not> mounted_prefix mp path s k)
      else b < i \<and> mounted_prefix mp path s b \<and> length (mp b) = l
        \<and> (\<forall>k < i. mounted_prefix mp path s k \<longrightarrow> length (mp k) \<le> l)
        \<and> (\<forall>k < b. mounted_prefix mp path s k \<longrightarrow> length (mp k) < l))"

lemma best_mount_spec:
  assumes "\<forall>i < N. mountedFS s i \<noteq> 0 \<longrightarrow> cstr (ram s) (mountPos (mountedFS s i)) (mp i)"
    "\<forall>i < N. ram s (path + word_of_nat i) \<noteq> 0"
  shows "i + n = N \<Longrightarrow> best_so_far mp path s i b l \<Longrightarrow>
    \<exists>b' l'. best_mount path n i b l s = Inr b' \<and> best_so_far mp path s N b' l'"
proof (induction n arbitrary: i b l)
  case 0
  thus ?case by auto
next
  case (Suc n)
  have iN: "i < N" using Suc.prems(1) by simp
  have step: "\<exists>b' l'. best_mount path n (Suc i) b1 l1 s = Inr b' \<and> best_so_far mp path s N b' l'"
    if "best_so_far mp path s (Suc i) b1 l1" for b1 l1
    by (rule Suc.IH [OF _ that]) (use Suc.prems(1) in simp)
  have skip: "best_so_far mp path s (Suc i) b l" if "\<not> mounted_prefix mp path s i \<or> length (mp i) \<le> l \<and> l \<noteq> 0"
    using Suc.prems(2) that by (auto simp: best_so_far_def less_Suc_eq)
  show ?case
  proof (cases "mountedFS s i = 0")
    case True
    thus ?thesis using step [OF skip] by (simp add: mounted_prefix_def)
  next
    case False
    hence c: "cstr (ram s) (mountPos (mountedFS s i)) (mp i)" using assms(1) iN by blast
    have mm: "mount_match (ram s) (mountPos (mountedFS s i)) path i 0
        = Some (\<forall>k < length (mp i). mp i ! k = ram s (path + word_of_nat k))"
      using mount_match_spec [OF c, of path i 0] assms(2) iN by simp
    have ln: "len_at (mountPos (mountedFS s i)) s = Inr (length (mp i))" by (simp add: len_at_def strlen_cstr [OF c])
    show ?thesis
    proof (cases "(\<forall>k < length (mp i). mp i ! k = ram s (path + word_of_nat k)) \<and> l < length (mp i)")
      case True
      hence "best_so_far mp path s (Suc i) i (length (mp i))"
        using Suc.prems(2) False
        by (auto simp: best_so_far_def less_Suc_eq mounted_prefix_def [of _ _ _ i] split: if_splits)
      thus ?thesis using step True False mm ln by simp
    next
      case no: False
      hence "\<not> mounted_prefix mp path s i \<or> length (mp i) \<le> l \<and> l \<noteq> 0"
        by (auto simp: mounted_prefix_def)
      thus ?thesis using step [OF skip] no False mm ln by auto
    qed
  qed
qed

text \<open>C34: for a path of at least five characters \<open>vfsgetFs\<close> returns the file system mounted at the longest
  prefix of the path, the first of those in the table, and that of slot 0 when none is a prefix.
  (On a shorter path every mount point in a slot past its length counts as a match.)\<close>

theorem vfsgetFs_longest_prefix:
  assumes "\<forall>i < NFILESYSTEM. mountedFS s i \<noteq> 0 \<longrightarrow> cstr (ram s) (mountPos (mountedFS s i)) (mp i)"
    "\<forall>i < NFILESYSTEM. ram s (path + word_of_nat i) \<noteq> 0"
  shows "\<exists>b. vfsgetFs path s = Inr (mountedFS s b) \<and>
    (if \<exists>i < NFILESYSTEM. mounted_prefix mp path s i
     then b < NFILESYSTEM \<and> mounted_prefix mp path s b
        \<and> (\<forall>i < NFILESYSTEM. mounted_prefix mp path s i \<longrightarrow> length (mp i) \<le> length (mp b))
        \<and> (\<forall>i < b. mounted_prefix mp path s i \<longrightarrow> length (mp i) < length (mp b))
     else b = 0)"
proof -
  have "best_so_far mp path s 0 0 0" by (simp add: best_so_far_def)
  from best_mount_spec [OF assms, of 0 NFILESYSTEM, OF _ this] obtain b l
    where "best_mount path NFILESYSTEM 0 0 0 s = Inr b" "best_so_far mp path s NFILESYSTEM b l" by auto
  thus ?thesis by (auto simp: vfsgetFs_def best_so_far_def split: if_splits)
qed

text \<open>\<open>cd\<close> never succeeds: whatever the path, when \<open>vfschdir\<close> returns, it returns -1, because the device file
  system, the only one ever mounted, opens nothing as a directory.\<close>

theorem vfschdir_fails:
  "(\<exists>e. vfschdir filepath s = Inl e) \<or> (\<exists>s'. vfschdir filepath s = Inr (- 1, s'))"
proof (cases "vfschdir filepath s")
  case (Inr x)
  hence "fst x = - 1"
    by (cases x) (auto simp: vfschdir_def Let_def res_simps virt_def null_deref_def DeviceFS_open_def upd_file_def split: if_splits)
  thus ?thesis using Inr by (cases x) simp
qed simp

text \<open>
  A machine with two file systems mounted, at \<open>/dev\<close> in slot 0 and at \<open>/\<close> in slot 1, and the string \<open>/dev/t\<close> at
  \<open>0x80600000\<close>.
\<close>

definition vfs_mem :: mem where
  "vfs_mem = (\<lambda>_. 0)(0x80600000 := 47, 0x80600001 := 100, 0x80600002 := 101, 0x80600003 := 118, 0x80600004 := 47,
     0x80600005 := 116, 0x80601008 := 47, 0x80601009 := 100, 0x8060100A := 101, 0x8060100B := 118,
     0x80602008 := 47)"

definition vfs_machine :: vfs_state where
  "vfs_machine = bio_state.extend (bio_machine\<lparr>ram := vfs_mem\<rparr>)
     (vfs_state.fields (\<lambda>i. if i = 0 then 0x80601000 else if i = 1 then 0x80602000 else 0) (\<lambda>_. 0x80603000))"

lemma vfs_machine_fields:
  "ram vfs_machine = vfs_mem" "quiet vfs_machine"
  "mountedFS vfs_machine = (\<lambda>i. if i = 0 then 0x80601000 else if i = 1 then 0x80602000 else 0)"
  by (simp_all add: vfs_machine_def bio_machine_def sd_machine_def console_state.defs sd_state.defs bio_state.defs vfs_state.defs
      console_hart_def pipe_state.defs pipe_hart_def sleep_state.defs sleepy_def proc_state.defs one_proc_def quiet_def hart_defs)

lemma vfs_mem_path: "cstr vfs_mem 0x80600000 [47, 100, 101, 118, 47, 116]"
  by (simp add: vfs_mem_def)

theorem getAbPath_spec_witness:
  "\<exists>s'. getAbPath 0x80600000 0x80700000 vfs_machine = Inr s' \<and> cstr (ram s') 0x80700000 [47, 100, 101, 118, 47, 116]"
proof -
  have "apart 0x80600000 (Suc (length [47 :: u8, 100, 101, 118, 47, 116])) 0x80700000" unfolding apart_def all_less_upt by (simp add: upt_rec)
  thus ?thesis
    using getAbPath_spec [of vfs_machine "0x80600000" "[47, 100, 101, 118, 47, 116]" "0x80700000"] vfs_mem_path
    by (auto simp: vfs_machine_fields undotted_def)
qed

theorem vfsgetFs_longest_prefix_witness: "vfsgetFs 0x80600000 vfs_machine = Inr 0x80601000"
proof -
  define mp :: "nat \<Rightarrow> u8 list" where "mp = (\<lambda>i. if i = 0 then [47, 100, 101, 118] else [47])"
  have m: "mounted_prefix mp 0x80600000 vfs_machine i \<longleftrightarrow> i = 0 \<or> i = 1" for i
    unfolding mounted_prefix_def all_less_upt mp_def vfs_machine_fields
    by (simp add: upt_rec vfs_mem_def)
  have h: "\<forall>i < NFILESYSTEM. mountedFS vfs_machine i \<noteq> 0 \<longrightarrow> cstr (ram vfs_machine) (mountPos (mountedFS vfs_machine i)) (mp i)"
    by (simp add: vfs_machine_fields mp_def mountPos_def vfs_mem_def)
  have n: "\<forall>i < NFILESYSTEM. ram vfs_machine (0x80600000 + word_of_nat i) \<noteq> 0"
    unfolding NFILESYSTEM_def all_less_upt vfs_machine_fields by (simp add: upt_rec vfs_mem_def)
  from vfsgetFs_longest_prefix [OF h n] obtain b where b: "vfsgetFs 0x80600000 vfs_machine = Inr (mountedFS vfs_machine b)"
      "if \<exists>i < NFILESYSTEM. i = 0 \<or> i = 1
       then b < NFILESYSTEM \<and> (b = 0 \<or> b = 1) \<and> (\<forall>i < NFILESYSTEM. i = 0 \<or> i = 1 \<longrightarrow> length (mp i) \<le> length (mp b))
          \<and> (\<forall>i < b. i = 0 \<or> i = 1 \<longrightarrow> length (mp i) < length (mp b))
       else b = 0"
    unfolding m by blast
  have "b = 0" using b(2) by (auto simp: mp_def NFILESYSTEM_def split: if_splits)
  thus ?thesis using b(1) by (simp add: vfs_machine_fields)
qed

theorem raw_devices_stop_witness:
  "(\<exists>e. vfsdread (\<lambda>_ _ s. Inr s) 0x80600000 0x80700000 512 1024 vfs_machine = Some (Inl e))
   \<and> (\<exists>e. vfsdwrite (\<lambda>_ _ s. Inr s) 0x80600000 0x80700000 512 1024 vfs_machine = Some (Inl e))"
proof -
  have "0 \<le> depth vfs_machine" using vfs_machine_fields(2) by (simp add: quiet_def depth_def)
  then show ?thesis using raw_devices_stop [of vfs_machine 512] by (simp add: to_int_def)
qed

end
