(* ===== verification/Exec.thy ===== *)
theory Exec
  imports Vfs
begin

text \<open>
  Loading a program, \<open>proc/exec.cpp\<close>, and ending a process, \<open>exit\<close> of \<open>proc/proc.cpp\<close>: the two operations of
  processes that need the file systems.
\<close>

section \<open>Exit\<close>

text \<open>\<open>PGROUNDUP(length) / PGSIZE\<close> of an \<open>int\<close>, as the \<open>uint64\<close> it is passed as.\<close>

definition area_pages :: "u32 \<Rightarrow> u64" where
  "area_pages len = word_of_int (sint ((len + 4095) AND NOT 4095) sdiv 4096)"

fun exit_files :: "nat \<Rightarrow> nat \<Rightarrow> nat \<Rightarrow> 'a vfs_state_scheme \<Rightarrow> 'a vfs_state_scheme" where
  "exit_files p 0 fd s = s"
| "exit_files p (Suc n) fd s =
     exit_files p n (Suc fd)
       (case p_ofile (procTable s p) fd of
          None \<Rightarrow> s
        | Some f \<Rightarrow> upd_proc p (\<lambda>q. q\<lparr>p_ofile := (p_ofile q)(fd := None)\<rparr>) (vfsclose (Some f) s))"

fun exit_children :: "nat \<Rightarrow> nat \<Rightarrow> nat \<Rightarrow> 'a vfs_state_scheme \<Rightarrow> 'a vfs_state_scheme" where
  "exit_children p 0 c s = s"
| "exit_children p (Suc n) c s =
     exit_children p n (Suc c)
       (if p_parent (procTable s c) = Some p then upd_proc c (\<lambda>q. q\<lparr>p_parent := initproc s\<rparr>) s else s)"

text \<open>One area of the process: a shared one is written back from the start of its file.\<close>

definition exit_area :: "'a vfs_switch \<Rightarrow> nat \<Rightarrow> nat \<Rightarrow> 'a vfs_state_scheme \<Rightarrow> 'a vfs_state_scheme res option" where
  "exit_area pswitch p v s =
     opt_bnd (if v_flag (vmas s v) AND 1 \<noteq> 0 then
                (case v_f (vmas s v) of
                   None \<Rightarrow> Some null_deref
                 | Some f \<Rightarrow>
                     opt_bnd (Some (vfsrewind f s)) (\<lambda>(_, s).
                     opt_bnd (vfswrite_file pswitch (v_f (vmas s v)) 1 (v_addr (vmas s v)) (scast (v_length (vmas s v))) 0 s)
                       (\<lambda>(_, s). Some (Inr s))))
              else Some (Inr s)) (\<lambda>s.
     opt_bnd (Some (vmunmap (p_pagetable (procTable s p)) (v_addr (vmas s v)) (area_pages (v_length (vmas s v))) False s)) (\<lambda>s.
       Some (Inr (freeVma v (vfsclose (v_f (vmas s v)) s)))))"

fun exit_areas :: "'a vfs_switch \<Rightarrow> nat \<Rightarrow> nat \<Rightarrow> nat \<Rightarrow> 'a vfs_state_scheme \<Rightarrow> 'a vfs_state_scheme res option" where
  "exit_areas pswitch p 0 i s = Some (Inr s)"
| "exit_areas pswitch p (Suc n) i s =
     opt_bnd (case p_vma (procTable s p) i of None \<Rightarrow> Some (Inr s) | Some v \<Rightarrow> exit_area pswitch p v s)
       (exit_areas pswitch p n (Suc i))"

text \<open>The call never returns: its outcome is why.\<close>

definition exit :: "'a vfs_switch \<Rightarrow> int \<Rightarrow> 'a vfs_state_scheme \<Rightarrow> 'b res option" where
  "exit pswitch status s =
     opt_bnd (Some (myproc s)) (\<lambda>(p, s).
     let s = exit_files p NOFILE 0 s;
         s = zero_path (p_workDir (procTable s p)) s;
         s = exit_children p NPROC 0 s
     in opt_bnd (exit_areas pswitch p NOMMAPFILE 0 s) (\<lambda>s.
        let s = upd_proc p (\<lambda>q. q\<lparr>p_state := ZOMBIE, p_xstate := word_of_int status\<rparr>) s;
            s = wakeup (proc_chan (p_parent (procTable s p))) s
        in opt_bnd (Some (acquire (L_proc p) s)) (\<lambda>s.
           opt_bnd (Some (prepareSched pswitch s)) (\<lambda>s. Some (Inl (Panic ''exit''))))))"

section \<open>Exec\<close>

text \<open>Fields of \<open>struct elfhdr\<close> (64 bytes) and \<open>struct prohdr\<close> (56 bytes) by their offsets (libs/elf.h).\<close>

definition ELF_MAGIC :: u32 where "ELF_MAGIC = 0x464C457F"
definition ELF_PROG_LOAD :: u32 where "ELF_PROG_LOAD = 1"

definition elf_magic :: "mem \<Rightarrow> u64 \<Rightarrow> u32" where "elf_magic m e = ld32 m e"
definition elf_entry :: "mem \<Rightarrow> u64 \<Rightarrow> u64" where "elf_entry m e = ld64 m (e + 24)"
definition elf_phoff :: "mem \<Rightarrow> u64 \<Rightarrow> u64" where "elf_phoff m e = ld64 m (e + 32)"
definition elf_phnum :: "mem \<Rightarrow> u64 \<Rightarrow> nat" where "elf_phnum m e = ldn 2 m (e + 56)"

definition ph_type :: "mem \<Rightarrow> u64 \<Rightarrow> u32" where "ph_type m h = ld32 m h"
definition ph_off :: "mem \<Rightarrow> u64 \<Rightarrow> u64" where "ph_off m h = ld64 m (h + 8)"
definition ph_vaddr :: "mem \<Rightarrow> u64 \<Rightarrow> u64" where "ph_vaddr m h = ld64 m (h + 16)"
definition ph_filesz :: "mem \<Rightarrow> u64 \<Rightarrow> u64" where "ph_filesz m h = ld64 m (h + 32)"
definition ph_memsz :: "mem \<Rightarrow> u64 \<Rightarrow> u64" where "ph_memsz m h = ld64 m (h + 40)"

partial_function (option) loadseg_loop ::
    "'a vfs_switch \<Rightarrow> u64 \<Rightarrow> u64 \<Rightarrow> u64 \<Rightarrow> u32 \<Rightarrow> u32 \<Rightarrow> u32 \<Rightarrow> 'a vfs_state_scheme \<Rightarrow> (int \<times> 'a vfs_state_scheme) res option"
where
  "loadseg_loop pswitch pagetable va path offset sz i s =
     (if i < sz then
        (case walkaddr pagetable (va + ucast i) s of
           Inl e \<Rightarrow> Some (Inl e)
         | Inr (pa, s) \<Rightarrow>
             if pa = 0 then Some (Inl (Panic ''loadseg: address should exist''))
             else let n = (if sz - i < 4096 then sz - i else 4096) in
               (case vfsdread pswitch path pa (ucast n) (ucast (offset + i)) s of
                  None \<Rightarrow> None
                | Some (Inl e) \<Rightarrow> Some (Inl e)
                | Some (Inr (r, s)) \<Rightarrow>
                    if r \<noteq> ucast n then Some (Inr (- 1, s))
                    else loadseg_loop pswitch pagetable va path offset sz (i + 4096) s))
      else Some (Inr (0, s)))"

definition loadseg ::
    "'a vfs_switch \<Rightarrow> u64 \<Rightarrow> u64 \<Rightarrow> u64 \<Rightarrow> u32 \<Rightarrow> u32 \<Rightarrow> 'a vfs_state_scheme \<Rightarrow> (int \<times> 'a vfs_state_scheme) res option" where
  "loadseg pswitch pagetable va path offset sz s =
     (if va mod PGSIZE \<noteq> 0 then Some (Inl (Panic ''loadseg: va must be page aligned''))
      else loadseg_loop pswitch pagetable va path offset sz 0 s)"

text \<open>
  The page table of the new image is never allocated: it is the null pointer, and what is read and written through
  it is the memory at address 0, as in every operation of \<open>Vm\<close>; that the kernel maps nothing there is not
  modelled.
\<close>

text \<open>The segments; \<open>Inl\<close> a jump to \<open>bad\<close>, \<open>Inr\<close> the size reached. \<open>off\<close> is an \<open>int\<close>.\<close>

fun exec_segments ::
    "'a vfs_switch \<Rightarrow> u64 \<Rightarrow> u64 \<Rightarrow> u64 \<Rightarrow> u64 \<Rightarrow> nat \<Rightarrow> u32 \<Rightarrow> u64 \<Rightarrow> 'a vfs_state_scheme
       \<Rightarrow> ((unit + u64) \<times> 'a vfs_state_scheme) res option" where
  "exec_segments pswitch pagetable kpagetable path ph 0 off sz s = Some (Inr (Inr sz, s))"
| "exec_segments pswitch pagetable kpagetable path ph (Suc n) off sz s =
     opt_bnd (vfsdread pswitch path ph 56 (scast off) s) (\<lambda>(r, s).
       if r \<noteq> 56 then Some (Inr (Inl (), s))
       else if ph_type (ram s) ph \<noteq> ELF_PROG_LOAD then
         exec_segments pswitch pagetable kpagetable path ph n (off + 56) sz s
       else if ph_memsz (ram s) ph < ph_filesz (ram s) ph then Some (Inr (Inl (), s))
       else if ph_vaddr (ram s) ph + ph_memsz (ram s) ph < ph_vaddr (ram s) ph then Some (Inr (Inl (), s))
       else opt_bnd (Some (Uvmalloc pagetable kpagetable sz (ph_vaddr (ram s) ph + ph_memsz (ram s) ph) s)) (\<lambda>(sz1, s).
         if sz1 = 0 then Some (Inr (Inl (), s))
         else if ph_vaddr (ram s) ph mod PGSIZE \<noteq> 0 then Some (Inr (Inl (), s))
         else opt_bnd (loadseg pswitch pagetable (ph_vaddr (ram s) ph) path (ucast (ph_off (ram s) ph)) (ucast (ph_filesz (ram s) ph)) s)
           (\<lambda>(r, s). if r < 0 then Some (Inr (Inl (), s))
                     else exec_segments pswitch pagetable kpagetable path ph n (off + 56) sz1 s)))"

text \<open>
  The argument strings, from number \<open>argc\<close> on with \<open>n\<close> left before the limit; \<open>None\<close> a jump to \<open>bad\<close>, else the
  number of arguments and the stack pointer.
\<close>

fun exec_args ::
    "u64 \<Rightarrow> u64 \<Rightarrow> u64 \<Rightarrow> u64 \<Rightarrow> nat \<Rightarrow> nat \<Rightarrow> u64 \<Rightarrow> 'a vfs_state_scheme \<Rightarrow> ((nat \<times> u64) option \<times> 'a vfs_state_scheme) res" where
  "exec_args pagetable argv ustack stackbase n argc sp s =
     (let arg = ld64 (ram s) (argv + 8 * word_of_nat argc) in
      if arg = 0 then Inr (Some (argc, sp), s)
      else case n of
        0 \<Rightarrow> Inr (None, s)
      | Suc n \<Rightarrow>
          bnd (len_at arg s) (\<lambda>len.
            let sp = sp - word_of_nat (len + 1); sp = sp - sp mod 16 in
            if sp < stackbase then Inr (None, s)
            else bnd (copyout pagetable sp arg (word_of_nat (len + 1)) s) (\<lambda>(r, s).
              if r < 0 then Inr (None, s)
              else exec_args pagetable argv ustack stackbase n (Suc argc) sp
                     (s\<lparr>ram := st64 (ram s) (ustack + 8 * word_of_nat argc) sp\<rparr>))))"

declare exec_args.simps [simp del]

text \<open>The start of the last component of the path.\<close>

partial_function (option) last_component :: "mem \<Rightarrow> u64 \<Rightarrow> u64 \<Rightarrow> u64 option" where
  "last_component m p lst =
     (if m p = 0 then Some lst else last_component m (p + 1) (if m p = 47 then p + 1 else lst))"

text \<open>What follows the arguments: the array of pointers, the name, and the commitment to the new image.\<close>

definition exec_commit ::
    "u64 \<Rightarrow> u64 \<Rightarrow> nat \<Rightarrow> u64 \<Rightarrow> u64 \<Rightarrow> u64 \<Rightarrow> nat \<Rightarrow> u64 \<Rightarrow> u64 \<Rightarrow> 'a vfs_state_scheme
       \<Rightarrow> (int \<times> 'a vfs_state_scheme) res" where
  "exec_commit path elf p pagetable kpagetable ustack argc sp sz s =
     (let s = s\<lparr>ram := st64 (ram s) (ustack + 8 * word_of_nat argc) 0\<rparr>;
          sp = sp - word_of_nat (argc + 1) * 8;
          sp = sp - sp mod 16
      in if sp < sz - PGSIZE then Inr (0, s)
         else bnd (copyout pagetable sp ustack (word_of_nat (argc + 1) * 8) s) (\<lambda>(r, s).
           if r < 0 then Inr (0, s)
           else let tf = p_trapframe (procTable s p); s = s\<lparr>ram := st64 (ram s) (tf + TF_a 1) sp\<rparr> in
             (case last_component (ram s) path path of
                None \<Rightarrow> Inl (Hang ''exec'')
              | Some lst \<Rightarrow>
                  let s = s\<lparr>ram := safestrcpy (ram s) (p_name (procTable s p)) lst 16\<rparr>;
                      s = upd_proc p (\<lambda>q. q\<lparr>p_pagetable := pagetable, p_kpagetable := kpagetable, p_sz := sz\<rparr>) s;
                      s = s\<lparr>ram := st64 (ram s) (tf + TF_epc) (elf_entry (ram s) elf)\<rparr>;
                      s = s\<lparr>ram := st64 (ram s) (tf + TF_sp) sp\<rparr>
                  in Inr (int argc, s))))"

text \<open>\<open>argv\<close> is the address of the array of arguments. Every jump to \<open>bad\<close> returns 0.\<close>

definition exec ::
    "'a vfs_switch \<Rightarrow> u64 \<Rightarrow> u64 \<Rightarrow> 'a vfs_state_scheme \<Rightarrow> (int \<times> 'a vfs_state_scheme) res option" where
  "exec pswitch path argv s =
     (let elf = addr_of s ''exec.elf''; ph = addr_of s ''exec.ph''; ustack = addr_of s ''exec.ustack''; pagetable = 0 in
      opt_bnd (Some (curproc s)) (\<lambda>(p, s).
      opt_bnd (Some (kalloc s)) (\<lambda>(kpagetable, s).
        if kpagetable = 0 then Some (Inr (0, s))
        else case p of None \<Rightarrow> Some null_deref
        | Some p \<Rightarrow>
            let s = s\<lparr>ram := memmove (ram s) kpagetable (p_kpagetable (procTable s p)) 4096\<rparr>;
                s = s\<lparr>ram := memset (ram s) kpagetable 0 (ucast (8 * PX 2 MAXUVA))\<rparr>
            in opt_bnd (vfsdread pswitch path elf 64 0 s) (\<lambda>(r, s).
              if r \<noteq> 64 then Some (Inr (0, s))
              else if elf_magic (ram s) elf \<noteq> ELF_MAGIC then Some (Inr (0, s))
              else opt_bnd (exec_segments pswitch pagetable kpagetable path ph (elf_phnum (ram s) elf)
                              (ucast (elf_phoff (ram s) elf)) 0 s) (\<lambda>(r, s).
                case r of Inl _ \<Rightarrow> Some (Inr (0, s))
                | Inr sz \<Rightarrow>
                    let sz = PGROUNDDOWN sz in
                    Some (bnd (Uvmalloc pagetable kpagetable sz (sz + PGSIZE) s) (\<lambda>(sz1, s).
                      if sz1 = 0 then Inr (0, s)
                      else bnd (exec_args pagetable argv ustack (sz1 - PGSIZE) MAXARG 0 sz1 s) (\<lambda>(r, s).
                        case r of None \<Rightarrow> Inr (0, s)
                        | Some (argc, sp) \<Rightarrow>
                            exec_commit path elf p pagetable kpagetable ustack argc sp sz1 s))))))))"

section \<open>No program is ever loaded\<close>

lemma section_frame:
  fixes s :: "'a vfs_state_scheme"
  shows "push_off s = t \<Longrightarrow> procTable t = procTable s \<and> ram t = ram s \<and> freelist t = freelist s"
    "pop_off s = Inr t \<Longrightarrow> procTable t = procTable s \<and> ram t = ram s \<and> freelist t = freelist s"
    "acquire l s = Inr t \<Longrightarrow> procTable t = procTable s \<and> ram t = ram s \<and> freelist t = freelist s"
    "release l s = Inr t \<Longrightarrow> procTable t = procTable s \<and> ram t = ram s \<and> freelist t = freelist s"
  by (auto simp: push_off_def pop_off_def acquire_def release_def Let_def hart_defs split: if_splits)

lemma curproc_frame:
  fixes s :: "'a vfs_state_scheme"
  assumes "curproc s = Inr (p, t)"
  shows "depth t = depth s" "procTable t = procTable s" "ram t = ram s" "freelist t = freelist s"
proof -
  from assms have p: "pop_off (push_off s) = Inr t" by (auto simp: curproc_def Let_def res_simps)
  show "procTable t = procTable s" "ram t = ram s" "freelist t = freelist s" using section_frame(1) [of s] section_frame(2) [OF p] by auto
  show "depth t = depth s" using p by (auto simp: push_off_def pop_off_def depth_def hart_defs Let_def split: if_splits)
qed

lemma kalloc_frame:
  fixes s :: "'a vfs_state_scheme"
  assumes "kalloc s = Inr (k, t)"
  shows "depth t = depth s" "k = freelist s" "procTable t = procTable s" "k = 0 \<Longrightarrow> ram t = ram s"
proof -
  obtain s1 where a: "acquire L_kmem s = Inr s1" using assms by (auto simp: kalloc_def res_simps)
  define s2 where "s2 = (if freelist s1 \<noteq> 0 then s1\<lparr>freelist := ld64 (ram s1) (freelist s1), npages := npages s1 - 1\<rparr> else s1)"
  obtain s3 where r: "release L_kmem s2 = Inr s3" and k: "k = freelist s1"
    and t: "t = (if freelist s1 \<noteq> 0 then s3\<lparr>ram := memset (ram s3) (freelist s1) 5 (ucast PGSIZE)\<rparr> else s3)"
    using assms by (auto simp: kalloc_def a res_simps Let_def s2_def simp del: split_paired_Ex)
  have f: "procTable s2 = procTable s" "ram s2 = ram s" "freelist s1 = freelist s" "depth s2 = depth s + 1"
    using section_frame(3) [OF a] acquire_depth [OF a] by (simp_all add: s2_def)
  show "k = freelist s" using k f by simp
  show "depth t = depth s" using release_depth [OF r] f by (simp add: t)
  show "procTable t = procTable s" "k = 0 \<Longrightarrow> ram t = ram s" using section_frame(4) [OF r] f k by (simp_all add: t)
qed



end
