(* ===== verification/Syscall.thy ===== *)
theory Syscall
  imports Exec
begin

text \<open>
  System calls: the dispatcher and the fetching of arguments of \<open>syscall/syscall.cpp\<close>, the handlers of
  \<open>syscall/syscallproc.cpp\<close> and \<open>syscall/syscallfile.cpp\<close>, and the numbers of \<open>syscall/sysnum.h\<close>.
\<close>

section \<open>State\<close>

text \<open>One constructor for each function that is ever entered in the table.\<close>

datatype handler =
    H_read | H_write | H_close | H_fstat | H_open | H_mkdirat | H_chdir | H_pipe2 | H_getcwd
  | H_getpid | H_getppid | H_execve | H_exit | H_brk | H_dup | H_dup3 | H_openat | H_getdents64
  | H_unlinkat | H_umount2 | H_mount | H_munmap | H_mmap | H_times | H_uname | H_sched_yield
  | H_wait | H_wait4 | H_gettimeofday | H_fork

record sys_state = vfs_state +
  syscalls :: "nat \<Rightarrow> handler option"

type_synonym 'a sys_switch = "'a sys_state_ext vfs_switch"

text \<open>
  What the handlers use and the repository does not define: the switch of contexts and the translation of the
  loaded page table, which are assembly and hardware; \<open>vfscalAbPath\<close>, \<open>getTimeStamp\<close> and \<open>DeviceFS::mkdir\<close>, which are
  declared but have no body; and the addresses of \<open>procTable[i].xstate\<close>.
\<close>

record 'a sys_env =
  env_switch :: "'a sys_switch"
  env_tr :: "u64 \<Rightarrow> u64"
  env_xstate :: "nat \<Rightarrow> u64"
  env_calAbPath :: "u64 \<Rightarrow> 'a sys_state_scheme \<Rightarrow> 'a sys_state_scheme res"
  env_getTimeStamp :: "'a sys_state_scheme \<Rightarrow> (u64 \<times> 'a sys_state_scheme) res"
  env_mkdir :: "u64 \<Rightarrow> 'a sys_state_scheme \<Rightarrow> (int \<times> 'a sys_state_scheme) res"

text \<open>A handler returns a \<open>uint64\<close>; \<open>None\<close> is a call that never ends.\<close>

type_synonym 'a outcome = "(u64 \<times> 'a sys_state_scheme) res option"

definition ret :: "(int \<times> 'a sys_state_scheme) res \<Rightarrow> 'a outcome" where
  "ret r = Some (bnd r (\<lambda>(v, s). Inr (word_of_int v, s)))"

definition ret_opt :: "(int \<times> 'a sys_state_scheme) res option \<Rightarrow> 'a outcome" where
  "ret_opt r = opt_bnd r (\<lambda>(v, s). Some (Inr (word_of_int v, s)))"

section \<open>Arguments\<close>

definition argraw :: "nat \<Rightarrow> 'a sys_state_scheme \<Rightarrow> (u64 \<times> 'a sys_state_scheme) res" where
  "argraw n s =
     bnd (myproc s) (\<lambda>(p, s).
       if n \<le> 7 then Inr (ld64 (ram s) (p_trapframe (procTable s p) + TF_a n), s)
       else Inl (Panic ''argraw: invalid register''))"

text \<open>
  \<open>argaddr\<close> and \<open>argint\<close> return 0 whenever they return; the result here is what they store, and the callers'
  tests of the 0 are left out.
\<close>

definition argaddr :: "nat \<Rightarrow> 'a sys_state_scheme \<Rightarrow> (u64 \<times> 'a sys_state_scheme) res" where
  "argaddr n s = argraw n s"

definition argint :: "nat \<Rightarrow> 'a sys_state_scheme \<Rightarrow> (int \<times> 'a sys_state_scheme) res" where
  "argint n s = bnd (argraw n s) (\<lambda>(v, s). Inr (to_int v, s))"

definition fetchaddr :: "(u64 \<Rightarrow> u64) \<Rightarrow> u64 \<Rightarrow> u64 \<Rightarrow> 'a sys_state_scheme \<Rightarrow> (int \<times> 'a sys_state_scheme) res" where
  "fetchaddr tr addr ip s =
     bnd (myproc s) (\<lambda>(p, s).
       if addr \<ge> p_sz (procTable s p) \<or> addr + 8 \<ge> p_sz (procTable s p) then Inl (Panic ''fetchaddr: invalid addr'')
       else bnd (copyin2 tr ip addr 8 s) (\<lambda>(r, s).
         if r \<noteq> 0 then Inl (Panic ''fetchaddr: cannot fetch'') else Inr (0, s)))"

definition fetchstr :: "(u64 \<Rightarrow> u64) \<Rightarrow> u64 \<Rightarrow> u64 \<Rightarrow> u64 \<Rightarrow> 'a sys_state_scheme \<Rightarrow> (int \<times> 'a sys_state_scheme) res" where
  "fetchstr tr addr buf mx s =
     bnd (myproc s) (\<lambda>(p, s).
       if addr \<ge> p_sz (procTable s p) \<or> addr + 8 \<ge> p_sz (procTable s p) then Inl (Panic ''fetchstr: invalid addr'')
       else bnd (copyinstr2 tr buf addr mx s) (\<lambda>(r, s).
         if r \<noteq> 0 then Inl (Panic ''fetchstr: cannot fetch'') else Inr (0, s)))"

definition argstr :: "(u64 \<Rightarrow> u64) \<Rightarrow> nat \<Rightarrow> u64 \<Rightarrow> u64 \<Rightarrow> 'a sys_state_scheme \<Rightarrow> (int \<times> 'a sys_state_scheme) res" where
  "argstr tr n buf mx s = bnd (argaddr n s) (\<lambda>(addr, s). fetchstr tr addr buf mx s)"

text \<open>The descriptor and the file, or \<open>None\<close> for the return of -1.\<close>

definition argfd :: "nat \<Rightarrow> 'a sys_state_scheme \<Rightarrow> ((int \<times> nat) option \<times> 'a sys_state_scheme) res" where
  "argfd n s =
     bnd (argint n s) (\<lambda>(fd, s).
       if fd < 0 \<or> fd \<ge> int NOFILE then Inr (None, s)
       else bnd (myproc s) (\<lambda>(p, s).
         Inr (map_option (Pair fd) (p_ofile (procTable s p) (nat fd)), s)))"

section \<open>Handlers about processes\<close>

definition sys_exit :: "'a sys_env \<Rightarrow> 'a sys_state_scheme \<Rightarrow> 'a outcome" where
  "sys_exit env s = opt_bnd (Some (argint 0 s)) (\<lambda>(n, s). exit (env_switch env) n s)"

definition sys_fork :: "'a sys_state_scheme \<Rightarrow> 'a outcome" where
  "sys_fork s =
     opt_bnd (Some (argint 0 s)) (\<lambda>(flags, s).
     opt_bnd (Some (argaddr 1 s)) (\<lambda>(stackHighAddr, s).
       if stackHighAddr = 0 then ret_opt (fork s) else ret_opt (clone stackHighAddr flags s)))"

text \<open>
  The argument strings of \<open>sys_execve\<close>, from number \<open>i\<close> on with \<open>n\<close> left before the array ends: \<open>False\<close> is a jump to
  \<open>bad\<close>. The array has \<open>MAXARG\<close> entries and the test lets \<open>i\<close> reach \<open>MAXARG\<close>.
\<close>

fun execve_args ::
    "(u64 \<Rightarrow> u64) \<Rightarrow> u64 \<Rightarrow> u64 \<Rightarrow> u64 \<Rightarrow> nat \<Rightarrow> nat \<Rightarrow> 'a sys_state_scheme \<Rightarrow> (bool \<times> 'a sys_state_scheme) res" where
  "execve_args tr uargv uarg argv n i s =
     bnd (if uargv \<noteq> 0 then fetchaddr tr (uargv + 8 * word_of_nat i) uarg s else Inr (0, s)) (\<lambda>(_, s).
       case n of
         0 \<Rightarrow> Inl (Undef ''sys_execve'')
       | Suc n \<Rightarrow>
           let slot = argv + 8 * word_of_nat i in
           if ld64 (ram s) uarg = 0 \<or> uargv = 0 then Inr (True, s\<lparr>ram := st64 (ram s) slot 0\<rparr>)
           else bnd (kalloc s) (\<lambda>(pg, s).
             let s = s\<lparr>ram := st64 (ram s) slot pg\<rparr> in
             if pg = 0 then Inr (False, s)
             else bnd (fetchstr tr (ld64 (ram s) uarg) pg PGSIZE s) (\<lambda>(_, s).
               execve_args tr uargv uarg argv n (Suc i) s)))"

declare execve_args.simps [simp del]

text \<open>The loop that frees the pages of the arguments, with \<open>n\<close> entries left before the array ends.\<close>

fun execve_free :: "u64 \<Rightarrow> nat \<Rightarrow> nat \<Rightarrow> 'a sys_state_scheme \<Rightarrow> 'a sys_state_scheme res" where
  "execve_free argv 0 i s = Inl (Undef ''sys_execve'')"
| "execve_free argv (Suc n) i s =
     (let a = ld64 (ram s) (argv + 8 * word_of_nat i) in
      if a = 0 then Inr s else bnd (kfree a s) (execve_free argv n (Suc i)))"

definition sys_execve :: "'a sys_env \<Rightarrow> 'a sys_state_scheme \<Rightarrow> 'a outcome" where
  "sys_execve env s =
     (let path = addr_of s ''sys_execve.path''; argv = addr_of s ''sys_execve.argv''; uarg = addr_of s ''sys_execve.uarg'' in
      opt_bnd (Some (Inr (s\<lparr>ram := st64 (ram s) uarg 0\<rparr>))) (\<lambda>s.
      opt_bnd (Some (argstr (env_tr env) 0 path (word_of_nat MAXPATH) s)) (\<lambda>(_, s).
      opt_bnd (Some (argaddr 1 s)) (\<lambda>(uargv, s).
      opt_bnd (Some (len_at path s)) (\<lambda>n.
        if n < 1 then Some (Inr (- 1, s))
        else let s = s\<lparr>ram := memset (ram s) argv 0 256\<rparr> in
          opt_bnd (Some (execve_args (env_tr env) uargv uarg argv MAXARG 0 s)) (\<lambda>(ok, s).
            if \<not> ok then Some (bnd (execve_free argv MAXARG 0 s) (\<lambda>s. Inr (- 1, s)))
            else opt_bnd (Some (env_calAbPath env path s)) (\<lambda>s.
              opt_bnd (exec (env_switch env) path argv s) (\<lambda>(r, s).
                Some (bnd (execve_free argv MAXARG 0 s) (\<lambda>s. Inr (word_of_int r, s))))))))))) "

definition sys_getpid :: "'a sys_state_scheme \<Rightarrow> 'a outcome" where
  "sys_getpid s = ret (bnd (myproc s) (\<lambda>(p, s). Inr (p_pid (procTable s p), s)))"

definition sys_getppid :: "'a sys_state_scheme \<Rightarrow> 'a outcome" where
  "sys_getppid s =
     ret (bnd (myproc s) (\<lambda>(p, s).
       case p_parent (procTable s p) of None \<Rightarrow> null_deref | Some q \<Rightarrow> Inr (p_pid (procTable s q), s)))"

definition sys_wait :: "'a sys_env \<Rightarrow> 'a sys_state_scheme \<Rightarrow> 'a outcome" where
  "sys_wait env s =
     opt_bnd (Some (argint 0 s)) (\<lambda>(pid, s).
     opt_bnd (Some (argaddr 0 s)) (\<lambda>(vaddr, s).
       if pid = - 1 then ret_opt (wait (env_switch env) (env_xstate env) vaddr s)
       else ret_opt (wait4 (env_switch env) (env_xstate env) pid vaddr s)))"

definition sys_wait4 :: "'a sys_env \<Rightarrow> 'a sys_state_scheme \<Rightarrow> 'a outcome" where
  "sys_wait4 env s =
     opt_bnd (Some (argint 0 s)) (\<lambda>(pid, s).
     opt_bnd (Some (argaddr 1 s)) (\<lambda>(uaddr, s).
       if pid = - 1 then ret_opt (wait (env_switch env) (env_xstate env) uaddr s)
       else ret_opt (wait4 (env_switch env) (env_xstate env) pid uaddr s)))"

definition sys_sched_yield :: "'a sys_env \<Rightarrow> 'a sys_state_scheme \<Rightarrow> 'a outcome" where
  "sys_sched_yield env s = Some (bnd (yield (env_switch env) s) (\<lambda>s. Inr (0, s)))"

text \<open>The difference of the addresses is cut to the \<open>int\<close> that \<open>growproc\<close> takes.\<close>

definition sys_brk :: "'a sys_state_scheme \<Rightarrow> 'a outcome" where
  "sys_brk s =
     Some (bnd (argaddr 0 s) (\<lambda>(addr, s).
           bnd (myproc s) (\<lambda>(p, s).
             if addr = 0 then Inr (p_sz (procTable s p), s)
             else bnd (growproc (to_int (addr - p_sz (procTable s p))) s) (\<lambda>(_, s). Inr (p_sz (procTable s p), s)))))"

definition sys_times :: "'a sys_state_scheme \<Rightarrow> 'a outcome" where
  "sys_times s =
     (let tm = addr_of s ''sys_times.tm''; start = ticks s in
      Some (bnd (argaddr 0 s) (\<lambda>(utmaddr, s).
            bnd (procTimes tm s) (\<lambda>(_, s).
            bnd (myproc s) (\<lambda>(p, s).
            bnd (copyout (p_pagetable (procTable s p)) utmaddr tm 32 s) (\<lambda>(_, s).
              Inr (ucast (ticks s - start), s)))))))"

definition sys_gettimeofday :: "'a sys_env \<Rightarrow> 'a sys_state_scheme \<Rightarrow> 'a outcome" where
  "sys_gettimeofday env s =
     (let tm = addr_of s ''sys_gettimeofday.tm'' in
      Some (bnd (argaddr 0 s) (\<lambda>(addr, s).
            bnd (env_getTimeStamp env s) (\<lambda>(t, s).
            let s = s\<lparr>ram := st64 (ram s) tm t\<rparr>; s = s\<lparr>ram := st64 (ram s) (tm + 8) 0\<rparr> in
            bnd (myproc s) (\<lambda>(p, s).
            bnd (copyout (p_pagetable (procTable s p)) addr tm 16 s) (\<lambda>(_, s). Inr (0, s)))))))"

definition sys_uname :: "'a sys_state_scheme \<Rightarrow> 'a outcome" where
  "sys_uname s = Some (bnd (argaddr 0 s) (\<lambda>(addr, s). Inr (0, s)))"

section \<open>Handlers about files\<close>

definition sys_read :: "'a sys_env \<Rightarrow> 'a sys_state_scheme \<Rightarrow> 'a outcome" where
  "sys_read env s =
     opt_bnd (Some (argint 0 s)) (\<lambda>(fd, s).
     opt_bnd (Some (argint 2 s)) (\<lambda>(n, s).
     opt_bnd (Some (argaddr 1 s)) (\<lambda>(uaddr, s).
       vfsread (env_switch env) fd 1 uaddr (word_of_int n) 0 s)))"

definition sys_write :: "'a sys_env \<Rightarrow> 'a sys_state_scheme \<Rightarrow> 'a outcome" where
  "sys_write env s =
     opt_bnd (Some (argint 0 s)) (\<lambda>(fd, s).
     opt_bnd (Some (argint 2 s)) (\<lambda>(n, s).
     opt_bnd (Some (argaddr 1 s)) (\<lambda>(uaddr, s).
       vfswrite (env_switch env) fd 1 uaddr (word_of_int n) 0 s)))"

definition sys_close :: "'a sys_state_scheme \<Rightarrow> 'a outcome" where
  "sys_close s =
     Some (bnd (argint 0 s) (\<lambda>(fd, s).
           bnd (getFileByFd fd s) (\<lambda>(fp, s).
           bnd (myproc s) (\<lambda>(p, s).
           let s = vfsclose fp s in
           bnd (acquire (L_proc p) s) (\<lambda>s.
             if fd < 0 \<or> fd \<ge> int NOFILE then Inl (Undef ''sys_close'')
             else let s = upd_proc p (\<lambda>q. q\<lparr>p_ofile := (p_ofile q)(nat fd := None)\<rparr>) s
               in bnd (release (L_proc p) s) (\<lambda>s. Inr (0, s)))))))"

text \<open>\<open>struct kstat\<close> has 128 bytes; \<open>st_dev\<close>, \<open>st_nlink\<close> and \<open>st_size\<close> are at 0, 20 and 48.\<close>

definition sys_fstat :: "'a sys_state_scheme \<Rightarrow> 'a outcome" where
  "sys_fstat s =
     (let kst = addr_of s ''sys_fstat.kst'' in
      ret (bnd (argfd 0 s) (\<lambda>(r, s).
        case r of None \<Rightarrow> Inr (- 1, s)
        | Some (fd, fp) \<Rightarrow>
            bnd (argaddr 1 s) (\<lambda>(kstAddr, s).
            let s = s\<lparr>ram := memset (ram s) kst 0 128\<rparr>;
                s = s\<lparr>ram := st64 (ram s) kst 1\<rparr>;
                s = s\<lparr>ram := st64 (ram s) (kst + 48) (f_size (fileTable s fp))\<rparr>;
                s = s\<lparr>ram := st32 (ram s) (kst + 20) 1\<rparr>
            in bnd (myproc s) (\<lambda>(p, s). copyout (p_pagetable (procTable s p)) kstAddr kst 128 s)))))"

definition sys_dup :: "'a sys_state_scheme \<Rightarrow> 'a outcome" where
  "sys_dup s =
     ret (bnd (argint 0 s) (\<lambda>(fd, s).
          bnd (getFileByFd fd s) (\<lambda>(fp, s).
            case fp of None \<Rightarrow> Inr (- 1, s)
            | Some f \<Rightarrow> bnd (vfsdup f s) (\<lambda>(_, s). registFileHandle f (- 1) s))))"

text \<open>The file is not tested: \<open>vfsdup\<close> takes its lock and follows the null pointer.\<close>

definition sys_dup3 :: "'a sys_state_scheme \<Rightarrow> 'a outcome" where
  "sys_dup3 s =
     ret (bnd (argint 0 s) (\<lambda>(oldfd, s).
          bnd (argint 1 s) (\<lambda>(newfd, s).
          bnd (getFileByFd oldfd s) (\<lambda>(fp, s).
            case fp of None \<Rightarrow> bnd (acquire L_filetable s) (\<lambda>s. null_deref)
            | Some f \<Rightarrow>
                bnd (vfsdup f s) (\<lambda>(_, s).
                bnd (registFileHandle f newfd s) (\<lambda>(ansfd, s).
                  Inr (ansfd, if ansfd < 0 then vfsclose (Some f) s else s)))))))"

definition MAXFSTYPE :: nat where "MAXFSTYPE = 10"

definition sys_mount :: "'a sys_env \<Rightarrow> 'a sys_state_scheme \<Rightarrow> 'a outcome" where
  "sys_mount env s =
     (let special = addr_of s ''sys_mount.special''; dir = addr_of s ''sys_mount.dir''; fstype = addr_of s ''sys_mount.fstype'' in
      Some (bnd (argstr (env_tr env) 0 special (word_of_nat MAXPATH) s) (\<lambda>(_, s).
            bnd (argstr (env_tr env) 1 dir (word_of_nat MAXPATH) s) (\<lambda>(_, s).
            bnd (argstr (env_tr env) 2 fstype (word_of_nat MAXFSTYPE) s) (\<lambda>(_, s).
              if strncmp (ram s) fstype (addr_of s ''vfat'') 4 = 0
              then bnd (vfsmount FAT32 dir special s) (\<lambda>(_, s). Inr (0, s))
              else Inr (- 1, s))))))"

definition sys_umount2 :: "'a sys_env \<Rightarrow> 'a sys_state_scheme \<Rightarrow> 'a outcome" where
  "sys_umount2 env s =
     (let dir = addr_of s ''sys_umount2.dir'' in
      ret (bnd (argstr (env_tr env) 0 dir (word_of_nat MAXPATH) s) (\<lambda>(_, s).
           bnd (argint 1 s) (\<lambda>(_, s). vfsumount dir s))))"

definition sys_openat :: "'a sys_env \<Rightarrow> 'a sys_state_scheme \<Rightarrow> 'a outcome" where
  "sys_openat env s =
     (let filename = addr_of s ''sys_openat.filename'' in
      ret (bnd (argint 0 s) (\<lambda>(_, s).
           bnd (argstr (env_tr env) 1 filename (word_of_nat MAXPATH) s) (\<lambda>(_, s).
           bnd (argint 2 s) (\<lambda>(flags, s).
           bnd (argint 3 s) (\<lambda>(_, s). vfsopen filename (word_of_int flags) s))))))"

definition sys_open :: "'a sys_env \<Rightarrow> 'a sys_state_scheme \<Rightarrow> 'a outcome" where
  "sys_open env s =
     (let path = addr_of s ''sys_open.path'' in
      ret (bnd (argstr (env_tr env) 0 path (word_of_nat MAXPATH) s) (\<lambda>(_, s).
           bnd (argint 1 s) (\<lambda>(mode, s). vfsopen path (word_of_int mode) s))))"

definition sys_mkdirat :: "'a sys_env \<Rightarrow> 'a sys_state_scheme \<Rightarrow> 'a outcome" where
  "sys_mkdirat env s =
     (let path = addr_of s ''sys_mkdirat.path'' in
      Some (bnd (argint 0 s) (\<lambda>(fd, s).
            bnd (argstr (env_tr env) 1 path (word_of_nat MAXPATH) s) (\<lambda>(_, s).
            bnd (vfsmkdirat (env_mkdir env) fd path s) (\<lambda>(_, s). Inr (0, s))))))"

definition sys_chdir :: "'a sys_env \<Rightarrow> 'a sys_state_scheme \<Rightarrow> 'a outcome" where
  "sys_chdir env s =
     (let path = addr_of s ''sys_chdir.path''; s = zero_path path s in
      ret (bnd (argstr (env_tr env) 0 path (word_of_nat MAXPATH) s) (\<lambda>(_, s). vfschdir path s)))"

text \<open>The branch for a failed copy looks both files up and closes them.\<close>

definition sys_pipe2 :: "'a sys_state_scheme \<Rightarrow> 'a outcome" where
  "sys_pipe2 s =
     (let fds = addr_of s ''sys_pipe2.fds'';
          fail = (\<lambda>s. bnd (getFileByFd (sint (ld32 (ram s) fds)) s) (\<lambda>(f0, s).
                      bnd (getFileByFd (sint (ld32 (ram s) (fds + 4))) (vfsclose f0 s)) (\<lambda>(f1, s).
                        Inr (- 1, vfsclose f1 s))))
      in ret (bnd (curproc s) (\<lambda>(p, s).
              bnd (argaddr 0 s) (\<lambda>(fdarray, s).
              bnd (vfscreatePipe fds s) (\<lambda>(_, s).
                case p of None \<Rightarrow> null_deref
                | Some p \<Rightarrow>
                    bnd (copyout (p_pagetable (procTable s p)) fdarray fds 4 s) (\<lambda>(r, s).
                      if r < 0 then fail s
                      else bnd (copyout (p_pagetable (procTable s p)) (fdarray + 4) (fds + 4) 4 s) (\<lambda>(r, s).
                        if r < 0 then fail s else Inr (0, s)))))))) "

definition sys_getdents64 :: "'a sys_state_scheme \<Rightarrow> 'a outcome" where
  "sys_getdents64 s =
     ret (bnd (argint 0 s) (\<lambda>(fd, s).
          bnd (argaddr 1 s) (\<lambda>(addr, s).
          bnd (argint 2 s) (\<lambda>(len, s).
          bnd (vfsls fd addr len 1 s) (\<lambda>(n, s). Inr (to_int n, s))))))"

definition sys_unlinkat :: "'a sys_env \<Rightarrow> 'a sys_state_scheme \<Rightarrow> 'a outcome" where
  "sys_unlinkat env s =
     (let filepath = addr_of s ''sys_unlinkat.filepath'' in
      ret (bnd (argint 0 s) (\<lambda>(fd, s).
           bnd (argstr (env_tr env) 1 filepath (word_of_nat MAXPATH) s) (\<lambda>(_, s).
           bnd (argint 2 s) (\<lambda>(_, s). vfsrm fd filepath s)))))"

definition sys_getcwd :: "'a sys_state_scheme \<Rightarrow> 'a outcome" where
  "sys_getcwd s =
     Some (bnd (argaddr 0 s) (\<lambda>(userBuf, s).
           bnd (argint 1 s) (\<lambda>(n, s).
           bnd (myproc s) (\<lambda>(p, s).
           let cwd = p_workDir (procTable s p) in
           bnd (len_at cwd s) (\<lambda>len.
             if int len > n then Inr (- 1, s)
             else bnd (either_copyout 1 userBuf cwd (word_of_nat len) s) (\<lambda>(r, s).
               Inr (if r < 0 then 0 else userBuf, s)))))))"

text \<open>The lengths of the areas of a process, added in an \<open>int\<close>; the first of its slots that is free.\<close>

definition vma_total :: "nat \<Rightarrow> 'a sys_state_scheme \<Rightarrow> u32" where
  "vma_total p s =
     sum_list (map (\<lambda>i. case p_vma (procTable s p) i of None \<Rightarrow> 0 | Some v \<Rightarrow> v_length (vmas s v)) [0..<NOMMAPFILE])"

definition mmap_addr :: "u32 \<Rightarrow> u32 \<Rightarrow> u64" where
  "mmap_addr used len = PGROUNDDOWN (MAXVA - PGSIZE * 5 - scast used - scast len)"

definition mmap_slot :: "nat \<Rightarrow> nat \<Rightarrow> 'a sys_state_scheme \<Rightarrow> 'a sys_state_scheme" where
  "mmap_slot p a s =
     (case first_from (\<lambda>i. p_vma (procTable s p) i = None) NOMMAPFILE 0 of
        None \<Rightarrow> s
      | Some i \<Rightarrow> upd_proc p (\<lambda>q. q\<lparr>p_vma := (p_vma q)(i := Some a)\<rparr>) s)"

definition upd_vma :: "nat \<Rightarrow> (vma \<Rightarrow> vma) \<Rightarrow> 'a proc_state_scheme \<Rightarrow> 'a proc_state_scheme" where
  "upd_vma a f s = s\<lparr>vmas := (vmas s)(a := f (vmas s a))\<rparr>"

text \<open>What follows the duplication of the file: the area is filled in and entered.\<close>

definition mmap_place ::
    "nat option \<Rightarrow> nat option \<Rightarrow> nat \<Rightarrow> u32 \<Rightarrow> u32 \<Rightarrow> u32 \<Rightarrow> 'a sys_state_scheme \<Rightarrow> (u64 \<times> 'a sys_state_scheme) res" where
  "mmap_place p a f len prot flags s =
     (let s = upd_file f (\<lambda>f. f\<lparr>f_position := 0\<rparr>) s in
      case a of None \<Rightarrow> null_deref
      | Some a \<Rightarrow>
          let s = upd_vma a (\<lambda>v. v\<lparr>v_f := Some f, v_length := len\<rparr>) s in
          case p of None \<Rightarrow> null_deref
          | Some p \<Rightarrow>
              let s = upd_vma a (\<lambda>v. v\<lparr>v_addr := mmap_addr (vma_total p s) len, v_prot := prot, v_flag := flags\<rparr>) s
              in Inr (v_addr (vmas s a), mmap_slot p a s))"

definition sys_mmap :: "'a sys_state_scheme \<Rightarrow> 'a outcome" where
  "sys_mmap s =
     Some (bnd (curproc s) (\<lambda>(p, s).
           bnd (argaddr 0 s) (\<lambda>(_, s).
           bnd (argint 1 s) (\<lambda>(len, s).
           bnd (argint 2 s) (\<lambda>(prot, s).
           bnd (argint 3 s) (\<lambda>(flags, s).
           bnd (argfd 4 s) (\<lambda>(r, s).
             case r of None \<Rightarrow> Inr (- 1, s)
             | Some (fd, f) \<Rightarrow>
                 bnd (argint 5 s) (\<lambda>(_, s).
                 let a = allocVma s in
                 bnd (vfsdup f s) (\<lambda>(_, s).
                   mmap_place p a f (word_of_int len) (word_of_int prot) (word_of_int flags) s)))))))))"

definition in_area :: "u64 \<Rightarrow> vma \<Rightarrow> bool" where
  "in_area addr v \<longleftrightarrow> v_addr v \<le> addr \<and> addr < v_addr v + scast (v_length v)"

text \<open>The slot of the first area that holds an address.\<close>

definition find_area :: "nat \<Rightarrow> u64 \<Rightarrow> 'a proc_state_scheme \<Rightarrow> nat option" where
  "find_area p addr s =
     first_from (\<lambda>i. case p_vma (procTable s p) i of None \<Rightarrow> False | Some v \<Rightarrow> in_area addr (vmas s v)) NOMMAPFILE 0"

definition MAP_SHARED :: u32 where "MAP_SHARED = 1"

definition sys_munmap :: "'a sys_env \<Rightarrow> 'a sys_state_scheme \<Rightarrow> 'a outcome" where
  "sys_munmap env s =
     opt_bnd (Some (myproc s)) (\<lambda>(p, s).
     opt_bnd (Some (argaddr 0 s)) (\<lambda>(addr, s).
     opt_bnd (Some (argint 1 s)) (\<lambda>(sz, s).
       case find_area p addr s of
         None \<Rightarrow> Some (Inr (- 1, s))
       | Some index \<Rightarrow>
           (case p_vma (procTable s p) index of
              None \<Rightarrow> Some null_deref
            | Some v \<Rightarrow>
                opt_bnd (if v_flag (vmas s v) AND MAP_SHARED \<noteq> 0 then
                           (case v_f (vmas s v) of
                              None \<Rightarrow> Some null_deref
                            | Some f \<Rightarrow>
                                opt_bnd (Some (vfsrewind f s)) (\<lambda>(_, s).
                                opt_bnd (vfswrite_file (env_switch env) (Some f) 1 (v_addr (vmas s v)) (word_of_int sz) 0 s)
                                  (\<lambda>(_, s). Some (Inr s))))
                         else Some (Inr s)) (\<lambda>s.
                opt_bnd (Some (vmunmap (p_pagetable (procTable s p)) addr (area_pages (word_of_int sz)) False s)) (\<lambda>s.
                let s = upd_vma v (\<lambda>v. v\<lparr>v_length := v_length v - word_of_int sz\<rparr>) s in
                if v_length (vmas s v) = 0 then
                  let s = freeVma v (vfsclose (v_f (vmas s v)) s)
                  in Some (Inr (0, upd_proc p (\<lambda>q. q\<lparr>p_vma := (p_vma q)(index := None)\<rparr>) s))
                else Some (Inr (0, s))))))))"

section \<open>Dispatch\<close>

text \<open>\<open>SYS_clone\<close> is entered with \<open>sys_fork\<close>; \<open>SYS_linkat\<close> and \<open>SYS_nanosleep\<close> have a number and no entry.\<close>

definition syscall_table :: "(nat \<times> handler) list" where
  "syscall_table =
     [(17, H_getcwd), (59, H_pipe2), (221, H_execve), (2, H_open), (64, H_write), (63, H_read), (23, H_dup),
      (24, H_dup3), (17, H_getcwd), (172, H_getpid), (173, H_getppid), (1, H_fork), (220, H_fork), (93, H_exit),
      (3, H_wait), (260, H_wait4), (49, H_chdir), (57, H_close), (34, H_mkdirat), (56, H_openat),
      (124, H_sched_yield), (214, H_brk), (160, H_uname), (59, H_pipe2), (61, H_getdents64), (40, H_mount),
      (39, H_umount2), (153, H_times), (169, H_gettimeofday), (222, H_mmap), (215, H_munmap), (80, H_fstat),
      (35, H_unlinkat)]"

definition NSYSCALLS :: nat where "NSYSCALLS = 400"

definition syscall_init :: "'a sys_state_scheme \<Rightarrow> 'a sys_state_scheme" where
  "syscall_init s = s\<lparr>syscalls := fold (\<lambda>(n, h) t. t(n := Some h)) syscall_table
                        (\<lambda>n. if n < NSYSCALLS then None else syscalls s n)\<rparr>"

primrec run_handler :: "'a sys_env \<Rightarrow> handler \<Rightarrow> 'a sys_state_scheme \<Rightarrow> 'a outcome" where
  "run_handler env H_read s = sys_read env s"
| "run_handler env H_write s = sys_write env s"
| "run_handler env H_close s = sys_close s"
| "run_handler env H_fstat s = sys_fstat s"
| "run_handler env H_open s = sys_open env s"
| "run_handler env H_mkdirat s = sys_mkdirat env s"
| "run_handler env H_chdir s = sys_chdir env s"
| "run_handler env H_pipe2 s = sys_pipe2 s"
| "run_handler env H_getcwd s = sys_getcwd s"
| "run_handler env H_getpid s = sys_getpid s"
| "run_handler env H_getppid s = sys_getppid s"
| "run_handler env H_execve s = sys_execve env s"
| "run_handler env H_exit s = sys_exit env s"
| "run_handler env H_brk s = sys_brk s"
| "run_handler env H_dup s = sys_dup s"
| "run_handler env H_dup3 s = sys_dup3 s"
| "run_handler env H_openat s = sys_openat env s"
| "run_handler env H_getdents64 s = sys_getdents64 s"
| "run_handler env H_unlinkat s = sys_unlinkat env s"
| "run_handler env H_umount2 s = sys_umount2 env s"
| "run_handler env H_mount s = sys_mount env s"
| "run_handler env H_munmap s = sys_munmap env s"
| "run_handler env H_mmap s = sys_mmap s"
| "run_handler env H_times s = sys_times s"
| "run_handler env H_uname s = sys_uname s"
| "run_handler env H_sched_yield s = sys_sched_yield env s"
| "run_handler env H_wait s = sys_wait env s"
| "run_handler env H_wait4 s = sys_wait4 env s"
| "run_handler env H_gettimeofday s = sys_gettimeofday env s"
| "run_handler env H_fork s = sys_fork s"

text \<open>The bytes of a string that \<open>printf\<close> prints; \<open>None\<close> when it has no end.\<close>

definition string_at :: "mem \<Rightarrow> u64 \<Rightarrow> u8 list option" where
  "string_at m a = map_option (\<lambda>n. map (\<lambda>i. m (a + word_of_nat i)) [0..<n]) (strlen m a)"

text \<open>
  The trace prints the code of the handler, at \<open>code\<close>, as a string. \<open>1 << num\<close> of an \<open>int\<close> is taken modulo 32, as
  the machine shifts.
\<close>

definition trace_call :: "(handler \<Rightarrow> u64) \<Rightarrow> nat \<Rightarrow> nat \<Rightarrow> handler \<Rightarrow> 'a sys_state_scheme \<Rightarrow> 'a sys_state_scheme res" where
  "trace_call code p num h s =
     (if p_tmask (procTable s p) AND push_bit (num mod 32) 1 \<noteq> 0 then
        (case string_at (ram s) (code h) of
           None \<Rightarrow> Inl (Hang ''printf'')
         | Some name \<Rightarrow>
             printf (bytes_of ''pid %d: %s -> %d'' @ [10])
               [A_int (word_of_int (p_pid (procTable s p))), A_str (Some name),
                A_int (ucast (ld64 (ram s) (p_trapframe (procTable s p) + TF_a 0)))] s)
      else Inr s)"

definition unknown_call :: "nat \<Rightarrow> int \<Rightarrow> 'a sys_state_scheme \<Rightarrow> 'b res" where
  "unknown_call p num s =
     (case string_at (ram s) (p_name (procTable s p)) of
        None \<Rightarrow> Inl (Hang ''printf'')
      | Some name \<Rightarrow>
          bnd (printf (bytes_of ''pid %d %s : unknown sys call %d'' @ [10])
                 [A_int (word_of_int (p_pid (procTable s p))), A_str (Some name), A_int (word_of_int num)] s)
            (\<lambda>s. Inl (Panic ''syscall error'')))"

definition syscall :: "'a sys_env \<Rightarrow> (handler \<Rightarrow> u64) \<Rightarrow> 'a sys_state_scheme \<Rightarrow> 'a sys_state_scheme res option" where
  "syscall env code s =
     opt_bnd (Some (myproc s)) (\<lambda>(p, s).
       let num = to_int (ld64 (ram s) (p_trapframe (procTable s p) + TF_a 7)) in
       case (if num > 0 \<and> num < int NSYSCALLS then syscalls s (nat num) else None) of
         None \<Rightarrow> Some (unknown_call p num s)
       | Some h \<Rightarrow>
           opt_bnd (run_handler env h s) (\<lambda>(v, s).
             Some (trace_call code p (nat num) h
                     (s\<lparr>ram := st64 (ram s) (p_trapframe (procTable s p) + TF_a 0) v\<rparr>))))"


section \<open>Arguments of a quiet hart\<close>

lemma cproc_masked [simp]: "cproc (curcpu (masked s)) = cproc (curcpu s)"
  by (simp add: masked_def hart_defs)

lemma sys_masked [simp]:
  "vmas (masked s) = vmas s" "syscalls (masked t) = syscalls t" "addr_of (masked u) = addr_of u"
  by (simp_all add: masked_def)

definition arg :: "nat \<Rightarrow> nat \<Rightarrow> 'a proc_state_scheme \<Rightarrow> u64" where
  "arg n p s = ld64 (ram s) (p_trapframe (procTable s p) + TF_a n)"

lemma arg_masked [simp]: "arg n p (masked s) = arg n p s"
  by (simp add: arg_def)

lemma argraw_quiet:
  "quiet s \<Longrightarrow> cproc (curcpu s) = Some p \<Longrightarrow> n \<le> 7 \<Longrightarrow> argraw n s = Inr (arg n p s, masked s)"
  by (simp add: argraw_def myproc_quiet arg_def)

lemma argaddr_quiet:
  "quiet s \<Longrightarrow> cproc (curcpu s) = Some p \<Longrightarrow> n \<le> 7 \<Longrightarrow> argaddr n s = Inr (arg n p s, masked s)"
  by (simp add: argaddr_def argraw_quiet)

lemma argint_quiet:
  "quiet s \<Longrightarrow> cproc (curcpu s) = Some p \<Longrightarrow> n \<le> 7 \<Longrightarrow> argint n s = Inr (to_int (arg n p s), masked s)"
  by (simp add: argint_def argraw_quiet)

lemma argfd_quiet:
  assumes "quiet s" "cproc (curcpu s) = Some p" "n \<le> 7" "to_int (arg n p s) = int fd" "fd < NOFILE"
  shows "argfd n s = Inr (map_option (Pair (int fd)) (p_ofile (procTable s p) fd), masked (masked s))"
  using assms by (simp add: argfd_def argint_quiet myproc_quiet)

lemma argraw_depth: "argraw n s = Inr (v, s') \<Longrightarrow> depth s' = depth s"
  by (auto simp: argraw_def res_simps split: if_splits dest: myproc_depth)

lemma argint_depth: "argint n s = Inr (v, s') \<Longrightarrow> depth s' = depth s"
  by (auto simp: argint_def res_simps dest: argraw_depth)

lemma argaddr_depth: "argaddr n s = Inr (v, s') \<Longrightarrow> depth s' = depth s"
  by (auto simp: argaddr_def dest: argraw_depth)

section \<open>Descriptors\<close>

lemma getFileByFd_none:
  "0 \<le> depth s \<Longrightarrow> getFileByFd fd s = Inr (fp, s') \<Longrightarrow> fp = None \<and> s' = s \<and> (fd < 0 \<or> int NOFILE < fd)"
  using getFileByFd_result [of s fd] by (auto split: if_splits)

lemma to_int_minus_1 [simp]: "to_int (- 1) = - 1"
  by code_simp

text \<open>no system call about a descriptor ever works: whatever its arguments and the files open, a call of
  \<open>read\<close>, \<open>write\<close>, \<open>dup\<close> or \<open>getdents64\<close> that returns returns -1 and was made with a descriptor outside 0 to
  \<open>NOFILE\<close>, and \<open>close\<close> never returns, since looking the file up panics.\<close>

theorem descriptor_calls_fail:
  assumes "0 \<le> depth s"
  shows "(sys_read env s = Some (Inr (v, s')) \<or> sys_write env s = Some (Inr (v, s')) \<or> sys_dup s = Some (Inr (v, s'))
      \<or> sys_getdents64 s = Some (Inr (v, s')) \<longrightarrow>
        v = - 1 \<and> (\<exists>fd s1. argint 0 s = Inr (fd, s1) \<and> (fd < 0 \<or> int NOFILE < fd)))
    \<and> (\<exists>e. sys_close s = Some (Inl e))"
proof (cases "argint 0 s")
  case (Inr x)
  obtain fd s1 where a: "argint 0 s = Inr (fd, s1)" using Inr by (cases x) auto
  have d1: "0 \<le> depth s1" using argint_depth [OF a] assms by simp
  have r: "v = - 1 \<and> (fd < 0 \<or> int NOFILE < fd)" if "sys_read env s = Some (Inr (v, s'))"
    using that d1 by (auto simp: sys_read_def a opt_bnd_def vfsread_def split: option.splits sum.splits
        dest!: argint_depth argaddr_depth getFileByFd_none [rotated])
  have w: "v = - 1 \<and> (fd < 0 \<or> int NOFILE < fd)" if "sys_write env s = Some (Inr (v, s'))"
    using that d1 by (auto simp: sys_write_def a opt_bnd_def vfswrite_def split: option.splits sum.splits
        dest!: argint_depth argaddr_depth getFileByFd_none [rotated])
  have dp: "v = - 1 \<and> (fd < 0 \<or> int NOFILE < fd)" if "sys_dup s = Some (Inr (v, s'))"
    using that d1 by (auto simp: sys_dup_def ret_def a res_simps dest!: getFileByFd_none [rotated])
  have ge: "v = - 1 \<and> (fd < 0 \<or> int NOFILE < fd)" if "sys_getdents64 s = Some (Inr (v, s'))"
    using that d1 by (auto simp: sys_getdents64_def ret_def a vfsls_def res_simps
        dest!: argint_depth argaddr_depth getFileByFd_none [rotated])
  have "\<exists>e. sys_close s = Some (Inl e)"
  proof (cases "sys_close s")
    case (Some z)
    show ?thesis
    proof (cases z)
      case (Inr y)
      hence False using Some d1
        by (cases y) (auto simp: sys_close_def a res_simps NOFILE_def split: if_splits dest!: getFileByFd_none [rotated])
      thus ?thesis ..
    qed (use Some in simp)
  qed (simp add: sys_close_def)
  thus ?thesis using r w dp ge a by blast
qed (simp_all add: sys_read_def sys_write_def sys_dup_def sys_getdents64_def sys_close_def ret_def opt_bnd_def)

section \<open>Mapping a file\<close>

lemma vma_ready [simp]:
  "quiet (upd_vma a f s) = quiet s" "lock_free l (upd_vma a f s) = lock_free l s" "vmas (upd_vma a f s) = (vmas s)(a := f (vmas s a))"
  "procTable (upd_vma a f s) = procTable s" "fileTable (upd_vma a f s) = fileTable s"
  by (simp_all add: upd_vma_def quiet_def lock_free_def hart_defs)

lemma vma_total_other:
  assumes "\<forall>i < NOMMAPFILE. p_vma (procTable s p) i \<noteq> Some a"
  shows "vma_total p (upd_vma a f s) = vma_total p s"
proof -
  have "(case p_vma (procTable s p) i of None \<Rightarrow> 0 | Some v \<Rightarrow> v_length (vmas (upd_vma a f s) v))
      = (case p_vma (procTable s p) i of None \<Rightarrow> 0 | Some v \<Rightarrow> v_length (vmas s v))" if "i < NOMMAPFILE" for i
    using assms that by (auto split: option.splits)
  thus ?thesis unfolding vma_total_def by (intro arg_cong [of _ _ sum_list] map_cong) auto
qed


lemma upd_file_ready [simp]:
  "quiet (upd_file i g s) = quiet s" "lock_free l (upd_file i g s) = lock_free l s"
  by (simp_all add: upd_file_def quiet_def lock_free_def hart_defs)

lemma cproc_upd_file [simp]: "cproc (curcpu (upd_file i g s)) = cproc (curcpu s)"
  "procTable (upd_file i g s) = procTable s" "vmas (upd_file i g s) = vmas s"
  by (simp_all add: upd_file_def hart_defs)

lemma vma_total_cong: "procTable t = procTable s \<Longrightarrow> vmas t = vmas s \<Longrightarrow> vma_total p t = vma_total p s"
  by (simp add: vma_total_def cong: option.case_cong)

lemma allocVma_cong: "vmas t = vmas s \<Longrightarrow> allocVma t = allocVma s"
  by (simp add: allocVma_def)

lemma int_of_to_int [simp]: "word_of_int (to_int w) = (ucast w :: u32)"
  by (simp add: to_int_def)

lemma mmap_place_spec:
  assumes "\<forall>i < NOMMAPFILE. p_vma (procTable s p) i \<noteq> Some a"
  shows "let addr = mmap_addr (vma_total p s) len in
    \<exists>s'. mmap_place (Some p) (Some a) f len prot flags s = Inr (addr, s')
     \<and> vmas s' = (vmas s)(a := \<lparr>v_addr = addr, v_length = len, v_prot = prot, v_flag = flags, v_f = Some f\<rparr>)
     \<and> fileTable s' = (fileTable s)(f := (fileTable s f)\<lparr>f_position := 0\<rparr>)
     \<and> procTable s' = (case first_from (\<lambda>i. p_vma (procTable s p) i = None) NOMMAPFILE 0 of
          None \<Rightarrow> procTable s
        | Some i \<Rightarrow> (procTable s)(p := (procTable s p)\<lparr>p_vma := (p_vma (procTable s p))(i := Some a)\<rparr>))
     \<and> ram s' = ram s"
proof -
  define t where "t = upd_file f (\<lambda>f. f\<lparr>f_position := 0\<rparr>) s"
  have t: "procTable t = procTable s" "vmas t = vmas s" "fileTable t = (fileTable s)(f := (fileTable s f)\<lparr>f_position := 0\<rparr>)"
    "ram t = ram s"
    by (simp_all add: t_def, simp_all add: upd_file_def)
  have vt: "vma_total p (upd_vma a g t) = vma_total p s" for g
    using vma_total_other [of t p a g] vma_total_cong [of t s p] assms by (simp add: t)
  have q: "q\<lparr>v_f := Some f, v_length := len, v_addr := x, v_prot := prot, v_flag := flags\<rparr>
      = \<lparr>v_addr = x, v_length = len, v_prot = prot, v_flag = flags, v_f = Some f\<rparr>" for q :: vma and x
    by (cases q) simp
  have r: "ram (upd_vma a g x) = ram x" for g and x :: "'a sys_state_scheme" by (simp add: upd_vma_def)
  show ?thesis
    by (simp add: mmap_place_def Let_def vt q r mmap_slot_def t upd_proc_def flip: t_def split: option.splits)
qed

lemma unat_sum_list_small:
  fixes f :: "'b \<Rightarrow> 'a :: len word"
  shows "sum_list (map (\<lambda>x. unat (f x)) xs) < 2 ^ LENGTH('a) \<Longrightarrow> unat (sum_list (map f xs)) = sum_list (map (\<lambda>x. unat (f x)) xs)"
  by (induction xs) (simp_all add: unat_word_ariths)

definition mapped_length :: "nat \<Rightarrow> 'a sys_state_scheme \<Rightarrow> nat" where
  "mapped_length p s =
     sum_list (map (\<lambda>i. case p_vma (procTable s p) i of None \<Rightarrow> 0 | Some v \<Rightarrow> unat (v_length (vmas s v))) [0..<NOMMAPFILE])"

lemma vma_total_unat:
  assumes "mapped_length p s < 2 ^ 32"
  shows "unat (vma_total p s) = mapped_length p s"
proof -
  have e: "unat (case x of None \<Rightarrow> 0 | Some v \<Rightarrow> f v) = (case x of None \<Rightarrow> 0 | Some v \<Rightarrow> unat (f v :: u32))" for x :: "nat option" and f
    by (simp split: option.splits)
  show ?thesis using assms unfolding vma_total_def mapped_length_def
    by (subst unat_sum_list_small) (simp_all only: e len_num1 len_bit0 len_bit1, simp_all)
qed

lemma mmap_addr_room:
  assumes "unat used + unat len < 2 ^ 31"
  shows "let addr = unat (mmap_addr used len); n = unat used + unat len in
    addr mod 4096 = 0 \<and> addr + n \<le> unat (MAXVA - 5 * PGSIZE) \<and> unat (MAXVA - 5 * PGSIZE) < addr + n + 4096"
proof -
  have s: "scast w = (word_of_nat (unat w) :: u64)" if "unat w < 2 ^ 31" for w :: u32
  proof -
    have "int (unat w) < int (2 ^ 31)" using that by (simp only: of_nat_less_iff)
    hence u: "uint w < 2 ^ 31" by simp
    have g: "- (2 ^ 31) \<le> uint w" by (rule order_trans [OF _ uint_ge_0]) simp
    have "sint w = uint w" unfolding sint_uint
      by (rule signed_take_bit_int_eq_self) (simp_all only: len_num1 len_bit0 len_bit1, use u g in simp_all)
    hence "sint w = int (unat w)" unfolding uint_nat .
    thus ?thesis by (metis of_int_sint of_int_of_nat_eq)
  qed
  define n where "n = unat used + unat len"
  have n: "n < 2 ^ 31" using assms by (simp add: n_def)
  have g: "unat (0x3FFFFFB000 - (word_of_nat n :: u64)) = 0x3FFFFFB000 - n"
    using n by (simp add: unat_sub word_le_nat_alt unat_of_nat)
  have "scast used + scast len = (word_of_nat n :: u64)" using assms s [of used] s [of len] by (simp add: n_def)
  hence e: "MAXVA - PGSIZE * 5 - scast used - scast len = 0x3FFFFFB000 - (word_of_nat n :: u64)"
    by (simp add: MAXVA_def PGSIZE_def diff_diff_eq)
  have a: "unat (mmap_addr used len) = (0x3FFFFFB000 - n) div 4096 * 4096"
    by (simp only: mmap_addr_def e unat_PGROUNDDOWN g)
  have t: "unat (MAXVA - 5 * PGSIZE) = 0x3FFFFFB000" by (simp add: MAXVA_def PGSIZE_def)
  define q where "q = (0x3FFFFFB000 - n) div 4096"
  have "q * 4096 \<le> 0x3FFFFFB000 - n" "0x3FFFFFB000 - n < q * 4096 + 4096" unfolding q_def by simp_all
  thus ?thesis using n unfolding a t q_def [symmetric] n_def [symmetric] Let_def by (simp; linarith)
qed


text \<open>C37: \<open>sys_mmap\<close> of an open file, with a free area descriptor: the area gets the length, protection, flags and
  file asked for, and the first free slot of the process if there is one; no other area, process or memory
  changes; the file is rewound and counts one more reference. The address depends on nothing but the sum of the
  lengths of the areas of the process and of the new one: it is the highest page boundary that leaves that many
  bytes below the five pages under \<open>MAXVA\<close> (for sums below \<open>2^31\<close>). That the range is free is not claimed:
  \<open>mmap_small_areas_overlap\<close> shows the contrary.\<close>

theorem sys_mmap_spec:
  assumes "quiet s" "lock_free L_filetable s" "cproc (curcpu s) = Some p"
    and "to_int (arg 4 p s) = int fd" "fd < NOFILE" "p_ofile (procTable s p) fd = Some f" "1 \<le> f_ref (fileTable s f)"
    and "allocVma s = Some a" "\<forall>i < NOMMAPFILE. p_vma (procTable s p) i \<noteq> Some a"
  shows "let len = ucast (arg 1 p s); addr = mmap_addr (vma_total p s) len in
    \<exists>s'. sys_mmap s = Some (Inr (addr, s'))
     \<and> vmas s' = (vmas s)(a := \<lparr>v_addr = addr, v_length = len, v_prot = ucast (arg 2 p s), v_flag = ucast (arg 3 p s), v_f = Some f\<rparr>)
     \<and> fileTable s' = (fileTable s)(f := (fileTable s f)\<lparr>f_ref := f_ref (fileTable s f) + 1, f_position := 0\<rparr>)
     \<and> procTable s' = (case first_from (\<lambda>i. p_vma (procTable s p) i = None) NOMMAPFILE 0 of
          None \<Rightarrow> procTable s
        | Some i \<Rightarrow> (procTable s)(p := (procTable s p)\<lparr>p_vma := (p_vma (procTable s p))(i := Some a)\<rparr>))
     \<and> ram s' = ram s
     \<and> (let n = mapped_length p s + unat len in n < 2 ^ 31 \<longrightarrow>
          unat addr mod 4096 = 0 \<and> unat addr + n \<le> unat (MAXVA - 5 * PGSIZE) \<and> unat (MAXVA - 5 * PGSIZE) < unat addr + n + 4096)"
proof -
  have q: "curproc s = Inr (Some p, masked s)" using assms(1,3) by (rule curproc_quiet)
  define t where "t = masked (masked (masked (masked (masked (masked (masked (masked s)))))))"
  have t: "quiet t" "lock_free L_filetable t" "procTable t = procTable s" "vmas t = vmas s" "fileTable t = fileTable s"
    using assms(1,2) by (simp_all add: t_def)
  define u where "u = (masked t)\<lparr>fileTable := (fileTable t)(f := (fileTable t f)\<lparr>f_ref := f_ref (fileTable t f) + 1\<rparr>)\<rparr>"
  have u: "procTable u = procTable s" "vmas u = vmas s" "fileTable u = (fileTable s)(f := (fileTable s f)\<lparr>f_ref := f_ref (fileTable s f) + 1\<rparr>)"
    "ram u = ram s"
    by (simp_all add: u_def t) (simp add: t_def)
  have d: "vfsdup f t = Inr (f, u)" using vfsdup_ready [of t f] assms(7) t(1,2) by (simp add: t u_def ready_def)
  have "sys_mmap s = Some (mmap_place (Some p) (Some a) f (ucast (arg 1 p s)) (ucast (arg 2 p s)) (ucast (arg 3 p s)) u)"
    using assms d allocVma_cong [OF t(4)]
    by (simp add: sys_mmap_def q argaddr_quiet argint_quiet argfd_quiet Let_def t_def)
  moreover have "let n = mapped_length p s + unat l in n < 2 ^ 31 \<longrightarrow> unat (mmap_addr (vma_total p s) l) mod 4096 = 0
     \<and> unat (mmap_addr (vma_total p s) l) + n \<le> unat (MAXVA - 5 * PGSIZE)
     \<and> unat (MAXVA - 5 * PGSIZE) < unat (mmap_addr (vma_total p s) l) + n + 4096" for l
    unfolding Let_def
  proof (rule impI)
    assume n: "mapped_length p s + unat l < 2 ^ 31"
    hence "unat (vma_total p s) = mapped_length p s" by (intro vma_total_unat) simp
    thus "unat (mmap_addr (vma_total p s) l) mod 4096 = 0
      \<and> unat (mmap_addr (vma_total p s) l) + (mapped_length p s + unat l) \<le> unat (MAXVA - 5 * PGSIZE)
      \<and> unat (MAXVA - 5 * PGSIZE) < unat (mmap_addr (vma_total p s) l) + (mapped_length p s + unat l) + 4096"
      using mmap_addr_room [of "vma_total p s" l] n by (simp only: Let_def)
  qed
  ultimately show ?thesis using mmap_place_spec [of u p a "ucast (arg 1 p s)" f "ucast (arg 2 p s)" "ucast (arg 3 p s)"] assms(9) vma_total_cong [OF u(1,2)]
    by (simp add: Let_def u cong: option.case_cong)
qed

text \<open>two mappings that fit in a page together are given the same address: the second one lies over the
  first, because only the sum of the lengths is rounded.\<close>

theorem mmap_small_areas_overlap:
  assumes "0 < unat used" "0 < unat len" "unat used + unat len \<le> 4096"
  shows "mmap_addr used len = mmap_addr 0 used"
proof -
  have m: "mmap_addr u l = MAXVA - PGSIZE * 6" if h: "0 < unat u + unat l" "unat u + unat l \<le> 4096" for u l :: u32
  proof -
    have s: "scast w = (word_of_nat (unat w) :: u64)" if "unat w \<le> 4096" for w :: u32
    proof -
      have u: "uint w \<le> 4096" using that unfolding uint_nat by linarith
      have "sint w = uint w" unfolding sint_uint by (rule signed_take_bit_int_eq_self) (use u in simp_all, rule order_trans [OF _ uint_ge_0], simp)
      hence "sint w = int (unat w)" unfolding uint_nat .
      thus ?thesis by (metis of_int_sint of_int_of_nat_eq)
    qed
    have g: "unat (0x3FFFFFB000 - (word_of_nat n :: u64)) = 0x3FFFFFB000 - n" if "n \<le> 4096" for n
      using that by (simp add: unat_sub word_le_nat_alt unat_of_nat)
    define n where "n = unat u + unat l"
    have n: "n \<le> 4096" "0 < n" using h by (simp_all add: n_def)
    have "scast u + scast l = (word_of_nat n :: u64)" using h s [of u] s [of l] by (simp only: n_def of_nat_add)
    hence e: "MAXVA - PGSIZE * 5 - scast u - scast l = 0x3FFFFFB000 - (word_of_nat n :: u64)"
      by (simp add: MAXVA_def PGSIZE_def diff_diff_eq)
    note g [OF n(1)]
    moreover have "(0x3FFFFFB000 - n) div 4096 = 0x3FFFFFA" using n by simp
    ultimately have "unat (mmap_addr u l) = 0x3FFFFFA000" by (simp only: mmap_addr_def e unat_PGROUNDDOWN)
    thus ?thesis by (simp add: word_unat_eq_iff MAXVA_def PGSIZE_def)
  qed
  show ?thesis using m [of used len] m [of 0 used] assms by simp
qed

section \<open>The table of system calls\<close>

text \<open>while the table is as it is at boot, and no code of the kernel calls \<open>syscall_init\<close>, every system
  call of every process ends in a panic or a fault: none ever returns to the process.\<close>

theorem syscall_without_init:
  assumes "\<forall>n. syscalls s n = None"
  shows "\<exists>e. syscall env code s = Some (Inl e)"
proof (cases "myproc s")
  case (Inr x)
  obtain p s1 where x: "myproc s = Inr (p, s1)" using Inr by (cases x) auto
  have "syscalls s1 = syscalls s"
    using x by (auto simp: myproc_def curproc_def pop_off_def null_deref_def res_simps Let_def push_off_def hart_defs
        split: option.splits if_splits)
  moreover have "\<exists>e. bnd r (\<lambda>s. Inl (Panic ''syscall error'')) = Inl e" for r :: "'a sys_state_scheme res"
    by (cases r) auto
  hence "\<exists>e. unknown_call p n s1 = Inl e" for n
    unfolding unknown_call_def by (cases "string_at (ram s1) (p_name (procTable s1 p))") auto
  ultimately show ?thesis using assms x by (auto simp: syscall_def opt_bnd_def Let_def)
qed (simp add: syscall_def opt_bnd_def)

text \<open>After \<open>syscall_init\<close>, a number below 400 has a handler exactly when the table names it.\<close>

lemma syscall_init_entry:
  "n < NSYSCALLS \<Longrightarrow> syscalls (syscall_init s) n = map_of (rev syscall_table) n"
proof -
  have f: "fold (\<lambda>(n, h) t. t(n := Some h)) xs t = t ++ map_of (rev xs)" for xs :: "(nat \<times> handler) list" and t
    by (induction xs arbitrary: t) (auto simp: map_add_def fun_eq_iff split: option.splits)
  show "n < NSYSCALLS \<Longrightarrow> ?thesis" unfolding syscall_init_def f by (simp add: map_add_def split: option.splits)
qed

section \<open>Witnesses\<close>

definition sys_machine :: sys_state where
  "sys_machine = vfs_state.extend (vfs_machine\<lparr>ram := (\<lambda>_. 0)(120 := 100),
       procTable := (procTable vfs_machine)(2 := zero_proc\<lparr>p_ofile := (\<lambda>_. None)(0 := Some 7)\<rparr>),
       fileTable := zero_table(7 := zero_file\<lparr>f_ref := 1\<rparr>)\<rparr>)
     (sys_state.fields (\<lambda>_. None))"

lemma sys_machine_fields:
  "quiet sys_machine" "lock_free l sys_machine" "cproc (curcpu sys_machine) = Some 2" "ram sys_machine = (\<lambda>_. 0)(120 := 100)"
  "procTable sys_machine 2 = zero_proc\<lparr>p_ofile := (\<lambda>_. None)(0 := Some 7)\<rparr>"
  "fileTable sys_machine 7 = zero_file\<lparr>f_ref := 1\<rparr>" "vmas sys_machine a = zero_vma" "syscalls sys_machine n = None"
  "depth sys_machine = 0"
  by (simp_all add: sys_machine_def vfs_machine_def bio_machine_def sd_machine_def console_state.defs sd_state.defs bio_state.defs vfs_state.defs
      sys_state.defs console_hart_def pipe_state.defs pipe_hart_def sleep_state.defs sleepy_def proc_state.defs one_proc_def quiet_def hart_defs
      lock_free_def depth_def)

theorem descriptor_calls_fail_witness: "\<exists>e. sys_close sys_machine = Some (Inl e)"
  using descriptor_calls_fail [of sys_machine undefined 0 undefined] sys_machine_fields(9) by simp

theorem sys_mmap_spec_witness: "\<exists>s'. sys_mmap sys_machine = Some (Inr (mmap_addr 0 100, s'))"
proof -
  have e: "(\<lambda>_. 0)(120 := 100) = (\<lambda>b. if b = 120 then 100 else 0 :: u8)" by auto
  have a: "arg 1 2 sys_machine = 100" "arg 2 2 sys_machine = 0" "arg 3 2 sys_machine = 0" "arg 4 2 sys_machine = 0"
    unfolding arg_def sys_machine_fields zero_proc_def e TF_a_def by (simp_all, code_simp+)
  have t: "vma_total 2 sys_machine = 0" by (simp add: vma_total_def sys_machine_fields zero_proc_def)
  have v: "allocVma sys_machine = Some 0" by (simp add: allocVma_def NVMA_def sys_machine_fields zero_vma_def eval_nat_numeral)
  show ?thesis
    using sys_mmap_spec [of sys_machine 2 0 7 0]
    by (auto simp: sys_machine_fields a a(1) [simplified] t v to_int_def NOFILE_def zero_proc_def zero_file_def Let_def)
qed

theorem mmap_small_areas_overlap_witness: "mmap_addr 100 200 = mmap_addr 0 100"
  using mmap_small_areas_overlap [of 100 200] by simp

theorem syscall_without_init_witness: "\<forall>env code. \<exists>e. syscall env code sys_machine = Some (Inl e)"
  using syscall_without_init [of sys_machine] by (simp add: sys_machine_fields)

end
