(* ===== verification/Trap.thy ===== *)
theory Trap
  imports Syscall
begin

text \<open>
  Traps, \<open>trap/trap.cpp\<close>, the interrupt controller, \<open>trap/plic.cpp\<close>, and \<open>forkret\<close> of \<open>proc/proc.cpp\<close>, the
  first code of a new process, in the K210 build. The entry and the exit of the kernel in assembly are not
  modelled: a return to user mode is the arguments of the jump into the trampoline.
\<close>

section \<open>State\<close>

text \<open>
  The supervisor registers; the bit \<open>SIE\<close> of \<open>sstatus\<close> is \<open>sie\<close> of the hart, the other bits are in
  \<open>sstatus_rest\<close>. \<open>mmio32\<close> holds the enable and priority registers of the interrupt controller, \<open>plic_next\<close> what the
  next reads of its claim register give (0 when there is nothing left), \<open>plic_done\<close> the completions written; \<open>sbi_in\<close>
  what the next reads of the console give (-1 when there is nothing left); \<open>time_now\<close> is the \<open>time\<close> register and
  \<open>forkret_first\<close> the static variable of \<open>forkret\<close>.
\<close>

record trap_state = sys_state +
  stvec :: u64
  sepc :: u64
  scause :: u64
  stval :: u64
  satp :: u64
  sstatus_rest :: u64
  csr_sie :: u64
  mmio32 :: "u64 \<Rightarrow> u32"
  plic_next :: "u32 list"
  plic_done :: "(u64 \<times> u32) list"
  sbi_in :: "int list"
  time_now :: u64
  forkret_first :: bool

type_synonym 'a trap_env = "'a trap_state_ext sys_env"

definition r_sstatus :: "'a trap_state_scheme \<Rightarrow> u64" where
  "r_sstatus s = (sstatus_rest s AND NOT SSTATUS_SIE) OR (if sie s then SSTATUS_SIE else 0)"

definition w_sstatus :: "u64 \<Rightarrow> 'a trap_state_scheme \<Rightarrow> 'a trap_state_scheme" where
  "w_sstatus x s = s\<lparr>sstatus_rest := x AND NOT SSTATUS_SIE, sie := x AND SSTATUS_SIE \<noteq> 0\<rparr>"

definition SIE_SEIE :: u64 where "SIE_SEIE = push_bit 9 1"
definition SIE_STIE :: u64 where "SIE_STIE = push_bit 5 1"
definition SIE_SSIE :: u64 where "SIE_SSIE = push_bit 1 1"

section \<open>The interrupt controller\<close>

definition UART_IRQ :: u32 where "UART_IRQ = 33"
definition DISK_IRQ :: u32 where "DISK_IRQ = 27"

definition PLIC_MENABLE :: "nat \<Rightarrow> u64" where "PLIC_MENABLE hart = PLIC_V + 0x2000 + word_of_nat hart * 0x100"
definition PLIC_MCLAIM :: "nat \<Rightarrow> u64" where "PLIC_MCLAIM hart = PLIC_V + 0x200004 + word_of_nat hart * 0x2000"

definition writed :: "u32 \<Rightarrow> u64 \<Rightarrow> 'a trap_state_scheme \<Rightarrow> 'a trap_state_scheme" where
  "writed v a s = s\<lparr>mmio32 := (mmio32 s)(a := v)\<rparr>"

definition PlicInit :: "'a trap_state_scheme \<Rightarrow> 'a trap_state_scheme" where
  "PlicInit s =
     (let s = writed 1 (PLIC_V + ucast DISK_IRQ * 4) s
      in writed 1 (PLIC_V + ucast UART_IRQ * 4) s)"

definition PlicInitHart :: "'a trap_state_scheme \<Rightarrow> 'a trap_state_scheme" where
  "PlicInitHart s =
     (let hart_m_enable = PLIC_MENABLE (cpuid s);
          s = writed (mmio32 s hart_m_enable OR push_bit (unat DISK_IRQ) 1) hart_m_enable s;
          hart0_m_int_enable_hi = hart_m_enable + 4
      in writed (mmio32 s hart0_m_int_enable_hi OR push_bit (unat (UART_IRQ mod 32)) 1) hart0_m_int_enable_hi s)"

definition Plic_Claim :: "'a trap_state_scheme \<Rightarrow> u32 \<times> 'a trap_state_scheme" where
  "Plic_Claim s = (case plic_next s of [] \<Rightarrow> (0, s) | irq # rest \<Rightarrow> (irq, s\<lparr>plic_next := rest\<rparr>))"

definition Plic_Complete :: "u32 \<Rightarrow> 'a trap_state_scheme \<Rightarrow> 'a trap_state_scheme" where
  "Plic_Complete irq s = s\<lparr>plic_done := plic_done s @ [(PLIC_MCLAIM (cpuid s), irq)]\<rparr>"

section \<open>Device interrupts\<close>

definition sbi_console_getchar :: "'a trap_state_scheme \<Rightarrow> int \<times> 'a trap_state_scheme" where
  "sbi_console_getchar s = (case sbi_in s of [] \<Rightarrow> (- 1, s) | c # rest \<Rightarrow> (c, s\<lparr>sbi_in := rest\<rparr>))"

text \<open>An external interrupt; the SBI reports it as a software interrupt with 9 in \<open>stval\<close>.\<close>

definition external_intr :: "'a trap_state_scheme \<Rightarrow> 'a trap_state_scheme res" where
  "external_intr s =
     (let (irq, s) = Plic_Claim s in
      bnd (if irq = UART_IRQ then
             let (c, s) = sbi_console_getchar s in Inr (if c \<noteq> - 1 then consoleintr c s else s)
           else if irq = DISK_IRQ then Inr (disk_intr s)
           else if irq \<noteq> 0 then printf (bytes_of ''unexpected interrupt irq = %d'' @ [10]) [A_int irq] s
           else Inr s) (\<lambda>s. Inr (if irq \<noteq> 0 then Plic_Complete irq s else s)))"

definition DevIntr :: "'a trap_state_scheme \<Rightarrow> (int \<times> 'a trap_state_scheme) res" where
  "DevIntr s =
     (if scause s = 0x8000000000000001 \<and> stval s = 9 then bnd (external_intr s) (\<lambda>s. Inr (1, s))
      else if scause s = 0x8000000000000005 then bnd (timer_tick (time_now s) s) (\<lambda>s. Inr (2, s))
      else Inr (0, s))"

section \<open>Traps from the kernel\<close>

definition TrapInitHart :: "'a trap_state_scheme \<Rightarrow> 'a trap_state_scheme" where
  "TrapInitHart s =
     (let s = s\<lparr>stvec := addr_of s ''kernvec''\<rparr>;
          s = w_sstatus (r_sstatus s OR SSTATUS_SIE) s;
          s = s\<lparr>csr_sie := csr_sie s OR SIE_SEIE OR SIE_SSIE OR SIE_STIE\<rparr>
      in set_next_timeout (time_now s) s)"

text \<open>The report on a trap that is no interrupt, before the panic.\<close>

definition kernel_report :: "u64 \<Rightarrow> 'a trap_state_scheme \<Rightarrow> 'a trap_state_scheme res" where
  "kernel_report cause s =
     bnd (printf ([10] @ bytes_of ''scause %p'' @ [10]) [A_ptr cause] s) (\<lambda>s.
     bnd (printf (bytes_of ''sepc=%p stval=%p hart=%d'' @ [10]) [A_ptr (sepc s), A_ptr (stval s), A_int (word_of_nat (tp s))] s) (\<lambda>s.
     bnd (curproc s) (\<lambda>(p, s).
       case p of None \<Rightarrow> Inr s
       | Some p \<Rightarrow>
           (case string_at (ram s) (p_name (procTable s p)) of
              None \<Rightarrow> Inl (Hang ''printf'')
            | Some name \<Rightarrow> printf (bytes_of ''pid: %d, name: %s'' @ [10])
                [A_int (word_of_int (p_pid (procTable s p))), A_str (Some name)] s))))"

text \<open>\<open>curcpu()\<close> is the address of a global, never null; the current process is followed without a test.\<close>

definition KernelTrap :: "'a trap_env \<Rightarrow> 'a trap_state_scheme \<Rightarrow> 'a trap_state_scheme res" where
  "KernelTrap env s =
     (let pc = sepc s; sstatus = r_sstatus s; cause = scause s in
      if sstatus AND SSTATUS_SPP = 0 then Inl (Panic ''kerneltrap : not from supervisor mode'')
      else if intr_get s then Inl (Panic ''kerneltrap : interrupts enabled'')
      else bnd (DevIntr s) (\<lambda>(which_dev, s).
        if which_dev = 0 then bnd (kernel_report cause s) (\<lambda>s. Inl (Panic ''kerneltrap''))
        else bnd (if which_dev = 2 then
                    bnd (myproc s) (\<lambda>(p, s).
                      if p_state (procTable s p) = RUNNING then yield (env_switch env) s else Inr s)
                  else Inr s) (\<lambda>s.
          let s = s\<lparr>sepc := pc\<rparr> in Inr (w_sstatus sstatus s))))"

section \<open>Traps from user mode\<close>

text \<open>The memory after the four stores that prepare the frame for the next trap.\<close>

definition kernel_frame :: "nat \<Rightarrow> 'a trap_state_scheme \<Rightarrow> mem" where
  "kernel_frame p s =
     (let tf = p_trapframe (procTable s p);
          m = st64 (ram s) (tf + TF_kernel_satp) (satp s);
          m = st64 m (tf + TF_kernel_sp) (p_kstack (procTable s p) + PGSIZE);
          m = st64 m (tf + TF_kernel_trap) (addr_of s ''UserTrap'')
      in st64 m (tf + TF_kernel_hartid) (word_of_nat (tp s)))"

text \<open>What the trampoline is entered with: the address of the trap frame and the page table.\<close>

definition UserTrapRet :: "'a trap_state_scheme \<Rightarrow> ((u64 \<times> u64) \<times> 'a trap_state_scheme) res" where
  "UserTrapRet s =
     bnd (curproc s) (\<lambda>(p, s).
       let s = intr_off s;
           s = s\<lparr>stvec := TRAMPOLINE + (addr_of s ''uservec'' - trampoline s)\<rparr>
       in case p of None \<Rightarrow> null_deref
       | Some p \<Rightarrow>
           let tf = p_trapframe (procTable s p);
               s = s\<lparr>ram := kernel_frame p s\<rparr>;
               x = r_sstatus s;
               x = x AND NOT SSTATUS_SPP;
               x = x OR SSTATUS_SPIE;
               s = w_sstatus x s;
               s = s\<lparr>sepc := ld64 (ram s) (tf + TF_epc)\<rparr>
           in Inr ((TRAPFRAME, MAKE_SATP (p_pagetable (procTable s p))), s))"

type_synonym 'a to_user = "((u64 \<times> u64) \<times> 'a trap_state_scheme) res option"

text \<open>A load or store at an address of a mapped area: a page is filled from the file.\<close>

definition PROT_READ :: u32 where "PROT_READ = 1"
definition PROT_WRITE :: u32 where "PROT_WRITE = 2"

definition area_perm :: "u32 \<Rightarrow> u64" where
  "area_perm prot = PTE_V OR PTE_U OR (if prot AND PROT_READ \<noteq> 0 then PTE_R else 0)
     OR (if prot AND PROT_WRITE \<noteq> 0 then PTE_W else 0)"

definition page_fault :: "'a trap_env \<Rightarrow> nat \<Rightarrow> 'a trap_state_scheme \<Rightarrow> 'a trap_state_scheme res option" where
  "page_fault env p s =
     (let eaddr = stval s in
      case (case find_area p eaddr s of None \<Rightarrow> None | Some i \<Rightarrow> p_vma (procTable s p) i) of
        None \<Rightarrow> Some (Inr (upd_proc p (\<lambda>q. q\<lparr>p_killed := 1\<rparr>) s))
      | Some v \<Rightarrow>
          opt_bnd (Some (kalloc s)) (\<lambda>(mem, s).
            if mem = 0 then Some null_deref
            else
              let s = zero_page mem s; eaddr = PGROUNDDOWN eaddr; a = vmas s v in
              opt_bnd (Some (MapPages (p_pagetable (procTable s p)) eaddr mem PGSIZE (area_perm (v_prot a)) s)) (\<lambda>(_, s).
              opt_bnd (vfsread_file (env_switch env) (v_f a) 0 mem PGSIZE (eaddr - v_addr a) s) (\<lambda>(_, s).
                Some (Inr s)))))"

definition user_report :: "nat \<Rightarrow> 'a trap_state_scheme \<Rightarrow> 'a trap_state_scheme res" where
  "user_report p s =
     (case string_at (ram s) (p_name (procTable s p)) of
        None \<Rightarrow> Inl (Hang ''printf'')
      | Some name \<Rightarrow>
          bnd (printf ([10] @ bytes_of ''UserTrap(): unexpected scause %p pid=%d %s'' @ [10])
                 [A_ptr (scause s), A_int (word_of_int (p_pid (procTable s p))), A_str (Some name)] s) (\<lambda>s.
          bnd (printf (bytes_of ''    sepc=%p stval=%p'' @ [10]) [A_ptr (sepc s), A_ptr (stval s)] s) (\<lambda>s.
            Inr (upd_proc p (\<lambda>q. q\<lparr>p_killed := 1\<rparr>) s))))"

text \<open>What is common to all traps after they were handled.\<close>

definition user_trap_end :: "'a trap_env \<Rightarrow> nat \<Rightarrow> int \<Rightarrow> 'a trap_state_scheme \<Rightarrow> 'a to_user" where
  "user_trap_end env p which_dev s =
     opt_bnd (if p_killed (procTable s p) \<noteq> 0 then exit (env_switch env) (- 1) s else Some (Inr s)) (\<lambda>s.
     opt_bnd (Some (if which_dev = 2 then yield (env_switch env) s else Inr s)) (\<lambda>s.
       Some (UserTrapRet s)))"

text \<open>\<open>code\<close> gives the addresses of the handlers, for the trace.\<close>

definition UserTrap :: "'a trap_env \<Rightarrow> (handler \<Rightarrow> u64) \<Rightarrow> 'a trap_state_scheme \<Rightarrow> 'a to_user" where
  "UserTrap env code s =
     (if r_sstatus s AND SSTATUS_SPP \<noteq> 0 then Some (Inl (Panic ''UserTrap: not from user mode''))
      else let s = s\<lparr>stvec := addr_of s ''kernvec''\<rparr> in
      opt_bnd (Some (myproc s)) (\<lambda>(p, s).
        let epc = p_trapframe (procTable s p) + TF_epc;
            s = s\<lparr>ram := st64 (ram s) epc (sepc s)\<rparr> in
        if scause s = 8 then
          opt_bnd (if p_killed (procTable s p) \<noteq> 0 then exit (env_switch env) (- 1) s else Some (Inr s)) (\<lambda>s.
            let s = s\<lparr>ram := st64 (ram s) epc (ld64 (ram s) epc + 4)\<rparr>; s = intr_on s in
            opt_bnd (syscall env code s) (user_trap_end env p 0))
        else if scause s = 13 \<or> scause s = 5 then opt_bnd (page_fault env p s) (user_trap_end env p 0)
        else opt_bnd (Some (DevIntr s)) (\<lambda>(which_dev, s).
          if which_dev \<noteq> 0 then user_trap_end env p which_dev s
          else opt_bnd (Some (user_report p s)) (user_trap_end env p 0))))"

definition forkret :: "'a trap_state_scheme \<Rightarrow> ((u64 \<times> u64) \<times> 'a trap_state_scheme) res" where
  "forkret s =
     bnd (myproc s) (\<lambda>(p, s).
     bnd (release (L_proc p) s) (\<lambda>s.
     bnd (if forkret_first s then vfsinit (s\<lparr>forkret_first := False\<rparr>) else Inr s) UserTrapRet))"

section \<open>Printing a trap frame\<close>

text \<open>The registers in the order they are printed: name, offset, and whether the line ends.\<close>

definition dump_regs :: "(string \<times> u64 \<times> bool) list" where
  "dump_regs =
     [(''a0'', 112, False), (''a1'', 120, False), (''a2'', 128, False), (''a3'', 136, True),
      (''a4'', 144, False), (''a5'', 152, False), (''a6'', 160, False), (''a7'', 168, True),
      (''t0'', 72, False), (''t1'', 80, False), (''t2'', 88, False), (''t3'', 256, True),
      (''t4'', 264, False), (''t5'', 272, False), (''t6'', 280, False), (''s0'', 96, True),
      (''s1'', 104, False), (''s2'', 176, False), (''s3'', 184, False), (''s4'', 192, True),
      (''s5'', 200, False), (''s6'', 208, False), (''s7'', 216, False), (''s8'', 224, True),
      (''s9'', 232, False), (''s10'', 240, False), (''s11'', 248, False), (''ra'', 40, True),
      (''sp'', 48, False), (''gp'', 56, False), (''tp'', 64, False), (''epc'', 24, True)]"

fun dump_loop :: "u64 \<Rightarrow> (string \<times> u64 \<times> bool) list \<Rightarrow> 'a trap_state_scheme \<Rightarrow> 'a trap_state_scheme res" where
  "dump_loop tf [] s = Inr s"
| "dump_loop tf ((name, off, eol) # regs) s =
     bnd (printf (bytes_of name @ bytes_of '': %p'' @ [if eol then 10 else 9]) [A_ptr (ld64 (ram s) (tf + off))] s)
       (dump_loop tf regs)"

definition trapframeDump :: "u64 \<Rightarrow> 'a trap_state_scheme \<Rightarrow> 'a trap_state_scheme res" where
  "trapframeDump tf s = dump_loop tf dump_regs s"


section \<open>The status register\<close>

lemma sstatus_bit [simp]: "bit SSTATUS_SPP n \<longleftrightarrow> n = 8" "bit SSTATUS_SPIE n \<longleftrightarrow> n = 5"
proof -
  have e: "SSTATUS_SPP = 2 ^ 8" "SSTATUS_SPIE = 2 ^ 5" by (simp_all add: SSTATUS_SPP_def SSTATUS_SPIE_def)
  show "bit SSTATUS_SPP n \<longleftrightarrow> n = 8" unfolding e bit_exp_iff by auto
  show "bit SSTATUS_SPIE n \<longleftrightarrow> n = 5" unfolding e bit_exp_iff by auto
qed

lemma sie_bit: "x AND SSTATUS_SIE \<noteq> 0 \<longleftrightarrow> bit x 1"
  using and_exp_eq_0_iff_not_bit [of x 1] by (simp add: SSTATUS_SIE_def)

lemma r_w_sstatus [simp]: "r_sstatus (w_sstatus x s) = x"
proof -
  have "r_sstatus (w_sstatus x s) = (x AND NOT SSTATUS_SIE) OR (if bit x 1 then SSTATUS_SIE else 0)"
    by (simp add: r_sstatus_def w_sstatus_def sie_bit and.assoc)
  also have "\<dots> = x" by (rule bit_word_eqI) (auto simp: SSTATUS_SIE_def bit_simps)
  finally show ?thesis .
qed

lemma sstatus_SPP: "r_sstatus s AND SSTATUS_SPP = sstatus_rest s AND SSTATUS_SPP"
  by (rule bit_word_eqI) (auto simp: r_sstatus_def SSTATUS_SPP_def SSTATUS_SIE_def bit_simps)

section \<open>Timer interrupts in the kernel\<close>

lemma wakeup_state: "p_state (procTable (wakeup c s) p) = RUNNING \<longleftrightarrow> p_state (procTable s p) = RUNNING"
  by (simp add: wakeup_def Let_def)

text \<open>C38: a timer interrupt taken in the kernel by a hart that holds no lock: without a current process it is
  fatal, and so it is when the current process is RUNNING, since \<open>yield\<close> never returns; only with a current
  process in another state does it return, one tick later, with the sleepers on the clock runnable, the timer set
  again, and the interrupted program counter and status as they were.\<close>

theorem KernelTrap_timer:
  assumes "scause s = 0x8000000000000005" "r_sstatus s AND SSTATUS_SPP \<noteq> 0" "\<not> sie s" "ready L_ticks s"
  shows "case cproc (curcpu s) of
      None \<Rightarrow> KernelTrap env s = Inl (Panic ''kerneltrap'')
    | Some p \<Rightarrow>
        if p_state (procTable s p) = RUNNING then \<exists>e. KernelTrap env s = Inl e
        else \<exists>s'. KernelTrap env s = Inr s' \<and> ticks s' = ticks s + 1 \<and> timer_at s' = time_now s + INTERVAL
               \<and> procTable s' = procTable (wakeup Ch_ticks s) \<and> sepc s' = sepc s \<and> r_sstatus s' = r_sstatus s
               \<and> ram s' = ram s"
proof -
  define t where "t = set_next_timeout (time_now s) (masked (wakeup Ch_ticks (s\<lparr>ticks := ticks s + 1\<rparr>)))"
  have d: "DevIntr s = Inr (2, t)" using timer_tick_eq [OF assms(4)] assms(1) by (simp add: DevIntr_def t_def)
  have c: "cproc (curcpu t) = cproc (curcpu s)" "quiet t"
    using assms(4) by (simp_all add: t_def set_next_timeout_def wakeup_def masked_def hart_defs ready_def quiet_def)
  have f: "ticks t = ticks s + 1" "timer_at t = time_now s + INTERVAL" "procTable t = procTable (wakeup Ch_ticks s)"
    "ram t = ram s"
    by (simp_all add: t_def set_next_timeout_def masked_def wakeup_def)
  show ?thesis
  proof (cases "cproc (curcpu s)")
    case None
    thus ?thesis using assms(2,3) c by (simp add: KernelTrap_def d intr_get_def myproc_def curproc_masked null_deref_def)
  next
    case (Some p)
    have m: "myproc t = Inr (p, masked t)" using myproc_quiet c Some by simp
    have k: "KernelTrap env s = bnd (if p_state (procTable s p) = RUNNING then yield (env_switch env) (masked t) else Inr (masked t))
        (\<lambda>u. Inr (w_sstatus (r_sstatus s) (u\<lparr>sepc := sepc s\<rparr>)))"
      using assms(2,3) by (simp add: KernelTrap_def d intr_get_def m f wakeup_state)
    show ?thesis
    proof (cases "p_state (procTable s p) = RUNNING")
      case True
      obtain e where "yield (env_switch env) (masked t) = Inl e" using yield_stops by blast
      thus ?thesis using Some True k by simp
    next
      case False
      have g: "ticks (masked t) = ticks t" "timer_at (masked t) = timer_at t" by (simp_all add: masked_def)
      show ?thesis using Some False k f g by (simp add: w_sstatus_def r_w_sstatus [unfolded w_sstatus_def])
    qed
  qed
qed

section \<open>Device interrupts\<close>

text \<open>What the console, the scheduler and \<open>printf\<close> leave alone.\<close>

lemma trap_frame [simp]:
  "trap_state.plic_done (consoleintr c s) = plic_done s" "plic_next (consoleintr c s) = plic_next s" "tp (consoleintr c s) = tp s"
  "plic_done (disk_intr s) = plic_done s" "plic_next (disk_intr s) = plic_next s" "tp (disk_intr s) = tp s"
  by (simp_all add: consoleintr_def consputc_def sbi_console_putchar_def cons_put_def Let_def wakeup_def disk_intr_def dmac_intr_def)


definition plic_view :: "'a trap_state_scheme \<Rightarrow> u32 list \<times> (u64 \<times> u32) list \<times> nat" where
  "plic_view s = (plic_next s, plic_done s, tp s)"

lemma plic_view_console [simp]:
  "plic_view (consputc c s) = plic_view s" "plic_view (consoleintr c s) = plic_view s" "plic_view (disk_intr s) = plic_view s"
  by (simp_all add: plic_view_def consoleintr_def consputc_def sbi_console_putchar_def cons_put_def Let_def wakeup_def disk_intr_def dmac_intr_def)

lemma plic_view_put_bytes [simp]: "plic_view (put_bytes bs s) = plic_view s"
  unfolding put_bytes_def by (induction bs arbitrary: s) simp_all

lemma plic_view_locks:
  "acquire l s = Inr s' \<Longrightarrow> plic_view s' = plic_view s" "release l s = Inr s' \<Longrightarrow> plic_view s' = plic_view s"
  by (auto simp: plic_view_def acquire_def release_def pop_off_def push_off_def hart_defs Let_def split: if_splits)

lemma plic_view_printf_loop: "printf_loop fmt args s = Inr s' \<Longrightarrow> plic_view s' = plic_view s"
  by (induction fmt args s rule: printf_loop.induct)
     (auto simp: printint_def printptr_def split: if_splits list.splits fmt_arg.splits)

lemma plic_view_printf: "printf fmt args s = Inr s' \<Longrightarrow> plic_view s' = plic_view s"
  by (auto simp: printf_def res_simps Let_def split: if_splits dest!: plic_view_locks plic_view_printf_loop)

text \<open>C39: every external interrupt that \<open>DevIntr\<close> returns from took one request from the controller, and that
  request is completed, once, at the claim register of the same hart, whatever device it came from; a claim that
  finds nothing is not completed.\<close>

theorem interrupts_completed:
  assumes "DevIntr s = Inr (1, s')"
  shows "plic_next s' = tl (plic_next s)
    \<and> plic_done s' = plic_done s @ (case plic_next s of [] \<Rightarrow> [] | irq # _ \<Rightarrow> if irq = 0 then [] else [(PLIC_MCLAIM (cpuid s), irq)])"
proof -
  have e: "external_intr s = Inr s'" using assms by (auto simp: DevIntr_def res_simps split: if_splits)
  define irq t where "irq = fst (Plic_Claim s)" and "t = snd (Plic_Claim s)"
  have t: "plic_view t = (tl (plic_next s), plic_done s, tp s)" "irq = (case plic_next s of [] \<Rightarrow> 0 | x # _ \<Rightarrow> x)"
    by (auto simp: irq_def t_def Plic_Claim_def plic_view_def split: list.splits)
  have g: "plic_view (snd (sbi_console_getchar u)) = plic_view u" for u :: "'a trap_state_scheme"
    by (auto simp: sbi_console_getchar_def plic_view_def split: list.splits)
  define body where "body = (if irq = UART_IRQ then
             let (c, s) = sbi_console_getchar t in Inr (if c \<noteq> - 1 then consoleintr c s else s)
           else if irq = DISK_IRQ then Inr (disk_intr t)
           else if irq \<noteq> 0 then printf (bytes_of ''unexpected interrupt irq = %d'' @ [10]) [A_int irq] t
           else Inr t)"
  have "external_intr s = bnd body (\<lambda>s. Inr (if irq \<noteq> 0 then Plic_Complete irq s else s))"
    by (simp add: external_intr_def body_def irq_def t_def split_beta)
  then obtain u where u: "body = Inr u" "s' = (if irq \<noteq> 0 then Plic_Complete irq u else u)"
    using e by (cases body) auto
  have "plic_view u = plic_view t"
    using u(1) g [of t] by (auto simp: body_def split_beta Let_def split: if_splits dest: plic_view_printf)
  thus ?thesis using t u(2) by (auto simp: plic_view_def Plic_Complete_def hart_defs split: list.splits)
qed

section \<open>Returning to user mode\<close>

text \<open>The fields of a trap frame are slots of its page.\<close>

lemma tf_fields:
  "TF_kernel_satp = 8 * word_of_nat 0" "TF_kernel_sp = 8 * word_of_nat 1" "TF_kernel_trap = 8 * word_of_nat 2"
  "TF_epc = 8 * word_of_nat 3" "TF_kernel_hartid = 8 * word_of_nat 4" "TF_a n = 8 * word_of_nat (14 + n)"
  by (simp_all add: TF_kernel_satp_def TF_kernel_sp_def TF_kernel_trap_def TF_epc_def TF_kernel_hartid_def TF_a_def)

lemma ld64_slot_other:
  "unat tf mod 4096 = 0 \<Longrightarrow> i < 512 \<Longrightarrow> j < 512 \<Longrightarrow> i \<noteq> j \<Longrightarrow>
   ld64 (st64 m (tf + 8 * word_of_nat j) v) (tf + 8 * word_of_nat i) = ld64 m (tf + 8 * word_of_nat i)"
  using ld64_st64_other [of "slot tf i" "slot tf j" m v] slot_mod8 [of tf i] slot_mod8 [of tf j] slot_eq_iff [of tf tf i j]
  by simp

lemma ld64_four_slots:
  assumes "unat tf mod 4096 = 0" "distinct [a, b, c, d]" "a < 512" "b < 512" "c < 512" "d < 512" "k < 512"
  shows "ld64 (st64 (st64 (st64 (st64 m (slot tf a) va) (slot tf b) vb) (slot tf c) vc) (slot tf d) vd) (slot tf k)
    = (if k = d then vd else if k = c then vc else if k = b then vb else if k = a then va else ld64 m (slot tf k))"
  using assms by (auto simp: ld64_slot_other)

lemma st64_outside: "8 \<le> unat (x - a) \<Longrightarrow> st64 m a v x = m x"
  by (simp add: st64_def stn_apply)

text \<open>C40: from a hart that holds no lock, \<open>UserTrapRet\<close> leaves the kernel through the trampoline with the frame and
  the page table of the current process: interrupts are off until the return enables them, the return goes to
  user mode and to the saved program counter, the trap vector is the trampoline's entry, and the frame holds
  what the next trap needs. Of the 512 words of the frame's page only the four of the kernel change, so the
  saved program counter and all 31 saved registers are as they were, and no other byte of memory changes.\<close>

theorem UserTrapRet_spec:
  assumes "quiet s" "cproc (curcpu s) = Some p" "tf = p_trapframe (procTable s p)" "unat tf mod 4096 = 0"
  shows "\<exists>s'. UserTrapRet s = Inr ((TRAPFRAME, MAKE_SATP (p_pagetable (procTable s p))), s')
    \<and> r_sstatus s' AND SSTATUS_SPP = 0 \<and> r_sstatus s' AND SSTATUS_SPIE = SSTATUS_SPIE \<and> \<not> sie s'
    \<and> sepc s' = ld64 (ram s) (tf + TF_epc) \<and> stvec s' = TRAMPOLINE + (addr_of s ''uservec'' - trampoline s)
    \<and> ld64 (ram s') (tf + TF_kernel_satp) = satp s
    \<and> ld64 (ram s') (tf + TF_kernel_sp) = p_kstack (procTable s p) + PGSIZE
    \<and> ld64 (ram s') (tf + TF_kernel_trap) = addr_of s ''UserTrap''
    \<and> ld64 (ram s') (tf + TF_kernel_hartid) = word_of_nat (tp s)
    \<and> (\<forall>k < 512. k \<notin> {0, 1, 2, 4} \<longrightarrow> ld64 (ram s') (tf + 8 * word_of_nat k) = ld64 (ram s) (tf + 8 * word_of_nat k))
    \<and> (\<forall>x. (\<forall>k \<in> {0, 1, 2, 4}. 8 \<le> unat (x - (tf + 8 * word_of_nat k))) \<longrightarrow> ram s' x = ram s x)
    \<and> procTable s' = procTable s"
proof -
  define t where "t = (intr_off (masked s))\<lparr>stvec := TRAMPOLINE + (addr_of s ''uservec'' - trampoline s)\<rparr>"
  define u where "u = t\<lparr>ram := kernel_frame p t\<rparr>"
  define x where "x = (r_sstatus u AND NOT SSTATUS_SPP) OR SSTATUS_SPIE"
  define s' where "s' = (w_sstatus x u)\<lparr>sepc := ld64 (ram u) (tf + TF_epc)\<rparr>"
  have f: "satp t = satp s" "addr_of t = addr_of s" "trampoline (intr_off (masked s)) = trampoline s" "tp t = tp s"
    "procTable t = procTable s" "ram t = ram s" "\<not> sie t" "addr_of (intr_off (masked s)) = addr_of s"
    by (simp_all add: t_def masked_def intr_off_def)
  have w: "ram (w_sstatus x u) = ram u" "procTable (w_sstatus x u) = procTable u" "stvec (w_sstatus x u) = stvec u"
    by (simp_all add: w_sstatus_def)
  have u: "procTable u = procTable s" "stvec u = TRAMPOLINE + (addr_of s ''uservec'' - trampoline s)" "\<not> sie u"
    "ram u = kernel_frame p t"
    by (simp_all add: u_def f) (simp add: t_def)
  have "UserTrapRet s = Inr ((TRAPFRAME, MAKE_SATP (p_pagetable (procTable s p))), s')"
    unfolding UserTrapRet_def curproc_quiet [OF assms(1,2)] bnd.simps prod.case Let_def f option.case
    unfolding t_def [symmetric] u_def [symmetric] x_def [symmetric]
    by (simp add: s'_def w u assms(3) f(5))
  moreover have "r_sstatus s' = r_sstatus (w_sstatus x u)" by (simp add: s'_def r_sstatus_def)
  hence "r_sstatus s' = x" by simp
  moreover have "x AND SSTATUS_SPP = 0" "x AND SSTATUS_SPIE = SSTATUS_SPIE"
    unfolding x_def by (rule bit_word_eqI; auto simp: bit_simps)+
  moreover have "\<not> bit x 1" using u(3)
    by (simp add: x_def r_sstatus_def SSTATUS_SIE_def bit_simps)
  hence "\<not> sie s'" using sie_bit [of x] by (simp add: s'_def w_sstatus_def)
  moreover have r: "ram s' = ram u" "sepc s' = ld64 (ram u) (tf + TF_epc)" "stvec s' = stvec u" "procTable s' = procTable s"
    by (simp_all add: s'_def w u)
  moreover have fr: "ld64 (ram u) (slot tf k) =
      (if k = 4 then word_of_nat (tp s) else if k = 2 then addr_of s ''UserTrap'' else if k = 1 then p_kstack (procTable s p) + PGSIZE
       else if k = 0 then satp s else ld64 (ram s) (slot tf k))" if "k < 512" for k
    unfolding u kernel_frame_def Let_def f assms(3) [symmetric] tf_fields
    by (rule ld64_four_slots) (use that assms(4) in simp_all)
  moreover have "\<forall>k < 512. k \<notin> {0, 1, 2, 4} \<longrightarrow> ld64 (ram s') (tf + 8 * word_of_nat k) = ld64 (ram s) (tf + 8 * word_of_nat k)"
    unfolding r(1) using fr by simp
  moreover have "ram s' x = ram s x" if "\<forall>k \<in> {0, 1, 2, 4}. 8 \<le> unat (x - (tf + 8 * word_of_nat k))" for x
    unfolding r(1) u kernel_frame_def Let_def f assms(3) [symmetric] tf_fields
    using that by (simp only: st64_outside ball_simps insert_iff simp_thms)
  note fr [of 0] fr [of 1] fr [of 2] fr [of 3] fr [of 4] this
  ultimately show ?thesis unfolding tf_fields by (simp add: u)
qed

section \<open>Witnesses\<close>

definition trap_machine :: trap_state where
  "trap_machine = sys_state.extend (sys_machine\<lparr>sie := False\<rparr>)
     (trap_state.fields 0 0x80210000 0x8000000000000005 0 0 SSTATUS_SPP 0 (\<lambda>_. 0) [33] [] [65] 1000 True)"

lemma trap_machine_fields:
  "quiet trap_machine" "lock_free l trap_machine" "cproc (curcpu trap_machine) = Some 2" "\<not> sie trap_machine"
  "procTable trap_machine 2 = zero_proc\<lparr>p_ofile := (\<lambda>_. None)(0 := Some 7)\<rparr>" "scause trap_machine = 0x8000000000000005"
  "sstatus_rest trap_machine = SSTATUS_SPP" "ticks trap_machine = 0" "plic_next trap_machine = [33]" "plic_done trap_machine = []"
  "sbi_in trap_machine = [65]" "cpuid trap_machine = 0"
  by (simp_all add: trap_machine_def sys_machine_def vfs_machine_def bio_machine_def sd_machine_def console_state.defs sd_state.defs
      bio_state.defs vfs_state.defs sys_state.defs trap_state.defs console_hart_def pipe_state.defs pipe_hart_def sleep_state.defs
      sleepy_def proc_state.defs one_proc_def quiet_def hart_defs lock_free_def)

theorem KernelTrap_timer_witness: "\<forall>env. \<exists>s'. KernelTrap env trap_machine = Inr s' \<and> ticks s' = 1"
proof
  fix env
  have p: "r_sstatus trap_machine AND SSTATUS_SPP \<noteq> 0" by (simp add: sstatus_SPP trap_machine_fields) (simp add: SSTATUS_SPP_def)
  show "\<exists>s'. KernelTrap env trap_machine = Inr s' \<and> ticks s' = 1"
    using KernelTrap_timer [of trap_machine env] p by (auto simp: trap_machine_fields ready_def zero_proc_def)
qed

theorem interrupts_completed_witness:
  "plic_done (snd (the (case DevIntr (trap_machine\<lparr>scause := 0x8000000000000001, stval := 9\<rparr>) of Inr x \<Rightarrow> Some x | Inl _ \<Rightarrow> None)))
     = [(PLIC_MCLAIM 0, 33)]"
proof -
  define s where "s = trap_machine\<lparr>scause := 0x8000000000000001, stval := 9\<rparr>"
  have f: "plic_next s = [33]" "plic_done s = []" "sbi_in s = [65]" "scause s = 0x8000000000000001" "stval s = 9" "cpuid s = 0"
    by (simp_all add: s_def trap_machine_fields cpuid_def, simp add: trap_machine_fields flip: cpuid_def)
  obtain s' where d: "DevIntr s = Inr (1, s')"
    by (simp add: DevIntr_def external_intr_def Plic_Claim_def f UART_IRQ_def sbi_console_getchar_def Let_def)
  show ?thesis using interrupts_completed [OF d] by (simp add: d f flip: s_def)
qed

theorem UserTrapRet_spec_witness:
  "\<exists>s'. UserTrapRet trap_machine = Inr ((TRAPFRAME, MAKE_SATP 0), s') \<and> r_sstatus s' AND SSTATUS_SPP = 0"
  using UserTrapRet_spec [of trap_machine 2 0] by (auto simp: trap_machine_fields zero_proc_def)

end
