(* ===== verification/Registers.thy ===== *)
theory Registers
  imports Prelude
begin

text \<open>
  Device registers as the headers declare them: a packed C structure of bit fields is the list of
  its fields with their widths, the first at bit 0. Reading and assigning a field are the
  operations of the code; what one assignment leaves of the other fields is proved once for all
  layouts.
\<close>

type_synonym layout = "(string \<times> nat) list"

text \<open>The offset and the width of a field.\<close>

primrec field_at :: "layout \<Rightarrow> string \<Rightarrow> (nat \<times> nat) option" where
  "field_at [] f = None"
| "field_at (x # l) f =
     (if f = fst x then Some (0, snd x) else map_option (\<lambda>(off, w). (snd x + off, w)) (field_at l f))"

text \<open>A structure of \<open>n\<close> bits, its fields of at least one bit and with different names.\<close>

definition layout_ok :: "nat \<Rightarrow> layout \<Rightarrow> bool" where
  "layout_ok n l \<longleftrightarrow> distinct (map fst l) \<and> (\<forall>w \<in> set (map snd l). 0 < w) \<and> sum_list (map snd l) \<le> n"

definition get_bits :: "layout \<Rightarrow> string \<Rightarrow> 'w::len word \<Rightarrow> 'w word" where
  "get_bits l f r = (case field_at l f of None \<Rightarrow> 0 | Some (off, w) \<Rightarrow> take_bit w (drop_bit off r))"

definition put_bits :: "layout \<Rightarrow> string \<Rightarrow> 'w::len word \<Rightarrow> 'w word \<Rightarrow> 'w word" where
  "put_bits l f v r =
     (case field_at l f of
        None \<Rightarrow> r
      | Some (off, w) \<Rightarrow> r AND NOT (push_bit off (mask w)) OR push_bit off (take_bit w v))"

text \<open>Several assignments, one after the other.\<close>

definition put_all :: "layout \<Rightarrow> (string \<times> 'w::len word) list \<Rightarrow> 'w word \<Rightarrow> 'w word" where
  "put_all l fvs r = fold (\<lambda>(f, v). put_bits l f v) fvs r"

text \<open>
  What assignments leave in a register: every field assigned to has its value, the others are as
  they were. A value fits a field when no bit of it is cut.
\<close>

definition assigned :: "layout \<Rightarrow> (string \<times> 'w::len word) list \<Rightarrow> 'w word \<Rightarrow> 'w word \<Rightarrow> bool" where
  "assigned l fvs r r' \<longleftrightarrow>
     list_all (\<lambda>(f, v). get_bits l f r' = v) fvs \<and> (\<forall>g. g \<notin> fst ` set fvs \<longrightarrow> get_bits l g r' = get_bits l g r)"

definition fits :: "layout \<Rightarrow> string \<times> 'w::len word \<Rightarrow> bool" where
  "fits l = (\<lambda>(f, v). case field_at l f of None \<Rightarrow> False | Some (off, w) \<Rightarrow> take_bit w v = v)"

section \<open>Fields do not overlap\<close>

lemma field_at_bound: "field_at l f = Some (off, w) \<Longrightarrow> off + w \<le> sum_list (map snd l)"
proof (induction l arbitrary: off)
  case (Cons x l)
  show ?case
  proof (cases "f = fst x")
    case True
    with Cons.prems show ?thesis by simp
  next
    case False
    with Cons.prems obtain o' where "field_at l f = Some (o', w)" "off = snd x + o'" by auto
    with Cons.IH [OF this(1)] show ?thesis by simp
  qed
qed simp

lemma field_at_apart:
  assumes "field_at l f = Some (a, v)" "field_at l g = Some (b, w)" "f \<noteq> g"
  shows "a + v \<le> b \<or> b + w \<le> a"
  using assms
proof (induction l arbitrary: a b)
  case (Cons x l)
  show ?case
  proof (cases "f = fst x \<or> g = fst x")
    case True
    with Cons.prems show ?thesis by (auto split: if_splits)
  next
    case False
    with Cons.prems obtain a' b' where "field_at l f = Some (a', v)" "a = snd x + a'"
      "field_at l g = Some (b', w)" "b = snd x + b'" by auto
    with Cons.IH [of a' b'] Cons.prems(3) show ?thesis by auto
  qed
qed simp

lemma field_at_None: "field_at l f = None \<longleftrightarrow> f \<notin> fst ` set l"
  by (induction l) auto

lemma bit_put:
  "bit (r AND NOT (push_bit off (mask w)) OR push_bit off (take_bit w v) :: 'w::len word) i \<longleftrightarrow>
    i < LENGTH('w) \<and> (if off \<le> i \<and> i < off + w then bit v (i - off) else bit r i)"
  by (auto simp: bit_simps dest: bit_imp_le_length)

section \<open>The laws of the fields of a register\<close>

locale bit_fields =
  fixes l :: layout and ty :: "'w::len itself"
  assumes ok: "layout_ok LENGTH('w) l"
begin

lemma in_word: "field_at l f = Some (off, w) \<Longrightarrow> off + w \<le> LENGTH('w)"
  using ok field_at_bound unfolding layout_ok_def by (meson order_trans)

lemma get_put_same:
  "field_at l f = Some (off, w) \<Longrightarrow> get_bits l f (put_bits l f v r) = (take_bit w v :: 'w word)"
  using in_word [of f off w]
  by (simp only: get_bits_def put_bits_def option.case prod.case)
    (rule bit_word_eqI, auto simp: bit_simps dest: bit_imp_le_length)

lemma get_put_other:
  assumes "f \<noteq> g"
  shows "get_bits l g (put_bits l f v r) = (get_bits l g r :: 'w word)"
proof (cases "field_at l f")
  case (Some p)
  obtain a x where f: "field_at l f = Some (a, x)" using Some by (cases p) simp
  show ?thesis
  proof (cases "field_at l g")
    case (Some q)
    obtain b y where g: "field_at l g = Some (b, y)" using Some by (cases q) simp
    have "a + x \<le> b \<or> b + y \<le> a" using field_at_apart [OF f g assms] .
    then show ?thesis
      using in_word [OF g]
      by (simp only: get_bits_def put_bits_def f g option.case prod.case)
        (rule bit_word_eqI, auto simp: bit_simps dest: bit_imp_le_length)
  qed (simp add: get_bits_def)
qed (simp add: put_bits_def)

lemma get_put:
  "(get_bits l g (put_bits l f v r) :: 'w word) =
    (if f = g then (case field_at l f of None \<Rightarrow> 0 | Some (off, w) \<Rightarrow> take_bit w v) else get_bits l g r)"
  using get_put_same get_put_other by (auto simp: get_bits_def split: option.splits)

text \<open>After several assignments every field has the last value assigned to it, cut to its width.\<close>

lemma get_put_all:
  "(get_bits l g (put_all l fvs r) :: 'w word) =
    (case map_of (rev fvs) g of None \<Rightarrow> get_bits l g r
     | Some v \<Rightarrow> (case field_at l g of None \<Rightarrow> 0 | Some (off, w) \<Rightarrow> take_bit w v))"
proof (induction fvs rule: rev_induct)
  case (snoc x fvs)
  then show ?case
    by (cases x) (auto simp: put_all_def get_put)
qed (simp add: put_all_def)

lemma assigned_put_all:
  assumes "distinct (map fst fvs)" "list_all (fits l) fvs"
  shows "assigned l fvs (r :: 'w word) (put_all l fvs r)"
proof -
  have "get_bits l f (put_all l fvs r) = v" if "(f, v) \<in> set fvs" for f v
  proof -
    have "map_of (rev fvs) f = Some v" using that assms(1) by (subst map_of_eq_Some_iff) (simp_all add: rev_map [symmetric])
    moreover have "fits l (f, v)" using that assms(2) by (simp add: list_all_iff)
    ultimately show ?thesis by (auto simp: get_put_all fits_def split: option.splits)
  qed
  moreover have "get_bits l g (put_all l fvs r) = get_bits l g r" if "g \<notin> fst ` set fvs" for g
  proof -
    have "map_of (rev fvs) g = None" using that by (simp add: map_of_eq_None_iff)
    then show ?thesis by (simp add: get_put_all)
  qed
  ultimately show ?thesis by (auto simp: assigned_def list_all_iff)
qed

text \<open>Bits outside of the field assigned to stay.\<close>

lemma put_bits_outside:
  assumes "field_at l f = Some (off, w)" "i < off \<or> off + w \<le> i"
  shows "bit (put_bits l f v r :: 'w word) i = bit r i"
  using assms by (auto simp: put_bits_def bit_put dest: bit_imp_le_length)

lemma put_commute:
  assumes "f \<noteq> g"
  shows "put_bits l f v (put_bits l g u r) = (put_bits l g u (put_bits l f v r) :: 'w word)"
proof (cases "field_at l f = None \<or> field_at l g = None")
  case False
  then obtain a x b y where p: "field_at l f = Some (a, x)" "field_at l g = Some (b, y)" by auto
  have "a + x \<le> b \<or> b + y \<le> a" using field_at_apart [OF p assms] .
  then show ?thesis
    by (simp add: put_bits_def p) (rule bit_word_eqI, auto simp: bit_put)
qed (auto simp: put_bits_def split: option.splits)

end

section \<open>The members of a structure\<close>

text \<open>The members with their sizes in bytes, and the offsets they get in a packed structure.\<close>

fun members_at :: "nat \<Rightarrow> (string \<times> nat) list \<Rightarrow> (string \<times> nat) list" where
  "members_at off [] = []"
| "members_at off ((m, n) # ms) = (m, off) # members_at (off + n) ms"

end
