(* ===== verification/Sysctl.thy ===== *)
theory Sysctl
  imports Registers
begin

text \<open>
  The system controller, \<open>driver/sysctl.h\<close> and \<open>driver/sysctl.c\<close>: the layouts of its registers, the
  gates of the clocks and the selection of the requests of the DMA channels. The registers hold
  what was written last.
\<close>

section \<open>Layouts of the registers\<close>

definition sysctl_git_id_t :: layout where
  "sysctl_git_id_t =
     [(''git_id'', 32)]"

definition sysctl_clk_freq_t :: layout where
  "sysctl_clk_freq_t =
     [(''clk_freq'', 32)]"

definition sysctl_pll0_t :: layout where
  "sysctl_pll0_t =
     [(''clkr0'', 4), (''clkf0'', 6), (''clkod0'', 4), (''bwadj0'', 6), (''pll_reset0'', 1), (''pll_pwrd0'', 1),
      (''pll_intfb0'', 1), (''pll_bypass0'', 1), (''pll_test0'', 1), (''pll_out_en0'', 1), (''pll_test_en'', 1),
      (''reserved'', 5)]"

definition sysctl_pll1_t :: layout where
  "sysctl_pll1_t =
     [(''clkr1'', 4), (''clkf1'', 6), (''clkod1'', 4), (''bwadj1'', 6), (''pll_reset1'', 1), (''pll_pwrd1'', 1),
      (''pll_intfb1'', 1), (''pll_bypass1'', 1), (''pll_test1'', 1), (''pll_out_en1'', 1), (''reserved'', 6)]"

definition sysctl_pll2_t :: layout where
  "sysctl_pll2_t =
     [(''clkr2'', 4), (''clkf2'', 6), (''clkod2'', 4), (''bwadj2'', 6), (''pll_reset2'', 1), (''pll_pwrd2'', 1),
      (''pll_intfb2'', 1), (''pll_bypass2'', 1), (''pll_test2'', 1), (''pll_out_en2'', 1), (''pll_ckin_sel2'', 2),
      (''reserved'', 4)]"

definition sysctl_pll_lock_t :: layout where
  "sysctl_pll_lock_t =
     [(''pll_lock0'', 2), (''pll_slip_clear0'', 1), (''test_clk_out0'', 1), (''reserved0'', 4), (''pll_lock1'', 2),
      (''pll_slip_clear1'', 1), (''test_clk_out1'', 1), (''reserved1'', 4), (''pll_lock2'', 2),
      (''pll_slip_clear2'', 1), (''test_clk_out2'', 1), (''reserved2'', 12)]"

definition sysctl_rom_error_t :: layout where
  "sysctl_rom_error_t =
     [(''rom_mul_error'', 1), (''rom_one_error'', 1), (''reserved'', 30)]"

definition sysctl_clk_sel0_t :: layout where
  "sysctl_clk_sel0_t =
     [(''aclk_sel'', 1), (''aclk_divider_sel'', 2), (''apb0_clk_sel'', 3), (''apb1_clk_sel'', 3),
      (''apb2_clk_sel'', 3), (''spi3_clk_sel'', 1), (''timer0_clk_sel'', 1), (''timer1_clk_sel'', 1),
      (''timer2_clk_sel'', 1), (''reserved'', 16)]"

definition sysctl_clk_sel1_t :: layout where
  "sysctl_clk_sel1_t =
     [(''spi3_sample_clk_sel'', 1), (''reserved0'', 30), (''reserved1'', 1)]"

definition sysctl_clk_en_cent_t :: layout where
  "sysctl_clk_en_cent_t =
     [(''cpu_clk_en'', 1), (''sram0_clk_en'', 1), (''sram1_clk_en'', 1), (''apb0_clk_en'', 1), (''apb1_clk_en'', 1),
      (''apb2_clk_en'', 1), (''reserved'', 26)]"

definition sysctl_clk_en_peri_t :: layout where
  "sysctl_clk_en_peri_t =
     [(''rom_clk_en'', 1), (''dma_clk_en'', 1), (''ai_clk_en'', 1), (''dvp_clk_en'', 1), (''fft_clk_en'', 1),
      (''gpio_clk_en'', 1), (''spi0_clk_en'', 1), (''spi1_clk_en'', 1), (''spi2_clk_en'', 1), (''spi3_clk_en'', 1),
      (''i2s0_clk_en'', 1), (''i2s1_clk_en'', 1), (''i2s2_clk_en'', 1), (''i2c0_clk_en'', 1), (''i2c1_clk_en'', 1),
      (''i2c2_clk_en'', 1), (''uart1_clk_en'', 1), (''uart2_clk_en'', 1), (''uart3_clk_en'', 1), (''aes_clk_en'', 1),
      (''fpioa_clk_en'', 1), (''timer0_clk_en'', 1), (''timer1_clk_en'', 1), (''timer2_clk_en'', 1),
      (''wdt0_clk_en'', 1), (''wdt1_clk_en'', 1), (''sha_clk_en'', 1), (''otp_clk_en'', 1), (''reserved'', 1),
      (''rtc_clk_en'', 1), (''reserved0'', 2)]"

definition sysctl_soft_reset_t :: layout where
  "sysctl_soft_reset_t =
     [(''soft_reset'', 1), (''reserved'', 31)]"

definition sysctl_peri_reset_t :: layout where
  "sysctl_peri_reset_t =
     [(''rom_reset'', 1), (''dma_reset'', 1), (''ai_reset'', 1), (''dvp_reset'', 1), (''fft_reset'', 1),
      (''gpio_reset'', 1), (''spi0_reset'', 1), (''spi1_reset'', 1), (''spi2_reset'', 1), (''spi3_reset'', 1),
      (''i2s0_reset'', 1), (''i2s1_reset'', 1), (''i2s2_reset'', 1), (''i2c0_reset'', 1), (''i2c1_reset'', 1),
      (''i2c2_reset'', 1), (''uart1_reset'', 1), (''uart2_reset'', 1), (''uart3_reset'', 1), (''aes_reset'', 1),
      (''fpioa_reset'', 1), (''timer0_reset'', 1), (''timer1_reset'', 1), (''timer2_reset'', 1), (''wdt0_reset'', 1),
      (''wdt1_reset'', 1), (''sha_reset'', 1), (''reserved'', 2), (''rtc_reset'', 1), (''reserved0'', 2)]"

definition sysctl_clk_th0_t :: layout where
  "sysctl_clk_th0_t =
     [(''sram0_gclk_threshold'', 4), (''sram1_gclk_threshold'', 4), (''ai_gclk_threshold'', 4),
      (''dvp_gclk_threshold'', 4), (''rom_gclk_threshold'', 4), (''reserved'', 12)]"

definition sysctl_clk_th1_t :: layout where
  "sysctl_clk_th1_t =
     [(''spi0_clk_threshold'', 8), (''spi1_clk_threshold'', 8), (''spi2_clk_threshold'', 8),
      (''spi3_clk_threshold'', 8)]"

definition sysctl_clk_th2_t :: layout where
  "sysctl_clk_th2_t =
     [(''timer0_clk_threshold'', 8), (''timer1_clk_threshold'', 8), (''timer2_clk_threshold'', 8), (''reserved'', 8)]"

definition sysctl_clk_th3_t :: layout where
  "sysctl_clk_th3_t =
     [(''i2s0_clk_threshold'', 16), (''i2s1_clk_threshold'', 16)]"

definition sysctl_clk_th4_t :: layout where
  "sysctl_clk_th4_t =
     [(''i2s2_clk_threshold'', 16), (''i2s0_mclk_threshold'', 8), (''i2s1_mclk_threshold'', 8)]"

definition sysctl_clk_th5_t :: layout where
  "sysctl_clk_th5_t =
     [(''i2s2_mclk_threshold'', 8), (''i2c0_clk_threshold'', 8), (''i2c1_clk_threshold'', 8),
      (''i2c2_clk_threshold'', 8)]"

definition sysctl_clk_th6_t :: layout where
  "sysctl_clk_th6_t =
     [(''wdt0_clk_threshold'', 8), (''wdt1_clk_threshold'', 8), (''reserved0'', 8), (''reserved1'', 8)]"

definition sysctl_misc_t :: layout where
  "sysctl_misc_t =
     [(''debug_sel'', 6), (''reserved0'', 4), (''spi_dvp_data_enable'', 1), (''reserved1'', 21)]"

definition sysctl_peri_t :: layout where
  "sysctl_peri_t =
     [(''timer0_pause'', 1), (''timer1_pause'', 1), (''timer2_pause'', 1), (''timer3_pause'', 1),
      (''timer4_pause'', 1), (''timer5_pause'', 1), (''timer6_pause'', 1), (''timer7_pause'', 1),
      (''timer8_pause'', 1), (''timer9_pause'', 1), (''timer10_pause'', 1), (''timer11_pause'', 1),
      (''spi0_xip_en'', 1), (''spi1_xip_en'', 1), (''spi2_xip_en'', 1), (''spi3_xip_en'', 1),
      (''spi0_clk_bypass'', 1), (''spi1_clk_bypass'', 1), (''spi2_clk_bypass'', 1), (''i2s0_clk_bypass'', 1),
      (''i2s1_clk_bypass'', 1), (''i2s2_clk_bypass'', 1), (''jtag_clk_bypass'', 1), (''dvp_clk_bypass'', 1),
      (''debug_clk_bypass'', 1), (''reserved0'', 1), (''reserved1'', 6)]"

definition sysctl_spi_sleep_t :: layout where
  "sysctl_spi_sleep_t =
     [(''ssi0_sleep'', 1), (''ssi1_sleep'', 1), (''ssi2_sleep'', 1), (''ssi3_sleep'', 1), (''reserved'', 28)]"

definition sysctl_reset_status_t :: layout where
  "sysctl_reset_status_t =
     [(''reset_sts_clr'', 1), (''pin_reset_sts'', 1), (''wdt0_reset_sts'', 1), (''wdt1_reset_sts'', 1),
      (''soft_reset_sts'', 1), (''reserved'', 27)]"

definition sysctl_dma_sel0_t :: layout where
  "sysctl_dma_sel0_t =
     [(''dma_sel0'', 6), (''dma_sel1'', 6), (''dma_sel2'', 6), (''dma_sel3'', 6), (''dma_sel4'', 6),
      (''reserved'', 2)]"

definition sysctl_dma_sel1_t :: layout where
  "sysctl_dma_sel1_t =
     [(''dma_sel5'', 6), (''reserved'', 26)]"

definition sysctl_power_sel_t :: layout where
  "sysctl_power_sel_t =
     [(''power_mode_sel0'', 1), (''power_mode_sel1'', 1), (''power_mode_sel2'', 1), (''power_mode_sel3'', 1),
      (''power_mode_sel4'', 1), (''power_mode_sel5'', 1), (''power_mode_sel6'', 1), (''power_mode_sel7'', 1),
      (''reserved'', 24)]"

definition sysctl_general_pll_t :: layout where
  "sysctl_general_pll_t =
     [(''clkr'', 4), (''clkf'', 6), (''clkod'', 4), (''bwadj'', 6), (''pll_reset'', 1), (''pll_pwrd'', 1),
      (''pll_intfb'', 1), (''pll_bypass'', 1), (''pll_test'', 1), (''pll_out_en'', 1), (''pll_ckin_sel'', 2),
      (''reserved'', 4)]"

section \<open>The controller\<close>

record sysctl_t =
  git_id :: u32
  clk_freq :: u32
  pll0 :: u32
  pll1 :: u32
  pll2 :: u32
  resv5 :: u32
  pll_lock :: u32
  rom_error :: u32
  clk_sel0 :: u32
  clk_sel1 :: u32
  clk_en_cent :: u32
  clk_en_peri :: u32
  soft_reset :: u32
  peri_reset :: u32
  clk_th0 :: u32
  clk_th1 :: u32
  clk_th2 :: u32
  clk_th3 :: u32
  clk_th4 :: u32
  clk_th5 :: u32
  clk_th6 :: u32
  misc :: u32
  peri :: u32
  spi_sleep :: u32
  reset_status :: u32
  dma_sel0 :: u32
  dma_sel1 :: u32
  power_sel :: u32
  resv28 :: u32
  resv29 :: u32
  resv30 :: u32
  resv31 :: u32

text \<open>The members with their sizes, in the order of the structure.\<close>

definition sysctl_members :: "(string \<times> nat) list" where
  "sysctl_members =
     [(''git_id'', 4), (''clk_freq'', 4), (''pll0'', 4), (''pll1'', 4), (''pll2'', 4), (''resv5'', 4),
     (''pll_lock'', 4), (''rom_error'', 4), (''clk_sel0'', 4), (''clk_sel1'', 4), (''clk_en_cent'', 4),
     (''clk_en_peri'', 4), (''soft_reset'', 4), (''peri_reset'', 4), (''clk_th0'', 4), (''clk_th1'', 4),
     (''clk_th2'', 4), (''clk_th3'', 4), (''clk_th4'', 4), (''clk_th5'', 4), (''clk_th6'', 4), (''misc'', 4),
     (''peri'', 4), (''spi_sleep'', 4), (''reset_status'', 4), (''dma_sel0'', 4), (''dma_sel1'', 4),
     (''power_sel'', 4), (''resv28'', 4), (''resv29'', 4), (''resv30'', 4), (''resv31'', 4)]"

datatype sysctl_clock_t =
    SYSCTL_CLOCK_PLL0 | SYSCTL_CLOCK_PLL1 | SYSCTL_CLOCK_PLL2 | SYSCTL_CLOCK_CPU | SYSCTL_CLOCK_SRAM0 |
    SYSCTL_CLOCK_SRAM1 | SYSCTL_CLOCK_APB0 | SYSCTL_CLOCK_APB1 | SYSCTL_CLOCK_APB2 | SYSCTL_CLOCK_ROM |
    SYSCTL_CLOCK_DMA | SYSCTL_CLOCK_AI | SYSCTL_CLOCK_DVP | SYSCTL_CLOCK_FFT | SYSCTL_CLOCK_GPIO |
    SYSCTL_CLOCK_SPI0 | SYSCTL_CLOCK_SPI1 | SYSCTL_CLOCK_SPI2 | SYSCTL_CLOCK_SPI3 | SYSCTL_CLOCK_I2S0 |
    SYSCTL_CLOCK_I2S1 | SYSCTL_CLOCK_I2S2 | SYSCTL_CLOCK_I2C0 | SYSCTL_CLOCK_I2C1 | SYSCTL_CLOCK_I2C2 |
    SYSCTL_CLOCK_UART1 | SYSCTL_CLOCK_UART2 | SYSCTL_CLOCK_UART3 | SYSCTL_CLOCK_AES | SYSCTL_CLOCK_FPIOA |
    SYSCTL_CLOCK_TIMER0 | SYSCTL_CLOCK_TIMER1 | SYSCTL_CLOCK_TIMER2 | SYSCTL_CLOCK_WDT0 | SYSCTL_CLOCK_WDT1 |
    SYSCTL_CLOCK_SHA | SYSCTL_CLOCK_OTP | SYSCTL_CLOCK_RTC | SYSCTL_CLOCK_ACLK | SYSCTL_CLOCK_HCLK |
    SYSCTL_CLOCK_IN0 | SYSCTL_CLOCK_MAX

primrec clock_num :: "sysctl_clock_t \<Rightarrow> nat" where
  "clock_num SYSCTL_CLOCK_PLL0 = 0"
| "clock_num SYSCTL_CLOCK_PLL1 = 1"
| "clock_num SYSCTL_CLOCK_PLL2 = 2"
| "clock_num SYSCTL_CLOCK_CPU = 3"
| "clock_num SYSCTL_CLOCK_SRAM0 = 4"
| "clock_num SYSCTL_CLOCK_SRAM1 = 5"
| "clock_num SYSCTL_CLOCK_APB0 = 6"
| "clock_num SYSCTL_CLOCK_APB1 = 7"
| "clock_num SYSCTL_CLOCK_APB2 = 8"
| "clock_num SYSCTL_CLOCK_ROM = 9"
| "clock_num SYSCTL_CLOCK_DMA = 10"
| "clock_num SYSCTL_CLOCK_AI = 11"
| "clock_num SYSCTL_CLOCK_DVP = 12"
| "clock_num SYSCTL_CLOCK_FFT = 13"
| "clock_num SYSCTL_CLOCK_GPIO = 14"
| "clock_num SYSCTL_CLOCK_SPI0 = 15"
| "clock_num SYSCTL_CLOCK_SPI1 = 16"
| "clock_num SYSCTL_CLOCK_SPI2 = 17"
| "clock_num SYSCTL_CLOCK_SPI3 = 18"
| "clock_num SYSCTL_CLOCK_I2S0 = 19"
| "clock_num SYSCTL_CLOCK_I2S1 = 20"
| "clock_num SYSCTL_CLOCK_I2S2 = 21"
| "clock_num SYSCTL_CLOCK_I2C0 = 22"
| "clock_num SYSCTL_CLOCK_I2C1 = 23"
| "clock_num SYSCTL_CLOCK_I2C2 = 24"
| "clock_num SYSCTL_CLOCK_UART1 = 25"
| "clock_num SYSCTL_CLOCK_UART2 = 26"
| "clock_num SYSCTL_CLOCK_UART3 = 27"
| "clock_num SYSCTL_CLOCK_AES = 28"
| "clock_num SYSCTL_CLOCK_FPIOA = 29"
| "clock_num SYSCTL_CLOCK_TIMER0 = 30"
| "clock_num SYSCTL_CLOCK_TIMER1 = 31"
| "clock_num SYSCTL_CLOCK_TIMER2 = 32"
| "clock_num SYSCTL_CLOCK_WDT0 = 33"
| "clock_num SYSCTL_CLOCK_WDT1 = 34"
| "clock_num SYSCTL_CLOCK_SHA = 35"
| "clock_num SYSCTL_CLOCK_OTP = 36"
| "clock_num SYSCTL_CLOCK_RTC = 37"
| "clock_num SYSCTL_CLOCK_ACLK = 40"
| "clock_num SYSCTL_CLOCK_HCLK = 41"
| "clock_num SYSCTL_CLOCK_IN0 = 42"
| "clock_num SYSCTL_CLOCK_MAX = 43"

text \<open>The constants compare as their numbers do. A number determines its constant: \<open>clocks\<close> lists them in order.\<close>

definition clocks :: "sysctl_clock_t list" where
  "clocks =
     [SYSCTL_CLOCK_PLL0, SYSCTL_CLOCK_PLL1, SYSCTL_CLOCK_PLL2, SYSCTL_CLOCK_CPU, SYSCTL_CLOCK_SRAM0, SYSCTL_CLOCK_SRAM1,
      SYSCTL_CLOCK_APB0, SYSCTL_CLOCK_APB1, SYSCTL_CLOCK_APB2, SYSCTL_CLOCK_ROM, SYSCTL_CLOCK_DMA, SYSCTL_CLOCK_AI,
      SYSCTL_CLOCK_DVP, SYSCTL_CLOCK_FFT, SYSCTL_CLOCK_GPIO, SYSCTL_CLOCK_SPI0, SYSCTL_CLOCK_SPI1, SYSCTL_CLOCK_SPI2,
      SYSCTL_CLOCK_SPI3, SYSCTL_CLOCK_I2S0, SYSCTL_CLOCK_I2S1, SYSCTL_CLOCK_I2S2, SYSCTL_CLOCK_I2C0, SYSCTL_CLOCK_I2C1,
      SYSCTL_CLOCK_I2C2, SYSCTL_CLOCK_UART1, SYSCTL_CLOCK_UART2, SYSCTL_CLOCK_UART3, SYSCTL_CLOCK_AES, SYSCTL_CLOCK_FPIOA,
      SYSCTL_CLOCK_TIMER0, SYSCTL_CLOCK_TIMER1, SYSCTL_CLOCK_TIMER2, SYSCTL_CLOCK_WDT0, SYSCTL_CLOCK_WDT1, SYSCTL_CLOCK_SHA,
      SYSCTL_CLOCK_OTP, SYSCTL_CLOCK_RTC, SYSCTL_CLOCK_MAX, SYSCTL_CLOCK_MAX, SYSCTL_CLOCK_ACLK, SYSCTL_CLOCK_HCLK,
      SYSCTL_CLOCK_IN0, SYSCTL_CLOCK_MAX]"

lemma clocks_at: "clocks ! clock_num c = c"
  by (cases c) (simp_all add: clocks_def)

lemma clock_num_inject: "clock_num a = clock_num b \<longleftrightarrow> a = b"
  by (metis clocks_at)

instantiation sysctl_clock_t :: linorder
begin

definition less_eq_sysctl_clock_t :: "sysctl_clock_t \<Rightarrow> sysctl_clock_t \<Rightarrow> bool" where
  "less_eq_sysctl_clock_t a b \<longleftrightarrow> clock_num a \<le> clock_num b"

definition less_sysctl_clock_t :: "sysctl_clock_t \<Rightarrow> sysctl_clock_t \<Rightarrow> bool" where
  "less_sysctl_clock_t a b \<longleftrightarrow> clock_num a < clock_num b"

instance
  by standard (auto simp: less_eq_sysctl_clock_t_def less_sysctl_clock_t_def simp flip: clock_num_inject)

end

lemma clock_below_MAX: "c \<noteq> SYSCTL_CLOCK_MAX \<longleftrightarrow> c < SYSCTL_CLOCK_MAX"
  by (cases c) (simp_all add: less_sysctl_clock_t_def)

datatype sysctl_dma_channel_t =
    SYSCTL_DMA_CHANNEL_0 | SYSCTL_DMA_CHANNEL_1 | SYSCTL_DMA_CHANNEL_2 | SYSCTL_DMA_CHANNEL_3 |
    SYSCTL_DMA_CHANNEL_4 | SYSCTL_DMA_CHANNEL_5 | SYSCTL_DMA_CHANNEL_MAX

datatype sysctl_dma_select_t =
    SYSCTL_DMA_SELECT_SSI0_RX_REQ | SYSCTL_DMA_SELECT_SSI0_TX_REQ | SYSCTL_DMA_SELECT_SSI1_RX_REQ |
    SYSCTL_DMA_SELECT_SSI1_TX_REQ | SYSCTL_DMA_SELECT_SSI2_RX_REQ | SYSCTL_DMA_SELECT_SSI2_TX_REQ |
    SYSCTL_DMA_SELECT_SSI3_RX_REQ | SYSCTL_DMA_SELECT_SSI3_TX_REQ | SYSCTL_DMA_SELECT_I2C0_RX_REQ |
    SYSCTL_DMA_SELECT_I2C0_TX_REQ | SYSCTL_DMA_SELECT_I2C1_RX_REQ | SYSCTL_DMA_SELECT_I2C1_TX_REQ |
    SYSCTL_DMA_SELECT_I2C2_RX_REQ | SYSCTL_DMA_SELECT_I2C2_TX_REQ | SYSCTL_DMA_SELECT_UART1_RX_REQ |
    SYSCTL_DMA_SELECT_UART1_TX_REQ | SYSCTL_DMA_SELECT_UART2_RX_REQ | SYSCTL_DMA_SELECT_UART2_TX_REQ |
    SYSCTL_DMA_SELECT_UART3_RX_REQ | SYSCTL_DMA_SELECT_UART3_TX_REQ | SYSCTL_DMA_SELECT_AES_REQ |
    SYSCTL_DMA_SELECT_SHA_RX_REQ | SYSCTL_DMA_SELECT_AI_RX_REQ | SYSCTL_DMA_SELECT_FFT_RX_REQ |
    SYSCTL_DMA_SELECT_FFT_TX_REQ | SYSCTL_DMA_SELECT_I2S0_TX_REQ | SYSCTL_DMA_SELECT_I2S0_RX_REQ |
    SYSCTL_DMA_SELECT_I2S1_TX_REQ | SYSCTL_DMA_SELECT_I2S1_RX_REQ | SYSCTL_DMA_SELECT_I2S2_TX_REQ |
    SYSCTL_DMA_SELECT_I2S2_RX_REQ | SYSCTL_DMA_SELECT_I2S0_BF_DIR_REQ | SYSCTL_DMA_SELECT_I2S0_BF_VOICE_REQ |
    SYSCTL_DMA_SELECT_MAX

primrec dma_select_num :: "sysctl_dma_select_t \<Rightarrow> nat" where
  "dma_select_num SYSCTL_DMA_SELECT_SSI0_RX_REQ = 0"
| "dma_select_num SYSCTL_DMA_SELECT_SSI0_TX_REQ = 1"
| "dma_select_num SYSCTL_DMA_SELECT_SSI1_RX_REQ = 2"
| "dma_select_num SYSCTL_DMA_SELECT_SSI1_TX_REQ = 3"
| "dma_select_num SYSCTL_DMA_SELECT_SSI2_RX_REQ = 4"
| "dma_select_num SYSCTL_DMA_SELECT_SSI2_TX_REQ = 5"
| "dma_select_num SYSCTL_DMA_SELECT_SSI3_RX_REQ = 6"
| "dma_select_num SYSCTL_DMA_SELECT_SSI3_TX_REQ = 7"
| "dma_select_num SYSCTL_DMA_SELECT_I2C0_RX_REQ = 8"
| "dma_select_num SYSCTL_DMA_SELECT_I2C0_TX_REQ = 9"
| "dma_select_num SYSCTL_DMA_SELECT_I2C1_RX_REQ = 10"
| "dma_select_num SYSCTL_DMA_SELECT_I2C1_TX_REQ = 11"
| "dma_select_num SYSCTL_DMA_SELECT_I2C2_RX_REQ = 12"
| "dma_select_num SYSCTL_DMA_SELECT_I2C2_TX_REQ = 13"
| "dma_select_num SYSCTL_DMA_SELECT_UART1_RX_REQ = 14"
| "dma_select_num SYSCTL_DMA_SELECT_UART1_TX_REQ = 15"
| "dma_select_num SYSCTL_DMA_SELECT_UART2_RX_REQ = 16"
| "dma_select_num SYSCTL_DMA_SELECT_UART2_TX_REQ = 17"
| "dma_select_num SYSCTL_DMA_SELECT_UART3_RX_REQ = 18"
| "dma_select_num SYSCTL_DMA_SELECT_UART3_TX_REQ = 19"
| "dma_select_num SYSCTL_DMA_SELECT_AES_REQ = 20"
| "dma_select_num SYSCTL_DMA_SELECT_SHA_RX_REQ = 21"
| "dma_select_num SYSCTL_DMA_SELECT_AI_RX_REQ = 22"
| "dma_select_num SYSCTL_DMA_SELECT_FFT_RX_REQ = 23"
| "dma_select_num SYSCTL_DMA_SELECT_FFT_TX_REQ = 24"
| "dma_select_num SYSCTL_DMA_SELECT_I2S0_TX_REQ = 25"
| "dma_select_num SYSCTL_DMA_SELECT_I2S0_RX_REQ = 26"
| "dma_select_num SYSCTL_DMA_SELECT_I2S1_TX_REQ = 27"
| "dma_select_num SYSCTL_DMA_SELECT_I2S1_RX_REQ = 28"
| "dma_select_num SYSCTL_DMA_SELECT_I2S2_TX_REQ = 29"
| "dma_select_num SYSCTL_DMA_SELECT_I2S2_RX_REQ = 30"
| "dma_select_num SYSCTL_DMA_SELECT_I2S0_BF_DIR_REQ = 31"
| "dma_select_num SYSCTL_DMA_SELECT_I2S0_BF_VOICE_REQ = 32"
| "dma_select_num SYSCTL_DMA_SELECT_MAX = 33"

section \<open>Clocks\<close>

text \<open>The registers that hold gates, and the fields the two \<open>switch\<close> statements choose.\<close>

datatype gate_register = PLL0 | PLL1 | PLL2 | CLK_EN_CENT | CLK_EN_PERI

definition write_gate :: "gate_register \<times> string \<Rightarrow> u32 \<Rightarrow> sysctl_t \<Rightarrow> sysctl_t" where
  "write_gate g en s =
     (case g of
        (PLL0, f) \<Rightarrow> s\<lparr>pll0 := put_bits sysctl_pll0_t f en (pll0 s)\<rparr>
      | (PLL1, f) \<Rightarrow> s\<lparr>pll1 := put_bits sysctl_pll1_t f en (pll1 s)\<rparr>
      | (PLL2, f) \<Rightarrow> s\<lparr>pll2 := put_bits sysctl_pll2_t f en (pll2 s)\<rparr>
      | (CLK_EN_CENT, f) \<Rightarrow> s\<lparr>clk_en_cent := put_bits sysctl_clk_en_cent_t f en (clk_en_cent s)\<rparr>
      | (CLK_EN_PERI, f) \<Rightarrow> s\<lparr>clk_en_peri := put_bits sysctl_clk_en_peri_t f en (clk_en_peri s)\<rparr>)"

definition bus_gate :: "sysctl_clock_t \<Rightarrow> string option" where
  "bus_gate clock =
     (case clock of
          SYSCTL_CLOCK_GPIO \<Rightarrow> Some ''apb0_clk_en''
        | SYSCTL_CLOCK_SPI2 \<Rightarrow> Some ''apb0_clk_en''
        | SYSCTL_CLOCK_I2S0 \<Rightarrow> Some ''apb0_clk_en''
        | SYSCTL_CLOCK_I2S1 \<Rightarrow> Some ''apb0_clk_en''
        | SYSCTL_CLOCK_I2S2 \<Rightarrow> Some ''apb0_clk_en''
        | SYSCTL_CLOCK_I2C0 \<Rightarrow> Some ''apb0_clk_en''
        | SYSCTL_CLOCK_I2C1 \<Rightarrow> Some ''apb0_clk_en''
        | SYSCTL_CLOCK_I2C2 \<Rightarrow> Some ''apb0_clk_en''
        | SYSCTL_CLOCK_UART1 \<Rightarrow> Some ''apb0_clk_en''
        | SYSCTL_CLOCK_UART2 \<Rightarrow> Some ''apb0_clk_en''
        | SYSCTL_CLOCK_UART3 \<Rightarrow> Some ''apb0_clk_en''
        | SYSCTL_CLOCK_FPIOA \<Rightarrow> Some ''apb0_clk_en''
        | SYSCTL_CLOCK_TIMER0 \<Rightarrow> Some ''apb0_clk_en''
        | SYSCTL_CLOCK_TIMER1 \<Rightarrow> Some ''apb0_clk_en''
        | SYSCTL_CLOCK_TIMER2 \<Rightarrow> Some ''apb0_clk_en''
        | SYSCTL_CLOCK_SHA \<Rightarrow> Some ''apb0_clk_en''
        | SYSCTL_CLOCK_AES \<Rightarrow> Some ''apb1_clk_en''
        | SYSCTL_CLOCK_WDT0 \<Rightarrow> Some ''apb1_clk_en''
        | SYSCTL_CLOCK_WDT1 \<Rightarrow> Some ''apb1_clk_en''
        | SYSCTL_CLOCK_OTP \<Rightarrow> Some ''apb1_clk_en''
        | SYSCTL_CLOCK_RTC \<Rightarrow> Some ''apb1_clk_en''
        | SYSCTL_CLOCK_SPI0 \<Rightarrow> Some ''apb2_clk_en''
        | SYSCTL_CLOCK_SPI1 \<Rightarrow> Some ''apb2_clk_en''
        | _ \<Rightarrow> None)"

definition device_gate :: "sysctl_clock_t \<Rightarrow> (gate_register \<times> string) option" where
  "device_gate clock =
     (case clock of
          SYSCTL_CLOCK_PLL0 \<Rightarrow> Some (PLL0, ''pll_out_en0'')
        | SYSCTL_CLOCK_PLL1 \<Rightarrow> Some (PLL1, ''pll_out_en1'')
        | SYSCTL_CLOCK_PLL2 \<Rightarrow> Some (PLL2, ''pll_out_en2'')
        | SYSCTL_CLOCK_CPU \<Rightarrow> Some (CLK_EN_CENT, ''cpu_clk_en'')
        | SYSCTL_CLOCK_SRAM0 \<Rightarrow> Some (CLK_EN_CENT, ''sram0_clk_en'')
        | SYSCTL_CLOCK_SRAM1 \<Rightarrow> Some (CLK_EN_CENT, ''sram1_clk_en'')
        | SYSCTL_CLOCK_APB0 \<Rightarrow> Some (CLK_EN_CENT, ''apb0_clk_en'')
        | SYSCTL_CLOCK_APB1 \<Rightarrow> Some (CLK_EN_CENT, ''apb1_clk_en'')
        | SYSCTL_CLOCK_APB2 \<Rightarrow> Some (CLK_EN_CENT, ''apb2_clk_en'')
        | SYSCTL_CLOCK_ROM \<Rightarrow> Some (CLK_EN_PERI, ''rom_clk_en'')
        | SYSCTL_CLOCK_DMA \<Rightarrow> Some (CLK_EN_PERI, ''dma_clk_en'')
        | SYSCTL_CLOCK_AI \<Rightarrow> Some (CLK_EN_PERI, ''ai_clk_en'')
        | SYSCTL_CLOCK_DVP \<Rightarrow> Some (CLK_EN_PERI, ''dvp_clk_en'')
        | SYSCTL_CLOCK_FFT \<Rightarrow> Some (CLK_EN_PERI, ''fft_clk_en'')
        | SYSCTL_CLOCK_SPI3 \<Rightarrow> Some (CLK_EN_PERI, ''spi3_clk_en'')
        | SYSCTL_CLOCK_GPIO \<Rightarrow> Some (CLK_EN_PERI, ''gpio_clk_en'')
        | SYSCTL_CLOCK_SPI2 \<Rightarrow> Some (CLK_EN_PERI, ''spi2_clk_en'')
        | SYSCTL_CLOCK_I2S0 \<Rightarrow> Some (CLK_EN_PERI, ''i2s0_clk_en'')
        | SYSCTL_CLOCK_I2S1 \<Rightarrow> Some (CLK_EN_PERI, ''i2s1_clk_en'')
        | SYSCTL_CLOCK_I2S2 \<Rightarrow> Some (CLK_EN_PERI, ''i2s2_clk_en'')
        | SYSCTL_CLOCK_I2C0 \<Rightarrow> Some (CLK_EN_PERI, ''i2c0_clk_en'')
        | SYSCTL_CLOCK_I2C1 \<Rightarrow> Some (CLK_EN_PERI, ''i2c1_clk_en'')
        | SYSCTL_CLOCK_I2C2 \<Rightarrow> Some (CLK_EN_PERI, ''i2c2_clk_en'')
        | SYSCTL_CLOCK_UART1 \<Rightarrow> Some (CLK_EN_PERI, ''uart1_clk_en'')
        | SYSCTL_CLOCK_UART2 \<Rightarrow> Some (CLK_EN_PERI, ''uart2_clk_en'')
        | SYSCTL_CLOCK_UART3 \<Rightarrow> Some (CLK_EN_PERI, ''uart3_clk_en'')
        | SYSCTL_CLOCK_FPIOA \<Rightarrow> Some (CLK_EN_PERI, ''fpioa_clk_en'')
        | SYSCTL_CLOCK_TIMER0 \<Rightarrow> Some (CLK_EN_PERI, ''timer0_clk_en'')
        | SYSCTL_CLOCK_TIMER1 \<Rightarrow> Some (CLK_EN_PERI, ''timer1_clk_en'')
        | SYSCTL_CLOCK_TIMER2 \<Rightarrow> Some (CLK_EN_PERI, ''timer2_clk_en'')
        | SYSCTL_CLOCK_SHA \<Rightarrow> Some (CLK_EN_PERI, ''sha_clk_en'')
        | SYSCTL_CLOCK_AES \<Rightarrow> Some (CLK_EN_PERI, ''aes_clk_en'')
        | SYSCTL_CLOCK_WDT0 \<Rightarrow> Some (CLK_EN_PERI, ''wdt0_clk_en'')
        | SYSCTL_CLOCK_WDT1 \<Rightarrow> Some (CLK_EN_PERI, ''wdt1_clk_en'')
        | SYSCTL_CLOCK_OTP \<Rightarrow> Some (CLK_EN_PERI, ''otp_clk_en'')
        | SYSCTL_CLOCK_RTC \<Rightarrow> Some (CLK_EN_PERI, ''rtc_clk_en'')
        | SYSCTL_CLOCK_SPI0 \<Rightarrow> Some (CLK_EN_PERI, ''spi0_clk_en'')
        | SYSCTL_CLOCK_SPI1 \<Rightarrow> Some (CLK_EN_PERI, ''spi1_clk_en'')
        | _ \<Rightarrow> None)"

definition sysctl_clock_bus_en :: "sysctl_clock_t \<Rightarrow> u32 \<Rightarrow> sysctl_t \<Rightarrow> int \<times> sysctl_t" where
  "sysctl_clock_bus_en clock en s =
     (0, if en \<noteq> 0 then
           (case bus_gate clock of None \<Rightarrow> s | Some f \<Rightarrow> write_gate (CLK_EN_CENT, f) en s)
         else s)"

definition sysctl_clock_device_en :: "sysctl_clock_t \<Rightarrow> u32 \<Rightarrow> sysctl_t \<Rightarrow> int \<times> sysctl_t" where
  "sysctl_clock_device_en clock en s =
     (0, case device_gate clock of None \<Rightarrow> s | Some g \<Rightarrow> write_gate g en s)"

definition sysctl_clock_enable :: "sysctl_clock_t \<Rightarrow> sysctl_t \<Rightarrow> int \<times> sysctl_t" where
  "sysctl_clock_enable clock s =
     (if clock \<ge> SYSCTL_CLOCK_MAX then (- 1, s)
      else (0, snd (sysctl_clock_device_en clock 1 (snd (sysctl_clock_bus_en clock 1 s)))))"

definition sysctl_get_git_id :: "sysctl_t \<Rightarrow> u32" where
  "sysctl_get_git_id s = get_bits sysctl_git_id_t ''git_id'' (git_id s)"

definition sysctl_get_freq :: "sysctl_t \<Rightarrow> u32" where
  "sysctl_get_freq s = get_bits sysctl_clk_freq_t ''clk_freq'' (clk_freq s)"

section \<open>Requests of the DMA channels\<close>

definition sysctl_dma_select :: "sysctl_dma_channel_t \<Rightarrow> u32 \<Rightarrow> sysctl_t \<Rightarrow> int \<times> sysctl_t" where
  "sysctl_dma_select channel select s =
     (let sel0 = dma_sel0 s; sel1 = dma_sel1 s;
          back = (\<lambda>(sel0, sel1). (0, s\<lparr>dma_sel0 := sel0, dma_sel1 := sel1\<rparr>))
      in case channel of
           SYSCTL_DMA_CHANNEL_0 \<Rightarrow> back (put_bits sysctl_dma_sel0_t ''dma_sel0'' select sel0, sel1)
         | SYSCTL_DMA_CHANNEL_1 \<Rightarrow> back (put_bits sysctl_dma_sel0_t ''dma_sel1'' select sel0, sel1)
         | SYSCTL_DMA_CHANNEL_2 \<Rightarrow> back (put_bits sysctl_dma_sel0_t ''dma_sel2'' select sel0, sel1)
         | SYSCTL_DMA_CHANNEL_3 \<Rightarrow> back (put_bits sysctl_dma_sel0_t ''dma_sel3'' select sel0, sel1)
         | SYSCTL_DMA_CHANNEL_4 \<Rightarrow> back (put_bits sysctl_dma_sel0_t ''dma_sel4'' select sel0, sel1)
         | SYSCTL_DMA_CHANNEL_5 \<Rightarrow> back (sel0, put_bits sysctl_dma_sel1_t ''dma_sel5'' select sel1)
         | SYSCTL_DMA_CHANNEL_MAX \<Rightarrow> (- 1, s))"

section \<open>The layouts fit their registers\<close>

definition sysctl_layouts :: "layout list" where
  "sysctl_layouts =
     [sysctl_git_id_t, sysctl_clk_freq_t, sysctl_pll0_t, sysctl_pll1_t, sysctl_pll2_t, sysctl_pll_lock_t,
     sysctl_rom_error_t, sysctl_clk_sel0_t, sysctl_clk_sel1_t, sysctl_clk_en_cent_t, sysctl_clk_en_peri_t,
     sysctl_soft_reset_t, sysctl_peri_reset_t, sysctl_clk_th0_t, sysctl_clk_th1_t, sysctl_clk_th2_t,
     sysctl_clk_th3_t, sysctl_clk_th4_t, sysctl_clk_th5_t, sysctl_clk_th6_t, sysctl_misc_t, sysctl_peri_t,
     sysctl_spi_sleep_t, sysctl_reset_status_t, sysctl_dma_sel0_t, sysctl_dma_sel1_t, sysctl_power_sel_t,
     sysctl_general_pll_t]"

lemma sysctl_layouts_fit: "\<forall>l \<in> set sysctl_layouts. layout_ok 32 l \<and> sum_list (map snd l) = 32"
  by code_simp

text \<open>The offsets the comments of the header give.\<close>

definition sysctl_offsets :: "(string \<times> nat) list" where
  "sysctl_offsets =
     [(''git_id'', 0x00), (''clk_freq'', 0x04), (''pll0'', 0x08), (''pll1'', 0x0c), (''pll2'', 0x10),
     (''resv5'', 0x14), (''pll_lock'', 0x18), (''rom_error'', 0x1c), (''clk_sel0'', 0x20), (''clk_sel1'', 0x24),
     (''clk_en_cent'', 0x28), (''clk_en_peri'', 0x2c), (''soft_reset'', 0x30), (''peri_reset'', 0x34),
     (''clk_th0'', 0x38), (''clk_th1'', 0x3c), (''clk_th2'', 0x40), (''clk_th3'', 0x44), (''clk_th4'', 0x48),
     (''clk_th5'', 0x4c), (''clk_th6'', 0x50), (''misc'', 0x54), (''peri'', 0x58), (''spi_sleep'', 0x5c),
     (''reset_status'', 0x60), (''dma_sel0'', 0x64), (''dma_sel1'', 0x68), (''power_sel'', 0x6c), (''resv28'', 0x70),
     (''resv29'', 0x74), (''resv30'', 0x78), (''resv31'', 0x7c)]"

lemma sysctl_offsets_documented: "members_at 0 sysctl_members = sysctl_offsets"
  by code_simp

interpretation pll0: bit_fields sysctl_pll0_t "TYPE(32)"
  using sysctl_layouts_fit by unfold_locales (simp add: sysctl_layouts_def)

interpretation pll1: bit_fields sysctl_pll1_t "TYPE(32)"
  using sysctl_layouts_fit by unfold_locales (simp add: sysctl_layouts_def)

interpretation pll2: bit_fields sysctl_pll2_t "TYPE(32)"
  using sysctl_layouts_fit by unfold_locales (simp add: sysctl_layouts_def)

interpretation cent: bit_fields sysctl_clk_en_cent_t "TYPE(32)"
  using sysctl_layouts_fit by unfold_locales (simp add: sysctl_layouts_def)

interpretation peri: bit_fields sysctl_clk_en_peri_t "TYPE(32)"
  using sysctl_layouts_fit by unfold_locales (simp add: sysctl_layouts_def)

interpretation sel0: bit_fields sysctl_dma_sel0_t "TYPE(32)"
  using sysctl_layouts_fit by unfold_locales (simp add: sysctl_layouts_def)

interpretation sel1: bit_fields sysctl_dma_sel1_t "TYPE(32)"
  using sysctl_layouts_fit by unfold_locales (simp add: sysctl_layouts_def)

section \<open>Gates\<close>

primrec gate_layout :: "gate_register \<Rightarrow> layout" where
  "gate_layout PLL0 = sysctl_pll0_t"
| "gate_layout PLL1 = sysctl_pll1_t"
| "gate_layout PLL2 = sysctl_pll2_t"
| "gate_layout CLK_EN_CENT = sysctl_clk_en_cent_t"
| "gate_layout CLK_EN_PERI = sysctl_clk_en_peri_t"

primrec gate_value :: "gate_register \<Rightarrow> sysctl_t \<Rightarrow> u32" where
  "gate_value PLL0 s = pll0 s"
| "gate_value PLL1 s = pll1 s"
| "gate_value PLL2 s = pll2 s"
| "gate_value CLK_EN_CENT s = clk_en_cent s"
| "gate_value CLK_EN_PERI s = clk_en_peri s"

definition read_gate :: "gate_register \<times> string \<Rightarrow> sysctl_t \<Rightarrow> u32" where
  "read_gate g s = get_bits (gate_layout (fst g)) (snd g) (gate_value (fst g) s)"

text \<open>Everything but the registers with gates.\<close>

definition gates_apart :: "sysctl_t \<Rightarrow> sysctl_t \<Rightarrow> bool" where
  "gates_apart s s' \<longleftrightarrow> s'\<lparr>pll0 := pll0 s, pll1 := pll1 s, pll2 := pll2 s, clk_en_cent := clk_en_cent s,
     clk_en_peri := clk_en_peri s\<rparr> = s"

lemma gates_apart_refl: "gates_apart s s"
  by (simp add: gates_apart_def)

lemma gates_apart_write: "gates_apart s s' \<Longrightarrow> gates_apart s (write_gate g en s')"
  by (cases g; cases "fst g"; cases s; cases s') (auto simp: gates_apart_def write_gate_def)

lemma read_write_gate:
  "read_gate g (write_gate h en s) =
    (if g = h then (case field_at (gate_layout (fst g)) (snd g) of None \<Rightarrow> 0 | Some (off, w) \<Rightarrow> take_bit w en)
     else read_gate g s)"
proof (cases h)
  case (Pair r f)
  show ?thesis unfolding Pair read_gate_def
    by (cases g; cases r; cases "fst g")
      (auto simp: write_gate_def pll0.get_put pll1.get_put pll2.get_put cent.get_put peri.get_put)
qed

text \<open>Every gate the \<open>switch\<close> statements name is a field of one bit of its register.\<close>

definition is_gate :: "gate_register \<times> string \<Rightarrow> bool" where
  "is_gate g \<longleftrightarrow> map_option snd (field_at (gate_layout (fst g)) (snd g)) = Some 1"

lemma gates_are_gates:
  "(case device_gate clock of None \<Rightarrow> True | Some g \<Rightarrow> is_gate g) \<and>
   (case bus_gate clock of None \<Rightarrow> True | Some f \<Rightarrow> is_gate (CLK_EN_CENT, f))"
  by (induction clock; code_simp)

lemma read_write_is_gate:
  "is_gate h \<Longrightarrow> read_gate g (write_gate h 1 s) = (if g = h then 1 else read_gate g s)"
  by (auto simp: read_write_gate is_gate_def)

lemma sysctl_clock_enable_gates:
  "if clock = SYSCTL_CLOCK_MAX then sysctl_clock_enable clock s = (- 1, s)
   else \<exists>s'. sysctl_clock_enable clock s = (0, s') \<and> gates_apart s s' \<and>
     (\<forall>g. read_gate g s' =
        (if device_gate clock = Some g \<or> (\<exists>f. bus_gate clock = Some f \<and> g = (CLK_EN_CENT, f)) then 1
         else read_gate g s))"
proof (cases "clock = SYSCTL_CLOCK_MAX")
  case True
  then show ?thesis by (simp add: sysctl_clock_enable_def)
next
  case False
  then have n: "\<not> SYSCTL_CLOCK_MAX \<le> clock" by (simp add: clock_below_MAX)
  define s1 where "s1 = (case bus_gate clock of None \<Rightarrow> s | Some f \<Rightarrow> write_gate (CLK_EN_CENT, f) 1 s)"
  define s2 where "s2 = (case device_gate clock of None \<Rightarrow> s1 | Some g \<Rightarrow> write_gate g 1 s1)"
  have e: "sysctl_clock_enable clock s = (0, s2)"
    unfolding s1_def s2_def using n
    by (simp add: sysctl_clock_enable_def sysctl_clock_bus_en_def sysctl_clock_device_en_def)
  have "gates_apart s s2"
    by (auto simp: s1_def s2_def gates_apart_refl gates_apart_write split: option.split)
  moreover have "read_gate g s2 =
      (if device_gate clock = Some g \<or> (\<exists>f. bus_gate clock = Some f \<and> g = (CLK_EN_CENT, f)) then 1
       else read_gate g s)" for g
    using gates_are_gates [of clock]
    by (auto simp: s1_def s2_def read_write_is_gate split: option.split)
  ultimately show ?thesis using False e by simp
qed

text \<open>enabling a clock other than the end mark of the list opens the clock's own gate and the
  gate of the bus its device is on, leaves every other gate and field of the five gate registers as
  it was, and touches no other register; the end mark is refused.
\<close>

theorem sysctl_clock_enable_opens:
  "if clock = SYSCTL_CLOCK_MAX then sysctl_clock_enable clock s = (- 1, s)
   else \<exists>s'. sysctl_clock_enable clock s = (0, s') \<and> gates_apart s s' \<and>
     (\<forall>g. read_gate g s' =
        (if device_gate clock = Some g \<or> (\<exists>f. bus_gate clock = Some f \<and> g = (CLK_EN_CENT, f)) then 1
         else read_gate g s))"
  by (rule sysctl_clock_enable_gates)

section \<open>Requests\<close>

text \<open>The request selected for a channel.\<close>

definition dma_request :: "sysctl_dma_channel_t \<Rightarrow> sysctl_t \<Rightarrow> u32" where
  "dma_request channel s =
     (case channel of
        SYSCTL_DMA_CHANNEL_0 \<Rightarrow> get_bits sysctl_dma_sel0_t ''dma_sel0'' (dma_sel0 s)
      | SYSCTL_DMA_CHANNEL_1 \<Rightarrow> get_bits sysctl_dma_sel0_t ''dma_sel1'' (dma_sel0 s)
      | SYSCTL_DMA_CHANNEL_2 \<Rightarrow> get_bits sysctl_dma_sel0_t ''dma_sel2'' (dma_sel0 s)
      | SYSCTL_DMA_CHANNEL_3 \<Rightarrow> get_bits sysctl_dma_sel0_t ''dma_sel3'' (dma_sel0 s)
      | SYSCTL_DMA_CHANNEL_4 \<Rightarrow> get_bits sysctl_dma_sel0_t ''dma_sel4'' (dma_sel0 s)
      | SYSCTL_DMA_CHANNEL_5 \<Rightarrow> get_bits sysctl_dma_sel1_t ''dma_sel5'' (dma_sel1 s)
      | SYSCTL_DMA_CHANNEL_MAX \<Rightarrow> 0)"

lemma sel_fields [simp]:
  "field_at sysctl_dma_sel0_t ''dma_sel0'' = Some (0, 6)" "field_at sysctl_dma_sel0_t ''dma_sel1'' = Some (6, 6)"
  "field_at sysctl_dma_sel0_t ''dma_sel2'' = Some (12, 6)" "field_at sysctl_dma_sel0_t ''dma_sel3'' = Some (18, 6)"
  "field_at sysctl_dma_sel0_t ''dma_sel4'' = Some (24, 6)" "field_at sysctl_dma_sel1_t ''dma_sel5'' = Some (0, 6)"
  by code_simp+

lemma sysctl_dma_select_request:
  assumes "c \<noteq> SYSCTL_DMA_CHANNEL_MAX"
  shows "fst (sysctl_dma_select c select s) = 0"
    and "dma_request d (snd (sysctl_dma_select c select s)) =
      (if d = c then take_bit 6 select else dma_request d s)"
    and "(snd (sysctl_dma_select c select s))\<lparr>dma_sel0 := dma_sel0 s, dma_sel1 := dma_sel1 s\<rparr> = s"
proof -
  show "fst (sysctl_dma_select c select s) = 0"
    using assms by (cases c) (simp_all add: sysctl_dma_select_def Let_def)
  show "dma_request d (snd (sysctl_dma_select c select s)) = (if d = c then take_bit 6 select else dma_request d s)"
    using assms
    by (cases c; cases d) (simp_all add: sysctl_dma_select_def Let_def dma_request_def sel0.get_put sel1.get_put)
  show "(snd (sysctl_dma_select c select s))\<lparr>dma_sel0 := dma_sel0 s, dma_sel1 := dma_sel1 s\<rparr> = s"
    using assms by (cases c) (simp_all add: sysctl_dma_select_def Let_def)
qed

text \<open>
  selecting a request for one of the six DMA channels makes it the channel's request, in full
  for every request of the list, keeps the requests of the other channels and touches no other
  register.
\<close>

theorem sysctl_dma_select_spec:
  assumes "c \<noteq> SYSCTL_DMA_CHANNEL_MAX"
  shows "\<exists>s'. sysctl_dma_select c (word_of_nat (dma_select_num r)) s = (0, s') \<and>
    (\<forall>d. dma_request d s' = (if d = c then word_of_nat (dma_select_num r) else dma_request d s)) \<and>
    s'\<lparr>dma_sel0 := dma_sel0 s, dma_sel1 := dma_sel1 s\<rparr> = s"
proof -
  have "dma_select_num r < 64" by (cases r) simp_all
  then have "take_bit 6 (word_of_nat (dma_select_num r) :: u32) = word_of_nat (dma_select_num r)"
    by (cases r) simp_all
  then show ?thesis
    using sysctl_dma_select_request [OF assms, where s = s]
    by (intro exI [of _ "snd (sysctl_dma_select c (word_of_nat (dma_select_num r)) s)"] conjI allI)
      (simp_all add: prod_eq_iff)
qed

theorem sysctl_dma_select_spec_witness:
  "\<forall>s. fst (sysctl_dma_select SYSCTL_DMA_CHANNEL_3 4 s) = 0"
proof
  fix s
  show "fst (sysctl_dma_select SYSCTL_DMA_CHANNEL_3 4 s) = 0"
    using sysctl_dma_select_spec [of SYSCTL_DMA_CHANNEL_3 SYSCTL_DMA_SELECT_SSI2_RX_REQ s] by auto
qed

end
