(* ===== verification/Dmac.thy ===== *)
theory Dmac
  imports Sysctl Proc_Facts
begin

text \<open>
  The DMA controller, \<open>driver/dmac.h\<close> and \<open>driver/dmac.cpp\<close>: the layouts of its registers, switching
  channels on and off, the parameters of a transfer, waiting for a channel, and the reset at boot. The registers
  hold what was written last, but for the channel register, which heeds its write enable bits; what the device
  does to them between two reads of a polling loop is a parameter.
\<close>

section \<open>Layouts of the registers\<close>

definition dmac_cfg_t :: layout where
  "dmac_cfg_t =
     [(''dmac_en'', 1), (''int_en'', 1), (''rsvd'', 62)]"

definition damc_chen_t :: layout where
  "damc_chen_t =
     [(''ch1_en'', 1), (''ch2_en'', 1), (''ch3_en'', 1), (''ch4_en'', 1), (''ch5_en'', 1), (''ch6_en'', 1),
      (''rsvd1'', 2), (''ch1_en_we'', 1), (''ch2_en_we'', 1), (''ch3_en_we'', 1), (''ch4_en_we'', 1),
      (''ch5_en_we'', 1), (''ch6_en_we'', 1), (''rsvd2'', 2), (''ch1_susp'', 1), (''ch2_susp'', 1),
      (''ch3_susp'', 1), (''ch4_susp'', 1), (''ch5_susp'', 1), (''ch6_susp'', 1), (''rsvd3'', 2),
      (''ch1_susp_we'', 1), (''ch2_susp_we'', 1), (''ch3_susp_we'', 1), (''ch4_susp_we'', 1), (''ch5_susp_we'', 1),
      (''ch6_susp_we'', 1), (''rsvd4'', 2), (''ch1_abort'', 1), (''ch2_abort'', 1), (''ch3_abort'', 1),
      (''ch4_abort'', 1), (''ch5_abort'', 1), (''ch6_abort'', 1), (''rsvd5'', 2), (''ch1_abort_we'', 1),
      (''ch2_abort_we'', 1), (''ch3_abort_we'', 1), (''ch4_abort_we'', 1), (''ch5_abort_we'', 1),
      (''ch6_abort_we'', 1), (''rsvd6'', 2), (''rsvd7'', 16)]"

definition dmac_intstatus_t :: layout where
  "dmac_intstatus_t =
     [(''ch1_intstat'', 1), (''ch2_intstat'', 1), (''ch3_intstat'', 1), (''ch4_intstat'', 1), (''ch5_intstat'', 1),
      (''ch6_intstat'', 1), (''rsvd1'', 10), (''commonreg_intstat'', 1), (''rsvd2'', 47)]"

definition dmac_commonreg_intclear_t :: layout where
  "dmac_commonreg_intclear_t =
     [(''clear_slvif_dec_err_intstat'', 1), (''clear_slvif_wr2ro_err_intstat'', 1),
      (''clear_slvif_rd2wo_err_intstat'', 1), (''clear_slvif_wronhold_err_intstat'', 1), (''rsvd1'', 4),
      (''clear_slvif_undefinedreg_dec_err_intstat'', 1), (''rsvd2'', 55)]"

definition dmac_commonreg_intstatus_enable_t :: layout where
  "dmac_commonreg_intstatus_enable_t =
     [(''enable_slvif_dec_err_intstat'', 1), (''enable_slvif_wr2ro_err_intstat'', 1),
      (''enable_slvif_rd2wo_err_intstat'', 1), (''enable_slvif_wronhold_err_intstat'', 1), (''rsvd1'', 4),
      (''enable_slvif_undefinedreg_dec_err_intstat'', 1), (''rsvd2'', 55)]"

definition dmac_commonreg_intsignal_enable_t :: layout where
  "dmac_commonreg_intsignal_enable_t =
     [(''enable_slvif_dec_err_intsignal'', 1), (''enable_slvif_wr2ro_err_intsignal'', 1),
      (''enable_slvif_rd2wo_err_intsignal'', 1), (''enable_slvif_wronhold_err_intsignal'', 1), (''rsvd1'', 4),
      (''enable_slvif_undefinedreg_dec_err_intsignal'', 1), (''rsvd2'', 55)]"

definition dmac_commonreg_intstatus_t :: layout where
  "dmac_commonreg_intstatus_t =
     [(''slvif_dec_err_intstat'', 1), (''slvif_wr2ro_err_intstat'', 1), (''slvif_rd2wo_err_intstat'', 1),
      (''slvif_wronhold_err_intstat'', 1), (''rsvd1'', 4), (''slvif_undefinedreg_dec_err_intstat'', 1),
      (''rsvd2'', 55)]"

definition dmac_reset_t :: layout where
  "dmac_reset_t =
     [(''rst'', 1), (''rsvd'', 63)]"

definition dmac_ch_block_ts_t :: layout where
  "dmac_ch_block_ts_t =
     [(''block_ts'', 22), (''rsvd'', 42)]"

definition dmac_ch_ctl_t :: layout where
  "dmac_ch_ctl_t =
     [(''sms'', 1), (''rsvd1'', 1), (''dms'', 1), (''rsvd2'', 1), (''sinc'', 1), (''rsvd3'', 1), (''dinc'', 1),
      (''rsvd4'', 1), (''src_tr_width'', 3), (''dst_tr_width'', 3), (''src_msize'', 4), (''dst_msize'', 4),
      (''rsvd5'', 4), (''rsvd6'', 4), (''nonposted_lastwrite_en'', 1), (''rsvd7'', 1), (''rsvd8'', 3),
      (''rsvd9'', 3), (''arlen_en'', 1), (''arlen'', 8), (''awlen_en'', 1), (''awlen'', 8), (''src_stat_en'', 1),
      (''dst_stat_en'', 1), (''ioc_blktfr'', 1), (''rsvd10'', 3), (''shadowreg_or_lli_last'', 1),
      (''shadowreg_or_lli_valid'', 1)]"

definition dmac_ch_cfg_t :: layout where
  "dmac_ch_cfg_t =
     [(''src_multblk_type'', 2), (''dst_multblk_type'', 2), (''rsvd1'', 28), (''tt_fc'', 3), (''hs_sel_src'', 1),
      (''hs_sel_dst'', 1), (''src_hwhs_pol'', 1), (''dst_hwhs_pol'', 1), (''src_per'', 4), (''rsvd3'', 1),
      (''dst_per'', 4), (''rsvd5'', 1), (''ch_prior'', 3), (''lock_ch'', 1), (''lock_ch_l'', 2),
      (''src_osr_lmt'', 4), (''dst_osr_lmt'', 4)]"

definition dmac_ch_llp_t :: layout where
  "dmac_ch_llp_t =
     [(''lms'', 1), (''rsvd1'', 5), (''loc'', 58)]"

definition dmac_ch_status_t :: layout where
  "dmac_ch_status_t =
     [(''cmpltd_blk_size'', 22), (''rsvd1'', 15), (''rsvd2'', 17)]"

definition dmac_ch_swhssrc_t :: layout where
  "dmac_ch_swhssrc_t =
     [(''swhs_req_src'', 1), (''swhs_req_src_we'', 1), (''swhs_sglreq_src'', 1), (''swhs_sglreq_src_we'', 1),
      (''swhs_lst_src'', 1), (''swhs_lst_src_we'', 1), (''rsvd'', 58)]"

definition dmac_ch_swhsdst_t :: layout where
  "dmac_ch_swhsdst_t =
     [(''swhs_req_dst'', 1), (''swhs_req_dst_we'', 1), (''swhs_sglreq_dst'', 1), (''swhs_sglreq_dst_we'', 1),
      (''swhs_lst_dst'', 1), (''swhs_lst_dst_we'', 1), (''rsvd'', 58)]"

definition dmac_ch_blk_tfr_resumereq_t :: layout where
  "dmac_ch_blk_tfr_resumereq_t =
     [(''blk_tfr_resumereq'', 1), (''rsvd'', 63)]"

definition dmac_ch_intstatus_enable_t :: layout where
  "dmac_ch_intstatus_enable_t =
     [(''enable_block_tfr_done_intstatus'', 1), (''enable_dma_tfr_done_intstat'', 1), (''rsvd1'', 1),
      (''enable_src_transcomp_intstat'', 1), (''enable_dst_transcomp_intstat'', 1),
      (''enable_src_dec_err_intstat'', 1), (''enable_dst_dec_err_intstat'', 1), (''enable_src_slv_err_intstat'', 1),
      (''enable_dst_slv_err_intstat'', 1), (''enable_lli_rd_dec_err_intstat'', 1),
      (''enable_lli_wr_dec_err_intstat'', 1), (''enable_lli_rd_slv_err_intstat'', 1),
      (''enable_lli_wr_slv_err_intstat'', 1), (''rsvd2'', 51)]"

definition dmac_ch_intclear_t :: layout where
  "dmac_ch_intclear_t =
     [(''blk_tfr_done_intstat'', 1), (''dma_tfr_done_intstat'', 1), (''resv1'', 1), (''resv2'', 61)]"

section \<open>The controller\<close>

record dmac_channel_t =
  ch_sar :: u64
  ch_dar :: u64
  ch_block_ts :: u64
  ch_ctl :: u64
  ch_cfg :: u64
  ch_llp :: u64
  ch_status :: u64
  ch_swhssrc :: u64
  ch_swhsdst :: u64
  ch_blk_tfr :: u64
  ch_axi_id :: u64
  ch_axi_qos :: u64
  ch_reserved1 :: "u64 list"
  ch_intstatus_en :: u64
  ch_intstatus :: u64
  ch_intsignal_en :: u64
  ch_intclear :: u64
  ch_reserved2 :: "u64 list"

record dmac_t =
  dm_id :: u64
  dm_compver :: u64
  dm_cfg :: u64
  dm_chen :: u64
  dm_reserved1 :: "u64 list"
  dm_intstatus :: u64
  dm_com_intclear :: u64
  dm_com_intstatus_en :: u64
  dm_com_intsignal_en :: u64
  dm_com_intstatus :: u64
  dm_reset :: u64
  dm_reserved2 :: "u64 list"
  dm_channel :: "dmac_channel_t list"

text \<open>The members with their sizes, in the order of the structures.\<close>

definition dmac_channel_members :: "(string \<times> nat) list" where
  "dmac_channel_members =
     [(''sar'', 8), (''dar'', 8), (''block_ts'', 8), (''ctl'', 8), (''cfg'', 8), (''llp'', 8), (''status'', 8),
     (''swhssrc'', 8), (''swhsdst'', 8), (''blk_tfr'', 8), (''axi_id'', 8), (''axi_qos'', 8), (''reserved1'', 32),
     (''intstatus_en'', 8), (''intstatus'', 8), (''intsignal_en'', 8), (''intclear'', 8), (''reserved2'', 96)]"

definition dmac_members :: "(string \<times> nat) list" where
  "dmac_members =
     [(''id'', 8), (''compver'', 8), (''cfg'', 8), (''chen'', 8), (''reserved1'', 16), (''intstatus'', 8),
     (''com_intclear'', 8), (''com_intstatus_en'', 8), (''com_intsignal_en'', 8), (''com_intstatus'', 8),
     (''reset'', 8), (''reserved2'', 160), (''channel'', 6 * 0x100)]"

definition DMAC_MASTER1 :: u64 where "DMAC_MASTER1 = 0"
definition DMAC_MASTER2 :: u64 where "DMAC_MASTER2 = 1"
definition DMAC_HS_HARDWARE :: u64 where "DMAC_HS_HARDWARE = 0"
definition DMAC_HS_SOFTWARE :: u64 where "DMAC_HS_SOFTWARE = 1"
definition DMAC_MEM2MEM_DMA :: u64 where "DMAC_MEM2MEM_DMA = 0"
definition DMAC_MEM2PRF_DMA :: u64 where "DMAC_MEM2PRF_DMA = 1"
definition DMAC_PRF2MEM_DMA :: u64 where "DMAC_PRF2MEM_DMA = 2"
definition DMAC_PRF2PRF_DMA :: u64 where "DMAC_PRF2PRF_DMA = 3"
definition DMAC_MSIZE_1 :: u64 where "DMAC_MSIZE_1 = 0"
definition DMAC_MSIZE_4 :: u64 where "DMAC_MSIZE_4 = 1"
definition DMAC_ADDR_INCREMENT :: u64 where "DMAC_ADDR_INCREMENT = 0"
definition DMAC_ADDR_NOCHANGE :: u64 where "DMAC_ADDR_NOCHANGE = 1"
definition DMAC_TRANS_WIDTH_32 :: u64 where "DMAC_TRANS_WIDTH_32 = 2"

definition upd_channel :: "nat \<Rightarrow> (dmac_channel_t \<Rightarrow> dmac_channel_t) \<Rightarrow> dmac_t \<Rightarrow> dmac_t" where
  "upd_channel n f d = d\<lparr>dm_channel := (dm_channel d)[n := f (dm_channel d ! n)]\<rparr>"

section \<open>Operations\<close>

definition is_memory :: "u64 \<Rightarrow> bool" where
  "is_memory address \<longleftrightarrow>
     address \<ge> 0x80000000 \<and> address < 0x80000000 + 6 * 1024 * 1024 \<or>
     address \<ge> 0x40000000 \<and> address < 0x40000000 + 8 * 1024 * 1024 \<or> address = 0x50450040"

definition dmac_read_id :: "dmac_t \<Rightarrow> u64" where "dmac_read_id d = dm_id d"
definition dmac_read_version :: "dmac_t \<Rightarrow> u64" where "dmac_read_version d = dm_compver d"
definition dmac_read_channel_id :: "nat \<Rightarrow> dmac_t \<Rightarrow> u64" where
  "dmac_read_channel_id channel_num d = ch_axi_id (dm_channel d ! channel_num)"

definition dmac_enable :: "dmac_t \<Rightarrow> dmac_t" where
  "dmac_enable d = d\<lparr>dm_cfg := put_all dmac_cfg_t [(''dmac_en'', 1), (''int_en'', 1)] (dm_cfg d)\<rparr>"

definition dmac_disable :: "dmac_t \<Rightarrow> dmac_t" where
  "dmac_disable d = d\<lparr>dm_cfg := put_all dmac_cfg_t [(''dmac_en'', 0), (''int_en'', 0)] (dm_cfg d)\<rparr>"

text \<open>The fields of \<open>chen\<close> for a channel; the \<open>switch\<close> statements leave other numbers alone.\<close>

definition chen_fields :: "nat \<Rightarrow> (string \<times> string) option" where
  "chen_fields channel_num =
     (if channel_num = 0 then Some (''ch1_en'', ''ch1_en_we'')
      else if channel_num = 1 then Some (''ch2_en'', ''ch2_en_we'')
      else if channel_num = 2 then Some (''ch3_en'', ''ch3_en_we'')
      else if channel_num = 3 then Some (''ch4_en'', ''ch4_en_we'')
      else if channel_num = 4 then Some (''ch5_en'', ''ch5_en_we'')
      else if channel_num = 5 then Some (''ch6_en'', ''ch6_en_we'')
      else None)"

text \<open>
  A write to \<open>chen\<close>: the bit that enables, suspends or aborts a channel changes only where the write enable
  bit for it, eight places above, is written as one; the other bits are as written.
\<close>

definition guarded_bits :: u64 where "guarded_bits = 0x3F003F003F"

definition write_chen :: "u64 \<Rightarrow> u64 \<Rightarrow> u64" where
  "write_chen v r =
     (let open_bits = drop_bit 8 v AND guarded_bits
      in (v AND (NOT guarded_bits OR open_bits)) OR (r AND guarded_bits AND NOT open_bits))"

definition dmac_channel_enable :: "nat \<Rightarrow> dmac_t \<Rightarrow> dmac_t" where
  "dmac_channel_enable channel_num d =
     d\<lparr>dm_chen := write_chen (case chen_fields channel_num of
        None \<Rightarrow> dm_chen d
      | Some (en, we) \<Rightarrow> put_all damc_chen_t [(en, 1), (we, 1)] (dm_chen d)) (dm_chen d)\<rparr>"

definition dmac_channel_disable :: "nat \<Rightarrow> dmac_t \<Rightarrow> dmac_t" where
  "dmac_channel_disable channel_num d =
     d\<lparr>dm_chen := write_chen (case chen_fields channel_num of
        None \<Rightarrow> dm_chen d
      | Some (en, we) \<Rightarrow> put_all damc_chen_t [(en, 0), (we, 1)] (dm_chen d)) (dm_chen d)\<rparr>"

definition dmac_enable_common_interrupt_status :: "dmac_t \<Rightarrow> dmac_t" where
  "dmac_enable_common_interrupt_status d =
     d\<lparr>dm_com_intstatus_en := put_all dmac_commonreg_intstatus_enable_t
        [(''enable_slvif_dec_err_intstat'', 1), (''enable_slvif_wr2ro_err_intstat'', 1),
         (''enable_slvif_rd2wo_err_intstat'', 1), (''enable_slvif_wronhold_err_intstat'', 1),
         (''enable_slvif_undefinedreg_dec_err_intstat'', 1)] (dm_com_intstatus_en d)\<rparr>"

definition dmac_enable_common_interrupt_signal :: "dmac_t \<Rightarrow> dmac_t" where
  "dmac_enable_common_interrupt_signal d =
     d\<lparr>dm_com_intsignal_en := put_all dmac_commonreg_intsignal_enable_t
        [(''enable_slvif_dec_err_intsignal'', 1), (''enable_slvif_wr2ro_err_intsignal'', 1),
         (''enable_slvif_rd2wo_err_intsignal'', 1), (''enable_slvif_wronhold_err_intsignal'', 1),
         (''enable_slvif_undefinedreg_dec_err_intsignal'', 1)] (dm_com_intsignal_en d)\<rparr>"

definition dmac_enable_channel_interrupt :: "nat \<Rightarrow> dmac_t \<Rightarrow> dmac_t" where
  "dmac_enable_channel_interrupt channel_num =
     upd_channel channel_num (\<lambda>c. c\<lparr>ch_intclear := 0xffffffff, ch_intstatus_en := 2\<rparr>)"

definition dmac_disable_channel_interrupt :: "nat \<Rightarrow> dmac_t \<Rightarrow> dmac_t" where
  "dmac_disable_channel_interrupt channel_num = upd_channel channel_num (\<lambda>c. c\<lparr>ch_intstatus_en := 0\<rparr>)"

definition dmac_chanel_interrupt_clear :: "nat \<Rightarrow> dmac_t \<Rightarrow> dmac_t" where
  "dmac_chanel_interrupt_clear channel_num = upd_channel channel_num (\<lambda>c. c\<lparr>ch_intclear := 0xffffffff\<rparr>)"

definition flow_control :: "bool \<Rightarrow> bool \<Rightarrow> u64" where
  "flow_control mem_type_src mem_type_dest =
     (if \<not> mem_type_src \<and> \<not> mem_type_dest then DMAC_PRF2PRF_DMA
      else if mem_type_src \<and> \<not> mem_type_dest then DMAC_MEM2PRF_DMA
      else if \<not> mem_type_src \<and> mem_type_dest then DMAC_PRF2MEM_DMA
      else DMAC_MEM2MEM_DMA)"

definition dmac_set_channel_param ::
    "nat \<Rightarrow> u64 \<Rightarrow> u64 \<Rightarrow> u64 \<Rightarrow> u64 \<Rightarrow> u64 \<Rightarrow> u64 \<Rightarrow> u32 \<Rightarrow> dmac_t \<Rightarrow> int \<times> dmac_t" where
  "dmac_set_channel_param channel_num src dest src_inc dest_inc dmac_burst_size dmac_trans_width blockSize d =
     (let mem_type_src = is_memory src; mem_type_dest = is_memory dest;
          n = word_of_nat channel_num;
          cfg = (\<lambda>r. put_all dmac_ch_cfg_t
            [(''tt_fc'', flow_control mem_type_src mem_type_dest),
             (''hs_sel_src'', if mem_type_src then DMAC_HS_SOFTWARE else DMAC_HS_HARDWARE),
             (''hs_sel_dst'', if mem_type_dest then DMAC_HS_SOFTWARE else DMAC_HS_HARDWARE),
             (''src_per'', n), (''dst_per'', n), (''src_multblk_type'', 0), (''dst_multblk_type'', 0)] r);
          ctl = (\<lambda>r. put_all dmac_ch_ctl_t
            [(''sms'', DMAC_MASTER1), (''dms'', DMAC_MASTER2), (''sinc'', src_inc), (''dinc'', dest_inc),
             (''src_tr_width'', dmac_trans_width), (''dst_tr_width'', dmac_trans_width),
             (''src_msize'', dmac_burst_size), (''dst_msize'', dmac_burst_size)] r)
      in (0, upd_channel channel_num (\<lambda>c. c\<lparr>ch_cfg := cfg (ch_cfg c), ch_sar := src, ch_dar := dest,
               ch_ctl := ctl (ch_ctl c), ch_block_ts := ucast (blockSize - 1)\<rparr>) d))"

text \<open>\<open>dmac_is_idle\<close> on the enable register, and \<open>dmac_is_done\<close>.\<close>

definition chen_idle :: "nat \<Rightarrow> u64 \<Rightarrow> bool" where
  "chen_idle channel_num chen \<longleftrightarrow> drop_bit channel_num chen AND 1 = 0"

definition dmac_is_done :: "nat \<Rightarrow> dmac_t \<Rightarrow> int" where
  "dmac_is_done channel_num d = (if ch_intstatus (dm_channel d ! channel_num) AND 2 \<noteq> 0 then 1 else 0)"

section \<open>Waiting for a channel\<close>

text \<open>
  The controllers beside the processes: \<open>dma_hw\<close> is what the DMA controller does to its registers before
  the nth read of a waiting loop.
\<close>

record dma_state = proc_state +
  sys_regs :: sysctl_t
  dma_regs :: dmac_t
  dma_hw :: "nat \<Rightarrow> dmac_t \<Rightarrow> dmac_t"
  dma_reads :: nat

type_synonym 'a dma_switch = "'a dma_state_ext switch"

definition dmac_is_idle :: "nat \<Rightarrow> 'a dma_state_scheme \<Rightarrow> int \<times> 'a dma_state_scheme" where
  "dmac_is_idle channel_num s =
     (let d = dma_hw s (dma_reads s) (dma_regs s)
      in (if chen_idle channel_num (dm_chen d) then 1 else 0, s\<lparr>dma_regs := d, dma_reads := Suc (dma_reads s)\<rparr>))"

text \<open>\<open>acquire(&curproc()->lock)\<close>, \<open>sleep(dmac_chan, &curproc()->lock)\<close> and \<open>release(&curproc()->lock)\<close>.\<close>

definition dma_sleep :: "'a dma_switch \<Rightarrow> 'a dma_state_scheme \<Rightarrow> 'a dma_state_scheme res" where
  "dma_sleep pswitch s =
     bnd (myproc s) (\<lambda>(p, s). bnd (acquire (L_proc p) s) (\<lambda>s.
     bnd (myproc s) (\<lambda>(p, s). bnd (sleep pswitch Ch_dma (L_proc p) s) (\<lambda>s.
     bnd (myproc s) (\<lambda>(p, s). release (L_proc p) s)))))"

partial_function (option) dmac_wait_idle ::
    "'a dma_switch \<Rightarrow> nat \<Rightarrow> 'a dma_state_scheme \<Rightarrow> 'a dma_state_scheme res option" where
  "dmac_wait_idle pswitch channel_num s =
     (case dmac_is_idle channel_num s of (idle, s) \<Rightarrow>
       if idle \<noteq> 0 then Some (Inr s)
       else (case dma_sleep pswitch s of
               Inl e \<Rightarrow> Some (Inl e)
             | Inr s \<Rightarrow> dmac_wait_idle pswitch channel_num s))"

definition dmac_wait_done ::
    "'a dma_switch \<Rightarrow> nat \<Rightarrow> 'a dma_state_scheme \<Rightarrow> 'a dma_state_scheme res option" where
  "dmac_wait_done pswitch channel_num s = dmac_wait_idle pswitch channel_num s"

definition on_dma :: "(dmac_t \<Rightarrow> dmac_t) \<Rightarrow> 'a dma_state_scheme \<Rightarrow> 'a dma_state_scheme" where
  "on_dma f s = s\<lparr>dma_regs := f (dma_regs s)\<rparr>"

definition dmac_set_single_mode ::
    "'a dma_switch \<Rightarrow> nat \<Rightarrow> u64 \<Rightarrow> u64 \<Rightarrow> u64 \<Rightarrow> u64 \<Rightarrow> u64 \<Rightarrow> u64 \<Rightarrow> u64 \<Rightarrow>
     'a dma_state_scheme \<Rightarrow> 'a dma_state_scheme res option" where
  "dmac_set_single_mode pswitch channel_num src dest src_inc dest_inc dmac_burst_size dmac_trans_width block_size s =
     (let s = on_dma (dmac_chanel_interrupt_clear channel_num) s;
          s = on_dma (dmac_channel_disable channel_num) s
      in opt_bnd (dmac_wait_idle pswitch channel_num s) (\<lambda>s.
         (let s = on_dma (\<lambda>d. snd (dmac_set_channel_param channel_num src dest src_inc dest_inc dmac_burst_size
                    dmac_trans_width (ucast block_size) d)) s;
              s = on_dma dmac_enable s;
              s = on_dma (dmac_enable_channel_interrupt channel_num) s
          in Some (Inr (on_dma (dmac_channel_enable channel_num) s)))))"

section \<open>The reset at boot\<close>

text \<open>The two polling loops; \<open>hw\<close> is what the device does before a register is read.\<close>

partial_function (option) await_reset :: "(dmac_t \<Rightarrow> dmac_t) \<Rightarrow> dmac_t \<Rightarrow> dmac_t option" where
  "await_reset hw d =
     (let d = hw d in
      if get_bits dmac_reset_t ''rst'' (dm_reset d) = 0 then Some d else await_reset hw d)"

partial_function (option) await_disabled :: "(dmac_t \<Rightarrow> dmac_t) \<Rightarrow> dmac_t \<Rightarrow> dmac_t option" where
  "await_disabled hw d = (let d = hw d in if dm_cfg d = 0 then Some d else await_disabled hw d)"

definition dmac_init :: "(dmac_t \<Rightarrow> dmac_t) \<Rightarrow> sysctl_t \<times> dmac_t \<Rightarrow> (sysctl_t \<times> dmac_t) option" where
  "dmac_init hw s =
     (let (_, sysctl) = sysctl_clock_enable SYSCTL_CLOCK_DMA (fst s);
          d = snd s;
          d = d\<lparr>dm_reset := put_bits dmac_reset_t ''rst'' 1 (dm_reset d)\<rparr>
      in Option.bind (await_reset hw d) (\<lambda>d.
         (let d = d\<lparr>dm_com_intclear := put_all dmac_commonreg_intclear_t
                [(''clear_slvif_dec_err_intstat'', 1), (''clear_slvif_wr2ro_err_intstat'', 1),
                 (''clear_slvif_rd2wo_err_intstat'', 1), (''clear_slvif_wronhold_err_intstat'', 1),
                 (''clear_slvif_undefinedreg_dec_err_intstat'', 1)] (dm_com_intclear d)\<rparr>;
              d = dmac_disable d
          in Option.bind (await_disabled hw d) (\<lambda>d.
             (let d = d\<lparr>dm_chen := write_chen (dm_chen d AND NOT 0xf) (dm_chen d)\<rparr>
              in Some (sysctl, dmac_enable d))))))"

section \<open>The layouts fit their registers\<close>

definition dmac_layouts :: "layout list" where
  "dmac_layouts =
     [dmac_cfg_t, damc_chen_t, dmac_intstatus_t, dmac_commonreg_intclear_t, dmac_commonreg_intstatus_enable_t,
     dmac_commonreg_intsignal_enable_t, dmac_commonreg_intstatus_t, dmac_reset_t, dmac_ch_block_ts_t, dmac_ch_ctl_t,
     dmac_ch_cfg_t, dmac_ch_llp_t, dmac_ch_status_t, dmac_ch_swhssrc_t, dmac_ch_swhsdst_t,
     dmac_ch_blk_tfr_resumereq_t, dmac_ch_intstatus_enable_t, dmac_ch_intclear_t]"

text \<open>The offsets the comments of the header give.\<close>

definition channel_offsets :: "(string \<times> nat) list" where
  "channel_offsets =
     [(''sar'', 0x100), (''dar'', 0x108), (''block_ts'', 0x110), (''ctl'', 0x118), (''cfg'', 0x120), (''llp'', 0x128),
     (''status'', 0x130), (''swhssrc'', 0x138), (''swhsdst'', 0x140), (''blk_tfr'', 0x148), (''axi_id'', 0x150),
     (''axi_qos'', 0x158), (''intstatus_en'', 0x180), (''intstatus'', 0x188), (''intsignal_en'', 0x190),
     (''intclear'', 0x198)]"

definition dmac_offsets :: "(string \<times> nat) list" where
  "dmac_offsets =
     [(''id'', 0x00), (''compver'', 0x08), (''cfg'', 0x10), (''chen'', 0x18), (''intstatus'', 0x30),
     (''com_intclear'', 0x38), (''com_intstatus_en'', 0x40), (''com_intsignal_en'', 0x48), (''com_intstatus'', 0x50),
     (''reset'', 0x58)]"

lemma dmac_layouts_fit: "list_all (layout_ok 64) dmac_layouts"
  by code_simp

lemma dmac_offsets_documented:
  "list_all (\<lambda>(m, off). map_of (members_at 0x100 dmac_channel_members) m = Some off) channel_offsets"
  "list_all (\<lambda>(m, off). map_of (members_at 0 dmac_members) m = Some off) dmac_offsets"
  "map_of (members_at 0 dmac_members) ''channel'' = Some 0x100" "sum_list (map snd dmac_channel_members) = 0x100"
  by code_simp+

interpretation chen: bit_fields damc_chen_t "TYPE(64)"
  using dmac_layouts_fit by unfold_locales (simp add: dmac_layouts_def)

interpretation dcfg: bit_fields dmac_cfg_t "TYPE(64)"
  using dmac_layouts_fit by unfold_locales (simp add: dmac_layouts_def)

interpretation ccfg: bit_fields dmac_ch_cfg_t "TYPE(64)"
  using dmac_layouts_fit by unfold_locales (simp add: dmac_layouts_def)

interpretation cctl: bit_fields dmac_ch_ctl_t "TYPE(64)"
  using dmac_layouts_fit by unfold_locales (simp add: dmac_layouts_def)

section \<open>Channels\<close>

lemma chen_idle_bit: "chen_idle c r \<longleftrightarrow> \<not> bit r c"
  by (simp add: chen_idle_def bit_iff_odd_drop_bit and_one_eq even_iff_mod_2_eq_zero)

lemma chen_field:
  "chen_fields c = Some (en, we) \<Longrightarrow> field_at damc_chen_t en = Some (c, 1) \<and> field_at damc_chen_t we = Some (c + 8, 1)"
  by (auto simp: chen_fields_def split: if_splits; code_simp)

lemma chen_fields_some: "c < 6 \<Longrightarrow> \<exists>en we. chen_fields c = Some (en, we)"
  by (auto simp: chen_fields_def)

lemma guarded_bit: "c < 6 \<Longrightarrow> bit guarded_bits c"
proof -
  have "list_all (\<lambda>c. bit guarded_bits c) [0..<6]" by code_simp
  thus "c < 6 \<Longrightarrow> bit guarded_bits c" by (simp only: list_all_iff) simp
qed

lemma write_chen_bit: "c < 6 \<Longrightarrow> bit (write_chen v r) c \<longleftrightarrow> (if bit v (c + 8) then bit v c else bit r c)"
  using guarded_bit [of c] by (simp add: write_chen_def Let_def bit_simps add.commute)

lemma channel_switched:
  assumes "c < 6" "e < 6"
  shows "chen_idle e (dm_chen (dmac_channel_enable c d)) \<longleftrightarrow> e \<noteq> c \<and> chen_idle e (dm_chen d)"
    and "chen_idle e (dm_chen (dmac_channel_disable c d)) \<longleftrightarrow> e = c \<or> chen_idle e (dm_chen d)"
proof -
  obtain en we where f: "chen_fields c = Some (en, we)" using chen_fields_some [OF assms(1)] by blast
  note g = chen_field [OF f]
  show "chen_idle e (dm_chen (dmac_channel_enable c d)) \<longleftrightarrow> e \<noteq> c \<and> chen_idle e (dm_chen d)"
    using assms g by (auto simp: dmac_channel_enable_def f put_all_def put_bits_def chen_idle_bit bit_simps write_chen_bit)
  show "chen_idle e (dm_chen (dmac_channel_disable c d)) \<longleftrightarrow> e = c \<or> chen_idle e (dm_chen d)"
    using assms g by (auto simp: dmac_channel_disable_def f put_all_def put_bits_def chen_idle_bit bit_simps write_chen_bit)
qed

definition cfg_fields :: "nat \<Rightarrow> u64 \<Rightarrow> u64 \<Rightarrow> (string \<times> u64) list" where
  "cfg_fields n src dest =
     [(''tt_fc'', flow_control (is_memory src) (is_memory dest)),
      (''hs_sel_src'', if is_memory src then DMAC_HS_SOFTWARE else DMAC_HS_HARDWARE),
      (''hs_sel_dst'', if is_memory dest then DMAC_HS_SOFTWARE else DMAC_HS_HARDWARE),
      (''src_per'', word_of_nat n), (''dst_per'', word_of_nat n), (''src_multblk_type'', 0), (''dst_multblk_type'', 0)]"

definition ctl_fields :: "u64 \<Rightarrow> u64 \<Rightarrow> u64 \<Rightarrow> u64 \<Rightarrow> (string \<times> u64) list" where
  "ctl_fields src_inc dest_inc burst width =
     [(''sms'', DMAC_MASTER1), (''dms'', DMAC_MASTER2), (''sinc'', src_inc), (''dinc'', dest_inc),
      (''src_tr_width'', width), (''dst_tr_width'', width), (''src_msize'', burst), (''dst_msize'', burst)]"

text \<open>A channel programmed for a transfer of \<open>len\<close> items, from what it was before.\<close>

definition programmed ::
    "nat \<Rightarrow> u64 \<Rightarrow> u64 \<Rightarrow> u64 \<Rightarrow> u64 \<Rightarrow> u64 \<Rightarrow> u64 \<Rightarrow> u32 \<Rightarrow> dmac_channel_t \<Rightarrow> dmac_channel_t \<Rightarrow> bool" where
  "programmed n src dest src_inc dest_inc burst width len c c' \<longleftrightarrow>
     ch_sar c' = src \<and> ch_dar c' = dest \<and> unat (ch_block_ts c') + 1 = unat len \<and>
     assigned dmac_ch_cfg_t (cfg_fields n src dest) (ch_cfg c) (ch_cfg c') \<and>
     assigned dmac_ch_ctl_t (ctl_fields src_inc dest_inc burst width) (ch_ctl c) (ch_ctl c')"

lemma take_bit_small: "unat v < 2 ^ w \<Longrightarrow> take_bit w v = (v :: u64)"
  by (simp add: word_unat_eq_iff unsigned_take_bit_eq take_bit_nat_eq_self)

lemma cfg_fields_fit:
  assumes "n < 6"
  shows "list_all (fits dmac_ch_cfg_t) (cfg_fields n src dest)"
proof -
  have "field_at dmac_ch_cfg_t ''tt_fc'' = Some (32, 3)" "field_at dmac_ch_cfg_t ''hs_sel_src'' = Some (35, 1)"
    "field_at dmac_ch_cfg_t ''hs_sel_dst'' = Some (36, 1)" "field_at dmac_ch_cfg_t ''src_per'' = Some (39, 4)"
    "field_at dmac_ch_cfg_t ''dst_per'' = Some (44, 4)" "field_at dmac_ch_cfg_t ''src_multblk_type'' = Some (0, 2)"
    "field_at dmac_ch_cfg_t ''dst_multblk_type'' = Some (2, 2)"
    by code_simp+
  moreover have "take_bit 4 (word_of_nat n) = (word_of_nat n :: u64)"
    using assms by (intro take_bit_small) (simp add: unat_of_nat)
  ultimately show ?thesis
    by (simp add: cfg_fields_def fits_def flow_control_def DMAC_HS_SOFTWARE_def DMAC_HS_HARDWARE_def
        DMAC_MEM2MEM_DMA_def DMAC_MEM2PRF_DMA_def DMAC_PRF2MEM_DMA_def DMAC_PRF2PRF_DMA_def)
qed

lemma ctl_fields_fit:
  assumes "src_inc < 2" "dest_inc < 2" "burst < 16" "width < 8"
  shows "list_all (fits dmac_ch_ctl_t) (ctl_fields src_inc dest_inc burst width)"
proof -
  have "field_at dmac_ch_ctl_t ''sms'' = Some (0, 1)" "field_at dmac_ch_ctl_t ''dms'' = Some (2, 1)"
    "field_at dmac_ch_ctl_t ''sinc'' = Some (4, 1)" "field_at dmac_ch_ctl_t ''dinc'' = Some (6, 1)"
    "field_at dmac_ch_ctl_t ''src_tr_width'' = Some (8, 3)" "field_at dmac_ch_ctl_t ''dst_tr_width'' = Some (11, 3)"
    "field_at dmac_ch_ctl_t ''src_msize'' = Some (14, 4)" "field_at dmac_ch_ctl_t ''dst_msize'' = Some (18, 4)"
    by code_simp+
  then show ?thesis
    using assms take_bit_small [of _ 1] take_bit_small [of _ 3] take_bit_small [of _ 4]
    by (simp add: ctl_fields_def fits_def DMAC_MASTER1_def DMAC_MASTER2_def word_less_nat_alt)
qed

lemma set_channel_param_programs:
  assumes "n < 6" "n < length (dm_channel d)" "src_inc < 2" "dest_inc < 2" "burst < 16" "width < 8" "len \<noteq> 0"
  shows "programmed n src dest src_inc dest_inc burst width len (dm_channel d ! n)
      (dm_channel (snd (dmac_set_channel_param n src dest src_inc dest_inc burst width len d)) ! n)"
proof -
  have "distinct (map fst (cfg_fields n src dest))" "distinct (map fst (ctl_fields src_inc dest_inc burst width))"
    by (simp_all add: cfg_fields_def ctl_fields_def)
  note a = ccfg.assigned_put_all [OF this(1) cfg_fields_fit [OF assms(1)]]
    cctl.assigned_put_all [OF this(2) ctl_fields_fit [OF assms(3-6)]]
  have "unat (len - 1) + 1 = unat len" using assms(7) by (simp add: unat_minus_one unat_gt_0)
  then have "unat (ucast (len - 1) :: u64) + 1 = unat len" by (simp add: unsigned_ucast_eq take_bit_nat_eq_self order_less_le_trans [OF unsigned_less])
  with a assms(2) show ?thesis
    by (simp add: dmac_set_channel_param_def programmed_def upd_channel_def Let_def cfg_fields_def ctl_fields_def)
qed

lemma dmac_enable_fields:
  "get_bits dmac_cfg_t ''dmac_en'' (dm_cfg (dmac_enable d)) = 1" "get_bits dmac_cfg_t ''int_en'' (dm_cfg (dmac_enable d)) = 1"
proof -
  have f: "field_at dmac_cfg_t ''dmac_en'' = Some (0, 1)" "field_at dmac_cfg_t ''int_en'' = Some (1, 1)" by code_simp+
  show "get_bits dmac_cfg_t ''dmac_en'' (dm_cfg (dmac_enable d)) = 1" "get_bits dmac_cfg_t ''int_en'' (dm_cfg (dmac_enable d)) = 1"
    by (simp_all add: dmac_enable_def dcfg.get_put_all f)
qed

lemma channel_switch_frame [simp]:
  "dm_channel (dmac_channel_enable n d) = dm_channel d" "dm_channel (dmac_channel_disable n d) = dm_channel d"
  "dm_cfg (dmac_channel_enable n d) = dm_cfg d" "dm_channel (dmac_enable d) = dm_channel d"
  "dm_chen (dmac_enable d) = dm_chen d" "dm_chen (upd_channel n f d) = dm_chen d" "dm_cfg (upd_channel n f d) = dm_cfg d"
  "dm_channel (upd_channel n f d) = (dm_channel d)[n := f (dm_channel d ! n)]"
  by (simp_all add: dmac_channel_enable_def dmac_channel_disable_def dmac_enable_def upd_channel_def)

text \<open>A wait for a channel returns at its first read or never: a channel found running makes the loop sleep, and
  no sleep returns.\<close>

lemma dma_sleep_Inl: "\<exists>e. dma_sleep pswitch s = Inl e"
proof -
  have "\<exists>e. bnd (sleep pswitch Ch_dma lk u) f = Inl e" for lk u and f :: "_ \<Rightarrow> 'b res"
    using sleep_Inl [of pswitch Ch_dma lk u] by auto
  note sl = this
  show ?thesis unfolding dma_sleep_def
  proof (cases "myproc s")
    case (Inr x)
    obtain p t where x: "x = (p, t)" by (cases x)
    show "\<exists>e. bnd (myproc s) (\<lambda>(p, s). bnd (acquire (L_proc p) s) (\<lambda>s.
        bnd (myproc s) (\<lambda>(p, s). bnd (sleep pswitch Ch_dma (L_proc p) s) (\<lambda>s.
        bnd (myproc s) (\<lambda>(p, s). release (L_proc p) s))))) = Inl e"
    proof (cases "acquire (L_proc p) t")
      case (Inr u)
      show ?thesis by (cases "myproc u") (auto simp: \<open>myproc s = Inr x\<close> x Inr intro: sl)
    qed (simp add: Inr x)
  qed simp
qed

definition polled :: "'a dma_state_scheme \<Rightarrow> 'a dma_state_scheme" where
  "polled s = s\<lparr>dma_regs := dma_hw s (dma_reads s) (dma_regs s), dma_reads := Suc (dma_reads s)\<rparr>"

lemma polled_fields [simp]:
  "dma_regs (polled s) = dma_hw s (dma_reads s) (dma_regs s)" "sys_regs (polled s) = sys_regs s" "dma_hw (polled s) = dma_hw s"
  "dma_reads (polled s) = Suc (dma_reads s)"
  by (simp_all add: polled_def)

lemma dmac_wait_idle_once:
  "if chen_idle n (dm_chen (dma_regs (polled s))) then dmac_wait_idle pswitch n s = Some (Inr (polled s))
   else \<exists>e. dmac_wait_idle pswitch n s = Some (Inl e)"
proof -
  obtain e where "dma_sleep pswitch (polled s) = Inl e" using dma_sleep_Inl by blast
  then show ?thesis by (subst (1 2) dmac_wait_idle.simps) (simp add: dmac_is_idle_def Let_def polled_def)
qed

lemma on_dma_fields [simp]:
  "dma_regs (on_dma f s) = f (dma_regs s)" "sys_regs (on_dma f s) = sys_regs s" "dma_hw (on_dma f s) = dma_hw s"
  "dma_reads (on_dma f s) = dma_reads s"
  by (simp_all add: on_dma_def)

text \<open>The registers a transfer has programmed on channel \<open>n\<close>, from those the wait found.\<close>

definition set_up ::
    "nat \<Rightarrow> u64 \<Rightarrow> u64 \<Rightarrow> u64 \<Rightarrow> u64 \<Rightarrow> u64 \<Rightarrow> u64 \<Rightarrow> u64 \<Rightarrow> dmac_t \<Rightarrow> dmac_t \<Rightarrow> bool" where
  "set_up n src dest src_inc dest_inc burst width len d d' \<longleftrightarrow>
     programmed n src dest src_inc dest_inc burst width (ucast len) (dm_channel d ! n) (dm_channel d' ! n) \<and>
     ch_intstatus_en (dm_channel d' ! n) = 2 \<and> get_bits dmac_cfg_t ''dmac_en'' (dm_cfg d') = 1 \<and>
     (\<forall>m. m \<noteq> n \<longrightarrow> dm_channel d' ! m = dm_channel d ! m) \<and>
     (\<forall>m. m < 6 \<longrightarrow> chen_idle m (dm_chen d') = (m \<noteq> n \<and> chen_idle m (dm_chen d)))"

lemma set_up_programs:
  assumes "n < 6" "length (dm_channel d) = 6"
    and "src_inc < 2" "dest_inc < 2" "burst < 16" "width < 8" "ucast len \<noteq> (0 :: u32)"
  shows "set_up n src dest src_inc dest_inc burst width len d (dmac_channel_enable n (dmac_enable_channel_interrupt n (dmac_enable
      (snd (dmac_set_channel_param n src dest src_inc dest_inc burst width (ucast len) d)))))" (is "set_up _ _ _ _ _ _ _ _ d ?d")
proof -
  let ?d2 = "snd (dmac_set_channel_param n src dest src_inc dest_inc burst width (ucast len) d)"
  have l: "n < length (dm_channel d)" using assms(1,2) by simp
  have p: "programmed n src dest src_inc dest_inc burst width (ucast len) (dm_channel d ! n) (dm_channel ?d2 ! n)"
    using assms by (intro set_channel_param_programs) simp_all
  then have "programmed n src dest src_inc dest_inc burst width (ucast len) (dm_channel d ! n) (dm_channel ?d ! n)"
    using l by (simp add: programmed_def dmac_enable_channel_interrupt_def dmac_set_channel_param_def Let_def)
  moreover have "ch_intstatus_en (dm_channel ?d ! n) = 2" "\<forall>m. m \<noteq> n \<longrightarrow> dm_channel ?d ! m = dm_channel d ! m"
    using l by (simp_all add: dmac_enable_channel_interrupt_def dmac_set_channel_param_def Let_def)
  moreover have "get_bits dmac_cfg_t ''dmac_en'' (dm_cfg ?d) = 1"
    using dmac_enable_fields(1) by (simp add: dmac_enable_channel_interrupt_def)
  moreover have "chen_idle m (dm_chen ?d) = (m \<noteq> n \<and> chen_idle m (dm_chen d))" if "m < 6" for m
    using channel_switched [OF assms(1) that]
    by (auto simp: dmac_enable_channel_interrupt_def dmac_set_channel_param_def Let_def)
  ultimately show ?thesis unfolding set_up_def by blast
qed

text \<open>What the one read of the wait in \<open>dmac_set_single_mode\<close> finds.\<close>

definition found :: "nat \<Rightarrow> 'a dma_state_scheme \<Rightarrow> dmac_t" where
  "found n s = dma_hw s (dma_reads s) (dmac_channel_disable n (dmac_chanel_interrupt_clear n (dma_regs s)))"

lemma single_mode_starts:
  assumes "n < 6" "length (dm_channel (found n s)) = 6"
    and "src_inc < 2" "dest_inc < 2" "burst < 16" "width < 8" "ucast len \<noteq> (0 :: u32)"
  shows "if chen_idle n (dm_chen (found n s))
    then \<exists>d'. dmac_set_single_mode pswitch n src dest src_inc dest_inc burst width len s =
           Some (Inr (s\<lparr>dma_regs := d', dma_reads := Suc (dma_reads s)\<rparr>)) \<and>
         set_up n src dest src_inc dest_inc burst width len (found n s) d'
    else \<exists>e. dmac_set_single_mode pswitch n src dest src_inc dest_inc burst width len s = Some (Inl e)"
proof -
  let ?s = "on_dma (dmac_channel_disable n) (on_dma (dmac_chanel_interrupt_clear n) s)"
  have f: "dma_regs (polled ?s) = found n s" by (simp add: found_def)
  show ?thesis
  proof (cases "chen_idle n (dm_chen (found n s))")
    case True
    have "dmac_wait_idle pswitch n ?s = Some (Inr (polled ?s))" using dmac_wait_idle_once [of n ?s pswitch] True unfolding f by simp
    then have "dmac_set_single_mode pswitch n src dest src_inc dest_inc burst width len s =
      Some (Inr (s\<lparr>dma_regs := dmac_channel_enable n (dmac_enable_channel_interrupt n (dmac_enable
        (snd (dmac_set_channel_param n src dest src_inc dest_inc burst width (ucast len) (found n s))))), dma_reads := Suc (dma_reads s)\<rparr>))"
      by (simp add: dmac_set_single_mode_def Let_def on_dma_def polled_def found_def)
    with True set_up_programs [OF assms] show ?thesis by auto
  next
    case False
    obtain e where "dmac_wait_idle pswitch n ?s = Some (Inl e)" using dmac_wait_idle_once [of n ?s pswitch] False unfolding f by auto
    then show ?thesis using False by (simp add: dmac_set_single_mode_def Let_def)
  qed
qed

text \<open>
  \<open>dmac_set_single_mode\<close> looks at the channel once, after it has disabled it: if it is found idle, the call
  returns with the channel
  programmed for the transfer (addresses, number of items less one, kind of flow and handshake from
  whether the addresses are memory, widths and bursts; every other field of its two registers as it was),
  its interrupt enabled, the controller on and the channel running, and the other channels keep their
  registers and go on running or not as found; if it is found running, the call never returns.
\<close>

theorem dmac_set_single_mode_starts:
  assumes "n < 6" "length (dm_channel (found n s)) = 6"
    and "src_inc < 2" "dest_inc < 2" "burst < 16" "width < 8" "ucast len \<noteq> (0 :: u32)"
  shows "if chen_idle n (dm_chen (found n s))
    then \<exists>d'. dmac_set_single_mode pswitch n src dest src_inc dest_inc burst width len s =
           Some (Inr (s\<lparr>dma_regs := d', dma_reads := Suc (dma_reads s)\<rparr>)) \<and>
         set_up n src dest src_inc dest_inc burst width len (found n s) d'
    else \<exists>e. dmac_set_single_mode pswitch n src dest src_inc dest_inc burst width len s = Some (Inl e)"
  using assms by (rule single_mode_starts)

section \<open>The reset\<close>

lemma await_reset_ends:
  assumes "get_bits dmac_reset_t ''rst'' (dm_reset ((hw ^^ Suc k) d)) = 0"
  shows "\<exists>j \<le> k. await_reset hw d = Some ((hw ^^ Suc j) d)"
  using assms
proof (induction k arbitrary: d)
  case 0
  then show ?case by (subst await_reset.simps) simp
next
  case (Suc k)
  show ?case
  proof (cases "get_bits dmac_reset_t ''rst'' (dm_reset (hw d)) = 0")
    case True
    then show ?thesis by (subst await_reset.simps) (auto simp: Let_def intro!: exI [of _ 0])
  next
    case False
    have "get_bits dmac_reset_t ''rst'' (dm_reset ((hw ^^ Suc k) (hw d))) = 0"
      using Suc.prems by (simp add: funpow_swap1)
    from Suc.IH [OF this] obtain j where "j \<le> k" "await_reset hw (hw d) = Some ((hw ^^ Suc j) (hw d))" by blast
    with False show ?thesis
      by (subst await_reset.simps) (auto simp: Let_def funpow_swap1 intro!: exI [of _ "Suc j"])
  qed
qed

lemma await_disabled_ends:
  assumes "dm_cfg ((hw ^^ Suc k) d) = 0"
  shows "\<exists>j \<le> k. await_disabled hw d = Some ((hw ^^ Suc j) d)"
  using assms
proof (induction k arbitrary: d)
  case 0
  then show ?case by (subst await_disabled.simps) simp
next
  case (Suc k)
  show ?case
  proof (cases "dm_cfg (hw d) = 0")
    case True
    then show ?thesis by (subst await_disabled.simps) (auto simp: Let_def intro!: exI [of _ 0])
  next
    case False
    have "dm_cfg ((hw ^^ Suc k) (hw d)) = 0" using Suc.prems by (simp add: funpow_swap1)
    from Suc.IH [OF this] obtain j where "j \<le> k" "await_disabled hw (hw d) = Some ((hw ^^ Suc j) (hw d))" by blast
    with False show ?thesis
      by (subst await_disabled.simps) (auto simp: Let_def funpow_swap1 intro!: exI [of _ "Suc j"])
  qed
qed

lemma await_disabled_zero:
  assumes "await_disabled hw d = Some d'"
  shows "dm_cfg d' = 0"
proof (rule await_disabled.raw_induct [where P = "\<lambda>hw d d'. dm_cfg d' = 0", OF _ assms], goal_cases)
  case (1 aw hw d d')
  then show ?case by (auto simp: Let_def split: if_splits)
qed

text \<open>C29: when the device clears its reset bit some reads after it was set, and its configuration some reads
  after it was disabled, \<open>dmac_init\<close> returns, with the controller's clock enabled and the controller and its
  interrupt on; whatever the reset and the device did to the channels, of those running at the last read of the
  configuration the call stops exactly the ones among the first four whose write enable bit reads as one, since it
  clears their enable bits without setting the write enable bits; nothing else of the channels changes after
  that read.\<close>

theorem dmac_init_returns:
  assumes "\<And>d. \<exists>k. get_bits dmac_reset_t ''rst'' (dm_reset ((hw ^^ Suc k) d)) = 0"
    and "\<And>d. \<exists>k. dm_cfg ((hw ^^ Suc k) (dmac_disable d)) = 0"
  shows "\<exists>sysctl d i d'. dmac_init hw s = Some (sysctl, d') \<and> read_gate (CLK_EN_PERI, ''dma_clk_en'') sysctl = 1 \<and>
    get_bits dmac_cfg_t ''dmac_en'' (dm_cfg d') = 1 \<and> get_bits dmac_cfg_t ''int_en'' (dm_cfg d') = 1 \<and>
    dm_cfg ((hw ^^ Suc i) (dmac_disable d)) = 0 \<and>
    (\<forall>c. c < 6 \<longrightarrow> chen_idle c (dm_chen d') =
       (chen_idle c (dm_chen ((hw ^^ Suc i) (dmac_disable d))) \<or>
        c < 4 \<and> bit (dm_chen ((hw ^^ Suc i) (dmac_disable d))) (c + 8))) \<and>
    dm_channel d' = dm_channel ((hw ^^ Suc i) (dmac_disable d))"
proof -
  let ?d1 = "(snd s)\<lparr>dm_reset := put_bits dmac_reset_t ''rst'' 1 (dm_reset (snd s))\<rparr>"
  obtain j where j: "await_reset hw ?d1 = Some ((hw ^^ Suc j) ?d1)" using assms(1) await_reset_ends by meson
  define d2 where "d2 = ((hw ^^ Suc j) ?d1)\<lparr>dm_com_intclear := put_all dmac_commonreg_intclear_t
      [(''clear_slvif_dec_err_intstat'', 1), (''clear_slvif_wr2ro_err_intstat'', 1),
       (''clear_slvif_rd2wo_err_intstat'', 1), (''clear_slvif_wronhold_err_intstat'', 1),
       (''clear_slvif_undefinedreg_dec_err_intstat'', 1)] (dm_com_intclear ((hw ^^ Suc j) ?d1))\<rparr>"
  obtain i where i: "await_disabled hw (dmac_disable d2) = Some ((hw ^^ Suc i) (dmac_disable d2))"
    using assms(2) await_disabled_ends by meson
  define d3 where "d3 = (hw ^^ Suc i) (dmac_disable d2)"
  let ?d = "dmac_enable (d3\<lparr>dm_chen := write_chen (dm_chen d3 AND NOT 0xf) (dm_chen d3)\<rparr>)"
  have z: "dm_cfg d3 = 0" using await_disabled_zero i unfolding d3_def by blast
  have "dmac_init hw s = Some (snd (sysctl_clock_enable SYSCTL_CLOCK_DMA (fst s)), ?d)"
    by (simp only: dmac_init_def Let_def case_prod_beta j Option.bind.simps fst_conv snd_conv i d3_def flip: d2_def)
  moreover have "read_gate (CLK_EN_PERI, ''dma_clk_en'') (snd (sysctl_clock_enable SYSCTL_CLOCK_DMA (fst s))) = 1"
    using sysctl_clock_enable_gates [of SYSCTL_CLOCK_DMA "fst s"] by (auto simp: device_gate_def)
  moreover have "chen_idle c (dm_chen ?d) = (chen_idle c (dm_chen d3) \<or> c < 4 \<and> bit (dm_chen d3) (c + 8))" if "c < 6" for c
  proof -
    have m: "(- 16 :: u64) = NOT (mask 4)" by (simp add: mask_eq_exp_minus_1)
    have "bit (- 16 :: u64) c \<longleftrightarrow> \<not> c < 4" "bit (- 16 :: u64) (c + 8)"
      using that by (simp_all only: m bit_mask_iff bit_not_iff) auto
    then show ?thesis
      using that unfolding chen_idle_bit by (auto simp: write_chen_bit bit_and_iff)
  qed
  moreover have "dm_channel ?d = dm_channel d3" by simp
  ultimately show ?thesis using dmac_enable_fields z unfolding d3_def by blast
qed

section \<open>A controller at rest\<close>

definition idle_channel :: dmac_channel_t where
  "idle_channel = \<lparr>ch_sar = 0, ch_dar = 0, ch_block_ts = 0, ch_ctl = 0, ch_cfg = 0, ch_llp = 0, ch_status = 0,
     ch_swhssrc = 0, ch_swhsdst = 0, ch_blk_tfr = 0, ch_axi_id = 0, ch_axi_qos = 0, ch_reserved1
     = replicate 4 0, ch_intstatus_en = 0, ch_intstatus = 0, ch_intsignal_en = 0, ch_intclear =
     0, ch_reserved2 = replicate 12 0\<rparr>"

definition idle_dmac :: dmac_t where
  "idle_dmac = \<lparr>dm_id = 0, dm_compver = 0, dm_cfg = 0, dm_chen = 0, dm_reserved1 = replicate 2 0,
     dm_intstatus = 0, dm_com_intclear = 0, dm_com_intstatus_en = 0, dm_com_intsignal_en = 0,
     dm_com_intstatus = 0, dm_reset = 0, dm_reserved2 = replicate 20 0, dm_channel = replicate 6
     idle_channel\<rparr>"

text \<open>A device that resets at once and reads as unconfigured when it is disabled.\<close>

definition settle :: "dmac_t \<Rightarrow> dmac_t" where
  "settle d = d\<lparr>dm_reset := 0,
     dm_cfg := (if get_bits dmac_cfg_t ''dmac_en'' (dm_cfg d) = 0 then 0 else dm_cfg d)\<rparr>"

text \<open>A hart that runs a process, beside a controller at rest; a channel it starts is idle again at the next read.\<close>

definition come_to_rest :: "dmac_t \<Rightarrow> dmac_t" where
  "come_to_rest d = d\<lparr>dm_chen := 0\<rparr>"

definition dma_machine :: "sysctl_t \<Rightarrow> dma_state" where
  "dma_machine sysctl = proc_state.extend one_proc (dma_state.fields sysctl idle_dmac (\<lambda>_. come_to_rest) 0)"

lemma dma_machine_fields:
  "dma_regs (dma_machine sysctl) = idle_dmac" "dma_hw (dma_machine sysctl) = (\<lambda>_. come_to_rest)" "sys_regs (dma_machine sysctl) = sysctl"
  by (simp_all add: dma_machine_def proc_state.defs dma_state.defs)

lemma found_at_rest:
  assumes "dma_regs s = idle_dmac" "dma_hw s = (\<lambda>_. come_to_rest)" "n < 6"
  shows "dm_channel (found n s) = (replicate 6 idle_channel)[n := idle_channel\<lparr>ch_intclear := 0xffffffff\<rparr>]" "chen_idle m (dm_chen (found n s))"
  using assms
  by (simp_all add: found_def come_to_rest_def dmac_chanel_interrupt_clear_def upd_channel_def idle_dmac_def dmac_channel_disable_def chen_idle_def)

text \<open>Twelve words from the SPI's data register to memory on channel 1.\<close>

theorem dmac_set_single_mode_starts_witness:
  "\<forall>sysctl. \<exists>s'. dmac_set_single_mode (\<lambda>_ _ s. Inr s) 1 0x52000060 0x80500000 DMAC_ADDR_NOCHANGE DMAC_ADDR_INCREMENT
      DMAC_MSIZE_1 DMAC_TRANS_WIDTH_32 12 (dma_machine sysctl) = Some (Inr s') \<and>
    unat (ch_block_ts (dm_channel (dma_regs s') ! 1)) = 11 \<and> \<not> chen_idle 1 (dm_chen (dma_regs s')) \<and> chen_idle 0 (dm_chen (dma_regs s'))"
proof
  fix sysctl
  note i = found_at_rest [of "dma_machine sysctl" 1, OF dma_machine_fields(1,2), simplified]
  have l: "length (dm_channel (found 1 (dma_machine sysctl))) = 6" by (simp add: i(1) [simplified])
  show "\<exists>s'. dmac_set_single_mode (\<lambda>_ _ s. Inr s) 1 0x52000060 0x80500000 DMAC_ADDR_NOCHANGE DMAC_ADDR_INCREMENT
      DMAC_MSIZE_1 DMAC_TRANS_WIDTH_32 12 (dma_machine sysctl) = Some (Inr s') \<and>
    unat (ch_block_ts (dm_channel (dma_regs s') ! 1)) = 11 \<and> \<not> chen_idle 1 (dm_chen (dma_regs s')) \<and> chen_idle 0 (dm_chen (dma_regs s'))"
    using dmac_set_single_mode_starts [of 1 "dma_machine sysctl" DMAC_ADDR_NOCHANGE DMAC_ADDR_INCREMENT
        DMAC_MSIZE_1 DMAC_TRANS_WIDTH_32 12 "\<lambda>_ _ s. Inr s" "0x52000060" "0x80500000"] l i(2)
    by (auto simp: set_up_def programmed_def DMAC_ADDR_NOCHANGE_def DMAC_ADDR_INCREMENT_def DMAC_MSIZE_1_def DMAC_TRANS_WIDTH_32_def)
qed

theorem dmac_init_returns_witness:
  "\<forall>sysctl. \<exists>sysctl' d'. dmac_init settle (sysctl, idle_dmac) = Some (sysctl', d') \<and>
    get_bits dmac_cfg_t ''dmac_en'' (dm_cfg d') = 1"
proof
  fix sysctl
  have r: "\<exists>k. get_bits dmac_reset_t ''rst'' (dm_reset ((settle ^^ Suc k) d)) = 0" for d
    by (rule exI [of _ 0]) (simp add: settle_def get_bits_def split: option.split prod.split)
  have f: "field_at dmac_cfg_t ''dmac_en'' = Some (0, 1)" by code_simp
  have c: "\<exists>k. dm_cfg ((settle ^^ Suc k) (dmac_disable d)) = 0" for d
    by (rule exI [of _ 0]) (simp add: settle_def dmac_disable_def dcfg.get_put_all f)
  show "\<exists>sysctl' d'. dmac_init settle (sysctl, idle_dmac) = Some (sysctl', d') \<and>
    get_bits dmac_cfg_t ''dmac_en'' (dm_cfg d') = 1"
    using dmac_init_returns [of settle, OF r c, of "(sysctl, idle_dmac)"] by blast
qed

end
