(* ===== verification/Spi.thy ===== *)
theory Spi
  imports Dmac Riscv
begin

text \<open>
  The SPI controller, \<open>driver/spi.h\<close> and \<open>driver/spi.c\<close>: its registers, the set-up of a device,
  the transfers through the FIFOs and the ones the DMA controller makes. What the device does,
  the levels of its FIFOs, its status and the words it receives at each read, is a parameter; the
  words written to the data register are recorded in order.
\<close>

section \<open>The controller\<close>

record spi_t =
  sp_ctrlr0 :: u32
  sp_ctrlr1 :: u32
  sp_ssienr :: u32
  sp_mwcr :: u32
  sp_ser :: u32
  sp_baudr :: u32
  sp_txftlr :: u32
  sp_rxftlr :: u32
  sp_txflr :: u32
  sp_rxflr :: u32
  sp_sr :: u32
  sp_imr :: u32
  sp_isr :: u32
  sp_risr :: u32
  sp_txoicr :: u32
  sp_rxoicr :: u32
  sp_rxuicr :: u32
  sp_msticr :: u32
  sp_icr :: u32
  sp_dmacr :: u32
  sp_dmatdlr :: u32
  sp_dmardlr :: u32
  sp_idr :: u32
  sp_ssic_version_id :: u32
  sp_dr :: "u32 list"
  sp_rx_sample_delay :: u32
  sp_spi_ctrlr0 :: u32
  sp_resv :: u32
  sp_xip_mode_bits :: u32
  sp_xip_incr_inst :: u32
  sp_xip_wrap_inst :: u32
  sp_xip_ctrl :: u32
  sp_xip_ser :: u32
  sp_xrxoicr :: u32
  sp_xip_cnt_time_out :: u32
  sp_endian :: u32

definition spi_members :: "(string \<times> nat) list" where
  "spi_members =
     [(''ctrlr0'', 4), (''ctrlr1'', 4), (''ssienr'', 4), (''mwcr'', 4), (''ser'', 4), (''baudr'', 4), (''txftlr'', 4),
     (''rxftlr'', 4), (''txflr'', 4), (''rxflr'', 4), (''sr'', 4), (''imr'', 4), (''isr'', 4), (''risr'', 4),
     (''txoicr'', 4), (''rxoicr'', 4), (''rxuicr'', 4), (''msticr'', 4), (''icr'', 4), (''dmacr'', 4),
     (''dmatdlr'', 4), (''dmardlr'', 4), (''idr'', 4), (''ssic_version_id'', 4), (''dr'', 144),
     (''rx_sample_delay'', 4), (''spi_ctrlr0'', 4), (''resv'', 4), (''xip_mode_bits'', 4), (''xip_incr_inst'', 4),
     (''xip_wrap_inst'', 4), (''xip_ctrl'', 4), (''xip_ser'', 4), (''xrxoicr'', 4), (''xip_cnt_time_out'', 4),
     (''endian'', 4)]"

text \<open>The offsets the comments of the header give.\<close>

definition spi_offsets :: "(string \<times> nat) list" where
  "spi_offsets =
     [(''ctrlr0'', 0x00), (''ctrlr1'', 0x04), (''ssienr'', 0x08), (''mwcr'', 0x0c), (''ser'', 0x10),
     (''baudr'', 0x14), (''txftlr'', 0x18), (''rxftlr'', 0x1c), (''txflr'', 0x20), (''rxflr'', 0x24), (''sr'', 0x28),
     (''imr'', 0x2c), (''isr'', 0x30), (''risr'', 0x34), (''txoicr'', 0x38), (''rxoicr'', 0x3c), (''rxuicr'', 0x40),
     (''msticr'', 0x44), (''icr'', 0x48), (''dmacr'', 0x4c), (''dmatdlr'', 0x50), (''dmardlr'', 0x54),
     (''idr'', 0x58), (''ssic_version_id'', 0x5c), (''dr'', 0x60), (''rx_sample_delay'', 0xf0),
     (''spi_ctrlr0'', 0xf4), (''resv'', 0xf8), (''xip_mode_bits'', 0xfc), (''xip_incr_inst'', 0x100),
     (''xip_wrap_inst'', 0x104), (''xip_ctrl'', 0x108), (''xip_ser'', 0x10c), (''xrxoicr'', 0x110),
     (''xip_cnt_time_out'', 0x114)]"

definition SPI0_V :: u64 where "SPI0_V = 0x52000000 + VIRT_OFFSET"
definition SPI1_V :: u64 where "SPI1_V = 0x53000000 + VIRT_OFFSET"
definition SPI2_V :: u64 where "SPI2_V = 0x54000000 + VIRT_OFFSET"
definition SPI_SLAVE_V :: u64 where "SPI_SLAVE_V = 0x50240000 + VIRT_OFFSET"

definition spi_base :: "nat \<Rightarrow> u64" where
  "spi_base spi_num = [SPI0_V, SPI1_V, SPI_SLAVE_V, SPI2_V] ! spi_num"

definition SPI_TMOD_TRANS :: u32 where "SPI_TMOD_TRANS = 1"
definition SPI_TMOD_RECV :: u32 where "SPI_TMOD_RECV = 2"
definition SPI_TMOD_EEROM :: u32 where "SPI_TMOD_EEROM = 3"
definition SPI_FF_STANDARD :: u32 where "SPI_FF_STANDARD = 0"
definition SPI_TRANS_CHAR :: u64 where "SPI_TRANS_CHAR = 1"
definition SPI_TRANS_SHORT :: u64 where "SPI_TRANS_SHORT = 2"
definition SPI_TRANS_INT :: u64 where "SPI_TRANS_INT = 4"
definition SYSCTL_DMA_SELECT_SSI0_RX_REQ :: u32 where "SYSCTL_DMA_SELECT_SSI0_RX_REQ = 0"
definition SYSCTL_DMA_SELECT_SSI0_TX_REQ :: u32 where "SYSCTL_DMA_SELECT_SSI0_TX_REQ = 1"

section \<open>Set-up\<close>

text \<open>The positions of the fields of \<open>ctrlr0\<close>, which differ between the devices.\<close>

definition dfs_offset :: "nat \<Rightarrow> nat" where
  "dfs_offset spi_num = (if spi_num = 0 \<or> spi_num = 1 then 16 else 0)"

definition frf_offset :: "nat \<Rightarrow> nat" where
  "frf_offset spi_num = (if spi_num = 0 \<or> spi_num = 1 then 21 else if spi_num = 2 then 0 else 22)"

definition work_mode_offset :: "nat \<Rightarrow> nat" where
  "work_mode_offset spi_num = (if spi_num = 0 \<or> spi_num = 1 then 6 else if spi_num = 2 then 0 else 8)"

definition tmod_offset :: "nat \<Rightarrow> nat" where
  "tmod_offset spi_num = (if spi_num = 0 \<or> spi_num = 1 \<or> spi_num = 2 then 8 else 10)"

definition spi_init :: "nat \<Rightarrow> u32 \<Rightarrow> u32 \<Rightarrow> u64 \<Rightarrow> u32 \<Rightarrow> 'a spi_t_scheme \<Rightarrow> 'a spi_t_scheme" where
  "spi_init spi_num work_mode frame_format data_bit_length endian s =
     (let s = (if sp_baudr s = 0 then s\<lparr>sp_baudr := 0x14\<rparr> else s)
      in s\<lparr>sp_imr := 0, sp_dmacr := 0, sp_dmatdlr := 0x10, sp_dmardlr := 0, sp_ser := 0, sp_ssienr := 0,
           sp_ctrlr0 := ucast (ucast (push_bit (work_mode_offset spi_num) work_mode OR
                                      push_bit (frf_offset spi_num) frame_format) OR
                               push_bit (dfs_offset spi_num) (data_bit_length - 1)),
           sp_spi_ctrlr0 := 0, sp_endian := endian\<rparr>)"

text \<open>The value \<open>set_bit\<close> of \<open>driver/utils.c\<close> leaves in a register.\<close>

definition set_bit_value :: "u32 \<Rightarrow> u32 \<Rightarrow> u32 \<Rightarrow> u32" where
  "set_bit_value bits k value = bits AND NOT k OR value AND k"

definition spi_set_tmod :: "nat \<Rightarrow> u32 \<Rightarrow> 'a spi_t_scheme \<Rightarrow> 'a spi_t_scheme" where
  "spi_set_tmod spi_num tmod s =
     s\<lparr>sp_ctrlr0 := set_bit_value (sp_ctrlr0 s) (push_bit (tmod_offset spi_num) 3) (push_bit (tmod_offset spi_num) tmod)\<rparr>"

definition spi_get_frame_size :: "u64 \<Rightarrow> u64" where
  "spi_get_frame_size data_bit_length =
     (if data_bit_length < 8 then SPI_TRANS_CHAR
      else if data_bit_length < 16 then SPI_TRANS_SHORT else SPI_TRANS_INT)"

definition spi_get_frame_format :: "nat \<Rightarrow> 'a spi_t_scheme \<Rightarrow> u32" where
  "spi_get_frame_format spi_num s = drop_bit (frf_offset spi_num) (sp_ctrlr0 s) AND 3"

definition frame_width :: "nat \<Rightarrow> 'a spi_t_scheme \<Rightarrow> u64" where
  "frame_width spi_num s = spi_get_frame_size (ucast (drop_bit (dfs_offset spi_num) (sp_ctrlr0 s) AND 0x1F))"

section \<open>Transfers through the FIFOs\<close>

text \<open>
  The device: what the \<open>k\<close>-th read of the levels of its FIFOs, of its status and of the data
  register yields, and how many reads there were; what was written to the data register.
\<close>

record spi_port = spi_t +
  tx_level :: "nat \<Rightarrow> u32"
  rx_level :: "nat \<Rightarrow> u32"
  status_at :: "nat \<Rightarrow> u32"
  word_at :: "nat \<Rightarrow> u32"
  level_reads :: nat
  status_reads :: nat
  word_reads :: nat
  written :: "u32 list"

definition read_txflr :: "spi_port \<Rightarrow> u32 \<times> spi_port" where
  "read_txflr p = (tx_level p (level_reads p), p\<lparr>level_reads := Suc (level_reads p)\<rparr>)"

definition read_rxflr :: "spi_port \<Rightarrow> u32 \<times> spi_port" where
  "read_rxflr p = (rx_level p (level_reads p), p\<lparr>level_reads := Suc (level_reads p)\<rparr>)"

definition read_sr :: "spi_port \<Rightarrow> u32 \<times> spi_port" where
  "read_sr p = (status_at p (status_reads p), p\<lparr>status_reads := Suc (status_reads p)\<rparr>)"

definition write_words :: "u32 list \<Rightarrow> spi_port \<Rightarrow> spi_port" where
  "write_words ws p = p\<lparr>written := written p @ ws\<rparr>"

definition read_words :: "nat \<Rightarrow> spi_port \<Rightarrow> u32 list \<times> spi_port" where
  "read_words n p = (map (word_at p) [word_reads p..<word_reads p + n], p\<lparr>word_reads := word_reads p + n\<rparr>)"

text \<open>
  A little-endian item of \<open>n\<close> bytes of a buffer. In the two branches for a misaligned buffer the
  item is copied into a \<open>uint32\<close>: the upper half \<open>junk\<close> of it is not set for 16-bit items.
\<close>

definition item :: "u8 list \<Rightarrow> nat \<Rightarrow> nat \<Rightarrow> u32" where
  "item buff n at = word_of_nat (\<Sum>k<n. unat (buff ! (at + k)) * 256 ^ k)"

text \<open>The words one turn of the loop of \<open>spi_send_data_normal\<close> writes, and the new \<open>i\<close> and \<open>fifo_len\<close>.\<close>

definition send_turn :: "u64 \<Rightarrow> bool \<Rightarrow> u32 \<Rightarrow> u8 list \<Rightarrow> u64 \<Rightarrow> u32 \<Rightarrow> u32 list \<times> u32 \<times> u64" where
  "send_turn width v_misalign junk tx_buff fifo_len i =
     (if width = SPI_TRANS_INT then
        (let fifo_len = fifo_len div 4 * 4; n = unat (fifo_len div 4) in
         if v_misalign then (map (\<lambda>k. item tx_buff 4 (unat i + 4 * k)) [0..<n], i + word_of_nat (4 * n), fifo_len)
         else (map (\<lambda>k. item tx_buff 4 (4 * (unat i + k))) [0..<n], i + word_of_nat n, fifo_len))
      else if width = SPI_TRANS_SHORT then
        (let fifo_len = fifo_len div 2 * 2; n = unat (fifo_len div 2) in
         if v_misalign then
           (map (\<lambda>k. push_bit 16 junk OR item tx_buff 2 (unat i + 2 * k)) [0..<n], i + word_of_nat (2 * n), fifo_len)
         else (map (\<lambda>k. item tx_buff 2 (2 * (unat i + k))) [0..<n], i + word_of_nat n, fifo_len))
      else (map (\<lambda>k. ucast (tx_buff ! (unat i + k))) [0..<unat fifo_len], i + ucast fifo_len, fifo_len))"

partial_function (option) send_loop ::
    "u64 \<Rightarrow> bool \<Rightarrow> u32 \<Rightarrow> u8 list \<Rightarrow> u64 \<Rightarrow> u32 \<Rightarrow> spi_port \<Rightarrow> spi_port option" where
  "send_loop width v_misalign junk tx_buff tx_len i p =
     (if tx_len = 0 then Some p
      else
        (let (level, p) = read_txflr p;
             fifo_len = ucast (32 - level) :: u64;
             fifo_len = (if fifo_len < tx_len then fifo_len else tx_len);
             (ws, i, fifo_len) = send_turn width v_misalign junk tx_buff fifo_len i
         in send_loop width v_misalign junk tx_buff (tx_len - fifo_len) i (write_words ws p)))"

partial_function (option) await_sent :: "spi_port \<Rightarrow> spi_port option" where
  "await_sent p = (let (sr, p) = read_sr p in if sr AND 5 \<noteq> 4 then await_sent p else Some p)"

definition spi_send_data_normal ::
    "u32 \<Rightarrow> nat \<Rightarrow> nat \<Rightarrow> u64 \<Rightarrow> u8 list \<Rightarrow> u64 \<Rightarrow> spi_port \<Rightarrow> spi_port option" where
  "spi_send_data_normal junk spi_num chip_select tx_addr tx_buff tx_len p =
     (let p = spi_set_tmod spi_num SPI_TMOD_TRANS p;
          width = frame_width spi_num p;
          v_misalign = tx_addr mod width \<noteq> 0;
          p = p\<lparr>sp_ssienr := 1, sp_ser := push_bit chip_select 1\<rparr>
      in Option.bind (send_loop width v_misalign junk tx_buff tx_len 0 p) (\<lambda>p.
         map_option (\<lambda>p. p\<lparr>sp_ser := 0, sp_ssienr := 0\<rparr>) (await_sent p)))"

text \<open>
  \<open>spi_receive_data_standard\<close>: the command through the transmit FIFO, then the answer from the
  receive FIFO. The words of the command and the items received are given with the width of a frame.
\<close>

partial_function (option) command_loop :: "nat \<Rightarrow> u64 \<Rightarrow> u8 list \<Rightarrow> u64 \<Rightarrow> u32 \<Rightarrow> spi_port \<Rightarrow> spi_port option" where
  "command_loop chip_select width cmd_buff v_cmd_len i p =
     (if v_cmd_len = 0 then Some p
      else
        (let (level, p) = read_txflr p;
             fifo_len = ucast (32 - level) :: u64;
             fifo_len = (if fifo_len < v_cmd_len then fifo_len else v_cmd_len);
             p = write_words (map (\<lambda>k. item cmd_buff (unat width) (unat width * (unat i + k))) [0..<unat fifo_len]) p;
             p = p\<lparr>sp_ser := push_bit chip_select 1\<rparr>
         in command_loop chip_select width cmd_buff (v_cmd_len - fifo_len) (i + ucast fifo_len) p))"

partial_function (option) receive_loop :: "u32 \<Rightarrow> spi_port \<Rightarrow> (u32 list \<times> spi_port) option" where
  "receive_loop v_rx_len p =
     (if v_rx_len = 0 then Some ([], p)
      else
        (let (level, p) = read_rxflr p;
             fifo_len = (if ucast level < (ucast v_rx_len :: u64) then level else v_rx_len);
             (ws, p) = read_words (unat fifo_len) p
         in Option.bind (receive_loop (v_rx_len - fifo_len) p) (\<lambda>(rest, p). Some (ws @ rest, p))))"

definition spi_receive_fifo ::
    "nat \<Rightarrow> nat \<Rightarrow> u8 list \<Rightarrow> u64 \<Rightarrow> u64 \<Rightarrow> spi_port \<Rightarrow> (u32 list \<times> spi_port) option" where
  "spi_receive_fifo spi_num chip_select cmd_buff cmd_len rx_len p =
     (let p = spi_set_tmod spi_num (if cmd_len = 0 then SPI_TMOD_RECV else SPI_TMOD_EEROM) p;
          width = frame_width spi_num p;
          v_cmd_len = cmd_len div width;
          v_rx_len = ucast (rx_len div width) :: u32;
          p = p\<lparr>sp_ctrlr1 := v_rx_len - 1, sp_ssienr := 1\<rparr>
      in Option.bind (command_loop chip_select width cmd_buff v_cmd_len 0 p) (\<lambda>p.
         (let p = (if cmd_len = 0 then (write_words [0xffffffff] p)\<lparr>sp_ser := push_bit chip_select 1\<rparr> else p)
          in map_option (\<lambda>(ws, p). (map (\<lambda>w. take_bit (8 * unat width) w) ws, p\<lparr>sp_ser := 0, sp_ssienr := 0\<rparr>))
               (receive_loop v_rx_len p))))"

section \<open>What is set up is read back\<close>

lemma and_masks: "(x :: 'a::len word) AND 3 = take_bit 2 x" "(x :: 'a::len word) AND 0x1F = take_bit 5 x"
  by (simp_all add: take_bit_eq_mask mask_eq_exp_minus_1)

lemma bits_below: "unat (x :: 'a::len word) < 2 ^ n \<Longrightarrow> bit x k \<Longrightarrow> k < n"
proof (rule ccontr)
  assume x: "unat x < 2 ^ n" "bit x k" "\<not> k < n"
  then have "take_bit n x = x" by (simp add: word_unat_eq_iff unsigned_take_bit_eq take_bit_nat_eq_self)
  with x(2) have "bit (take_bit n x) k" by simp
  with x(3) show False by (simp add: bit_take_bit_iff)
qed

text \<open>The mode of the transfers.\<close>

definition spi_tmod :: "nat \<Rightarrow> 'a spi_t_scheme \<Rightarrow> u32" where
  "spi_tmod spi_num s = take_bit 2 (drop_bit (tmod_offset spi_num) (sp_ctrlr0 s))"

definition spi_work_mode :: "nat \<Rightarrow> 'a spi_t_scheme \<Rightarrow> u32" where
  "spi_work_mode spi_num s = take_bit 2 (drop_bit (work_mode_offset spi_num) (sp_ctrlr0 s))"

definition spi_data_bits :: "nat \<Rightarrow> 'a spi_t_scheme \<Rightarrow> u32" where
  "spi_data_bits spi_num s = take_bit 5 (drop_bit (dfs_offset spi_num) (sp_ctrlr0 s))"

lemma spi_init_ctrlr0:
  "sp_ctrlr0 (spi_init spi_num work_mode frame_format data_bit_length endian s) =
     push_bit (work_mode_offset spi_num) work_mode OR push_bit (frf_offset spi_num) frame_format OR
     ucast (push_bit (dfs_offset spi_num) (data_bit_length - 1))"
  by (simp add: spi_init_def Let_def) (rule bit_word_eqI, auto simp: bit_simps)

lemma spi_init_fields:
  fixes work_mode frame_format endian :: u32 and data_bit_length :: u64 and s :: "'a spi_t_scheme"
  assumes "spi_num = 0 \<or> spi_num = 1 \<or> spi_num = 3" "unat work_mode < 4" "unat frame_format < 4"
    "unat (data_bit_length - 1) < 32"
  defines "s' \<equiv> spi_init spi_num work_mode frame_format data_bit_length endian s"
  shows "spi_work_mode spi_num s' = work_mode" "spi_get_frame_format spi_num s' = frame_format"
    "spi_data_bits spi_num s' = ucast (data_bit_length - 1)" "spi_tmod spi_num s' = 0"
proof -
  note b = bits_below [of work_mode 2] bits_below [of frame_format 2] bits_below [of "data_bit_length - 1" 5]
  have w: "bit work_mode k \<Longrightarrow> k < 2" "bit frame_format k \<Longrightarrow> k < 2" "bit (data_bit_length - 1) k \<Longrightarrow> k < 5" for k
    using b assms(2-4) by simp_all
  note d = spi_work_mode_def spi_get_frame_format_def spi_data_bits_def spi_tmod_def and_masks s'_def spi_init_ctrlr0
    work_mode_offset_def frf_offset_def dfs_offset_def tmod_offset_def
  show "spi_work_mode spi_num s' = work_mode"
    using assms(1) unfolding d by (elim disjE; intro bit_word_eqI) (auto simp: bit_simps dest: w)
  show "spi_get_frame_format spi_num s' = frame_format"
    using assms(1) unfolding d by (elim disjE; intro bit_word_eqI) (auto simp: bit_simps dest: w)
  show "spi_data_bits spi_num s' = ucast (data_bit_length - 1)"
    using assms(1) unfolding d by (elim disjE; intro bit_word_eqI) (auto simp: bit_simps dest: w)
  show "spi_tmod spi_num s' = 0"
    using assms(1) unfolding d by (elim disjE; intro bit_word_eqI) (auto simp: bit_simps dest: w)
qed

lemma spi_set_tmod_fields:
  fixes tmod :: u32
  assumes "spi_num = 0 \<or> spi_num = 1 \<or> spi_num = 3" "unat tmod < 4"
  shows "spi_tmod spi_num (spi_set_tmod spi_num tmod s) = tmod"
    "spi_work_mode spi_num (spi_set_tmod spi_num tmod s) = spi_work_mode spi_num s"
    "spi_get_frame_format spi_num (spi_set_tmod spi_num tmod s) = spi_get_frame_format spi_num s"
    "spi_data_bits spi_num (spi_set_tmod spi_num tmod s) = spi_data_bits spi_num s"
proof -
  have w: "bit tmod k \<Longrightarrow> k < 2" for k using bits_below [of tmod 2] assms(2) by simp
  have three: "(3 :: u32) = mask 2" by (simp add: mask_eq_exp_minus_1)
  note d = spi_work_mode_def spi_get_frame_format_def spi_data_bits_def spi_tmod_def and_masks spi_set_tmod_def set_bit_value_def
    work_mode_offset_def frf_offset_def dfs_offset_def tmod_offset_def spi_t.simps three
  show "spi_tmod spi_num (spi_set_tmod spi_num tmod s) = tmod"
    using assms(1) unfolding d by (elim disjE; intro bit_word_eqI) (auto simp: bit_simps dest: w)
  show "spi_work_mode spi_num (spi_set_tmod spi_num tmod s) = spi_work_mode spi_num s"
    using assms(1) unfolding d by (elim disjE; intro bit_word_eqI) (auto simp: bit_simps dest: w)
  show "spi_get_frame_format spi_num (spi_set_tmod spi_num tmod s) = spi_get_frame_format spi_num s"
    using assms(1) unfolding d by (elim disjE; intro bit_word_eqI) (auto simp: bit_simps dest: w)
  show "spi_data_bits spi_num (spi_set_tmod spi_num tmod s) = spi_data_bits spi_num s"
    using assms(1) unfolding d by (elim disjE; intro bit_word_eqI) (auto simp: bit_simps dest: w)
qed

text \<open>
  for the devices with a field of their own for each, \<open>spi_init\<close> puts the work mode, the frame
  format and the number of bits of a frame less one where the controller has them, with the
  transfer mode cleared, and a later change of the transfer mode keeps the other three.
\<close>

theorem spi_init_reads_back:
  fixes work_mode frame_format endian tmod :: u32 and data_bit_length :: u64 and s :: spi_t
  assumes "spi_num = 0 \<or> spi_num = 1 \<or> spi_num = 3" "unat work_mode < 4" "unat frame_format < 4"
    "unat (data_bit_length - 1) < 32" "unat tmod < 4"
  shows "let s' = spi_set_tmod spi_num tmod (spi_init spi_num work_mode frame_format data_bit_length endian s) in
    spi_work_mode spi_num s' = work_mode \<and> spi_get_frame_format spi_num s' = frame_format \<and>
    spi_data_bits spi_num s' = ucast (data_bit_length - 1) \<and> spi_tmod spi_num s' = tmod"
  using spi_init_fields [OF assms(1-4), of endian s]
    spi_set_tmod_fields [OF assms(1,5), of "spi_init spi_num work_mode frame_format data_bit_length endian s"]
  by (simp add: Let_def)

section \<open>What is sent\<close>

text \<open>The transmit FIFO never holds more than its 32 words, and room in it appears again and again.\<close>

definition fifo_drains :: "spi_port \<Rightarrow> bool" where
  "fifo_drains p \<longleftrightarrow> (\<forall>k. unat (tx_level p k) \<le> 32) \<and> (\<forall>k. \<exists>j. unat (tx_level p (k + j)) < 32)"

text \<open>The status register at last says that nothing is left to send.\<close>

definition comes_to_rest :: "spi_port \<Rightarrow> bool" where
  "comes_to_rest p \<longleftrightarrow> (\<forall>k. \<exists>j. status_at p (k + j) AND 5 = 4)"

lemma await_sent_ends:
  "status_at p (status_reads p + j) AND 5 = 4 \<Longrightarrow> \<exists>n. await_sent p = Some (p\<lparr>status_reads := n\<rparr>)"
proof (induction j arbitrary: p)
  case 0
  then show ?case by (subst await_sent.simps) (auto simp: read_sr_def Let_def)
next
  case (Suc j)
  let ?p = "p\<lparr>status_reads := Suc (status_reads p)\<rparr>"
  obtain n where n: "await_sent ?p = Some (?p\<lparr>status_reads := n\<rparr>)" using Suc.IH [of ?p] Suc.prems by auto
  then show ?case
    by (subst await_sent.simps) (auto simp: read_sr_def Let_def)
qed

lemma fifo_room:
  assumes "unat (level :: u32) \<le> 32" "tx_len \<noteq> 0"
  defines "fifo \<equiv> (if ucast (32 - level) < (tx_len :: u64) then ucast (32 - level) else tx_len)"
  shows "unat fifo = min (32 - unat level) (unat tx_len)"
proof -
  have "unat (32 - level) = 32 - unat level" using assms(1) by (subst unat_sub) (simp_all add: word_le_nat_alt)
  then have "unat (ucast (32 - level) :: u64) = 32 - unat level"
    by (simp add: unsigned_ucast_eq take_bit_nat_eq_self)
  then show ?thesis by (simp add: fifo_def word_less_nat_alt min_def)
qed

text \<open>One turn of the loop for frames of one byte.\<close>

lemma send_loop_turn:
  assumes "unat (tx_level p (level_reads p)) \<le> 32" "tx_len \<noteq> 0" "a + unat tx_len \<le> length buff" "length buff < 2 ^ 32"
  obtains f where "unat f = min (32 - unat (tx_level p (level_reads p))) (unat tx_len)"
    "unat (tx_len - f) = unat tx_len - unat f"
    "send_loop SPI_TRANS_CHAR mis junk buff tx_len (word_of_nat a) p =
       send_loop SPI_TRANS_CHAR mis junk buff (tx_len - f) (word_of_nat (a + unat f))
         (p\<lparr>level_reads := Suc (level_reads p), written := written p @ map ucast (take (unat f) (drop a buff))\<rparr>)"
    "take (unat tx_len) (drop a buff) = take (unat f) (drop a buff) @ take (unat (tx_len - f)) (drop (a + unat f) buff)"
proof -
  let ?l = "tx_level p (level_reads p)"
  define f where "f = (if ucast (32 - ?l) < tx_len then ucast (32 - ?l) else tx_len)"
  have wide: "SPI_TRANS_CHAR \<noteq> SPI_TRANS_INT" "SPI_TRANS_CHAR \<noteq> SPI_TRANS_SHORT"
    by (simp_all add: SPI_TRANS_CHAR_def SPI_TRANS_INT_def SPI_TRANS_SHORT_def)
  have a: "unat (word_of_nat a :: u32) = a" using assms(3,4) by (simp add: unat_of_nat)
  have uf: "unat f = min (32 - unat ?l) (unat tx_len)" unfolding f_def by (rule fifo_room [OF assms(1,2)])
  have l: "unat (tx_len - f) = unat tx_len - unat f" using uf by (subst unat_sub) (simp_all add: word_le_nat_alt)
  have ws: "map (\<lambda>k. ucast (buff ! (a + k))) [0..<unat f] = (map ucast (take (unat f) (drop a buff)) :: u32 list)"
    using uf assms(3) by (intro nth_equalityI) simp_all
  have u: "ucast f = (word_of_nat (unat f) :: u32)" by simp
  have "send_loop SPI_TRANS_CHAR mis junk buff tx_len (word_of_nat a) p =
      send_loop SPI_TRANS_CHAR mis junk buff (tx_len - f) (word_of_nat (a + unat f))
        (p\<lparr>level_reads := Suc (level_reads p), written := written p @ map ucast (take (unat f) (drop a buff))\<rparr>)"
    using assms(2) a wide ws
    by (subst send_loop.simps) (simp add: read_txflr_def send_turn_def write_words_def Let_def flip: f_def)
  moreover have "take (unat tx_len) (drop a buff) =
      take (unat f) (drop a buff) @ take (unat (tx_len - f)) (drop (a + unat f) buff)"
    using uf l by (metis add.commute drop_drop le_add_diff_inverse min.cobounded2 take_add)
  ultimately show ?thesis using that uf l by blast
qed

lemma send_loop_char:
  assumes "fifo_drains p" "a + unat tx_len \<le> length buff" "length buff < 2 ^ 32"
  shows "\<exists>n. send_loop SPI_TRANS_CHAR mis junk buff tx_len (word_of_nat a) p =
    Some (p\<lparr>level_reads := n, written := written p @ map ucast (take (unat tx_len) (drop a buff))\<rparr>)"
  using assms(1,2)
proof (induction "unat tx_len" arbitrary: tx_len a p rule: less_induct)
  case less
  have step: "\<exists>n. send_loop SPI_TRANS_CHAR mis junk buff tx_len (word_of_nat a) p =
      Some (p\<lparr>level_reads := n, written := written p @ map ucast (take (unat tx_len) (drop a buff))\<rparr>)"
    if "fifo_drains p" "tx_len \<noteq> 0" "unat (tx_level p (level_reads p + j)) < 32" for p j
    using that
  proof (induction j arbitrary: p)
    case (0 p)
    then have "unat (tx_level p (level_reads p)) \<le> 32" by simp
    from send_loop_turn [OF this 0(2) less.prems(2) assms(3)] obtain f where
      f: "unat f = min (32 - unat (tx_level p (level_reads p))) (unat tx_len)" "unat (tx_len - f) = unat tx_len - unat f"
        "send_loop SPI_TRANS_CHAR mis junk buff tx_len (word_of_nat a) p =
       send_loop SPI_TRANS_CHAR mis junk buff (tx_len - f) (word_of_nat (a + unat f))
         (p\<lparr>level_reads := Suc (level_reads p), written := written p @ map ucast (take (unat f) (drop a buff))\<rparr>)"
        "take (unat tx_len) (drop a buff) = take (unat f) (drop a buff) @ take (unat (tx_len - f)) (drop (a + unat f) buff)" .
    have "unat tx_len \<noteq> 0" using 0(2) by (simp add: unat_eq_zero)
    then have "unat (tx_len - f) < unat tx_len" "a + unat f + unat (tx_len - f) \<le> length buff"
      using f(1,2) 0(3) less.prems(2) by auto
    moreover have "fifo_drains
        (p\<lparr>level_reads := Suc (level_reads p), written := written p @ map ucast (take (unat f) (drop a buff))\<rparr>)" (is "fifo_drains ?p")
      using 0(1) by (simp add: fifo_drains_def)
    ultimately obtain n where "send_loop SPI_TRANS_CHAR mis junk buff (tx_len - f) (word_of_nat (a + unat f)) ?p =
        Some (?p\<lparr>level_reads := n, written := written ?p @ map ucast (take (unat (tx_len - f)) (drop (a + unat f) buff))\<rparr>)"
      using less.hyps by blast
    then show ?case unfolding f(3,4) by (intro exI [of _ n]) simp
  next
    case (Suc j p)
    then have "unat (tx_level p (level_reads p)) \<le> 32" by (simp add: fifo_drains_def)
    from send_loop_turn [OF this Suc.prems(2) less.prems(2) assms(3)] obtain f where
      f: "unat f = min (32 - unat (tx_level p (level_reads p))) (unat tx_len)" "unat (tx_len - f) = unat tx_len - unat f"
        "send_loop SPI_TRANS_CHAR mis junk buff tx_len (word_of_nat a) p =
       send_loop SPI_TRANS_CHAR mis junk buff (tx_len - f) (word_of_nat (a + unat f))
         (p\<lparr>level_reads := Suc (level_reads p), written := written p @ map ucast (take (unat f) (drop a buff))\<rparr>)"
        "take (unat tx_len) (drop a buff) = take (unat f) (drop a buff) @ take (unat (tx_len - f)) (drop (a + unat f) buff)" .
    let ?p = "p\<lparr>level_reads := Suc (level_reads p), written := written p @ map ucast (take (unat f) (drop a buff))\<rparr>"
    show ?case
    proof (cases "f = 0")
      case True
      have "fifo_drains ?p" "unat (tx_level ?p (level_reads ?p + j)) < 32"
        using Suc.prems(1,3) by (simp_all add: fifo_drains_def)
      from Suc.IH [OF this(1) Suc.prems(2) this(2)] obtain n where
        "send_loop SPI_TRANS_CHAR mis junk buff tx_len (word_of_nat a) ?p =
          Some (?p\<lparr>level_reads := n, written := written ?p @ map ucast (take (unat tx_len) (drop a buff))\<rparr>)" by blast
      then show ?thesis unfolding f(3) True by (intro exI [of _ n]) (simp add: True)
    next
      case False
      then have "unat f \<noteq> 0" by (simp add: unat_eq_zero)
      then have "unat (tx_len - f) < unat tx_len" "a + unat f + unat (tx_len - f) \<le> length buff"
        using f(1,2) less.prems(2) by auto
      moreover have "fifo_drains ?p" using Suc.prems(1) by (simp add: fifo_drains_def)
      ultimately obtain n where "send_loop SPI_TRANS_CHAR mis junk buff (tx_len - f) (word_of_nat (a + unat f)) ?p =
          Some (?p\<lparr>level_reads := n, written := written ?p @ map ucast (take (unat (tx_len - f)) (drop (a + unat f) buff))\<rparr>)"
        using less.hyps by blast
      then show ?thesis unfolding f(3,4) by (intro exI [of _ n]) simp
    qed
  qed
  obtain j where j: "unat (tx_level p (level_reads p + j)) < 32" using less.prems(1) by (auto simp: fifo_drains_def)
  show ?case
  proof (cases "tx_len = 0")
    case True
    then show ?thesis by (subst send_loop.simps) (auto intro!: exI [of _ "level_reads p"])
  next
    case False
    show ?thesis by (rule step [OF less.prems(1) False j])
  qed
qed

text \<open>C26: with frames of at most 8 bits, on a device whose transmit FIFO has room again and again and
  whose status comes to rest, \<open>spi_send_data_normal\<close> returns, having written exactly the bytes of
  the buffer to the data register in order, whatever the levels of the FIFO were on the way; the
  device is then deselected and disabled, in transmit mode, its frame set-up as before.
\<close>

theorem spi_send_data_normal_sends:
  assumes "spi_num = 0 \<or> spi_num = 1 \<or> spi_num = 3" "unat (spi_data_bits spi_num p) < 8"
    and "fifo_drains p" "comes_to_rest p" "length tx < 2 ^ 32"
  shows "\<exists>p'. spi_send_data_normal junk spi_num chip_select tx_addr tx (word_of_nat (length tx)) p = Some p' \<and>
    written p' = written p @ map ucast tx \<and> sp_ser p' = 0 \<and> sp_ssienr p' = 0 \<and>
    spi_tmod spi_num p' = SPI_TMOD_TRANS \<and> spi_data_bits spi_num p' = spi_data_bits spi_num p"
proof -
  let ?q = "spi_set_tmod spi_num SPI_TMOD_TRANS p"
  have q: "spi_tmod spi_num ?q = SPI_TMOD_TRANS" "spi_data_bits spi_num ?q = spi_data_bits spi_num p"
    using spi_set_tmod_fields [OF assms(1), of SPI_TMOD_TRANS p] by (simp_all add: SPI_TMOD_TRANS_def)
  have "unat (ucast (spi_data_bits spi_num p) :: u64) < 8"
    using assms(2) by (simp add: unsigned_ucast_eq take_bit_nat_eq_self)
  then have w: "frame_width spi_num ?q = SPI_TRANS_CHAR"
    using q(2) by (simp add: frame_width_def spi_get_frame_size_def and_masks spi_data_bits_def word_less_nat_alt)
  let ?p = "?q\<lparr>sp_ssienr := 1, sp_ser := push_bit chip_select 1\<rparr>"
  have d: "fifo_drains ?p" "comes_to_rest ?p"
    using assms(3,4) by (simp_all add: fifo_drains_def comes_to_rest_def spi_set_tmod_def)
  have len: "unat (word_of_nat (length tx) :: u64) = length tx" using assms(5) by (simp add: unat_of_nat)
  have "0 + unat (word_of_nat (length tx) :: u64) \<le> length tx" using len by simp
  from send_loop_char [OF d(1) this assms(5)] obtain n where
    s: "send_loop SPI_TRANS_CHAR (tx_addr mod SPI_TRANS_CHAR \<noteq> 0) junk tx (word_of_nat (length tx)) 0 ?p =
      Some (?p\<lparr>level_reads := n, written := written ?p @ map ucast tx\<rparr>)" (is "_ = Some ?r")
    using len by auto
  obtain j where "status_at ?r (status_reads ?r + j) AND 5 = 4" using d(2) by (auto simp: comes_to_rest_def)
  from await_sent_ends [OF this] obtain k where a: "await_sent ?r = Some (?r\<lparr>status_reads := k\<rparr>)" by blast
  have "spi_send_data_normal junk spi_num chip_select tx_addr tx (word_of_nat (length tx)) p =
      Some (?r\<lparr>status_reads := k, sp_ser := 0, sp_ssienr := 0\<rparr>)"
    unfolding spi_send_data_normal_def Let_def w s Option.bind.simps a option.map by simp
  moreover have "spi_tmod spi_num (?r\<lparr>status_reads := k, sp_ser := 0, sp_ssienr := 0\<rparr>) = spi_tmod spi_num ?q"
    "spi_data_bits spi_num (?r\<lparr>status_reads := k, sp_ser := 0, sp_ssienr := 0\<rparr>) = spi_data_bits spi_num ?q"
    by (simp_all add: spi_tmod_def spi_data_bits_def)
  ultimately show ?thesis using q by (auto simp: spi_set_tmod_def)
qed

section \<open>What is received\<close>

definition fifo_fills :: "spi_port \<Rightarrow> bool" where
  "fifo_fills p \<longleftrightarrow> (\<forall>k. \<exists>j. rx_level p (k + j) \<noteq> 0)"

text \<open>One turn of the loop.\<close>

lemma receive_loop_turn:
  assumes "len \<noteq> 0"
  obtains f where "unat f = min (unat (rx_level p (level_reads p))) (unat len)" "unat (len - f) = unat len - unat f"
    "receive_loop len p = Option.bind
       (receive_loop (len - f) (p\<lparr>level_reads := Suc (level_reads p), word_reads := word_reads p + unat f\<rparr>))
       (\<lambda>(rest, p'). Some (map (word_at p) [word_reads p..<word_reads p + unat f] @ rest, p'))"
proof -
  let ?l = "rx_level p (level_reads p)"
  define f where "f = (if ucast ?l < (ucast len :: u64) then ?l else len)"
  have u: "unat (ucast x :: u64) = unat x" for x :: u32
    by (simp add: unsigned_ucast_eq take_bit_nat_eq_self order_less_le_trans [OF unsigned_less])
  have uf: "unat f = min (unat ?l) (unat len)" by (simp add: f_def word_less_nat_alt u min_def)
  moreover from uf have "unat (len - f) = unat len - unat f" by (subst unat_sub) (simp_all add: word_le_nat_alt)
  moreover have "receive_loop len p = Option.bind
       (receive_loop (len - f) (p\<lparr>level_reads := Suc (level_reads p), word_reads := word_reads p + unat f\<rparr>))
       (\<lambda>(rest, p'). Some (map (word_at p) [word_reads p..<word_reads p + unat f] @ rest, p'))"
    using assms by (subst receive_loop.simps) (simp add: read_rxflr_def read_words_def Let_def flip: f_def)
  ultimately show ?thesis using that by blast
qed

lemma receive_loop_words:
  assumes "fifo_fills p"
  shows "\<exists>n. receive_loop len p = Some (map (word_at p) [word_reads p..<word_reads p + unat len],
    p\<lparr>level_reads := n, word_reads := word_reads p + unat len\<rparr>)"
  using assms
proof (induction "unat len" arbitrary: len p rule: less_induct)
  case less
  let ?ok = "\<lambda>p. \<exists>n. receive_loop len p = Some (map (word_at p) [word_reads p..<word_reads p + unat len],
      p\<lparr>level_reads := n, word_reads := word_reads p + unat len\<rparr>)"
  have progress: "?ok p" if p: "fifo_fills p" "len \<noteq> 0" "rx_level p (level_reads p) \<noteq> 0" for p
  proof -
    obtain f where f: "unat f = min (unat (rx_level p (level_reads p))) (unat len)" "unat (len - f) = unat len - unat f"
      "receive_loop len p = Option.bind
       (receive_loop (len - f) (p\<lparr>level_reads := Suc (level_reads p), word_reads := word_reads p + unat f\<rparr>))
       (\<lambda>(rest, p'). Some (map (word_at p) [word_reads p..<word_reads p + unat f] @ rest, p'))"
      using receive_loop_turn [OF p(2)] .
    let ?p = "p\<lparr>level_reads := Suc (level_reads p), word_reads := word_reads p + unat f\<rparr>"
    have "unat (rx_level p (level_reads p)) \<noteq> 0" "unat len \<noteq> 0" using p(2,3) by (simp_all add: unat_eq_zero)
    then have "unat (len - f) < unat len" using f(1,2) by simp
    moreover have "fifo_fills ?p" using p(1) by (simp add: fifo_fills_def)
    ultimately obtain n where n: "receive_loop (len - f) ?p =
        Some (map (word_at ?p) [word_reads ?p..<word_reads ?p + unat (len - f)],
          ?p\<lparr>level_reads := n, word_reads := word_reads ?p + unat (len - f)\<rparr>)"
      using less.hyps by blast
    have e: "word_reads p + unat f + unat (len - f) = word_reads p + unat len" using f(1,2) by simp
    have m: "map (word_at p) [word_reads p..<word_reads p + unat f] @
        map (word_at p) [word_reads p + unat f..<word_reads p + unat len] =
        map (word_at p) [word_reads p..<word_reads p + unat len]"
      using f(1) upt_add_eq_append [of "word_reads p" "word_reads p + unat f" "unat len - unat f"]
      by (simp flip: map_append)
    show ?thesis unfolding f(3) n by (intro exI [of _ n]) (simp add: e m)
  qed
  have step: "?ok p" if "fifo_fills p" "len \<noteq> 0" "rx_level p (level_reads p + j) \<noteq> 0" for p j
    using that
  proof (induction j arbitrary: p)
    case (0 p)
    then show ?case using progress by simp
  next
    case (Suc j p)
    show ?case
    proof (cases "rx_level p (level_reads p) = 0")
      case True
      obtain f where f: "unat f = min (unat (rx_level p (level_reads p))) (unat len)" "unat (len - f) = unat len - unat f"
        "receive_loop len p = Option.bind
         (receive_loop (len - f) (p\<lparr>level_reads := Suc (level_reads p), word_reads := word_reads p + unat f\<rparr>))
         (\<lambda>(rest, p'). Some (map (word_at p) [word_reads p..<word_reads p + unat f] @ rest, p'))"
        using receive_loop_turn [OF Suc.prems(2)] .
      have f0: "f = 0" using f(1) True by (simp add: unat_eq_zero)
      let ?p = "p\<lparr>level_reads := Suc (level_reads p), word_reads := word_reads p + unat f\<rparr>"
      have "fifo_fills ?p" "rx_level ?p (level_reads ?p + j) \<noteq> 0"
        using Suc.prems(1,3) by (simp_all add: fifo_fills_def)
      from Suc.IH [OF this(1) Suc.prems(2) this(2)] obtain n where
        n: "receive_loop len ?p = Some (map (word_at ?p) [word_reads ?p..<word_reads ?p + unat len],
          ?p\<lparr>level_reads := n, word_reads := word_reads ?p + unat len\<rparr>)" by blast
      show ?thesis
        using n unfolding f(3) f0 by (intro exI [of _ n]) simp
    qed (rule progress [OF Suc.prems(1,2)])
  qed
  obtain j where j: "rx_level p (level_reads p + j) \<noteq> 0" using less.prems by (auto simp: fifo_fills_def)
  show ?case
  proof (cases "len = 0")
    case True
    then show ?thesis by (subst receive_loop.simps) (auto intro!: exI [of _ "level_reads p"])
  next
    case False
    show ?thesis by (rule step [OF less.prems False j])
  qed
qed

text \<open>C27: with frames of at most 8 bits and no command, on a device whose receive FIFO gets words
  again and again, \<open>spi_receive_data_standard\<close> returns, having read exactly the bytes asked for from
  the data register in order, whatever the levels of the FIFO were on the way, after one dummy word; the
  device is then deselected and disabled.
\<close>

theorem spi_receive_fifo_reads:
  assumes "spi_num = 0 \<or> spi_num = 1 \<or> spi_num = 3" "unat (spi_data_bits spi_num p) < 8" "fifo_fills p" "n < 2 ^ 32"
  shows "\<exists>p'. spi_receive_fifo spi_num chip_select cmd_buff 0 (word_of_nat n) p =
      Some (map (\<lambda>k. take_bit 8 (word_at p k)) [word_reads p..<word_reads p + n], p') \<and>
    written p' = written p @ [0xffffffff] \<and> word_reads p' = word_reads p + n \<and> sp_ser p' = 0 \<and> sp_ssienr p' = 0 \<and>
    spi_tmod spi_num p' = SPI_TMOD_RECV \<and> sp_ctrlr1 p' = word_of_nat n - 1"
proof -
  let ?q = "spi_set_tmod spi_num SPI_TMOD_RECV p"
  have q: "spi_tmod spi_num ?q = SPI_TMOD_RECV" "spi_data_bits spi_num ?q = spi_data_bits spi_num p"
    using spi_set_tmod_fields [OF assms(1), of SPI_TMOD_RECV p] by (simp_all add: SPI_TMOD_RECV_def)
  have "unat (ucast (spi_data_bits spi_num p) :: u64) < 8"
    using assms(2) by (simp add: unsigned_ucast_eq take_bit_nat_eq_self)
  then have w: "frame_width spi_num ?q = SPI_TRANS_CHAR"
    using q(2) by (simp add: frame_width_def spi_get_frame_size_def and_masks spi_data_bits_def word_less_nat_alt)
  have u: "unat (word_of_nat n :: u32) = n" "ucast (word_of_nat n :: u64) = (word_of_nat n :: u32)"
    using assms(4) by (simp_all add: unat_of_nat word_unat_eq_iff unsigned_ucast_eq take_bit_nat_eq_self)
  let ?p = "(write_words [0xffffffff] (?q\<lparr>sp_ctrlr1 := word_of_nat n - 1, sp_ssienr := 1\<rparr>))\<lparr>sp_ser := push_bit chip_select 1\<rparr>"
  have "fifo_fills ?p" using assms(3) by (simp add: fifo_fills_def write_words_def spi_set_tmod_def)
  from receive_loop_words [OF this, of "word_of_nat n"] obtain k where
    r: "receive_loop (word_of_nat n) ?p = Some (map (word_at ?p) [word_reads ?p..<word_reads ?p + n],
      ?p\<lparr>level_reads := k, word_reads := word_reads ?p + n\<rparr>)" unfolding u(1) by blast
  have c: "command_loop chip_select width cmd_buff 0 0 x = Some x" for width x
    by (subst command_loop.simps) simp
  have div: "word_of_nat n div SPI_TRANS_CHAR = (word_of_nat n :: u64)" "0 div SPI_TRANS_CHAR = 0" "unat SPI_TRANS_CHAR = 1"
    by (simp_all add: SPI_TRANS_CHAR_def)
  have "spi_receive_fifo spi_num chip_select cmd_buff 0 (word_of_nat n) p =
      Some (map (take_bit 8) (map (word_at ?p) [word_reads ?p..<word_reads ?p + n]),
        ?p\<lparr>level_reads := k, word_reads := word_reads ?p + n, sp_ser := 0, sp_ssienr := 0\<rparr>)"
    by (simp only: spi_receive_fifo_def Let_def simp_thms if_True w div u(2) c Option.bind.simps r option.map prod.case
        mult_1_right)
  then show ?thesis using q(1) by (auto simp: write_words_def spi_set_tmod_def spi_tmod_def)
qed

section \<open>Transfers by the DMA controller\<close>

record spi_system = dma_state +
  port :: spi_port

type_synonym 'a spi_switch = "'a spi_system_ext dma_switch"

text \<open>The cast of a channel number of the DMA controller to one of the system controller.\<close>

definition dma_channel_of :: "nat \<Rightarrow> sysctl_dma_channel_t" where
  "dma_channel_of n =
     (if n = 0 then SYSCTL_DMA_CHANNEL_0 else if n = 1 then SYSCTL_DMA_CHANNEL_1
      else if n = 2 then SYSCTL_DMA_CHANNEL_2 else if n = 3 then SYSCTL_DMA_CHANNEL_3
      else if n = 4 then SYSCTL_DMA_CHANNEL_4 else if n = 5 then SYSCTL_DMA_CHANNEL_5
      else SYSCTL_DMA_CHANNEL_MAX)"

text \<open>The address of \<open>dr[0]\<close>.\<close>

definition dr_address :: "nat \<Rightarrow> u64" where "dr_address spi_num = spi_base spi_num + 0x60"

definition select_request :: "nat \<Rightarrow> u32 \<Rightarrow> 'a spi_system_scheme \<Rightarrow> 'a spi_system_scheme" where
  "select_request channel request s =
     s\<lparr>sys_regs := snd (sysctl_dma_select (dma_channel_of channel) request (sys_regs s))\<rparr>"

definition on_port :: "(spi_port \<Rightarrow> spi_port) \<Rightarrow> 'a spi_system_scheme \<Rightarrow> 'a spi_system_scheme" where
  "on_port f s = s\<lparr>port := f (port s)\<rparr>"

definition spi_receive_data_normal_dma ::
    "'a spi_switch \<Rightarrow> nat \<Rightarrow> nat \<Rightarrow> nat \<Rightarrow> nat \<Rightarrow> u64 \<Rightarrow> u64 \<Rightarrow> u64 \<Rightarrow> u64 \<Rightarrow>
     'a spi_system_scheme \<Rightarrow> 'a spi_system_scheme res option" where
  "spi_receive_data_normal_dma pswitch send_channel receive_channel spi_num chip_select cmd_buff cmd_len rx_buff rx_len s =
     (let s = on_port (spi_set_tmod spi_num (if cmd_len = 0 then SPI_TMOD_RECV else SPI_TMOD_EEROM)) s;
          s = on_port (\<lambda>p. p\<lparr>sp_ctrlr1 := ucast (rx_len - 1), sp_dmacr := 3, sp_ssienr := 1\<rparr>) s;
          s = (if cmd_len \<noteq> 0
               then select_request send_channel (SYSCTL_DMA_SELECT_SSI0_TX_REQ + word_of_nat (spi_num * 2)) s else s);
          s = select_request receive_channel (SYSCTL_DMA_SELECT_SSI0_RX_REQ + word_of_nat (spi_num * 2)) s
      in opt_bnd (dmac_set_single_mode pswitch receive_channel (dr_address spi_num) rx_buff
             DMAC_ADDR_NOCHANGE DMAC_ADDR_INCREMENT DMAC_MSIZE_1 DMAC_TRANS_WIDTH_32 rx_len s) (\<lambda>s.
         opt_bnd (if cmd_len \<noteq> 0
             then dmac_set_single_mode pswitch send_channel cmd_buff (dr_address spi_num)
               DMAC_ADDR_INCREMENT DMAC_ADDR_NOCHANGE DMAC_MSIZE_4 DMAC_TRANS_WIDTH_32 cmd_len s
             else Some (Inr s)) (\<lambda>s.
           (let s = (if cmd_len = 0 \<and> spi_get_frame_format spi_num (port s) = SPI_FF_STANDARD
                     then on_port (write_words [0xffffffff]) s else s);
                s = on_port (\<lambda>p. p\<lparr>sp_ser := push_bit chip_select 1\<rparr>) s
            in opt_bnd (if cmd_len \<noteq> 0 then dmac_wait_done pswitch send_channel s else Some (Inr s)) (\<lambda>s.
               opt_bnd (dmac_wait_done pswitch receive_channel s) (\<lambda>s.
                 Some (Inr (on_port (\<lambda>p. p\<lparr>sp_ser := 0, sp_ssienr := 0\<rparr>) s))))))))"

text \<open>\<open>spi_send_data_normal_dma\<close> for a buffer of words, the width its callers pass.\<close>

definition spi_send_data_normal_dma ::
    "'a spi_switch \<Rightarrow> nat \<Rightarrow> nat \<Rightarrow> nat \<Rightarrow> u64 \<Rightarrow> u64 \<Rightarrow> 'a spi_system_scheme \<Rightarrow> 'a spi_system_scheme res option" where
  "spi_send_data_normal_dma pswitch channel_num spi_num chip_select buf tx_len s =
     (let s = on_port (spi_set_tmod spi_num SPI_TMOD_TRANS) s;
          s = on_port (\<lambda>p. p\<lparr>sp_dmacr := 2, sp_ssienr := 1\<rparr>) s;
          s = select_request channel_num (SYSCTL_DMA_SELECT_SSI0_TX_REQ + word_of_nat (spi_num * 2)) s
      in opt_bnd (dmac_set_single_mode pswitch channel_num buf (dr_address spi_num)
             DMAC_ADDR_INCREMENT DMAC_ADDR_NOCHANGE DMAC_MSIZE_4 DMAC_TRANS_WIDTH_32 tx_len s) (\<lambda>s.
           (let s = on_port (\<lambda>p. p\<lparr>sp_ser := push_bit chip_select 1\<rparr>) s
            in opt_bnd (dmac_wait_done pswitch channel_num s) (\<lambda>s.
               Option.bind (await_sent (port s)) (\<lambda>p.
                 Some (Inr (s\<lparr>port := p\<lparr>sp_ser := 0, sp_ssienr := 0\<rparr>\<rparr>)))))))"

lemma dma_channel_inj: "m < 6 \<Longrightarrow> dma_channel_of m \<noteq> SYSCTL_DMA_CHANNEL_MAX"
  by (simp add: dma_channel_of_def)

lemma spi_system_fields [simp]:
  "dma_regs (on_port f s) = dma_regs s" "dma_reads (on_port f s) = dma_reads s" "dma_hw (on_port f s) = dma_hw s"
  "sys_regs (on_port f s) = sys_regs s" "port (on_port f s) = f (port s)"
  "dma_regs (select_request c r s) = dma_regs s" "dma_reads (select_request c r s) = dma_reads s"
  "dma_hw (select_request c r s) = dma_hw s" "port (select_request c r s) = port s"
  by (simp_all add: on_port_def select_request_def)

lemma sys_select_request: "sys_regs (select_request c r s) = snd (sysctl_dma_select (dma_channel_of c) r (sys_regs s))"
  by (simp add: select_request_def)

lemma found_cong: "dma_regs t = dma_regs s \<Longrightarrow> dma_reads t = dma_reads s \<Longrightarrow> dma_hw t = dma_hw s \<Longrightarrow> found n t = found n s"
  by (simp add: found_def)

lemma port_polled [simp]: "port (polled s) = port s"
  by (simp add: polled_def)

text \<open>C28: a transfer of \<open>rx_len\<close> words without a command from the SPI to memory looks at the DMA channel twice:
  after disabling it, and once it has been started. If the channel is found idle both times, the call
  returns, having programmed the channel between the two looks from the device's data register to the buffer for
  \<open>rx_len\<close> items, started it and left the other channels as found, with the
  request of the device's receiver selected for that channel and the other channels' requests as before,
  and the device in receive mode for \<open>rx_len\<close> frames, deselected and disabled. If it is found running once, the
  call never returns, since the wait sleeps.
\<close>

theorem spi_receive_dma_sets_up:
  assumes "spi_num = 0 \<or> spi_num = 1 \<or> spi_num = 3" "rc < 6" "length (dm_channel (found rc s)) = 6" "ucast rx_len \<noteq> (0 :: u32)"
  shows "\<exists>d. set_up rc (dr_address spi_num) rx_buff DMAC_ADDR_NOCHANGE DMAC_ADDR_INCREMENT DMAC_MSIZE_1 DMAC_TRANS_WIDTH_32
      rx_len (found rc s) d \<and>
    (if chen_idle rc (dm_chen (found rc s)) \<and> chen_idle rc (dm_chen (dma_hw s (Suc (dma_reads s)) d))
     then \<exists>s'. spi_receive_data_normal_dma pswitch sc rc spi_num chip_select cmd_buff 0 rx_buff rx_len s = Some (Inr s') \<and>
       dma_regs s' = dma_hw s (Suc (dma_reads s)) d \<and>
       (\<forall>c. dma_request c (sys_regs s') =
          (if c = dma_channel_of rc then word_of_nat (spi_num * 2) else dma_request c (sys_regs s))) \<and>
       spi_tmod spi_num (port s') = SPI_TMOD_RECV \<and> sp_ctrlr1 (port s') = ucast (rx_len - 1) \<and>
       sp_ser (port s') = 0 \<and> sp_ssienr (port s') = 0
     else \<exists>e. spi_receive_data_normal_dma pswitch sc rc spi_num chip_select cmd_buff 0 rx_buff rx_len s = Some (Inl e))"
proof -
  let ?s1 = "on_port (\<lambda>p. p\<lparr>sp_ctrlr1 := ucast (rx_len - 1), sp_dmacr := 3, sp_ssienr := 1\<rparr>)
    (on_port (spi_set_tmod spi_num SPI_TMOD_RECV) s)"
  define s2 where "s2 = select_request rc (SYSCTL_DMA_SELECT_SSI0_RX_REQ + word_of_nat (spi_num * 2)) ?s1"
  have "found rc s2 = found rc s" by (rule found_cong) (simp_all add: s2_def)
  then have f: "found rc s2 = found rc s" "dma_reads s2 = dma_reads s" "dma_hw s2 = dma_hw s"
    by (simp_all add: s2_def)
  have c: "DMAC_ADDR_NOCHANGE < 2" "DMAC_ADDR_INCREMENT < 2" "DMAC_MSIZE_1 < 16" "DMAC_TRANS_WIDTH_32 < 8"
    by (simp_all add: DMAC_ADDR_NOCHANGE_def DMAC_ADDR_INCREMENT_def DMAC_MSIZE_1_def DMAC_TRANS_WIDTH_32_def)
  let ?m = "dmac_set_single_mode pswitch rc (dr_address spi_num) rx_buff DMAC_ADDR_NOCHANGE DMAC_ADDR_INCREMENT
      DMAC_MSIZE_1 DMAC_TRANS_WIDTH_32 rx_len s2"
  let ?su = "set_up rc (dr_address spi_num) rx_buff DMAC_ADDR_NOCHANGE DMAC_ADDR_INCREMENT DMAC_MSIZE_1 DMAC_TRANS_WIDTH_32
      rx_len (found rc s)"
  have m: "if chen_idle rc (dm_chen (found rc s))
    then \<exists>d. ?m = Some (Inr (s2\<lparr>dma_regs := d, dma_reads := Suc (dma_reads s)\<rparr>)) \<and> ?su d
    else \<exists>e. ?m = Some (Inl e)"
    using single_mode_starts [of rc s2 DMAC_ADDR_NOCHANGE DMAC_ADDR_INCREMENT DMAC_MSIZE_1 DMAC_TRANS_WIDTH_32 rx_len pswitch
      "dr_address spi_num" rx_buff] assms(2-4) c unfolding f by simp
  show ?thesis
  proof (cases "chen_idle rc (dm_chen (found rc s))")
    case False
    then obtain e where e: "?m = Some (Inl e)" using m by auto
    have "spi_receive_data_normal_dma pswitch sc rc spi_num chip_select cmd_buff 0 rx_buff rx_len s = Some (Inl e)"
      unfolding spi_receive_data_normal_dma_def Let_def
      by (simp only: simp_thms if_True if_False s2_def [symmetric] e opt_bnd_simps)
    then show ?thesis using False set_up_programs [OF assms(2,3) c assms(4)] by auto
  next
    case True
    then obtain d where d: "?m = Some (Inr (s2\<lparr>dma_regs := d, dma_reads := Suc (dma_reads s)\<rparr>))" "?su d" using m by auto
    define s3 where "s3 = s2\<lparr>dma_regs := d, dma_reads := Suc (dma_reads s)\<rparr>"
    define t where "t = on_port (\<lambda>p. p\<lparr>sp_ser := push_bit chip_select 1\<rparr>)
      (if spi_get_frame_format spi_num (port s3) = SPI_FF_STANDARD then on_port (write_words [0xffffffff]) s3 else s3)"
    have s3: "dma_regs s3 = d" "dma_reads s3 = Suc (dma_reads s)" "dma_hw s3 = dma_hw s" "sys_regs s3 = sys_regs s2" "port s3 = port s2"
      by (simp_all add: s3_def f)
    have t: "dma_regs t = d" "dma_reads t = Suc (dma_reads s)" "dma_hw t = dma_hw s" "sys_regs t = sys_regs s2"
      "sp_ctrlr0 (port t) = sp_ctrlr0 (port s2)" "sp_ctrlr1 (port t) = ucast (rx_len - 1)"
      by (simp_all add: t_def s3 write_words_def) (simp_all add: s2_def)
    have r: "spi_receive_data_normal_dma pswitch sc rc spi_num chip_select cmd_buff 0 rx_buff rx_len s =
        opt_bnd (dmac_wait_idle pswitch rc t) (\<lambda>s. Some (Inr (on_port (\<lambda>p. p\<lparr>sp_ser := 0, sp_ssienr := 0\<rparr>) s)))"
      unfolding spi_receive_data_normal_dma_def Let_def
      by (simp only: simp_thms if_True if_False s2_def [symmetric] d(1) s3_def [symmetric] opt_bnd_simps t_def [symmetric] dmac_wait_done_def)
    have w: "dma_regs (polled t) = dma_hw s (Suc (dma_reads s)) d" by (simp add: t)
    show ?thesis
    proof (cases "chen_idle rc (dm_chen (dma_hw s (Suc (dma_reads s)) d))")
      case False
      then obtain e where "dmac_wait_idle pswitch rc t = Some (Inl e)" using dmac_wait_idle_once [of rc t pswitch] unfolding w by auto
      then show ?thesis using False d(2) r by auto
    next
      case idle: True
      let ?u = "on_port (\<lambda>p. p\<lparr>sp_ser := 0, sp_ssienr := 0\<rparr>) (polled t)"
      have "dmac_wait_idle pswitch rc t = Some (Inr (polled t))" using idle dmac_wait_idle_once [of rc t pswitch] unfolding w by simp
      then have "spi_receive_data_normal_dma pswitch sc rc spi_num chip_select cmd_buff 0 rx_buff rx_len s = Some (Inr ?u)"
        using r by simp
      moreover have "dma_regs ?u = dma_hw s (Suc (dma_reads s)) d" by (simp add: t)
      moreover have "dma_request e (sys_regs ?u) =
          (if e = dma_channel_of rc then word_of_nat (spi_num * 2) else dma_request e (sys_regs s))" for e
      proof -
        let ?r = "SYSCTL_DMA_SELECT_SSI0_RX_REQ + word_of_nat (spi_num * 2) :: u32"
        have "take_bit 6 ?r = word_of_nat (spi_num * 2)" using assms(1) by (auto simp: SYSCTL_DMA_SELECT_SSI0_RX_REQ_def)
        note q = sysctl_dma_select_request(2) [OF dma_channel_inj [OF assms(2)], of e ?r "sys_regs s", unfolded this]
        have "sys_regs ?u = snd (sysctl_dma_select (dma_channel_of rc) ?r (sys_regs s))"
          by (simp add: t s2_def sys_select_request)
        then show ?thesis using q by (simp only:)
      qed
      moreover have "spi_tmod spi_num (port ?u) = SPI_TMOD_RECV"
        using spi_set_tmod_fields(1) [OF assms(1), of SPI_TMOD_RECV "port s"] t(5)
        by (simp add: spi_tmod_def s2_def SPI_TMOD_RECV_def)
      moreover have "sp_ctrlr1 (port ?u) = ucast (rx_len - 1)" "sp_ser (port ?u) = 0" "sp_ssienr (port ?u) = 0"
        using t(6) by simp_all
      ultimately show ?thesis using True idle d(2) by auto
    qed
  qed
qed

section \<open>The structures\<close>

lemma spi_offsets_documented:
  "list_all (\<lambda>(m, off). map_of (members_at 0 spi_members) m = Some off) spi_offsets"
  by code_simp

text \<open>In every register structure of the system and the DMA controller the fields have different
  names and at least one bit, and fit the 32 or 64 bits of the register, which those of the system
  controller fill; the packed structures of the system, the DMA and the SPI controller put
  every register at the offset its comment gives, and the 256 bytes of each DMA channel where the
  next one's begin.
\<close>

theorem registers_fit:
  "list_all (\<lambda>l. layout_ok 32 l \<and> sum_list (map snd l) = 32) sysctl_layouts \<and> list_all (layout_ok 64) dmac_layouts \<and>
   members_at 0 sysctl_members = sysctl_offsets \<and>
   list_all (\<lambda>(m, off). map_of (members_at 0x100 dmac_channel_members) m = Some off) channel_offsets \<and>
   list_all (\<lambda>(m, off). map_of (members_at 0 dmac_members) m = Some off) dmac_offsets \<and>
   map_of (members_at 0 dmac_members) ''channel'' = Some 0x100 \<and>
   sum_list (map snd dmac_channel_members) = 0x100 \<and>
   list_all (\<lambda>(m, off). map_of (members_at 0 spi_members) m = Some off) spi_offsets"
  using sysctl_layouts_fit dmac_layouts_fit sysctl_offsets_documented dmac_offsets_documented spi_offsets_documented
  by (simp only: list_all_iff)

section \<open>A device at rest\<close>

definition idle_port :: spi_port where
  "idle_port = \<lparr>sp_ctrlr0 = 0, sp_ctrlr1 = 0, sp_ssienr = 0, sp_mwcr = 0, sp_ser = 0, sp_baudr = 0,
     sp_txftlr = 0, sp_rxftlr = 0, sp_txflr = 0, sp_rxflr = 0, sp_sr = 0, sp_imr = 0, sp_isr = 0,
     sp_risr = 0, sp_txoicr = 0, sp_rxoicr = 0, sp_rxuicr = 0, sp_msticr = 0, sp_icr = 0,
     sp_dmacr = 0, sp_dmatdlr = 0, sp_dmardlr = 0, sp_idr = 0, sp_ssic_version_id = 0, sp_dr =
     replicate 36 0, sp_rx_sample_delay = 0, sp_spi_ctrlr0 = 0, sp_resv = 0, sp_xip_mode_bits =
     0, sp_xip_incr_inst = 0, sp_xip_wrap_inst = 0, sp_xip_ctrl = 0, sp_xip_ser = 0, sp_xrxoicr =
     0, sp_xip_cnt_time_out = 0, sp_endian = 0,
     tx_level = (\<lambda>k. if even k then 32 else 30), rx_level = (\<lambda>k. if even k then 0 else 2), status_at = (\<lambda>_. 4),
     word_at = (\<lambda>k. word_of_nat k + 0x100), level_reads = 0, status_reads = 0, word_reads = 0, written = []\<rparr>"

lemma idle_port_device:
  "fifo_drains (idle_port\<lparr>sp_ctrlr0 := c\<rparr>)" "comes_to_rest (idle_port\<lparr>sp_ctrlr0 := c\<rparr>)" "fifo_fills (idle_port\<lparr>sp_ctrlr0 := c\<rparr>)"
proof -
  have e: "even (k + (if even k then 1 else 0)) \<longleftrightarrow> False" for k :: nat by simp
  have "\<exists>j. unat (if even (k + j) then 32 else 30 :: u32) < 32" "\<exists>j. (if even (k + j) then 0 else 2) \<noteq> (0 :: u32)" for k :: nat
    using e [of k] by (intro exI [of _ "if even k then 1 else 0"]; simp)+
  then show "fifo_drains (idle_port\<lparr>sp_ctrlr0 := c\<rparr>)" "comes_to_rest (idle_port\<lparr>sp_ctrlr0 := c\<rparr>)" "fifo_fills (idle_port\<lparr>sp_ctrlr0 := c\<rparr>)"
    by (simp_all add: fifo_drains_def comes_to_rest_def fifo_fills_def idle_port_def)
qed

text \<open>Frames of 8 bits on device 0.\<close>

definition byte_port :: spi_port where "byte_port = spi_init 0 0 SPI_FF_STANDARD 8 0 idle_port"

lemma byte_port_bits: "unat (spi_data_bits 0 byte_port) < 8"
  using spi_init_fields(3) [of 0 0 SPI_FF_STANDARD 8 0 idle_port] by (simp add: byte_port_def SPI_FF_STANDARD_def)

lemma byte_port_device: "fifo_drains byte_port" "comes_to_rest byte_port" "fifo_fills byte_port"
  using idle_port_device [of 0]
  by (simp_all add: byte_port_def spi_init_def fifo_drains_def comes_to_rest_def fifo_fills_def Let_def)

theorem spi_init_reads_back_witness:
  "\<forall>s :: spi_t. spi_data_bits 0 (spi_set_tmod 0 1 (spi_init 0 0 0 8 0 s)) = 7"
proof
  fix s :: spi_t
  show "spi_data_bits 0 (spi_set_tmod 0 1 (spi_init 0 0 0 8 0 s)) = 7"
    using spi_init_reads_back [of 0 0 0 8 1 0 s] by (simp add: Let_def)
qed

theorem spi_send_data_normal_sends_witness:
  "\<exists>p'. spi_send_data_normal 0 0 3 0x80500001 [0x40, 0, 0, 0, 0, 0x95] 6 byte_port = Some p' \<and>
    written p' = [0x40, 0, 0, 0, 0, 0x95]"
  using spi_send_data_normal_sends [OF _ byte_port_bits byte_port_device(1,2), of "[0x40, 0, 0, 0, 0, 0x95]" 0 3 "0x80500001"]
  by (auto simp: byte_port_def spi_init_def idle_port_def Let_def)

theorem spi_receive_fifo_reads_witness:
  "\<exists>p'. spi_receive_fifo 0 3 [] 0 3 byte_port = Some ([0, 1, 2], p') \<and> word_reads p' = 3"
proof -
  have b: "word_reads byte_port = 0" "word_at byte_port = (\<lambda>k. word_of_nat k + 0x100)"
    by (simp_all add: byte_port_def spi_init_def idle_port_def Let_def)
  have u: "[0..<3] = [0, 1, 2 :: nat]" by (simp add: upt_rec)
  show ?thesis
    using spi_receive_fifo_reads [OF _ byte_port_bits byte_port_device(3), of 3 3 "[]"] by (auto simp: b u take_bit_eq_mod)
qed

definition spi_machine :: "sysctl_t \<Rightarrow> spi_system" where
  "spi_machine sysctl = dma_state.extend (dma_machine sysctl) (spi_system.fields byte_port)"

lemma spi_machine_fields:
  "dma_regs (spi_machine sysctl) = idle_dmac" "dma_hw (spi_machine sysctl) = (\<lambda>_. come_to_rest)" "sys_regs (spi_machine sysctl) = sysctl"
  using dma_machine_fields [of sysctl] by (simp_all add: spi_machine_def dma_state.defs spi_system.defs)

theorem spi_receive_dma_sets_up_witness:
  "\<forall>sysctl. \<exists>s'. spi_receive_data_normal_dma (\<lambda>_ _ s. Inr s) 1 0 0 3 0 0 0x80500000 128 (spi_machine sysctl) = Some (Inr s') \<and>
    ch_dar (dm_channel (dma_regs s') ! 0) = 0x80500000 \<and> unat (ch_block_ts (dm_channel (dma_regs s') ! 0)) = 127 \<and>
    dma_request SYSCTL_DMA_CHANNEL_0 (sys_regs s') = 0"
proof
  fix sysctl
  note i = found_at_rest [of "spi_machine sysctl" 0, OF spi_machine_fields(1,2), simplified]
  have l: "length (dm_channel (found 0 (spi_machine sysctl))) = 6" by (simp add: i(1) [simplified])
  have r: "chen_idle 0 (dm_chen (come_to_rest d))" "dm_channel (come_to_rest d) = dm_channel d" for d by (simp_all add: come_to_rest_def chen_idle_def)
  show "\<exists>s'. spi_receive_data_normal_dma (\<lambda>_ _ s. Inr s) 1 0 0 3 0 0 0x80500000 128 (spi_machine sysctl) = Some (Inr s') \<and>
    ch_dar (dm_channel (dma_regs s') ! 0) = 0x80500000 \<and> unat (ch_block_ts (dm_channel (dma_regs s') ! 0)) = 127 \<and>
    dma_request SYSCTL_DMA_CHANNEL_0 (sys_regs s') = 0"
    using spi_receive_dma_sets_up [of 0 0 "spi_machine sysctl" 128 "0x80500000" "\<lambda>_ _ s. Inr s" 1 3 0] l i(2)
    by (auto simp: set_up_def programmed_def dma_channel_of_def spi_machine_fields r)
qed

end
