(* ===== verification/Gpiohs.thy ===== *)
theory Gpiohs
  imports Riscv Clock Fpioa Registers
begin

text \<open>
  The high-speed GPIO, \<open>driver/gpiohs.c\<close>: the direction and the value of a pin, as bits of registers in
  memory, with the pull resistor of the pin that carries the function.
\<close>

unbundle bit_operations_syntax

section \<open>Registers\<close>

datatype gpio_drive_mode = GPIO_DM_INPUT | GPIO_DM_INPUT_PULL_DOWN | GPIO_DM_INPUT_PULL_UP | GPIO_DM_OUTPUT

definition GPIOHS_V :: u64 where "GPIOHS_V = 0x38001000 + VIRT_OFFSET"

definition gpiohs_members :: "(string \<times> nat) list" where
  "gpiohs_members =
     [(''input_val'', 4), (''input_en'', 4), (''output_en'', 4), (''output_val'', 4), (''pullup_en'', 4), (''drive'', 4),
      (''rise_ie'', 4), (''rise_ip'', 4), (''fall_ie'', 4), (''fall_ip'', 4), (''high_ie'', 4), (''high_ip'', 4),
      (''low_ie'', 4), (''low_ip'', 4), (''iof_en'', 4), (''iof_sel'', 4), (''output_xor'', 4)]"

text \<open>The offsets the header gives.\<close>

definition gpiohs_offsets :: "(string \<times> nat) list" where
  "gpiohs_offsets =
     [(''input_val'', 0x00), (''input_en'', 0x04), (''output_en'', 0x08), (''output_val'', 0x0C), (''pullup_en'', 0x10),
      (''drive'', 0x14), (''rise_ie'', 0x18), (''rise_ip'', 0x1C), (''fall_ie'', 0x20), (''fall_ip'', 0x24),
      (''high_ie'', 0x28), (''high_ip'', 0x2C), (''low_ie'', 0x30), (''low_ip'', 0x34), (''iof_en'', 0x38),
      (''iof_sel'', 0x3C), (''output_xor'', 0x40)]"

lemma gpiohs_offsets_documented: "members_at 0 gpiohs_members = gpiohs_offsets"
  by code_simp

definition gpiohs_reg :: "string \<Rightarrow> u64" where
  "gpiohs_reg r = GPIOHS_V + word_of_nat (case map_of (members_at 0 gpiohs_members) r of Some a \<Rightarrow> a | None \<Rightarrow> 0)"

section \<open>Operations\<close>

text \<open>The state is that of the pins and of the registers in memory.\<close>

definition gpiohs_set_drive_mode :: "u8 \<Rightarrow> gpio_drive_mode \<Rightarrow> pins \<times> mem \<Rightarrow> pins \<times> mem" where
  "gpiohs_set_drive_mode pin mode s =
     (let (io, m) = s;
          io_number = fpioa_get_io_by_function (int FUNC_GPIOHS0 + uint pin) io;
          (pull, dir) = (case mode of
              GPIO_DM_INPUT \<Rightarrow> (FPIOA_PULL_NONE, False)
            | GPIO_DM_INPUT_PULL_DOWN \<Rightarrow> (FPIOA_PULL_DOWN, False)
            | GPIO_DM_INPUT_PULL_UP \<Rightarrow> (FPIOA_PULL_UP, False)
            | GPIO_DM_OUTPUT \<Rightarrow> (FPIOA_PULL_DOWN, True));
          io = snd (fpioa_set_io_pull io_number pull io);
          reg = (if dir then gpiohs_reg ''output_en'' else gpiohs_reg ''input_en'');
          reg_d = (if \<not> dir then gpiohs_reg ''output_en'' else gpiohs_reg ''input_en'');
          m = set_gpio_bit reg_d (ucast pin) 0 m
      in (io, set_gpio_bit reg (ucast pin) 1 m))"

definition gpiohs_set_pin :: "u8 \<Rightarrow> u32 \<Rightarrow> pins \<times> mem \<Rightarrow> pins \<times> mem" where
  "gpiohs_set_pin pin value s = (fst s, set_gpio_bit (gpiohs_reg ''output_val'') (ucast pin) value (snd s))"

section \<open>Facts\<close>

lemma gpiohs_regs:
  "gpiohs_reg ''input_en'' = GPIOHS_V + 4" "gpiohs_reg ''output_en'' = GPIOHS_V + 8" "gpiohs_reg ''output_val'' = GPIOHS_V + 12"
  by (simp_all add: gpiohs_reg_def gpiohs_offsets_documented gpiohs_offsets_def)

text \<open>Setting a bit of a register, and the other bits and words.\<close>

lemma set_gpio_bit_word:
  assumes "n < 32" "unat x = n"
  shows "bit (ld32 (set_gpio_bit a x v m) a) k = (if k = n then bit v 0 else bit (ld32 m a) k)"
  using assms by (auto simp: set_gpio_bit_def set_bit_offset_def set_bit_c_def Let_def bit_simps dest: bit_imp_le_length)

lemma set_gpio_bit_other:
  "unat a mod 4 = 0 \<Longrightarrow> unat b mod 4 = 0 \<Longrightarrow> a \<noteq> b \<Longrightarrow> ld32 (set_gpio_bit b x v m) a = ld32 m a"
  by (simp add: set_gpio_bit_def set_bit_offset_def set_bit_c_def Let_def ld32_st32_other)

lemma set_gpio_bit_outside: "4 \<le> unat (y - a) \<Longrightarrow> set_gpio_bit a x v m y = m y"
  by (simp add: set_gpio_bit_def set_bit_offset_def set_bit_c_def Let_def st32_def stn_apply)

text \<open>C32: for the pin of the chip that carries GPIO line \<open>n\<close>, setting the mode of the line gives the pin the
  pull resistor of the mode and no other, enables the line's bit of exactly one of the two direction
  registers as the mode asks and leaves every other bit of the two, every other pin, and the value
  register alone; setting a value then changes that line's bit of the value register only.
\<close>

theorem gpiohs_drives_line:
  fixes pin :: u8 and io :: pins and m :: mem
  assumes "unat pin < 32" "length io = 48" "\<forall>j. carries io (FUNC_GPIOHS0 + unat pin) j \<longleftrightarrow> j = number"
    and "s' = gpiohs_set_drive_mode pin mode (io, m)" "s'' = gpiohs_set_pin pin v s'"
  shows "io_pu (fst s' ! number) = (if mode = GPIO_DM_INPUT_PULL_UP then 1 else 0) \<and>
    io_pd (fst s' ! number) = (if mode = GPIO_DM_INPUT_PULL_DOWN \<or> mode = GPIO_DM_OUTPUT then 1 else 0) \<and>
    (\<forall>j. j \<noteq> number \<longrightarrow> fst s' ! j = io ! j) \<and>
    (\<forall>k. bit (ld32 (snd s') (gpiohs_reg ''output_en'')) k =
       (if k = unat pin then mode = GPIO_DM_OUTPUT else bit (ld32 m (gpiohs_reg ''output_en'')) k)) \<and>
    (\<forall>k. bit (ld32 (snd s') (gpiohs_reg ''input_en'')) k =
       (if k = unat pin then mode \<noteq> GPIO_DM_OUTPUT else bit (ld32 m (gpiohs_reg ''input_en'')) k)) \<and>
    ld32 (snd s') (gpiohs_reg ''output_val'') = ld32 m (gpiohs_reg ''output_val'') \<and>
    (\<forall>k. bit (ld32 (snd s'') (gpiohs_reg ''output_val'')) k =
       (if k = unat pin then bit v 0 else bit (ld32 m (gpiohs_reg ''output_val'')) k)) \<and>
    ld32 (snd s'') (gpiohs_reg ''output_en'') = ld32 (snd s') (gpiohs_reg ''output_en'') \<and>
    ld32 (snd s'') (gpiohs_reg ''input_en'') = ld32 (snd s') (gpiohs_reg ''input_en'')"
proof -
  have n: "number < 48" using assms(3) by (auto simp: carries_def)
  have "uint pin = int (unat pin)" by simp
  then have g: "fpioa_get_io_by_function (int FUNC_GPIOHS0 + uint pin) io = int number"
    unfolding fpioa_get_io_by_function_def FPIOA_NUM_IO_def of_nat_add [symmetric]
    using find_loop [of 0 48 io "FUNC_GPIOHS0 + unat pin" number] assms(3) n by simp
  have u: "unat (ucast pin :: u64) = unat pin" using assms(1) by (simp add: unsigned_ucast_eq take_bit_nat_eq_self)
  have a: "unat (GPIOHS_V + 4) mod 4 = 0" "unat (GPIOHS_V + 8) mod 4 = 0" "unat (GPIOHS_V + 12) mod 4 = 0"
    by (simp_all add: GPIOHS_V_def VIRT_OFFSET_def)
  note w = set_gpio_bit_word [OF assms(1) u] set_gpio_bit_other a
  note p = FPIOA_PULL_NONE_def FPIOA_PULL_DOWN_def FPIOA_PULL_UP_def FPIOA_PULL_MAX_def FPIOA_NUM_IO_def
  show ?thesis
    unfolding assms(4,5) gpiohs_regs
    by (cases mode)
       (use n assms(2) in \<open>simp_all add: gpiohs_set_drive_mode_def gpiohs_set_pin_def g gpiohs_regs fpioa_set_io_pull_def p w\<close>)
qed

text \<open>Pins of which only number 32 is in use, for line 7, as the SD card's chip select.\<close>

definition line7_pins :: pins where
  "line7_pins = reset_pins[32 := io_config_of (function_config ! FUNC_GPIOHS7)]"

lemma line7_carries: "carries line7_pins FUNC_GPIOHS7 j \<longleftrightarrow> j = 32"
  using config_ch_sel [of FUNC_GPIOHS7] reserved_ch_sel
  by (cases "j = 32") (auto simp: carries_def line7_pins_def reset_pins_def FUNC_GPIOHS7_def FUNC_RESV0_def)

theorem gpiohs_drives_line_witness:
  "io_pd (fst (gpiohs_set_drive_mode 7 GPIO_DM_OUTPUT (line7_pins, \<lambda>_. 0)) ! 32) = 1"
proof -
  have "\<forall>j. carries line7_pins (FUNC_GPIOHS0 + unat (7 :: u8)) j \<longleftrightarrow> j = 32" "length line7_pins = 48"
    using line7_carries by (simp_all add: FUNC_GPIOHS7_def FUNC_GPIOHS0_def line7_pins_def reset_pins_def)
  then show ?thesis
    using gpiohs_drives_line [of 7 line7_pins 32 _ GPIO_DM_OUTPUT "\<lambda>_. 0", OF _ _ _ refl refl] by simp
qed

end
