(* ===== verification/Uart.thy ===== *)
theory Uart
  imports Console
begin

text \<open>
  The serial port, \<open>driver/uart.cpp\<close>: its registers, the transmit buffer of 32 bytes as a provider of
  \<open>byte_ring\<close>, and sending and receiving, by waiting and by interrupt.
\<close>

unbundle bit_operations_syntax

section \<open>State\<close>

text \<open>
  The buffer and its two indices, and the device: \<open>lsr_at k\<close> is what the \<open>k\<close>-th read of the line status
  register gives and \<open>rhr_at k\<close> the \<open>k\<close>-th byte received; \<open>uart_out\<close> lists the writes of registers, last
  at the end. \<open>panicked\<close> is the flag of \<open>printf.c\<close>.
\<close>

record uart_state = console_state +
  uart_tx_buf :: "int \<Rightarrow> u8"
  uart_tx_w :: int
  uart_tx_r :: int
  panicked :: bool
  lsr_at :: "nat \<Rightarrow> u8"
  lsr_reads :: nat
  rhr_at :: "nat \<Rightarrow> u8"
  rhr_reads :: nat
  uart_out :: "(nat \<times> u8) list"

definition UART_RHR :: nat where "UART_RHR = 0"
definition UART_THR :: nat where "UART_THR = 0"
definition UART_IER :: nat where "UART_IER = 1"
definition UART_FCR :: nat where "UART_FCR = 2"
definition UART_LCR :: nat where "UART_LCR = 3"
definition UART_LSR :: nat where "UART_LSR = 5"
definition IER_TX_ENABLE :: u8 where "IER_TX_ENABLE = 1"
definition IER_RX_ENABLE :: u8 where "IER_RX_ENABLE = 2"
definition FCR_FIFO_ENABLE :: u8 where "FCR_FIFO_ENABLE = 1"
definition FCR_FIFO_CLEAR :: u8 where "FCR_FIFO_CLEAR = 6"
definition LCR_EIGHT_BITS :: u8 where "LCR_EIGHT_BITS = 3"
definition LCR_BAUD_LATCH :: u8 where "LCR_BAUD_LATCH = 128"
definition LSR_TX_IDLE :: u8 where "LSR_TX_IDLE = 32"
definition UART_TX_BUF_SIZE :: int where "UART_TX_BUF_SIZE = 32"

definition WriteReg :: "nat \<Rightarrow> u8 \<Rightarrow> 'a uart_state_scheme \<Rightarrow> 'a uart_state_scheme" where
  "WriteReg reg v s = s\<lparr>uart_out := uart_out s @ [(reg, v)]\<rparr>"

text \<open>\<open>ReadReg\<close> of the two registers the driver reads.\<close>

definition read_lsr :: "'a uart_state_scheme \<Rightarrow> u8 \<times> 'a uart_state_scheme" where
  "read_lsr s = (lsr_at s (lsr_reads s), s\<lparr>lsr_reads := Suc (lsr_reads s)\<rparr>)"

definition read_rhr :: "'a uart_state_scheme \<Rightarrow> u8 \<times> 'a uart_state_scheme" where
  "read_rhr s = (rhr_at s (rhr_reads s), s\<lparr>rhr_reads := Suc (rhr_reads s)\<rparr>)"

section \<open>Operations\<close>

text \<open>\<open>nm\<close> is the address of the literal \<open>"uart"\<close>.\<close>

definition uartInit :: "u64 \<Rightarrow> 'a uart_state_scheme \<Rightarrow> 'a uart_state_scheme" where
  "uartInit nm s =
     (let s = WriteReg UART_IER 0 s;
          s = WriteReg UART_LCR LCR_BAUD_LATCH s;
          s = WriteReg 0 3 s;
          s = WriteReg 1 0 s;
          s = WriteReg UART_LCR LCR_EIGHT_BITS s;
          s = WriteReg UART_FCR (FCR_FIFO_ENABLE OR FCR_FIFO_CLEAR) s;
          s = WriteReg UART_IER (IER_TX_ENABLE OR IER_RX_ENABLE) s
      in initlock L_uart nm 4 (s\<lparr>uart_tx_w := 0, uart_tx_r := 0\<rparr>))"

text \<open>The buffer: the test and the store of \<open>uartputc\<close>, the test and the fetch of \<open>uartStart\<close>.\<close>

definition uart_full :: "'a uart_state_scheme \<Rightarrow> bool" where
  "uart_full s \<longleftrightarrow> (uart_tx_w s + 1) smod UART_TX_BUF_SIZE = uart_tx_r s"

definition uart_empty :: "'a uart_state_scheme \<Rightarrow> bool" where
  "uart_empty s \<longleftrightarrow> uart_tx_w s = uart_tx_r s"

definition uart_put :: "u8 \<Rightarrow> 'a uart_state_scheme \<Rightarrow> 'a uart_state_scheme" where
  "uart_put c s = s\<lparr>uart_tx_buf := (uart_tx_buf s)(uart_tx_w s := c), uart_tx_w := (uart_tx_w s + 1) smod UART_TX_BUF_SIZE\<rparr>"

definition uart_get :: "'a uart_state_scheme \<Rightarrow> u8 \<times> 'a uart_state_scheme" where
  "uart_get s = (uart_tx_buf s (uart_tx_r s), s\<lparr>uart_tx_r := (uart_tx_r s + 1) smod UART_TX_BUF_SIZE\<rparr>)"

partial_function (option) uartStart :: "'a uart_state_scheme \<Rightarrow> 'a uart_state_scheme option" where
  "uartStart s =
     (if uart_empty s then Some s
      else
        (let (lsr, s) = read_lsr s
         in if lsr AND LSR_TX_IDLE = 0 then Some s
            else
              (let (c, s) = uart_get s;
                   s = wakeup Ch_uart s
               in uartStart (WriteReg UART_THR c s))))"

text \<open>After a panic the two functions that put a character never return.\<close>

partial_function (option) uartputc_loop ::
    "'a uart_state_ext console_state_ext pipe_state_ext sleep_state_ext switch \<Rightarrow> int \<Rightarrow> 'a uart_state_scheme
       \<Rightarrow> 'a uart_state_scheme res option" where
  "uartputc_loop pswitch c s =
     (if uart_full s then
        (case sleep pswitch Ch_uart L_uart s of
           Inl e \<Rightarrow> Some (Inl e)
         | Inr s \<Rightarrow> uartputc_loop pswitch c s)
      else
        Option.bind (uartStart (uart_put (word_of_int c) s)) (\<lambda>s. Some (release L_uart s)))"

definition uartputc ::
    "'a uart_state_ext console_state_ext pipe_state_ext sleep_state_ext switch \<Rightarrow> int \<Rightarrow> 'a uart_state_scheme
       \<Rightarrow> 'a uart_state_scheme res option" where
  "uartputc pswitch c s =
     opt_bnd (Some (acquire L_uart s)) (\<lambda>s. if panicked s then None else uartputc_loop pswitch c s)"

partial_function (option) await_idle :: "'a uart_state_scheme \<Rightarrow> 'a uart_state_scheme option" where
  "await_idle s = (let (lsr, s) = read_lsr s in if lsr AND LSR_TX_IDLE = 0 then await_idle s else Some s)"

definition uartputc_sync :: "int \<Rightarrow> 'a uart_state_scheme \<Rightarrow> 'a uart_state_scheme res option" where
  "uartputc_sync c s =
     (let s = push_off s in
      if panicked s then None
      else Option.bind (await_idle s) (\<lambda>s. Some (pop_off (WriteReg UART_THR (word_of_int c) s))))"

definition uartgetc :: "'a uart_state_scheme \<Rightarrow> int \<times> 'a uart_state_scheme" where
  "uartgetc s =
     (let (lsr, s) = read_lsr s
      in if lsr AND 1 \<noteq> 0 then (let (c, s) = read_rhr s in (uint c, s)) else (- 1, s))"

partial_function (option) uartIntr_loop :: "'a uart_state_scheme \<Rightarrow> 'a uart_state_scheme option" where
  "uartIntr_loop s =
     (let (c, s) = uartgetc s
      in if c = - 1 then Some s else uartIntr_loop (consoleintr c s))"

definition uartIntr :: "'a uart_state_scheme \<Rightarrow> 'a uart_state_scheme res option" where
  "uartIntr s =
     Option.bind (uartIntr_loop s) (\<lambda>s.
     opt_bnd (Some (acquire L_uart s)) (\<lambda>s.
     Option.bind (uartStart s) (\<lambda>s. Some (release L_uart s))))"

section \<open>The transmit buffer\<close>

text \<open>One place of the buffer stays free, so that a full buffer differs from an empty one.\<close>

definition uart_contents :: "'a uart_state_scheme \<Rightarrow> u8 list" where
  "uart_contents s = map (\<lambda>k. uart_tx_buf s ((uart_tx_r s + int k) mod 32)) [0..<nat ((uart_tx_w s - uart_tx_r s) mod 32)]"

definition uart_inv :: "'a uart_state_scheme \<Rightarrow> bool" where
  "uart_inv s \<longleftrightarrow> 0 \<le> uart_tx_w s \<and> uart_tx_w s < UART_TX_BUF_SIZE \<and> 0 \<le> uart_tx_r s \<and> uart_tx_r s < UART_TX_BUF_SIZE"

lemma uart_gap:
  fixes w r :: int
  assumes "0 \<le> w" "w < 32" "0 \<le> r" "r < 32"
  shows "(w - r) mod 32 = (if r \<le> w then w - r else w - r + 32)"
proof (cases "r \<le> w")
  case False
  have "(w - r) mod 32 = (w - r + 32) mod 32" by (rule mod_add_self2 [symmetric])
  also have "\<dots> = w - r + 32" by (rule mod_pos_pos_trivial) (use assms False in simp_all)
  finally show ?thesis using False by simp
qed (use assms in simp)

lemma uart_next: "0 \<le> w \<Longrightarrow> w < 32 \<Longrightarrow> (w + 1) mod 32 = (if w = 31 then 0 else w + 1)" for w :: int
  by (cases "w = 31") simp_all

lemma uart_at: "0 \<le> r \<Longrightarrow> r < 32 \<Longrightarrow> 0 \<le> d \<Longrightarrow> d < 32 \<Longrightarrow> (r + d) mod 32 = (if r + d < 32 then r + d else r + d - 32)"
  for r d :: int
proof -
  assume a: "0 \<le> r" "r < 32" "0 \<le> d" "d < 32"
  have "(r + d) mod 32 = (r + d - 32 + 32) mod 32" by simp
  also have "\<dots> = (r + d - 32) mod 32" by (rule mod_add_self2)
  finally have "(r + d) mod 32 = (r + d - 32) mod 32" .
  moreover have "(r + d - 32) mod 32 = r + d - 32" if "\<not> r + d < 32" by (rule mod_pos_pos_trivial) (use a that in simp_all)
  ultimately show ?thesis using a by (cases "r + d < 32") simp_all
qed

interpretation uart_ring: byte_ring uart_put uart_get uart_full uart_empty uart_contents uart_inv 31
proof unfold_locales
  fix s :: "'a uart_state_scheme" and b :: u8
  assume i: "uart_inv s"
  have inv: "0 \<le> uart_tx_w s" "uart_tx_w s < 32" "0 \<le> uart_tx_r s" "uart_tx_r s < 32"
    using i by (simp_all add: uart_inv_def UART_TX_BUF_SIZE_def)
  define n where "n = nat ((uart_tx_w s - uart_tx_r s) mod 32)"
  have n: "int n = (if uart_tx_r s \<le> uart_tx_w s then uart_tx_w s - uart_tx_r s else uart_tx_w s - uart_tx_r s + 32)"
    using uart_gap [OF inv] inv by (simp add: n_def)
  have sm: "(uart_tx_w s + 1) smod 32 = (if uart_tx_w s = 31 then 0 else uart_tx_w s + 1)"
    "(uart_tx_r s + 1) smod 32 = (if uart_tx_r s = 31 then 0 else uart_tx_r s + 1)"
    using inv by (simp_all add: smod_nonneg uart_next)
  have len: "length (uart_contents s) = n" by (simp add: uart_contents_def n_def)
  show full: "uart_full s = (length (uart_contents s) = 31)"
    unfolding len uart_full_def UART_TX_BUF_SIZE_def sm using inv n by (auto split: if_splits)
  show vacant: "uart_empty s = (uart_contents s = [])"
    unfolding length_0_conv [symmetric] len uart_empty_def using inv n by (auto split: if_splits)
  show "length (uart_contents s) \<le> 31" unfolding len using inv n by (auto split: if_splits)
  {
    assume nf: "\<not> uart_full s"
    have n31: "int n < 31" using nf full len inv n by (auto split: if_splits)
    show "uart_inv (uart_put b s)" using inv by (simp add: uart_inv_def uart_put_def UART_TX_BUF_SIZE_def sm)
    have w: "uart_tx_w s = (uart_tx_r s + int n) mod 32"
      using inv n n31 by (subst uart_at) (auto split: if_splits)
    have c: "(uart_tx_r s + int k) mod 32 \<noteq> (uart_tx_r s + int n) mod 32" if "k < n" for k
      using that inv n31 by (subst (1 2) uart_at) auto
    have l: "nat (((if uart_tx_w s = 31 then 0 else uart_tx_w s + 1) - uart_tx_r s) mod 32) = Suc n"
      using inv n n31 by (subst uart_gap) (auto split: if_splits)
    have "uart_contents (uart_put b s) = map (\<lambda>k. ((uart_tx_buf s)(uart_tx_w s := b)) ((uart_tx_r s + int k) mod 32)) [0..<Suc n]"
      unfolding uart_contents_def by (simp add: uart_put_def UART_TX_BUF_SIZE_def sm l del: upt_Suc)
    also have "\<dots> = uart_contents s @ [b]"
      unfolding uart_contents_def n_def [symmetric] using c by (simp add: w [symmetric])
    finally show "uart_contents (uart_put b s) = uart_contents s @ [b]" .
  }
  {
    assume ne: "\<not> uart_empty s"
    show "uart_inv (snd (uart_get s))" using inv by (simp add: uart_inv_def uart_get_def UART_TX_BUF_SIZE_def sm)
    define r' where "r' = (if uart_tx_r s = 31 then 0 else uart_tx_r s + 1)"
    have l: "n = Suc (nat ((uart_tx_w s - r') mod 32))"
      using inv n ne unfolding r'_def by (subst uart_gap) (auto simp: uart_empty_def split: if_splits)
    have m: "(r' + int k) mod 32 = (uart_tx_r s + int (Suc k)) mod 32" for k by (simp add: r'_def add.assoc)
    show "uart_contents s = fst (uart_get s) # uart_contents (snd (uart_get s))"
      unfolding uart_contents_def n_def [symmetric] using inv
      by (subst l) (simp add: uart_get_def UART_TX_BUF_SIZE_def sm r'_def [symmetric] m upt_conv_Cons del: upt_Suc flip: map_Suc_upt)
  }
qed

section \<open>Sending\<close>

abbreviation idle_at :: "'a uart_state_scheme \<Rightarrow> nat \<Rightarrow> bool" where
  "idle_at s k \<equiv> lsr_at s (lsr_reads s + k) AND LSR_TX_IDLE \<noteq> 0"

text \<open>
  \<open>uartStart\<close> sends as long as the device is idle and bytes are left, and does the same inside the
  critical section of a lock.
\<close>

lemma uart_section:
  "uart_empty (in_section l s) = uart_empty s" "read_lsr (in_section l s) = (fst (read_lsr s), in_section l (snd (read_lsr s)))"
  "uart_get (in_section l s) = (fst (uart_get s), in_section l (snd (uart_get s)))"
  "WriteReg reg v (in_section l s) = in_section l (WriteReg reg v s)"
  "uart_full (in_section l s) = uart_full s" "uart_put b (in_section l s) = in_section l (uart_put b s)"
  "panicked (in_section l s) = panicked s"
  by (simp_all add: uart_empty_def read_lsr_def uart_get_def WriteReg_def uart_full_def uart_put_def in_section_def hart_defs)

definition sent_one :: "'a uart_state_scheme \<Rightarrow> 'a uart_state_scheme" where
  "sent_one s = WriteReg UART_THR (fst (uart_get s)) (wakeup Ch_uart (snd (uart_get (snd (read_lsr s)))))"

lemma uartStart_turn:
  "uartStart s = (if uart_empty s then Some s else if \<not> idle_at s 0 then Some (snd (read_lsr s)) else uartStart (sent_one s))"
  by (subst uartStart.simps) (simp add: read_lsr_def sent_one_def uart_get_def)

lemma sent_one_section: "sent_one (in_section l s) = in_section l (sent_one s)"
  by (simp add: sent_one_def uart_section wakeup_in_section)

lemma wakeup_uart [simp]:
  "uart_tx_buf (wakeup c s) = uart_tx_buf s" "uart_tx_w (wakeup c s) = uart_tx_w s" "uart_tx_r (wakeup c s) = uart_tx_r s"
  "lsr_at (wakeup c s) = lsr_at s" "lsr_reads (wakeup c s) = lsr_reads s" "uart_out (wakeup c s) = uart_out s"
  by (simp_all add: wakeup_def)

lemma sent_one_fields:
  assumes "uart_inv s" "\<not> uart_empty s"
  shows "uart_inv (sent_one s)" "uart_contents s = fst (uart_get s) # uart_contents (sent_one s)"
    "uart_out (sent_one s) = uart_out s @ [(UART_THR, fst (uart_get s))]" "idle_at (sent_one s) k = idle_at s (Suc k)"
    "ready l (sent_one s) = ready l s" "cons_contents (sent_one s) = cons_contents s"
proof -
  have c: "uart_contents (sent_one s) = uart_contents (snd (uart_get s))" "uart_inv (sent_one s) = uart_inv (snd (uart_get s))"
    by (simp_all add: sent_one_def uart_get_def read_lsr_def WriteReg_def uart_contents_def uart_inv_def)
  show "uart_inv (sent_one s)" "uart_contents s = fst (uart_get s) # uart_contents (sent_one s)"
    using c uart_ring.get_inv [OF assms] uart_ring.get_contents [OF assms] by simp_all
  show "uart_out (sent_one s) = uart_out s @ [(UART_THR, fst (uart_get s))]" "idle_at (sent_one s) k = idle_at s (Suc k)"
    by (simp_all add: sent_one_def uart_get_def read_lsr_def WriteReg_def)
  show "ready l (sent_one s) = ready l s"
    by (simp add: sent_one_def uart_get_def read_lsr_def WriteReg_def wakeup_def ready_def quiet_def lock_free_def hart_defs)
  show "cons_contents (sent_one s) = cons_contents s"
    by (simp add: sent_one_def uart_get_def read_lsr_def WriteReg_def cons_contents_def)
qed

lemma uartStart_sends:
  assumes "uart_inv s" "ready l s"
  shows "\<exists>n s'. uartStart s = Some s' \<and> uartStart (in_section l s) = Some (in_section l s') \<and>
    n \<le> length (uart_contents s) \<and> (\<forall>k<n. idle_at s k) \<and> (n < length (uart_contents s) \<longrightarrow> \<not> idle_at s n) \<and>
    uart_out s' = uart_out s @ map (Pair UART_THR) (take n (uart_contents s)) \<and>
    uart_contents s' = drop n (uart_contents s) \<and> uart_inv s' \<and> ready l s' \<and> cons_contents s' = cons_contents s"
  using assms
proof (induction "length (uart_contents s)" arbitrary: s)
  case 0
  then have "uart_empty s" using uart_ring.vacant_iff [of s] by simp
  then have "uartStart s = Some s" "uartStart (in_section l s) = Some (in_section l s)"
    by (simp_all add: uartStart_turn uart_section)
  then show ?case using 0 by (intro exI [of _ 0] exI [of _ s]) simp
next
  case (Suc m)
  then have e: "\<not> uart_empty s" using uart_ring.vacant_iff [of s] by auto
  have i: "idle_at (in_section l s) 0 = idle_at s 0" by (simp add: in_section_def)
  show ?case
  proof (cases "idle_at s 0")
    case False
    then have "uartStart s = Some (snd (read_lsr s))" "uartStart (in_section l s) = Some (in_section l (snd (read_lsr s)))"
      using e i by (simp_all add: uartStart_turn uart_section)
    then show ?thesis using False Suc.prems
      by (intro exI [of _ 0] exI [of _ "snd (read_lsr s)"])
         (simp add: read_lsr_def uart_contents_def uart_inv_def ready_def quiet_def lock_free_def hart_defs cons_contents_def)
  next
    case True
    note f = sent_one_fields [OF Suc.prems(1) e]
    have "m = length (uart_contents (sent_one s))" using Suc.hyps(2) f(2) by simp
    from Suc.hyps(1) [OF this f(1)] Suc.prems(2) f(5) obtain n s' where h: "uartStart (sent_one s) = Some s'"
      "uartStart (in_section l (sent_one s)) = Some (in_section l s')" "n \<le> length (uart_contents (sent_one s))"
      "\<forall>k<n. idle_at s (Suc k)" "n < length (uart_contents (sent_one s)) \<longrightarrow> \<not> idle_at s (Suc n)"
      "uart_out s' = uart_out (sent_one s) @ map (Pair UART_THR) (take n (uart_contents (sent_one s)))"
      "uart_contents s' = drop n (uart_contents (sent_one s))" "uart_inv s'" "ready l s'"
      "cons_contents s' = cons_contents (sent_one s)"
      unfolding f(4) by blast
    have "uartStart s = Some s'" "uartStart (in_section l s) = Some (in_section l s')"
      using True e i h(1,2) by (simp_all add: uartStart_turn [of s] uartStart_turn [of "in_section l s"] uart_section sent_one_section)
    moreover have "\<forall>k<Suc n. idle_at s k" using True h(4) by (metis less_Suc_eq_0_disj)
    ultimately show ?thesis using h f(2,3,6) by (intro exI [of _ "Suc n"] exI [of _ s']) simp
  qed
qed

text \<open>C30: from a hart that holds no lock, \<open>uartputc\<close> never returns after a panic and stops, waiting for room,
  when the buffer is full; otherwise it returns with the lock free, and the device has been given, in
  order, the oldest bytes of the buffer with the new one at their end, exactly as many as the device
  reported itself idle for in a row, and the buffer keeps the others.
\<close>

theorem uartputc_spec:
  assumes "uart_inv s" "ready L_uart s"
  shows "if panicked s then uartputc pswitch c s = None
    else if length (uart_contents s) = 31 then \<exists>e. uartputc pswitch c s = Some (Inl e)
    else \<exists>n s' bytes. bytes = uart_contents s @ [word_of_int c] \<and> uartputc pswitch c s = Some (Inr s') \<and>
      n \<le> length bytes \<and> (\<forall>k<n. idle_at s k) \<and> (n < length bytes \<longrightarrow> \<not> idle_at s n) \<and>
      uart_out s' = uart_out s @ map (Pair UART_THR) (take n bytes) \<and>
      uart_contents s' = drop n bytes \<and> uart_inv s' \<and> ready L_uart s'"
proof -
  have a: "acquire L_uart s = Inr (in_section L_uart s)" using assms(2) by (simp add: ready_section)
  have f: "uart_full s \<longleftrightarrow> length (uart_contents s) = 31" using uart_ring.full_iff [OF assms(1)] .
  consider "panicked s" | "\<not> panicked s" "uart_full s" | "\<not> panicked s" "\<not> uart_full s" by blast
  then show ?thesis
  proof cases
    case 1
    then show ?thesis by (simp add: uartputc_def a opt_bnd_simps uart_section)
  next
    case 2
    obtain e where "sleep pswitch Ch_uart L_uart (in_section L_uart s) = Inl e" using sleep_Inl by blast
    with 2 have "uartputc_loop pswitch c (in_section L_uart s) = Some (Inl e)"
      by (subst uartputc_loop.simps) (simp add: uart_section)
    with 2 f show ?thesis by (simp add: uartputc_def a opt_bnd_simps uart_section)
  next
    case 3
    let ?p = "uart_put (word_of_int c) s"
    have p: "uart_inv ?p" "uart_contents ?p = uart_contents s @ [word_of_int c]"
      using uart_ring.put_inv [OF assms(1) 3(2)] uart_ring.put_contents [OF assms(1) 3(2)] by simp_all
    have r: "ready L_uart ?p" "idle_at ?p k = idle_at s k" "uart_out ?p = uart_out s" for k
      using assms(2) by (simp_all add: uart_put_def ready_def quiet_def lock_free_def hart_defs)
    from uartStart_sends [OF p(1) r(1)] obtain n s' where h: "uartStart (in_section L_uart ?p) = Some (in_section L_uart s')"
      "n \<le> length (uart_contents ?p)" "\<forall>k<n. idle_at s k" "n < length (uart_contents ?p) \<longrightarrow> \<not> idle_at s n"
      "uart_out s' = uart_out s @ map (Pair UART_THR) (take n (uart_contents ?p))"
      "uart_contents s' = drop n (uart_contents ?p)" "uart_inv s'" "ready L_uart s'"
      unfolding r(2,3) by blast
    have "uartputc_loop pswitch c (in_section L_uart s) = Some (release L_uart (in_section L_uart s'))"
      using 3 by (subst uartputc_loop.simps) (simp add: uart_section h(1))
    also have "\<dots> = Some (Inr (masked s'))" using h(8) by (simp add: ready_section)
    finally have "uartputc pswitch c s = Some (Inr (masked s'))" using 3 by (simp add: uartputc_def a opt_bnd_simps uart_section)
    moreover have "uart_out (masked s') = uart_out s'" "uart_contents (masked s') = uart_contents s'"
      "uart_inv (masked s') = uart_inv s'" "ready L_uart (masked s') = ready L_uart s'"
      by (simp_all add: masked_def uart_contents_def uart_inv_def ready_def quiet_def lock_free_def hart_defs)
    ultimately show ?thesis using 3 f h(2-8) p(2) by auto
  qed
qed

section \<open>Receiving\<close>

abbreviation received_at :: "'a uart_state_scheme \<Rightarrow> nat \<Rightarrow> bool" where
  "received_at s k \<equiv> lsr_at s (lsr_reads s + k) AND 1 \<noteq> 0"

lemma consputc_uart [simp]:
  "uart_tx_buf (consputc c s) = uart_tx_buf s" "uart_tx_w (consputc c s) = uart_tx_w s" "uart_tx_r (consputc c s) = uart_tx_r s"
  "lsr_at (consputc c s) = lsr_at s" "lsr_reads (consputc c s) = lsr_reads s" "uart_out (consputc c s) = uart_out s"
  "rhr_at (consputc c s) = rhr_at s" "rhr_reads (consputc c s) = rhr_reads s" "ready l (consputc c s) = ready l s"
  by (simp_all add: consputc_def sbi_console_putchar_def ready_def quiet_def lock_free_def hart_defs)

lemma consoleintr_uart [simp]:
  "uart_tx_buf (consoleintr c s) = uart_tx_buf s" "uart_tx_w (consoleintr c s) = uart_tx_w s" "uart_tx_r (consoleintr c s) = uart_tx_r s"
  "lsr_at (consoleintr c s) = lsr_at s" "lsr_reads (consoleintr c s) = lsr_reads s" "uart_out (consoleintr c s) = uart_out s"
  "rhr_at (consoleintr c s) = rhr_at s" "rhr_reads (consoleintr c s) = rhr_reads s"
  by (simp_all add: consoleintr_def cons_put_def wakeup_def Let_def)

lemma ready_wakeup [simp]: "ready l (wakeup c s) = ready l s"
  by (simp add: ready_def)

lemma consoleintr_ready [simp]: "ready l (consoleintr c s) = ready l s" for s :: "'a uart_state_scheme"
proof -
  have "ready l (s\<lparr>cons_w := w\<rparr>) = ready l s" "ready l (cons_put b s) = ready l s" for w b and s :: "'a uart_state_scheme"
    by (simp_all add: ready_def quiet_def lock_free_def hart_defs cons_put_def)
  then show ?thesis by (simp add: consoleintr_def Let_def)
qed

text \<open>The bytes received reach the console as keys, in order, until the device has no more.\<close>

lemma uartIntr_loop_reads:
  assumes "\<forall>k<n. received_at s k" "\<not> received_at s n" "cons_inv s" "length (cons_contents s) + n \<le> 128" "uart_inv s" "ready l s"
    "sint (cons_w s) + int n < 2 ^ 31"
  shows "\<exists>s'. uartIntr_loop s = Some s' \<and> cons_inv s' \<and> uart_inv s' \<and> ready l s' \<and>
    cons_contents s' = fold edit_key (map (\<lambda>k. uint (rhr_at s (rhr_reads s + k))) [0..<n]) (cons_contents s) \<and>
    uart_contents s' = uart_contents s \<and> uart_out s' = uart_out s \<and> lsr_at s' = lsr_at s \<and> lsr_reads s' = lsr_reads s + Suc n"
  using assms
proof (induction n arbitrary: s)
  case 0
  then have "uartIntr_loop s = Some (snd (read_lsr s))"
    by (subst uartIntr_loop.simps) (simp add: uartgetc_def read_lsr_def Let_def)
  then show ?case using 0
    by (simp add: read_lsr_def cons_inv_def cons_contents_def uart_inv_def uart_contents_def ready_def quiet_def lock_free_def hart_defs)
next
  case (Suc n)
  let ?s = "snd (read_rhr (snd (read_lsr s)))"
  let ?c = "uint (rhr_at s (rhr_reads s))"
  have r: "received_at s 0" using Suc.prems(1) by blast
  have "?c \<noteq> - 1" using uint_ge_0 [of "rhr_at s (rhr_reads s)"] by linarith
  then have u: "uartIntr_loop s = uartIntr_loop (consoleintr ?c ?s)"
    using r by (subst uartIntr_loop.simps) (simp add: uartgetc_def read_lsr_def read_rhr_def Let_def)
  have f: "cons_inv ?s = cons_inv s" "cons_contents ?s = cons_contents s" "uart_inv ?s = uart_inv s"
    "uart_contents ?s = uart_contents s" "ready l ?s = ready l s" "lsr_at ?s = lsr_at s" "rhr_at ?s = rhr_at s"
    "lsr_reads ?s = Suc (lsr_reads s)" "rhr_reads ?s = Suc (rhr_reads s)" "uart_out ?s = uart_out s" "cons_w ?s = cons_w s"
    by (simp_all add: read_lsr_def read_rhr_def cons_inv_def cons_contents_def uart_inv_def uart_contents_def
        ready_def quiet_def lock_free_def hart_defs)
  have c: "cons_contents (consoleintr ?c ?s) = edit_key ?c (cons_contents s)" "cons_inv (consoleintr ?c ?s)"
    "sint (cons_w (consoleintr ?c ?s)) \<le> sint (cons_w s) + 1"
    using consoleintr_contents [of ?s ?c] Suc.prems(3,4,7) f(1,2,11) by simp_all
  have b: "sint (cons_w (consoleintr ?c ?s)) + int n < 2 ^ 31" using c(3) Suc.prems(7) by simp
  have i: "uart_inv (consoleintr ?c ?s) = uart_inv s" "uart_contents (consoleintr ?c ?s) = uart_contents s"
    using f(3,4) by (simp_all add: uart_inv_def uart_contents_def)
  have k: "\<forall>k<n. received_at (consoleintr ?c ?s) k" "\<not> received_at (consoleintr ?c ?s) n"
    using Suc.prems(1,2) f(6,8) by auto
  have l: "length (cons_contents (consoleintr ?c ?s)) + n \<le> 128"
    using Suc.prems(4) edit_key_length [of ?c "cons_contents s"] unfolding c(1) by linarith
  have s: "map (\<lambda>k. uint (rhr_at s (rhr_reads s + k))) [0..<Suc n] = ?c # map (\<lambda>k. uint (rhr_at s (Suc (rhr_reads s) + k))) [0..<n]"
    by (simp add: upt_conv_Cons del: upt_Suc flip: map_Suc_upt)
  show ?case
    using Suc.IH [OF k c(2) l] Suc.prems(5,6) b i f unfolding u s c(1) by (simp del: upt_Suc)
qed

text \<open>C31: when the device has \<open>n\<close> bytes for a console with room, whose write index stays an \<open>int\<close>, and then
  none, its interrupt is handled to the end from a hart without locks: the console's line is edited by those bytes in order, and the oldest
  bytes of the transmit buffer leave for the device while it is idle, the others staying in order.
\<close>

theorem uartIntr_spec:
  assumes "\<forall>k<n. received_at s k" "\<not> received_at s n" "cons_inv s" "length (cons_contents s) + n \<le> 128"
    and "uart_inv s" "ready L_uart s" "sint (cons_w s) + int n < 2 ^ 31"
  shows "\<exists>m s'. uartIntr s = Some (Inr s') \<and>
    cons_contents s' = fold edit_key (map (\<lambda>k. uint (rhr_at s (rhr_reads s + k))) [0..<n]) (cons_contents s) \<and>
    m \<le> length (uart_contents s) \<and> (\<forall>k<m. idle_at s (Suc n + k)) \<and>
    (m < length (uart_contents s) \<longrightarrow> \<not> idle_at s (Suc n + m)) \<and>
    uart_out s' = uart_out s @ map (Pair UART_THR) (take m (uart_contents s)) \<and>
    uart_contents s' = drop m (uart_contents s) \<and> uart_inv s' \<and> ready L_uart s'"
proof -
  from uartIntr_loop_reads [OF assms] obtain t where t: "uartIntr_loop s = Some t" "uart_inv t" "ready L_uart t"
    "cons_contents t = fold edit_key (map (\<lambda>k. uint (rhr_at s (rhr_reads s + k))) [0..<n]) (cons_contents s)"
    "uart_contents t = uart_contents s" "uart_out t = uart_out s" "idle_at t k = idle_at s (Suc n + k)" for k
    by (auto simp: add.assoc)
  from uartStart_sends [OF t(2,3)] obtain m s' where h: "uartStart (in_section L_uart t) = Some (in_section L_uart s')"
    "m \<le> length (uart_contents t)" "\<forall>k<m. idle_at s (Suc n + k)" "m < length (uart_contents t) \<longrightarrow> \<not> idle_at s (Suc n + m)"
    "uart_out s' = uart_out t @ map (Pair UART_THR) (take m (uart_contents t))"
    "uart_contents s' = drop m (uart_contents t)" "uart_inv s'" "ready L_uart s'" "cons_contents s' = cons_contents t"
    unfolding t(7) by blast
  have "uartIntr s = Some (Inr (masked s'))"
    using t(1,3) h(1,8) by (simp add: uartIntr_def ready_section opt_bnd_simps)
  moreover have "uart_out (masked s') = uart_out s'" "uart_contents (masked s') = uart_contents s'"
    "uart_inv (masked s') = uart_inv s'" "ready L_uart (masked s') = ready L_uart s'" "cons_contents (masked s') = cons_contents s'"
    by (simp_all add: masked_def uart_contents_def uart_inv_def cons_contents_def ready_def quiet_def lock_free_def hart_defs)
  ultimately show ?thesis using h(2-9) t(4-6) by (intro exI [of _ m] exI [of _ "masked s'"]) simp
qed

section \<open>A port\<close>

definition uart_hart :: uart_state where
  "uart_hart = console_state.extend console_hart (uart_state.fields (\<lambda>_. 0) 0 0 False (\<lambda>k. if k = 0 then 33 else 32) 0 (\<lambda>_. 65) 0 [])"

lemma uart_hart_ready: "ready l uart_hart"
  using sleepy_ready [of l]
  by (simp add: uart_hart_def console_hart_def pipe_hart_def sleep_state.defs pipe_state.defs console_state.defs uart_state.defs
      ready_def quiet_def lock_free_def hart_defs)

theorem uartputc_spec_witness:
  "\<exists>s'. uartputc (\<lambda>_ _ s. Inr s) 66 uart_hart = Some (Inr s') \<and> uart_out s' = [(UART_THR, 66)]"
proof -
  have f: "uart_inv uart_hart" "uart_contents uart_hart = []" "\<not> panicked uart_hart" "uart_out uart_hart = []" "idle_at uart_hart 0"
    by (simp_all add: uart_hart_def console_state.defs uart_state.defs uart_inv_def uart_contents_def UART_TX_BUF_SIZE_def LSR_TX_IDLE_def)
  show ?thesis using uartputc_spec [OF f(1) uart_hart_ready, of "\<lambda>_ _ s. Inr s" 66] f(2-5)
    by (auto simp: le_Suc_eq)
qed

theorem uartIntr_spec_witness:
  "\<exists>s'. uartIntr uart_hart = Some (Inr s') \<and> cons_contents s' = [65]"
proof -
  have f: "received_at uart_hart 0" "\<not> received_at uart_hart 1" "cons_inv uart_hart" "uart_inv uart_hart" "cons_contents uart_hart = []"
    "uint (rhr_at uart_hart (rhr_reads uart_hart)) = 65"
    "cons_w uart_hart = 0"
    by (simp_all add: uart_hart_def console_hart_def pipe_state.defs console_state.defs uart_state.defs uart_inv_def cons_inv_def
        cons_contents_def UART_TX_BUF_SIZE_def INPUT_BUF_def)
  show ?thesis using uartIntr_spec [OF _ f(2,3) _ f(4) uart_hart_ready] f(1,5-7) by (auto simp: edit_key_def)
qed

end
