(* ===== verification/Ulib.thy ===== *)
theory Ulib
  imports Console
begin

text \<open>
  The library of the user programs, \<open>user/ulib.c\<close> and \<open>user/printf.c\<close>, over the memory of a process. The
  system calls it makes are stubs the build generates: \<open>read\<close> is an argument, and what \<open>write\<close> is given
  is listed.
\<close>

section \<open>Strings and blocks\<close>

partial_function (option) u_strcpy :: "mem \<Rightarrow> u64 \<Rightarrow> u64 \<Rightarrow> mem option" where
  "u_strcpy m s t = (let c = m t; m = m(s := c) in if c \<noteq> 0 then u_strcpy m (s + 1) (t + 1) else Some m)"

partial_function (option) u_strcmp :: "mem \<Rightarrow> u64 \<Rightarrow> u64 \<Rightarrow> int option" where
  "u_strcmp m p q = (if m p \<noteq> 0 \<and> m p = m q then u_strcmp m (p + 1) (q + 1) else Some (uint (m p) - uint (m q)))"

partial_function (option) u_strlen_from :: "mem \<Rightarrow> u64 \<Rightarrow> nat \<Rightarrow> u32 option" where
  "u_strlen_from m s n = (if m (s + word_of_nat n) \<noteq> 0 then u_strlen_from m s (Suc n) else Some (word_of_nat n))"

definition u_strlen :: "mem \<Rightarrow> u64 \<Rightarrow> u32 option" where "u_strlen m s = u_strlen_from m s 0"

definition u_memset :: "mem \<Rightarrow> u64 \<Rightarrow> int \<Rightarrow> u32 \<Rightarrow> mem" where
  "u_memset m dst c n = memset_loop (unat n) m dst (word_of_int c)"

partial_function (option) u_strchr :: "mem \<Rightarrow> u64 \<Rightarrow> u8 \<Rightarrow> u64 option" where
  "u_strchr m s c = (if m s = 0 then Some 0 else if m s = c then Some s else u_strchr m (s + 1) c)"

text \<open>\<open>n\<close> is an \<open>int\<close>: a sum that does not fit is undefined.\<close>

partial_function (option) u_atoi_from :: "mem \<Rightarrow> u64 \<Rightarrow> int \<Rightarrow> int res option" where
  "u_atoi_from m s n =
     (if 48 \<le> m s \<and> m s \<le> 57 then
        (if n * 10 + uint (m s) \<ge> 2 ^ 31 then Some (Inl (Undef ''atoi''))
         else u_atoi_from m (s + 1) (n * 10 + uint (m s) - 48))
      else Some (Inr n))"

definition u_atoi :: "mem \<Rightarrow> u64 \<Rightarrow> int res option" where "u_atoi m s = u_atoi_from m s 0"

definition u_memmove :: "mem \<Rightarrow> u64 \<Rightarrow> u64 \<Rightarrow> int \<Rightarrow> mem" where
  "u_memmove m vdst vsrc n =
     (if vsrc > vdst then copy_up (nat n) m vdst vsrc
      else copy_down (nat n) m (vdst + word_of_int n) (vsrc + word_of_int n))"

definition u_memcmp :: "mem \<Rightarrow> u64 \<Rightarrow> u64 \<Rightarrow> u32 \<Rightarrow> int" where
  "u_memcmp m s1 s2 n = memcmp_loop (unat n) m s1 s2"

definition u_memcpy :: "mem \<Rightarrow> u64 \<Rightarrow> u64 \<Rightarrow> u32 \<Rightarrow> mem" where
  "u_memcpy m dst src n = u_memmove m dst src (sint n)"

text \<open>
  \<open>rd\<close> is \<open>read(0, &c, 1)\<close>: its result and the byte. The first argument of the loop is how often \<open>i + 1 < max\<close>
  can still hold; the result has the final \<open>i\<close>.
\<close>

fun u_gets_loop :: "('s \<Rightarrow> int \<times> u8 \<times> 's) \<Rightarrow> nat \<Rightarrow> u64 \<Rightarrow> nat \<Rightarrow> mem \<times> 's \<Rightarrow> nat \<times> mem \<times> 's" where
  "u_gets_loop rd 0 buf i (m, s) = (i, m, s)"
| "u_gets_loop rd (Suc k) buf i (m, s) =
     (case rd s of (cc, c, s) \<Rightarrow>
        if cc < 1 then (i, m, s)
        else (let m = m(buf + word_of_nat i := c) in
              if c = 10 \<or> c = 13 then (Suc i, m, s) else u_gets_loop rd k buf (Suc i) (m, s)))"

definition u_gets :: "('s \<Rightarrow> int \<times> u8 \<times> 's) \<Rightarrow> u64 \<Rightarrow> int \<Rightarrow> mem \<times> 's \<Rightarrow> mem \<times> 's" where
  "u_gets rd buf mx ms =
     (case u_gets_loop rd (nat (mx - 1)) buf 0 ms of (i, m, s) \<Rightarrow> (m(buf + word_of_nat i := 0), s))"

section \<open>Formatted output\<close>

definition u_digits :: "u8 list" where
  "u_digits = [48, 49, 50, 51, 52, 53, 54, 55, 56, 57, 65, 66, 67, 68, 69, 70]"

text \<open>What a call writes, least digit first, then reversed; only the bases 10 and 16 are passed.\<close>

function u_printint_digits :: "u32 \<Rightarrow> u32 \<Rightarrow> u8 list" where
  "u_printint_digits x base =
     (if base < 2 then []
      else u_digits ! unat (x mod base) # (if x div base \<noteq> 0 then u_printint_digits (x div base) base else []))"
  by pat_completeness auto
termination
  by (relation "measure (\<lambda>(x, base). unat x)")
     (auto simp: unat_div word_less_nat_alt not_less unat_gt_0 intro!: div_less_dividend intro: gr0I)

declare u_printint_digits.simps [simp del]

definition u_printint :: "u32 \<Rightarrow> u32 \<Rightarrow> bool \<Rightarrow> u8 list" where
  "u_printint xx base sign =
     (let neg = sign \<and> sint xx < 0;
          x = (if neg then - xx else xx);
          buf = u_printint_digits x base
      in rev (if neg then buf @ [45] else buf))"

fun u_printptr_digits :: "nat \<Rightarrow> u64 \<Rightarrow> u8 list" where
  "u_printptr_digits 0 x = []"
| "u_printptr_digits (Suc n) x = u_digits ! unat (drop_bit 60 x) # u_printptr_digits n (push_bit 4 x)"

definition u_printptr :: "u64 \<Rightarrow> u8 list" where
  "u_printptr x = [48, 120] @ u_printptr_digits 16 x"

text \<open>
  The loop over the format with its \<open>state\<close>, which is set after a percent sign. A missing or ill-typed
  argument is undefined; \<open>%l\<close> takes a 64-bit argument and prints its low half.
\<close>

fun u_vprintf :: "bool \<Rightarrow> u8 list \<Rightarrow> fmt_arg list \<Rightarrow> u8 list res" where
  "u_vprintf state [] args = Inr []"
| "u_vprintf False (c # fmt) args =
     (if c = 37 then u_vprintf True fmt args else bnd (u_vprintf False fmt args) (\<lambda>out. Inr (c # out)))"
| "u_vprintf True (c # fmt) args =
     (if c = 100 then
        (case args of A_int v # args \<Rightarrow> bnd (u_vprintf False fmt args) (\<lambda>out. Inr (u_printint v 10 True @ out))
         | _ \<Rightarrow> Inl (Undef ''va_arg''))
      else if c = 108 then
        (case args of A_ptr v # args \<Rightarrow> bnd (u_vprintf False fmt args) (\<lambda>out. Inr (u_printint (ucast v) 10 False @ out))
         | _ \<Rightarrow> Inl (Undef ''va_arg''))
      else if c = 120 then
        (case args of A_int v # args \<Rightarrow> bnd (u_vprintf False fmt args) (\<lambda>out. Inr (u_printint v 16 False @ out))
         | _ \<Rightarrow> Inl (Undef ''va_arg''))
      else if c = 112 then
        (case args of A_ptr v # args \<Rightarrow> bnd (u_vprintf False fmt args) (\<lambda>out. Inr (u_printptr v @ out))
         | _ \<Rightarrow> Inl (Undef ''va_arg''))
      else if c = 115 then
        (case args of
           A_str v # args \<Rightarrow> bnd (u_vprintf False fmt args)
             (\<lambda>out. Inr ((case v of None \<Rightarrow> [40, 110, 117, 108, 108, 41] | Some b \<Rightarrow> b) @ out))
         | _ \<Rightarrow> Inl (Undef ''va_arg''))
      else if c = 99 then
        (case args of A_int v # args \<Rightarrow> bnd (u_vprintf False fmt args) (\<lambda>out. Inr (ucast v # out))
         | _ \<Rightarrow> Inl (Undef ''va_arg''))
      else if c = 37 then bnd (u_vprintf False fmt args) (\<lambda>out. Inr (c # out))
      else bnd (u_vprintf False fmt args) (\<lambda>out. Inr (37 # c # out)))"

text \<open>The bytes written, each with its descriptor.\<close>

definition u_fprintf :: "int \<Rightarrow> u8 list \<Rightarrow> fmt_arg list \<Rightarrow> (int \<times> u8) list res" where
  "u_fprintf fd fmt args = bnd (u_vprintf False fmt args) (\<lambda>out. Inr (map (Pair fd) out))"

definition u_printf :: "u8 list \<Rightarrow> fmt_arg list \<Rightarrow> (int \<times> u8) list res" where
  "u_printf fmt args = u_fprintf 1 fmt args"

section \<open>Facts\<close>

text \<open>A copied string is the string, and nothing behind its end changes.\<close>

lemma u_strcpy_copies:
  assumes "cstr m t xs" "length xs < 2 ^ 64 - 1" "\<forall>i\<le>length xs. \<forall>j\<le>length xs. s + word_of_nat i \<noteq> t + word_of_nat j"
  shows "\<exists>m'. u_strcpy m s t = Some m' \<and> cstr m' s xs \<and> (\<forall>x. (\<forall>i\<le>length xs. x \<noteq> s + word_of_nat i) \<longrightarrow> m' x = m x)"
  using assms
proof (induction xs arbitrary: m s t)
  case Nil
  have "m t = 0" using Nil.prems(1) by simp
  then have "u_strcpy m s t = Some (m(s := 0))" by (subst u_strcpy.simps) (simp only: Let_def simp_thms if_False)
  moreover have "cstr (m(s := 0)) s []" "\<forall>x. (\<forall>i\<le>length []. x \<noteq> s + word_of_nat i) \<longrightarrow> (m(s := 0)) x = m x" by auto
  ultimately show ?case by blast
next
  case (Cons c cs)
  let ?m = "m(s := c)"
  have a: "a + 1 + word_of_nat i = a + word_of_nat (Suc i)" for a :: u64 and i by simp
  have ne: "\<forall>i\<le>length cs. \<forall>j\<le>length cs. s + 1 + word_of_nat i \<noteq> t + 1 + word_of_nat j"
    unfolding a using Cons.prems(3) by simp
  have "s \<noteq> t + 1 + word_of_nat j" if "j \<le> length cs" for j
    using Cons.prems(3) [rule_format, of 0 "Suc j"] that unfolding a by simp
  then have "\<forall>j\<le>length cs. s \<noteq> t + 1 + word_of_nat j" by blast
  moreover have "cstr (m(b := v)) a ys" if "cstr m a ys" "\<forall>j\<le>length ys. b \<noteq> a + word_of_nat j" for a b v ys
    using that
  proof (induction ys arbitrary: a)
    case (Cons y ys)
    have "b \<noteq> a" using Cons.prems(2) [rule_format, of 0] by simp
    moreover have "b \<noteq> a + 1 + word_of_nat j" if "j \<le> length ys" for j
      using Cons.prems(2) [rule_format, of "Suc j"] that unfolding a by simp
    ultimately show ?case using Cons.IH [of "a + 1"] Cons.prems(1) by simp
  qed simp
  ultimately have c: "cstr ?m (t + 1) cs" using Cons.prems(1) by simp
  have "length cs < 2 ^ 64 - 1" using Cons.prems(2) by simp
  from Cons.IH [OF c this ne] obtain m' where m': "u_strcpy ?m (s + 1) (t + 1) = Some m'" "cstr m' (s + 1) cs"
    "\<forall>x. (\<forall>i\<le>length cs. x \<noteq> s + 1 + word_of_nat i) \<longrightarrow> m' x = ?m x" by blast
  have "u_strcpy m s t = Some m'" using Cons.prems(1) m'(1) by (subst u_strcpy.simps) (simp add: Let_def)
  moreover have "s \<noteq> s + 1 + word_of_nat i" if "i \<le> length cs" for i
  proof
    assume "s = s + 1 + word_of_nat i"
    then have "(word_of_nat (Suc i) :: u64) = 0" unfolding a by (metis add_cancel_right_right)
    then have "unat (word_of_nat (Suc i) :: u64) = 0" by simp
    moreover have "unat (word_of_nat (Suc i) :: u64) = Suc i"
      using that Cons.prems(2) by (simp add: unat_of_nat del: of_nat_Suc)
    ultimately show False by simp
  qed
  then have "m' s = c" using m'(3) by simp
  moreover have "m' x = m x" if "\<forall>i\<le>length (c # cs). x \<noteq> s + word_of_nat i" for x
  proof -
    have "x \<noteq> s" using that [rule_format, of 0] by simp
    moreover have "x \<noteq> s + 1 + word_of_nat i" if "i \<le> length cs" for i
      using \<open>\<forall>i\<le>length (c # cs). x \<noteq> s + word_of_nat i\<close> [rule_format, of "Suc i"] that unfolding a by simp
    ultimately show ?thesis using m'(3) by simp
  qed
  ultimately show ?case using m'(2) Cons.prems(1) by auto
qed

text \<open>Comparing two strings gives 0 exactly when they are the same.\<close>

lemma u_strcmp_zero_iff:
  "cstr m p xs \<Longrightarrow> cstr m q ys \<Longrightarrow> \<exists>r. u_strcmp m p q = Some r \<and> (r = 0 \<longleftrightarrow> xs = ys)"
proof (induction xs arbitrary: p q ys)
  case Nil
  then have "u_strcmp m p q = Some (- uint (m q))" by (subst u_strcmp.simps) simp
  moreover have "uint (m q) = 0 \<longleftrightarrow> ys = []" using Nil.prems(2) by (cases ys) (auto simp: uint_0_iff)
  ultimately show ?case by auto
next
  case (Cons x xs)
  show ?case
  proof (cases ys)
    case (Cons y ys')
    show ?thesis
    proof (cases "x = y")
      case True
      then show ?thesis using Cons.IH [of "p + 1" "q + 1" ys'] Cons.prems \<open>ys = y # ys'\<close> by (subst u_strcmp.simps) auto
    next
      case False
      then show ?thesis using Cons.prems \<open>ys = y # ys'\<close> by (subst u_strcmp.simps) (auto simp: word_uint_eq_iff)
    qed
  qed (use Cons.prems in \<open>subst u_strcmp.simps; auto simp: word_uint_eq_iff\<close>)
qed

text \<open>The user's \<open>memmove\<close> does what the kernel's does, though it goes down whenever the source is lower.\<close>

lemma u_memmove_same:
  assumes "unat src + unat n < 2 ^ 64" "unat dst + unat n < 2 ^ 64" "unat n < 2 ^ 31"
  shows "u_memmove m dst src (int (unat n)) = memmove m dst src n"
proof
  fix x
  have c: "(word_of_int (int (unat n)) :: u64) = word_of_nat (unat n)" by simp
  show "u_memmove m dst src (int (unat n)) x = memmove m dst src n x"
  proof (cases "src > dst")
    case True
    then have "unat dst \<le> unat src" by (simp add: word_less_nat_alt)
    with True show ?thesis
      unfolding u_memmove_def memmove_apply [OF assms(1,2)]
      by (simp only: if_True copy_up_apply assms(1,2) nat_int simp_thms)
  next
    case False
    then have "unat src \<le> unat dst" by (simp add: word_less_nat_alt)
    with False show ?thesis
      unfolding u_memmove_def memmove_apply [OF assms(1,2)] c
      by (simp only: if_False copy_down_apply assms(1,2) nat_int simp_thms)
  qed
qed

end
