(* ===== verification/Spec2Isabelle.thy ===== *)
theory Spec2Isabelle
  imports Prelude Riscv KString Locks Spinsteps Kalloc Vm File Proc Proc_Facts FpioaTable Fpioa Fat32 Lfn FatDir FatWrite
    FatFormat Rtc Clock Sleeplock Ring Pipe Console Sdcard Bio Vfs Exec Syscall Trap Registers Sysctl Dmac Spi Gpiohs Uart Ulib
begin

text \<open>
  A verification development for the PageFaultOS kernel, in the build for the K210 (\<open>kern/Makefile\<close>,
  \<open>-DK210\<close> without \<open>QEMU\<close>). The kernel runs on two RV64 harts: \<open>init/main.cpp\<close> starts the console, the page
  allocator, paging, traps and the drivers, builds the process table and the first process, and
  enters the scheduler. Traps bring control back: system calls through \<open>syscall/\<close> to processes, files
  and memory, device interrupts through \<open>trap/\<close> to the console and the disk. Files live behind the
  virtual file system over a FAT32 volume, whose sectors pass a buffer cache to the SD card, which
  hangs on the SPI controller and is fed by bytes or by DMA.

  The theories follow the source files. Names of definitions are those of the code; a suffix or
  another name is used where Isabelle has the name already. Memory is a function from 64-bit addresses to bytes
  (\<open>Prelude\<close>), and what the code keeps in memory by pointer (free pages, page tables, strings, trap
  frames, sectors) is there; tables of structs are functions from indices to records, and a pointer to
  an entry is its index. The state grows by record extension in the order the parts rest on each
  other: \<open>hart_state\<close> (memory, harts, locks), the page allocator, processes, the timer, pipes, the
  console, the SD card, buffers, the file systems, traps, system calls.

  Results are values. \<open>'a res\<close> is a sum: \<open>Inl\<close> holds why the kernel does not go on (\<open>Panic\<close> with its
  message, \<open>Hang\<close> for a wait nothing ends, \<open>Undef\<close> for undefined behaviour of C such as a null pointer),
  \<open>Inr\<close> the result. A loop that need not end is a partial function into \<open>option\<close>, so that not returning is
  \<open>None\<close>; the properties state that the result is \<open>Some\<close>. Loops bounded by the code recurse on a
  number of turns, which is the code's own bound (the entries of a table, the 512 entries of a page
  table and its three levels, the 48 pins); no fuel is chosen besides those. Machine integers keep their
  width and wrap (the running indices of the pipes and the console are words); C \<open>int\<close>s that cannot overflow
  are \<open>int\<close>.

  The base:
    \<^item> \<open>Prelude\<close>: results, memory with little-endian loads and stores, shared lemmas and the collections
      \<open>res_simps\<close> and \<open>mem_simps\<close>. \<open>Riscv\<close>: the constants of \<open>libs/riscv.h\<close>, \<open>mm/memlayout.h\<close>, \<open>libs/param.h\<close>.
    \<^item> \<open>KString\<close>: \<open>libs/string.c\<close>; copying, comparing and C strings, with what each changes.
    \<^item> \<open>Locks\<close>: \<open>trap/intr.cpp\<close> and \<open>sync/spinlock.cpp\<close> on one hart, with the critical section as a
      derived state. \<open>Spinsteps\<close>: the same lock as atomic steps of several harts, an inductive step
      relation, with mutual exclusion by rule induction and the agreement of one hart's run with \<open>Locks\<close>.
    \<^item> \<open>Kalloc\<close>: \<open>mm/kalloc.cpp\<close> and \<open>mm/allocop.cpp\<close>; the chain through the free pages refines a pool of
      pages (locale \<open>page_allocator\<close>, interpreted on \<open>kalloc\<close> and \<open>kfree\<close>).
    \<^item> \<open>Vm\<close>: \<open>mm/vm.cpp\<close>; walking, mapping, translating, copying to and from processes and freeing of
      Sv39 tables, with the tables of a tree as a list of pages and well-formedness by levels.

  Processes, synchronisation and traps:
    \<^item> \<open>Proc\<close>, \<open>Proc_Facts\<close>: \<open>proc/proc.cpp\<close> and \<open>proc/proc.h\<close>. The switch of contexts is assembly and an
      argument \<open>pswitch\<close>; the facts show what a turn of the scheduler, descriptors and waiting do, and
      that the guard of \<open>pop_off\<close> keeps every nested section and every switch from returning.
    \<^item> \<open>Sleeplock\<close>: \<open>sync/sleeplock.cpp\<close>, \<open>sync/timer.cpp\<close>. \<open>Exec\<close>: \<open>proc/exec.cpp\<close> and \<open>exit\<close>; the page
      table \<open>exec\<close> leaves null is walked as one at address 0.
    \<^item> \<open>Trap\<close>: \<open>trap/trap.cpp\<close>, \<open>trap/plic.cpp\<close>, \<open>forkret\<close>. \<open>Syscall\<close>: the dispatcher and all handlers of
      \<open>syscall/\<close>.
    \<^item> \<open>Ring\<close>: the interface \<open>byte_ring\<close> of a bounded queue, its operations, laws and the order of bytes under
      any interleaving. \<open>Pipe\<close> (\<open>proc/pipe.cpp\<close>) and \<open>Uart\<close> (\<open>driver/uart.cpp\<close>) provide it, and their calls
      are specified over it. \<open>Console\<close> (\<open>console/console.cpp\<close>, \<open>libs/printf.c\<close>): the line a sequence of keys leaves
      in the input buffer, and that no read or write of a byte returns.

  Files:
    \<^item> \<open>File\<close>: the table of open files. \<open>Vfs\<close>: \<open>fs/vfs.cpp\<close>, \<open>fs/devicefs.cpp\<close>; paths, mounts and the calls.
    \<^item> \<open>Fat32\<close>: the one-sector cache, the allocation table (locale \<open>cell_table\<close>, interpreted on the reads and
      writes of the table), chains, handles, seeking and reading; the view of the disk through the cache
      is the abstraction the operations are specified on. An access to the device reaches \<open>vfsdread\<close> or \<open>vfsdwrite\<close>
      of \<open>Vfs\<close>; here the device is a map of sectors with the set of those at which an access stops the kernel
      (\<open>stops\<close>), and the first such access is recorded (\<open>halted\<close>), after which no result is given (\<open>settled\<close>). On
      the machine of the other theories every access stops (\<open>raw_devices_stop\<close>); the lemmas on contents are
      about a device that answers (\<open>answers\<close>), and no claim of the list below rests on that.
    \<^item> \<open>Lfn\<close>: long names in entries and back. \<open>FatDir\<close>: entries, comparison, the search of a directory as
      a scan of a list, paths, opening and reading by path. \<open>FatWrite\<close>: writing, creating, truncating,
      removing, listing and the methods of the file system class. \<open>FatFormat\<close>: mounting and formatting.
    \<^item> \<open>Bio\<close>: \<open>fs/bio.cpp\<close>, \<open>driver/disk.cpp\<close>; least recently used buffers.

  Devices. What a device does is a parameter of the state: what the k-th read of a register gives, or a
  function that lets it act; registers the kernel writes are fields or are listed in order.
    \<^item> \<open>FpioaTable\<close>, \<open>Fpioa\<close>: the pin multiplexer, its table of 256 functions. \<open>Gpiohs\<close>: \<open>driver/gpiohs.c\<close>.
    \<^item> \<open>Rtc\<close>, \<open>Clock\<close>: \<open>driver/rtc.c\<close>, \<open>driver/utils.c\<close>, \<open>driver/clock.cpp\<close>; the calendar against a count of
      days.
    \<^item> \<open>Registers\<close>: bit fields of packed structures, with the laws of reading after writing in the locale
      \<open>bit_fields\<close>; \<open>Sysctl\<close> (\<open>driver/sysctl.c\<close>), \<open>Dmac\<close> (\<open>driver/dmac.cpp\<close>) interpret it on their layouts,
      and \<open>Spi\<close> (\<open>driver/spi.c\<close>) puts the three together for transfers by DMA. The waits for a DMA channel run
      beside the processes (\<open>dma_state\<close>): a channel found busy puts the process to sleep, which never returns, so
      that a wait looks at its channel once.
    \<^item> \<open>Sdcard\<close>: \<open>driver/sdcard.cpp\<close> over the bytes of the bus.
  \<open>Ulib\<close> is the library of the user programs, \<open>user/ulib.c\<close> and \<open>user/printf.c\<close>.

  The properties are the theorems marked C1 to C40, each with its statement in words; where it has
  hypotheses a theorem of the same name with \<open>_witness\<close> applies it to a concrete state. Some show that
  code does not do what its place suggests (no context is ever switched, no sleep lock taken, no program
  loaded, no byte moved to or from a device): they are stated as the code behaves.

  Not modelled:
    \<^item> assembly (\<open>entry.S\<close>, \<open>switch.S\<close>, \<open>trampoline.S\<close>, \<open>kernelvec.S\<close>, \<open>TrapEntry.S\<close>) and inline CSR accesses, so
      also \<open>kvmInitHart\<close> and the copies that run in the current address space (\<open>copyout2\<close>, \<open>copyin2\<close>,
      \<open>copyinstr2\<close>); \<open>main\<close>, whose calls are modelled one by one; \<open>panic\<close> beyond its being a stop, and
      \<open>backtrace\<close>, which reads the frames of the machine stack;
    \<^item> output for debugging (\<open>vmprint\<close>, \<open>reg_info\<close>, \<open>tf_print_open_handles\<close>) and \<open>test_sdcard\<close>, which nothing calls;
    \<^item> branches for QEMU and with them \<open>fs/virtio.cpp\<close>; headers and functions that nothing compiled uses;
      functions that are declared and called but have no body in the repository are arguments;
    \<^item> the interleaving of harts beyond the spin lock: the calls of the kernel are sequential in one hart,
      with the waits as the places where others may run; the volatile registers a device changes by
      itself beyond those named above;
    \<^item> the widening copies of \<open>spi_send_data_normal_dma\<close> for widths its callers do not pass, and listing or reading
      of a directory into a user's buffer;
    \<^item> the SBI firmware \<open>rustsbi\<close>, the tools and the test programs started by \<open>user/init.c\<close>.
\<close>

end
